(* ===== verification/Prelude.thy ===== *)
theory Prelude
  imports Complex_Main "HOL-Library.AList"
begin

text \<open>
  Shared vocabulary of the development: HTTP and runtime errors as values, the pieces of the
  JavaScript runtime the services use (number formatting, \<open>parseInt\<close>, \<open>Map\<close>, \<open>Date\<close>,
  \<open>Math.round\<close>), database tables as row lists with the Prisma operations the code calls, and
  two interfaces stated as locales: \<open>row_store\<close> (a Prisma model delegate: look a row up by its
  primary key, update it by its primary key) and \<open>lifecycle\<close> (a step relation with an
  invariant that every step keeps).

  Conventions. A JavaScript string is a HOL \<open>string\<close>; a character outside ASCII appears as its
  UTF-8 bytes, and the white space and case tables are those of ASCII. A finite JavaScript number is an \<open>int\<close> where the code keeps it integral and a
  \<open>rat\<close> otherwise (coordinates, distances). \<open>undefined\<close>, \<open>null\<close> and \<open>NaN\<close> are \<open>None\<close>. Instants are
  milliseconds since the epoch.
\<close>

section \<open>Collections of facts\<close>

named_theorems table_simps \<open>laws of the table operations\<close>
named_theorems js_simps \<open>laws of the JavaScript runtime fragments\<close>

section \<open>Types and errors\<close>

type_synonym time = int
type_synonym id = int
type_synonym point = "rat \<times> rat" \<comment> \<open>PostGIS order: longitude, latitude\<close>

datatype exn =
    NotFoundException string
  | ForbiddenException string
  | UnprocessableEntityException string
  | BadRequestException string
  | UnauthorizedException string
  | RefreshTokenReuseError id \<comment> \<open>401 that also names the user whose sessions were revoked\<close>
  | ConflictException string
  | InternalServerErrorException string
  | RateLimitExceeded string int \<comment> \<open>429 with its \<open>retry_after_seconds\<close>\<close>
  | TooManyRequests string
  | ServiceUnavailableException string
  | BadRequestList "string list" \<comment> \<open>400 with every failing rule\<close>
  | Error string
  | TypeError string \<comment> \<open>a property read from \<open>undefined\<close>\<close>

definition is_ok :: "exn + 'a \<Rightarrow> bool" where
  "is_ok r = (case r of Inl _ \<Rightarrow> False | Inr _ \<Rightarrow> True)"

lemma is_ok_simps [simp]: "is_ok (Inr x)" "\<not> is_ok (Inl e)"
  by (simp_all add: is_ok_def)

lemma is_okE [elim]: "is_ok r \<Longrightarrow> (\<And>x. r = Inr x \<Longrightarrow> P) \<Longrightarrow> P"
  by (cases r) (auto simp: is_ok_def)

text \<open>\<open>x || y\<close> on optional strings: an empty string is falsy.\<close>

definition truthy_str :: "string option \<Rightarrow> bool" where
  "truthy_str s = (case s of None \<Rightarrow> False | Some t \<Rightarrow> t \<noteq> [])"

definition or_null :: "string option \<Rightarrow> string option" where
  "or_null s = (if truthy_str s then s else None)"

definition truthy_num :: "'a::zero option \<Rightarrow> bool" where
  "truthy_num n = (case n of None \<Rightarrow> False | Some x \<Rightarrow> x \<noteq> 0)"

lemma truthy_str_simps [simp]:
  "truthy_str None = False" "truthy_str (Some t) = (t \<noteq> [])"
  by (simp_all add: truthy_str_def)

lemma truthy_num_simps [simp]:
  "truthy_num None = False" "truthy_num (Some x) = (x \<noteq> 0)"
  by (simp_all add: truthy_num_def)

section \<open>Numbers and strings\<close>

definition digit_char :: "nat \<Rightarrow> char" where
  "digit_char d = char_of (48 + d)"

definition is_digit :: "char \<Rightarrow> bool" where
  "is_digit c \<longleftrightarrow> 48 \<le> (of_char c :: nat) \<and> (of_char c :: nat) \<le> 57"

definition digit_val :: "char \<Rightarrow> nat" where
  "digit_val c = (of_char c :: nat) - 48"

fun show_nat :: "nat \<Rightarrow> string" where
  "show_nat n = (if n < 10 then [digit_char n] else show_nat (n div 10) @ [digit_char (n mod 10)])"

declare show_nat.simps [simp del]

definition show_int :: "int \<Rightarrow> string" where
  "show_int i = (if i < 0 then CHR ''-'' # show_nat (nat (- i)) else show_nat (nat i))"

definition digits_val :: "nat \<Rightarrow> string \<Rightarrow> nat" where
  "digits_val acc s = foldl (\<lambda>a c. 10 * a + digit_val c) acc s"

text \<open>
  \<open>parseInt(s, 10)\<close>: leading white space is skipped, an optional sign is read, then the longest
  run of decimal digits; \<open>None\<close> is \<open>NaN\<close>.
\<close>

definition is_space :: "char \<Rightarrow> bool" where
  "is_space c \<longleftrightarrow> (of_char c :: nat) \<in> {9, 10, 11, 12, 13, 32}"

text \<open>\<open>String.prototype.trim\<close>\<close>

definition trim :: "string \<Rightarrow> string" where
  "trim s = rev (dropWhile is_space (rev (dropWhile is_space s)))"

definition parse_digits :: "string \<Rightarrow> nat option" where
  "parse_digits s = (let ds = takeWhile is_digit s in if ds = [] then None else Some (digits_val 0 ds))"

definition js_parse_int :: "string \<Rightarrow> int option" where
  "js_parse_int s =
     (case dropWhile is_space s of
        [] \<Rightarrow> None
      | c # cs \<Rightarrow>
          if c = CHR ''-'' then map_option (\<lambda>n. - int n) (parse_digits cs)
          else if c = CHR ''+'' then map_option int (parse_digits cs)
          else map_option int (parse_digits (c # cs)))"

lemma of_char_digit_char [simp]: "d < 10 \<Longrightarrow> (of_char (digit_char d) :: nat) = 48 + d"
  by (simp add: digit_char_def)

lemma is_digit_digit_char [simp]: "d < 10 \<Longrightarrow> is_digit (digit_char d)"
  by (simp add: is_digit_def)

lemma digit_val_digit_char [simp]: "d < 10 \<Longrightarrow> digit_val (digit_char d) = d"
  by (simp add: digit_val_def)

lemma digits_val_append: "digits_val acc (s @ t) = digits_val (digits_val acc s) t"
  by (simp add: digits_val_def)

lemma show_nat_digits: "list_all is_digit (show_nat n)"
proof (induction n rule: show_nat.induct)
  case (1 n)
  then show ?case by (subst show_nat.simps) auto
qed

lemma show_nat_nonempty [simp]: "show_nat n \<noteq> []"
  by (subst show_nat.simps) simp

lemma digits_val_show_nat: "digits_val 0 (show_nat n) = n"
proof (induction n rule: show_nat.induct)
  case (1 n)
  show ?case
  proof (cases "n < 10")
    case True
    then show ?thesis by (subst show_nat.simps) (simp add: digits_val_def)
  next
    case False
    with "1.IH" have "digits_val 0 (show_nat (n div 10)) = n div 10" by simp
    with False show ?thesis
      by (subst show_nat.simps) (simp add: digits_val_append, simp add: digits_val_def)
  qed
qed

lemma takeWhile_show_nat: "takeWhile is_digit (show_nat n) = show_nat n"
  using show_nat_digits [of n] by (simp add: takeWhile_eq_all_conv list_all_iff)

lemma parse_digits_show_nat [simp]: "parse_digits (show_nat n) = Some n"
  by (simp add: parse_digits_def takeWhile_show_nat digits_val_show_nat)

lemma show_nat_hd: "0 < n \<Longrightarrow> hd (show_nat n) \<noteq> CHR ''0''"
proof (induction n rule: show_nat.induct)
  case (1 n)
  show ?case
  proof (cases "n < 10")
    case True
    with "1.prems" have "(of_char (digit_char n) :: nat) \<noteq> of_char CHR ''0''" by simp
    then have "digit_char n \<noteq> CHR ''0''" by metis
    then show ?thesis using True by (subst show_nat.simps) simp
  next
    case False
    then show ?thesis using "1.IH" by (subst show_nat.simps) simp
  qed
qed

lemma hd_show_nat: "is_digit (hd (show_nat n))"
  using show_nat_digits [of n] by (cases "show_nat n") (simp_all add: list_all_iff)

lemma digit_not_special:
  "is_digit c \<Longrightarrow> \<not> is_space c \<and> c \<noteq> CHR ''-'' \<and> c \<noteq> CHR ''+''"
  by (auto simp: is_digit_def is_space_def)

lemma show_int_parse [simp, js_simps]: "js_parse_int (show_int i) = Some i"
proof (cases "i < 0")
  case True
  then show ?thesis by (simp add: js_parse_int_def show_int_def is_space_def)
next
  case False
  obtain c cs where cs: "show_nat (nat i) = c # cs"
    by (cases "show_nat (nat i)") simp_all
  then have "is_digit c" using hd_show_nat [of "nat i"] by simp
  then have "\<not> is_space c" "c \<noteq> CHR ''-''" "c \<noteq> CHR ''+''"
    using digit_not_special by auto
  moreover have "parse_digits (c # cs) = Some (nat i)"
    using parse_digits_show_nat [of "nat i"] cs by simp
  ultimately show ?thesis
    using False cs by (simp add: js_parse_int_def show_int_def)
qed

lemma show_int_inj [simp, js_simps]: "show_int i = show_int j \<longleftrightarrow> i = j"
  by (metis show_int_parse option.inject)

text \<open>\<open>Math.round\<close>, \<open>Math.ceil\<close> and \<open>Number.prototype.toFixed(1)\<close> on exact rationals.\<close>

definition math_round :: "rat \<Rightarrow> int" where
  "math_round x = \<lfloor>x + 1 / 2\<rfloor>"

definition to_fixed1 :: "rat \<Rightarrow> string" where
  "to_fixed1 x =
     (let n = math_round (x * 10) in
      if n < 0 then CHR ''-'' # show_int (\<bar>n\<bar> div 10) @ ''.'' @ show_int (\<bar>n\<bar> mod 10)
      else show_int (n div 10) @ ''.'' @ show_int (n mod 10))"

lemma math_round_near: "\<bar>of_int (math_round x) - x\<bar> \<le> 1 / 2"
proof -
  have "of_int \<lfloor>x + 1 / 2\<rfloor> \<le> x + 1 / 2" "x + 1 / 2 < of_int \<lfloor>x + 1 / 2\<rfloor> + 1"
    by linarith+
  then show ?thesis unfolding math_round_def by linarith
qed

definition ms_per_hour :: int where "ms_per_hour = 60 * 60 * 1000"
definition ms_per_day :: int where "ms_per_day = 24 * 60 * 60 * 1000"

text \<open>
  Local time. \<open>offset_at t\<close> is the zone offset at the instant \<open>t\<close> and \<open>offset_local l\<close> the offset the
  runtime applies to turn the local time value \<open>l\<close> back into an instant; together they give
  \<open>Date.prototype.setDate\<close> and \<open>getHours\<close>.
\<close>

record zone =
  offset_at :: "time \<Rightarrow> int"
  offset_local :: "int \<Rightarrow> int"

definition utc :: zone where
  "utc = \<lparr>offset_at = (\<lambda>_. 0), offset_local = (\<lambda>_. 0)\<rparr>"

definition add_days :: "zone \<Rightarrow> time \<Rightarrow> int \<Rightarrow> time" where
  "add_days z t n =
     (let l = t + offset_at z t + n * ms_per_day in l - offset_local z l)"

definition get_hours :: "zone \<Rightarrow> time \<Rightarrow> int" where
  "get_hours z t = ((t + offset_at z t) div ms_per_hour) mod 24"

text \<open>A zone whose offsets stay within \<open>d\<close> of each other around every instant.\<close>

definition zone_within :: "int \<Rightarrow> zone \<Rightarrow> bool" where
  "zone_within d z \<longleftrightarrow> (\<forall>t l. \<bar>offset_at z t - offset_local z l\<bar> \<le> d)"

lemma add_days_bounds:
  "zone_within d z \<Longrightarrow> \<bar>add_days z t n - (t + n * ms_per_day)\<bar> \<le> d"
  by (simp add: add_days_def zone_within_def Let_def)

lemma add_days_utc [simp]: "add_days utc t n = t + n * ms_per_day"
  by (simp add: add_days_def utc_def Let_def)

lemma get_hours_range: "0 \<le> get_hours z t \<and> get_hours z t < 24"
  by (simp add: get_hours_def)

section \<open>JavaScript maps\<close>

text \<open>
  A JavaScript \<open>Map\<close> iterates in insertion order and \<open>set\<close> on a present key keeps its place:
  an association list with \<open>AList.update\<close>.
\<close>

abbreviation map_set :: "'k \<Rightarrow> 'v \<Rightarrow> ('k \<times> 'v) list \<Rightarrow> ('k \<times> 'v) list" where
  "map_set \<equiv> AList.update"

definition map_values :: "('k \<times> 'v) list \<Rightarrow> 'v list" where
  "map_values m = map snd m"

definition map_keys :: "('k \<times> 'v) list \<Rightarrow> 'k list" where
  "map_keys m = map fst m"

lemma map_of_map_set [simp]: "map_of (map_set k v m) = (map_of m)(k \<mapsto> v)"
  by (rule update_conv')

lemma distinct_map_set [simp]: "distinct (map fst m) \<Longrightarrow> distinct (map fst (map_set k v m))"
  by (rule distinct_update)

lemma set_map_set:
  "distinct (map fst m) \<Longrightarrow> (k', v') \<in> set (map_set k v m) \<longleftrightarrow> (if k' = k then v' = v else (k', v') \<in> set m)"
  using map_of_eq_Some_iff [of "map_set k v m" k' v'] map_of_eq_Some_iff [of m k' v']
  by (auto simp del: map_of_eq_Some_iff split: if_splits)

section \<open>Tables\<close>

text \<open>
  A table is the list of its rows. \<open>find_row\<close> is Prisma's \<open>findUnique\<close> on the primary key,
  \<open>update_where\<close> is \<open>updateMany\<close> (or \<open>update\<close> with a primary-key condition), \<open>delete_where\<close> is
  \<open>deleteMany\<close>, \<open>count_where\<close> is \<open>count\<close>; a \<open>findMany\<close> is a \<open>filter\<close>. An inserted row goes to
  the end and takes the next value of the table's id sequence.
\<close>

definition find_row :: "('r \<Rightarrow> id) \<Rightarrow> id \<Rightarrow> 'r list \<Rightarrow> 'r option" where
  "find_row key i rows = List.find (\<lambda>r. key r = i) rows"

definition update_where :: "('r \<Rightarrow> bool) \<Rightarrow> ('r \<Rightarrow> 'r) \<Rightarrow> 'r list \<Rightarrow> 'r list" where
  "update_where p f rows = map (\<lambda>r. if p r then f r else r) rows"

definition delete_where :: "('r \<Rightarrow> bool) \<Rightarrow> 'r list \<Rightarrow> 'r list" where
  "delete_where p rows = filter (\<lambda>r. \<not> p r) rows"

definition count_where :: "('r \<Rightarrow> bool) \<Rightarrow> 'r list \<Rightarrow> nat" where
  "count_where p rows = length (filter p rows)"

definition next_id :: "('r \<Rightarrow> id) \<Rightarrow> 'r list \<Rightarrow> id" where
  "next_id key rows = 1 + foldl (\<lambda>m r. max m (key r)) 0 rows"

lemma find_row_Some:
  "find_row key i rows = Some r \<Longrightarrow> r \<in> set rows \<and> key r = i"
  unfolding find_row_def by (induction rows) (auto split: if_splits)

lemma find_row_None: "find_row key i rows = None \<longleftrightarrow> (\<forall>r\<in>set rows. key r \<noteq> i)"
  unfolding find_row_def by (auto simp: find_None_iff)

lemma find_row_Nil [table_simps, simp]: "find_row key i [] = None"
  by (simp add: find_row_def)

lemma find_row_Cons [table_simps, simp]:
  "find_row key i (r # rows) = (if key r = i then Some r else find_row key i rows)"
  by (simp add: find_row_def)

lemma find_row_append [table_simps]:
  "find_row key i (xs @ ys) = (case find_row key i xs of None \<Rightarrow> find_row key i ys | Some r \<Rightarrow> Some r)"
  by (induction xs) auto

lemma find_row_update [table_simps]:
  assumes "\<And>r. key (f r) = key r"
  shows "find_row key i (update_where p f rows) =
    map_option (\<lambda>r. if p r then f r else r) (find_row key i rows)"
  unfolding update_where_def using assms by (induction rows) auto

lemma find_row_put:
  assumes "\<And>r. key (f r) = key r"
  shows "find_row key j (update_where (\<lambda>r. key r = i) f rows) =
    (if j = i then map_option f (find_row key i rows) else find_row key j rows)"
  unfolding update_where_def using assms by (induction rows) auto

lemma find_row_distinct:
  "distinct (map key rows) \<Longrightarrow> r \<in> set rows \<Longrightarrow> find_row key (key r) rows = Some r"
  by (induction rows) (auto simp: rev_image_eqI)

lemma set_update_where:
  "r \<in> set (update_where p f rows) \<longleftrightarrow> (\<exists>r'\<in>set rows. r = (if p r' then f r' else r'))"
  by (auto simp: update_where_def)

lemma set_delete_where [table_simps, simp]:
  "r \<in> set (delete_where p rows) \<longleftrightarrow> r \<in> set rows \<and> \<not> p r"
  by (auto simp: delete_where_def)

lemma length_update_where [table_simps, simp]: "length (update_where p f rows) = length rows"
  by (simp add: update_where_def)

lemma count_where_append [table_simps, simp]: "count_where p (xs @ ys) = count_where p xs + count_where p ys"
  by (simp add: count_where_def)

lemma count_where_0: "count_where p rows = 0 \<longleftrightarrow> (\<forall>r\<in>set rows. \<not> p r)"
  by (auto simp: count_where_def filter_empty_conv)

lemma foldl_max_ge: "(m::int) \<le> foldl (\<lambda>m r. max m (key r)) m rows"
proof (induction rows arbitrary: m)
  case (Cons r rows)
  have "m \<le> max m (key r)" by simp
  also have "\<dots> \<le> foldl (\<lambda>m r. max m (key r)) (max m (key r)) rows" by (rule Cons.IH)
  finally show ?case by simp
qed simp

lemma foldl_max_mem: "r \<in> set rows \<Longrightarrow> (key r :: int) \<le> foldl (\<lambda>m r. max m (key r)) m rows"
proof (induction rows arbitrary: m)
  case (Cons a rows)
  show ?case
  proof (cases "r = a")
    case True
    have "key a \<le> max m (key a)" by simp
    also have "\<dots> \<le> foldl (\<lambda>m r. max m (key r)) (max m (key a)) rows" by (rule foldl_max_ge)
    finally show ?thesis using True by simp
  next
    case False
    with Cons show ?thesis by simp
  qed
qed simp

lemma next_id_fresh: "r \<in> set rows \<Longrightarrow> key r < next_id key rows"
  unfolding next_id_def using foldl_max_mem [of r rows key 0] by simp

lemma next_id_pos: "0 < next_id key rows"
  unfolding next_id_def using foldl_max_ge [of 0 key rows] by simp

lemma find_row_next_id [table_simps, simp]: "find_row key (next_id key rows) rows = None"
  unfolding find_row_None using next_id_fresh [of _ rows key] by fastforce

lemma find_row_inserted [table_simps]:
  assumes "key r = next_id key rows"
  shows "find_row key i (rows @ [r]) = (if i = next_id key rows then Some r else find_row key i rows)"
  using assms by (auto simp: find_row_append split: option.split)

section \<open>The interface of a Prisma model delegate\<close>

text \<open>
  What the services rely on when they read a row by primary key and update it by primary key:
  an update changes the addressed row by the given function and no other row, provided the
  function does not touch the primary key.
\<close>

locale row_store =
  fixes key :: "'r \<Rightarrow> id"
    and get :: "id \<Rightarrow> 'w \<Rightarrow> 'r option"
    and put :: "id \<Rightarrow> ('r \<Rightarrow> 'r) \<Rightarrow> 'w \<Rightarrow> 'w"
  assumes get_key: "get i w = Some r \<Longrightarrow> key r = i"
    and get_put: "(\<And>r. key (f r) = key r) \<Longrightarrow>
      get j (put i f w) = (if j = i then map_option f (get i w) else get j w)"
begin

lemma get_put_same:
  assumes "\<And>r. key (f r) = key r" and "get i w = Some r"
  shows "get i (put i f w) = Some (f r)"
  using get_put [OF assms(1)] assms(2) by simp

lemma get_put_other:
  assumes "\<And>r. key (f r) = key r" and "j \<noteq> i"
  shows "get j (put i f w) = get j w"
  using get_put [OF assms(1)] assms(2) by simp

text \<open>A column the update does not write keeps its value in every row.\<close>

lemma put_frame:
  assumes "\<And>r. key (f r) = key r" and "\<And>r. col (f r) = col r"
  shows "map_option col (get j (put i f w)) = map_option col (get j w)"
  using get_put [OF assms(1), of j i w] assms(2)
  by (auto simp: option.map_comp comp_def cong: option.map_cong)

text \<open>A row property the update keeps is kept by the whole table.\<close>

lemma put_invariant:
  assumes "\<And>r. key (f r) = key r"
    and "\<And>j r. get j w = Some r \<Longrightarrow> P r"
    and "\<And>r. get i w = Some r \<Longrightarrow> P (f r)"
    and "get j (put i f w) = Some r"
  shows "P r"
  using assms(2,3,4) get_put [OF assms(1), of j i w] by (auto split: if_splits)

end

section \<open>Unique constraints\<close>

text \<open>
  A table whose rows may not clash (a unique index on a column, or a partial one). The locale states what a
  write has to check so that the constraint holds afterwards: an insert and an update compare the written
  row with the others, and a rewriting that creates no clash needs no comparison.
\<close>

definition unique_table :: "('r \<Rightarrow> 'k) \<Rightarrow> ('r \<Rightarrow> 'r \<Rightarrow> bool) \<Rightarrow> 'r list \<Rightarrow> bool" where
  "unique_table key clash rows \<longleftrightarrow>
     distinct (map key rows) \<and> (\<forall>r \<in> set rows. \<forall>x \<in> set rows. \<not> clash r x)"

locale unique_rows =
  fixes key :: "'r \<Rightarrow> 'k"
    and clash :: "'r \<Rightarrow> 'r \<Rightarrow> bool"
  assumes clash_sym: "clash r x \<Longrightarrow> clash x r"
    and clash_key: "clash r x \<Longrightarrow> key r \<noteq> key x"
begin

lemma same_row:
  assumes "unique_table key clash rows" and "r \<in> set rows" and "x \<in> set rows" and "key r = key x"
  shows "r = x"
  using assms by (auto simp: unique_table_def distinct_map dest: inj_onD)

lemma insert_row:
  assumes "unique_table key clash rows" and "\<And>x. x \<in> set rows \<Longrightarrow> key x \<noteq> key r" and "\<And>x. x \<in> set rows \<Longrightarrow> \<not> clash r x"
  shows "unique_table key clash (rows @ [r])"
proof -
  have "key r \<notin> key ` set rows" using assms(2) by (metis imageE)
  moreover have "\<not> clash r r" using clash_key by blast
  moreover have "\<not> clash x r" if "x \<in> set rows" for x using assms(3) that clash_sym by blast
  ultimately show ?thesis using assms by (simp add: unique_table_def)
qed

lemma map_rows:
  assumes "unique_table key clash rows" and "\<And>r. r \<in> set rows \<Longrightarrow> key (g r) = key r"
    and "\<And>r x. r \<in> set rows \<Longrightarrow> x \<in> set rows \<Longrightarrow> key r \<noteq> key x \<Longrightarrow> \<not> clash (g r) (g x)"
  shows "unique_table key clash (map g rows)"
proof -
  have ids: "map key (map g rows) = map key rows" using assms(2) by simp
  have "\<not> clash (g r) (g x)" if "r \<in> set rows" "x \<in> set rows" for r x
    using assms(2,3) that clash_key by metis
  then have "\<forall>r \<in> set (map g rows). \<forall>x \<in> set (map g rows). \<not> clash r x" by auto
  then show ?thesis unfolding unique_table_def ids using assms(1) unfolding unique_table_def by blast
qed

lemma replace_row:
  assumes "unique_table key clash rows" and "r0 \<in> set rows" and "key (f r0) = key r0" and "\<And>x. x \<in> set rows \<Longrightarrow> \<not> clash (f r0) x"
  shows "unique_table key clash (update_where (\<lambda>x. key x = key r0) f rows)"
proof -
  let ?g = "\<lambda>x. if key x = key r0 then f x else x"
  have g: "?g x = (if x = r0 then f r0 else x)" if "x \<in> set rows" for x
    using same_row [OF assms(1) that assms(2)] by auto
  have "\<not> clash (?g r) (?g x)" if "r \<in> set rows" "x \<in> set rows" "key r \<noteq> key x" for r x
  proof -
    have "\<not> clash r x" using assms(1) that by (auto simp: unique_table_def)
    then show ?thesis unfolding g [OF that(1)] g [OF that(2)]
      using assms(4) that clash_sym by (cases "r = r0"; cases "x = r0") auto
  qed
  moreover have "key (?g x) = key x" if "x \<in> set rows" for x unfolding g [OF that] using assms(3) by simp
  ultimately show ?thesis unfolding update_where_def by (intro map_rows [OF assms(1)]) blast+
qed

end

section \<open>Step relations with an invariant\<close>

inductive reaches :: "('s \<Rightarrow> 's \<Rightarrow> bool) \<Rightarrow> 's \<Rightarrow> 's \<Rightarrow> bool" for step where
  reaches_refl: "reaches step s s"
| reaches_step: "reaches step s t \<Longrightarrow> step t u \<Longrightarrow> reaches step s u"

locale lifecycle =
  fixes step :: "'s \<Rightarrow> 's \<Rightarrow> bool"
    and good :: "'s \<Rightarrow> bool"
  assumes step_good: "good s \<Longrightarrow> step s t \<Longrightarrow> good t"
begin

lemma reaches_good:
  assumes "reaches step s t" and "good s"
  shows "good t"
  using assms by (induction rule: reaches.induct) (auto intro: step_good)

text \<open>A quantity that no step lowers never drops along a run.\<close>

lemma reaches_mono:
  assumes "reaches step s t" and "good s"
    and "\<And>u v. good u \<Longrightarrow> step u v \<Longrightarrow> (m u :: 'o::order) \<le> m v"
  shows "m s \<le> m t"
  using assms(1,2)
proof (induction rule: reaches.induct)
  case (reaches_step s t u)
  then have "good t" by (auto intro: reaches_good)
  then show ?case using reaches_step assms(3) order.trans by blast
qed simp

end

end
