(* ===== verification/RateLimit.thy ===== *)
theory RateLimit
  imports Prelude "HOL-Library.Multiset"
begin

text \<open>
  \<open>src/alert/rate-limit.service.ts\<close>: the per-user limits on alert creation, kept in Redis sorted
  sets. The Redis commands the service uses are modelled first (a sorted set is the association
  list from member to score; a key may carry an expiry instant), then the service, then the
  interface \<open>sliding_window\<close> with its interpretation on the service for each of the three windows.
\<close>

section \<open>The Redis commands used\<close>

type_synonym zset = "(string \<times> int) list"
type_synonym redis = "string \<Rightarrow> (zset \<times> time option) option"

text \<open>A key is gone once its expiry instant is reached.\<close>

definition live :: "time \<Rightarrow> redis \<Rightarrow> string \<Rightarrow> (zset \<times> time option) option" where
  "live now r k =
     (case r k of
        None \<Rightarrow> None
      | Some (z, ex) \<Rightarrow>
          (case ex of None \<Rightarrow> Some (z, ex) | Some e \<Rightarrow> if e \<le> now then None else Some (z, ex)))"

definition zset_of :: "time \<Rightarrow> redis \<Rightarrow> string \<Rightarrow> zset" where
  "zset_of now r k = (case live now r k of None \<Rightarrow> [] | Some (z, _) \<Rightarrow> z)"

definition zrangebyscore_all :: "time \<Rightarrow> string \<Rightarrow> redis \<Rightarrow> string list" where
  "zrangebyscore_all now k r = map fst (sort_key snd (zset_of now r k))"

definition zadd :: "time \<Rightarrow> string \<Rightarrow> int \<Rightarrow> string \<Rightarrow> redis \<Rightarrow> redis" where
  "zadd now k score member r =
     r(k \<mapsto> (map_set member score (zset_of now r k),
             case live now r k of None \<Rightarrow> None | Some (_, ex) \<Rightarrow> ex))"

definition zremrangebyscore_upto :: "time \<Rightarrow> string \<Rightarrow> int \<Rightarrow> redis \<Rightarrow> redis" where
  "zremrangebyscore_upto now k cutoff r =
     (case live now r k of
        None \<Rightarrow> r
      | Some (z, ex) \<Rightarrow>
          let z' = filter (\<lambda>(m, s). \<not> s \<le> cutoff) z
          in if z' = [] then r(k := None) else r(k \<mapsto> (z', ex)))"

definition expire :: "time \<Rightarrow> string \<Rightarrow> int \<Rightarrow> redis \<Rightarrow> redis" where
  "expire now k seconds r =
     (case live now r k of
        None \<Rightarrow> r
      | Some (z, _) \<Rightarrow> r(k \<mapsto> (z, Some (now + seconds * 1000))))"

definition del :: "string \<Rightarrow> redis \<Rightarrow> redis" where
  "del k r = r(k := None)"

section \<open>RateLimitService\<close>

record window_limit =
  wl_count :: int
  wl_windowMs :: int

record limits =
  hourly :: window_limit
  daily :: window_limit
  weekly :: window_limit

text \<open>\<open>parseInt(configService.get(key, String(fallback)), 10) || fallback\<close>\<close>

definition readLimit :: "(string \<Rightarrow> string option) \<Rightarrow> string \<Rightarrow> int \<Rightarrow> int" where
  "readLimit getenv key fallback =
     (case js_parse_int (case getenv key of None \<Rightarrow> show_int fallback | Some s \<Rightarrow> s) of
        None \<Rightarrow> fallback
      | Some n \<Rightarrow> if n = 0 then fallback else n)"

definition read_limits :: "(string \<Rightarrow> string option) \<Rightarrow> limits" where
  "read_limits getenv =
     \<lparr>hourly = \<lparr>wl_count = readLimit getenv ''RATE_LIMIT_ALERTS_PER_HOUR'' 5,
                wl_windowMs = 60 * 60 * 1000\<rparr>,
      daily = \<lparr>wl_count = readLimit getenv ''RATE_LIMIT_ALERTS_PER_DAY'' 20,
               wl_windowMs = 24 * 60 * 60 * 1000\<rparr>,
      weekly = \<lparr>wl_count = readLimit getenv ''RATE_LIMIT_ALERTS_PER_WEEK'' 50,
                wl_windowMs = 7 * 24 * 60 * 60 * 1000\<rparr>\<rparr>"

definition rate_key :: "id \<Rightarrow> string" where
  "rate_key userId = ''rate_limit:alert:user:'' @ show_int userId"

text \<open>A comparison with \<open>NaN\<close> (\<open>None\<close>) is false, so unparsable members never count.\<close>

definition in_window :: "time \<Rightarrow> int \<Rightarrow> int option \<Rightarrow> bool" where
  "in_window now windowMs t = (case t of None \<Rightarrow> False | Some x \<Rightarrow> x \<ge> now - windowMs)"

definition countInWindow :: "int option list \<Rightarrow> time \<Rightarrow> int \<Rightarrow> int" where
  "countInWindow timestamps now windowMs = int (length (filter (in_window now windowMs) timestamps))"

definition getRetryAfter :: "int option list \<Rightarrow> time \<Rightarrow> int \<Rightarrow> int" where
  "getRetryAfter timestamps now windowMs =
     (let relevantTimestamps = sort (map the (filter (in_window now windowMs) timestamps)) in
      case relevantTimestamps of
        [] \<Rightarrow> 0
      | oldest # _ \<Rightarrow> max 0 \<lceil>(of_int (oldest + windowMs - now) :: rat) / 1000\<rceil>)"

definition recordAlertCreation :: "limits \<Rightarrow> id \<Rightarrow> time \<Rightarrow> redis \<Rightarrow> redis" where
  "recordAlertCreation cfg userId timestamp r =
     (let key = rate_key userId;
          r1 = zadd timestamp key timestamp (show_int timestamp) r;
          r2 = zremrangebyscore_upto timestamp key (timestamp - wl_windowMs (weekly cfg)) r1
      in expire timestamp key (\<lceil>(of_int (wl_windowMs (weekly cfg)) :: rat) / 1000\<rceil> + 86400) r2)"

definition stored_timestamps :: "id \<Rightarrow> time \<Rightarrow> redis \<Rightarrow> int option list" where
  "stored_timestamps userId now r = map js_parse_int (zrangebyscore_all now (rate_key userId) r)"

definition limit_error :: "int \<Rightarrow> string \<Rightarrow> int \<Rightarrow> exn" where
  "limit_error n unit retry =
     RateLimitExceeded (''Alert creation limit exceeded: '' @ show_int n @ '' alerts per '' @ unit) retry"

text \<open>
  \<open>redis_up\<close> is whether the Redis round trips succeed; a failing one is rethrown. The read and the
  three writes are separate commands of one request; the function is that request with no other
  request of the user in between (\<open>concurrent_over_limit\<close> shows what happens otherwise).
\<close>

definition checkAlertCreationLimit ::
  "limits \<Rightarrow> bool \<Rightarrow> time \<Rightarrow> id \<Rightarrow> redis \<Rightarrow> (exn + unit) \<times> redis" where
  "checkAlertCreationLimit cfg redis_up now userId r =
     (if \<not> redis_up then (Inl (Error ''Redis unavailable''), r)
      else
        let ts = stored_timestamps userId now r;
            hourlyCount = countInWindow ts now (wl_windowMs (hourly cfg));
            dailyCount = countInWindow ts now (wl_windowMs (daily cfg));
            weeklyCount = countInWindow ts now (wl_windowMs (weekly cfg))
        in if hourlyCount \<ge> wl_count (hourly cfg) then
             (Inl (limit_error (wl_count (hourly cfg)) ''hour''
                     (getRetryAfter ts now (wl_windowMs (hourly cfg)))), r)
           else if dailyCount \<ge> wl_count (daily cfg) then
             (Inl (limit_error (wl_count (daily cfg)) ''24 hours''
                     (getRetryAfter ts now (wl_windowMs (daily cfg)))), r)
           else if weeklyCount \<ge> wl_count (weekly cfg) then
             (Inl (limit_error (wl_count (weekly cfg)) ''7 days''
                     (getRetryAfter ts now (wl_windowMs (weekly cfg)))), r)
           else (Inr (), recordAlertCreation cfg userId now r))"

definition getUserStats :: "limits \<Rightarrow> time \<Rightarrow> id \<Rightarrow> redis \<Rightarrow> int \<times> int \<times> int" where
  "getUserStats cfg now userId r =
     (let ts = stored_timestamps userId now r
      in (countInWindow ts now (wl_windowMs (hourly cfg)),
          countInWindow ts now (wl_windowMs (daily cfg)),
          countInWindow ts now (wl_windowMs (weekly cfg))))"

definition resetUserLimits :: "id \<Rightarrow> redis \<Rightarrow> redis" where
  "resetUserLimits userId r = del (rate_key userId) r"

section \<open>The interface: at most N admissions in any window\<close>

text \<open>
  One requester's admissions. \<open>admit t s\<close> decides a request at instant \<open>t\<close>; \<open>recent t s\<close> are the
  admissions the store still knows at \<open>t\<close>; \<open>inv t0 s\<close> holds of the states that requests up to
  \<open>t0\<close> produce. Requests arrive at strictly increasing instants.
\<close>

primrec admitted_run :: "(time \<Rightarrow> 's \<Rightarrow> bool \<times> 's) \<Rightarrow> time list \<Rightarrow> 's \<Rightarrow> time list" where
  "admitted_run admit [] s = []"
| "admitted_run admit (t # ts) s =
     (if fst (admit t s) then [t] else []) @ admitted_run admit ts (snd (admit t s))"

locale sliding_window =
  fixes admit :: "time \<Rightarrow> 's \<Rightarrow> bool \<times> 's"
    and recent :: "time \<Rightarrow> 's \<Rightarrow> time set"
    and inv :: "time \<Rightarrow> 's \<Rightarrow> bool"
    and W :: int
    and N :: int
  assumes finite_recent: "finite (recent t s)"
    and admit_inv: "inv t0 s \<Longrightarrow> t0 < t \<Longrightarrow> inv t (snd (admit t s))"
    and admitted: "inv t0 s \<Longrightarrow> t0 < t \<Longrightarrow> fst (admit t s) \<Longrightarrow>
        int (card {x \<in> recent t s. t - W \<le> x}) < N"
    and keeps: "inv t0 s \<Longrightarrow> t0 < t \<Longrightarrow> x \<in> recent t s \<Longrightarrow> t < t' \<Longrightarrow> t' - W \<le> x \<Longrightarrow>
        x \<in> recent t' (snd (admit t s))"
    and adds: "inv t0 s \<Longrightarrow> t0 < t \<Longrightarrow> fst (admit t s) \<Longrightarrow> t < t' \<Longrightarrow> t' - W \<le> t \<Longrightarrow>
        t \<in> recent t' (snd (admit t s))"
begin

lemma admitted_run_subset: "set (admitted_run admit ts s) \<subseteq> set ts"
  by (induction ts arbitrary: s) auto

lemma window_bound:
  assumes "inv t0 s" and "sorted_wrt (<) (t0 # ts)"
    and "finite A" and "\<And>x. x \<in> A \<Longrightarrow> x \<le> t0"
    and "\<And>x t. x \<in> A \<Longrightarrow> t0 < t \<Longrightarrow> t - W \<le> x \<Longrightarrow> x \<in> recent t s"
    and "t \<in> set (admitted_run admit ts s)"
  shows "int (card {x \<in> A \<union> set (admitted_run admit ts s). t - W \<le> x \<and> x \<le> t}) \<le> N"
  using assms
proof (induction ts arbitrary: t0 s A)
  case Nil
  then show ?case by simp
next
  case (Cons u us)
  let ?s = "snd (admit u s)"
  let ?B = "if fst (admit u s) then insert u A else A"
  let ?R = "set (admitted_run admit us ?s)"
  have u: "t0 < u" and us: "sorted_wrt (<) (u # us)" using Cons.prems(2) by auto
  have later: "u < x" if "x \<in> ?R" for x
    using that us admitted_run_subset [of us ?s] by auto
  have eq: "A \<union> set (admitted_run admit (u # us) s) = ?B \<union> ?R" by auto
  show ?case
  proof (cases "t \<in> ?R")
    case True
    have "int (card {x \<in> ?B \<union> ?R. t - W \<le> x \<and> x \<le> t}) \<le> N"
    proof (rule Cons.IH [OF admit_inv [OF Cons.prems(1) u] us])
      show "finite ?B" using Cons.prems(3) by simp
      show "x \<le> u" if "x \<in> ?B" for x
        using that Cons.prems(4) u by (fastforce split: if_splits)
      show "x \<in> recent t' ?s" if "x \<in> ?B" "u < t'" "t' - W \<le> x" for x t'
      proof (cases "fst (admit u s) \<and> x = u")
        case True
        then show ?thesis using adds [OF Cons.prems(1) u] that by simp
      next
        case False
        then have "x \<in> A" using that(1) by (auto split: if_splits)
        moreover have "u - W \<le> x" using that(2,3) by simp
        ultimately have "x \<in> recent u s" using Cons.prems(5) u by blast
        then show ?thesis using keeps [OF Cons.prems(1) u] that by blast
      qed
      show "t \<in> ?R" by (rule True)
    qed
    then show ?thesis using eq by simp
  next
    case False
    then have t: "t = u" and ok: "fst (admit u s)"
      using Cons.prems(6) by (auto split: if_splits)
    let ?K = "{x \<in> recent u s. u - W \<le> x}"
    have "{x \<in> ?B \<union> ?R. t - W \<le> x \<and> x \<le> t} \<subseteq> insert u ?K"
    proof
      fix x
      assume x: "x \<in> {x \<in> ?B \<union> ?R. t - W \<le> x \<and> x \<le> t}"
      then have "x = u \<or> x \<in> A" using later t ok by force
      then show "x \<in> insert u ?K" using x Cons.prems(5) u t by auto
    qed
    then have "card {x \<in> ?B \<union> ?R. t - W \<le> x \<and> x \<le> t} \<le> card (insert u ?K)"
      using finite_recent [of u s] by (intro card_mono) auto
    also have "\<dots> \<le> Suc (card ?K)"
      using finite_recent [of u s] by (simp add: card_insert_if)
    finally have "int (card {x \<in> ?B \<union> ?R. t - W \<le> x \<and> x \<le> t}) \<le> 1 + int (card ?K)" by simp
    also have "\<dots> \<le> N" using admitted [OF Cons.prems(1) u ok] by simp
    finally show ?thesis using eq by simp
  qed
qed

lemma fresh_window_bound:
  assumes "inv t0 s" and "sorted_wrt (<) (t0 # ts)" and "t \<in> set (admitted_run admit ts s)"
  shows "int (card {x \<in> set (admitted_run admit ts s). t - W \<le> x \<and> x \<le> t}) \<le> N"
  using window_bound [OF assms(1,2), of "{}" t] assms(3) by simp

end

section \<open>Well-formed stores\<close>

text \<open>
  Each member is the decimal form of its score, members are distinct, scores lie at or before
  the last request, and the key outlives every stored stamp by eight days.
\<close>

definition zset_wf :: "zset \<Rightarrow> bool" where
  "zset_wf z \<longleftrightarrow> distinct (map fst z) \<and> (\<forall>(m, s)\<in>set z. m = show_int s)"

definition rate_inv :: "id \<Rightarrow> time \<Rightarrow> redis \<Rightarrow> bool" where
  "rate_inv u t0 r \<longleftrightarrow>
     (case r (rate_key u) of
        None \<Rightarrow> True
      | Some (z, ex) \<Rightarrow>
          zset_wf z \<and> (\<forall>(m, s)\<in>set z. s \<le> t0) \<and>
          (case ex of None \<Rightarrow> z = [] | Some e \<Rightarrow> \<forall>(m, s)\<in>set z. s + 8 * ms_per_day \<le> e))"

text \<open>The windows are the constants of the service; only the counts are configurable.\<close>

definition std_windows :: "limits \<Rightarrow> bool" where
  "std_windows cfg \<longleftrightarrow>
     wl_windowMs (hourly cfg) = 60 * 60 * 1000 \<and>
     wl_windowMs (daily cfg) = 24 * 60 * 60 * 1000 \<and>
     wl_windowMs (weekly cfg) = 7 * 24 * 60 * 60 * 1000"

lemma std_windows_read [simp]: "std_windows (read_limits getenv)"
  by (simp add: std_windows_def read_limits_def)

definition stamps :: "id \<Rightarrow> time \<Rightarrow> redis \<Rightarrow> time set" where
  "stamps u t r = snd ` set (zset_of t r (rate_key u))"

lemma zset_wf_of: "rate_inv u t0 r \<Longrightarrow> zset_wf (zset_of t r (rate_key u))"
  by (auto simp: rate_inv_def zset_of_def live_def zset_wf_def split: option.splits)

lemma zset_wf_inj: "zset_wf z \<Longrightarrow> distinct (map snd z)"
proof -
  assume wf: "zset_wf z"
  then have "map fst z = map show_int (map snd z)"
    by (auto simp: zset_wf_def)
  then have "distinct (map show_int (map snd z))" using wf by (metis zset_wf_def)
  then show ?thesis unfolding distinct_map by blast
qed

lemma stored_timestamps_wf:
  assumes "rate_inv u t0 r"
  shows "stored_timestamps u t r = map Some (map snd (sort_key snd (zset_of t r (rate_key u))))"
  using zset_wf_of [OF assms, of t]
  by (auto simp: stored_timestamps_def zrangebyscore_all_def zset_wf_def)

lemma countInWindow_card:
  assumes "rate_inv u t0 r"
  shows "countInWindow (stored_timestamps u t r) t W = int (card {x \<in> stamps u t r. t - W \<le> x})"
proof -
  let ?xs = "map snd (sort_key snd (zset_of t r (rate_key u)))"
  have "mset ?xs = mset (map snd (zset_of t r (rate_key u)))" by simp
  then have d: "distinct ?xs"
    using zset_wf_inj [OF zset_wf_of [OF assms, of t]] mset_eq_imp_distinct_iff by blast
  have "filter (in_window t W) (map Some ?xs) = map Some (filter (\<lambda>x. t - W \<le> x) ?xs)"
    by (simp add: filter_map in_window_def comp_def)
  then have "countInWindow (stored_timestamps u t r) t W = int (length (filter (\<lambda>x. t - W \<le> x) ?xs))"
    unfolding countInWindow_def stored_timestamps_wf [OF assms] by simp
  also have "length (filter (\<lambda>x. t - W \<le> x) ?xs) = card (set (filter (\<lambda>x. t - W \<le> x) ?xs))"
    using d by (intro distinct_card [symmetric]) simp
  also have "set (filter (\<lambda>x. t - W \<le> x) ?xs) = {x \<in> stamps u t r. t - W \<le> x}"
    by (auto simp: stamps_def)
  finally show ?thesis .
qed

text \<open>The store after one recorded creation.\<close>

lemma record_store:
  assumes inv: "rate_inv u t0 r" and "t0 < t" and std: "std_windows cfg"
  shows "recordAlertCreation cfg u t r (rate_key u) =
    Some (filter (\<lambda>(m, s). t - 7 * ms_per_day < s) (map_set (show_int t) t (zset_of t r (rate_key u))),
          Some (t + 8 * ms_per_day))"
proof -
  let ?k = "rate_key u"
  let ?z = "map_set (show_int t) t (zset_of t r ?k)"
  let ?f = "filter (\<lambda>(m, s). t - 7 * ms_per_day < s) ?z"
  define ex where "ex = (case live t r ?k of None \<Rightarrow> None | Some (_, e) \<Rightarrow> e)"
  have live_ex: "ex = None \<or> (\<exists>e. ex = Some e \<and> t < e)"
    by (auto simp: ex_def live_def split: option.splits if_splits)
  have "map_of ?z (show_int t) = Some t" by simp
  then have "(show_int t, t) \<in> set ?z" by (rule map_of_SomeD)
  then have "(show_int t, t) \<in> set ?f" by (simp add: ms_per_day_def)
  then have ne: "?f \<noteq> []" by (metis empty_iff empty_set)
  have w: "wl_windowMs (weekly cfg) = 7 * ms_per_day"
    using std by (simp add: std_windows_def ms_per_day_def)
  have 1: "live t (zadd t ?k t (show_int t) r) ?k = Some (?z, ex)"
    using live_ex by (auto simp: zadd_def live_def ex_def)
  have fe: "filter (\<lambda>(m, s). \<not> s \<le> t - 7 * ms_per_day) ?z = ?f"
    by (rule filter_cong) auto
  have 2: "live t (zremrangebyscore_upto t ?k (t - 7 * ms_per_day) (zadd t ?k t (show_int t) r)) ?k
     = Some (?f, ex)"
    using live_ex ne unfolding zremrangebyscore_upto_def 1 by (auto simp: live_def fe)
  have 3: "\<lceil>(of_int (7 * ms_per_day) :: rat) / 1000\<rceil> + 86400 = 8 * 86400"
    by (simp add: ms_per_day_def)
  show ?thesis
    unfolding recordAlertCreation_def Let_def w expire_def 2 3 by (simp add: ms_per_day_def)
qed

lemma record_inv:
  assumes "rate_inv u t0 r" and "t0 < t" and "std_windows cfg"
  shows "rate_inv u t (recordAlertCreation cfg u t r)"
proof -
  let ?z = "zset_of t r (rate_key u)"
  have wf: "zset_wf ?z" by (rule zset_wf_of [OF assms(1)])
  have le: "\<forall>(m, s)\<in>set ?z. s \<le> t0"
    using assms(1) by (auto simp: rate_inv_def zset_of_def live_def split: option.splits)
  have mem: "(m, s) \<in> set (map_set (show_int t) t ?z) \<longleftrightarrow>
      (if m = show_int t then s = t else (m, s) \<in> set ?z)" for m s
    using wf by (intro set_map_set) (simp add: zset_wf_def)
  have "zset_wf (filter (\<lambda>(m, s). t - 7 * ms_per_day < s) (map_set (show_int t) t ?z))"
    using wf mem by (auto simp: zset_wf_def distinct_map_filter split: if_splits)
  moreover have "s \<le> t" if "(m, s) \<in> set (map_set (show_int t) t ?z)" for m s
    using that mem le assms(2) by (fastforce split: if_splits)
  ultimately show ?thesis
    unfolding rate_inv_def record_store [OF assms] by fastforce
qed

lemma stamps_record:
  assumes "rate_inv u t0 r" and "t0 < t" and "std_windows cfg" and "t < t'" and "t' < t + 8 * ms_per_day"
  shows "stamps u t' (recordAlertCreation cfg u t r) = {x \<in> insert t (stamps u t r). t - 7 * ms_per_day < x}"
proof -
  let ?z = "zset_of t r (rate_key u)"
  have wf: "zset_wf ?z" by (rule zset_wf_of [OF assms(1)])
  have mem: "(m, s) \<in> set (map_set (show_int t) t ?z) \<longleftrightarrow>
      (if m = show_int t then s = t else (m, s) \<in> set ?z)" for m s
    using wf by (intro set_map_set) (simp add: zset_wf_def)
  have zs: "zset_of t' (recordAlertCreation cfg u t r) (rate_key u) =
      filter (\<lambda>(m, s). t - 7 * ms_per_day < s) (map_set (show_int t) t ?z)"
    using record_store [OF assms(1,2,3)] assms(5) by (simp add: zset_of_def live_def)
  have own: "m = show_int s" if "(m, s) \<in> set ?z" for m s
    using wf that by (auto simp: zset_wf_def)
  show ?thesis
  proof (rule set_eqI)
    fix x
    have "x \<in> stamps u t' (recordAlertCreation cfg u t r) \<longleftrightarrow>
        (\<exists>m. (m, x) \<in> set (map_set (show_int t) t ?z)) \<and> t - 7 * ms_per_day < x"
      unfolding stamps_def zs by force
    also have "(\<exists>m. (m, x) \<in> set (map_set (show_int t) t ?z)) \<longleftrightarrow> x = t \<or> x \<in> stamps u t r"
    proof
      assume "\<exists>m. (m, x) \<in> set (map_set (show_int t) t ?z)"
      then show "x = t \<or> x \<in> stamps u t r"
        using mem by (auto simp: stamps_def split: if_splits intro: rev_image_eqI)
    next
      assume "x = t \<or> x \<in> stamps u t r"
      then have "(show_int x, x) \<in> set (map_set (show_int t) t ?z)"
        using mem own by (auto simp: stamps_def)
      then show "\<exists>m. (m, x) \<in> set (map_set (show_int t) t ?z)" ..
    qed
    finally show "x \<in> stamps u t' (recordAlertCreation cfg u t r) \<longleftrightarrow>
        x \<in> {x \<in> insert t (stamps u t r). t - 7 * ms_per_day < x}" by auto
  qed
qed

lemma stamps_later:
  assumes "rate_inv u t0 r" and "x \<in> stamps u t r" and "t < t'" and "t' - 7 * ms_per_day \<le> x"
  shows "x \<in> stamps u t' r"
  using assms
  by (fastforce simp: rate_inv_def stamps_def zset_of_def live_def ms_per_day_def
        split: option.splits if_splits)

lemma finite_stamps [simp]: "finite (stamps u t r)"
  by (simp add: stamps_def)

section \<open>The three windows of the service\<close>

text \<open>One request of user \<open>u\<close> as an admission decision.\<close>

definition admit_alert :: "limits \<Rightarrow> id \<Rightarrow> time \<Rightarrow> redis \<Rightarrow> bool \<times> redis" where
  "admit_alert cfg u t r =
     (case checkAlertCreationLimit cfg True t u r of (res, r') \<Rightarrow> (is_ok res, r'))"

lemma check_cases:
  "(\<exists>e. checkAlertCreationLimit cfg up t u r = (Inl e, r)) \<or>
   checkAlertCreationLimit cfg up t u r = (Inr (), recordAlertCreation cfg u t r)"
  by (simp add: checkAlertCreationLimit_def Let_def)

lemma admit_alert_cases:
  "admit_alert cfg u t r = (False, r) \<or> admit_alert cfg u t r = (True, recordAlertCreation cfg u t r)"
  using check_cases [of cfg True t u r] by (auto simp: admit_alert_def)

text \<open>A window of the configuration, with the fact that admission checks it.\<close>

definition is_window :: "limits \<Rightarrow> window_limit \<Rightarrow> bool" where
  "is_window cfg w \<longleftrightarrow> w \<in> {hourly cfg, daily cfg, weekly cfg}"

lemma admit_counts:
  assumes "is_window cfg w" and "fst (admit_alert cfg u t r)"
  shows "countInWindow (stored_timestamps u t r) t (wl_windowMs w) < wl_count w"
  using assms
  by (auto simp: admit_alert_def checkAlertCreationLimit_def Let_def is_window_def split: if_splits)

lemma window_le_week:
  assumes "std_windows cfg" and "is_window cfg w"
  shows "0 < wl_windowMs w" and "wl_windowMs w \<le> 7 * ms_per_day"
  using assms by (auto simp: std_windows_def is_window_def ms_per_day_def)

lemma alert_window:
  assumes std: "std_windows cfg" and w: "is_window cfg w"
  shows "sliding_window (admit_alert cfg u) (stamps u) (rate_inv u) (wl_windowMs w) (wl_count w)"
proof
  show "finite (stamps u t s)" for t s by simp
next
  fix t0 t s
  assume inv: "rate_inv u t0 s" and lt: "t0 < t"
  have later: "rate_inv u t s"
    using inv lt by (force simp: rate_inv_def split: option.splits)
  then show "rate_inv u t (snd (admit_alert cfg u t s))"
    using admit_alert_cases [of cfg u t s] record_inv [OF inv lt std] by auto
  assume "fst (admit_alert cfg u t s)"
  then show "int (card {x \<in> stamps u t s. t - wl_windowMs w \<le> x}) < wl_count w"
    using admit_counts [OF w, of u t s] countInWindow_card [OF inv, of t "wl_windowMs w"] by simp
next
  fix t0 t s x t'
  assume inv: "rate_inv u t0 s" and lt: "t0 < t" and x: "x \<in> stamps u t s"
    and t': "t < t'" and win: "t' - wl_windowMs w \<le> x"
  have week: "t' - 7 * ms_per_day \<le> x" using win window_le_week [OF std w] by simp
  have xt: "x \<le> t0"
    using x inv by (auto simp: stamps_def rate_inv_def zset_of_def live_def split: option.splits if_splits)
  have near: "t' < t + 8 * ms_per_day" using week xt lt by (simp add: ms_per_day_def)
  have "x \<in> stamps u t' (recordAlertCreation cfg u t s)"
    using stamps_record [OF inv lt std t' near] x week t' by simp
  then show "x \<in> stamps u t' (snd (admit_alert cfg u t s))"
    using admit_alert_cases [of cfg u t s] stamps_later [OF inv x t' week] by (elim disjE) simp_all
next
  fix t0 t s t'
  assume inv: "rate_inv u t0 s" and lt: "t0 < t" and ok: "fst (admit_alert cfg u t s)"
    and t': "t < t'" and win: "t' - wl_windowMs w \<le> t"
  have near: "t' < t + 8 * ms_per_day"
    using win window_le_week [OF std w] by (simp add: ms_per_day_def)
  have "t \<in> stamps u t' (recordAlertCreation cfg u t s)"
    using stamps_record [OF inv lt std t' near] by (simp add: ms_per_day_def)
  then show "t \<in> stamps u t' (snd (admit_alert cfg u t s))"
    using admit_alert_cases [of cfg u t s] ok by (elim disjE) simp_all
qed

interpretation hourly_window: sliding_window "admit_alert (read_limits getenv) u" "stamps u" "rate_inv u"
    "wl_windowMs (hourly (read_limits getenv))" "wl_count (hourly (read_limits getenv))"
  for getenv u
  by (rule alert_window) (simp_all add: is_window_def)

interpretation daily_window: sliding_window "admit_alert (read_limits getenv) u" "stamps u" "rate_inv u"
    "wl_windowMs (daily (read_limits getenv))" "wl_count (daily (read_limits getenv))"
  for getenv u
  by (rule alert_window) (simp_all add: is_window_def)

interpretation weekly_window: sliding_window "admit_alert (read_limits getenv) u" "stamps u" "rate_inv u"
    "wl_windowMs (weekly (read_limits getenv))" "wl_count (weekly (read_limits getenv))"
  for getenv u
  by (rule alert_window) (simp_all add: is_window_def)

section \<open>Retry-after\<close>

lemma sort_hd_least: "sort xs = y # ys \<Longrightarrow> y \<in> set xs \<and> (\<forall>x\<in>set xs. y \<le> x)"
proof -
  assume eq: "sort xs = y # ys"
  have "sorted (y # ys)" unfolding eq [symmetric] by simp
  moreover have "set xs = set (sort xs)" by simp
  then have "set xs = insert y (set ys)" unfolding eq by simp
  ultimately show ?thesis by auto
qed

definition the_stamps :: "int option list \<Rightarrow> int set" where
  "the_stamps ts = {x. Some x \<in> set ts}"

lemma relevant_set:
  "set (map the (filter (in_window now W) ts)) = {x \<in> the_stamps ts. now - W \<le> x}"
  by (force simp: the_stamps_def in_window_def image_iff split: option.splits)

lemma getRetryAfter_oldest:
  assumes "{x \<in> the_stamps ts. now - W \<le> x} \<noteq> {}"
  obtains oldest where "oldest \<in> the_stamps ts" and "now - W \<le> oldest"
    and "\<And>x. x \<in> the_stamps ts \<Longrightarrow> now - W \<le> x \<Longrightarrow> oldest \<le> x"
    and "getRetryAfter ts now W = max 0 \<lceil>(of_int (oldest + W - now) :: rat) / 1000\<rceil>"
proof -
  let ?r = "map the (filter (in_window now W) ts)"
  have "set ?r \<noteq> {}" unfolding relevant_set using assms .
  then have "?r \<noteq> []" by (metis empty_set)
  then have "sort ?r \<noteq> []" by (metis length_0_conv length_sort)
  then obtain y ys where eq: "sort ?r = y # ys" by (cases "sort ?r") auto
  then have "getRetryAfter ts now W = max 0 \<lceil>(of_int (y + W - now) :: rat) / 1000\<rceil>"
    unfolding getRetryAfter_def Let_def by simp
  moreover have "y \<in> {x \<in> the_stamps ts. now - W \<le> x}"
    and "\<forall>x\<in>{x \<in> the_stamps ts. now - W \<le> x}. y \<le> x"
    using sort_hd_least [OF eq] unfolding relevant_set by blast+
  ultimately show thesis using that [of y] by blast
qed

lemma ceil_div_1000: "d \<le> 1000 * \<lceil>(of_int d :: rat) / 1000\<rceil> \<and> 1000 * \<lceil>(of_int d :: rat) / 1000\<rceil> < d + 1000"
proof -
  have "(of_int d :: rat) / 1000 \<le> of_int \<lceil>(of_int d :: rat) / 1000\<rceil>"
    and "of_int \<lceil>(of_int d :: rat) / 1000\<rceil> < (of_int d :: rat) / 1000 + 1"
    by linarith+
  then have "(of_int d :: rat) \<le> of_int (1000 * \<lceil>(of_int d :: rat) / 1000\<rceil>)"
    and "(of_int (1000 * \<lceil>(of_int d :: rat) / 1000\<rceil>) :: rat) < of_int (d + 1000)"
    unfolding of_int_mult of_int_add of_int_numeral by linarith+
  then show ?thesis by (simp only: of_int_le_iff of_int_less_iff)
qed

section \<open>Properties\<close>

text \<open>
  C5. Sliding-window guarantee of the alert rate limiter, for the requests of one user handled one
  after the other (each checked and recorded before the next is checked) at strictly increasing
  instants: whatever the configured counts, on a store with no entry for that user, every admitted
  request is at most the configured number-th admission in the hour, the day and the week that end
  with it. Neither condition can be dropped: \<open>concurrent_over_limit\<close>, \<open>same_millisecond_over_limit\<close>.
\<close>

theorem rate_limit_windows:
  assumes "sorted_wrt (<) (t0 # ts)" and "r (rate_key u) = None"
    and "t \<in> set (admitted_run (admit_alert (read_limits getenv) u) ts r)"
  shows "int (card {x \<in> set (admitted_run (admit_alert (read_limits getenv) u) ts r).
             t - ms_per_hour \<le> x \<and> x \<le> t}) \<le> readLimit getenv ''RATE_LIMIT_ALERTS_PER_HOUR'' 5 \<and>
         int (card {x \<in> set (admitted_run (admit_alert (read_limits getenv) u) ts r).
             t - ms_per_day \<le> x \<and> x \<le> t}) \<le> readLimit getenv ''RATE_LIMIT_ALERTS_PER_DAY'' 20 \<and>
         int (card {x \<in> set (admitted_run (admit_alert (read_limits getenv) u) ts r).
             t - 7 * ms_per_day \<le> x \<and> x \<le> t}) \<le> readLimit getenv ''RATE_LIMIT_ALERTS_PER_WEEK'' 50"
proof -
  have inv: "rate_inv u t0 r" using assms(2) by (simp add: rate_inv_def)
  note win = hourly_window.fresh_window_bound [OF inv assms(1,3)]
    daily_window.fresh_window_bound [OF inv assms(1,3)]
    weekly_window.fresh_window_bound [OF inv assms(1,3)]
  have ms: "ms_per_hour = wl_windowMs (hourly (read_limits getenv))"
    "ms_per_day = wl_windowMs (daily (read_limits getenv))"
    "7 * ms_per_day = wl_windowMs (weekly (read_limits getenv))"
    "readLimit getenv ''RATE_LIMIT_ALERTS_PER_HOUR'' 5 = wl_count (hourly (read_limits getenv))"
    "readLimit getenv ''RATE_LIMIT_ALERTS_PER_DAY'' 20 = wl_count (daily (read_limits getenv))"
    "readLimit getenv ''RATE_LIMIT_ALERTS_PER_WEEK'' 50 = wl_count (weekly (read_limits getenv))"
    by (simp_all add: read_limits_def ms_per_hour_def ms_per_day_def)
  show ?thesis unfolding ms(3) unfolding ms(1,2) ms(4-6) using win by blast
qed

theorem rate_limit_windows_witness:
  "int (card {x \<in> set (admitted_run (admit_alert (read_limits (\<lambda>_. None)) 7) [1000] (\<lambda>_. None)).
      1000 - ms_per_hour \<le> x \<and> x \<le> 1000}) \<le> 5"
proof -
  have "sorted_wrt (<) [0, 1000 :: int]" by simp
  moreover have "1000 \<in> set (admitted_run (admit_alert (read_limits (\<lambda>_. None)) 7) [1000] (\<lambda>_. None))"
    by (simp add: admit_alert_def checkAlertCreationLimit_def stored_timestamps_def
        zrangebyscore_all_def zset_of_def live_def countInWindow_def read_limits_def readLimit_def)
  moreover have "readLimit (\<lambda>_. None) ''RATE_LIMIT_ALERTS_PER_HOUR'' 5 = 5"
    by (simp add: readLimit_def)
  ultimately show ?thesis
    using rate_limit_windows [of 0 "[1000]" "\<lambda>_. None" 7 1000 "\<lambda>_. None"] by simp
qed

text \<open>
  Retry-after: when the current window is not empty, the advertised number of seconds is
  non-negative and at most the window (rounded up), and at every instant later than that wait
  the oldest counted stamp no longer counts, so at least one slot has been freed.
\<close>

theorem retry_after_frees_slot:
  assumes "{x \<in> the_stamps ts. now - W \<le> x} \<noteq> {}"
    and "\<And>x. x \<in> the_stamps ts \<Longrightarrow> x \<le> now"
    and "now + 1000 * getRetryAfter ts now W < later"
  shows "0 \<le> getRetryAfter ts now W \<and> 1000 * getRetryAfter ts now W < max 0 W + 1000 \<and>
         countInWindow ts later W < countInWindow ts now W"
proof -
  obtain y where y: "y \<in> the_stamps ts" "now - W \<le> y"
    and r: "getRetryAfter ts now W = max 0 \<lceil>(of_int (y + W - now) :: rat) / 1000\<rceil>"
    using getRetryAfter_oldest [OF assms(1)] by metis
  note c = ceil_div_1000 [of "y + W - now"]
  have bound: "1000 * getRetryAfter ts now W < max 0 W + 1000"
    using r c assms(2) [OF y(1)] by linarith
  have out: "y < later - W" using r c assms(3) by linarith
  have mono: "now \<le> later" using r assms(3) by linarith
  have sub: "in_window later W x \<Longrightarrow> in_window now W x" for x
    using mono by (auto simp: in_window_def split: option.splits)
  have "length (filter (in_window later W) ts) < length (filter (in_window now W) ts)"
  proof -
    have "filter (in_window later W) ts = filter (in_window later W) (filter (in_window now W) ts)"
      using sub by (simp, intro filter_cong) auto
    moreover have "Some y \<in> set (filter (in_window now W) ts)" "\<not> in_window later W (Some y)"
      using y out by (auto simp: the_stamps_def in_window_def)
    ultimately show ?thesis by (metis length_filter_less)
  qed
  then show ?thesis using bound r by (simp add: countInWindow_def)
qed

theorem retry_after_frees_slot_witness:
  "countInWindow [Some 5000] 15001 10000 < countInWindow [Some 5000] 5000 10000"
proof -
  have r: "getRetryAfter [Some 5000] 5000 10000 = 10"
    by (simp add: getRetryAfter_def in_window_def)
  have "the_stamps [Some 5000] = {5000}" by (auto simp: the_stamps_def)
  then show ?thesis
    using retry_after_frees_slot [of "[Some 5000]" 5000 10000 15001] r by simp
qed

text \<open>
  The wait the limiter advertises can be one millisecond short: the window is closed on the
  left, so a stamp that leaves it exactly after the advertised wait is still counted at that
  instant, and the client that waits exactly that long is refused again.
\<close>

theorem retry_after_boundary:
  "\<exists>ts now W. getRetryAfter ts now W > 0 \<and>
     countInWindow ts (now + 1000 * getRetryAfter ts now W) W = countInWindow ts now W \<and>
     countInWindow ts now W > 0"
proof -
  have "getRetryAfter [Some 0] 1000 3600000 = 3599"
    by (simp add: getRetryAfter_def in_window_def)
  moreover have "countInWindow [Some 0] (1000 + 1000 * 3599) 3600000 = 1"
    and "countInWindow [Some 0] 1000 3600000 = 1"
    by (simp_all add: countInWindow_def in_window_def)
  ultimately show ?thesis by (metis zero_less_numeral zero_less_one)
qed


section \<open>Where the windows do not hold\<close>

definition hourly_env :: "string \<Rightarrow> string \<Rightarrow> string option" where
  "hourly_env n k = (if k = ''RATE_LIMIT_ALERTS_PER_HOUR'' then Some n else None)"

text \<open>
  The check reads the sorted set and the admission is written afterwards, as separate commands. Two
  requests that both read before either writes are both admitted under a limit of one an hour, and
  the store ends with two admissions in that hour.
\<close>

lemma concurrent_over_limit:
  "wl_count (hourly (read_limits (hourly_env ''1''))) = 1 \<and>
   checkAlertCreationLimit (read_limits (hourly_env ''1'')) True 1000 7 (\<lambda>_. None) =
     (Inr (), recordAlertCreation (read_limits (hourly_env ''1'')) 7 1000 (\<lambda>_. None)) \<and>
   checkAlertCreationLimit (read_limits (hourly_env ''1'')) True 1001 7 (\<lambda>_. None) =
     (Inr (), recordAlertCreation (read_limits (hourly_env ''1'')) 7 1001 (\<lambda>_. None)) \<and>
   fst (getUserStats (read_limits (hourly_env ''1'')) 1002 7
     (recordAlertCreation (read_limits (hourly_env ''1'')) 7 1001
       (recordAlertCreation (read_limits (hourly_env ''1'')) 7 1000 (\<lambda>_. None)))) = 2"
proof (intro conjI)
  have look: "is_ok (fst (checkAlertCreationLimit (read_limits (hourly_env ''1'')) True t 7 (\<lambda>_. None))) \<Longrightarrow>
    checkAlertCreationLimit (read_limits (hourly_env ''1'')) True t 7 (\<lambda>_. None) =
     (Inr (), recordAlertCreation (read_limits (hourly_env ''1'')) 7 t (\<lambda>_. None))" for t
    using check_cases [of "read_limits (hourly_env ''1'')" True t 7 "\<lambda>_. None"] by auto
  show "wl_count (hourly (read_limits (hourly_env ''1''))) = 1" by code_simp
  show "checkAlertCreationLimit (read_limits (hourly_env ''1'')) True 1000 7 (\<lambda>_. None) =
     (Inr (), recordAlertCreation (read_limits (hourly_env ''1'')) 7 1000 (\<lambda>_. None))"
    by (rule look) code_simp
  show "checkAlertCreationLimit (read_limits (hourly_env ''1'')) True 1001 7 (\<lambda>_. None) =
     (Inr (), recordAlertCreation (read_limits (hourly_env ''1'')) 7 1001 (\<lambda>_. None))"
    by (rule look) code_simp
  show "fst (getUserStats (read_limits (hourly_env ''1'')) 1002 7
     (recordAlertCreation (read_limits (hourly_env ''1'')) 7 1001
       (recordAlertCreation (read_limits (hourly_env ''1'')) 7 1000 (\<lambda>_. None)))) = 2" by code_simp
qed

text \<open>
  The member of the sorted set is the timestamp itself, so admissions of the same millisecond are
  one entry: under a limit of two an hour, three requests one after the other in one millisecond are
  all admitted.
\<close>

lemma same_millisecond_over_limit:
  "wl_count (hourly (read_limits (hourly_env ''2''))) = 2 \<and>
   admitted_run (admit_alert (read_limits (hourly_env ''2'')) 7) [1000, 1000, 1000] (\<lambda>_. None) = [1000, 1000, 1000]"
  by code_simp

end
