(* ===== verification/World.thy ===== *)
theory World
  imports RateLimit
begin

text \<open>
  The data model (\<open>prisma/schema.prisma\<close>) and the outside world of the services: the tables, the
  notification queue, the audit and domain event buses, the mailbox, and \<open>env\<close>, which collects
  what a handler reads from its surroundings (the clock, the time zone, environment variables,
  PostGIS, the representation of integer columns in raw query results, and whether a guarded
  call to the queue, the mail provider or the database succeeds).

  All clock reads of one handler run return the same instant.
\<close>

section \<open>Enums\<close>

datatype alert_status = DRAFT | ACTIVE | RESOLVED | EXPIRED | CANCELLED
datatype pet_species = DOG | CAT | BIRD | RABBIT | OTHER
datatype gender = MALE | FEMALE
datatype pet_size = SMALL | SIZE_MEDIUM | LARGE \<comment> \<open>\<open>SIZE_MEDIUM\<close> is \<open>Size.MEDIUM\<close>\<close>
datatype device_platform = IOS | ANDROID | WEB
datatype location_source = GPS | IP | POSTAL_CODE | MANUAL
datatype confidence = HIGH | MEDIUM | LOW
datatype notification_status = QUEUED | SENT | DELIVERED | OPENED | FAILED | EXCLUDED

primrec status_name :: "alert_status \<Rightarrow> string" where
  "status_name DRAFT = ''DRAFT''"
| "status_name ACTIVE = ''ACTIVE''"
| "status_name RESOLVED = ''RESOLVED''"
| "status_name EXPIRED = ''EXPIRED''"
| "status_name CANCELLED = ''CANCELLED''"

primrec status_lower :: "alert_status \<Rightarrow> string" where
  "status_lower DRAFT = ''draft''"
| "status_lower ACTIVE = ''active''"
| "status_lower RESOLVED = ''resolved''"
| "status_lower EXPIRED = ''expired''"
| "status_lower CANCELLED = ''cancelled''"

primrec species_name :: "pet_species \<Rightarrow> string" where
  "species_name DOG = ''DOG''"
| "species_name CAT = ''CAT''"
| "species_name BIRD = ''BIRD''"
| "species_name RABBIT = ''RABBIT''"
| "species_name OTHER = ''OTHER''"

primrec source_name :: "location_source \<Rightarrow> string" where
  "source_name GPS = ''GPS''"
| "source_name IP = ''IP''"
| "source_name POSTAL_CODE = ''POSTAL_CODE''"
| "source_name MANUAL = ''MANUAL''"

primrec confidence_name :: "confidence \<Rightarrow> string" where
  "confidence_name HIGH = ''HIGH''"
| "confidence_name MEDIUM = ''MEDIUM''"
| "confidence_name LOW = ''LOW''"

section \<open>JSON values\<close>

datatype json =
    JUndefined
  | JNull
  | JBool bool
  | JNum rat
  | JStr string
  | JDate time
  | JArr "json list"
  | JObj "(string \<times> json) list"

definition jstr_opt :: "string option \<Rightarrow> json" where
  "jstr_opt s = (case s of None \<Rightarrow> JNull | Some t \<Rightarrow> JStr t)"

definition jdate_opt :: "time option \<Rightarrow> json" where
  "jdate_opt s = (case s of None \<Rightarrow> JNull | Some t \<Rightarrow> JDate t)"

definition jid_opt :: "json \<Rightarrow> id option \<Rightarrow> json" where
  "jid_opt none s = (case s of None \<Rightarrow> none | Some i \<Rightarrow> JNum (of_int i))"

definition jstrs :: "string list \<Rightarrow> json" where
  "jstrs ss = JArr (map JStr ss)"

text \<open>Property read on an object; \<open>undefined\<close> elsewhere.\<close>

definition json_prop :: "string \<Rightarrow> json \<Rightarrow> json" where
  "json_prop k j =
     (case j of JObj ps \<Rightarrow> (case map_of ps k of None \<Rightarrow> JUndefined | Some v \<Rightarrow> v) | _ \<Rightarrow> JUndefined)"

section \<open>Rows\<close>

record user_row =
  u_id :: id
  u_name :: string
  u_firstName :: string
  u_lastName :: string
  u_email :: string
  u_emailVerified :: bool
  u_banned :: bool
  u_settings :: "json option"

record pet_row =
  p_id :: id
  p_tagId :: string
  p_userId :: id
  p_petTypeId :: id
  p_name :: string
  p_gender :: "gender option"
  p_photos :: "string list"
  p_primaryPhoto :: "string option"
  p_size :: "pet_size option"
  p_isMissing :: bool
  p_birthday :: "time option"
  p_created_at :: time
  p_updated_at :: time

record alert_row =
  a_id :: id
  a_creator_id :: id
  a_pet_id :: "id option"
  a_pet_name :: string
  a_pet_species :: pet_species
  a_pet_breed :: "string option"
  a_pet_description :: string
  a_pet_color :: "string option"
  a_pet_age_years :: "rat option"
  a_pet_photos :: "string list"
  a_last_seen_lat :: rat
  a_last_seen_lon :: rat
  a_location_point :: point
  a_location_address :: "string option"
  a_alert_radius_km :: rat
  a_status :: alert_status
  a_time_last_seen :: time
  a_created_at :: time
  a_updated_at :: time
  a_expires_at :: time
  a_resolved_at :: "time option"
  a_cancelled_at :: "time option"
  a_renewal_count :: int
  a_success_story_sent_at :: "time option"
  a_contact_phone :: "string option"
  a_contact_email :: "string option"
  a_is_phone_public :: bool
  a_affected_postal_codes :: "string list"
  a_notes :: "string option"
  a_reward_offered :: bool
  a_reward_amount :: "rat option"

record snapshot_row =
  s_id :: id
  s_tagId :: string
  s_alertId :: id
  s_petName :: string
  s_petPhotoUrl :: "string option"
  s_thankYouMessage :: "string option"
  s_resolvedAt :: time
  s_neighboursNotified :: "int option"
  s_sightingsReported :: int
  s_expiresAt :: time

record device_row =
  d_id :: id
  d_user_id :: id
  d_device_uuid :: string
  d_platform :: device_platform
  d_os_version :: "string option"
  d_app_version :: "string option"
  d_push_token :: "string option"
  d_push_token_updated_at :: "time option"
  d_push_enabled :: bool
  d_gps_lat :: "rat option"
  d_gps_lon :: "rat option"
  d_gps_point :: "point option"
  d_gps_accuracy_meters :: "rat option"
  d_gps_updated_at :: "time option"
  d_ip_address :: "string option"
  d_ip_lat :: "rat option"
  d_ip_lon :: "rat option"
  d_ip_point :: "point option"
  d_postal_codes :: "string list"
  d_last_app_open :: "time option"
  d_created_at :: time
  d_updated_at :: time

record saved_zone_row =
  sz_id :: id
  sz_device_id :: id
  sz_name :: string
  sz_location_point :: point
  sz_radius_km :: rat
  sz_is_active :: bool
  sz_priority :: int
  sz_created_at :: time
  sz_updated_at :: time

record alert_zone_row =
  az_id :: id
  az_user_id :: id
  az_name :: string
  az_lat :: rat
  az_lon :: rat
  az_location_point :: point
  az_radius_meters :: int
  az_is_active :: bool
  az_priority :: int
  az_created_at :: time
  az_updated_at :: time

record sighting_row =
  sg_id :: id
  sg_alert_id :: id
  sg_reporter_id :: id
  sg_sighting_lat :: rat
  sg_sighting_lon :: rat
  sg_location_point :: point
  sg_location_address :: "string option"
  sg_photo_url :: "string option"
  sg_photos :: "string list"
  sg_notes :: "string option"
  sg_confidence :: "string option"
  sg_sighting_time :: time
  sg_direction :: "string option"
  sg_dismissed :: bool
  sg_dismissed_at :: "time option"
  sg_dismissed_reason :: "string option"
  sg_created_at :: time
  sg_updated_at :: time

text \<open>The \<open>meta\<close> column of a notification: \<open>null\<close> or an object with these optional keys.\<close>

record relevance =
  rel_inRange :: bool
  rel_distanceKm :: "rat option"
  rel_reportedAt :: time

record notification_meta =
  m_channel :: "string option"
  m_kind :: "string option"
  m_relevance :: "relevance option"

record notification_row =
  n_id :: id
  n_alert_id :: id
  n_device_id :: id
  n_confidence :: confidence
  n_match_reason :: string
  n_distance_km :: "rat option"
  n_status :: notification_status
  n_queued_at :: time
  n_sent_at :: "time option"
  n_delivered_at :: "time option"
  n_opened_at :: "time option"
  n_failed_at :: "time option"
  n_failure_reason :: "string option"
  n_excluded :: bool
  n_exclusion_reason :: "string option"
  n_push_message_id :: "string option"
  n_meta :: "notification_meta option"

section \<open>Effects\<close>

datatype job =
    AlertNotificationJob id "confidence option" \<comment> \<open>\<open>send-alert-notifications\<close>: alertId, wave\<close>
  | PushNotificationJob id \<comment> \<open>\<open>send-push-notification\<close>: notificationId\<close>
  | SuccessStoryJob id \<comment> \<open>\<open>send-success-story\<close>: alertId\<close>

record queued_job =
  j_job :: job
  j_delay :: int
  j_jobId :: "string option"

record audit_payload =
  au_eventType :: string
  au_entityType :: string
  au_entityId :: "id option"
  au_userId :: "id option"
  au_action :: string
  au_description :: string
  au_oldValues :: json
  au_newValues :: json
  au_metadata :: json
  au_errorMessage :: "string option"
  au_success :: bool
  au_actorId :: "string option"
  au_actorType :: "string option"

text \<open>Alert status events (\<open>alert-status-changed.event.ts\<close>), all variants in one record.\<close>

datatype change_source = ByUser | ByPetFound | BySystemExpiry

record status_event =
  ev_alertId :: id
  ev_petId :: "id option"
  ev_creatorId :: id
  ev_previousStatus :: "alert_status option"
  ev_newStatus :: alert_status
  ev_changedBy :: "id option"
  ev_source :: change_source
  ev_occurredAt :: time
  ev_outcome :: "string option"
  ev_notes :: "string option"
  ev_shareSuccessStory :: "bool option"
  ev_reason :: "string option"

record mail =
  mail_template :: string
  mail_to :: string
  mail_data :: json

record world =
  users :: "user_row list"
  pets :: "pet_row list"
  alerts :: "alert_row list"
  snapshots :: "snapshot_row list"
  devices :: "device_row list"
  saved_zones :: "saved_zone_row list"
  alert_zones :: "alert_zone_row list"
  sightings :: "sighting_row list"
  notifications :: "notification_row list"
  redis_db :: redis
  queue :: "queued_job list"
  audits :: "(string \<times> audit_payload) list"
  bus :: "(string \<times> status_event) list"
  mailbox :: "mail list"

definition empty_world :: world where
  "empty_world = \<lparr>users = [], pets = [], alerts = [], snapshots = [], devices = [], saved_zones = [],
     alert_zones = [], sightings = [], notifications = [], redis_db = (\<lambda>_. None), queue = [],
     audits = [], bus = [], mailbox = []\<rparr>"

section \<open>What a handler reads from its surroundings\<close>

text \<open>
  \<open>jskey\<close>: the value of an integer column as the driver hands it to JavaScript, which the location
  service uses as a map key without converting it. The raw query interfaces declare it a string;
  Prisma documents \<open>Int\<close> columns as numbers. Both are instances of \<open>raw_int\<close>.
\<close>

datatype jskey = KNum int | KStr string

text \<open>\<open>parseInt\<close> and \<open>String\<close> on such a value.\<close>

primrec key_int :: "jskey \<Rightarrow> int option" where
  "key_int (KNum n) = Some n"
| "key_int (KStr s) = js_parse_int s"

record send_result =
  sr_success :: bool
  sr_messageId :: "string option"
  sr_error :: "string option"
  sr_invalidToken :: bool

record push_payload =
  pp_title :: string
  pp_body :: string
  pp_imageUrl :: "string option"
  pp_data :: "(string \<times> string) list"

datatype snapshot_fault = BeforeDelete | OnInsert

record env =
  now :: time
  tz :: zone
  getenv :: "string \<Rightarrow> string option"
  st_distance :: "point \<Rightarrow> point \<Rightarrow> rat" \<comment> \<open>metres, on geography\<close>
  st_dwithin :: "point \<Rightarrow> point \<Rightarrow> rat \<Rightarrow> bool"
  raw_int :: "int \<Rightarrow> jskey"
  int_column :: "rat \<Rightarrow> rat" \<comment> \<open>what an \<open>Int\<close> column keeps of a number bound to it\<close>
  decimal_column :: "rat \<Rightarrow> rat" \<comment> \<open>the same for \<open>Decimal(10, 2)\<close>\<close>
  redis_up :: bool
  queue_ok :: "nat \<Rightarrow> bool" \<comment> \<open>whether the next \<open>queue.add\<close> succeeds, by jobs queued so far\<close>
  mail_ok :: "string \<Rightarrow> string \<Rightarrow> bool" \<comment> \<open>by template and recipient\<close>
  snapshot_fault :: "snapshot_fault option" \<comment> \<open>where the guarded reunion snapshot write fails, if it does\<close>
  petflag_ok :: bool \<comment> \<open>the guarded update of the pet's missing flag\<close>
  expiry_error :: "string option" \<comment> \<open>the message of the expiration statement's failure, if it fails\<close>
  point_error :: "string option" \<comment> \<open>the same for the raw statement that writes a device's geometry\<close>
  fcm_send :: "string \<Rightarrow> push_payload \<Rightarrow> send_result"
  apns_send :: "string \<Rightarrow> push_payload \<Rightarrow> send_result"
  webpush_send :: "string \<Rightarrow> push_payload \<Rightarrow> send_result"

text \<open>The documented relation between \<open>ST_DWithin\<close> and \<open>ST_Distance\<close>.\<close>

definition geo_ok :: "env \<Rightarrow> bool" where
  "geo_ok e \<longleftrightarrow> (\<forall>a b d. st_dwithin e a b d \<longleftrightarrow> st_distance e a b \<le> d)"

text \<open>An environment for concrete runs: planar Manhattan distance, everything available.\<close>

definition demo_env :: "time \<Rightarrow> env" where
  "demo_env t = \<lparr>now = t, tz = utc, getenv = (\<lambda>_. None),
     st_distance = (\<lambda>(x, y) (x', y'). 1000 * (\<bar>x - x'\<bar> + \<bar>y - y'\<bar>)),
     st_dwithin = (\<lambda>(x, y) (x', y') d. 1000 * (\<bar>x - x'\<bar> + \<bar>y - y'\<bar>) \<le> d),
     raw_int = KNum, int_column = (\<lambda>x. of_int (math_round x)),
     decimal_column = (\<lambda>x. of_int (math_round (x * 100)) / 100), redis_up = True, queue_ok = (\<lambda>_. True), mail_ok = (\<lambda>_ _. True),
     snapshot_fault = None, petflag_ok = True, expiry_error = None, point_error = None,
     fcm_send = (\<lambda>_ _. \<lparr>sr_success = True, sr_messageId = Some ''m'', sr_error = None, sr_invalidToken = False\<rparr>),
     apns_send = (\<lambda>_ _. \<lparr>sr_success = True, sr_messageId = Some ''m'', sr_error = None, sr_invalidToken = False\<rparr>),
     webpush_send = (\<lambda>_ _. \<lparr>sr_success = True, sr_messageId = Some ''m'', sr_error = None, sr_invalidToken = False\<rparr>)\<rparr>"

lemma demo_env_geo [simp]: "geo_ok (demo_env t)"
  by (auto simp: geo_ok_def demo_env_def)

section \<open>Row access and effects\<close>

definition find_alert :: "id \<Rightarrow> world \<Rightarrow> alert_row option" where
  "find_alert i w = find_row a_id i (alerts w)"

definition update_alert :: "id \<Rightarrow> (alert_row \<Rightarrow> alert_row) \<Rightarrow> world \<Rightarrow> world" where
  "update_alert i f w = w\<lparr>alerts := update_where (\<lambda>a. a_id a = i) f (alerts w)\<rparr>"

definition find_pet :: "id \<Rightarrow> world \<Rightarrow> pet_row option" where
  "find_pet i w = find_row p_id i (pets w)"

definition update_pet :: "id \<Rightarrow> (pet_row \<Rightarrow> pet_row) \<Rightarrow> world \<Rightarrow> world" where
  "update_pet i f w = w\<lparr>pets := update_where (\<lambda>p. p_id p = i) f (pets w)\<rparr>"

definition set_missing :: "env \<Rightarrow> bool \<Rightarrow> pet_row \<Rightarrow> pet_row" where
  "set_missing e b p = p\<lparr>p_isMissing := b, p_updated_at := now e\<rparr>"

definition find_user :: "id \<Rightarrow> world \<Rightarrow> user_row option" where
  "find_user i w = find_row u_id i (users w)"

definition find_device :: "id \<Rightarrow> world \<Rightarrow> device_row option" where
  "find_device i w = find_row d_id i (devices w)"

definition update_device :: "id \<Rightarrow> (device_row \<Rightarrow> device_row) \<Rightarrow> world \<Rightarrow> world" where
  "update_device i f w = w\<lparr>devices := update_where (\<lambda>d. d_id d = i) f (devices w)\<rparr>"

definition find_sighting :: "id \<Rightarrow> world \<Rightarrow> sighting_row option" where
  "find_sighting i w = find_row sg_id i (sightings w)"

definition update_sighting :: "id \<Rightarrow> (sighting_row \<Rightarrow> sighting_row) \<Rightarrow> world \<Rightarrow> world" where
  "update_sighting i f w = w\<lparr>sightings := update_where (\<lambda>s. sg_id s = i) f (sightings w)\<rparr>"

definition find_notification :: "id \<Rightarrow> world \<Rightarrow> notification_row option" where
  "find_notification i w = find_row n_id i (notifications w)"

definition update_notification ::
  "id \<Rightarrow> (notification_row \<Rightarrow> notification_row) \<Rightarrow> world \<Rightarrow> world" where
  "update_notification i f w =
     w\<lparr>notifications := update_where (\<lambda>n. n_id n = i) f (notifications w)\<rparr>"

text \<open>\<open>notification.create\<close>: the schema's defaults for the columns a caller leaves out.\<close>

definition blank_notification :: "env \<Rightarrow> id \<Rightarrow> id \<Rightarrow> confidence \<Rightarrow> string \<Rightarrow> world \<Rightarrow> notification_row" where
  "blank_notification e alertId deviceId conf reason w =
     \<lparr>n_id = next_id n_id (notifications w), n_alert_id = alertId, n_device_id = deviceId,
      n_confidence = conf, n_match_reason = reason, n_distance_km = None, n_status = QUEUED,
      n_queued_at = now e, n_sent_at = None, n_delivered_at = None, n_opened_at = None,
      n_failed_at = None, n_failure_reason = None, n_excluded = False, n_exclusion_reason = None,
      n_push_message_id = None, n_meta = None\<rparr>"

definition insert_notification :: "notification_row \<Rightarrow> world \<Rightarrow> world" where
  "insert_notification n w = w\<lparr>notifications := notifications w @ [n]\<rparr>"

text \<open>The owner of the device a notification row points at (\<open>device: { user_id }\<close>).\<close>

definition notified_user :: "world \<Rightarrow> notification_row \<Rightarrow> id option" where
  "notified_user w n = map_option d_user_id (find_device (n_device_id n) w)"

text \<open>\<open>queue.add\<close>: \<open>None\<close> when the queue is unavailable.\<close>

definition queue_add :: "env \<Rightarrow> job \<Rightarrow> int \<Rightarrow> string option \<Rightarrow> world \<Rightarrow> world option" where
  "queue_add e j delay jid w =
     (if queue_ok e (length (queue w))
      then Some (w\<lparr>queue := queue w @ [\<lparr>j_job = j, j_delay = delay, j_jobId = jid\<rparr>]\<rparr>)
      else None)"

definition emit_audit :: "string \<Rightarrow> audit_payload \<Rightarrow> world \<Rightarrow> world" where
  "emit_audit channel p w = w\<lparr>audits := audits w @ [(channel, p)]\<rparr>"

text \<open>\<open>EmailService.sendHtml\<close>: rendering and sending one template to one address.\<close>

definition send_html :: "env \<Rightarrow> string \<Rightarrow> string \<Rightarrow> json \<Rightarrow> world \<Rightarrow> bool \<times> world" where
  "send_html e template to data w =
     (if mail_ok e template to
      then (True, w\<lparr>mailbox := mailbox w @ [\<lparr>mail_template = template, mail_to = to, mail_data = data\<rparr>]\<rparr>)
      else (False, w))"

definition entity_audit ::
  "string \<Rightarrow> string \<Rightarrow> id \<Rightarrow> id \<Rightarrow> string \<Rightarrow> string \<Rightarrow> json \<Rightarrow> json \<Rightarrow> audit_payload" where
  "entity_audit eventType entityType entityId userId action description oldValues newValues =
     \<lparr>au_eventType = eventType, au_entityType = entityType, au_entityId = Some entityId,
      au_userId = Some userId, au_action = action, au_description = description,
      au_oldValues = oldValues, au_newValues = newValues, au_metadata = JUndefined,
      au_errorMessage = None, au_success = True,
      au_actorId = None, au_actorType = None\<rparr>"

section \<open>The Prisma delegates implement the row-store interface\<close>

interpretation alert_store: row_store a_id find_alert update_alert
  by unfold_locales
    (auto simp: find_alert_def update_alert_def find_row_put dest: find_row_Some)

interpretation pet_store: row_store p_id find_pet update_pet
  by unfold_locales
    (auto simp: find_pet_def update_pet_def find_row_put dest: find_row_Some)

interpretation device_store: row_store d_id find_device update_device
  by unfold_locales
    (auto simp: find_device_def update_device_def find_row_put dest: find_row_Some)

interpretation sighting_store: row_store sg_id find_sighting update_sighting
  by unfold_locales
    (auto simp: find_sighting_def update_sighting_def find_row_put dest: find_row_Some)

interpretation notification_store: row_store n_id find_notification update_notification
  by unfold_locales
    (auto simp: find_notification_def update_notification_def find_row_put dest: find_row_Some)

text \<open>Laws of the effects the handlers compose.\<close>

lemma queue_add_Some:
  "queue_add e j d i w = Some w' \<Longrightarrow>
   w' = w\<lparr>queue := queue w @ [\<lparr>j_job = j, j_delay = d, j_jobId = i\<rparr>]\<rparr>"
  by (simp add: queue_add_def split: if_splits)

lemma alert_store_frame [table_simps, simp]:
  "find_alert i (update_pet j f w) = find_alert i w"
  "find_alert i (update_device j g w) = find_alert i w"
  "find_alert i (update_notification j h w) = find_alert i w"
  "find_alert i (emit_audit c p w) = find_alert i w"
  "find_alert i (insert_notification n w) = find_alert i w"
  by (simp_all add: find_alert_def update_pet_def update_device_def update_notification_def
      emit_audit_def insert_notification_def)

section \<open>Data for concrete runs\<close>

text \<open>A database with one pet and one live alert, for concrete runs.\<close>

definition demo_alert :: alert_row where
  "demo_alert = \<lparr>a_id = 41, a_creator_id = 7, a_pet_id = Some 3, a_pet_name = ''Bella'', a_pet_species = DOG,
     a_pet_breed = None, a_pet_description = ''Small'', a_pet_color = None, a_pet_age_years = None,
     a_pet_photos = [''p1''], a_last_seen_lat = 35, a_last_seen_lon = 33, a_location_point = (33, 35),
     a_location_address = None, a_alert_radius_km = 5, a_status = ACTIVE, a_time_last_seen = 0,
     a_created_at = 0, a_updated_at = 0, a_expires_at = 7 * ms_per_day, a_resolved_at = None,
     a_cancelled_at = None, a_renewal_count = 0, a_success_story_sent_at = None,
     a_contact_phone = Some ''1'', a_contact_email = Some ''m'', a_is_phone_public = False,
     a_affected_postal_codes = [], a_notes = None, a_reward_offered = False, a_reward_amount = None\<rparr>"

definition demo_pet_row :: pet_row where
  "demo_pet_row = \<lparr>p_id = 3, p_tagId = ''PET7K9X2A'', p_userId = 7, p_petTypeId = 1, p_name = ''Bella'', p_gender = None,
     p_photos = [], p_primaryPhoto = None, p_size = None, p_isMissing = True, p_birthday = None, p_created_at = 0,
     p_updated_at = 0\<rparr>"

definition demo_world :: world where
  "demo_world = empty_world\<lparr>alerts := [demo_alert], pets := [demo_pet_row]\<rparr>"

lemma demo_find [simp]:
  "find_alert 41 demo_world = Some demo_alert" "find_pet 3 demo_world = Some demo_pet_row"
  by (simp_all add: find_alert_def find_pet_def demo_world_def demo_alert_def demo_pet_row_def)

lemma demo_alert_simps [simp]:
  "a_id demo_alert = 41" "a_creator_id demo_alert = 7" "a_status demo_alert = ACTIVE"
  "a_pet_id demo_alert = Some 3" "a_renewal_count demo_alert = 0"
  by (simp_all add: demo_alert_def)

text \<open>A phone of user 8 near the alert, with a position reported at instant 0.\<close>

definition demo_phone :: device_row where
  "demo_phone = \<lparr>d_id = 11, d_user_id = 8, d_device_uuid = ''uuid'', d_platform = ANDROID, d_os_version = None,
     d_app_version = None, d_push_token = Some ''tok'',
     d_push_token_updated_at = None, d_push_enabled = True, d_gps_lat = Some 35, d_gps_lon = Some 33,
     d_gps_point = Some (33, 35), d_gps_accuracy_meters = None, d_gps_updated_at = Some 0, d_ip_address = None,
     d_ip_lat = None, d_ip_lon = None, d_ip_point = None, d_postal_codes = [], d_last_app_open = None,
     d_created_at = 0, d_updated_at = 0\<rparr>"

definition demo_helper :: user_row where
  "demo_helper = \<lparr>u_id = 8, u_name = ''H'', u_firstName = ''H'', u_lastName = ''H'', u_email = ''h'',
     u_emailVerified = True, u_banned = False, u_settings = None\<rparr>"

definition demo_zone :: alert_zone_row where
  "demo_zone = \<lparr>az_id = 1, az_user_id = 8, az_name = ''Home'', az_lat = 35, az_lon = 33, az_location_point = (33, 35),
     az_radius_meters = 100, az_is_active = True, az_priority = 0, az_created_at = 0, az_updated_at = 0\<rparr>"

definition demo_sighting :: sighting_row where
  "demo_sighting = \<lparr>sg_id = 1, sg_alert_id = 41, sg_reporter_id = 8, sg_sighting_lat = 35, sg_sighting_lon = 33,
     sg_location_point = (33, 35), sg_location_address = Some ''Park'', sg_photo_url = None, sg_photos = [],
     sg_notes = None, sg_confidence = Some ''HIGH'', sg_sighting_time = 0, sg_direction = None, sg_dismissed = False,
     sg_dismissed_at = None, sg_dismissed_reason = None, sg_created_at = 0, sg_updated_at = 0\<rparr>"

definition demo_town :: world where
  "demo_town = demo_world\<lparr>devices := [demo_phone], users := [demo_helper], alert_zones := [demo_zone]\<rparr>"

end
