(* ===== verification/Reunion.thy ===== *)
theory Reunion
  imports World
begin

text \<open>
  \<open>src/alert/reunion-snapshot.service.ts\<close>, \<open>src/alert/thank-you-message.ts\<close> and
  \<open>src/config/reunion.config.ts\<close>: the public "pet is home" snapshot. Instants that the public DTO
  prints in ISO form are kept as instants.
\<close>

section \<open>The thank-you note\<close>

text \<open>
  \<open>replace(/<[^>]*>/g, '')\<close>: from the leftmost \<open><\<close> that has a \<open>>\<close> after it, everything up to the
  first such \<open>>\<close> is removed, and the search goes on behind it.
\<close>

function strip_tags :: "string \<Rightarrow> string" where
  "strip_tags [] = []"
| "strip_tags (c # cs) =
     (if c = CHR ''<'' \<and> CHR ''>'' \<in> set cs
      then strip_tags (tl (dropWhile (\<lambda>x. x \<noteq> CHR ''>'') cs))
      else c # strip_tags cs)"
  by pat_completeness auto
termination
proof (relation "measure length")
  fix c :: char and cs
  show "(tl (dropWhile (\<lambda>x. x \<noteq> CHR ''>'') cs), c # cs) \<in> measure length"
    using length_dropWhile_le [of "\<lambda>x. x \<noteq> CHR ''>''" cs] by simp
qed auto

text \<open>\<open>[\\u0000-\\u0008\\u000B\\u000C\\u000E-\\u001F\\u007F]\<close>\<close>

definition is_control :: "char \<Rightarrow> bool" where
  "is_control c \<longleftrightarrow> (let n = (of_char c :: nat) in n \<le> 8 \<or> n = 11 \<or> n = 12 \<or> (14 \<le> n \<and> n \<le> 31) \<or> n = 127)"

text \<open>\<open>replace(/\\s+/g, ' ')\<close>; \<open>sp\<close> is whether the previous character was white space.\<close>

fun collapse :: "bool \<Rightarrow> string \<Rightarrow> string" where
  "collapse sp [] = []"
| "collapse sp (c # cs) =
     (if is_space c then (if sp then collapse True cs else CHR '' '' # collapse True cs)
      else c # collapse False cs)"

definition THANK_YOU_MESSAGE_MAX_LENGTH :: nat where
  "THANK_YOU_MESSAGE_MAX_LENGTH = 500"

definition sanitizeThankYouMessage :: "string option \<Rightarrow> string option" where
  "sanitizeThankYouMessage input =
     (case input of
        None \<Rightarrow> None
      | Some s \<Rightarrow>
          let cleaned = trim (collapse False (filter (\<lambda>c. \<not> is_control c) (strip_tags s)))
          in if length cleaned > 0 then Some cleaned else None)"

section \<open>Configuration\<close>

definition DEFAULT_REUNION_TTL_DAYS :: int where "DEFAULT_REUNION_TTL_DAYS = 30"

definition getReunionTtlDays :: "env \<Rightarrow> int" where
  "getReunionTtlDays e =
     (case getenv e ''REUNION_TTL_DAYS'' of
        None \<Rightarrow> DEFAULT_REUNION_TTL_DAYS
      | Some raw \<Rightarrow>
          (case js_parse_int raw of
             None \<Rightarrow> DEFAULT_REUNION_TTL_DAYS
           | Some parsed \<Rightarrow> if parsed > 0 then parsed else DEFAULT_REUNION_TTL_DAYS))"

section \<open>ReunionSnapshotService\<close>

definition DELIVERED_NOTIFICATION_STATUSES :: "notification_status list" where
  "DELIVERED_NOTIFICATION_STATUSES = [SENT, DELIVERED, OPENED]"

record reunion_pet_input =
  rp_tagId :: string
  rp_name :: string
  rp_primaryPhoto :: "string option"
  rp_photos :: "string list"

text \<open>The notification rows of an alert that reached somebody, and their distinct users.\<close>

definition delivered_rows :: "id \<Rightarrow> world \<Rightarrow> notification_row list" where
  "delivered_rows alertId w =
     filter (\<lambda>n. n_alert_id n = alertId \<and> \<not> n_excluded n \<and>
                 n_status n \<in> set DELIVERED_NOTIFICATION_STATUSES) (notifications w)"

definition countNeighboursNotified :: "id \<Rightarrow> world \<Rightarrow> int" where
  "countNeighboursNotified alertId w =
     int (length (remdups (map (notified_user w) (delivered_rows alertId w))))"

definition upsertForResolvedAlert ::
  "env \<Rightarrow> id \<Rightarrow> reunion_pet_input \<Rightarrow> string option \<Rightarrow> time \<Rightarrow> world \<Rightarrow> snapshot_row \<times> world" where
  "upsertForResolvedAlert e alertId pet thankYouMessage resolvedAt w =
     (let neighboursNotified = countNeighboursNotified alertId w;
          sightingsReported = int (count_where (\<lambda>s. sg_alert_id s = alertId) (sightings w));
          expiresAt = resolvedAt + getReunionTtlDays e * 24 * 60 * 60 * 1000;
          kept = delete_where (\<lambda>s. s_tagId s = rp_tagId pet \<or> s_alertId s = alertId) (snapshots w);
          snapshot = \<lparr>s_id = next_id s_id (snapshots w), s_tagId = rp_tagId pet, s_alertId = alertId,
            s_petName = rp_name pet,
            s_petPhotoUrl = (case rp_primaryPhoto pet of
               Some p \<Rightarrow> Some p
             | None \<Rightarrow> (case rp_photos pet of [] \<Rightarrow> None | p # _ \<Rightarrow> Some p)),
            s_thankYouMessage = thankYouMessage, s_resolvedAt = resolvedAt,
            s_neighboursNotified = Some neighboursNotified, s_sightingsReported = sightingsReported,
            s_expiresAt = expiresAt\<rparr>
      in (snapshot, w\<lparr>snapshots := kept @ [snapshot]\<rparr>))"

record reunion_dto =
  rd_tagId :: string
  rd_alertId :: id
  rd_petName :: string
  rd_petPhotoUrl :: "string option"
  rd_thankYouMessage :: "string option"
  rd_resolvedAt :: time
  rd_neighboursNotified :: "int option"
  rd_sightingsReported :: int
  rd_expiresAt :: time

definition toDto :: "snapshot_row \<Rightarrow> reunion_dto" where
  "toDto s =
     \<lparr>rd_tagId = s_tagId s, rd_alertId = s_alertId s, rd_petName = s_petName s,
      rd_petPhotoUrl = s_petPhotoUrl s, rd_thankYouMessage = s_thankYouMessage s,
      rd_resolvedAt = s_resolvedAt s, rd_neighboursNotified = s_neighboursNotified s,
      rd_sightingsReported = s_sightingsReported s, rd_expiresAt = s_expiresAt s\<rparr>"

definition findPublicByTagId :: "env \<Rightarrow> string \<Rightarrow> world \<Rightarrow> reunion_dto option \<times> world" where
  "findPublicByTagId e tagId w =
     (case List.find (\<lambda>s. s_tagId s = tagId) (snapshots w) of
        None \<Rightarrow> (None, w)
      | Some snapshot \<Rightarrow>
          if s_expiresAt snapshot \<le> now e
          then (None, w\<lparr>snapshots := delete_where (\<lambda>s. s_id s = s_id snapshot) (snapshots w)\<rparr>)
          else (Some (toDto snapshot), w))"

definition purgeExpired :: "env \<Rightarrow> world \<Rightarrow> nat \<times> world" where
  "purgeExpired e w =
     (count_where (\<lambda>s. s_expiresAt s < now e) (snapshots w),
      w\<lparr>snapshots := delete_where (\<lambda>s. s_expiresAt s < now e) (snapshots w)\<rparr>)"

section \<open>Lemmas\<close>

text \<open>No complete tag is left: a kept \<open><\<close> has no \<open>>\<close> behind it.\<close>

definition has_tag :: "string \<Rightarrow> bool" where
  "has_tag s \<longleftrightarrow> (\<exists>u v. s = u @ CHR ''<'' # v \<and> CHR ''>'' \<in> set v)"

lemma has_tag_Cons: "has_tag (c # cs) \<longleftrightarrow> (c = CHR ''<'' \<and> CHR ''>'' \<in> set cs) \<or> has_tag cs"
proof
  assume "has_tag (c # cs)"
  then obtain u v where uv: "c # cs = u @ CHR ''<'' # v" "CHR ''>'' \<in> set v"
    by (auto simp: has_tag_def)
  then show "(c = CHR ''<'' \<and> CHR ''>'' \<in> set cs) \<or> has_tag cs"
    by (cases u) (auto simp: has_tag_def)
next
  assume "(c = CHR ''<'' \<and> CHR ''>'' \<in> set cs) \<or> has_tag cs"
  then show "has_tag (c # cs)"
    unfolding has_tag_def by (metis append_Cons append_Nil)
qed

lemma has_tag_Nil [simp]: "\<not> has_tag []"
  by (simp add: has_tag_def)

lemma has_tag_infix: "has_tag v \<Longrightarrow> has_tag (u @ v @ w)"
proof (induction u)
  case Nil
  then obtain a b where ab: "v = a @ CHR ''<'' # b" "CHR ''>'' \<in> set b"
    by (auto simp: has_tag_def)
  then have "v @ w = a @ CHR ''<'' # (b @ w)" "CHR ''>'' \<in> set (b @ w)" by auto
  then show ?case unfolding has_tag_def append_Nil by blast
qed (simp add: has_tag_Cons)

lemma set_tl_dropWhile: "x \<in> set (tl (dropWhile P xs)) \<Longrightarrow> x \<in> set xs"
  by (induction xs) (auto split: if_splits)

lemma set_strip_tags: "x \<in> set (strip_tags s) \<Longrightarrow> x \<in> set s"
  by (induction s rule: strip_tags.induct) (auto split: if_splits dest: set_tl_dropWhile)

lemma strip_tags_clean: "\<not> has_tag (strip_tags s)"
  by (induction s rule: strip_tags.induct) (auto simp: has_tag_Cons dest: set_strip_tags)

lemma strip_tags_id: "\<not> has_tag s \<Longrightarrow> strip_tags s = s"
  by (induction s rule: strip_tags.induct) (auto simp: has_tag_Cons)

lemma has_tag_filter: "has_tag (filter P s) \<Longrightarrow> has_tag s"
  by (induction s) (auto simp: has_tag_Cons split: if_splits)

lemma set_collapse: "x \<in> set (collapse sp s) \<Longrightarrow> x = CHR '' '' \<or> x \<in> set s"
  by (induction sp s rule: collapse.induct) (auto split: if_splits)

lemma has_tag_collapse: "has_tag (collapse sp s) \<Longrightarrow> has_tag s"
  by (induction sp s rule: collapse.induct)
    (auto simp: has_tag_Cons split: if_splits dest: set_collapse)

text \<open>Single-spaced text: white space is a lone blank, none right after \<open>sp\<close>.\<close>

fun single_spaced :: "bool \<Rightarrow> string \<Rightarrow> bool" where
  "single_spaced sp [] = True"
| "single_spaced sp (c # cs) =
     (if is_space c then \<not> sp \<and> c = CHR '' '' \<and> single_spaced True cs else single_spaced False cs)"

lemma is_space_blank [simp]: "is_space CHR '' ''"
  by (simp add: is_space_def)

lemma single_spaced_collapse: "single_spaced sp (collapse sp s)"
  by (induction sp s rule: collapse.induct) auto

lemma collapse_id: "single_spaced sp s \<Longrightarrow> collapse sp s = s"
  by (induction sp s rule: single_spaced.induct) (auto split: if_splits)

lemma single_spaced_weaken: "single_spaced True s \<Longrightarrow> single_spaced sp s"
  by (cases s) (auto split: if_splits)

lemma single_spaced_infix: "single_spaced sp (u @ v @ w) \<Longrightarrow> single_spaced False v"
proof (induction u arbitrary: sp)
  case Nil
  then have "single_spaced sp v"
  proof (simp, induction sp v rule: single_spaced.induct)
    case (2 sp c cs)
    then show ?case by (auto split: if_splits)
  qed simp
  then show ?case by (cases sp) (auto intro: single_spaced_weaken)
next
  case (Cons c u)
  then show ?case by (auto split: if_splits)
qed

lemma trim_infix: "\<exists>u w. s = u @ trim s @ w"
proof -
  let ?m = "dropWhile is_space s"
  have "s = takeWhile is_space s @ ?m" by simp
  moreover have "rev ?m = takeWhile is_space (rev ?m) @ dropWhile is_space (rev ?m)" by simp
  then have "?m = trim s @ rev (takeWhile is_space (rev ?m))"
    unfolding trim_def by (metis rev_append rev_rev_ident)
  ultimately show ?thesis by metis
qed

lemma trim_ends:
  assumes "trim s \<noteq> []"
  shows "\<not> is_space (hd (trim s))" and "\<not> is_space (last (trim s))"
proof -
  let ?d = "dropWhile is_space s"
  have ne: "dropWhile is_space (rev ?d) \<noteq> []" using assms by (simp add: trim_def)
  then show "\<not> is_space (last (trim s))"
    unfolding trim_def by (simp add: last_rev hd_dropWhile)
  obtain r where r: "?d = trim s @ r"
  proof -
    have "rev ?d = takeWhile is_space (rev ?d) @ dropWhile is_space (rev ?d)" by simp
    then have "?d = trim s @ rev (takeWhile is_space (rev ?d))"
      unfolding trim_def by (metis rev_append rev_rev_ident)
    then show thesis by (rule that)
  qed
  then have "hd ?d = hd (trim s)" "?d \<noteq> []" using assms by auto
  then show "\<not> is_space (hd (trim s))" using hd_dropWhile [of is_space s] by simp
qed

lemma trim_id:
  assumes "s \<noteq> []" and "\<not> is_space (hd s)" and "\<not> is_space (last s)"
  shows "trim s = s"
proof -
  have "dropWhile is_space s = s" using assms(1,2) by (cases s) auto
  moreover have "dropWhile is_space (rev s) = rev s"
    using assms(1,3) by (cases "rev s") (auto simp: hd_rev [symmetric])
  ultimately show ?thesis by (simp add: trim_def)
qed

text \<open>What a sanitised note looks like, and that such a note is a fixed point.\<close>

definition clean_note :: "string \<Rightarrow> bool" where
  "clean_note s \<longleftrightarrow> s \<noteq> [] \<and> \<not> has_tag s \<and> (\<forall>c\<in>set s. \<not> is_control c) \<and>
     single_spaced False s \<and> \<not> is_space (hd s) \<and> \<not> is_space (last s)"

lemma not_control_blank [simp]: "\<not> is_control CHR '' ''"
  by (simp add: is_control_def)

lemma sanitize_clean:
  assumes "sanitizeThankYouMessage (Some s) = Some t"
  shows "clean_note t"
proof -
  let ?f = "filter (\<lambda>c. \<not> is_control c) (strip_tags s)"
  let ?c = "collapse False ?f"
  have t: "t = trim ?c" and ne: "t \<noteq> []"
    using assms by (auto simp: sanitizeThankYouMessage_def Let_def split: if_splits)
  obtain u w where uw: "?c = u @ t @ w" using trim_infix [of ?c] t by blast
  have "\<not> has_tag ?c"
    using has_tag_collapse has_tag_filter strip_tags_clean by blast
  then have "\<not> has_tag (u @ t @ w)" using uw by simp
  then have "\<not> has_tag t" using has_tag_infix by blast
  moreover have "\<forall>c\<in>set ?c. \<not> is_control c"
    by (auto dest: set_collapse)
  then have "\<forall>c\<in>set (u @ t @ w). \<not> is_control c" using uw by simp
  then have "\<forall>c\<in>set t. \<not> is_control c" by simp
  moreover have "single_spaced False (u @ t @ w)"
    using single_spaced_collapse [of False ?f] uw by simp
  then have "single_spaced False t" by (rule single_spaced_infix)
  moreover have "\<not> is_space (hd t) \<and> \<not> is_space (last t)"
    unfolding t using ne t by (intro conjI trim_ends) blast+
  ultimately show ?thesis
    unfolding clean_note_def using ne by blast
qed

lemma sanitize_clean_id:
  assumes "clean_note t"
  shows "sanitizeThankYouMessage (Some t) = Some t"
proof -
  have "strip_tags t = t" "filter (\<lambda>c. \<not> is_control c) t = t" "collapse False t = t" "trim t = t"
    using assms by (simp_all add: clean_note_def strip_tags_id collapse_id trim_id)
  then show ?thesis using assms by (simp add: sanitizeThankYouMessage_def clean_note_def)
qed

section \<open>Properties\<close>

text \<open>
  The thank-you sanitiser: whatever the owner types, a note that comes out is not empty,
  contains no HTML tag and no control character, has single blanks as its only white space and
  none at either end, and sanitising it again changes nothing.
\<close>

theorem thank_you_note_sanitised:
  assumes "sanitizeThankYouMessage (Some s) = Some t"
  shows "clean_note t \<and> sanitizeThankYouMessage (Some t) = Some t"
  using sanitize_clean [OF assms] sanitize_clean_id by blast

theorem thank_you_note_sanitised_witness:
  "clean_note ''Thank you'' \<and> sanitizeThankYouMessage (Some ''Thank you'') = Some ''Thank you''"
proof -
  have "sanitizeThankYouMessage (Some '' <b>Thank</b>  you '') = Some ''Thank you''"
    by code_simp
  then show ?thesis by (rule thank_you_note_sanitised)
qed

section \<open>Snapshots: one per tag and per alert\<close>

definition snapshots_unique :: "world \<Rightarrow> bool" where
  "snapshots_unique w \<longleftrightarrow> distinct (map s_tagId (snapshots w)) \<and> distinct (map s_alertId (snapshots w)) \<and>
     distinct (map s_id (snapshots w))"

lemma distinct_map_delete: "distinct (map f xs) \<Longrightarrow> distinct (map f (delete_where p xs))"
  by (simp add: delete_where_def distinct_map_filter)

lemma find_append_fresh:
  "(\<And>x. x \<in> set xs \<Longrightarrow> \<not> p x) \<Longrightarrow> p y \<Longrightarrow> List.find p (xs @ [y]) = Some y"
  by (induction xs) auto

lemma upsert_unique:
  assumes "snapshots_unique w" and "upsertForResolvedAlert e a pet msg t w = (s, w')"
  shows "snapshots_unique w'"
proof -
  have "s_id x < next_id s_id (snapshots w)" if "x \<in> set (snapshots w)" for x
    using next_id_fresh [OF that, of s_id] .
  then show ?thesis using assms
    by (fastforce simp: upsertForResolvedAlert_def Let_def snapshots_unique_def distinct_map_delete)
qed

text \<open>
  C39. Freezing a snapshot: with the unique columns respected before, they are respected after
  the write (so the insert cannot violate them), and until the configured number of days has
  passed the public lookup of that tag answers exactly the frozen snapshot, whose counts are
  those of the alert; from then on it answers nothing.
\<close>

theorem snapshot_round_trip:
  assumes "snapshots_unique w" and "upsertForResolvedAlert e a pet msg t w = (s, w')"
  shows "snapshots_unique w' \<and>
    findPublicByTagId e' (rp_tagId pet) w' =
      (if t + getReunionTtlDays e * ms_per_day \<le> now e'
       then (None, w'\<lparr>snapshots := delete_where (\<lambda>x. s_id x = s_id s) (snapshots w')\<rparr>)
       else (Some (toDto s), w')) \<and>
    s_alertId s = a \<and> s_thankYouMessage s = msg \<and>
    s_neighboursNotified s = Some (countNeighboursNotified a w)"
proof -
  have rows: "snapshots w' =
      delete_where (\<lambda>x. s_tagId x = rp_tagId pet \<or> s_alertId x = a) (snapshots w) @ [s]"
    and tag: "s_tagId s = rp_tagId pet"
    and exp: "s_expiresAt s = t + getReunionTtlDays e * ms_per_day"
    and rest: "s_alertId s = a" "s_thankYouMessage s = msg"
      "s_neighboursNotified s = Some (countNeighboursNotified a w)"
    using assms(2) by (auto simp: upsertForResolvedAlert_def Let_def ms_per_day_def)
  have "List.find (\<lambda>x. s_tagId x = rp_tagId pet) (snapshots w') = Some s"
    unfolding rows using tag by (intro find_append_fresh) auto
  then show ?thesis
    using upsert_unique [OF assms] exp rest by (simp add: findPublicByTagId_def)
qed

definition demo_pet :: reunion_pet_input where
  "demo_pet = \<lparr>rp_tagId = ''PET7K9X2A'', rp_name = ''Bella'', rp_primaryPhoto = None, rp_photos = [''p1'']\<rparr>"

theorem snapshot_round_trip_witness:
  "fst (findPublicByTagId (demo_env 5) ''PET7K9X2A''
     (snd (upsertForResolvedAlert (demo_env 0) 41 demo_pet None 0 empty_world))) \<noteq> None"
proof -
  obtain s w' where up: "upsertForResolvedAlert (demo_env 0) 41 demo_pet None 0 empty_world = (s, w')"
    by fastforce
  have "snapshots_unique empty_world" by (simp add: snapshots_unique_def empty_world_def)
  from snapshot_round_trip [OF this up, of "demo_env 5"] up show ?thesis
    by (simp add: demo_pet_def demo_env_def getReunionTtlDays_def DEFAULT_REUNION_TTL_DAYS_def ms_per_day_def)
qed

end
