(* ===== verification/AlertDto.thy ===== *)
theory AlertDto
  imports Reunion
begin

text \<open>
  \<open>src/alert/dto/\<close>: the request and response objects of the alert endpoints with their validation
  rules, and the mapping from a database row to a response (\<open>mapRawToResponseDto\<close>,
  \<open>mapToResponseDto\<close>, \<open>applyViewerRedaction\<close> of \<open>src/alert/alert.service.ts\<close>).

  The rules are the decorators of the DTOs. Only \<open>POST /alerts/:id/resolve\<close> attaches a pipe that runs
  them (\<open>valid_resolve_alert\<close>); \<open>POST /alerts\<close>, \<open>PUT /alerts/:id\<close> and the cancellation attach none and
  \<open>main.ts\<close> registers none, so the service receives bodies that \<open>valid_create_alert\<close> and \<open>valid_update_alert\<close> refuse
  (\<open>ranges_not_enforced\<close>). They are used to say what is documented, never as a hypothesis about requests.

  The format checks of the validation package (URL, phone number, e-mail address) are parameters.
  A field declared an ISO 8601 string holds the instant that the string denotes.
\<close>

section \<open>Requests\<close>

record format_checks =
  fc_isUrl :: "string \<Rightarrow> bool"
  fc_isPhone :: "string \<Rightarrow> bool"
  fc_isEmail :: "string \<Rightarrow> bool"

definition opt_ok :: "('a \<Rightarrow> bool) \<Rightarrow> 'a option \<Rightarrow> bool" where
  "opt_ok p x = (case x of None \<Rightarrow> True | Some y \<Rightarrow> p y)"

text \<open>
  A property a client may leave out, send as \<open>null\<close> or give a value; \<open>@IsOptional\<close> accepts the
  first two. Only the handlers that tell them apart keep the distinction.
\<close>

datatype 'a field = Absent | Null | Given 'a

primrec field_ok :: "('a \<Rightarrow> bool) \<Rightarrow> 'a field \<Rightarrow> bool" where
  "field_ok p Absent = True"
| "field_ok p Null = True"
| "field_ok p (Given x) = p x"

text \<open>The nullable column value a field writes; a field that is absent keeps the old value.\<close>

primrec patched :: "'a option \<Rightarrow> 'a field \<Rightarrow> 'a option" where
  "patched old Absent = old"
| "patched old Null = None"
| "patched old (Given x) = Some x"

text \<open>\<open>x ?? y\<close> on such a field.\<close>

primrec field_or :: "'a \<Rightarrow> 'a field \<Rightarrow> 'a" where
  "field_or d Absent = d"
| "field_or d Null = d"
| "field_or d (Given x) = x"

definition max_length :: "nat \<Rightarrow> string \<Rightarrow> bool" where
  "max_length n s \<longleftrightarrow> length s \<le> n"

definition num_between :: "rat \<Rightarrow> rat \<Rightarrow> rat \<Rightarrow> bool" where
  "num_between lo hi x \<longleftrightarrow> lo \<le> x \<and> x \<le> hi"

record pet_details_dto =
  pd_name :: string
  pd_species :: pet_species
  pd_breed :: "string option"
  pd_description :: string
  pd_color :: "string option"
  pd_ageYears :: "rat option"
  pd_photos :: "string list option"

definition valid_pet_details :: "format_checks \<Rightarrow> pet_details_dto \<Rightarrow> bool" where
  "valid_pet_details fc d \<longleftrightarrow>
     max_length 100 (pd_name d) \<and> opt_ok (max_length 100) (pd_breed d) \<and>
     max_length 2000 (pd_description d) \<and> opt_ok (max_length 50) (pd_color d) \<and>
     opt_ok (num_between 0 50) (pd_ageYears d) \<and>
     opt_ok (\<lambda>ps. length ps \<le> 10 \<and> list_all (fc_isUrl fc) ps) (pd_photos d)"

record location_details_dto =
  ld_lat :: rat
  ld_lon :: rat
  ld_address :: "string option"
  ld_lastSeenTime :: time
  ld_radiusKm :: rat

definition valid_location_details :: "location_details_dto \<Rightarrow> bool" where
  "valid_location_details d \<longleftrightarrow>
     num_between (- 90) 90 (ld_lat d) \<and> num_between (- 180) 180 (ld_lon d) \<and>
     opt_ok (max_length 500) (ld_address d) \<and> num_between 1 50 (ld_radiusKm d)"

record contact_details_dto =
  cd_phone :: "string option"
  cd_email :: "string option"
  cd_isPhonePublic :: bool

definition valid_contact_details :: "format_checks \<Rightarrow> contact_details_dto \<Rightarrow> bool" where
  "valid_contact_details fc d \<longleftrightarrow> opt_ok (fc_isPhone fc) (cd_phone d) \<and> opt_ok (fc_isEmail fc) (cd_email d)"

record reward_details_dto =
  rw_offered :: bool
  rw_amount :: "rat option"

definition valid_reward_details :: "reward_details_dto \<Rightarrow> bool" where
  "valid_reward_details d \<longleftrightarrow> opt_ok (num_between 0 100000) (rw_amount d)"

record create_alert_dto =
  ca_petId :: "id option"
  ca_pet :: pet_details_dto
  ca_location :: location_details_dto
  ca_contact :: contact_details_dto
  ca_reward :: "reward_details_dto option"
  ca_notes :: "string option"

definition valid_create_alert :: "format_checks \<Rightarrow> create_alert_dto \<Rightarrow> bool" where
  "valid_create_alert fc d \<longleftrightarrow>
     valid_pet_details fc (ca_pet d) \<and> valid_location_details (ca_location d) \<and>
     valid_contact_details fc (ca_contact d) \<and> opt_ok valid_reward_details (ca_reward d) \<and>
     opt_ok (max_length 2000) (ca_notes d)"

record update_alert_dto =
  ud_petDescription :: "string field"
  ud_petPhotos :: "string list field"
  ud_contactPhone :: "string field"
  ud_contactEmail :: "string field"
  ud_notes :: "string field"

definition valid_update_alert :: "format_checks \<Rightarrow> update_alert_dto \<Rightarrow> bool" where
  "valid_update_alert fc d \<longleftrightarrow>
     field_ok (max_length 2000) (ud_petDescription d) \<and>
     field_ok (\<lambda>ps. length ps \<le> 10 \<and> list_all (fc_isUrl fc) ps) (ud_petPhotos d) \<and>
     field_ok (max_length 2000) (ud_notes d)"

datatype alert_outcome =
  FOUND_SAFE | FOUND_INJURED | FOUND_DECEASED | RETURNED_HOME | FALSE_ALARM | OUTCOME_OTHER

primrec outcome_name :: "alert_outcome \<Rightarrow> string" where
  "outcome_name FOUND_SAFE = ''FOUND_SAFE''"
| "outcome_name FOUND_INJURED = ''FOUND_INJURED''"
| "outcome_name FOUND_DECEASED = ''FOUND_DECEASED''"
| "outcome_name RETURNED_HOME = ''RETURNED_HOME''"
| "outcome_name FALSE_ALARM = ''FALSE_ALARM''"
| "outcome_name OUTCOME_OTHER = ''OTHER''"

definition FOUND_OUTCOMES :: "alert_outcome list" where
  "FOUND_OUTCOMES = [FOUND_SAFE, FOUND_INJURED, RETURNED_HOME]"

definition isFoundOutcome :: "alert_outcome \<Rightarrow> bool" where
  "isFoundOutcome outcome \<longleftrightarrow> outcome \<in> set FOUND_OUTCOMES"

record resolve_alert_dto =
  rs_outcome :: alert_outcome
  rs_notes :: "string option"
  rs_shareSuccessStory :: bool
  rs_thankYouMessage :: "string option"

text \<open>The pipe transforms the thank-you note first and validates the transformed value.\<close>

definition transform_resolve :: "resolve_alert_dto \<Rightarrow> resolve_alert_dto" where
  "transform_resolve d = d\<lparr>rs_thankYouMessage := sanitizeThankYouMessage (rs_thankYouMessage d)\<rparr>"

definition valid_resolve_alert :: "resolve_alert_dto \<Rightarrow> bool" where
  "valid_resolve_alert d \<longleftrightarrow>
     opt_ok (max_length 2000) (rs_notes d) \<and>
     opt_ok (\<lambda>s. 1 \<le> length s \<and> length s \<le> THANK_YOU_MESSAGE_MAX_LENGTH) (rs_thankYouMessage d)"

record cancel_alert_dto =
  cl_reason :: "string field"

definition valid_cancel_alert :: "cancel_alert_dto \<Rightarrow> bool" where
  "valid_cancel_alert d \<longleftrightarrow> field_ok (max_length 2000) (cl_reason d)"

text \<open>\<open>limit\<close> and \<open>offset\<close> are whole numbers here; a fractional one is rounded by the database.\<close>

record list_alerts_query =
  q_lat :: "rat option"
  q_lon :: "rat option"
  q_radiusKm :: "rat option"
  q_species :: "pet_species option"
  q_status :: "alert_status option"
  q_postalCode :: "string option"
  q_limit :: "nat option"
  q_offset :: "nat option"

definition valid_list_query :: "list_alerts_query \<Rightarrow> bool" where
  "valid_list_query q \<longleftrightarrow>
     opt_ok (num_between (- 90) 90) (q_lat q) \<and> opt_ok (num_between (- 180) 180) (q_lon q) \<and>
     opt_ok (num_between 1 100) (q_radiusKm q) \<and> opt_ok (\<lambda>n. 1 \<le> n \<and> n \<le> 100) (q_limit q)"

section \<open>Responses\<close>

text \<open>
  \<open>r_pet\<close> and \<open>r_location\<close> are the nested objects the e-mail methods of the service read from a
  response; the class does not declare them and no mapper sets them.
\<close>

record response_pet =
  rsp_name :: string
  rsp_species :: pet_species
  rsp_breed :: "string option"
  rsp_description :: string
  rsp_photos :: "string list"

record response_location =
  rsl_address :: "string option"
  rsl_radiusKm :: rat

record alert_dto =
  r_id :: id
  r_creatorId :: "id option"
  r_petId :: "id option"
  r_tagId :: "string option"
  r_petName :: string
  r_petSpecies :: pet_species
  r_petBreed :: "string option"
  r_petDescription :: string
  r_petColor :: "string option"
  r_petAgeYears :: "rat option"
  r_petPhotos :: "string list"
  r_lastSeenLat :: rat
  r_lastSeenLon :: rat
  r_locationAddress :: "string option"
  r_alertRadiusKm :: rat
  r_status :: alert_status
  r_timeLastSeen :: time
  r_createdAt :: time
  r_updatedAt :: time
  r_expiresAt :: time
  r_resolvedAt :: "time option"
  r_cancelledAt :: "time option"
  r_renewalCount :: int
  r_contactPhone :: "string option"
  r_contactEmail :: "string option"
  r_isPhonePublic :: bool
  r_affectedPostalCodes :: "string list option"
  r_notes :: "string option"
  r_rewardOffered :: bool
  r_rewardAmount :: "rat option"
  r_distanceKm :: "rat option"
  r_sightingCount :: "nat option"
  r_pet :: "response_pet option"
  r_location :: "response_location option"

text \<open>\<open>alert\<close> is the row; \<open>tagId\<close> the joined tag of its pet; \<open>distance\<close> the computed column, if any.\<close>

definition mapRawToResponseDto :: "string option \<Rightarrow> rat option \<Rightarrow> alert_row \<Rightarrow> alert_dto" where
  "mapRawToResponseDto tagId distance alert =
     \<lparr>r_id = a_id alert, r_creatorId = Some (a_creator_id alert), r_petId = a_pet_id alert,
      r_tagId = tagId, r_petName = a_pet_name alert, r_petSpecies = a_pet_species alert,
      r_petBreed = a_pet_breed alert, r_petDescription = a_pet_description alert,
      r_petColor = a_pet_color alert, r_petAgeYears = a_pet_age_years alert,
      r_petPhotos = a_pet_photos alert, r_lastSeenLat = a_last_seen_lat alert,
      r_lastSeenLon = a_last_seen_lon alert, r_locationAddress = a_location_address alert,
      r_alertRadiusKm = a_alert_radius_km alert, r_status = a_status alert,
      r_timeLastSeen = a_time_last_seen alert, r_createdAt = a_created_at alert,
      r_updatedAt = a_updated_at alert, r_expiresAt = a_expires_at alert,
      r_resolvedAt = a_resolved_at alert, r_cancelledAt = a_cancelled_at alert,
      r_renewalCount = a_renewal_count alert,
      r_contactPhone = (if a_is_phone_public alert then a_contact_phone alert else None),
      r_contactEmail = None, r_isPhonePublic = a_is_phone_public alert,
      r_affectedPostalCodes = Some (a_affected_postal_codes alert), r_notes = a_notes alert,
      r_rewardOffered = a_reward_offered alert, r_rewardAmount = a_reward_amount alert,
      r_distanceKm = (if truthy_num distance then distance else None),
      r_sightingCount = None, r_pet = None, r_location = None\<rparr>"

definition mapToResponseDto :: "string option \<Rightarrow> nat \<Rightarrow> alert_row \<Rightarrow> id option \<Rightarrow> alert_dto" where
  "mapToResponseDto tagId openSightings alert requesterId =
     (let isCreator = (requesterId = Some (a_creator_id alert))
      in (mapRawToResponseDto tagId None alert)
           \<lparr>r_contactPhone := (if isCreator \<or> a_is_phone_public alert then a_contact_phone alert else None),
            r_contactEmail := (if isCreator then a_contact_email alert else None),
            r_sightingCount := Some openSightings\<rparr>)"

definition roundCoordinate :: "rat \<Rightarrow> rat" where
  "roundCoordinate v = of_int (math_round (v * 1000)) / 1000"

definition applyViewerRedaction :: "alert_dto \<Rightarrow> id option \<Rightarrow> alert_dto" where
  "applyViewerRedaction dto requesterId =
     (if requesterId \<noteq> None then dto
      else dto\<lparr>r_creatorId := None, r_contactEmail := None, r_notes := None,
               r_affectedPostalCodes := None,
               r_lastSeenLat := roundCoordinate (r_lastSeenLat dto),
               r_lastSeenLon := roundCoordinate (r_lastSeenLon dto)\<rparr>)"

section \<open>Lemmas\<close>

lemma roundCoordinate_near: "\<bar>roundCoordinate v - v\<bar> \<le> 1 / 2000"
proof -
  have "\<bar>of_int (math_round (v * 1000)) - v * 1000\<bar> \<le> 1 / 2" by (rule math_round_near)
  then show ?thesis unfolding roundCoordinate_def by linarith
qed

lemma roundCoordinate_grid: "roundCoordinate v * 1000 \<in> \<int>"
  by (simp add: roundCoordinate_def)

text \<open>What an anonymous caller may see of an alert.\<close>

definition public_view :: "alert_row \<Rightarrow> alert_dto \<Rightarrow> bool" where
  "public_view a d \<longleftrightarrow>
     r_creatorId d = None \<and> r_contactEmail d = None \<and> r_notes d = None \<and> r_affectedPostalCodes d = None \<and>
     r_contactPhone d = (if a_is_phone_public a then a_contact_phone a else None) \<and>
     r_lastSeenLat d * 1000 \<in> \<int> \<and> \<bar>r_lastSeenLat d - a_last_seen_lat a\<bar> \<le> 1 / 2000 \<and>
     r_lastSeenLon d * 1000 \<in> \<int> \<and> \<bar>r_lastSeenLon d - a_last_seen_lon a\<bar> \<le> 1 / 2000"

lemma public_view_raw: "public_view a (applyViewerRedaction (mapRawToResponseDto tag d a) None)"
  using roundCoordinate_near roundCoordinate_grid
  by (simp add: public_view_def applyViewerRedaction_def mapRawToResponseDto_def)

lemma public_view_detail: "public_view a (applyViewerRedaction (mapToResponseDto tag n a None) None)"
  using roundCoordinate_near roundCoordinate_grid
  by (simp add: public_view_def applyViewerRedaction_def mapToResponseDto_def mapRawToResponseDto_def)

lemma redaction_keeps [simp]:
  "r_id (applyViewerRedaction d u) = r_id d"
  "r_status (applyViewerRedaction d u) = r_status d"
  "r_distanceKm (applyViewerRedaction d u) = r_distanceKm d"
  "r_pet (applyViewerRedaction d u) = r_pet d"
  "r_location (applyViewerRedaction d u) = r_location d"
  by (simp_all add: applyViewerRedaction_def)

lemma map_dto_simps [simp]:
  "r_id (mapRawToResponseDto t d a) = a_id a"
  "r_status (mapRawToResponseDto t d a) = a_status a"
  "r_pet (mapRawToResponseDto t d a) = None"
  "r_id (mapToResponseDto t n a u) = a_id a"
  "r_status (mapToResponseDto t n a u) = a_status a"
  "r_pet (mapToResponseDto t n a u) = None"
  "r_location (mapToResponseDto t n a u) = None"
  by (simp_all add: mapToResponseDto_def mapRawToResponseDto_def Let_def)

end
