(* ===== verification/NotificationService.thy ===== *)
theory NotificationService
  imports World
begin

text \<open>
  \<open>src/notification/notification.service.ts\<close> and \<open>notification.constants.ts\<close>: queueing of the
  escalation waves and of the success-story job, the texts of a push, exclusion bookkeeping,
  delivery receipts and click-time relevance feedback.
\<close>

section \<open>Constants\<close>

definition ESCALATION_WAVES :: "(confidence \<times> int) list" where
  "ESCALATION_WAVES = [(HIGH, 0), (MEDIUM, 15 * 60 * 1000), (LOW, 60 * 60 * 1000)]"

definition QUIET_HOURS_START :: int where "QUIET_HOURS_START = 22"
definition QUIET_HOURS_END :: int where "QUIET_HOURS_END = 7"

primrec DAILY_CAP_BY_CONFIDENCE :: "confidence \<Rightarrow> nat" where
  "DAILY_CAP_BY_CONFIDENCE HIGH = 10"
| "DAILY_CAP_BY_CONFIDENCE MEDIUM = 5"
| "DAILY_CAP_BY_CONFIDENCE LOW = 2"

datatype exclusion_reason = PUSH_TOKEN_MISSING | QUIET_HOURS | DAILY_CAP | ALREADY_NOTIFIED

primrec exclusion_code :: "exclusion_reason \<Rightarrow> string" where
  "exclusion_code PUSH_TOKEN_MISSING = ''PUSH_TOKEN_MISSING''"
| "exclusion_code QUIET_HOURS = ''QUIET_HOURS''"
| "exclusion_code DAILY_CAP = ''DAILY_CAP''"
| "exclusion_code ALREADY_NOTIFIED = ''ALREADY_NOTIFIED''"

definition SUCCESS_STORY_MATCH_REASON :: string where
  "SUCCESS_STORY_MATCH_REASON = ''SUCCESS_STORY''"

definition SUCCESS_STORY_META_KIND :: string where
  "SUCCESS_STORY_META_KIND = ''alert_resolved''"

section \<open>Queueing\<close>

text \<open>One delayed job per wave; the loop stops at the first \<open>add\<close> that fails.\<close>

fun queue_waves :: "env \<Rightarrow> id \<Rightarrow> (confidence \<times> int) list \<Rightarrow> world \<Rightarrow> (exn + unit) \<times> world" where
  "queue_waves e alertId [] w = (Inr (), w)"
| "queue_waves e alertId ((wave, delayMs) # waves) w =
     (case queue_add e (AlertNotificationJob alertId (Some wave)) delayMs None w of
        None \<Rightarrow> (Inl (Error ''queue unavailable''), w)
      | Some w' \<Rightarrow> queue_waves e alertId waves w')"

definition queueAlertNotifications :: "env \<Rightarrow> id \<Rightarrow> world \<Rightarrow> (exn + unit) \<times> world" where
  "queueAlertNotifications e alertId w = queue_waves e alertId ESCALATION_WAVES w"

definition queueSuccessStoryNotifications :: "env \<Rightarrow> id \<Rightarrow> world \<Rightarrow> (exn + unit) \<times> world" where
  "queueSuccessStoryNotifications e alertId w =
     (case queue_add e (SuccessStoryJob alertId) 0 (Some (''success-story-'' @ show_int alertId)) w of
        None \<Rightarrow> (Inl (Error ''queue unavailable''), w)
      | Some w' \<Rightarrow> (Inr (), w'))"

section \<open>Texts\<close>

definition ascii_upper :: "char \<Rightarrow> char" where
  "ascii_upper c = (let n = (of_char c :: nat) in if 97 \<le> n \<and> n \<le> 122 then char_of (n - 32) else c)"

definition paw_icon :: string where
  "paw_icon = [CHR 0xF0, CHR 0x9F, CHR 0x90, CHR 0xBE]"

definition getSpeciesIcon :: "string \<Rightarrow> string" where
  "getSpeciesIcon species =
     (let k = map ascii_upper species in
      if k = ''DOG'' then [CHR 0xF0, CHR 0x9F, CHR 0x90, CHR 0x95]
      else if k = ''CAT'' then [CHR 0xF0, CHR 0x9F, CHR 0x90, CHR 0x88]
      else if k = ''BIRD'' then [CHR 0xF0, CHR 0x9F, CHR 0x90, CHR 0xA6]
      else if k = ''RABBIT'' then [CHR 0xF0, CHR 0x9F, CHR 0x90, CHR 0xB0]
      else paw_icon)"

definition formatDistance :: "rat \<Rightarrow> string" where
  "formatDistance distanceKm =
     (if distanceKm < 1 / 10 then ''very close to you''
      else if distanceKm < 1 then show_int (math_round (distanceKm * 1000)) @ ''m from you''
      else if distanceKm < 10 then to_fixed1 distanceKm @ ''km from you''
      else show_int (math_round distanceKm) @ ''km from you'')"

definition em_dash :: string where
  "em_dash = [CHR 0xE2, CHR 0x80, CHR 0x94]"

definition buildTitle :: "confidence \<Rightarrow> string \<Rightarrow> string \<Rightarrow> rat option \<Rightarrow> string" where
  "buildTitle conf petSpecies petName distanceKm =
     (let speciesIcon = getSpeciesIcon petSpecies;
          distance = (if truthy_num distanceKm then formatDistance (the distanceKm) else ''in your area'')
      in case conf of
           HIGH \<Rightarrow> speciesIcon @ '' Missing '' @ petSpecies @ '': '' @ petName @ '' '' @ em_dash
                     @ '' Last seen '' @ distance
         | MEDIUM \<Rightarrow> ''Missing '' @ petSpecies @ '' nearby: '' @ petName @ '' '' @ em_dash
                     @ '' Keep an eye out''
         | LOW \<Rightarrow> ''Missing pet alert in your area'')"

definition buildBody :: "string \<Rightarrow> string option \<Rightarrow> string" where
  "buildBody petDescription locationAddress =
     (let body = (if truthy_str locationAddress
                  then petDescription @ '' Last seen near '' @ the locationAddress @ ''.''
                  else petDescription)
      in if length body > 170 then take (170 - 3) body @ ''...'' else body)"

section \<open>Bookkeeping\<close>

definition trackExclusion :: "env \<Rightarrow> id \<Rightarrow> id \<Rightarrow> exclusion_reason \<Rightarrow> world \<Rightarrow> world" where
  "trackExclusion e alertId deviceId reason w =
     (let n = (blank_notification e alertId deviceId LOW ''MANUAL'' w)
                \<lparr>n_excluded := True, n_exclusion_reason := Some (exclusion_code reason)\<rparr>
      in emit_audit ''audit.notification.excluded''
           \<lparr>au_eventType = ''SYSTEM'', au_entityType = ''NOTIFICATION'', au_entityId = None,
            au_userId = None, au_action = ''notification_excluded'',
            au_description = ''Device '' @ show_int deviceId @ '' excluded from alert ''
              @ show_int alertId @ '' notifications'',
            au_oldValues = JUndefined, au_newValues = JUndefined,
            au_metadata = JObj [(''alertId'', JNum (of_int alertId)), (''deviceId'', JNum (of_int deviceId)),
              (''reason'', JStr (exclusion_code reason))],
            au_errorMessage = None, au_success = True,
      au_actorId = None, au_actorType = None\<rparr>
           (insert_notification n w))"

text \<open>\<open>update\<close> on a missing row raises Prisma's record-not-found error (P2025).\<close>

definition handleDeliveryReceipt :: "env \<Rightarrow> id \<Rightarrow> world \<Rightarrow> (exn + unit) \<times> world" where
  "handleDeliveryReceipt e notificationId w =
     (case find_notification notificationId w of
        None \<Rightarrow> (Inl (Error ''P2025''), w)
      | Some _ \<Rightarrow>
          (Inr (), update_notification notificationId
             (\<lambda>n. n\<lparr>n_status := DELIVERED, n_delivered_at := Some (now e)\<rparr>) w))"

definition recordRelevance ::
  "env \<Rightarrow> id \<Rightarrow> id \<Rightarrow> bool \<Rightarrow> rat option \<Rightarrow> world \<Rightarrow> (exn + unit) \<times> world" where
  "recordRelevance e notificationId userId inRange distanceKm w =
     (case List.find (\<lambda>n. n_id n = notificationId \<and> notified_user w n = Some userId) (notifications w) of
        None \<Rightarrow> (Inl (NotFoundException (''Notification '' @ show_int notificationId @ '' not found'')), w)
      | Some notification \<Rightarrow>
          let existingMeta = (case n_meta notification of
                None \<Rightarrow> \<lparr>m_channel = None, m_kind = None, m_relevance = None\<rparr> | Some m \<Rightarrow> m)
          in (Inr (), update_notification notificationId
               (\<lambda>n. n\<lparr>n_status := OPENED,
                      n_opened_at := Some (case n_opened_at notification of None \<Rightarrow> now e | Some t \<Rightarrow> t),
                      n_meta := Some (existingMeta\<lparr>m_relevance :=
                        Some \<lparr>rel_inRange = inRange, rel_distanceKm = distanceKm,
                              rel_reportedAt = now e\<rparr>\<rparr>)\<rparr>) w))"

section \<open>Lemmas\<close>

lemma queue_waves_only_queue:
  "queue_waves e i ws w = (r, w') \<Longrightarrow> \<exists>js. w' = w\<lparr>queue := queue w @ js\<rparr>"
proof (induction ws arbitrary: w)
  case Nil
  then show ?case by (intro exI [of _ "[]"]) simp
next
  case (Cons x ws)
  obtain wave d where x: "x = (wave, d)" by (cases x)
  show ?case
  proof (cases "queue_add e (AlertNotificationJob i (Some wave)) d None w")
    case None
    with Cons.prems x show ?thesis by (intro exI [of _ "[]"]) simp
  next
    case (Some w1)
    with Cons.prems x have "queue_waves e i ws w1 = (r, w')" by simp
    then obtain js where js: "w' = w1\<lparr>queue := queue w1 @ js\<rparr>" using Cons.IH by blast
    from queue_add_Some [OF Some] js show ?thesis
      by (intro exI [of _ "\<lparr>j_job = AlertNotificationJob i (Some wave), j_delay = d, j_jobId = None\<rparr> # js"]) simp
  qed
qed

lemma queueAlertNotifications_up:
  assumes "\<And>n. queue_ok e n"
  shows "queueAlertNotifications e i w = (Inr (), w\<lparr>queue := queue w @
    [\<lparr>j_job = AlertNotificationJob i (Some HIGH), j_delay = 0, j_jobId = None\<rparr>,
     \<lparr>j_job = AlertNotificationJob i (Some MEDIUM), j_delay = 15 * 60 * 1000, j_jobId = None\<rparr>,
     \<lparr>j_job = AlertNotificationJob i (Some LOW), j_delay = 60 * 60 * 1000, j_jobId = None\<rparr>]\<rparr>)"
  using assms by (simp add: queueAlertNotifications_def ESCALATION_WAVES_def queue_add_def)

lemma queueSuccessStory_only_queue:
  "queueSuccessStoryNotifications e i w = (r, w') \<Longrightarrow> \<exists>js. w' = w\<lparr>queue := queue w @ js\<rparr>"
proof -
  assume eq: "queueSuccessStoryNotifications e i w = (r, w')"
  have "w' = w\<lparr>queue := queue w @ []\<rparr> \<or> (\<exists>j. w' = w\<lparr>queue := queue w @ [j]\<rparr>)"
    using eq by (auto simp: queueSuccessStoryNotifications_def queue_add_def split: if_splits)
  then show ?thesis by blast
qed

lemma buildBody_length: "length (buildBody d a) \<le> 170"
  by (simp add: buildBody_def Let_def)

lemma trackExclusion_frame [simp]:
  "alerts (trackExclusion e i d r w) = alerts w"
  "devices (trackExclusion e i d r w) = devices w"
  "users (trackExclusion e i d r w) = users w"
  "queue (trackExclusion e i d r w) = queue w"
  "mailbox (trackExclusion e i d r w) = mailbox w"
  by (simp_all add: trackExclusion_def Let_def emit_audit_def insert_notification_def)

lemma trackExclusion_rows:
  "\<exists>n. notifications (trackExclusion e i d r w) = notifications w @ [n] \<and> n_excluded n \<and>
       n_alert_id n = i \<and> n_device_id n = d \<and> n_exclusion_reason n = Some (exclusion_code r)"
  by (simp add: trackExclusion_def Let_def emit_audit_def insert_notification_def blank_notification_def)

end
