(* ===== verification/AlertEvents.thy ===== *)
theory AlertEvents
  imports World
begin

text \<open>
  \<open>src/alert/events/\<close>: the alert status event publisher. Every status change is published twice on
  the in-process bus, under its own name and under the generic one. The registered handlers
  only log, so the bus is all the state there is.
\<close>

datatype event_name = STATUS_CHANGED | EV_ACTIVATED | EV_RESOLVED | EV_CANCELLED | EV_EXPIRED

primrec AlertEventNames :: "event_name \<Rightarrow> string" where
  "AlertEventNames STATUS_CHANGED = ''alert.status.changed''"
| "AlertEventNames EV_ACTIVATED = ''alert.status.activated''"
| "AlertEventNames EV_RESOLVED = ''alert.status.resolved''"
| "AlertEventNames EV_CANCELLED = ''alert.status.cancelled''"
| "AlertEventNames EV_EXPIRED = ''alert.status.expired''"

text \<open>The publisher's input: an event without the fields it fills in.\<close>

record event_input =
  in_alertId :: id
  in_petId :: "id option"
  in_creatorId :: id
  in_previousStatus :: "alert_status option"
  in_changedBy :: "id option"
  in_source :: change_source
  in_occurredAt :: "time option"
  in_outcome :: "string option"
  in_notes :: "string option"
  in_shareSuccessStory :: "bool option"
  in_reason :: "string option"

definition mk_event :: "env \<Rightarrow> alert_status \<Rightarrow> event_input \<Rightarrow> status_event" where
  "mk_event e newStatus i =
     \<lparr>ev_alertId = in_alertId i, ev_petId = in_petId i, ev_creatorId = in_creatorId i,
      ev_previousStatus = in_previousStatus i, ev_newStatus = newStatus, ev_changedBy = in_changedBy i,
      ev_source = in_source i,
      ev_occurredAt = (case in_occurredAt i of None \<Rightarrow> now e | Some t \<Rightarrow> t),
      ev_outcome = in_outcome i, ev_notes = in_notes i,
      ev_shareSuccessStory = in_shareSuccessStory i, ev_reason = in_reason i\<rparr>"

definition publish :: "env \<Rightarrow> event_name \<Rightarrow> alert_status \<Rightarrow> event_input \<Rightarrow> world \<Rightarrow> world" where
  "publish e eventName newStatus input w =
     (let event = mk_event e newStatus input
      in w\<lparr>bus := bus w @ [(AlertEventNames eventName, event), (AlertEventNames STATUS_CHANGED, event)]\<rparr>)"

definition activated :: "env \<Rightarrow> event_input \<Rightarrow> world \<Rightarrow> world" where
  "activated e input = publish e EV_ACTIVATED ACTIVE input"

definition resolved :: "env \<Rightarrow> event_input \<Rightarrow> world \<Rightarrow> world" where
  "resolved e input = publish e EV_RESOLVED RESOLVED input"

definition cancelled :: "env \<Rightarrow> event_input \<Rightarrow> world \<Rightarrow> world" where
  "cancelled e input = publish e EV_CANCELLED CANCELLED input"

definition expired :: "env \<Rightarrow> event_input \<Rightarrow> world \<Rightarrow> world" where
  "expired e input = publish e EV_EXPIRED EXPIRED input"

lemmas publisher_defs = activated_def resolved_def cancelled_def expired_def publish_def Let_def

section \<open>Frame laws\<close>

lemma publish_only_bus: "\<exists>es. publish e n s i w = w\<lparr>bus := bus w @ es\<rparr>"
  by (auto simp: publish_def Let_def)

lemma publish_frame [simp]:
  "alerts (publish e n s i w) = alerts w"
  "pets (publish e n s i w) = pets w"
  "queue (publish e n s i w) = queue w"
  "notifications (publish e n s i w) = notifications w"
  "mailbox (publish e n s i w) = mailbox w"
  "snapshots (publish e n s i w) = snapshots w"
  "users (publish e n s i w) = users w"
  "audits (publish e n s i w) = audits w"
  "redis_db (publish e n s i w) = redis_db w"
  by (simp_all add: publish_def Let_def)

end
