(* ===== verification/Alert.thy ===== *)
theory Alert
  imports AlertDto NotificationService AlertEvents
begin

text \<open>
  \<open>src/alert/alert.service.ts\<close>, \<open>src/alert/alert.controller.ts\<close> and
  \<open>src/alert/guards/alert-owner.guard.ts\<close>: the life of a missing-pet alert. Every handler takes the
  surroundings, its arguments and the world, and returns its result or the exception it raises
  together with the world it leaves behind. Calls that the code wraps in \<open>try ... catch\<close> and only
  logs continue with the state the failing call left. A missing row never raises at the database
  level except where the code lets it.
\<close>

section \<open>Reading\<close>

definition joined_tag :: "alert_row \<Rightarrow> world \<Rightarrow> string option" where
  "joined_tag alert w =
     (case a_pet_id alert of None \<Rightarrow> None | Some p \<Rightarrow> map_option p_tagId (find_pet p w))"

text \<open>The rows \<open>ALERT_DETAIL_INCLUDE\<close> loads: sightings that were not dismissed.\<close>

definition open_sightings :: "id \<Rightarrow> world \<Rightarrow> nat" where
  "open_sightings alertId w =
     count_where (\<lambda>s. sg_alert_id s = alertId \<and> \<not> sg_dismissed s) (sightings w)"

definition detail_view :: "alert_row \<Rightarrow> id option \<Rightarrow> world \<Rightarrow> alert_dto" where
  "detail_view alert requesterId w =
     applyViewerRedaction
       (mapToResponseDto (joined_tag alert w) (open_sightings (a_id alert) w) alert requesterId)
       requesterId"

definition findById :: "id \<Rightarrow> id option \<Rightarrow> world \<Rightarrow> alert_dto option" where
  "findById alertId requesterId w =
     (case find_alert alertId w of
        None \<Rightarrow> None
      | Some alert \<Rightarrow> Some (detail_view alert requesterId w))"

text \<open>\<open>orderBy: { created_at: 'desc' }\<close> and first row.\<close>

definition findActiveByTagId :: "string \<Rightarrow> id option \<Rightarrow> world \<Rightarrow> alert_dto option" where
  "findActiveByTagId tagId requesterId w =
     (case sort_key (\<lambda>a. - a_created_at a)
             (filter (\<lambda>a. a_status a = ACTIVE \<and> joined_tag a w = Some tagId) (alerts w)) of
        [] \<Rightarrow> None
      | alert # _ \<Rightarrow> Some (detail_view alert requesterId w))"

subsection \<open>The geospatial list query\<close>

text \<open>
  The statement is assembled from conditions and an ordering that refer to positional
  parameters (\<open>$1\<close>, \<open>$2\<close>, ...); running it looks the parameters up by position.
\<close>

datatype sql_value = VStatus alert_status | VSpecies pet_species | VNum rat | VText string

datatype sql_cond =
    StatusEq nat | SpeciesEq nat | DWithin nat nat nat | PostalAny nat

datatype sql_order = CreatedDesc | DistanceAsc nat nat

record sql_query =
  sq_conds :: "sql_cond list"
  sq_params :: "sql_value list"
  sq_order :: sql_order
  sq_limit :: nat
  sq_offset :: nat

definition param :: "sql_value list \<Rightarrow> nat \<Rightarrow> sql_value option" where
  "param ps i = (if 1 \<le> i \<and> i \<le> length ps then Some (ps ! (i - 1)) else None)"

definition num_param :: "sql_value list \<Rightarrow> nat \<Rightarrow> rat option" where
  "num_param ps i = (case param ps i of Some (VNum x) \<Rightarrow> Some x | _ \<Rightarrow> None)"

fun cond_holds :: "env \<Rightarrow> sql_value list \<Rightarrow> alert_row \<Rightarrow> sql_cond \<Rightarrow> bool" where
  "cond_holds e ps a (StatusEq i) = (param ps i = Some (VStatus (a_status a)))"
| "cond_holds e ps a (SpeciesEq i) = (param ps i = Some (VSpecies (a_pet_species a)))"
| "cond_holds e ps a (DWithin i j k) =
     (case (num_param ps i, num_param ps j, num_param ps k) of
        (Some x, Some y, Some r) \<Rightarrow> st_dwithin e (a_location_point a) (x, y) (r * 1000)
      | _ \<Rightarrow> False)"
| "cond_holds e ps a (PostalAny i) =
     (case param ps i of Some (VText t) \<Rightarrow> t \<in> set (a_affected_postal_codes a) | _ \<Rightarrow> False)"

primrec distance_column :: "env \<Rightarrow> sql_value list \<Rightarrow> sql_order \<Rightarrow> alert_row \<Rightarrow> rat option" where
  "distance_column e ps CreatedDesc a = None"
| "distance_column e ps (DistanceAsc i j) a =
     (case (num_param ps i, num_param ps j) of
        (Some x, Some y) \<Rightarrow> Some (st_distance e (a_location_point a) (x, y) / 1000)
      | _ \<Rightarrow> None)"

text \<open>Rows with equal sort keys keep their table order here; SQL leaves that order open.\<close>

definition run_query :: "env \<Rightarrow> sql_query \<Rightarrow> world \<Rightarrow> (alert_row \<times> rat option) list" where
  "run_query e q w =
     (let rows = filter (\<lambda>a. list_all (cond_holds e (sq_params q) a) (sq_conds q)) (alerts w);
          ordered = (case sq_order q of
            CreatedDesc \<Rightarrow> sort_key (\<lambda>a. - a_created_at a) rows
          | DistanceAsc i j \<Rightarrow> sort_key (\<lambda>a. the (distance_column e (sq_params q) (DistanceAsc i j) a)) rows)
      in map (\<lambda>a. (a, distance_column e (sq_params q) (sq_order q) a))
           (take (sq_limit q) (drop (sq_offset q) ordered)))"

text \<open>\<open>Array.prototype.indexOf\<close>, plus one.\<close>

fun index_of :: "'a \<Rightarrow> 'a list \<Rightarrow> int" where
  "index_of x [] = - 1"
| "index_of x (y # ys) = (if y = x then 0 else (let i = index_of x ys in if i < 0 then i else i + 1))"

definition defaulted :: "'a \<Rightarrow> 'a option \<Rightarrow> 'a" where
  "defaulted d x = (case x of None \<Rightarrow> d | Some y \<Rightarrow> y)"

definition build_query :: "list_alerts_query \<Rightarrow> sql_query" where
  "build_query query =
     (let radiusKm = defaulted 10 (q_radiusKm query);
          status = defaulted ACTIVE (q_status query);
          (conds1, params1, paramIndex1) = (case q_species query of
              None \<Rightarrow> ([StatusEq 1], [VStatus status], 2)
            | Some s \<Rightarrow> ([StatusEq 1, SpeciesEq 2], [VStatus status, VSpecies s], 3));
          (conds2, params2) = (case (q_lat query, q_lon query) of
              (Some lat, Some lon) \<Rightarrow>
                (conds1 @ [DWithin paramIndex1 (paramIndex1 + 1) (paramIndex1 + 2)],
                 params1 @ [VNum lon, VNum lat, VNum radiusKm])
            | _ \<Rightarrow> if truthy_str (q_postalCode query)
                   then (conds1 @ [PostalAny paramIndex1], params1 @ [VText (the (q_postalCode query))])
                   else (conds1, params1));
          order = (case (q_lat query, q_lon query) of
              (Some lat, Some lon) \<Rightarrow>
                DistanceAsc (nat (index_of (VNum lon) params2 + 1)) (nat (index_of (VNum lat) params2 + 1))
            | _ \<Rightarrow> CreatedDesc)
      in \<lparr>sq_conds = conds2, sq_params = params2, sq_order = order,
          sq_limit = defaulted 20 (q_limit query), sq_offset = defaulted 0 (q_offset query)\<rparr>)"

definition findNearby :: "env \<Rightarrow> list_alerts_query \<Rightarrow> id option \<Rightarrow> world \<Rightarrow> alert_dto list" where
  "findNearby e query requesterId w =
     map (\<lambda>(a, dist). applyViewerRedaction (mapRawToResponseDto (joined_tag a w) dist a) requesterId)
       (run_query e (build_query query) w)"

section \<open>E-mails\<close>

definition strip_trailing_slash :: "string \<Rightarrow> string" where
  "strip_trailing_slash s = rev (dropWhile (\<lambda>c. c = CHR ''/'') (rev s))"

definition DEFAULT_WEB_APP_URL :: string where
  "DEFAULT_WEB_APP_URL = ''https://fifi-alert.com''"

definition getWebAppUrl :: "env \<Rightarrow> string" where
  "getWebAppUrl e =
     (let configured = (if truthy_str (getenv e ''WEB_APP_URL'') then getenv e ''WEB_APP_URL''
                        else getenv e ''APP_URL'')
      in case configured of
           None \<Rightarrow> DEFAULT_WEB_APP_URL
         | Some s \<Rightarrow> if trim s \<noteq> [] then strip_trailing_slash (trim s) else DEFAULT_WEB_APP_URL)"

definition user_json :: "user_row \<Rightarrow> json" where
  "user_json u = JObj [(''id'', JNum (of_int (u_id u))), (''email'', JStr (u_email u)),
     (''firstName'', JStr (u_firstName u)), (''lastName'', JStr (u_lastName u)), (''name'', JStr (u_name u))]"

text \<open>Reading a property of an object that is not there raises a \<open>TypeError\<close>.\<close>

definition read_object :: "'a option \<Rightarrow> exn + 'a" where
  "read_object x = (case x of None \<Rightarrow> Inl (TypeError ''Cannot read properties of undefined'') | Some v \<Rightarrow> Inr v)"

definition created_template :: "env \<Rightarrow> user_row \<Rightarrow> alert_dto \<Rightarrow> exn + json" where
  "created_template e user alert =
     (case (read_object (r_pet alert), read_object (r_location alert)) of
        (Inr pet, Inr loc) \<Rightarrow>
          Inr (JObj [(''user'', user_json user),
            (''alert'', JObj [(''id'', JNum (of_int (r_id alert))), (''petName'', JStr (rsp_name pet)),
               (''petSpecies'', JStr (species_name (rsp_species pet))), (''petBreed'', jstr_opt (rsp_breed pet)),
               (''location'', jstr_opt (rsl_address loc)), (''radiusKm'', JNum (rsl_radiusKm loc)),
               (''status'', JStr (status_name (r_status alert)))]),
            (''appUrl'', JStr (getWebAppUrl e))])
      | (Inl x, _) \<Rightarrow> Inl x
      | (_, Inl x) \<Rightarrow> Inl x)"

definition resolved_template :: "env \<Rightarrow> user_row \<Rightarrow> alert_dto \<Rightarrow> string \<Rightarrow> exn + json" where
  "resolved_template e user alert outcome =
     (case read_object (r_pet alert) of
        Inl x \<Rightarrow> Inl x
      | Inr pet \<Rightarrow>
          Inr (JObj [(''user'', user_json user),
            (''alert'', JObj [(''id'', JNum (of_int (r_id alert))), (''petName'', JStr (rsp_name pet)),
               (''petSpecies'', JStr (species_name (rsp_species pet))), (''outcome'', JStr outcome),
               (''resolvedAt'', jdate_opt (r_resolvedAt alert))]),
            (''appUrl'', JStr (getWebAppUrl e))]))"

text \<open>Template data first, then rendering and sending; either failure is reported by \<open>failure\<close>.\<close>

definition deliver_template ::
  "env \<Rightarrow> string \<Rightarrow> string \<Rightarrow> string \<Rightarrow> exn + json \<Rightarrow> world \<Rightarrow> (exn + unit) \<times> world" where
  "deliver_template e template to failure data w =
     (case data of
        Inl _ \<Rightarrow> (Inl (Error failure), w)
      | Inr d \<Rightarrow> (case send_html e template to d w of
                  (sent, w') \<Rightarrow> (if sent then Inr () else Inl (Error failure), w')))"

definition creator_of :: "alert_dto \<Rightarrow> world \<Rightarrow> user_row option" where
  "creator_of alert w = (case r_creatorId alert of None \<Rightarrow> None | Some u \<Rightarrow> find_user u w)"

definition sendAlertCreatedEmail :: "env \<Rightarrow> alert_dto \<Rightarrow> world \<Rightarrow> (exn + unit) \<times> world" where
  "sendAlertCreatedEmail e alert w =
     (case creator_of alert w of
        None \<Rightarrow> (Inl (Error ''USER_NOT_FOUND''), w)
      | Some user \<Rightarrow>
          deliver_template e ''alertCreated'' (u_email user) ''FAILED_TO_SEND_ALERT_CREATED_EMAIL''
            (created_template e user alert) w)"

definition sendAlertResolvedEmail :: "env \<Rightarrow> alert_dto \<Rightarrow> string \<Rightarrow> world \<Rightarrow> (exn + unit) \<times> world" where
  "sendAlertResolvedEmail e alert outcome w =
     (case creator_of alert w of
        None \<Rightarrow> (Inl (Error ''USER_NOT_FOUND''), w)
      | Some user \<Rightarrow>
          deliver_template e ''alertResolved'' (u_email user) ''FAILED_TO_SEND_ALERT_RESOLVED_EMAIL''
            (resolved_template e user alert outcome) w)"

definition near_you_template :: "env \<Rightarrow> user_row \<Rightarrow> alert_dto \<Rightarrow> exn + json" where
  "near_you_template e user alert =
     (case (read_object (r_pet alert), read_object (r_location alert)) of
        (Inr pet, Inr loc) \<Rightarrow>
          Inr (JObj [(''user'', user_json user),
            (''alert'', JObj [(''id'', JNum (of_int (r_id alert))), (''petName'', JStr (rsp_name pet)),
               (''petSpecies'', JStr (species_name (rsp_species pet))), (''petBreed'', jstr_opt (rsp_breed pet)),
               (''petDescription'', JStr (rsp_description pet)), (''location'', jstr_opt (rsl_address loc)),
               (''radiusKm'', JNum (rsl_radiusKm loc)), (''photos'', jstrs (rsp_photos pet)),
               (''rewardOffered'', JUndefined), (''rewardAmount'', JUndefined)]),
            (''appUrl'', JStr (getWebAppUrl e))])
      | (Inl x, _) \<Rightarrow> Inl x
      | (_, Inl x) \<Rightarrow> Inl x)"

fun near_you_loop :: "env \<Rightarrow> alert_dto \<Rightarrow> user_row list \<Rightarrow> nat \<times> nat \<Rightarrow> world \<Rightarrow> (nat \<times> nat) \<times> world" where
  "near_you_loop e alert [] counts w = (counts, w)"
| "near_you_loop e alert (user # us) (ok, failed) w =
     (case deliver_template e ''alertNearYou'' (u_email user) '''' (near_you_template e user alert) w of
        (Inr _, w') \<Rightarrow> near_you_loop e alert us (ok + 1, failed) w'
      | (Inl _, w') \<Rightarrow> near_you_loop e alert us (ok, failed + 1) w')"

definition sendAlertNearYouEmails :: "env \<Rightarrow> id list \<Rightarrow> alert_dto \<Rightarrow> world \<Rightarrow> (nat \<times> nat) \<times> world" where
  "sendAlertNearYouEmails e userIds alert w =
     near_you_loop e alert (filter (\<lambda>u. u_id u \<in> set userIds) (users w)) (0, 0) w"

end
