(* ===== verification/AlertLifecycle.thy ===== *)
theory AlertLifecycle
  imports Alert
begin

text \<open>
  The state-changing operations of \<open>src/alert/alert.service.ts\<close> (\<open>create\<close>, \<open>update\<close>, \<open>resolve\<close>,
  \<open>cancel\<close>, \<open>renew\<close>, \<open>addPhotos\<close> and the hourly \<open>checkExpired\<close>), the endpoints of
  \<open>src/alert/alert.controller.ts\<close> and the ownership guard.
\<close>

section \<open>Operations\<close>

text \<open>The generic entity channels of \<open>audit-event-names.ts\<close> and the table of system channels.\<close>

definition ENTITY_CREATED :: string where "ENTITY_CREATED = ''audit.entity.created''"
definition ENTITY_UPDATED :: string where "ENTITY_UPDATED = ''audit.entity.updated''"

definition SYSTEM_EVENTS :: "(string \<times> string) list" where
  "SYSTEM_EVENTS =
     [(''STARTUP'', ''audit.system.startup''), (''SHUTDOWN'', ''audit.system.shutdown''),
      (''ERROR'', ''audit.system.error''),
      (''MAINTENANCE_MODE_ENABLED'', ''audit.system.maintenance_mode_enabled''),
      (''MAINTENANCE_MODE_DISABLED'', ''audit.system.maintenance_mode_disabled''),
      (''BACKUP_CREATED'', ''audit.system.backup_created''),
      (''BACKUP_RESTORED'', ''audit.system.backup_restored''),
      (''MIGRATION_EXECUTED'', ''audit.system.migration_executed'')]"

text \<open>An event emitted under an undefined name reaches no listener.\<close>

definition emit_system :: "string \<Rightarrow> audit_payload \<Rightarrow> world \<Rightarrow> world" where
  "emit_system name p w = (case map_of SYSTEM_EVENTS name of None \<Rightarrow> w | Some ch \<Rightarrow> emit_audit ch p w)"

subsection \<open>create\<close>

text \<open>The pet named by the request: must exist and belong to the caller; it is marked missing.\<close>

definition claim_pet :: "env \<Rightarrow> id \<Rightarrow> id option \<Rightarrow> world \<Rightarrow> (exn + unit) \<times> world" where
  "claim_pet e userId petId w =
     (if \<not> truthy_num petId then (Inr (), w)
      else case find_pet (the petId) w of
        None \<Rightarrow> (Inl (NotFoundException (''Pet with ID '' @ show_int (the petId) @ '' not found'')), w)
      | Some pet \<Rightarrow>
          if p_userId pet \<noteq> userId
          then (Inl (ForbiddenException ''You do not have permission to create alerts for this pet''), w)
          else if \<not> p_isMissing pet then (Inr (), update_pet (the petId) (set_missing e True) w)
          else (Inr (), w))"

definition or_null_num :: "'a::zero option \<Rightarrow> 'a option" where
  "or_null_num x = (if truthy_num x then x else None)"

definition new_alert_row :: "env \<Rightarrow> id \<Rightarrow> create_alert_dto \<Rightarrow> world \<Rightarrow> alert_row" where
  "new_alert_row e userId dto w =
     (let pet = ca_pet dto; loc = ca_location dto; contact = ca_contact dto in
      \<lparr>a_id = next_id a_id (alerts w), a_creator_id = userId, a_pet_id = or_null_num (ca_petId dto),
       a_pet_name = pd_name pet, a_pet_species = pd_species pet, a_pet_breed = or_null (pd_breed pet),
       a_pet_description = pd_description pet, a_pet_color = or_null (pd_color pet),
       a_pet_age_years = map_option (int_column e) (or_null_num (pd_ageYears pet)),
       a_pet_photos = defaulted [] (pd_photos pet),
       a_last_seen_lat = ld_lat loc, a_last_seen_lon = ld_lon loc,
       a_location_point = (ld_lon loc, ld_lat loc), a_location_address = or_null (ld_address loc),
       a_alert_radius_km = ld_radiusKm loc, a_status = ACTIVE, a_time_last_seen = ld_lastSeenTime loc,
       a_created_at = now e, a_updated_at = now e, a_expires_at = add_days (tz e) (now e) 7,
       a_resolved_at = None, a_cancelled_at = None, a_renewal_count = 0, a_success_story_sent_at = None,
       a_contact_phone = or_null (cd_phone contact), a_contact_email = or_null (cd_email contact),
       a_is_phone_public = cd_isPhonePublic contact, a_affected_postal_codes = [],
       a_notes = or_null (ca_notes dto),
       a_reward_offered = (case ca_reward dto of None \<Rightarrow> False | Some r \<Rightarrow> rw_offered r),
       a_reward_amount = (case ca_reward dto of None \<Rightarrow> None
          | Some r \<Rightarrow> map_option (decimal_column e) (or_null_num (rw_amount r)))\<rparr>)"

definition created_audit :: "id \<Rightarrow> id \<Rightarrow> create_alert_dto \<Rightarrow> audit_payload" where
  "created_audit alertId userId dto =
     entity_audit ''CREATE'' ''ALERT'' alertId userId ''alert_created''
       (''Created alert for missing '' @ species_name (pd_species (ca_pet dto)) @ '': '' @ pd_name (ca_pet dto))
       JUndefined
       (JObj [(''petId'', jid_opt JUndefined (ca_petId dto)), (''petName'', JStr (pd_name (ca_pet dto))),
              (''petSpecies'', JStr (species_name (pd_species (ca_pet dto)))),
              (''location'', JObj [(''lat'', JNum (ld_lat (ca_location dto))), (''lon'', JNum (ld_lon (ca_location dto)))]),
              (''radiusKm'', JNum (ld_radiusKm (ca_location dto))), (''status'', JStr ''ACTIVE'')])"

definition user_event :: "id \<Rightarrow> id option \<Rightarrow> id \<Rightarrow> alert_status option \<Rightarrow> id \<Rightarrow> event_input" where
  "user_event alertId petId creatorId previous userId =
     \<lparr>in_alertId = alertId, in_petId = petId, in_creatorId = creatorId, in_previousStatus = previous,
      in_changedBy = Some userId, in_source = ByUser, in_occurredAt = None, in_outcome = None,
      in_notes = None, in_shareSuccessStory = None, in_reason = None\<rparr>"

definition create :: "env \<Rightarrow> id \<Rightarrow> create_alert_dto \<Rightarrow> world \<Rightarrow> (exn + alert_dto option) \<times> world" where
  "create e userId dto w =
     (case checkAlertCreationLimit (read_limits (getenv e)) (redis_up e) (now e) userId (redis_db w) of
        (Inl x, r) \<Rightarrow> (Inl x, w\<lparr>redis_db := r\<rparr>)
      | (Inr _, r) \<Rightarrow>
          (case claim_pet e userId (ca_petId dto) (w\<lparr>redis_db := r\<rparr>) of
             (Inl x, w1) \<Rightarrow> (Inl x, w1)
           | (Inr _, w1) \<Rightarrow>
               let row = new_alert_row e userId dto w1;
                   alertId = a_id row;
                   w2 = w1\<lparr>alerts := alerts w1 @ [row]\<rparr>;
                   w3 = emit_audit ENTITY_CREATED (created_audit alertId userId dto) w2;
                   w4 = activated e (user_event alertId (ca_petId dto) userId None userId) w3;
                   w5 = snd (queueAlertNotifications e alertId w4);
                   createdAlert = findById alertId (Some userId) w5;
                   w6 = (case createdAlert of None \<Rightarrow> w5 | Some d \<Rightarrow> snd (sendAlertCreatedEmail e d w5))
               in (Inr createdAlert, w6)))"

subsection \<open>update\<close>

definition not_found :: "id \<Rightarrow> exn" where
  "not_found alertId = NotFoundException (''Alert with ID '' @ show_int alertId @ '' not found'')"

definition no_permission :: "string \<Rightarrow> exn" where
  "no_permission verb = ForbiddenException (''You do not have permission to '' @ verb @ '' this alert'')"

definition update_row :: "env \<Rightarrow> update_alert_dto \<Rightarrow> alert_row \<Rightarrow> alert_row" where
  "update_row e dto a =
     a\<lparr>a_updated_at := now e,
       a_pet_description := (case ud_petDescription dto of Given d \<Rightarrow> d | _ \<Rightarrow> a_pet_description a),
       a_pet_photos := (case ud_petPhotos dto of Given ps \<Rightarrow> a_pet_photos a @ ps | _ \<Rightarrow> a_pet_photos a),
       a_contact_phone := patched (a_contact_phone a) (ud_contactPhone dto),
       a_contact_email := patched (a_contact_email a) (ud_contactEmail dto),
       a_notes := patched (a_notes a) (ud_notes dto)\<rparr>"

primrec field_json :: "string \<Rightarrow> ('a \<Rightarrow> json) \<Rightarrow> 'a field \<Rightarrow> (string \<times> json) list" where
  "field_json k f Absent = []"
| "field_json k f Null = [(k, JNull)]"
| "field_json k f (Given x) = [(k, f x)]"

definition updated_audit :: "id \<Rightarrow> id \<Rightarrow> update_alert_dto \<Rightarrow> alert_row \<Rightarrow> audit_payload" where
  "updated_audit alertId userId dto alert =
     entity_audit ''UPDATE'' ''ALERT'' alertId userId ''alert_updated''
       (''Updated alert #'' @ show_int alertId)
       (JObj [(''petDescription'', JStr (a_pet_description alert)), (''petPhotos'', jstrs (a_pet_photos alert)),
              (''contactPhone'', jstr_opt (a_contact_phone alert)),
              (''contactEmail'', jstr_opt (a_contact_email alert)), (''notes'', jstr_opt (a_notes alert))])
       (JObj (field_json ''petDescription'' JStr (ud_petDescription dto) @
              field_json ''petPhotos''
                (\<lambda>ps. if ps = [] then JUndefined else jstrs (a_pet_photos alert @ ps)) (ud_petPhotos dto) @
              field_json ''contactPhone'' JStr (ud_contactPhone dto) @
              field_json ''contactEmail'' JStr (ud_contactEmail dto) @
              field_json ''notes'' JStr (ud_notes dto)))"

text \<open>
  A \<open>null\<close> photo list raises at \<open>dto.petPhotos.length\<close>; a \<open>null\<close> description is refused by the
  database client, the column being required.
\<close>

definition update :: "env \<Rightarrow> id \<Rightarrow> id \<Rightarrow> update_alert_dto \<Rightarrow> world \<Rightarrow> (exn + alert_dto option) \<times> world" where
  "update e alertId userId dto w =
     (case find_alert alertId w of
        None \<Rightarrow> (Inl (not_found alertId), w)
      | Some alert \<Rightarrow>
          if a_creator_id alert \<noteq> userId then (Inl (no_permission ''update''), w)
          else if ud_petPhotos dto = Null then (Inl (TypeError ''Cannot read properties of null''), w)
          else if ud_petDescription dto = Null then (Inl (Error ''PrismaClientValidationError''), w)
          else
            let w1 = update_alert alertId (update_row e dto) w;
                w2 = emit_audit ENTITY_UPDATED (updated_audit alertId userId dto alert) w1
            in (Inr (findById alertId (Some userId) w2), w2))"

subsection \<open>resolve\<close>

definition resolve_row :: "env \<Rightarrow> string \<Rightarrow> alert_row \<Rightarrow> alert_row" where
  "resolve_row e notes a =
     a\<lparr>a_status := RESOLVED, a_resolved_at := Some (now e), a_notes := Some notes, a_updated_at := now e\<rparr>"

definition reunion_pet :: "pet_row \<Rightarrow> reunion_pet_input" where
  "reunion_pet p = \<lparr>rp_tagId = p_tagId p, rp_name = p_name p, rp_primaryPhoto = p_primaryPhoto p,
     rp_photos = p_photos p\<rparr>"

definition resolution_notes :: "resolve_alert_dto \<Rightarrow> string" where
  "resolution_notes dto =
     (if truthy_str (rs_notes dto) then the (rs_notes dto)
      else ''Pet found! Outcome: '' @ outcome_name (rs_outcome dto))"

text \<open>
  The guarded snapshot write of \<open>resolve\<close>: whether it was written, and the world after it. Deleting
  the old snapshot and inserting the new one are two statements, so a failing insert leaves the
  old one deleted.
\<close>

definition freeze_snapshot :: "env \<Rightarrow> id \<Rightarrow> pet_row option \<Rightarrow> resolve_alert_dto \<Rightarrow> world \<Rightarrow> bool \<times> world" where
  "freeze_snapshot e alertId pet dto w =
     (case pet of
        Some p \<Rightarrow>
          if isFoundOutcome (rs_outcome dto) \<and> p_tagId p \<noteq> []
          then (case snapshot_fault e of
              None \<Rightarrow> (True, snd (upsertForResolvedAlert e alertId (reunion_pet p) (rs_thankYouMessage dto) (now e) w))
            | Some BeforeDelete \<Rightarrow> (False, w)
            | Some OnInsert \<Rightarrow> (False, w\<lparr>snapshots :=
                delete_where (\<lambda>s. s_tagId s = p_tagId p \<or> s_alertId s = alertId) (snapshots w)\<rparr>))
          else (False, w)
      | None \<Rightarrow> (False, w))"

definition resolved_audit :: "id \<Rightarrow> id \<Rightarrow> resolve_alert_dto \<Rightarrow> alert_row \<Rightarrow> audit_payload" where
  "resolved_audit alertId userId dto alert =
     entity_audit ''UPDATE'' ''ALERT'' alertId userId ''alert_resolved''
       (''Resolved alert #'' @ show_int alertId @ '': '' @ outcome_name (rs_outcome dto))
       (JObj [(''status'', JStr (status_name (a_status alert))), (''resolvedAt'', jdate_opt (a_resolved_at alert)),
              (''notes'', jstr_opt (a_notes alert))])
       (JObj [(''status'', JStr ''RESOLVED''), (''outcome'', JStr (outcome_name (rs_outcome dto))),
              (''notes'', JStr (resolution_notes dto))])"

definition resolve :: "env \<Rightarrow> id \<Rightarrow> id \<Rightarrow> resolve_alert_dto \<Rightarrow> world \<Rightarrow> (exn + alert_dto option) \<times> world" where
  "resolve e alertId userId dto w =
     (case find_alert alertId w of
        None \<Rightarrow> (Inl (not_found alertId), w)
      | Some alert \<Rightarrow>
          if a_creator_id alert \<noteq> userId then (Inl (no_permission ''resolve''), w)
          else if a_status alert = RESOLVED
          then (Inl (UnprocessableEntityException ''Alert is already resolved''), w)
          else
            let notes = resolution_notes dto;
                pet = (case a_pet_id alert of None \<Rightarrow> None | Some p \<Rightarrow> find_pet p w);
                w1 = update_alert alertId (resolve_row e notes) w;
                (snapshotWritten, w2) = freeze_snapshot e alertId pet dto w1;
                w3 = emit_audit ENTITY_UPDATED (resolved_audit alertId userId dto alert) w2;
                w4 = resolved e
                  ((user_event alertId (a_pet_id alert) (a_creator_id alert) (Some (a_status alert)) userId)
                     \<lparr>in_outcome := Some (outcome_name (rs_outcome dto)), in_notes := Some notes,
                      in_shareSuccessStory := Some (rs_shareSuccessStory dto)\<rparr>) w3;
                w5 = (if rs_shareSuccessStory dto \<and> snapshotWritten
                      then snd (queueSuccessStoryNotifications e alertId w4) else w4);
                resolvedAlert = findById alertId (Some userId) w5;
                w6 = (case resolvedAlert of None \<Rightarrow> w5
                      | Some d \<Rightarrow> snd (sendAlertResolvedEmail e d (outcome_name (rs_outcome dto)) w5))
            in (Inr resolvedAlert, w6))"

subsection \<open>cancel\<close>

definition cancel_row :: "env \<Rightarrow> cancel_alert_dto \<Rightarrow> alert_row \<Rightarrow> alert_row" where
  "cancel_row e dto a =
     a\<lparr>a_status := CANCELLED, a_cancelled_at := Some (now e), a_notes := patched (a_notes a) (cl_reason dto),
       a_updated_at := now e\<rparr>"

text \<open>The guarded clearing of the pet's missing flag, unless another alert is live for the pet.\<close>

definition clear_missing :: "env \<Rightarrow> id option \<Rightarrow> world \<Rightarrow> world" where
  "clear_missing e petId w =
     (if truthy_num petId \<and> petflag_ok e \<and>
         count_where (\<lambda>a. a_pet_id a = petId \<and> a_status a = ACTIVE) (alerts w) = 0
      then update_pet (the petId) (set_missing e False) w else w)"

definition cancelled_audit :: "env \<Rightarrow> id \<Rightarrow> id \<Rightarrow> cancel_alert_dto \<Rightarrow> alert_row \<Rightarrow> audit_payload" where
  "cancelled_audit e alertId userId dto alert =
     entity_audit ''UPDATE'' ''ALERT'' alertId userId ''alert_cancelled''
       (''Cancelled alert #'' @ show_int alertId)
       (JObj [(''status'', JStr (status_name (a_status alert))), (''cancelledAt'', jdate_opt (a_cancelled_at alert)),
              (''notes'', jstr_opt (a_notes alert))])
       (JObj ([(''status'', JStr ''CANCELLED''), (''cancelledAt'', JDate (now e))] @
              field_json ''notes'' JStr (cl_reason dto)))"

definition cancel :: "env \<Rightarrow> id \<Rightarrow> id \<Rightarrow> cancel_alert_dto \<Rightarrow> world \<Rightarrow> (exn + alert_dto option) \<times> world" where
  "cancel e alertId userId dto w =
     (case find_alert alertId w of
        None \<Rightarrow> (Inl (not_found alertId), w)
      | Some alert \<Rightarrow>
          if a_creator_id alert \<noteq> userId then (Inl (no_permission ''cancel''), w)
          else if a_status alert \<noteq> DRAFT \<and> a_status alert \<noteq> ACTIVE
          then (Inl (UnprocessableEntityException
                  (''Cannot cancel a '' @ status_lower (a_status alert) @ '' alert'')), w)
          else
            let w1 = update_alert alertId (cancel_row e dto) w;
                w2 = cancelled e
                  ((user_event alertId (a_pet_id alert) (a_creator_id alert) (Some (a_status alert)) userId)
                     \<lparr>in_occurredAt := Some (now e), in_reason := patched None (cl_reason dto)\<rparr>) w1;
                w3 = clear_missing e (a_pet_id alert) w2;
                w4 = emit_audit ENTITY_UPDATED (cancelled_audit e alertId userId dto alert) w3
            in (Inr (findById alertId (Some userId) w4), w4))"

subsection \<open>renew\<close>

definition renew_row :: "env \<Rightarrow> alert_row \<Rightarrow> alert_row" where
  "renew_row e a =
     a\<lparr>a_expires_at := add_days (tz e) (now e) 7, a_renewal_count := a_renewal_count a + 1,
       a_updated_at := now e\<rparr>"

definition renewed_audit :: "env \<Rightarrow> id \<Rightarrow> id \<Rightarrow> alert_row \<Rightarrow> audit_payload" where
  "renewed_audit e alertId userId alert =
     entity_audit ''UPDATE'' ''ALERT'' alertId userId ''alert_renewed''
       (''Renewed alert #'' @ show_int alertId @ '' (renewal '' @ show_int (a_renewal_count alert + 1) @ ''/3)'')
       (JObj [(''expiresAt'', JDate (a_expires_at alert)), (''renewalCount'', JNum (of_int (a_renewal_count alert)))])
       (JObj [(''expiresAt'', JDate (add_days (tz e) (now e) 7)),
              (''renewalCount'', JNum (of_int (a_renewal_count alert + 1)))])"

definition renew :: "env \<Rightarrow> id \<Rightarrow> id \<Rightarrow> world \<Rightarrow> (exn + alert_dto option) \<times> world" where
  "renew e alertId userId w =
     (case find_alert alertId w of
        None \<Rightarrow> (Inl (not_found alertId), w)
      | Some alert \<Rightarrow>
          if a_creator_id alert \<noteq> userId then (Inl (no_permission ''renew''), w)
          else if a_status alert = CANCELLED
          then (Inl (UnprocessableEntityException ''Cannot renew a cancelled alert''), w)
          else if a_renewal_count alert \<ge> 3
          then (Inl (UnprocessableEntityException ''Maximum renewal limit (3) reached''), w)
          else
            let w1 = update_alert alertId (renew_row e) w;
                w2 = emit_audit ENTITY_UPDATED (renewed_audit e alertId userId alert) w1
            in (Inr (findById alertId (Some userId) w2), w2))"

subsection \<open>addPhotos\<close>

definition photos_audit :: "id \<Rightarrow> id \<Rightarrow> nat \<Rightarrow> nat \<Rightarrow> audit_payload" where
  "photos_audit alertId userId old new =
     entity_audit ''UPDATE'' ''ALERT'' alertId userId ''alert_photos_added''
       (''Added '' @ show_nat new @ '' photo(s) to alert #'' @ show_int alertId)
       (JObj [(''photoCount'', JNum (of_nat old))])
       (JObj [(''photoCount'', JNum (of_nat (old + new)))])"

definition addPhotos :: "env \<Rightarrow> id \<Rightarrow> id \<Rightarrow> string list \<Rightarrow> world \<Rightarrow> (exn + unit) \<times> world" where
  "addPhotos e alertId userId photoUrls w =
     (case findById alertId (Some userId) w of
        None \<Rightarrow> (Inl (not_found alertId), w)
      | Some _ \<Rightarrow>
          let oldPhotos = (case find_alert alertId w of None \<Rightarrow> [] | Some a \<Rightarrow> a_pet_photos a);
              w1 = update_alert alertId
                     (\<lambda>a. a\<lparr>a_pet_photos := a_pet_photos a @ photoUrls, a_updated_at := now e\<rparr>) w
          in (Inr (), emit_audit ENTITY_UPDATED
                 (photos_audit alertId userId (length oldPhotos) (length photoUrls)) w1))"

subsection \<open>checkExpired\<close>

definition is_due :: "env \<Rightarrow> alert_row \<Rightarrow> bool" where
  "is_due e a \<longleftrightarrow> a_expires_at a < now e \<and> a_status a = ACTIVE"

definition expire_row :: "env \<Rightarrow> alert_row \<Rightarrow> alert_row" where
  "expire_row e a = a\<lparr>a_status := EXPIRED, a_updated_at := now e\<rparr>"

definition expiry_event :: "env \<Rightarrow> alert_row \<Rightarrow> event_input" where
  "expiry_event e a =
     \<lparr>in_alertId = a_id a, in_petId = a_pet_id a, in_creatorId = a_creator_id a,
      in_previousStatus = Some ACTIVE, in_changedBy = None, in_source = BySystemExpiry,
      in_occurredAt = Some (now e), in_outcome = None, in_notes = None, in_shareSuccessStory = None,
      in_reason = None\<rparr>"

definition system_audit :: "string \<Rightarrow> string \<Rightarrow> string \<Rightarrow> json \<Rightarrow> string option \<Rightarrow> bool \<Rightarrow> audit_payload" where
  "system_audit eventType action description metadata err ok =
     \<lparr>au_eventType = eventType, au_entityType = ''SYSTEM'', au_entityId = None, au_userId = None,
      au_action = action, au_description = description, au_oldValues = JUndefined,
      au_newValues = JUndefined, au_metadata = metadata, au_errorMessage = err, au_success = ok,
      au_actorId = None, au_actorType = None\<rparr>"

definition checkExpired :: "env \<Rightarrow> world \<Rightarrow> world" where
  "checkExpired e w =
     (case expiry_error e of
        Some message \<Rightarrow>
          emit_system ''ERROR''
            (system_audit ''FAILURE'' ''alert_expiration_cron_failed''
               ''Failed to expire alerts (cron job)'' JUndefined (Some message) False) w
      | None \<Rightarrow>
          let expiredRows = filter (is_due e) (alerts w);
              result = length expiredRows;
              w1 = w\<lparr>alerts := update_where (is_due e) (expire_row e) (alerts w)\<rparr>
          in if result > 0 then
               let w2 = fold (\<lambda>row. expired e (expiry_event e row)) expiredRows w1
               in emit_system ''CRON_EXECUTED''
                    (system_audit ''SYSTEM'' ''alert_expiration_cron''
                       (''Cron job expired '' @ show_nat result @ '' alert(s)'')
                       (JObj [(''expiredCount'', JNum (of_nat result))]) None True) w2
             else w1)"

section \<open>Endpoints and guard\<close>

definition TAG_ID_ALPHABET :: string where
  "TAG_ID_ALPHABET = ''23456789ABCDEFGHJKLMNPQRSTUVWXYZ''"

definition TAG_ID_LENGTH :: nat where "TAG_ID_LENGTH = 9"

text \<open>\<open>toUpperCase\<close> is modelled on ASCII text, which is what the alphabet allows.\<close>

definition normalizeTagId :: "string \<Rightarrow> string option" where
  "normalizeTagId value =
     (let normalized = map ascii_upper (trim value)
      in if length normalized = TAG_ID_LENGTH \<and> set normalized \<subseteq> set TAG_ID_ALPHABET
         then Some normalized else None)"

definition tagIdPipe :: "string \<Rightarrow> exn + string" where
  "tagIdPipe value =
     (case normalizeTagId value of
        None \<Rightarrow> Inl (BadRequestException
          (''tagId must be '' @ show_nat TAG_ID_LENGTH @ '' characters from the tag alphabet''))
      | Some n \<Rightarrow> Inr n)"

definition findByTag :: "string \<Rightarrow> id option \<Rightarrow> world \<Rightarrow> exn + alert_dto" where
  "findByTag rawTag userId w =
     (case tagIdPipe rawTag of
        Inl x \<Rightarrow> Inl x
      | Inr tagId \<Rightarrow>
          (case findActiveByTagId tagId userId w of
             None \<Rightarrow> Inl (NotFoundException (''No active alert for tag '' @ tagId))
           | Some a \<Rightarrow> Inr a))"

definition findReunionByTag :: "env \<Rightarrow> string \<Rightarrow> world \<Rightarrow> (exn + reunion_dto) \<times> world" where
  "findReunionByTag e rawTag w =
     (case tagIdPipe rawTag of
        Inl x \<Rightarrow> (Inl x, w)
      | Inr tagId \<Rightarrow>
          (case findPublicByTagId e tagId w of
             (None, w') \<Rightarrow> (Inl (NotFoundException (''No reunion for tag '' @ tagId)), w')
           | (Some s, w') \<Rightarrow> (Inr s, w')))"

definition findOne :: "id \<Rightarrow> id option \<Rightarrow> world \<Rightarrow> exn + alert_dto" where
  "findOne i userId w =
     (case findById i userId w of None \<Rightarrow> Inl (not_found i) | Some a \<Rightarrow> Inr a)"

definition findAll :: "env \<Rightarrow> list_alerts_query \<Rightarrow> id option \<Rightarrow> world \<Rightarrow> alert_dto list" where
  "findAll e query userId w =
     findNearby e (if userId = None then query\<lparr>q_status := Some ACTIVE\<rparr> else query) userId w"

text \<open>\<open>AlertOwnerGuard.canActivate\<close>: the row it attaches to the request, or the exception.\<close>

definition canActivate :: "id option \<Rightarrow> string \<Rightarrow> world \<Rightarrow> exn + alert_row" where
  "canActivate userId rawId w =
     (if \<not> truthy_num userId then Inl (ForbiddenException ''Authentication required'')
      else if \<not> truthy_num (js_parse_int rawId) then Inl (NotFoundException ''Invalid alert ID'')
      else case find_alert (the (js_parse_int rawId)) w of
        None \<Rightarrow> Inl (not_found (the (js_parse_int rawId)))
      | Some alert \<Rightarrow>
          if Some (a_creator_id alert) \<noteq> userId then Inl (no_permission ''access'')
          else Inr alert)"

end
