(* ===== verification/AlertSafety.thy ===== *)
theory AlertSafety
  imports AlertLifecycle
begin

text \<open>
  What the alert component guarantees: the commands of the component as one step relation on
  worlds, the row invariant and the permitted status changes along every run, ownership, the
  effects of each operation, what anonymous callers see, and the list query against a reference.
\<close>

section \<open>Frame laws\<close>

lemma read_object_None [simp]: "read_object None = Inl (TypeError ''Cannot read properties of undefined'')"
  by (simp add: read_object_def)

lemma findById_pet: "findById i u w = Some d \<Longrightarrow> r_pet d = None"
  by (auto simp: findById_def detail_view_def split: option.splits)

lemma created_mail_fails: "r_pet d = None \<Longrightarrow> \<exists>x. sendAlertCreatedEmail e d w = (Inl x, w)"
  by (auto simp: sendAlertCreatedEmail_def created_template_def deliver_template_def read_object_def
      split: option.splits)

lemma resolved_mail_fails: "r_pet d = None \<Longrightarrow> \<exists>x. sendAlertResolvedEmail e d oc w = (Inl x, w)"
  by (auto simp: sendAlertResolvedEmail_def resolved_template_def deliver_template_def
      split: option.splits)

lemma created_mail_state:
  "(case findById i u w of None \<Rightarrow> w | Some d \<Rightarrow> snd (sendAlertCreatedEmail e d w)) = w"
proof (cases "findById i u w")
  case (Some d)
  then show ?thesis using created_mail_fails [OF findById_pet [OF Some], of e w] by auto
qed simp

lemma resolved_mail_state:
  "(case findById i u w of None \<Rightarrow> w | Some d \<Rightarrow> snd (sendAlertResolvedEmail e d oc w)) = w"
proof (cases "findById i u w")
  case (Some d)
  then show ?thesis using resolved_mail_fails [OF findById_pet [OF Some], of e oc w] by auto
qed simp

lemma emit_audit_frame [simp]:
  "alerts (emit_audit c p w) = alerts w" "pets (emit_audit c p w) = pets w"
  "queue (emit_audit c p w) = queue w" "bus (emit_audit c p w) = bus w"
  "notifications (emit_audit c p w) = notifications w" "snapshots (emit_audit c p w) = snapshots w"
  "users (emit_audit c p w) = users w" "mailbox (emit_audit c p w) = mailbox w"
  "audits (emit_audit c p w) = audits w @ [(c, p)]"
  "sightings (emit_audit c p w) = sightings w" "devices (emit_audit c p w) = devices w"
  by (simp_all add: emit_audit_def)

lemma update_alert_frame [simp]:
  "pets (update_alert i f w) = pets w" "queue (update_alert i f w) = queue w"
  "bus (update_alert i f w) = bus w" "notifications (update_alert i f w) = notifications w"
  "snapshots (update_alert i f w) = snapshots w" "users (update_alert i f w) = users w"
  "mailbox (update_alert i f w) = mailbox w" "audits (update_alert i f w) = audits w"
  "sightings (update_alert i f w) = sightings w" "devices (update_alert i f w) = devices w"
  by (simp_all add: update_alert_def)

lemma update_pet_frame [simp]:
  "alerts (update_pet i f w) = alerts w" "queue (update_pet i f w) = queue w"
  "bus (update_pet i f w) = bus w" "notifications (update_pet i f w) = notifications w"
  "snapshots (update_pet i f w) = snapshots w" "mailbox (update_pet i f w) = mailbox w"
  "audits (update_pet i f w) = audits w" "users (update_pet i f w) = users w"
  by (simp_all add: update_pet_def)

lemma clear_missing_frame [simp]:
  "alerts (clear_missing e p w) = alerts w" "queue (clear_missing e p w) = queue w"
  "bus (clear_missing e p w) = bus w" "mailbox (clear_missing e p w) = mailbox w"
  "audits (clear_missing e p w) = audits w"
  by (simp_all add: clear_missing_def)

lemma publishers_frame [simp]:
  "alerts (activated e i w) = alerts w" "alerts (resolved e i w) = alerts w"
  "alerts (cancelled e i w) = alerts w" "alerts (expired e i w) = alerts w"
  by (simp_all add: activated_def resolved_def cancelled_def expired_def)

lemma upsert_only_snapshots:
  "\<exists>ss. snd (upsertForResolvedAlert e a p m t w) = w\<lparr>snapshots := ss\<rparr>"
  by (auto simp: upsertForResolvedAlert_def Let_def)

lemma freeze_only_snapshots: "\<exists>ss. snd (freeze_snapshot e i p dto w) = w\<lparr>snapshots := ss\<rparr>"
proof -
  have same: "\<exists>ss. w = w\<lparr>snapshots := ss\<rparr>" by (rule exI [of _ "snapshots w"]) simp
  show ?thesis
    using upsert_only_snapshots same
    by (cases p; cases "snapshot_fault e")
      (auto simp: freeze_snapshot_def split: snapshot_fault.split)
qed

lemma freeze_alerts [simp]: "alerts (snd (freeze_snapshot e i p dto w)) = alerts w"
  using freeze_only_snapshots [of e i p dto w] by auto

lemma queue_calls_frame [simp]:
  "alerts (snd (queueAlertNotifications e i w)) = alerts w"
  "alerts (snd (queueSuccessStoryNotifications e i w)) = alerts w"
proof -
  obtain r w' where "queueAlertNotifications e i w = (r, w')" by fastforce
  then show "alerts (snd (queueAlertNotifications e i w)) = alerts w"
    using queue_waves_only_queue [of e i ESCALATION_WAVES w r w']
    by (auto simp: queueAlertNotifications_def)
next
  obtain r w' where "queueSuccessStoryNotifications e i w = (r, w')" by fastforce
  then show "alerts (snd (queueSuccessStoryNotifications e i w)) = alerts w"
    using queueSuccessStory_only_queue [of e i w r w'] by auto
qed

lemma claim_pet_frame:
  "claim_pet e u p w = (r, w') \<Longrightarrow> alerts w' = alerts w \<and> queue w' = queue w \<and> bus w' = bus w \<and>
     audits w' = audits w \<and> mailbox w' = mailbox w \<and> notifications w' = notifications w"
  by (auto simp: claim_pet_def split: if_splits option.splits)

lemma fold_expired_alerts [simp]:
  "alerts (fold (\<lambda>row. expired e (expiry_event e row)) rows w) = alerts w"
  by (induction rows arbitrary: w) auto

lemma emit_system_alerts [simp]: "alerts (emit_system n p w) = alerts w"
  by (simp add: emit_system_def split: option.split)

section \<open>What one command may do to one row\<close>

inductive row_step :: "env \<Rightarrow> alert_row \<Rightarrow> alert_row \<Rightarrow> bool" for e where
  row_same: "row_step e a a"
| row_update: "row_step e a (update_row e dto a)"
| row_resolve: "a_status a \<noteq> RESOLVED \<Longrightarrow> row_step e a (resolve_row e notes a)"
| row_cancel: "a_status a = DRAFT \<or> a_status a = ACTIVE \<Longrightarrow> row_step e a (cancel_row e dto a)"
| row_renew: "a_status a \<noteq> CANCELLED \<Longrightarrow> a_renewal_count a < 3 \<Longrightarrow> row_step e a (renew_row e a)"
| row_photos: "row_step e a (a\<lparr>a_pet_photos := a_pet_photos a @ urls, a_updated_at := now e\<rparr>)"
| row_expire: "is_due e a \<Longrightarrow> row_step e a (expire_row e a)"

inductive_cases row_stepE [elim]: "row_step e a a'"

lemmas row_defs = update_row_def resolve_row_def cancel_row_def renew_row_def expire_row_def

text \<open>The commands of the component.\<close>

datatype alert_cmd =
    Create id create_alert_dto
  | Update id id update_alert_dto
  | Resolve id id resolve_alert_dto
  | Cancel id id cancel_alert_dto
  | Renew id id
  | AddPhotos id id "string list"
  | CheckExpired

fun exec :: "env \<Rightarrow> alert_cmd \<Rightarrow> world \<Rightarrow> world" where
  "exec e (Create u dto) w = snd (create e u dto w)"
| "exec e (Update i u dto) w = snd (update e i u dto w)"
| "exec e (Resolve i u dto) w = snd (resolve e i u dto w)"
| "exec e (Cancel i u dto) w = snd (cancel e i u dto w)"
| "exec e (Renew i u) w = snd (renew e i u w)"
| "exec e (AddPhotos i u urls) w = snd (addPhotos e i u urls w)"
| "exec e CheckExpired w = checkExpired e w"

text \<open>The alert table after each command.\<close>

lemma create_alerts:
  "alerts (snd (create e u dto w)) = alerts w \<or>
   alerts (snd (create e u dto w)) = alerts w @ [new_alert_row e u dto w]"
proof -
  obtain lr r where lim: "checkAlertCreationLimit (read_limits (getenv e)) (redis_up e) (now e) u (redis_db w) = (lr, r)"
    by fastforce
  obtain cr w1 where claim: "claim_pet e u (ca_petId dto) (w\<lparr>redis_db := r\<rparr>) = (cr, w1)" by fastforce
  have w1: "alerts w1 = alerts w" using claim_pet_frame [OF claim] by simp
  then have "new_alert_row e u dto w1 = new_alert_row e u dto w" by (simp add: new_alert_row_def)
  then show ?thesis
    using lim claim w1 by (cases lr; cases cr) (simp_all add: create_def Let_def created_mail_state)
qed

lemma update_alerts:
  "alerts (snd (update e i u dto w)) = alerts w \<or>
   alerts (snd (update e i u dto w)) = update_where (\<lambda>a. a_id a = i) (update_row e dto) (alerts w)"
  by (cases "find_alert i w") (simp_all add: update_def Let_def update_alert_def)

lemma resolve_alerts:
  "alerts (snd (resolve e i u dto w)) = alerts w \<or>
   (\<exists>a. find_alert i w = Some a \<and> a_status a \<noteq> RESOLVED \<and> alerts (snd (resolve e i u dto w)) =
      update_where (\<lambda>a. a_id a = i) (resolve_row e (resolution_notes dto)) (alerts w))"
  by (cases "find_alert i w")
    (simp_all add: resolve_def Let_def resolved_mail_state case_prod_beta update_alert_def)

lemma cancel_alerts:
  "alerts (snd (cancel e i u dto w)) = alerts w \<or>
   (\<exists>a. find_alert i w = Some a \<and> (a_status a = DRAFT \<or> a_status a = ACTIVE) \<and>
      alerts (snd (cancel e i u dto w)) = update_where (\<lambda>a. a_id a = i) (cancel_row e dto) (alerts w))"
  by (cases "find_alert i w") (auto simp: cancel_def Let_def update_alert_def)

lemma renew_alerts:
  "alerts (snd (renew e i u w)) = alerts w \<or>
   (\<exists>a. find_alert i w = Some a \<and> a_status a \<noteq> CANCELLED \<and> a_renewal_count a < 3 \<and>
      alerts (snd (renew e i u w)) = update_where (\<lambda>a. a_id a = i) (renew_row e) (alerts w))"
  by (cases "find_alert i w") (auto simp: renew_def Let_def update_alert_def)

lemma addPhotos_alerts:
  "alerts (snd (addPhotos e i u urls w)) = alerts w \<or>
   alerts (snd (addPhotos e i u urls w)) =
     update_where (\<lambda>a. a_id a = i) (\<lambda>a. a\<lparr>a_pet_photos := a_pet_photos a @ urls, a_updated_at := now e\<rparr>) (alerts w)"
  by (cases "findById i (Some u) w") (simp_all add: addPhotos_def Let_def update_alert_def)

lemma checkExpired_alerts:
  "alerts (checkExpired e w) = alerts w \<or>
   alerts (checkExpired e w) = update_where (is_due e) (expire_row e) (alerts w)"
  by (cases "expiry_error e") (simp_all add: checkExpired_def Let_def)

lemma row_ids [simp]:
  "a_id (update_row e d a) = a_id a" "a_id (resolve_row e n a) = a_id a"
  "a_id (cancel_row e c a) = a_id a" "a_id (renew_row e a) = a_id a" "a_id (expire_row e a) = a_id a"
  by (simp_all add: row_defs)

text \<open>Every row survives a command, changed at most by one permitted row step.\<close>

lemma found_after_put:
  assumes "alerts w' = update_where (\<lambda>a. a_id a = j) f (alerts w)" and "\<And>a. a_id (f a) = a_id a"
    and "find_alert i w = Some a" and "j = i \<Longrightarrow> row_step e a (f a)"
  shows "\<exists>a'. find_alert i w' = Some a' \<and> row_step e a a'"
  using assms find_row_put [of a_id f i j "alerts w"]
  by (cases "j = i") (auto simp: find_alert_def intro: row_same)

lemma guarded_put:
  assumes "alerts w' = alerts w \<or>
      (\<exists>b. find_alert j w = Some b \<and> G b \<and> alerts w' = update_where (\<lambda>a. a_id a = j) f (alerts w))"
    and "\<And>a. a_id (f a) = a_id a" and "\<And>b. G b \<Longrightarrow> row_step e b (f b)"
    and "find_alert i w = Some a"
  shows "\<exists>a'. find_alert i w' = Some a' \<and> row_step e a a'"
  using assms(1)
proof
  assume "alerts w' = alerts w"
  then show ?thesis using assms(4) by (auto simp: find_alert_def intro: row_same)
next
  assume "\<exists>b. find_alert j w = Some b \<and> G b \<and> alerts w' = update_where (\<lambda>a. a_id a = j) f (alerts w)"
  then obtain b where b: "find_alert j w = Some b" "G b" "alerts w' = update_where (\<lambda>a. a_id a = j) f (alerts w)"
    by blast
  show ?thesis
    by (rule found_after_put [OF b(3) assms(2,4)]) (use b(1,2) assms(3,4) in auto)
qed

lemma exec_row:
  assumes a: "find_alert i w = Some a"
  shows "\<exists>a'. find_alert i (exec e c w) = Some a' \<and> row_step e a a'"
proof -
  have same: "?thesis" if "alerts (exec e c w) = alerts w"
    using that a by (auto simp: find_alert_def intro: row_same)
  show ?thesis
  proof (cases c)
    case (Create u dto)
    then show ?thesis
      using create_alerts [of e u dto w] same a
      by (auto simp: find_alert_def find_row_append intro: row_same)
  next
    case (Update j u dto)
    then show ?thesis using update_alerts [of e j u dto w] same a
      by (auto intro: found_after_put row_update)
  next
    case (Resolve j u dto)
    then show ?thesis
      using guarded_put [OF resolve_alerts row_ids(2) row_resolve a] by simp
  next
    case (Cancel j u dto)
    then show ?thesis
      using guarded_put [OF cancel_alerts row_ids(3) row_cancel a] by simp
  next
    case (Renew j u)
    have "\<exists>a'. find_alert i (snd (renew e j u w)) = Some a' \<and> row_step e a a'"
      using renew_alerts [of e j u w]
      by (intro guarded_put [where G = "\<lambda>b. a_status b \<noteq> CANCELLED \<and> a_renewal_count b < 3", OF _ row_ids(4) _ a])
        (auto intro: row_renew)
    then show ?thesis using Renew by simp
  next
    case (AddPhotos j u urls)
    then show ?thesis using addPhotos_alerts [of e j u urls w] same a
      by (auto intro: found_after_put row_photos)
  next
    case CheckExpired
    show ?thesis
    proof (cases "alerts (exec e c w) = alerts w")
      case False
      then have "alerts (exec e c w) = update_where (is_due e) (expire_row e) (alerts w)"
        using checkExpired_alerts [of e w] CheckExpired by simp
      then have "find_alert i (exec e c w) = Some (if is_due e a then expire_row e a else a)"
        using a find_row_update [of a_id "expire_row e" i "is_due e" "alerts w"]
        by (simp add: find_alert_def)
      then show ?thesis by (auto intro: row_same row_expire)
    qed (rule same)
  qed
qed

text \<open>A row that is new after a command was inserted by \<open>create\<close>.\<close>

lemma exec_new_row:
  assumes "find_alert i (exec e c w) = Some a" and "find_alert i w = None"
  shows "\<exists>u dto. c = Create u dto \<and> a = new_alert_row e u dto w"
proof -
  have upd: False if "alerts (exec e c w) = update_where p f (alerts w)" "\<And>a. a_id (f a) = a_id a" for p f
    using that assms find_row_update [of a_id f i p "alerts w"] by (simp add: find_alert_def)
  have same: False if "alerts (exec e c w) = alerts w"
    using that assms by (simp add: find_alert_def)
  show ?thesis
  proof (cases c)
    case (Create u dto)
    then show ?thesis using create_alerts [of e u dto w] same assms
      by (auto simp: find_alert_def find_row_append split: if_splits)
  next
    case (Update j u dto)
    then show ?thesis using update_alerts [of e j u dto w] same upd by fastforce
  next
    case (Resolve j u dto)
    then show ?thesis using resolve_alerts [of e j u dto w] same upd by fastforce
  next
    case (Cancel j u dto)
    then show ?thesis using cancel_alerts [of e j u dto w] same upd by fastforce
  next
    case (Renew j u)
    then show ?thesis using renew_alerts [of e j u w] same upd by fastforce
  next
    case (AddPhotos j u urls)
    then show ?thesis using addPhotos_alerts [of e j u urls w] same upd by fastforce
  next
    case CheckExpired
    then show ?thesis using checkExpired_alerts [of e w] same upd by fastforce
  qed
qed

section \<open>The invariant and the life of an alert along every run\<close>

definition alert_ok :: "alert_row \<Rightarrow> bool" where
  "alert_ok a \<longleftrightarrow>
     0 \<le> a_renewal_count a \<and> a_renewal_count a \<le> 3 \<and>
     (a_status a = RESOLVED \<longrightarrow> a_resolved_at a \<noteq> None) \<and>
     (a_status a = CANCELLED \<longrightarrow> a_cancelled_at a \<noteq> None) \<and>
     a_location_point a = (a_last_seen_lon a, a_last_seen_lat a)"

definition alerts_ok :: "world \<Rightarrow> bool" where
  "alerts_ok w \<longleftrightarrow> distinct (map a_id (alerts w)) \<and> list_all alert_ok (alerts w)"

text \<open>
  One command, in any surroundings: any instant, any outcome of the guarded calls. The bodies have
  the declared field types and nothing more: of the endpoints of \<open>src/alert/alert.controller.ts\<close> only
  \<open>POST alerts/:id/resolve\<close> attaches a \<open>ValidationPipe\<close>, and no pipe is global, so the decorated
  ranges of \<open>create-alert.dto.ts\<close> and \<open>update-alert.dto.ts\<close> are not assumed.
\<close>

inductive alert_step :: "world \<Rightarrow> world \<Rightarrow> bool" where
  alert_step: "alert_step w (exec e c w)"

inductive_cases alert_stepE [elim]: "alert_step w w'"

lemma map_update_where: "(\<And>a. a_id (f a) = a_id a) \<Longrightarrow> map a_id (update_where p f rows) = map a_id rows"
  by (simp add: update_where_def)

lemma exec_ids:
  "map a_id (alerts (exec e c w)) = map a_id (alerts w) \<or>
   map a_id (alerts (exec e c w)) = map a_id (alerts w) @ [next_id a_id (alerts w)]"
proof (cases c)
  case (Create u dto)
  have "a_id (new_alert_row e u dto w) = next_id a_id (alerts w)" by (simp add: new_alert_row_def Let_def)
  then show ?thesis using create_alerts [of e u dto w] Create by auto
next
  case (Update i u dto)
  then show ?thesis using update_alerts [of e i u dto w] by (auto simp: map_update_where)
next
  case (Resolve i u dto)
  then show ?thesis using resolve_alerts [of e i u dto w] by (auto simp: map_update_where)
next
  case (Cancel i u dto)
  then show ?thesis using cancel_alerts [of e i u dto w] by (auto simp: map_update_where)
next
  case (Renew i u)
  then show ?thesis using renew_alerts [of e i u w] by (auto simp: map_update_where)
next
  case (AddPhotos i u urls)
  then show ?thesis using addPhotos_alerts [of e i u urls w] by (auto simp: map_update_where)
next
  case CheckExpired
  then show ?thesis using checkExpired_alerts [of e w] by (auto simp: map_update_where)
qed

lemma exec_distinct:
  assumes "distinct (map a_id (alerts w))"
  shows "distinct (map a_id (alerts (exec e c w)))"
proof -
  have "next_id a_id (alerts w) \<notin> set (map a_id (alerts w))"
    using next_id_fresh [of _ "alerts w" a_id] by fastforce
  then have new: "distinct (map a_id (alerts w) @ [next_id a_id (alerts w)])" using assms by simp
  from exec_ids [of e c w] show ?thesis
  proof
    assume eq: "map a_id (alerts (exec e c w)) = map a_id (alerts w)"
    show ?thesis unfolding eq by (rule assms)
  next
    assume eq: "map a_id (alerts (exec e c w)) = map a_id (alerts w) @ [next_id a_id (alerts w)]"
    show ?thesis unfolding eq by (rule new)
  qed
qed

lemma row_step_ok: "row_step e a a' \<Longrightarrow> alert_ok a \<Longrightarrow> alert_ok a'"
  by (erule row_stepE) (auto simp: alert_ok_def row_defs)

lemma new_row_ok: "alert_ok (new_alert_row e u dto w)"
  by (simp add: alert_ok_def new_alert_row_def Let_def)

lemma step_keeps_ok:
  assumes "alerts_ok w" and "alert_step w w'"
  shows "alerts_ok w'"
proof -
  obtain c e where c: "w' = exec e c w" using assms(2) by blast
  have d: "distinct (map a_id (alerts w'))" using assms(1) c exec_distinct by (simp add: alerts_ok_def)
  have "alert_ok a" if "a \<in> set (alerts w')" for a
  proof -
    have found: "find_alert (a_id a) (exec e c w) = Some a"
      using find_row_distinct [OF d that] c by (simp add: find_alert_def)
    show ?thesis
    proof (cases "find_alert (a_id a) w")
      case None
      with exec_new_row [OF found] new_row_ok show ?thesis by auto
    next
      case (Some b)
      then have "alert_ok b"
        using assms(1) by (auto simp: alerts_ok_def find_alert_def list_all_iff dest: find_row_Some)
      then show ?thesis using exec_row [OF Some, of e c] found row_step_ok by auto
    qed
  qed
  with d show ?thesis by (simp add: alerts_ok_def list_all_iff)
qed

interpretation alert_life: lifecycle alert_step alerts_ok
  by unfold_locales (rule step_keeps_ok)

text \<open>How a row may have changed after any number of commands.\<close>

definition identity_of :: "alert_row \<Rightarrow> id \<times> id \<times> id option \<times> string \<times> pet_species \<times> point \<times> rat \<times> time" where
  "identity_of a = (a_id a, a_creator_id a, a_pet_id a, a_pet_name a, a_pet_species a,
     a_location_point a, a_alert_radius_km a, a_created_at a)"

definition evolves :: "alert_row \<Rightarrow> alert_row \<Rightarrow> bool" where
  "evolves a a' \<longleftrightarrow>
     identity_of a' = identity_of a \<and> a_renewal_count a \<le> a_renewal_count a' \<and>
     take (length (a_pet_photos a)) (a_pet_photos a') = a_pet_photos a \<and>
     a_success_story_sent_at a' = a_success_story_sent_at a \<and>
     (a_status a \<noteq> ACTIVE \<longrightarrow> a_status a' \<noteq> ACTIVE) \<and>
     (a_status a = RESOLVED \<longrightarrow> a_status a' = RESOLVED) \<and>
     (a_status a = CANCELLED \<longrightarrow> a_status a' = CANCELLED \<or> a_status a' = RESOLVED)"

lemma evolves_refl [simp]: "evolves a a"
  by (simp add: evolves_def)

lemma take_trans:
  assumes "take (length xs) ys = xs" and "take (length ys) zs = ys"
  shows "take (length xs) zs = xs"
proof -
  have "length xs \<le> length ys" using assms(1) by (metis length_take min.absorb_iff2 min.commute)
  then show ?thesis using assms by (metis min.absorb1 take_take)
qed

lemma evolves_trans: "evolves a b \<Longrightarrow> evolves b c \<Longrightarrow> evolves a c"
  unfolding evolves_def using take_trans by auto

lemma row_step_evolves: "row_step e a a' \<Longrightarrow> evolves a a'"
  by (erule row_stepE)
    (auto simp: evolves_def identity_of_def row_defs is_due_def split: field.split)

lemma step_evolves:
  assumes "\<exists>b. find_alert i w = Some b \<and> evolves a b" and "alert_step w w'"
  shows "\<exists>b. find_alert i w' = Some b \<and> evolves a b"
proof -
  obtain b where b: "find_alert i w = Some b" "evolves a b" using assms(1) by blast
  obtain c e where c: "w' = exec e c w" using assms(2) by blast
  show ?thesis using exec_row [OF b(1), of e c] b(2) c evolves_trans row_step_evolves by blast
qed

interpretation alert_history: lifecycle alert_step "\<lambda>w. \<exists>b. find_alert i w = Some b \<and> evolves a b"
  by unfold_locales (rule step_evolves)

text \<open>
  C7. The alert invariant: starting from a database that satisfies it, after any sequence of
  commands, whether or not their bodies respect the documented ranges, alert ids are unique, no
  alert was renewed more than three times, a resolved (cancelled) alert carries its resolution
  (cancellation) time, and the point the distance searches use is the stored longitude and latitude.
\<close>

theorem alert_invariant:
  assumes "reaches alert_step w w'" and "alerts_ok w"
  shows "alerts_ok w'"
  using assms by (rule alert_life.reaches_good)

definition demo_create :: create_alert_dto where
  "demo_create = \<lparr>ca_petId = None,
     ca_pet = \<lparr>pd_name = ''Max'', pd_species = DOG, pd_breed = None, pd_description = ''Friendly'',
       pd_color = None, pd_ageYears = Some 3, pd_photos = None\<rparr>,
     ca_location = \<lparr>ld_lat = 35, ld_lon = 33, ld_address = None, ld_lastSeenTime = 0, ld_radiusKm = 5\<rparr>,
     ca_contact = \<lparr>cd_phone = None, cd_email = None, cd_isPhonePublic = False\<rparr>,
     ca_reward = None, ca_notes = Some ''shy''\<rparr>"

definition no_checks :: format_checks where
  "no_checks = \<lparr>fc_isUrl = (\<lambda>_. True), fc_isPhone = (\<lambda>_. True), fc_isEmail = (\<lambda>_. True)\<rparr>"

lemma demo_create_valid [simp]: "valid_create_alert fc demo_create"
  by (simp add: demo_create_def valid_create_alert_def valid_pet_details_def valid_location_details_def
      valid_contact_details_def opt_ok_def max_length_def num_between_def)

lemma empty_alerts_ok [simp]: "alerts_ok empty_world"
  by (simp add: alerts_ok_def empty_world_def)

theorem alert_invariant_witness:
  "alerts_ok (exec (demo_env 1000) (Create 7 demo_create) empty_world)"
proof -
  have "alert_step empty_world (exec (demo_env 1000) (Create 7 demo_create) empty_world)"
    by (rule alert_step)
  then have "reaches alert_step empty_world (exec (demo_env 1000) (Create 7 demo_create) empty_world)"
    by (rule reaches_step [OF reaches_refl])
  then show ?thesis by (rule alert_invariant) simp
qed

text \<open>
  C1. The history of an alert: after any sequence of commands an alert is still there, with the
  creator, pet, position, radius and creation time it was created with, its renewal count has not
  dropped, its photos were only appended to and its success-story claim is untouched. Once it is not ACTIVE it never becomes ACTIVE again,
  once RESOLVED it stays RESOLVED, and a CANCELLED alert can at most become RESOLVED.
\<close>

theorem alert_never_reactivated:
  assumes "reaches alert_step w w'" and "find_alert i w = Some a"
  shows "\<exists>a'. find_alert i w' = Some a' \<and> evolves a a'"
  using assms by (intro alert_history.reaches_good [OF assms(1)]) auto

theorem alert_never_reactivated_witness:
  "\<exists>a'. find_alert 41 (exec (demo_env 9) (Cancel 41 7 \<lparr>cl_reason = Absent\<rparr>) demo_world) = Some a' \<and>
     evolves demo_alert a'"
proof -
  let ?c = "Cancel 41 7 \<lparr>cl_reason = Absent\<rparr>"
  have "alert_step demo_world (exec (demo_env 9) ?c demo_world)"
    by (rule alert_step)
  then have "reaches alert_step demo_world (exec (demo_env 9) ?c demo_world)"
    by (rule reaches_step [OF reaches_refl])
  then show ?thesis by (rule alert_never_reactivated) simp
qed

end
