(* ===== verification/AlertProperties.thy ===== *)
theory AlertProperties
  imports AlertSafety
begin

text \<open>
  The functional behaviour of the alert operations: who may call them, what each of them leaves
  behind on success and on every error, what anonymous callers see, and the geospatial list query
  against a reference definition.
\<close>

section \<open>Ownership\<close>

text \<open>
  Ownership: for a user who did not create the alert, \<open>update\<close>, \<open>resolve\<close>, \<open>cancel\<close> and \<open>renew\<close>
  answer 403 and change nothing, whatever the request body and the state of the alert.
\<close>

theorem only_creator_changes:
  assumes "find_alert i w = Some a" and "a_creator_id a \<noteq> u"
  shows "update e i u ud w = (Inl (no_permission ''update''), w) \<and>
    resolve e i u rd w = (Inl (no_permission ''resolve''), w) \<and>
    cancel e i u cd w = (Inl (no_permission ''cancel''), w) \<and>
    renew e i u w = (Inl (no_permission ''renew''), w)"
  using assms by (simp add: update_def resolve_def cancel_def renew_def)

theorem only_creator_changes_witness:
  "renew (demo_env 5) 41 8 demo_world = (Inl (no_permission ''renew''), demo_world)"
  using only_creator_changes [of 41 demo_world demo_alert 8] by simp

text \<open>
  Adding photos: the method documents an ownership check, but for every user id, the creator's
  or not, it succeeds on every existing alert, appends the URLs and touches no other alert.
\<close>

theorem addPhotos_ignores_owner:
  assumes "find_alert i w = Some a"
  shows "fst (addPhotos e i u urls w) = Inr () \<and>
    find_alert i (snd (addPhotos e i u urls w)) =
      Some (a\<lparr>a_pet_photos := a_pet_photos a @ urls, a_updated_at := now e\<rparr>) \<and>
    (j \<noteq> i \<longrightarrow> find_alert j (snd (addPhotos e i u urls w)) = find_alert j w)"
proof -
  let ?f = "\<lambda>a. a\<lparr>a_pet_photos := a_pet_photos a @ urls, a_updated_at := now e\<rparr>"
  have "fst (addPhotos e i u urls w) = Inr ()"
    and w': "find_alert k (snd (addPhotos e i u urls w)) = find_alert k (update_alert i ?f w)" for k
    using assms by (simp_all add: addPhotos_def findById_def Let_def)
  then show ?thesis
    using alert_store.get_put_same [of ?f i w a] alert_store.get_put_other [of ?f j i w] assms by simp
qed

theorem addPhotos_ignores_owner_witness:
  "fst (addPhotos (demo_env 5) 41 8 [''x''] demo_world) = Inr () \<and> a_creator_id demo_alert \<noteq> 8"
  using addPhotos_ignores_owner [of 41 demo_world demo_alert "demo_env 5" 8 "[''x'']"] by simp

section \<open>create\<close>

lemma create_ok:
  assumes "checkAlertCreationLimit (read_limits (getenv e)) (redis_up e) (now e) u (redis_db w) = (Inr (), r)"
    and "claim_pet e u (ca_petId dto) (w\<lparr>redis_db := r\<rparr>) = (Inr (), w1)"
  shows "create e u dto w =
    (let row = new_alert_row e u dto w;
         w4 = activated e (user_event (a_id row) (ca_petId dto) u None u)
                (emit_audit ENTITY_CREATED (created_audit (a_id row) u dto) (w1\<lparr>alerts := alerts w1 @ [row]\<rparr>));
         w5 = snd (queueAlertNotifications e (a_id row) w4)
     in (Inr (findById (a_id row) (Some u) w5), w5))"
proof -
  have "alerts w1 = alerts w" using claim_pet_frame [OF assms(2)] by simp
  then have "new_alert_row e u dto w1 = new_alert_row e u dto w" by (simp add: new_alert_row_def)
  then show ?thesis using assms by (simp add: create_def Let_def created_mail_state)
qed

lemma new_row_simps [simp]:
  "a_id (new_alert_row e u dto w) = next_id a_id (alerts w)"
  "a_status (new_alert_row e u dto w) = ACTIVE"
  by (simp_all add: new_alert_row_def Let_def)

text \<open>
  Creating an alert: when the rate limiter admits the request and the named pet may be used
  (or none is named), the answer is the new alert, under an id that was free; exactly the row
  built from the request is appended, the three escalation waves are queued with delays of 0, 15
  and 60 minutes, and the activation is published under its own and the generic event name.
\<close>

theorem create_effects:
  assumes "checkAlertCreationLimit (read_limits (getenv e)) (redis_up e) (now e) u (redis_db w) = (Inr (), r)"
    and "claim_pet e u (ca_petId dto) (w\<lparr>redis_db := r\<rparr>) = (Inr (), w1)"
    and "\<And>n. queue_ok e n"
  shows "\<exists>d w'. create e u dto w = (Inr (Some d), w') \<and>
    find_alert (r_id d) w = None \<and> r_status d = ACTIVE \<and>
    alerts w' = alerts w @ [new_alert_row e u dto w] \<and>
    find_alert (r_id d) w' = Some (new_alert_row e u dto w) \<and>
    queue w' = queue w @
      [\<lparr>j_job = AlertNotificationJob (r_id d) (Some HIGH), j_delay = 0, j_jobId = None\<rparr>,
       \<lparr>j_job = AlertNotificationJob (r_id d) (Some MEDIUM), j_delay = 15 * 60 * 1000, j_jobId = None\<rparr>,
       \<lparr>j_job = AlertNotificationJob (r_id d) (Some LOW), j_delay = 60 * 60 * 1000, j_jobId = None\<rparr>] \<and>
    (\<exists>ev. ev_newStatus ev = ACTIVE \<and> ev_alertId ev = r_id d \<and> bus w' = bus w @
      [(''alert.status.activated'', ev), (''alert.status.changed'', ev)]) \<and>
    pets w' = pets w1"
proof -
  note fr = claim_pet_frame [OF assms(2)]
  let ?row = "new_alert_row e u dto w" and ?i = "next_id a_id (alerts w)"
  let ?w5 = "snd (create e u dto w)"
  have c: "create e u dto w = (Inr (findById ?i (Some u) ?w5), ?w5)"
    by (simp add: create_ok [OF assms(1,2)] Let_def)
  have al: "alerts ?w5 = alerts w @ [?row]" and pe: "pets ?w5 = pets w1"
    and qu: "queue ?w5 = queue w @
      [\<lparr>j_job = AlertNotificationJob ?i (Some HIGH), j_delay = 0, j_jobId = None\<rparr>,
       \<lparr>j_job = AlertNotificationJob ?i (Some MEDIUM), j_delay = 15 * 60 * 1000, j_jobId = None\<rparr>,
       \<lparr>j_job = AlertNotificationJob ?i (Some LOW), j_delay = 60 * 60 * 1000, j_jobId = None\<rparr>]"
    and bu: "bus ?w5 = bus w @
      [(''alert.status.activated'', mk_event e ACTIVE (user_event ?i (ca_petId dto) u None u)),
       (''alert.status.changed'', mk_event e ACTIVE (user_event ?i (ca_petId dto) u None u))]"
    using fr queueAlertNotifications_up [OF assms(3)]
    by (simp_all add: create_ok [OF assms(1,2)] Let_def activated_def publish_def)
  have found: "find_alert ?i ?w5 = Some ?row"
    by (simp add: find_alert_def al find_row_append)
  then have "findById ?i (Some u) ?w5 = Some (detail_view ?row (Some u) ?w5)" by (simp add: findById_def)
  moreover have "r_id (detail_view ?row (Some u) ?w5) = ?i" "r_status (detail_view ?row (Some u) ?w5) = ACTIVE"
    by (simp_all add: detail_view_def)
  moreover have "find_alert ?i w = None" by (simp add: find_alert_def)
  moreover have "ev_newStatus (mk_event e ACTIVE (user_event ?i (ca_petId dto) u None u)) = ACTIVE"
    "ev_alertId (mk_event e ACTIVE (user_event ?i (ca_petId dto) u None u)) = ?i"
    by (simp_all add: mk_event_def user_event_def)
  ultimately show ?thesis using c al pe qu bu found by metis
qed

theorem create_effects_witness:
  "\<exists>d w'. create (demo_env 1000) 7 demo_create demo_world = (Inr (Some d), w') \<and> length (queue w') = 3"
proof -
  have lim: "checkAlertCreationLimit (read_limits (getenv (demo_env 1000))) (redis_up (demo_env 1000))
      (now (demo_env 1000)) 7 (redis_db demo_world) =
      (Inr (), recordAlertCreation (read_limits (\<lambda>_. None)) 7 1000 (\<lambda>_. None))"
    by (simp add: checkAlertCreationLimit_def stored_timestamps_def zrangebyscore_all_def zset_of_def
        live_def countInWindow_def read_limits_def readLimit_def demo_env_def demo_world_def empty_world_def)
  have claim: "claim_pet (demo_env 1000) 7 (ca_petId demo_create) w = (Inr (), w)" for w
    by (simp add: claim_pet_def demo_create_def)
  have "queue demo_world = []" by (simp add: demo_world_def empty_world_def)
  with create_effects [OF lim claim] show ?thesis by (fastforce simp: demo_env_def)
qed

text \<open>
  A refused creation: whenever \<open>create\<close> raises, no alert was inserted, no pet was marked missing,
  nothing was queued, published, audited or mailed. (The rate limiter may have counted the
  attempt.)
\<close>

theorem create_refused_keeps:
  assumes "create e u dto w = (Inl x, w')"
  shows "w' = w\<lparr>redis_db := redis_db w'\<rparr>"
proof -
  obtain lr r where lim: "checkAlertCreationLimit (read_limits (getenv e)) (redis_up e) (now e) u (redis_db w) = (lr, r)"
    by fastforce
  obtain cr w1 where claim: "claim_pet e u (ca_petId dto) (w\<lparr>redis_db := r\<rparr>) = (cr, w1)" by fastforce
  have "w1 = w\<lparr>redis_db := r\<rparr>" if "cr = Inl y" for y
    using that claim by (auto simp: claim_pet_def split: if_splits option.splits)
  then show ?thesis
    using assms lim claim by (cases lr; cases cr) (auto simp: create_def Let_def)
qed

theorem create_refused_keeps_witness:
  "alerts (snd (create ((demo_env 5)\<lparr>redis_up := False\<rparr>) 7 demo_create demo_world)) = [demo_alert]"
proof -
  obtain x where x: "create ((demo_env 5)\<lparr>redis_up := False\<rparr>) 7 demo_create demo_world = (Inl x, demo_world)"
    by (simp add: create_def checkAlertCreationLimit_def)
  have "alerts demo_world = alerts (demo_world\<lparr>redis_db := redis_db demo_world\<rparr>)"
    using create_refused_keeps [OF x] by simp
  then show ?thesis using x by (simp add: demo_world_def)
qed

section \<open>resolve\<close>

definition pet_of :: "alert_row \<Rightarrow> world \<Rightarrow> pet_row option" where
  "pet_of a w = (case a_pet_id a of None \<Rightarrow> None | Some p \<Rightarrow> find_pet p w)"

text \<open>The world a successful resolution leaves, up to the audit and bus entries it adds.\<close>

definition resolve_world ::
  "env \<Rightarrow> id \<Rightarrow> alert_row \<Rightarrow> resolve_alert_dto \<Rightarrow> (string \<times> audit_payload) list \<Rightarrow> (string \<times> status_event) list \<Rightarrow> world \<Rightarrow> world" where
  "resolve_world e i a dto au es w =
     (let w1 = update_alert i (resolve_row e (resolution_notes dto)) w;
          w2 = snd (freeze_snapshot e i (pet_of a w) dto w1);
          w4 = w2\<lparr>audits := audits w2 @ au, bus := bus w2 @ es\<rparr>
      in if rs_shareSuccessStory dto \<and> fst (freeze_snapshot e i (pet_of a w) dto w1)
         then snd (queueSuccessStoryNotifications e i w4) else w4)"

lemma resolve_ok:
  assumes "find_alert i w = Some a" and "a_creator_id a = u" and "a_status a \<noteq> RESOLVED"
  shows "\<exists>au es. resolve e i u dto w =
    (Inr (findById i (Some u) (resolve_world e i a dto au es w)), resolve_world e i a dto au es w)"
proof -
  let ?inp = "(user_event i (a_pet_id a) (a_creator_id a) (Some (a_status a)) u)
     \<lparr>in_outcome := Some (outcome_name (rs_outcome dto)), in_notes := Some (resolution_notes dto),
      in_shareSuccessStory := Some (rs_shareSuccessStory dto)\<rparr>"
  let ?ev = "mk_event e RESOLVED ?inp"
  have step: "resolved e inp (emit_audit c p w2) =
     w2\<lparr>audits := audits w2 @ [(c, p)],
        bus := bus w2 @ [(''alert.status.resolved'', mk_event e RESOLVED inp),
          (''alert.status.changed'', mk_event e RESOLVED inp)]\<rparr>" for inp c p w2
    by (simp add: resolved_def publish_def emit_audit_def Let_def)
  show ?thesis
    by (rule exI [of _ "[(ENTITY_UPDATED, resolved_audit i u dto a)]"],
        rule exI [of _ "[(''alert.status.resolved'', ?ev), (''alert.status.changed'', ?ev)]"])
      (simp add: assms resolve_def resolve_world_def pet_of_def [symmetric] Let_def case_prod_beta
        step resolved_mail_state)
qed

lemma resolve_rows:
  assumes "find_alert i w = Some a" and "a_creator_id a = u" and "a_status a \<noteq> RESOLVED"
  shows "\<exists>d w'. resolve e i u dto w = (Inr (Some d), w') \<and>
     alerts w' = alerts (update_alert i (resolve_row e (resolution_notes dto)) w) \<and>
     snapshots w' = snapshots (snd (freeze_snapshot e i (pet_of a w) dto
        (update_alert i (resolve_row e (resolution_notes dto)) w))) \<and>
     queue w' = (if rs_shareSuccessStory dto \<and> queue_ok e (length (queue w)) \<and>
          fst (freeze_snapshot e i (pet_of a w) dto (update_alert i (resolve_row e (resolution_notes dto)) w))
        then queue w @ [\<lparr>j_job = SuccessStoryJob i, j_delay = 0,
                j_jobId = Some (''success-story-'' @ show_int i)\<rparr>]
        else queue w)"
proof -
  let ?w1 = "update_alert i (resolve_row e (resolution_notes dto)) w"
  obtain au es w5 where r: "resolve e i u dto w = (Inr (findById i (Some u) w5), w5)"
    and w5: "w5 = resolve_world e i a dto au es w"
    using resolve_ok [OF assms, of e dto] by blast
  obtain ss where ss: "snd (freeze_snapshot e i (pet_of a w) dto ?w1) = ?w1\<lparr>snapshots := ss\<rparr>"
    using freeze_only_snapshots by blast
  have al: "alerts w5 = alerts ?w1" unfolding w5 resolve_world_def Let_def ss by simp
  have "find_alert i w5 = Some (resolve_row e (resolution_notes dto) a)"
    using al alert_store.get_put_same [of "resolve_row e (resolution_notes dto)" i w a] assms(1)
    by (simp add: find_alert_def)
  then have "\<exists>d. findById i (Some u) w5 = Some d" by (simp add: findById_def)
  moreover have "snapshots w5 = ss"
    unfolding w5 resolve_world_def Let_def ss
    by (simp add: queueSuccessStoryNotifications_def queue_add_def)
  moreover have "queue w5 = (if rs_shareSuccessStory dto \<and> queue_ok e (length (queue w)) \<and>
          fst (freeze_snapshot e i (pet_of a w) dto ?w1)
        then queue w @ [\<lparr>j_job = SuccessStoryJob i, j_delay = 0,
                j_jobId = Some (''success-story-'' @ show_int i)\<rparr>] else queue w)"
    unfolding w5 resolve_world_def Let_def ss
    by (simp add: queueSuccessStoryNotifications_def queue_add_def)
  ultimately show ?thesis using r al ss by auto
qed

text \<open>
  Resolving an alert: for its creator and an alert that is not RESOLVED yet, the addressed
  row becomes RESOLVED at the current instant with the resolution notes, no other alert changes;
  when the outcome is a found outcome and the pet wears a tag, the public page of that tag shows
  the frozen snapshot until the configured lifetime has passed; and the "pet is home" job is queued
  exactly when the owner shares the story and the snapshot was written.
\<close>

theorem resolve_effects:
  assumes "find_alert i w = Some a" and "a_creator_id a = u" and "a_status a \<noteq> RESOLVED"
    and "pet_of a w = Some p" and "p_tagId p \<noteq> []" and "snapshot_fault e = None"
    and "isFoundOutcome (rs_outcome dto)" and "\<And>n. queue_ok e n"
  shows "\<exists>d w'. resolve e i u dto w = (Inr (Some d), w') \<and>
    find_alert i w' = Some (resolve_row e (resolution_notes dto) a) \<and>
    (\<forall>j. j \<noteq> i \<longrightarrow> find_alert j w' = find_alert j w) \<and>
    queue w' = (if rs_shareSuccessStory dto
      then queue w @ [\<lparr>j_job = SuccessStoryJob i, j_delay = 0, j_jobId = Some (''success-story-'' @ show_int i)\<rparr>]
      else queue w) \<and>
    (\<exists>s. s_alertId s = i \<and> s_petName s = p_name p \<and> s_thankYouMessage s = rs_thankYouMessage dto \<and>
      (\<forall>e'. now e' < now e + getReunionTtlDays e * ms_per_day \<longrightarrow>
         findPublicByTagId e' (p_tagId p) w' = (Some (toDto s), w')))"
proof -
  let ?f = "resolve_row e (resolution_notes dto)"
  let ?w1 = "update_alert i ?f w"
  obtain s w2 where up: "upsertForResolvedAlert e i (reunion_pet p) (rs_thankYouMessage dto) (now e) ?w1 = (s, w2)"
    by fastforce
  have fz: "freeze_snapshot e i (pet_of a w) dto ?w1 = (True, w2)"
    using assms(4-7) up by (simp add: freeze_snapshot_def)
  obtain d w' where r: "resolve e i u dto w = (Inr (Some d), w')" and al: "alerts w' = alerts ?w1"
    and sn: "snapshots w' = snapshots w2"
    and qu: "queue w' = (if rs_shareSuccessStory dto
      then queue w @ [\<lparr>j_job = SuccessStoryJob i, j_delay = 0, j_jobId = Some (''success-story-'' @ show_int i)\<rparr>]
      else queue w)"
    using resolve_rows [OF assms(1-3), of e dto] fz assms(8) by auto
  have get: "find_alert j w' = (if j = i then Some (?f a) else find_alert j w)" for j
    using al assms(1) alert_store.get_put [of ?f j i w] by (simp add: find_alert_def)
  have s: "s_alertId s = i" "s_petName s = p_name p" "s_thankYouMessage s = rs_thankYouMessage dto"
    "s_expiresAt s = now e + getReunionTtlDays e * ms_per_day" "s_tagId s = p_tagId p"
    and rows: "snapshots w2 = delete_where (\<lambda>x. s_tagId x = p_tagId p \<or> s_alertId x = i) (snapshots ?w1) @ [s]"
    using up by (auto simp: upsertForResolvedAlert_def Let_def reunion_pet_def ms_per_day_def)
  have "List.find (\<lambda>x. s_tagId x = p_tagId p) (snapshots w') = Some s"
    unfolding sn rows using s(5) by (intro find_append_fresh) auto
  then have "findPublicByTagId e' (p_tagId p) w' = (Some (toDto s), w')"
    if "now e' < now e + getReunionTtlDays e * ms_per_day" for e'
    using that s(4) by (simp add: findPublicByTagId_def)
  then show ?thesis using r get qu s(1-3) by fastforce
qed

definition demo_resolve :: resolve_alert_dto where
  "demo_resolve = \<lparr>rs_outcome = FOUND_SAFE, rs_notes = None, rs_shareSuccessStory = True,
     rs_thankYouMessage = Some ''Thanks''\<rparr>"

theorem resolve_effects_witness:
  "\<exists>d w'. resolve (demo_env 50) 41 7 demo_resolve demo_world = (Inr (Some d), w') \<and> length (queue w') = 1"
proof -
  have "pet_of demo_alert demo_world = Some demo_pet_row" by (simp add: pet_of_def)
  moreover have "p_tagId demo_pet_row \<noteq> []" by (simp add: demo_pet_row_def)
  moreover have "snapshot_fault (demo_env 50) = None" "\<And>n. queue_ok (demo_env 50) n" by (simp_all add: demo_env_def)
  moreover have "isFoundOutcome (rs_outcome demo_resolve)" "rs_shareSuccessStory demo_resolve"
    by (simp_all add: isFoundOutcome_def FOUND_OUTCOMES_def demo_resolve_def)
  moreover have "queue demo_world = []" by (simp add: demo_world_def empty_world_def)
  ultimately show ?thesis
    using resolve_effects [of 41 demo_world demo_alert 7 demo_pet_row "demo_env 50" demo_resolve] by auto
qed

text \<open>
  What blocks a resolution and what never does: \<open>resolve\<close> raises exactly when the alert does not
  exist, belongs to somebody else or is RESOLVED already, and then changes nothing; an outcome
  that is not a found outcome writes no snapshot and queues nothing.
\<close>

theorem resolve_refusals:
  "(is_ok (fst (resolve e i u dto w)) \<longleftrightarrow>
      (\<exists>a. find_alert i w = Some a \<and> a_creator_id a = u \<and> a_status a \<noteq> RESOLVED)) \<and>
   (is_ok (fst (resolve e i u dto w)) \<or> snd (resolve e i u dto w) = w) \<and>
   (isFoundOutcome (rs_outcome dto) \<or>
      snapshots (snd (resolve e i u dto w)) = snapshots w \<and> queue (snd (resolve e i u dto w)) = queue w)"
proof (cases "\<exists>a. find_alert i w = Some a \<and> a_creator_id a = u \<and> a_status a \<noteq> RESOLVED")
  case True
  then obtain a where a: "find_alert i w = Some a" "a_creator_id a = u" "a_status a \<noteq> RESOLVED" by blast
  have "freeze_snapshot e i (pet_of a w) dto w1 = (False, w1)" if "\<not> isFoundOutcome (rs_outcome dto)" for w1
    using that by (simp add: freeze_snapshot_def split: option.split)
  then show ?thesis using resolve_rows [OF a, of e dto] True by (auto split: if_splits)
next
  case False
  then have "\<exists>x. resolve e i u dto w = (Inl x, w)"
    by (auto simp: resolve_def split: option.splits)
  then show ?thesis using False by auto
qed


text \<open>
  The ranges the request classes document are not enforced: the body of a creation with latitude 500
  and a radius of 100000 km fails the validation the decorators describe, and its row is stored.
\<close>

definition out_of_range :: create_alert_dto where
  "out_of_range = demo_create\<lparr>ca_location := (ca_location demo_create)\<lparr>ld_lat := 500, ld_radiusKm := 100000\<rparr>\<rparr>"

lemma ranges_not_enforced:
  "\<not> valid_create_alert fc out_of_range \<and>
   (\<exists>a. a \<in> set (alerts (snd (create (demo_env 1000) 7 out_of_range empty_world))) \<and>
        a_last_seen_lat a = 500 \<and> a_alert_radius_km a = 100000)"
proof -
  have lim: "checkAlertCreationLimit (read_limits (getenv (demo_env 1000))) (redis_up (demo_env 1000))
      (now (demo_env 1000)) 7 (redis_db empty_world) =
      (Inr (), recordAlertCreation (read_limits (\<lambda>_. None)) 7 1000 (\<lambda>_. None))"
    by (simp add: checkAlertCreationLimit_def stored_timestamps_def zrangebyscore_all_def zset_of_def
        live_def countInWindow_def read_limits_def readLimit_def demo_env_def empty_world_def)
  have claim: "claim_pet (demo_env 1000) 7 (ca_petId out_of_range) w = (Inr (), w)" for w
    by (simp add: claim_pet_def demo_create_def out_of_range_def)
  have "alerts (snd (create (demo_env 1000) 7 out_of_range empty_world)) =
      alerts empty_world @ [new_alert_row (demo_env 1000) 7 out_of_range empty_world]"
    unfolding create_ok [OF lim claim] by (simp add: Let_def)
  then have "new_alert_row (demo_env 1000) 7 out_of_range empty_world \<in>
      set (alerts (snd (create (demo_env 1000) 7 out_of_range empty_world)))" by simp
  moreover have "a_last_seen_lat (new_alert_row (demo_env 1000) 7 out_of_range empty_world) = 500"
    "a_alert_radius_km (new_alert_row (demo_env 1000) 7 out_of_range empty_world) = 100000"
    by (simp_all add: new_alert_row_def out_of_range_def Let_def)
  moreover have "\<not> valid_create_alert fc out_of_range"
    by (simp add: out_of_range_def valid_create_alert_def valid_location_details_def num_between_def)
  ultimately show ?thesis by blast
qed

end
