(* ===== verification/AlertQueries.thy ===== *)
theory AlertQueries
  imports AlertProperties
begin

text \<open>
  Cancellation, renewal and expiry of alerts, the geospatial list query against a reference
  definition, and what anonymous callers see.
\<close>

section \<open>cancel\<close>

lemma cancel_ok:
  assumes "find_alert i w = Some a" and "a_creator_id a = u" and "a_status a = DRAFT \<or> a_status a = ACTIVE"
  shows "\<exists>d w'. cancel e i u dto w = (Inr (Some d), w') \<and>
    alerts w' = alerts (update_alert i (cancel_row e dto) w) \<and>
    pets w' = pets (clear_missing e (a_pet_id a) (update_alert i (cancel_row e dto) w)) \<and>
    queue w' = queue w"
proof -
  define w' where "w' = snd (cancel e i u dto w)"
  have "cancel e i u dto w = (Inr (findById i (Some u) w'), w') \<and>
    alerts w' = alerts (update_alert i (cancel_row e dto) w) \<and>
    pets w' = pets (clear_missing e (a_pet_id a) (update_alert i (cancel_row e dto) w)) \<and> queue w' = queue w"
    using assms
    by (cases "a_status a")
      (simp_all add: w'_def cancel_def Let_def clear_missing_def cancelled_def publish_def update_pet_def)
  then have c: "cancel e i u dto w = (Inr (findById i (Some u) w'), w')"
    and al: "alerts w' = alerts (update_alert i (cancel_row e dto) w)"
    and pe: "pets w' = pets (clear_missing e (a_pet_id a) (update_alert i (cancel_row e dto) w))"
    and qu: "queue w' = queue w" by blast+
  have "find_alert i w' = Some (cancel_row e dto a)"
    using al alert_store.get_put_same [of "cancel_row e dto" i w a] assms(1) by (simp add: find_alert_def)
  then have "\<exists>d. findById i (Some u) w' = Some d" by (simp add: findById_def)
  then show ?thesis using c al pe qu by auto
qed

text \<open>
  Cancelling an alert: for its creator and a DRAFT or ACTIVE alert the row becomes CANCELLED at
  the current instant and no other alert changes; every other status is refused with the world
  unchanged. The pet's missing flag is cleared exactly when no ACTIVE alert is left for the pet.
\<close>

theorem cancel_effects:
  assumes "find_alert i w = Some a" and "a_creator_id a = u" and "a_pet_id a = Some p" and "p \<noteq> 0"
    and "find_pet p w = Some pet" and "petflag_ok e"
  shows "(a_status a \<notin> {DRAFT, ACTIVE} \<longrightarrow>
      cancel e i u dto w = (Inl (UnprocessableEntityException
         (''Cannot cancel a '' @ status_lower (a_status a) @ '' alert'')), w)) \<and>
    (a_status a \<in> {DRAFT, ACTIVE} \<longrightarrow>
      (\<exists>d w'. cancel e i u dto w = (Inr (Some d), w') \<and>
        find_alert i w' = Some (cancel_row e dto a) \<and> (\<forall>j. j \<noteq> i \<longrightarrow> find_alert j w' = find_alert j w) \<and>
        find_pet p w' = Some (if (\<exists>b\<in>set (alerts w'). a_pet_id b = Some p \<and> a_status b = ACTIVE) then pet
           else set_missing e False pet)))"
proof (intro conjI impI)
  assume "a_status a \<notin> {DRAFT, ACTIVE}"
  then show "cancel e i u dto w = (Inl (UnprocessableEntityException
      (''Cannot cancel a '' @ status_lower (a_status a) @ '' alert'')), w)"
    using assms(1,2) by (simp add: cancel_def)
next
  assume "a_status a \<in> {DRAFT, ACTIVE}"
  then obtain d w' where c: "cancel e i u dto w = (Inr (Some d), w')"
    and al: "alerts w' = alerts (update_alert i (cancel_row e dto) w)"
    and pe: "pets w' = pets (clear_missing e (a_pet_id a) (update_alert i (cancel_row e dto) w))"
    using cancel_ok [OF assms(1,2), of e dto] by auto
  have get: "find_alert j w' = (if j = i then Some (cancel_row e dto a) else find_alert j w)" for j
    using al assms(1) alert_store.get_put [of "cancel_row e dto" j i w] by (simp add: find_alert_def)
  let ?w1 = "update_alert i (cancel_row e dto) w" and ?live = "\<lambda>b. a_pet_id b = Some p \<and> a_status b = ACTIVE"
  define L where "L \<longleftrightarrow> (\<exists>b\<in>set (alerts w'). ?live b)"
  have live: "count_where ?live (alerts ?w1) = 0 \<longleftrightarrow> \<not> L"
    by (simp add: L_def count_where_0 al)
  have found: "find_pet p ?w1 = Some pet" using assms(5) by (simp add: find_pet_def)
  have put: "find_pet p (update_pet p (set_missing e False) ?w1) = Some (set_missing e False pet)"
    using found by (intro pet_store.get_put_same) (simp_all add: set_missing_def)
  have "find_pet p w' = find_pet p (clear_missing e (Some p) ?w1)"
    using pe assms(3) by (simp add: find_pet_def)
  also have "\<dots> = Some (if L then pet else set_missing e False pet)"
    using live found put assms(4,6) by (simp add: clear_missing_def)
  finally have pet': "find_pet p w' = Some (if L then pet else set_missing e False pet)" .
  show "\<exists>d w'. cancel e i u dto w = (Inr (Some d), w') \<and>
        find_alert i w' = Some (cancel_row e dto a) \<and> (\<forall>j. j \<noteq> i \<longrightarrow> find_alert j w' = find_alert j w) \<and>
        find_pet p w' = Some (if (\<exists>b\<in>set (alerts w'). a_pet_id b = Some p \<and> a_status b = ACTIVE) then pet
           else set_missing e False pet)"
    by (intro exI conjI, rule c) (simp_all only: get pet' L_def simp_thms if_True if_False, simp_all)
qed

theorem cancel_effects_witness:
  "\<exists>d w'. cancel (demo_env 9) 41 7 \<lparr>cl_reason = Absent\<rparr> demo_world = (Inr (Some d), w') \<and>
     find_alert 41 w' = Some (cancel_row (demo_env 9) \<lparr>cl_reason = Absent\<rparr> demo_alert)"
proof -
  have "petflag_ok (demo_env 9)" by (simp add: demo_env_def)
  then show ?thesis
    using cancel_effects [of 41 demo_world demo_alert 7 3 demo_pet_row "demo_env 9" "\<lparr>cl_reason = Absent\<rparr>"]
    by auto
qed

section \<open>renew\<close>

text \<open>
  Renewing: \<open>renew\<close> succeeds exactly for the creator of an existing alert that is not CANCELLED and
  was renewed fewer than three times; then the alert expires seven calendar days from now (within
  the shift \<open>d\<close> of the time zone), its count goes up by one, its status stays, and no other alert
  changes. Otherwise nothing changes.
\<close>

theorem renew_effects:
  assumes "zone_within d (tz e)"
  shows "(is_ok (fst (renew e i u w)) \<longleftrightarrow>
      (\<exists>a. find_alert i w = Some a \<and> a_creator_id a = u \<and> a_status a \<noteq> CANCELLED \<and> a_renewal_count a < 3)) \<and>
    (\<not> is_ok (fst (renew e i u w)) \<longrightarrow> snd (renew e i u w) = w) \<and>
    (is_ok (fst (renew e i u w)) \<longrightarrow>
      (\<exists>a a'. find_alert i w = Some a \<and> find_alert i (snd (renew e i u w)) = Some a' \<and>
        a_renewal_count a' = a_renewal_count a + 1 \<and> a_status a' = a_status a \<and>
        \<bar>a_expires_at a' - (now e + 7 * ms_per_day)\<bar> \<le> d \<and>
        (\<forall>j. j \<noteq> i \<longrightarrow> find_alert j (snd (renew e i u w)) = find_alert j w)))"
proof (cases "\<exists>a. find_alert i w = Some a \<and> a_creator_id a = u \<and> a_status a \<noteq> CANCELLED \<and> a_renewal_count a < 3")
  case True
  then obtain a where a: "find_alert i w = Some a" "a_creator_id a = u" "a_status a \<noteq> CANCELLED"
    "a_renewal_count a < 3" by blast
  then have ok: "is_ok (fst (renew e i u w))"
    and al: "alerts (snd (renew e i u w)) = alerts (update_alert i (renew_row e) w)"
    by (simp_all add: renew_def Let_def)
  have get: "find_alert j (snd (renew e i u w)) = (if j = i then Some (renew_row e a) else find_alert j w)" for j
    using al a(1) alert_store.get_put [of "renew_row e" j i w] by (simp add: find_alert_def)
  have "\<bar>a_expires_at (renew_row e a) - (now e + 7 * ms_per_day)\<bar> \<le> d"
    using add_days_bounds [OF assms, of "now e" 7] by (simp add: renew_row_def)
  moreover have "a_renewal_count (renew_row e a) = a_renewal_count a + 1" "a_status (renew_row e a) = a_status a"
    by (simp_all add: renew_row_def)
  ultimately show ?thesis using True ok a(1) get by auto
next
  case False
  then have "\<exists>x. renew e i u w = (Inl x, w)" by (auto simp: renew_def split: option.splits)
  then show ?thesis using False by auto
qed

theorem renew_effects_witness: "is_ok (fst (renew (demo_env 9) 41 7 demo_world))"
proof -
  have "zone_within 0 (tz (demo_env 9))" by (simp add: zone_within_def demo_env_def utc_def)
  from renew_effects [OF this, of 41 7 demo_world] show ?thesis by simp
qed

section \<open>checkExpired\<close>

lemma fold_expired_bus:
  "bus (fold (\<lambda>row. expired e (expiry_event e row)) rows w) =
   bus w @ concat (map (\<lambda>row. [(''alert.status.expired'', mk_event e EXPIRED (expiry_event e row)),
     (''alert.status.changed'', mk_event e EXPIRED (expiry_event e row))]) rows)"
  by (induction rows arbitrary: w) (simp_all add: expired_def publish_def Let_def)

lemma fold_expired_audits:
  "audits (fold (\<lambda>row. expired e (expiry_event e row)) rows w) = audits w"
  by (induction rows arbitrary: w) (simp_all add: expired_def)

text \<open>
  The expiration cron: every ACTIVE alert past its expiry becomes EXPIRED, every other row is
  untouched, so no ACTIVE alert past its expiry is left; one pair of events is published per expired
  alert, in table order; running it again at the same instant changes no alert. The audit event
  of a successful run is emitted under an event name that does not exist, so no audit entry ever
  appears.
\<close>

theorem checkExpired_effects:
  assumes "expiry_error e = None"
  shows "alerts (checkExpired e w) = map (\<lambda>a. if is_due e a then expire_row e a else a) (alerts w) \<and>
    filter (is_due e) (alerts (checkExpired e w)) = [] \<and>
    alerts (checkExpired e (checkExpired e w)) = alerts (checkExpired e w) \<and>
    bus (checkExpired e w) = bus w @ concat (map (\<lambda>a.
       [(''alert.status.expired'', mk_event e EXPIRED (expiry_event e a)),
        (''alert.status.changed'', mk_event e EXPIRED (expiry_event e a))]) (filter (is_due e) (alerts w))) \<and>
    audits (checkExpired e w) = audits w"
proof -
  have none: "emit_system ''CRON_EXECUTED'' p v = v" for p v
    by (simp add: emit_system_def SYSTEM_EVENTS_def)
  have al: "alerts (checkExpired e v) = map (\<lambda>a. if is_due e a then expire_row e a else a) (alerts v)" for v
    using assms by (simp add: checkExpired_def Let_def update_where_def)
  have not_due: "\<not> is_due e (expire_row e a)" for a
    by (simp add: is_due_def expire_row_def)
  then have no: "filter (is_due e) (alerts (checkExpired e w)) = []"
    unfolding al filter_empty_conv by auto
  then have "\<forall>a\<in>set (alerts (checkExpired e w)). \<not> is_due e a" by (simp add: filter_empty_conv)
  then have twice: "alerts (checkExpired e (checkExpired e w)) = alerts (checkExpired e w)"
    unfolding al [of "checkExpired e w"] by (intro map_idI) simp
  have "bus (checkExpired e w) = bus w @ concat (map (\<lambda>a.
       [(''alert.status.expired'', mk_event e EXPIRED (expiry_event e a)),
        (''alert.status.changed'', mk_event e EXPIRED (expiry_event e a))]) (filter (is_due e) (alerts w)))"
    "audits (checkExpired e w) = audits w"
    using assms by (simp_all add: checkExpired_def Let_def none fold_expired_bus fold_expired_audits)
  then show ?thesis using al [of w] no twice by blast
qed

theorem checkExpired_effects_witness:
  "alerts (checkExpired (demo_env (8 * ms_per_day)) demo_world) = [expire_row (demo_env (8 * ms_per_day)) demo_alert]"
proof -
  have "expiry_error (demo_env (8 * ms_per_day)) = None" by (simp add: demo_env_def)
  from checkExpired_effects [OF this, of demo_world] show ?thesis
    by (simp add: demo_world_def is_due_def demo_alert_def demo_env_def ms_per_day_def)
qed

section \<open>The list query\<close>

text \<open>The reference: what the endpoint documents, with no positional parameters.\<close>

definition matches_query :: "env \<Rightarrow> list_alerts_query \<Rightarrow> alert_row \<Rightarrow> bool" where
  "matches_query e q a \<longleftrightarrow>
     a_status a = defaulted ACTIVE (q_status q) \<and>
     (case q_species q of None \<Rightarrow> True | Some s \<Rightarrow> a_pet_species a = s) \<and>
     (case (q_lat q, q_lon q) of
        (Some lat, Some lon) \<Rightarrow>
          st_dwithin e (a_location_point a) (lon, lat) (defaulted 10 (q_radiusKm q) * 1000)
      | _ \<Rightarrow> (case q_postalCode q of None \<Rightarrow> True | Some pc \<Rightarrow> pc = [] \<or> pc \<in> set (a_affected_postal_codes a)))"

definition query_distance :: "env \<Rightarrow> list_alerts_query \<Rightarrow> alert_row \<Rightarrow> rat option" where
  "query_distance e q a =
     (case (q_lat q, q_lon q) of
        (Some lat, Some lon) \<Rightarrow> Some (st_distance e (a_location_point a) (lon, lat) / 1000)
      | _ \<Rightarrow> None)"

definition nearby_reference :: "env \<Rightarrow> list_alerts_query \<Rightarrow> world \<Rightarrow> (alert_row \<times> rat option) list" where
  "nearby_reference e q w =
     (let rows = filter (matches_query e q) (alerts w);
          ordered = (if q_lat q \<noteq> None \<and> q_lon q \<noteq> None
            then sort_key (\<lambda>a. the (query_distance e q a)) rows
            else sort_key (\<lambda>a. - a_created_at a) rows)
      in map (\<lambda>a. (a, query_distance e q a))
           (take (defaulted 20 (q_limit q)) (drop (defaulted 0 (q_offset q)) ordered)))"

text \<open>
  The query with coordinates: the positions found by \<open>indexOf\<close> hold the longitude and latitude, also
  when the two are equal, since the parameters before them are not numbers.
\<close>

lemma index_of_pos:
  "\<lbrakk>index_of x ps = int n; n < length ps\<rbrakk> \<Longrightarrow> param ps (nat (index_of x ps + 1)) = Some (ps ! n)"
  by (simp add: param_def nat_add_distrib)

lemma index_of_nonneg: "x \<in> set ps \<Longrightarrow> 0 \<le> index_of x ps \<and> index_of x ps < int (length ps) \<and> ps ! nat (index_of x ps) = x"
  by (induction ps) (auto simp: Let_def nat_add_distrib)

lemma num_param_index:
  assumes "VNum x \<in> set ps"
  shows "num_param ps (nat (index_of (VNum x) ps + 1)) = Some x"
proof -
  let ?n = "nat (index_of (VNum x) ps)"
  have n: "index_of (VNum x) ps = int ?n" "?n < length ps" "ps ! ?n = VNum x"
    using index_of_nonneg [OF assms] by auto
  then show ?thesis using index_of_pos [OF n(1,2)] by (simp add: num_param_def)
qed

lemmas positional = param_def num_param_def defaulted_def nth_append numeral_2_eq_2 numeral_3_eq_3

lemma build_query_conds:
  "list_all (cond_holds e (sq_params (build_query q)) a) (sq_conds (build_query q)) = matches_query e q a"
  by (cases "q_species q"; cases "q_lat q"; cases "q_lon q"; cases "q_postalCode q")
    (auto simp: build_query_def matches_query_def Let_def positional)

lemma build_query_distance:
  "distance_column e (sq_params (build_query q)) (sq_order (build_query q)) a = query_distance e q a"
  by (cases "q_species q"; cases "q_lat q"; cases "q_lon q")
    (simp_all add: build_query_def query_distance_def Let_def num_param_index del: index_of.simps)

lemma build_query_order:
  "sq_order (build_query q) = CreatedDesc \<longleftrightarrow> \<not> (q_lat q \<noteq> None \<and> q_lon q \<noteq> None)"
  by (cases "q_species q"; cases "q_lat q"; cases "q_lon q") (auto simp: build_query_def Let_def)

lemma build_query_page:
  "sq_limit (build_query q) = defaulted 20 (q_limit q)" "sq_offset (build_query q) = defaulted 0 (q_offset q)"
  by (simp_all add: build_query_def Let_def split: prod.split)

lemma run_query_reference: "run_query e (build_query q) w = nearby_reference e q w"
proof -
  have rows: "filter (\<lambda>a. list_all (cond_holds e (sq_params (build_query q)) a) (sq_conds (build_query q))) (alerts w) =
      filter (matches_query e q) (alerts w)" by (simp only: build_query_conds)
  show ?thesis
  proof (cases "sq_order (build_query q)")
    case CreatedDesc
    then have "(q_lat q \<noteq> None \<and> q_lon q \<noteq> None) = False" using build_query_order [of q] by blast
    then show ?thesis
      using CreatedDesc build_query_distance [of e q]
      by (simp only: run_query_def nearby_reference_def Let_def rows build_query_page if_False sql_order.case)
  next
    case (DistanceAsc i j)
    then have both: "(q_lat q \<noteq> None \<and> q_lon q \<noteq> None) = True" using build_query_order [of q] by auto
    have "distance_column e (sq_params (build_query q)) (DistanceAsc i j) a = query_distance e q a" for a
      using build_query_distance [of e q a] DistanceAsc by simp
    then show ?thesis using DistanceAsc both
      by (simp only: run_query_def nearby_reference_def Let_def rows build_query_page if_True sql_order.case)
  qed
qed


section \<open>What anonymous callers see\<close>

lemma run_query_rows:
  assumes "(a, d) \<in> set (run_query e (build_query q) w)"
  shows "a \<in> set (alerts w) \<and> matches_query e q a"
proof -
  have "a \<in> set (filter (matches_query e q) (alerts w))"
    using assms unfolding run_query_reference nearby_reference_def Let_def
    by (auto dest!: in_set_takeD in_set_dropD split: if_splits)
  then show ?thesis by simp
qed

lemma findAll_anonymous:
  assumes "d \<in> set (findAll e q None w)"
  shows "\<exists>a\<in>set (alerts w). a_status a = ACTIVE \<and> r_id d = a_id a \<and> r_status d = ACTIVE \<and> public_view a d"
proof -
  let ?q = "q\<lparr>q_status := Some ACTIVE\<rparr>"
  obtain a dist where ad: "(a, dist) \<in> set (run_query e (build_query ?q) w)"
    and d: "d = applyViewerRedaction (mapRawToResponseDto (joined_tag a w) dist a) None"
    using assms by (auto simp: findAll_def findNearby_def)
  have "a \<in> set (alerts w)" "a_status a = ACTIVE"
    using run_query_rows [OF ad] by (simp_all add: matches_query_def defaulted_def)
  then show ?thesis using d public_view_raw by auto
qed

text \<open>
  C9. Privacy of the public search: whatever filter an anonymous caller sends, every returned item
  comes from an ACTIVE alert and shows neither the creator's id nor e-mail address, notes or postal
  codes, the phone number only if it is public, and the position only on a grid of a thousandth of a
  degree, at most half a grid step off.
\<close>

theorem public_search_private:
  "\<forall>d\<in>set (findAll e q None w).
     \<exists>a\<in>set (alerts w). a_status a = ACTIVE \<and> r_id d = a_id a \<and> r_status d = ACTIVE \<and> public_view a d"
  using findAll_anonymous by blast

definition all_query :: "alert_status \<Rightarrow> list_alerts_query" where
  "all_query s = \<lparr>q_lat = None, q_lon = None, q_radiusKm = None, q_species = None, q_status = Some s,
     q_postalCode = None, q_limit = None, q_offset = None\<rparr>"

theorem public_search_private_witness:
  "findAll (demo_env 5) (all_query RESOLVED) None demo_world \<noteq> [] \<and>
   r_status (hd (findAll (demo_env 5) (all_query RESOLVED) None demo_world)) = ACTIVE \<and>
   r_creatorId (hd (findAll (demo_env 5) (all_query RESOLVED) None demo_world)) = None"
proof -
  have "findAll (demo_env 5) (all_query RESOLVED) None demo_world \<noteq> []"
    unfolding findAll_def findNearby_def run_query_reference
    by (simp add: nearby_reference_def all_query_def matches_query_def defaulted_def demo_world_def)
  moreover from this have "hd (findAll (demo_env 5) (all_query RESOLVED) None demo_world) \<in>
      set (findAll (demo_env 5) (all_query RESOLVED) None demo_world)" by (rule hd_in_set)
  ultimately show ?thesis
    using public_search_private [of "demo_env 5" "all_query RESOLVED" demo_world] by (auto simp: public_view_def)
qed

lemma findActive_cases:
  "findActiveByTagId t u w = Some d \<Longrightarrow>
     \<exists>a\<in>set (alerts w). a_status a = ACTIVE \<and> joined_tag a w = Some t \<and> d = detail_view a u w \<and>
       (\<forall>b\<in>set (alerts w). a_status b = ACTIVE \<and> joined_tag b w = Some t \<longrightarrow> a_created_at b \<le> a_created_at a)"
proof -
  let ?rows = "filter (\<lambda>a. a_status a = ACTIVE \<and> joined_tag a w = Some t) (alerts w)"
  assume "findActiveByTagId t u w = Some d"
  then obtain a as where s: "sort_key (\<lambda>a. - a_created_at a) ?rows = a # as" and d: "d = detail_view a u w"
    by (auto simp: findActiveByTagId_def split: list.splits)
  have mem: "set (a # as) = set ?rows" using s set_sort [of "\<lambda>a. - a_created_at a" ?rows] by metis
  have "sorted (map (\<lambda>a. - a_created_at a) (a # as))" using s sorted_sort_key by metis
  then have "\<forall>b\<in>set (a # as). a_created_at b \<le> a_created_at a" by auto
  moreover have "a \<in> set ?rows" using mem by auto
  moreover have "b \<in> set (a # as)" if "b \<in> set (alerts w)" "a_status b = ACTIVE" "joined_tag b w = Some t" for b
    unfolding mem using that by simp
  ultimately show ?thesis using d by auto
qed

text \<open>
  The public tag page: a tag id that passes the pipe is upper case, nine characters of the
  alphabet; the alert shown for it is a newest ACTIVE alert of a pet wearing that tag, redacted for
  an anonymous caller; and 404 is answered exactly when no ACTIVE alert carries the tag.
\<close>

theorem tag_page:
  assumes "tagIdPipe raw = Inr t"
  shows "length t = 9 \<and> set t \<subseteq> set TAG_ID_ALPHABET \<and> tagIdPipe t = Inr t \<and>
    (case findByTag raw None w of
       Inl x \<Rightarrow> x = NotFoundException (''No active alert for tag '' @ t) \<and>
          \<not> (\<exists>a\<in>set (alerts w). a_status a = ACTIVE \<and> joined_tag a w = Some t)
     | Inr d \<Rightarrow> \<exists>a\<in>set (alerts w). a_status a = ACTIVE \<and> joined_tag a w = Some t \<and> r_id d = a_id a \<and>
          public_view a d \<and>
          (\<forall>b\<in>set (alerts w). a_status b = ACTIVE \<and> joined_tag b w = Some t \<longrightarrow> a_created_at b \<le> a_created_at a))"
proof -
  have t: "length t = 9" "set t \<subseteq> set TAG_ID_ALPHABET"
    using assms by (auto simp: tagIdPipe_def normalizeTagId_def TAG_ID_LENGTH_def Let_def
        split: option.splits if_splits)
  have char: "\<not> is_space c \<and> ascii_upper c = c" if "c \<in> set TAG_ID_ALPHABET" for c
  proof -
    have "list_all (\<lambda>c. \<not> is_space c \<and> ascii_upper c = c) TAG_ID_ALPHABET" by code_simp
    then show ?thesis using that by (simp add: list_all_iff)
  qed
  have "map ascii_upper t = t" using char t(2) by (intro map_idI) auto
  moreover have "trim t = t"
  proof (rule trim_id)
    show "t \<noteq> []" using t(1) by auto
    then show "\<not> is_space (hd t)" "\<not> is_space (last t)" using char t(2) by (meson hd_in_set last_in_set subsetD)+
  qed
  ultimately have pipe: "tagIdPipe t = Inr t"
    using t by (simp add: tagIdPipe_def normalizeTagId_def TAG_ID_LENGTH_def)
  show ?thesis
  proof (cases "findActiveByTagId t None w")
    case None
    then have "sort_key (\<lambda>a. - a_created_at a)
        (filter (\<lambda>a. a_status a = ACTIVE \<and> joined_tag a w = Some t) (alerts w)) = []"
      by (auto simp: findActiveByTagId_def split: list.splits)
    then have "set (filter (\<lambda>a. a_status a = ACTIVE \<and> joined_tag a w = Some t) (alerts w)) = {}"
      using set_sort [of "\<lambda>a. - a_created_at a" "filter (\<lambda>a. a_status a = ACTIVE \<and> joined_tag a w = Some t) (alerts w)"]
      by simp
    then have "\<not> (\<exists>a\<in>set (alerts w). a_status a = ACTIVE \<and> joined_tag a w = Some t)"
      by auto
    moreover have "findByTag raw None w = Inl (NotFoundException (''No active alert for tag '' @ t))"
      using assms None by (simp add: findByTag_def)
    ultimately show ?thesis using t pipe by simp
  next
    case (Some d)
    from findActive_cases [OF Some] obtain a where a: "a \<in> set (alerts w)" "a_status a = ACTIVE"
      "joined_tag a w = Some t" "d = detail_view a None w"
      "\<forall>b\<in>set (alerts w). a_status b = ACTIVE \<and> joined_tag b w = Some t \<longrightarrow> a_created_at b \<le> a_created_at a"
      by blast
    have "public_view a d" "r_id d = a_id a"
      using a(4) public_view_detail by (simp_all add: detail_view_def)
    moreover have "findByTag raw None w = Inr d" using assms Some by (simp add: findByTag_def)
    ultimately show ?thesis using a(1,2,3,5) t pipe by auto
  qed
qed

theorem tag_page_witness: "tagIdPipe ''PET7K9X2A'' = Inr ''PET7K9X2A''"
proof -
  have "tagIdPipe '' pet7k9x2a'' = Inr ''PET7K9X2A''" by code_simp
  from tag_page [OF this, of empty_world] show ?thesis by blast
qed

text \<open>
  The alert e-mails: the confirmation mails after creating and resolving an alert are built from
  a nested pet object that no response carries, so for every alert and every requester the send
  fails and the mailbox stays as it was.
\<close>

theorem alert_mails_never_sent:
  assumes "findById i u w = Some d"
  shows "(\<exists>x. sendAlertCreatedEmail e d w = (Inl x, w)) \<and> (\<exists>x. sendAlertResolvedEmail e d oc w = (Inl x, w)) \<and>
    snd (sendAlertNearYouEmails e us d w) = w \<and> fst (fst (sendAlertNearYouEmails e us d w)) = 0"
proof -
  have none: "r_pet d = None" using assms by (rule findById_pet)
  have "snd (near_you_loop e d xs (0, m) w) = w \<and> fst (fst (near_you_loop e d xs (0, m) w)) = 0" for xs m
    by (induction xs arbitrary: m)
      (auto simp: near_you_template_def deliver_template_def none split: sum.splits)
  then show ?thesis
    using created_mail_fails [OF none] resolved_mail_fails [OF none] by (simp add: sendAlertNearYouEmails_def)
qed

theorem alert_mails_never_sent_witness:
  "\<exists>d. findById 41 (Some 7) demo_world = Some d \<and> snd (sendAlertCreatedEmail (demo_env 5) d demo_world) = demo_world"
proof -
  obtain d where d: "findById 41 (Some 7) demo_world = Some d" by (simp add: findById_def)
  from alert_mails_never_sent [OF d, of "demo_env 5"] d show ?thesis by force
qed

end
