(* ===== verification/Location.thy ===== *)
theory Location
  imports AlertDto
begin

text \<open>
  \<open>src/location/location.service.ts\<close>: which devices an alert reaches. Each strategy is a query over
  the tables with PostGIS as parameter; its rows become matches with a priority, and
  \<open>deduplicateMatches\<close> keeps one match per device and then one per user. The identifiers of most
  strategies are used as the driver delivers them (\<open>raw_int\<close>); alert zones convert them to strings.
  Rows that the ORDER BY leaves tied keep their join order here.
\<close>

section \<open>Matches\<close>

record device_match =
  dm_deviceId :: jskey
  dm_userId :: jskey
  dm_pushToken :: "string option"
  dm_confidence :: confidence
  dm_matchReason :: location_source
  dm_distanceKm :: rat
  dm_matchedVia :: string

record match_result = device_match +
  mr_priority :: nat

definition FRESH_GPS_HOURS :: int where "FRESH_GPS_HOURS = 2"
definition STALE_GPS_HOURS :: int where "STALE_GPS_HOURS = 24"
definition STALE_GPS_EXPANSION_KM :: rat where "STALE_GPS_EXPANSION_KM = 5"
definition IP_GEO_EXPANSION_KM :: rat where "IP_GEO_EXPANSION_KM = 15"

text \<open>\<open>ORDER BY priority DESC, distance ASC\<close> as two stable sorts.\<close>

definition by_priority_distance :: "('a \<Rightarrow> int) \<Rightarrow> ('a \<Rightarrow> rat) \<Rightarrow> 'a list \<Rightarrow> 'a list" where
  "by_priority_distance prio dkm xs = sort_key (\<lambda>x. - prio x) (sort_key dkm xs)"

section \<open>Strategies\<close>

definition findSavedZoneMatches :: "env \<Rightarrow> rat \<Rightarrow> rat \<Rightarrow> rat \<Rightarrow> world \<Rightarrow> match_result list" where
  "findSavedZoneMatches e alertLat alertLon alertRadiusKm w =
     (let zdist = (\<lambda>z. st_distance e (sz_location_point z) (alertLon, alertLat) / 1000);
          rows = [(z, d). z \<leftarrow> saved_zones w, d \<leftarrow> devices w,
                    sz_device_id z = d_id d \<and> sz_is_active z \<and>
                    st_dwithin e (sz_location_point z) (alertLon, alertLat) ((sz_radius_km z + alertRadiusKm) * 1000)]
      in map (\<lambda>(z, d). \<lparr>dm_deviceId = raw_int e (d_id d), dm_userId = raw_int e (d_user_id d),
                dm_pushToken = d_push_token d, dm_confidence = HIGH, dm_matchReason = MANUAL,
                dm_distanceKm = zdist z, dm_matchedVia = ''Saved zone: '' @ sz_name z, mr_priority = 1\<rparr>)
           (by_priority_distance (\<lambda>(z, d). sz_priority z) (\<lambda>(z, d). zdist z) rows))"

definition alert_zone_rows :: "env \<Rightarrow> rat \<Rightarrow> rat \<Rightarrow> rat \<Rightarrow> world \<Rightarrow> (alert_zone_row \<times> device_row) list" where
  "alert_zone_rows e alertLat alertLon alertRadiusKm w =
     by_priority_distance (\<lambda>(z, d). az_priority z)
       (\<lambda>(z, d). st_distance e (az_location_point z) (alertLon, alertLat) / 1000)
       [(z, d). z \<leftarrow> alert_zones w, u \<leftarrow> users w, d \<leftarrow> devices w,
          az_user_id z = u_id u \<and> d_user_id d = u_id u \<and> az_is_active z \<and> \<not> u_banned u \<and>
          st_dwithin e (az_location_point z) (alertLon, alertLat)
            (of_int (az_radius_meters z) + alertRadiusKm * 1000)]"

definition findAlertZoneMatches :: "env \<Rightarrow> rat \<Rightarrow> rat \<Rightarrow> rat \<Rightarrow> world \<Rightarrow> match_result list" where
  "findAlertZoneMatches e alertLat alertLon alertRadiusKm w =
     (let add = (\<lambda>(z, d) byDevice.
            if map_of byDevice (d_id d) \<noteq> None then byDevice
            else map_set (d_id d)
              \<lparr>dm_deviceId = KStr (show_int (d_id d)), dm_userId = KStr (show_int (d_user_id d)),
               dm_pushToken = d_push_token d, dm_confidence = HIGH, dm_matchReason = MANUAL,
               dm_distanceKm = st_distance e (az_location_point z) (alertLon, alertLat) / 1000,
               dm_matchedVia = ''Alert zone: '' @ az_name z, mr_priority = 1\<rparr> byDevice)
      in map_values (fold add (alert_zone_rows e alertLat alertLon alertRadiusKm w) []))"

definition gps_age_text :: "env \<Rightarrow> time \<Rightarrow> string" where
  "gps_age_text e t = to_fixed1 (of_int (now e - t) / of_int ms_per_hour) @ ''h old)''"

text \<open>The shared shape of the two GPS queries: rows in range whose position has an age in \<open>fresh\<close>.\<close>

definition gps_rows :: "env \<Rightarrow> (time \<Rightarrow> bool) \<Rightarrow> point \<Rightarrow> rat \<Rightarrow> world \<Rightarrow> (device_row \<times> point \<times> time) list" where
  "gps_rows e fresh alertPoint radiusKm w =
     sort_key (\<lambda>(d, p, t). st_distance e p alertPoint / 1000)
       [(d, p, t). d \<leftarrow> devices w, p \<leftarrow> (case d_gps_point d of None \<Rightarrow> [] | Some p \<Rightarrow> [p]),
          t \<leftarrow> (case d_gps_updated_at d of None \<Rightarrow> [] | Some t \<Rightarrow> [t]),
          fresh t \<and> d_push_token d \<noteq> None \<and> st_dwithin e p alertPoint (radiusKm * 1000)]"

definition findFreshGpsMatches :: "env \<Rightarrow> rat \<Rightarrow> rat \<Rightarrow> rat \<Rightarrow> world \<Rightarrow> match_result list" where
  "findFreshGpsMatches e alertLat alertLon radiusKm w =
     (let freshGpsThreshold = now e - FRESH_GPS_HOURS * 60 * 60 * 1000
      in map (\<lambda>(d, p, t). \<lparr>dm_deviceId = raw_int e (d_id d), dm_userId = raw_int e (d_user_id d),
                dm_pushToken = d_push_token d, dm_confidence = HIGH, dm_matchReason = GPS,
                dm_distanceKm = st_distance e p (alertLon, alertLat) / 1000,
                dm_matchedVia = ''Fresh GPS ('' @ gps_age_text e t, mr_priority = 2\<rparr>)
           (gps_rows e (\<lambda>t. t \<ge> freshGpsThreshold) (alertLon, alertLat) radiusKm w))"

definition findStaleGpsMatches :: "env \<Rightarrow> rat \<Rightarrow> rat \<Rightarrow> rat \<Rightarrow> world \<Rightarrow> match_result list" where
  "findStaleGpsMatches e alertLat alertLon baseRadiusKm w =
     (let freshGpsThreshold = now e - FRESH_GPS_HOURS * 60 * 60 * 1000;
          staleGpsThreshold = now e - STALE_GPS_HOURS * 60 * 60 * 1000;
          expandedRadiusKm = baseRadiusKm + STALE_GPS_EXPANSION_KM
      in map (\<lambda>(d, p, t). \<lparr>dm_deviceId = raw_int e (d_id d), dm_userId = raw_int e (d_user_id d),
                dm_pushToken = d_push_token d, dm_confidence = MEDIUM, dm_matchReason = GPS,
                dm_distanceKm = st_distance e p (alertLon, alertLat) / 1000,
                dm_matchedVia = ''Stale GPS ('' @ gps_age_text e t, mr_priority = 3\<rparr>)
           (gps_rows e (\<lambda>t. t < freshGpsThreshold \<and> t \<ge> staleGpsThreshold) (alertLon, alertLat)
              expandedRadiusKm w))"

fun join_with :: "string \<Rightarrow> string list \<Rightarrow> string" where
  "join_with sep [] = []"
| "join_with sep [s] = s"
| "join_with sep (s # ss) = s @ sep @ join_with sep ss"

definition findPostalCodeMatches :: "env \<Rightarrow> string list \<Rightarrow> world \<Rightarrow> match_result list" where
  "findPostalCodeMatches e affectedPostalCodes w =
     (if affectedPostalCodes = [] then []
      else map (\<lambda>d. \<lparr>dm_deviceId = raw_int e (d_id d), dm_userId = raw_int e (d_user_id d),
                dm_pushToken = d_push_token d, dm_confidence = MEDIUM, dm_matchReason = POSTAL_CODE,
                dm_distanceKm = 999,
                dm_matchedVia = ''Postal code: '' @
                  join_with '', '' (filter (\<lambda>c. c \<in> set affectedPostalCodes) (d_postal_codes d)),
                mr_priority = 4\<rparr>)
           (filter (\<lambda>d. d_push_token d \<noteq> None \<and> set (d_postal_codes d) \<inter> set affectedPostalCodes \<noteq> {})
              (devices w)))"

definition findIpGeoMatches :: "env \<Rightarrow> rat \<Rightarrow> rat \<Rightarrow> rat \<Rightarrow> world \<Rightarrow> match_result list" where
  "findIpGeoMatches e alertLat alertLon baseRadiusKm w =
     (let expandedRadiusKm = baseRadiusKm + IP_GEO_EXPANSION_KM
      in map (\<lambda>(d, p). \<lparr>dm_deviceId = raw_int e (d_id d), dm_userId = raw_int e (d_user_id d),
                dm_pushToken = d_push_token d, dm_confidence = LOW, dm_matchReason = IP,
                dm_distanceKm = st_distance e p (alertLon, alertLat) / 1000,
                dm_matchedVia = ''IP geolocation'', mr_priority = 5\<rparr>)
           (sort_key (\<lambda>(d, p). st_distance e p (alertLon, alertLat) / 1000)
              [(d, p). d \<leftarrow> devices w, p \<leftarrow> (case d_ip_point d of None \<Rightarrow> [] | Some p \<Rightarrow> [p]),
                 d_push_token d \<noteq> None \<and> st_dwithin e p (alertLon, alertLat) (expandedRadiusKm * 1000)]))"

section \<open>Deduplication\<close>

definition device_pass :: "match_result list \<Rightarrow> (jskey \<times> match_result) list" where
  "device_pass matches =
     fold (\<lambda>match deviceMap.
         case map_of deviceMap (dm_deviceId match) of
           None \<Rightarrow> map_set (dm_deviceId match) match deviceMap
         | Some existing \<Rightarrow>
             if mr_priority match < mr_priority existing
             then map_set (dm_deviceId match) match deviceMap else deviceMap) matches []"

text \<open>When a later match of the same user replaces the kept one.\<close>

definition replaces :: "match_result \<Rightarrow> match_result \<Rightarrow> bool" where
  "replaces match existing \<longleftrightarrow>
     (if mr_priority match < mr_priority existing then True
      else if mr_priority match = mr_priority existing then
        (if \<not> truthy_str (dm_pushToken existing) \<and> truthy_str (dm_pushToken match) then True
         else truthy_str (dm_pushToken existing) = truthy_str (dm_pushToken match) \<and>
              dm_distanceKm match < dm_distanceKm existing)
      else False)"

definition user_pass :: "match_result list \<Rightarrow> (jskey \<times> match_result) list" where
  "user_pass matches =
     fold (\<lambda>match userMap.
         case map_of userMap (dm_userId match) of
           None \<Rightarrow> map_set (dm_userId match) match userMap
         | Some existing \<Rightarrow>
             if replaces match existing then map_set (dm_userId match) match userMap else userMap) matches []"

definition deduplicateMatches :: "match_result list \<Rightarrow> device_match list" where
  "deduplicateMatches matches =
     map device_match.truncate (map_values (user_pass (map_values (device_pass matches))))"

section \<open>findDevicesForAlert\<close>

definition allMatches :: "env \<Rightarrow> alert_row \<Rightarrow> world \<Rightarrow> match_result list" where
  "allMatches e alert w =
     (let lat = a_last_seen_lat alert; lon = a_last_seen_lon alert; baseRadiusKm = a_alert_radius_km alert
      in findSavedZoneMatches e lat lon baseRadiusKm w @ findAlertZoneMatches e lat lon baseRadiusKm w @
         findFreshGpsMatches e lat lon baseRadiusKm w @ findStaleGpsMatches e lat lon baseRadiusKm w @
         findPostalCodeMatches e (a_affected_postal_codes alert) w @
         findIpGeoMatches e lat lon baseRadiusKm w)"

definition findDevicesForAlert :: "env \<Rightarrow> id \<Rightarrow> world \<Rightarrow> device_match list" where
  "findDevicesForAlert e alertId w =
     (case find_alert alertId w of
        None \<Rightarrow> []
      | Some alert \<Rightarrow>
          if a_status alert \<noteq> ACTIVE then []
          else if a_last_seen_lat alert = 0 \<or> a_last_seen_lon alert = 0 then []
          else deduplicateMatches (allMatches e alert w))"

definition calculateConfidence :: "location_source \<Rightarrow> rat option \<Rightarrow> confidence" where
  "calculateConfidence matchReason gpsAgeHours =
     (case matchReason of
        MANUAL \<Rightarrow> HIGH
      | GPS \<Rightarrow>
          if \<not> truthy_num gpsAgeHours then HIGH
          else if the gpsAgeHours < of_int FRESH_GPS_HOURS then HIGH
          else if the gpsAgeHours < of_int STALE_GPS_HOURS then MEDIUM
          else LOW
      | POSTAL_CODE \<Rightarrow> MEDIUM
      | IP \<Rightarrow> LOW)"

section \<open>The interface: keep the best entry per key\<close>

text \<open>
  Both passes are one loop over a map: the first entry of a key is kept until a later one beats it.
  With a strict weak order, the entry kept for a key is one that no entry of that key beats.
\<close>

definition keep_best :: "('a \<Rightarrow> 'k) \<Rightarrow> ('a \<Rightarrow> 'a \<Rightarrow> bool) \<Rightarrow> 'a list \<Rightarrow> ('k \<times> 'a) list" where
  "keep_best key beats xs =
     fold (\<lambda>x acc. case map_of acc (key x) of
         None \<Rightarrow> map_set (key x) x acc
       | Some y \<Rightarrow> if beats x y then map_set (key x) x acc else acc) xs []"

definition best_inv :: "('a \<Rightarrow> 'k) \<Rightarrow> ('a \<Rightarrow> 'a \<Rightarrow> bool) \<Rightarrow> 'a list \<Rightarrow> ('k \<times> 'a) list \<Rightarrow> bool" where
  "best_inv key beats xs m \<longleftrightarrow>
     distinct (map fst m) \<and>
     (\<forall>k r. map_of m k = Some r \<longrightarrow> r \<in> set xs \<and> key r = k) \<and>
     (\<forall>x\<in>set xs. \<exists>r. map_of m (key x) = Some r \<and> \<not> beats x r)"

locale best_per_key =
  fixes key :: "'a \<Rightarrow> 'k" and beats :: "'a \<Rightarrow> 'a \<Rightarrow> bool"
  assumes asym: "beats x y \<Longrightarrow> \<not> beats y x"
    and weak: "beats x z \<Longrightarrow> beats x y \<or> beats y z"
begin

lemma irrefl: "\<not> beats x x"
  using asym by blast

lemma best_inv_put:
  assumes "best_inv key beats ys m" and "\<And>x. x \<in> set ys \<Longrightarrow> key x = key y \<Longrightarrow> \<not> beats x y"
  shows "best_inv key beats (ys @ [y]) (map_set (key y) y m)"
  unfolding best_inv_def
proof (intro conjI allI impI ballI)
  show "distinct (map fst (map_set (key y) y m))" using assms(1) by (simp add: best_inv_def)
next
  fix k r assume "map_of (map_set (key y) y m) k = Some r"
  then show "r \<in> set (ys @ [y])" "key r = k"
    using assms(1) by (auto simp: best_inv_def split: if_splits)
next
  fix x assume x: "x \<in> set (ys @ [y])"
  show "\<exists>r. map_of (map_set (key y) y m) (key x) = Some r \<and> \<not> beats x r"
  proof (cases "key x = key y")
    case True
    then have "\<not> beats x y" using x assms(2) irrefl by auto
    then show ?thesis using True by simp
  next
    case False
    then have "x \<in> set ys" using x by auto
    then have "\<exists>r. map_of m (key x) = Some r \<and> \<not> beats x r"
      using assms(1) unfolding best_inv_def by blast
    then show ?thesis using False by (simp del: map_of_eq_Some_iff)
  qed
qed

lemma best_inv_skip:
  assumes "best_inv key beats ys m" and "map_of m (key y) = Some z" and "\<not> beats y z"
  shows "best_inv key beats (ys @ [y]) m"
  using assms unfolding best_inv_def by (auto simp del: map_of_eq_Some_iff)

lemma keep_best_inv: "best_inv key beats xs (keep_best key beats xs)"
proof (induction xs rule: rev_induct)
  case Nil
  then show ?case by (simp add: keep_best_def best_inv_def)
next
  case (snoc y ys)
  let ?m = "keep_best key beats ys"
  have step: "keep_best key beats (ys @ [y]) = (case map_of ?m (key y) of
       None \<Rightarrow> map_set (key y) y ?m
     | Some z \<Rightarrow> if beats y z then map_set (key y) y ?m else ?m)"
    unfolding keep_best_def by simp
  have old: "\<exists>r. map_of ?m (key x) = Some r \<and> \<not> beats x r" if "x \<in> set ys" for x
    using snoc that unfolding best_inv_def by blast
  show ?case
  proof (cases "map_of ?m (key y)")
    case None
    then show ?thesis using old best_inv_put [OF snoc, of y] step by fastforce
  next
    case (Some z)
    have "\<not> beats x y" if "beats y z" "x \<in> set ys" "key x = key y" for x
    proof -
      have "\<not> beats x z" using old [OF that(2)] that(3) Some by auto
      then show ?thesis using weak [of x y z] asym [OF that(1)] by blast
    qed
    then show ?thesis
      using Some step best_inv_put [OF snoc, of y] best_inv_skip [OF snoc Some] by simp
  qed
qed

lemma keep_best_distinct: "distinct (map fst (keep_best key beats xs))"
  using keep_best_inv by (simp add: best_inv_def)

lemma keep_best_sound: "(k, r) \<in> set (keep_best key beats xs) \<Longrightarrow> r \<in> set xs \<and> key r = k"
  using keep_best_inv [of xs] unfolding best_inv_def by (auto dest: map_of_is_SomeI)

lemma keep_best_complete:
  assumes "x \<in> set xs"
  obtains r where "(key x, r) \<in> set (keep_best key beats xs)" and "\<not> beats x r"
proof -
  obtain r where "map_of (keep_best key beats xs) (key x) = Some r" "\<not> beats x r"
    using keep_best_inv [of xs] assms unfolding best_inv_def by blast
  then show thesis using that map_of_SomeD by fast
qed

text \<open>The kept entry is beaten by no entry with its key.\<close>

lemma keep_best_best:
  assumes "(k, r) \<in> set (keep_best key beats xs)" and "x \<in> set xs" and "key x = k"
  shows "\<not> beats x r"
  using keep_best_inv [of xs] assms unfolding best_inv_def by fastforce

end

interpretation device_best: best_per_key dm_deviceId "\<lambda>m x. mr_priority m < mr_priority x"
  by unfold_locales auto

interpretation user_best: best_per_key dm_userId replaces
  by unfold_locales (auto simp: replaces_def split: if_splits)

lemma device_pass_keep: "device_pass ms = keep_best dm_deviceId (\<lambda>m x. mr_priority m < mr_priority x) ms"
  by (simp add: device_pass_def keep_best_def)

lemma user_pass_keep: "user_pass ms = keep_best dm_userId replaces ms"
  by (simp add: user_pass_def keep_best_def)

section \<open>What a match says about its device\<close>

text \<open>How the driver delivers integer columns: as numbers, or as decimal strings.\<close>

definition driver_ok :: "env \<Rightarrow> bool" where
  "driver_ok e \<longleftrightarrow> (raw_int e = KNum) \<or> (raw_int e = (\<lambda>i. KStr (show_int i)))"

definition of_device :: "env \<Rightarrow> device_row \<Rightarrow> match_result \<Rightarrow> bool" where
  "of_device e d m \<longleftrightarrow>
     (\<exists>K\<in>{raw_int e, \<lambda>i. KStr (show_int i)}.
        dm_deviceId m = K (d_id d) \<and> dm_userId m = K (d_user_id d)) \<and> dm_pushToken m = d_push_token d"

text \<open>Priorities and confidence go together, best first.\<close>

definition tier :: "match_result \<Rightarrow> bool" where
  "tier m \<longleftrightarrow> dm_confidence m =
     (if mr_priority m \<le> 2 then HIGH else if mr_priority m \<le> 4 then MEDIUM else LOW)"

lemma set_by_priority_distance [simp]: "set (by_priority_distance p q xs) = set xs"
  by (simp add: by_priority_distance_def)

lemma in_map_set: "(k', v') \<in> set (map_set k v m) \<Longrightarrow> (k' = k \<and> v' = v) \<or> (k', v') \<in> set m"
  by (induction m) (auto split: if_splits)

lemma fold_first_subset:
  assumes "\<And>k v. (k, v) \<in> set m \<Longrightarrow> P k v" and "\<And>x. x \<in> set xs \<Longrightarrow> P (f x) (g x)"
  shows "(k, v) \<in> set (fold (\<lambda>x acc. if map_of acc (f x) \<noteq> None then acc else map_set (f x) (g x) acc) xs m) \<Longrightarrow> P k v"
  using assms
proof (induction xs arbitrary: m k v)
  case (Cons x xs)
  let ?m = "if map_of m (f x) \<noteq> None then m else map_set (f x) (g x) m"
  have "P k' v'" if "(k', v') \<in> set ?m" for k' v'
    using that Cons.prems(2,3) by (auto split: if_splits dest: in_map_set)
  then show ?case using Cons.IH [of k v ?m] Cons.prems(1,3) by simp
qed simp

lemma fold_first_keys:
  "fst ` set (fold (\<lambda>x acc. if map_of acc (f x) \<noteq> None then acc else map_set (f x) (g x) acc) xs m) =
     fst ` set m \<union> f ` set xs"
proof (induction xs arbitrary: m)
  case (Cons x xs)
  have "fst ` set (if map_of m (f x) \<noteq> None then m else map_set (f x) (g x) m) = insert (f x) (fst ` set m)"
    by (auto simp: dom_update map_of_eq_None_iff)
  then show ?case using Cons.IH by simp
qed simp

text \<open>The match an alert-zone row gives.\<close>

definition zone_match :: "env \<Rightarrow> rat \<Rightarrow> rat \<Rightarrow> alert_zone_row \<times> device_row \<Rightarrow> match_result" where
  "zone_match e alertLat alertLon zd =
     (case zd of (z, d) \<Rightarrow>
        \<lparr>dm_deviceId = KStr (show_int (d_id d)), dm_userId = KStr (show_int (d_user_id d)),
         dm_pushToken = d_push_token d, dm_confidence = HIGH, dm_matchReason = MANUAL,
         dm_distanceKm = st_distance e (az_location_point z) (alertLon, alertLat) / 1000,
         dm_matchedVia = ''Alert zone: '' @ az_name z, mr_priority = 1\<rparr>)"

lemma findAlertZoneMatches_fold:
  "findAlertZoneMatches e lat lon r w =
     map snd (fold (\<lambda>x acc. if map_of acc (d_id (snd x)) \<noteq> None then acc
        else map_set (d_id (snd x)) (zone_match e lat lon x) acc) (alert_zone_rows e lat lon r w) [])"
  unfolding findAlertZoneMatches_def map_values_def zone_match_def case_prod_unfold Let_def ..

lemma alert_zone_row_device: "(z, d) \<in> set (alert_zone_rows e lat lon r w) \<Longrightarrow> d \<in> set (devices w)"
  by (auto simp: alert_zone_rows_def)

definition good_match :: "env \<Rightarrow> world \<Rightarrow> match_result \<Rightarrow> bool" where
  "good_match e w m \<longleftrightarrow> (\<exists>d\<in>set (devices w). of_device e d m) \<and> tier m"

lemma zone_matches_good: "m \<in> set (findAlertZoneMatches e lat lon r w) \<Longrightarrow> good_match e w m"
proof -
  assume "m \<in> set (findAlertZoneMatches e lat lon r w)"
  then obtain k where "(k, m) \<in> set (fold (\<lambda>x acc. if map_of acc (d_id (snd x)) \<noteq> None then acc
        else map_set (d_id (snd x)) (zone_match e lat lon x) acc) (alert_zone_rows e lat lon r w) [])"
    by (auto simp: findAlertZoneMatches_fold)
  then show ?thesis
    by (rule fold_first_subset [where P = "\<lambda>_ m. good_match e w m", rotated 2])
      (auto simp: good_match_def of_device_def tier_def zone_match_def dest: alert_zone_row_device)
qed

lemma saved_matches_good: "m \<in> set (findSavedZoneMatches e lat lon r w) \<Longrightarrow> good_match e w m"
  by (auto simp: findSavedZoneMatches_def good_match_def of_device_def tier_def Let_def)

lemma gps_rows_device: "(d, p, t) \<in> set (gps_rows e fresh q r w) \<longleftrightarrow>
    d \<in> set (devices w) \<and> d_gps_point d = Some p \<and> d_gps_updated_at d = Some t \<and> fresh t \<and>
    d_push_token d \<noteq> None \<and> st_dwithin e p q (r * 1000)"
  by (cases p) (auto simp: gps_rows_def split: option.splits)

lemma fresh_matches_good: "m \<in> set (findFreshGpsMatches e lat lon r w) \<Longrightarrow> good_match e w m"
  by (auto simp: findFreshGpsMatches_def good_match_def of_device_def tier_def Let_def gps_rows_device)

lemma stale_matches_good: "m \<in> set (findStaleGpsMatches e lat lon r w) \<Longrightarrow> good_match e w m"
  by (auto simp: findStaleGpsMatches_def good_match_def of_device_def tier_def Let_def gps_rows_device)

lemma postal_matches_good: "m \<in> set (findPostalCodeMatches e pcs w) \<Longrightarrow> good_match e w m"
  by (auto simp: findPostalCodeMatches_def good_match_def of_device_def tier_def split: if_splits)

lemma ip_matches_good: "m \<in> set (findIpGeoMatches e lat lon r w) \<Longrightarrow> good_match e w m"
  by (auto simp: findIpGeoMatches_def good_match_def of_device_def tier_def Let_def split: option.splits)

lemmas strategies_good = saved_matches_good zone_matches_good fresh_matches_good stale_matches_good
  postal_matches_good ip_matches_good

lemma allMatches_good: "m \<in> set (allMatches e a w) \<Longrightarrow> good_match e w m"
  unfolding allMatches_def Let_def set_append by (elim UnE) (rule strategies_good, assumption)+

text \<open>With unique device ids, a device key fixes the user key and the token.\<close>

lemma device_key_inj:
  assumes "driver_ok e" and "K \<in> {raw_int e, \<lambda>i. KStr (show_int i)}" and "K' \<in> {raw_int e, \<lambda>i. KStr (show_int i)}"
    and "K i = K' j"
  shows "K = K' \<and> i = j"
  using assms by (auto simp: driver_ok_def fun_eq_iff)

lemma same_device:
  assumes "driver_ok e" and "distinct (map d_id (devices w))"
    and "good_match e w m" and "good_match e w m'" and "dm_deviceId m = dm_deviceId m'"
  shows "dm_userId m = dm_userId m' \<and> dm_pushToken m = dm_pushToken m'"
proof -
  obtain d K where d: "d \<in> set (devices w)" "K \<in> {raw_int e, \<lambda>i. KStr (show_int i)}"
    "dm_deviceId m = K (d_id d)" "dm_userId m = K (d_user_id d)" "dm_pushToken m = d_push_token d"
    using assms(3) unfolding good_match_def of_device_def by blast
  obtain d' K' where d': "d' \<in> set (devices w)" "K' \<in> {raw_int e, \<lambda>i. KStr (show_int i)}"
    "dm_deviceId m' = K' (d_id d')" "dm_userId m' = K' (d_user_id d')" "dm_pushToken m' = d_push_token d'"
    using assms(4) unfolding good_match_def of_device_def by blast
  have "K (d_id d) = K' (d_id d')" using d(3) d'(3) assms(5) by (simp only:)
  then have K: "K = K'" "d_id d = d_id d'"
    using device_key_inj [OF assms(1) d(2) d'(2)] by blast+
  then have "d = d'" using assms(2) d(1) d'(1) by (simp add: distinct_map inj_on_def)
  then show ?thesis using K d d' by simp
qed

section \<open>Properties\<close>

lemma truncate_simps [simp]:
  "dm_userId (device_match.truncate m) = dm_userId m"
  "dm_deviceId (device_match.truncate m) = dm_deviceId m"
  "dm_pushToken (device_match.truncate m) = dm_pushToken m"
  "dm_confidence (device_match.truncate m) = dm_confidence m"
  "dm_matchReason (device_match.truncate m) = dm_matchReason m"
  "dm_distanceKm (device_match.truncate m) = dm_distanceKm m"
  by (simp_all add: device_match.defs)

lemma dedup_users_distinct: "distinct (map dm_userId (deduplicateMatches ms))"
proof -
  let ?u = "user_pass (map_values (device_pass ms))"
  have "map (dm_userId \<circ> snd) ?u = map fst ?u"
    using user_best.keep_best_sound by (intro map_cong) (auto simp: user_pass_keep)
  then have eq: "map dm_userId (deduplicateMatches ms) = map fst ?u"
    by (simp add: deduplicateMatches_def map_values_def comp_def)
  show ?thesis unfolding eq user_pass_keep by (rule user_best.keep_best_distinct)
qed

lemma dedup_sound:
  assumes "r \<in> set (deduplicateMatches ms)"
  obtains m where "m \<in> set ms" and "r = device_match.truncate m"
    and "m \<in> set (map_values (device_pass ms))"
    and "(dm_userId m, m) \<in> set (user_pass (map_values (device_pass ms)))"
proof -
  obtain k m where km: "(k, m) \<in> set (user_pass (map_values (device_pass ms)))" "r = device_match.truncate m"
    using assms by (auto simp: deduplicateMatches_def map_values_def)
  have m: "m \<in> set (map_values (device_pass ms))" "dm_userId m = k"
    using user_best.keep_best_sound km(1) unfolding user_pass_keep by blast+
  then obtain k' where "(k', m) \<in> set (device_pass ms)" by (auto simp: map_values_def)
  then have "m \<in> set ms" using device_best.keep_best_sound unfolding device_pass_keep by blast
  then show thesis using that m km by blast
qed

text \<open>For every match, its user is kept, with a match that is at least as good.\<close>

lemma dedup_complete:
  assumes one: "\<And>m m'. m \<in> set ms \<Longrightarrow> m' \<in> set ms \<Longrightarrow> dm_deviceId m = dm_deviceId m' \<Longrightarrow>
      dm_userId m = dm_userId m' \<and> dm_pushToken m = dm_pushToken m'"
    and "m \<in> set ms"
  obtains b where "b \<in> set ms" and "device_match.truncate b \<in> set (deduplicateMatches ms)"
    and "dm_userId b = dm_userId m" and "mr_priority b \<le> mr_priority m"
    and "mr_priority b = mr_priority m \<Longrightarrow> truthy_str (dm_pushToken m) \<Longrightarrow> truthy_str (dm_pushToken b)"
proof -
  obtain c where c: "(dm_deviceId m, c) \<in> set (device_pass ms)" "\<not> mr_priority m < mr_priority c"
    using device_best.keep_best_complete [OF assms(2)] unfolding device_pass_keep by blast
  have cm: "c \<in> set ms" "dm_deviceId c = dm_deviceId m"
    using device_best.keep_best_sound c(1) unfolding device_pass_keep by blast+
  have cu: "dm_userId c = dm_userId m" "dm_pushToken c = dm_pushToken m"
    using one [OF cm(1) assms(2) cm(2)] by blast+
  have cv: "c \<in> set (map_values (device_pass ms))" using c(1) by (force simp: map_values_def)
  obtain b where b: "(dm_userId c, b) \<in> set (user_pass (map_values (device_pass ms)))" "\<not> replaces c b"
    using user_best.keep_best_complete [OF cv] unfolding user_pass_keep by blast
  have bs: "b \<in> set (map_values (device_pass ms))" "dm_userId b = dm_userId c"
    using user_best.keep_best_sound b(1) unfolding user_pass_keep by blast+
  then obtain k where "(k, b) \<in> set (device_pass ms)" by (auto simp: map_values_def)
  then have bm: "b \<in> set ms" using device_best.keep_best_sound unfolding device_pass_keep by blast
  have br: "device_match.truncate b \<in> set (deduplicateMatches ms)"
    using b(1) by (force simp: deduplicateMatches_def map_values_def)
  have "mr_priority b \<le> mr_priority c" using b(2) by (auto simp: replaces_def split: if_splits)
  then have pr: "mr_priority b \<le> mr_priority m" using c(2) by simp
  have "truthy_str (dm_pushToken b)" if "mr_priority b = mr_priority m" "truthy_str (dm_pushToken m)"
  proof -
    have "mr_priority b = mr_priority c" using that(1) c(2) \<open>mr_priority b \<le> mr_priority c\<close> by simp
    then show ?thesis using b(2) that(2) cu(2) by (auto simp: replaces_def split: if_splits)
  qed
  then show thesis using that [OF bm br] bs(2) cu(1) pr by simp
qed

text \<open>The recipients of a live alert with coordinates.\<close>

definition reachable_alert :: "id \<Rightarrow> alert_row \<Rightarrow> world \<Rightarrow> bool" where
  "reachable_alert i a w \<longleftrightarrow>
     find_alert i w = Some a \<and> a_status a = ACTIVE \<and> a_last_seen_lat a \<noteq> 0 \<and> a_last_seen_lon a \<noteq> 0"

lemma findDevices_live: "reachable_alert i a w \<Longrightarrow> findDevicesForAlert e i w = deduplicateMatches (allMatches e a w)"
  by (simp add: findDevicesForAlert_def reachable_alert_def)

lemma recipients_complete:
  assumes "reachable_alert i a w" and "driver_ok e" and "distinct (map d_id (devices w))"
    and "m \<in> set (allMatches e a w)"
  obtains b where "b \<in> set (allMatches e a w)" and "device_match.truncate b \<in> set (findDevicesForAlert e i w)"
    and "dm_userId b = dm_userId m" and "mr_priority b \<le> mr_priority m"
    and "mr_priority b = mr_priority m \<Longrightarrow> truthy_str (dm_pushToken m) \<Longrightarrow> truthy_str (dm_pushToken b)"
proof (rule dedup_complete [of "allMatches e a w" m])
  show "dm_userId x = dm_userId y \<and> dm_pushToken x = dm_pushToken y"
    if "x \<in> set (allMatches e a w)" "y \<in> set (allMatches e a w)" "dm_deviceId x = dm_deviceId y" for x y
    using same_device [OF assms(2,3)] allMatches_good that by blast
qed (use assms(4) findDevices_live [OF assms(1), of e] that in auto)

definition conf_rank :: "confidence \<Rightarrow> nat" where
  "conf_rank c = (case c of HIGH \<Rightarrow> 0 | MEDIUM \<Rightarrow> 1 | LOW \<Rightarrow> 2)"

lemma tier_mono: "tier b \<Longrightarrow> tier m \<Longrightarrow> mr_priority b \<le> mr_priority m \<Longrightarrow>
    conf_rank (dm_confidence b) \<le> conf_rank (dm_confidence m)"
  by (auto simp: tier_def conf_rank_def split: if_splits)

text \<open>
  One best match per user: for a live alert, no user key occurs twice among the recipients,
  every recipient is one of the matches the strategies found, and every match of a user is
  represented by a recipient of at least that priority and confidence, one with a push token if an
  equally good match has one.
\<close>

theorem one_best_match_per_user:
  assumes "reachable_alert i a w" and "driver_ok e" and "distinct (map d_id (devices w))"
  shows "distinct (map dm_userId (findDevicesForAlert e i w)) \<and>
    set (findDevicesForAlert e i w) \<subseteq> device_match.truncate ` set (allMatches e a w) \<and>
    (\<forall>m\<in>set (allMatches e a w). \<exists>b\<in>set (allMatches e a w).
       device_match.truncate b \<in> set (findDevicesForAlert e i w) \<and> dm_userId b = dm_userId m \<and>
       mr_priority b \<le> mr_priority m \<and> conf_rank (dm_confidence b) \<le> conf_rank (dm_confidence m) \<and>
       (mr_priority b = mr_priority m \<and> truthy_str (dm_pushToken m) \<longrightarrow> truthy_str (dm_pushToken b)))"
proof (intro conjI ballI)
  show "distinct (map dm_userId (findDevicesForAlert e i w))"
    unfolding findDevices_live [OF assms(1)] by (rule dedup_users_distinct)
  show "set (findDevicesForAlert e i w) \<subseteq> device_match.truncate ` set (allMatches e a w)"
    unfolding findDevices_live [OF assms(1)] by (auto elim: dedup_sound)
next
  fix m assume m: "m \<in> set (allMatches e a w)"
  obtain b where b: "b \<in> set (allMatches e a w)" "device_match.truncate b \<in> set (findDevicesForAlert e i w)"
    "dm_userId b = dm_userId m" "mr_priority b \<le> mr_priority m"
    "mr_priority b = mr_priority m \<Longrightarrow> truthy_str (dm_pushToken m) \<Longrightarrow> truthy_str (dm_pushToken b)"
    using recipients_complete [OF assms m] by blast
  have "tier b" "tier m" using allMatches_good b(1) m by (auto simp: good_match_def)
  then show "\<exists>b\<in>set (allMatches e a w).
       device_match.truncate b \<in> set (findDevicesForAlert e i w) \<and> dm_userId b = dm_userId m \<and>
       mr_priority b \<le> mr_priority m \<and> conf_rank (dm_confidence b) \<le> conf_rank (dm_confidence m) \<and>
       (mr_priority b = mr_priority m \<and> truthy_str (dm_pushToken m) \<longrightarrow> truthy_str (dm_pushToken b))"
    using b tier_mono by blast
qed

lemma demo_town_live: "reachable_alert 41 demo_alert demo_town"
  by (simp add: reachable_alert_def demo_town_def demo_world_def find_alert_def demo_alert_def)

lemma demo_driver: "driver_ok (demo_env t)"
  by (simp add: driver_ok_def demo_env_def)

lemma demo_town_devices: "devices demo_town = [demo_phone]"
  by (simp add: demo_town_def)

theorem one_best_match_per_user_witness:
  "distinct (map dm_userId (findDevicesForAlert (demo_env 5) 41 demo_town)) \<and>
   findDevicesForAlert (demo_env 5) 41 demo_town \<noteq> []"
proof -
  have "distinct (map d_id (devices demo_town))" by (simp add: demo_town_devices)
  moreover have "findDevicesForAlert (demo_env 5) 41 demo_town \<noteq> []" by code_simp
  ultimately show ?thesis
    using one_best_match_per_user [OF demo_town_live demo_driver] by blast
qed

lemma recipient_as_good:
  assumes "reachable_alert i a w" and "driver_ok e" and "distinct (map d_id (devices w))" and m: "m \<in> set (allMatches e a w)"
  shows "\<exists>r\<in>set (findDevicesForAlert e i w). dm_userId r = dm_userId m \<and>
      conf_rank (dm_confidence r) \<le> conf_rank (dm_confidence m)"
proof -
  obtain b where b: "b \<in> set (allMatches e a w)" "device_match.truncate b \<in> set (findDevicesForAlert e i w)"
    "dm_userId b = dm_userId m" "mr_priority b \<le> mr_priority m"
    using recipients_complete [OF assms(1-3) m] by blast
  have "tier b" "tier m" using allMatches_good b(1) m by (auto simp: good_match_def)
  then show ?thesis using b tier_mono truncate_simps(1,4) by metis
qed

lemma fresh_owner_reached:
  assumes "reachable_alert i a w" and "driver_ok e" and "distinct (map d_id (devices w))"
    and "d \<in> set (devices w)" and "d_push_token d \<noteq> None"
    and "d_gps_point d = Some p" and "d_gps_updated_at d = Some t"
    and "now e - 2 * ms_per_hour \<le> t" and near: "st_dwithin e p (a_last_seen_lon a, a_last_seen_lat a) (a_alert_radius_km a * 1000)"
  shows "\<exists>r\<in>set (findDevicesForAlert e i w). dm_userId r = raw_int e (d_user_id d) \<and> dm_confidence r = HIGH"
proof -
  have "(d, p, t) \<in> set (gps_rows e (\<lambda>t. t \<ge> now e - FRESH_GPS_HOURS * 60 * 60 * 1000) (a_last_seen_lon a, a_last_seen_lat a)
      (a_alert_radius_km a) w)"
    using assms(4-8) near unfolding gps_rows_device by (simp add: FRESH_GPS_HOURS_def ms_per_hour_def)
  then have "\<exists>m\<in>set (allMatches e a w). dm_userId m = raw_int e (d_user_id d) \<and> dm_confidence m = HIGH"
    unfolding allMatches_def Let_def findFreshGpsMatches_def by force
  then show ?thesis
    using recipient_as_good [OF assms(1-3)] by (fastforce simp: conf_rank_def split: confidence.splits)
qed

text \<open>
  C32. Nobody nearby is missed: for a live alert whose latitude and longitude are both different
  from zero, with a driver that delivers integer columns as numbers or as decimal strings, the owner
  of every device with a push token whose position is at most two hours old and within the radius is
  among the recipients with HIGH confidence; if the position is between two and twenty-four hours
  old and within the radius plus 5 km, with at least MEDIUM confidence. (An alert on the equator or
  the prime meridian reaches nobody: \<open>equator_reaches_nobody\<close>.)
\<close>

theorem gps_owner_reached:
  assumes "reachable_alert i a w" and "driver_ok e" and "distinct (map d_id (devices w))"
    and "d \<in> set (devices w)" and "d_push_token d \<noteq> None"
    and "d_gps_point d = Some p" and "d_gps_updated_at d = Some t"
  shows "(now e - 2 * ms_per_hour \<le> t \<and>
        st_dwithin e p (a_last_seen_lon a, a_last_seen_lat a) (a_alert_radius_km a * 1000) \<longrightarrow>
      (\<exists>r\<in>set (findDevicesForAlert e i w). dm_userId r = raw_int e (d_user_id d) \<and> dm_confidence r = HIGH)) \<and>
    (now e - 24 * ms_per_hour \<le> t \<and> t < now e - 2 * ms_per_hour \<and>
        st_dwithin e p (a_last_seen_lon a, a_last_seen_lat a) ((a_alert_radius_km a + 5) * 1000) \<longrightarrow>
      (\<exists>r\<in>set (findDevicesForAlert e i w). dm_userId r = raw_int e (d_user_id d) \<and> dm_confidence r \<noteq> LOW))"
proof (intro conjI impI; elim conjE)
  let ?q = "(a_last_seen_lon a, a_last_seen_lat a)"
  {
    assume t: "now e - 2 * ms_per_hour \<le> t" and near: "st_dwithin e p ?q (a_alert_radius_km a * 1000)"
    show "\<exists>r\<in>set (findDevicesForAlert e i w). dm_userId r = raw_int e (d_user_id d) \<and> dm_confidence r = HIGH"
      using assms t near by (rule fresh_owner_reached)
  next
    assume t: "now e - 24 * ms_per_hour \<le> t" "t < now e - 2 * ms_per_hour"
      and near: "st_dwithin e p ?q ((a_alert_radius_km a + 5) * 1000)"
    have "(d, p, t) \<in> set (gps_rows e (\<lambda>t. t < now e - FRESH_GPS_HOURS * 60 * 60 * 1000 \<and>
        t \<ge> now e - STALE_GPS_HOURS * 60 * 60 * 1000) ?q (a_alert_radius_km a + STALE_GPS_EXPANSION_KM) w)"
      using assms(4-7) t near unfolding gps_rows_device
      by (simp add: FRESH_GPS_HOURS_def STALE_GPS_HOURS_def STALE_GPS_EXPANSION_KM_def ms_per_hour_def)
    then have "\<exists>m\<in>set (allMatches e a w). dm_userId m = raw_int e (d_user_id d) \<and> dm_confidence m = MEDIUM"
      unfolding allMatches_def Let_def findStaleGpsMatches_def by force
    then show "\<exists>r\<in>set (findDevicesForAlert e i w). dm_userId r = raw_int e (d_user_id d) \<and> dm_confidence r \<noteq> LOW"
      using recipient_as_good [OF assms(1-3)] by (fastforce simp: conf_rank_def split: confidence.splits)
  }
qed

theorem gps_owner_reached_witness:
  "\<exists>r\<in>set (findDevicesForAlert (demo_env 5) 41 demo_town). dm_userId r = KNum 8 \<and> dm_confidence r = HIGH"
proof -
  have "distinct (map d_id (devices demo_town))" "demo_phone \<in> set (devices demo_town)"
    by (simp_all add: demo_town_devices)
  moreover have "d_push_token demo_phone \<noteq> None" "d_gps_point demo_phone = Some (33, 35)"
    "d_gps_updated_at demo_phone = Some 0" "d_user_id demo_phone = 8" by (simp_all add: demo_phone_def)
  moreover have "st_dwithin (demo_env 5) (33, 35) (a_last_seen_lon demo_alert, a_last_seen_lat demo_alert)
      (a_alert_radius_km demo_alert * 1000)" "now (demo_env 5) - 2 * ms_per_hour \<le> 0"
    "raw_int (demo_env 5) 8 = KNum 8"
    by (simp_all add: demo_env_def demo_alert_def ms_per_hour_def)
  ultimately show ?thesis
    using gps_owner_reached [OF demo_town_live demo_driver, of demo_phone "(33, 35)" 0 5] by metis
qed

text \<open>
  Where a match may come from: a device with the zone, position or postal code that the strategy
  asks for, close enough to the alert, and the distance the match reports.
\<close>

definition in_reach :: "env \<Rightarrow> alert_row \<Rightarrow> world \<Rightarrow> device_match \<Rightarrow> bool" where
  "in_reach e a w m \<longleftrightarrow>
     (let q = (a_last_seen_lon a, a_last_seen_lat a); r = a_alert_radius_km a in
      \<exists>d\<in>set (devices w). dm_pushToken m = d_push_token d \<and>
        ((dm_deviceId m = raw_int e (d_id d) \<and> dm_userId m = raw_int e (d_user_id d)) \<or>
         (dm_deviceId m = KStr (show_int (d_id d)) \<and> dm_userId m = KStr (show_int (d_user_id d)))) \<and>
        (case dm_matchReason m of
           MANUAL \<Rightarrow> dm_confidence m = HIGH \<and>
             ((\<exists>z\<in>set (saved_zones w). sz_device_id z = d_id d \<and> sz_is_active z \<and>
                 st_distance e (sz_location_point z) q \<le> (sz_radius_km z + r) * 1000 \<and>
                 dm_distanceKm m = st_distance e (sz_location_point z) q / 1000) \<or>
              (\<exists>z\<in>set (alert_zones w). \<exists>u\<in>set (users w). az_user_id z = u_id u \<and> d_user_id d = u_id u \<and>
                 az_is_active z \<and> \<not> u_banned u \<and>
                 st_distance e (az_location_point z) q \<le> of_int (az_radius_meters z) + r * 1000 \<and>
                 dm_distanceKm m = st_distance e (az_location_point z) q / 1000))
         | GPS \<Rightarrow> (\<exists>p\<in>set_option (d_gps_point d). \<exists>t\<in>set_option (d_gps_updated_at d).
             dm_distanceKm m = st_distance e p q / 1000 \<and>
             (if now e - 2 * ms_per_hour \<le> t then dm_confidence m = HIGH \<and> dm_distanceKm m \<le> r
              else now e - 24 * ms_per_hour \<le> t \<and> dm_confidence m = MEDIUM \<and> dm_distanceKm m \<le> r + 5))
         | POSTAL_CODE \<Rightarrow> dm_confidence m = MEDIUM \<and>
             set (d_postal_codes d) \<inter> set (a_affected_postal_codes a) \<noteq> {}
         | IP \<Rightarrow> (\<exists>p\<in>set_option (d_ip_point d). dm_confidence m = LOW \<and>
             dm_distanceKm m = st_distance e p q / 1000 \<and> dm_distanceKm m \<le> r + 15)))"

lemma dwithin_iff: "geo_ok e \<Longrightarrow> st_dwithin e p q x \<longleftrightarrow> st_distance e p q \<le> x"
  unfolding geo_ok_def by blast

lemma saved_zone_in_reach:
  assumes "geo_ok e"
    and "m \<in> set (findSavedZoneMatches e (a_last_seen_lat a) (a_last_seen_lon a) (a_alert_radius_km a) w)"
  shows "in_reach e a w (device_match.truncate m)"
  using assms(2) unfolding findSavedZoneMatches_def in_reach_def Let_def
  by (fastforce simp: dwithin_iff [OF assms(1)])

lemma alert_zone_in_reach:
  assumes "geo_ok e"
    and "m \<in> set (findAlertZoneMatches e (a_last_seen_lat a) (a_last_seen_lon a) (a_alert_radius_km a) w)"
  shows "in_reach e a w (device_match.truncate m)"
proof -
  let ?rows = "alert_zone_rows e (a_last_seen_lat a) (a_last_seen_lon a) (a_alert_radius_km a) w"
  obtain k where "(k, m) \<in> set (fold (\<lambda>x acc. if map_of acc (d_id (snd x)) \<noteq> None then acc
      else map_set (d_id (snd x)) (zone_match e (a_last_seen_lat a) (a_last_seen_lon a) x) acc) ?rows [])"
    using assms(2) by (auto simp: findAlertZoneMatches_fold)
  then show ?thesis
  proof (rule fold_first_subset [where P = "\<lambda>_ m. in_reach e a w (device_match.truncate m)", rotated 2])
    fix x assume x: "x \<in> set ?rows"
    show "in_reach e a w (device_match.truncate (zone_match e (a_last_seen_lat a) (a_last_seen_lon a) x))"
      using x unfolding in_reach_def Let_def alert_zone_rows_def
      by (fastforce simp: zone_match_def dwithin_iff [OF assms(1)])
  qed simp
qed

lemma gps_in_reach:
  assumes "geo_ok e"
    and "m \<in> set (findFreshGpsMatches e (a_last_seen_lat a) (a_last_seen_lon a) (a_alert_radius_km a) w) \<union>
             set (findStaleGpsMatches e (a_last_seen_lat a) (a_last_seen_lon a) (a_alert_radius_km a) w)"
  shows "in_reach e a w (device_match.truncate m)"
  using assms(2) unfolding findFreshGpsMatches_def findStaleGpsMatches_def in_reach_def Let_def
  by (fastforce simp: dwithin_iff [OF assms(1)] gps_rows_device FRESH_GPS_HOURS_def STALE_GPS_HOURS_def
      STALE_GPS_EXPANSION_KM_def ms_per_hour_def)

lemma postal_in_reach:
  assumes "m \<in> set (findPostalCodeMatches e (a_affected_postal_codes a) w)"
  shows "in_reach e a w (device_match.truncate m)"
  using assms unfolding findPostalCodeMatches_def in_reach_def Let_def
  by (fastforce split: if_splits)

lemma ip_rows_device:
  "(d, p) \<in> set [(d, p). d \<leftarrow> ds, p \<leftarrow> (case d_ip_point d of None \<Rightarrow> [] | Some p \<Rightarrow> [p]), ok d p] \<longleftrightarrow>
     d \<in> set ds \<and> d_ip_point d = Some p \<and> ok d p"
  by (cases p) (auto split: option.splits)

lemma ip_in_reach:
  assumes "geo_ok e"
    and "m \<in> set (findIpGeoMatches e (a_last_seen_lat a) (a_last_seen_lon a) (a_alert_radius_km a) w)"
  shows "in_reach e a w (device_match.truncate m)"
proof -
  let ?q = "(a_last_seen_lon a, a_last_seen_lat a)"
  obtain d p where d: "d \<in> set (devices w)" "d_ip_point d = Some p"
    "st_dwithin e p ?q ((a_alert_radius_km a + IP_GEO_EXPANSION_KM) * 1000)"
    and m: "m = \<lparr>dm_deviceId = raw_int e (d_id d), dm_userId = raw_int e (d_user_id d),
       dm_pushToken = d_push_token d, dm_confidence = LOW, dm_matchReason = IP,
       dm_distanceKm = st_distance e p ?q / 1000, dm_matchedVia = ''IP geolocation'', mr_priority = 5\<rparr>"
    using assms(2) unfolding findIpGeoMatches_def Let_def set_map set_sort
    by (elim imageE, unfold split_paired_all, simp only: ip_rows_device prod.case) blast
  have "st_distance e p ?q / 1000 \<le> a_alert_radius_km a + 15"
    using d(3) by (simp add: dwithin_iff [OF assms(1)] IP_GEO_EXPANSION_KM_def)
  then show ?thesis unfolding in_reach_def Let_def
    by (intro bexI [OF _ d(1)]) (simp add: m d(2))
qed

lemma allMatches_in_reach:
  assumes "geo_ok e" and "m \<in> set (allMatches e a w)"
  shows "in_reach e a w (device_match.truncate m)"
  using assms(2) saved_zone_in_reach [OF assms(1)] alert_zone_in_reach [OF assms(1)] gps_in_reach [OF assms(1)]
    postal_in_reach ip_in_reach [OF assms(1)]
  unfolding allMatches_def Let_def by auto

text \<open>
  C34. Nobody out of range is told: every recipient of an alert stands for a device of the table,
  with its token and its owner, and either an active saved zone of that device or an active alert
  zone of its unbanned owner overlaps the alert's circle (HIGH), or its position of the last two
  hours lies within the radius (HIGH), or one of the last twenty-four hours within the radius plus
  5 km (MEDIUM), or the device shares a postal code with the alert (MEDIUM), or its IP position lies
  within the radius plus 15 km (LOW); the distance reported is the distance of that zone or
  position. An alert that is not ACTIVE has no recipients at all.
\<close>

theorem recipients_in_reach:
  assumes "geo_ok e" and "r \<in> set (findDevicesForAlert e i w)"
  shows "\<exists>a. find_alert i w = Some a \<and> a_status a = ACTIVE \<and> in_reach e a w r"
proof -
  obtain a where a: "find_alert i w = Some a" "a_status a = ACTIVE"
    "r \<in> set (deduplicateMatches (allMatches e a w))"
    using assms(2) by (cases "find_alert i w") (auto simp: findDevicesForAlert_def split: if_splits)
  then obtain m where "m \<in> set (allMatches e a w)" "r = device_match.truncate m"
    using dedup_sound by blast
  then show ?thesis using a allMatches_in_reach [OF assms(1)] by blast
qed

theorem recipients_in_reach_witness:
  "\<exists>r\<in>set (findDevicesForAlert (demo_env 5) 41 demo_town). in_reach (demo_env 5) demo_alert demo_town r"
proof -
  have "findDevicesForAlert (demo_env 5) 41 demo_town \<noteq> []" by code_simp
  then obtain r where r: "r \<in> set (findDevicesForAlert (demo_env 5) 41 demo_town)"
    by (meson list.set_sel(1))
  have "find_alert 41 demo_town = Some demo_alert"
    using demo_town_live by (simp add: reachable_alert_def)
  then show ?thesis using recipients_in_reach [OF demo_env_geo r] r by auto
qed

lemma alert_zone_match:
  assumes "distinct (map d_id (devices w))"
    and "z \<in> set (alert_zones w)" and "u \<in> set (users w)" and "d \<in> set (devices w)"
    and "az_user_id z = u_id u" and "d_user_id d = u_id u" and "az_is_active z" and "\<not> u_banned u"
    and "st_dwithin e (az_location_point z) (a_last_seen_lon a, a_last_seen_lat a)
           (of_int (az_radius_meters z) + a_alert_radius_km a * 1000)"
  shows "\<exists>m\<in>set (allMatches e a w). dm_userId m = KStr (show_int (d_user_id d))"
proof -
  let ?rows = "alert_zone_rows e (a_last_seen_lat a) (a_last_seen_lon a) (a_alert_radius_km a) w"
  have "(z, d) \<in> set ?rows" using assms(2-9) by (auto simp: alert_zone_rows_def)
  then obtain m where m: "(d_id d, m) \<in> set (fold (\<lambda>x acc. if map_of acc (d_id (snd x)) \<noteq> None then acc
      else map_set (d_id (snd x)) (zone_match e (a_last_seen_lat a) (a_last_seen_lon a) x) acc) ?rows [])"
    using fold_first_keys [of "\<lambda>x. d_id (snd x)" _ ?rows "[]"] by (force simp: image_iff)
  then have all: "m \<in> set (allMatches e a w)"
    unfolding allMatches_def Let_def findAlertZoneMatches_fold by force
  have "\<exists>d'\<in>set (devices w). d_id d' = d_id d \<and> dm_userId m = KStr (show_int (d_user_id d'))"
    by (rule fold_first_subset [where P = "\<lambda>k m. \<exists>d'\<in>set (devices w). d_id d' = k \<and>
          dm_userId m = KStr (show_int (d_user_id d'))", OF _ _ m])
      (auto simp: zone_match_def dest: alert_zone_row_device)
  then show ?thesis using all assms(1,4) by (auto simp: distinct_map inj_on_def)
qed

lemma fresh_gps_match:
  assumes "d \<in> set (devices w)" and "d_push_token d \<noteq> None" and "d_gps_point d = Some p"
    and "d_gps_updated_at d = Some t" and "now e - 2 * ms_per_hour \<le> t"
    and "st_dwithin e p (a_last_seen_lon a, a_last_seen_lat a) (a_alert_radius_km a * 1000)"
  shows "\<exists>m\<in>set (allMatches e a w). dm_userId m = raw_int e (d_user_id d) \<and> dm_confidence m = HIGH"
proof -
  have "(d, p, t) \<in> set (gps_rows e (\<lambda>t. t \<ge> now e - FRESH_GPS_HOURS * 60 * 60 * 1000)
      (a_last_seen_lon a, a_last_seen_lat a) (a_alert_radius_km a) w)"
    using assms unfolding gps_rows_device by (simp add: FRESH_GPS_HOURS_def ms_per_hour_def)
  then show ?thesis unfolding allMatches_def Let_def findFreshGpsMatches_def by force
qed

text \<open>
  Two identifier types, two recipients: when the driver delivers integers as numbers, a user
  whose phone is within the radius with a fresh position and who also has an active alert zone
  around the same spot is returned twice, once under the number and once under the string, so the
  per-user deduplication does not hold across the strategies.
\<close>

theorem two_keys_two_recipients:
  assumes "reachable_alert i a w" and "raw_int e = KNum" and "distinct (map d_id (devices w))"
    and "d \<in> set (devices w)" and "d_push_token d \<noteq> None" and "d_gps_point d = Some p"
    and "d_gps_updated_at d = Some t" and "now e - 2 * ms_per_hour \<le> t"
    and "st_dwithin e p (a_last_seen_lon a, a_last_seen_lat a) (a_alert_radius_km a * 1000)"
    and "z \<in> set (alert_zones w)" and "u \<in> set (users w)"
    and "az_user_id z = u_id u" and "d_user_id d = u_id u" and "az_is_active z" and "\<not> u_banned u"
    and "st_dwithin e (az_location_point z) (a_last_seen_lon a, a_last_seen_lat a)
           (of_int (az_radius_meters z) + a_alert_radius_km a * 1000)"
  shows "\<exists>r\<in>set (findDevicesForAlert e i w). \<exists>r'\<in>set (findDevicesForAlert e i w).
    dm_userId r = KNum (u_id u) \<and> dm_userId r' = KStr (show_int (u_id u)) \<and>
    key_int (dm_userId r) = Some (u_id u) \<and> key_int (dm_userId r') = Some (u_id u)"
proof -
  have drv: "driver_ok e" using assms(2) by (simp add: driver_ok_def)
  have kept: "\<exists>r\<in>set (findDevicesForAlert e i w). dm_userId r = k"
    if user: "\<exists>m\<in>set (allMatches e a w). dm_userId m = k" for k
  proof -
    obtain m where m: "m \<in> set (allMatches e a w)" "dm_userId m = k" using user by blast
    show ?thesis
    proof (rule recipients_complete [OF assms(1) drv assms(3) m(1)])
      fix b assume "device_match.truncate b \<in> set (findDevicesForAlert e i w)" "dm_userId b = dm_userId m"
      then show ?thesis using m(2) truncate_simps(1) [of b] by (intro bexI [of _ "device_match.truncate b"]) simp_all
    qed
  qed
  have "\<exists>m\<in>set (allMatches e a w). dm_userId m = KNum (u_id u)"
    using fresh_gps_match [OF assms(4-9)] assms(2,13) by auto
  from kept [OF this] obtain r where r: "r \<in> set (findDevicesForAlert e i w)" "dm_userId r = KNum (u_id u)" by blast
  have "\<exists>m\<in>set (allMatches e a w). dm_userId m = KStr (show_int (u_id u))"
    using alert_zone_match [OF assms(3,10,11,4,12-16)] unfolding assms(13) .
  from kept [OF this] obtain r' where r': "r' \<in> set (findDevicesForAlert e i w)"
    "dm_userId r' = KStr (show_int (u_id u))" by blast
  show ?thesis
    by (rule bexI [OF _ r(1)], rule bexI [OF _ r'(1)]) (simp add: r(2) r'(2))
qed

theorem two_keys_two_recipients_witness:
  "\<exists>r\<in>set (findDevicesForAlert (demo_env 5) 41 demo_town). \<exists>r'\<in>set (findDevicesForAlert (demo_env 5) 41 demo_town).
     dm_userId r = KNum 8 \<and> dm_userId r' = KStr ''8''"
proof -
  have sh: "show_int 8 = ''8''" by code_simp
  have "\<exists>r\<in>set (findDevicesForAlert (demo_env 5) 41 demo_town). \<exists>r'\<in>set (findDevicesForAlert (demo_env 5) 41 demo_town).
    dm_userId r = KNum (u_id demo_helper) \<and> dm_userId r' = KStr (show_int (u_id demo_helper)) \<and>
    key_int (dm_userId r) = Some (u_id demo_helper) \<and> key_int (dm_userId r') = Some (u_id demo_helper)"
    by (rule two_keys_two_recipients [OF demo_town_live, of _ demo_phone "(33, 35)" 0 demo_zone demo_helper])
      (simp_all add: demo_town_def demo_phone_def demo_helper_def demo_zone_def demo_env_def demo_alert_def ms_per_hour_def)
  then show ?thesis by (simp add: demo_helper_def sh) blast
qed

text \<open>A position on the equator or the prime meridian is treated as missing.\<close>

lemma equator_reaches_nobody:
  "find_alert i w = Some a \<Longrightarrow> a_last_seen_lat a = 0 \<or> a_last_seen_lon a = 0 \<Longrightarrow> findDevicesForAlert e i w = []"
  by (simp add: findDevicesForAlert_def)

end
