(* ===== verification/AlertEmail.thy ===== *)
theory AlertEmail
  imports Alert
begin

text \<open>
  \<open>src/notification/alert-email.service.ts\<close> with the URL builder of \<open>src/config/web-app.config.ts\<close>: the
  e-mail channel of an alert. Rendering and the provider are the guarded call \<open>send_html\<close>.
\<close>

definition buildWebAppUrl :: "env \<Rightarrow> string \<Rightarrow> string" where
  "buildWebAppUrl e path =
     getWebAppUrl e @ (if path \<noteq> [] \<and> hd path = CHR ''/'' then path else CHR ''/'' # path)"

text \<open>\<open>encodeURIComponent\<close>: every byte but letters, digits and \<open>-_.!~*'()\<close> becomes \<open>%XX\<close>.\<close>

definition uri_unreserved :: "char \<Rightarrow> bool" where
  "uri_unreserved c \<longleftrightarrow>
     (let n = (of_char c :: nat) in (48 \<le> n \<and> n \<le> 57) \<or> (65 \<le> n \<and> n \<le> 90) \<or> (97 \<le> n \<and> n \<le> 122) \<or>
        n \<in> {45, 95, 46, 33, 126, 42, 39, 40, 41})"

definition hex_digit :: "nat \<Rightarrow> char" where
  "hex_digit n = (if n < 10 then char_of (48 + n) else char_of (55 + n))"

definition encodeURIComponent :: "string \<Rightarrow> string" where
  "encodeURIComponent s =
     concat (map (\<lambda>c. if uri_unreserved c then [c]
        else [CHR ''%'', hex_digit (of_char c div 16), hex_digit (of_char c mod 16)]) s)"

definition isOptedIn :: "id \<Rightarrow> world \<Rightarrow> bool" where
  "isOptedIn userId w =
     (case find_user userId w of
        None \<Rightarrow> False
      | Some user \<Rightarrow>
          if \<not> u_emailVerified user then False
          else
            let settings = (case u_settings user of
                  Some (JObj ps) \<Rightarrow> JObj ps | Some (JArr xs) \<Rightarrow> JArr xs | _ \<Rightarrow> JObj [])
            in json_prop ''email'' (json_prop ''notifications'' settings) \<noteq> JBool False)"

record alert_email_payload =
  ae_petName :: string
  ae_petSpecies :: string
  ae_petDescription :: string
  ae_petPhotoUrl :: "string option"
  ae_locationAddress :: "string option"
  ae_distanceKm :: "rat option"
  ae_alertId :: id

definition or_empty :: "string option \<Rightarrow> json" where
  "or_empty s = JStr (case s of None \<Rightarrow> [] | Some t \<Rightarrow> t)"

definition jnum_opt :: "rat option \<Rightarrow> json" where
  "jnum_opt x = (case x of None \<Rightarrow> JUndefined | Some r \<Rightarrow> JNum r)"

definition sendAlertEmail :: "env \<Rightarrow> id \<Rightarrow> alert_email_payload \<Rightarrow> world \<Rightarrow> bool \<times> world" where
  "sendAlertEmail e userId payload w =
     (case find_user userId w of
        None \<Rightarrow> (False, w)
      | Some user \<Rightarrow>
          if u_email user = [] \<or> \<not> u_emailVerified user then (False, w)
          else send_html e ''newAlert'' (u_email user)
            (JObj [(''alert'', JObj [(''petName'', JStr (ae_petName payload)), (''species'', JStr (ae_petSpecies payload)),
                (''description'', JStr (ae_petDescription payload)), (''location'', or_empty (ae_locationAddress payload)),
                (''photoUrl'', or_empty (ae_petPhotoUrl payload)),
                (''viewUrl'', JStr (buildWebAppUrl e (''/alerts/'' @ show_int (ae_alertId payload)))),
                (''reportSightingUrl'', JStr (buildWebAppUrl e (''/alerts/'' @ show_int (ae_alertId payload) @ ''/sighting'')))]),
              (''distanceKm'', jnum_opt (ae_distanceKm payload)), (''appUrl'', JStr (getWebAppUrl e))]) w)"

record pet_is_home_payload =
  ph_alertId :: id
  ph_tagId :: string
  ph_petName :: string
  ph_petPhotoUrl :: "string option"
  ph_thankYouMessage :: "string option"

definition sendPetIsHomeEmail :: "env \<Rightarrow> id \<Rightarrow> pet_is_home_payload \<Rightarrow> world \<Rightarrow> bool \<times> world" where
  "sendPetIsHomeEmail e userId payload w =
     (case find_user userId w of
        None \<Rightarrow> (False, w)
      | Some user \<Rightarrow>
          if u_email user = [] \<or> \<not> u_emailVerified user then (False, w)
          else send_html e ''petIsHome'' (u_email user)
            (JObj [(''user'', JObj [(''firstName'', JStr (u_firstName user))]),
              (''reunion'', JObj [(''petName'', JStr (ph_petName payload)), (''photoUrl'', or_empty (ph_petPhotoUrl payload)),
                (''thankYouMessage'', or_empty (ph_thankYouMessage payload)),
                (''viewUrl'', JStr (buildWebAppUrl e (''/thank-you/'' @ encodeURIComponent (ph_tagId payload))))]),
              (''appUrl'', JStr (getWebAppUrl e))]) w)"

section \<open>Frame laws\<close>

lemma send_html_frame:
  "send_html e t r d w = (b, w') \<Longrightarrow> w' = w\<lparr>mailbox := mailbox w'\<rparr>"
  by (auto simp: send_html_def split: if_splits)

lemma email_frames:
  "sendAlertEmail e u p w = (b, w') \<Longrightarrow> w' = w\<lparr>mailbox := mailbox w'\<rparr>"
  "sendPetIsHomeEmail e u p' w = (b, w') \<Longrightarrow> w' = w\<lparr>mailbox := mailbox w'\<rparr>"
  by (auto simp: sendAlertEmail_def sendPetIsHomeEmail_def dest: send_html_frame split: option.splits if_splits)

end
