(* ===== verification/NotificationProcessor.thy ===== *)
theory NotificationProcessor
  imports Location NotificationService AlertEmail
begin

text \<open>
  \<open>src/notification/notification-queue.processor.ts\<close>: the worker behind the notification queue. A job
  handler returns normally or raises (which makes the queue retry the job), together with the
  world it leaves. The push providers' answers are part of the surroundings.
\<close>

section \<open>Loops that may raise\<close>

primrec for_each :: "('x \<Rightarrow> world \<Rightarrow> (exn + unit) \<times> world) \<Rightarrow> 'x list \<Rightarrow> world \<Rightarrow> (exn + unit) \<times> world" where
  "for_each f [] w = (Inr (), w)"
| "for_each f (x # xs) w =
     (case f x w of (Inl err, w') \<Rightarrow> (Inl err, w') | (Inr _, w') \<Rightarrow> for_each f xs w')"

text \<open>A database call with \<open>NaN\<close> for an id is refused by the client.\<close>

definition nan_id :: exn where
  "nan_id = Error ''PrismaClientValidationError''"

section \<open>Helpers of the wave handler\<close>

definition isQuietHours :: "env \<Rightarrow> bool" where
  "isQuietHours e \<longleftrightarrow> (let hour = get_hours (tz e) (now e) in hour \<ge> QUIET_HOURS_START \<or> hour < QUIET_HOURS_END)"

datatype channel = PUSH | EMAIL

definition row_channel :: "notification_row \<Rightarrow> channel" where
  "row_channel n =
     (case n_meta n of None \<Rightarrow> PUSH | Some m \<Rightarrow> if m_channel m = Some ''EMAIL'' then EMAIL else PUSH)"

definition hasBeenNotified :: "id \<Rightarrow> id \<Rightarrow> channel \<Rightarrow> world \<Rightarrow> bool" where
  "hasBeenNotified alertId userId channel w =
     list_ex (\<lambda>n. row_channel n = channel)
       (filter (\<lambda>n. n_alert_id n = alertId \<and> \<not> n_excluded n \<and> n_status n \<noteq> FAILED \<and>
                    notified_user w n = Some userId) (notifications w))"

definition isOverDailyCap :: "env \<Rightarrow> id \<Rightarrow> confidence \<Rightarrow> world \<Rightarrow> bool" where
  "isOverDailyCap e userId wave w =
     (let since = now e - 24 * 60 * 60 * 1000;
          sentToday = count_where (\<lambda>n. \<not> n_excluded n \<and> n_queued_at n \<ge> since \<and>
                                       notified_user w n = Some userId) (notifications w)
      in sentToday \<ge> DAILY_CAP_BY_CONFIDENCE wave)"

definition track :: "env \<Rightarrow> id \<Rightarrow> exclusion_reason \<Rightarrow> jskey \<Rightarrow> world \<Rightarrow> (exn + unit) \<times> world" where
  "track e alertId reason deviceId w =
     (case key_int deviceId of
        None \<Rightarrow> (Inl nan_id, w)
      | Some d \<Rightarrow> (Inr (), trackExclusion e alertId d reason w))"

definition excludeAll :: "env \<Rightarrow> id \<Rightarrow> exclusion_reason \<Rightarrow> id list \<Rightarrow> world \<Rightarrow> (exn + unit) \<times> world" where
  "excludeAll e alertId reason targets w =
     for_each (\<lambda>d w. (Inr (), trackExclusion e alertId d reason w)) targets w"

text \<open>One notification row and one push job for one device.\<close>

definition push_device :: "env \<Rightarrow> id \<Rightarrow> device_match \<Rightarrow> id \<Rightarrow> world \<Rightarrow> (exn + unit) \<times> world" where
  "push_device e alertId match deviceId w =
     (let n = (blank_notification e alertId deviceId (dm_confidence match) (source_name (dm_matchReason match)) w)
                \<lparr>n_distance_km := Some (dm_distanceKm match)\<rparr>;
          w1 = insert_notification n w
      in case queue_add e (PushNotificationJob (n_id n)) 0 None w1 of
           None \<Rightarrow> (Inl (Error ''queue unavailable''), w1)
         | Some w2 \<Rightarrow> (Inr (), w2))"

definition push_user ::
  "env \<Rightarrow> id \<Rightarrow> confidence \<Rightarrow> (jskey \<times> id list) list \<Rightarrow> jskey \<times> device_match \<Rightarrow> world \<Rightarrow> (exn + unit) \<times> world" where
  "push_user e alertId wave devicesByUser um w =
     (case um of (userId, match) \<Rightarrow>
        let targets = defaulted [] (map_of devicesByUser userId) in
        if targets = [] then
          (if truthy_str (dm_pushToken match) then track e alertId PUSH_TOKEN_MISSING (dm_deviceId match) w
           else (Inr (), w))
        else if isQuietHours e \<and> wave \<noteq> HIGH then excludeAll e alertId QUIET_HOURS targets w
        else case key_int userId of
          None \<Rightarrow> (Inl nan_id, w)
        | Some uid \<Rightarrow>
            if hasBeenNotified alertId uid PUSH w then excludeAll e alertId ALREADY_NOTIFIED targets w
            else if isOverDailyCap e uid wave w then excludeAll e alertId DAILY_CAP targets w
            else for_each (push_device e alertId match) targets w)"

definition sendFallbackEmail :: "env \<Rightarrow> alert_row \<Rightarrow> device_match \<Rightarrow> world \<Rightarrow> bool option \<times> world" where
  "sendFallbackEmail e alert match w =
     (case key_int (dm_userId match) of
        None \<Rightarrow> (None, w)
      | Some userId \<Rightarrow>
          if \<not> isOptedIn userId w then (None, w)
          else case sendAlertEmail e userId
              \<lparr>ae_petName = a_pet_name alert, ae_petSpecies = species_name (a_pet_species alert),
               ae_petDescription = a_pet_description alert,
               ae_petPhotoUrl = (case a_pet_photos alert of [] \<Rightarrow> None | p # _ \<Rightarrow> Some p),
               ae_locationAddress = a_location_address alert,
               ae_distanceKm = Some (dm_distanceKm match), ae_alertId = a_id alert\<rparr> w of
            (sent, w') \<Rightarrow> (Some sent, w'))"

definition email_meta :: notification_meta where
  "email_meta = \<lparr>m_channel = Some ''EMAIL'', m_kind = None, m_relevance = None\<rparr>"

text \<open>The outcome columns of an e-mail row.\<close>

definition mail_outcome :: "env \<Rightarrow> bool \<Rightarrow> string \<Rightarrow> notification_row \<Rightarrow> notification_row" where
  "mail_outcome e sent reason n =
     n\<lparr>n_status := (if sent then SENT else FAILED), n_sent_at := (if sent then Some (now e) else None),
       n_failed_at := (if sent then None else Some (now e)),
       n_failure_reason := (if sent then None else Some reason)\<rparr>"

definition recordEmailNotification :: "env \<Rightarrow> id \<Rightarrow> device_match \<Rightarrow> bool \<Rightarrow> world \<Rightarrow> world" where
  "recordEmailNotification e alertId match sent w =
     (case key_int (dm_deviceId match) of
        None \<Rightarrow> w
      | Some d \<Rightarrow>
          insert_notification
            (mail_outcome e sent ''EMAIL_FALLBACK_NOT_SENT''
               ((blank_notification e alertId d (dm_confidence match) (source_name (dm_matchReason match)) w)
                  \<lparr>n_distance_km := Some (dm_distanceKm match), n_meta := Some email_meta\<rparr>)) w)"

definition email_user :: "env \<Rightarrow> alert_row \<Rightarrow> jskey \<times> device_match \<Rightarrow> world \<Rightarrow> (exn + unit) \<times> world" where
  "email_user e alert um w =
     (case um of (userId, match) \<Rightarrow>
        case key_int userId of
          None \<Rightarrow> (Inl nan_id, w)
        | Some uid \<Rightarrow>
            if hasBeenNotified (a_id alert) uid EMAIL w then (Inr (), w)
            else case sendFallbackEmail e alert match w of
              (None, w') \<Rightarrow> (Inr (), w')
            | (Some sent, w') \<Rightarrow> (Inr (), recordEmailNotification e (a_id alert) match sent w'))"

section \<open>processAlertNotifications\<close>

definition first_per_user :: "device_match list \<Rightarrow> (jskey \<times> device_match) list" where
  "first_per_user deviceMatches =
     fold (\<lambda>match userMatches.
         if map_of userMatches (dm_userId match) \<noteq> None then userMatches
         else map_set (dm_userId match) match userMatches) deviceMatches []"

definition devices_by_user :: "id list \<Rightarrow> world \<Rightarrow> (jskey \<times> id list) list" where
  "devices_by_user userIds w =
     fold (\<lambda>device acc.
         let key = KStr (show_int (d_user_id device))
         in map_set key (defaulted [] (map_of acc key) @ [d_id device]) acc)
       (filter (\<lambda>d. d_user_id d \<in> set userIds \<and> d_push_token d \<noteq> None \<and> d_push_enabled d) (devices w)) []"

definition wave_matches :: "env \<Rightarrow> alert_row \<Rightarrow> confidence \<Rightarrow> world \<Rightarrow> device_match list" where
  "wave_matches e alert wave w =
     filter (\<lambda>match. dm_confidence match = wave \<and> dm_userId match \<noteq> KStr (show_int (a_creator_id alert)))
       (findDevicesForAlert e (a_id alert) w)"

definition finite_ids :: "jskey list \<Rightarrow> id list" where
  "finite_ids ks = concat (map (\<lambda>k. case key_int k of None \<Rightarrow> [] | Some i \<Rightarrow> [i]) ks)"

definition track_tokenless :: "env \<Rightarrow> id \<Rightarrow> device_match \<Rightarrow> world \<Rightarrow> (exn + unit) \<times> world" where
  "track_tokenless e alertId match w =
     (if \<not> truthy_str (dm_pushToken match) then track e alertId PUSH_TOKEN_MISSING (dm_deviceId match) w
      else (Inr (), w))"

text \<open>Sequencing of two loops: the second runs only when the first did not raise.\<close>

definition and_then ::
  "(exn + unit) \<times> world \<Rightarrow> (world \<Rightarrow> (exn + unit) \<times> world) \<Rightarrow> (exn + unit) \<times> world" where
  "and_then rw f = (case rw of (Inl err, w) \<Rightarrow> (Inl err, w) | (Inr _, w) \<Rightarrow> f w)"

definition processAlertNotifications :: "env \<Rightarrow> id \<Rightarrow> confidence option \<Rightarrow> world \<Rightarrow> (exn + unit) \<times> world" where
  "processAlertNotifications e alertId jobWave w =
     (case find_alert alertId w of
        None \<Rightarrow> (Inr (), w)
      | Some alert \<Rightarrow>
          if a_status alert \<noteq> ACTIVE then (Inr (), w)
          else
            let wave = defaulted HIGH jobWave;
                deviceMatches = wave_matches e alert wave w;
                userMatches = first_per_user deviceMatches;
                devicesByUser = devices_by_user (finite_ids (map_keys userMatches)) w
            in and_then (and_then (for_each (track_tokenless e alertId) deviceMatches w)
                 (for_each (push_user e alertId wave devicesByUser) userMatches))
                 (\<lambda>w. if wave = HIGH then for_each (email_user e alert) userMatches w else (Inr (), w)))"

section \<open>processSuccessStory\<close>

text \<open>The members of a JavaScript \<open>Set\<close> in insertion order.\<close>

definition js_set :: "'a list \<Rightarrow> 'a list" where
  "js_set xs = fold (\<lambda>x acc. if x \<in> set acc then acc else acc @ [x]) xs []"

definition alert_snapshot :: "id \<Rightarrow> world \<Rightarrow> snapshot_row option" where
  "alert_snapshot alertId w = List.find (\<lambda>s. s_alertId s = alertId) (snapshots w)"

text \<open>The reads before the claim: what the rest of the handler works with, or nothing to do.\<close>

definition story_check :: "id \<Rightarrow> world \<Rightarrow> (id \<times> snapshot_row) option" where
  "story_check alertId w =
     (case find_alert alertId w of
        None \<Rightarrow> None
      | Some alert \<Rightarrow>
          (case alert_snapshot alertId w of
             None \<Rightarrow> None
           | Some snapshot \<Rightarrow>
               if a_success_story_sent_at alert \<noteq> None then None else Some (a_creator_id alert, snapshot)))"

definition story_recipients :: "id \<Rightarrow> id \<Rightarrow> world \<Rightarrow> id list" where
  "story_recipients alertId creatorId w =
     filter (\<lambda>u. u \<noteq> creatorId)
       (js_set (concat (map (\<lambda>n. case notified_user w n of None \<Rightarrow> [] | Some u \<Rightarrow> [u]) (delivered_rows alertId w)) @
                map sg_reporter_id (filter (\<lambda>s. sg_alert_id s = alertId) (sightings w))))"

definition story_meta :: "string option \<Rightarrow> notification_meta" where
  "story_meta ch = \<lparr>m_channel = ch, m_kind = Some SUCCESS_STORY_META_KIND, m_relevance = None\<rparr>"

definition story_push :: "env \<Rightarrow> id \<Rightarrow> device_row \<Rightarrow> world \<Rightarrow> (exn + unit) \<times> world" where
  "story_push e alertId device w =
     (let n = (blank_notification e alertId (d_id device) HIGH SUCCESS_STORY_MATCH_REASON w)
                \<lparr>n_meta := Some (story_meta None)\<rparr>;
          w1 = insert_notification n w
      in case queue_add e (PushNotificationJob (n_id n)) 0 None w1 of
           None \<Rightarrow> (Inl (Error ''queue unavailable''), w1)
         | Some w2 \<Rightarrow> (Inr (), w2))"

definition any_device :: "id list \<Rightarrow> world \<Rightarrow> (id \<times> id) list" where
  "any_device recipientIds w =
     fold (\<lambda>d acc. if map_of acc (d_user_id d) \<noteq> None then acc else map_set (d_user_id d) (d_id d) acc)
       (sort_key d_id (filter (\<lambda>d. d_user_id d \<in> set recipientIds) (devices w))) []"

definition story_email ::
  "env \<Rightarrow> id \<Rightarrow> snapshot_row \<Rightarrow> (id \<times> id) list \<Rightarrow> id \<Rightarrow> world \<Rightarrow> (exn + unit) \<times> world" where
  "story_email e alertId snapshot anyDeviceByUser userId w =
     (if \<not> isOptedIn userId w then (Inr (), w)
      else case sendPetIsHomeEmail e userId
          \<lparr>ph_alertId = alertId, ph_tagId = s_tagId snapshot, ph_petName = s_petName snapshot,
           ph_petPhotoUrl = s_petPhotoUrl snapshot, ph_thankYouMessage = s_thankYouMessage snapshot\<rparr> w of
        (sent, w') \<Rightarrow>
          (Inr (), case map_of anyDeviceByUser userId of
             None \<Rightarrow> w'
           | Some deviceId \<Rightarrow>
               insert_notification
                 (mail_outcome e sent ''EMAIL_NOT_SENT''
                    ((blank_notification e alertId deviceId HIGH SUCCESS_STORY_MATCH_REASON w')
                       \<lparr>n_meta := Some (story_meta (Some ''EMAIL''))\<rparr>)) w'))"

text \<open>The atomic claim and everything after it.\<close>

definition story_run :: "env \<Rightarrow> id \<Rightarrow> id \<Rightarrow> snapshot_row \<Rightarrow> world \<Rightarrow> (exn + unit) \<times> world" where
  "story_run e alertId creatorId snapshot w =
     (let unclaimed = (\<lambda>a. a_id a = alertId \<and> a_success_story_sent_at a = None);
          claim = count_where unclaimed (alerts w);
          w1 = w\<lparr>alerts := update_where unclaimed (\<lambda>a. a\<lparr>a_success_story_sent_at := Some (now e),
                                                         a_updated_at := now e\<rparr>) (alerts w)\<rparr>
      in if claim = 0 then (Inr (), w1)
         else
           let recipientIds = story_recipients alertId creatorId w1 in
           if recipientIds = [] then (Inr (), w1)
           else
             let pushable = filter (\<lambda>d. d_user_id d \<in> set recipientIds \<and> d_push_token d \<noteq> None \<and> d_push_enabled d)
                              (devices w1)
             in and_then (for_each (story_push e alertId) pushable w1)
                  (\<lambda>w2. for_each (story_email e alertId snapshot (any_device recipientIds w2)) recipientIds w2))"

definition processSuccessStory :: "env \<Rightarrow> id \<Rightarrow> world \<Rightarrow> (exn + unit) \<times> world" where
  "processSuccessStory e alertId w =
     (case story_check alertId w of
        None \<Rightarrow> (Inr (), w)
      | Some (creatorId, snapshot) \<Rightarrow> story_run e alertId creatorId snapshot w)"

section \<open>processPushNotification\<close>

definition TERMINAL_PUSH_ERRORS :: "string list" where
  "TERMINAL_PUSH_ERRORS = [''FCM_NOT_INITIALIZED'', ''APNS_NOT_INITIALIZED'', ''WEB_PUSH_NOT_INITIALIZED'']"

primrec platform_name :: "device_platform \<Rightarrow> string" where
  "platform_name IOS = ''IOS''"
| "platform_name ANDROID = ''ANDROID''"
| "platform_name WEB = ''WEB''"

definition buildPushPayload :: "notification_row \<Rightarrow> alert_row \<Rightarrow> world \<Rightarrow> push_payload" where
  "buildPushPayload notification alert w =
     (let kind = (case n_meta notification of None \<Rightarrow> None | Some m \<Rightarrow> m_kind m) in
      if kind = Some SUCCESS_STORY_META_KIND then
        let snapshot = alert_snapshot (n_alert_id notification) w;
            petName = (case snapshot of None \<Rightarrow> a_pet_name alert | Some s \<Rightarrow> s_petName s);
            tagId = (case a_pet_id alert of None \<Rightarrow> None | Some p \<Rightarrow> map_option p_tagId (find_pet p w));
            message = map_option trim (case snapshot of None \<Rightarrow> None | Some s \<Rightarrow> s_thankYouMessage s)
        in \<lparr>pp_title = petName @ '' is home!'',
            pp_body = (if truthy_str message then take 120 (the message)
                       else petName @ '' has been found safe. Thank you for keeping an eye out.''),
            pp_imageUrl = (case snapshot of None \<Rightarrow> None | Some s \<Rightarrow> s_petPhotoUrl s),
            pp_data = [(''type'', SUCCESS_STORY_META_KIND), (''alertId'', show_int (n_alert_id notification)),
                (''notificationId'', show_int (n_id notification))] @
              (if truthy_str tagId
               then [(''tagId'', the tagId), (''url'', ''/thank-you/'' @ encodeURIComponent (the tagId))] else [])\<rparr>
      else
        \<lparr>pp_title = buildTitle (n_confidence notification) (species_name (a_pet_species alert))
            (a_pet_name alert) (n_distance_km notification),
         pp_body = buildBody (a_pet_description alert) (a_location_address alert),
         pp_imageUrl = or_null (case a_pet_photos alert of [] \<Rightarrow> None | p # _ \<Rightarrow> Some p),
         pp_data = [(''alertId'', show_int (n_alert_id notification)), (''notificationId'', show_int (n_id notification)),
            (''confidence'', confidence_name (n_confidence notification))]\<rparr>)"

definition send_push :: "env \<Rightarrow> device_platform \<Rightarrow> string \<Rightarrow> push_payload \<Rightarrow> send_result" where
  "send_push e platform token payload =
     (case platform of
        ANDROID \<Rightarrow> fcm_send e token payload
      | IOS \<Rightarrow> apns_send e token payload
      | WEB \<Rightarrow> webpush_send e token payload)"

definition failed_row :: "env \<Rightarrow> string \<Rightarrow> notification_row \<Rightarrow> notification_row" where
  "failed_row e reason n = n\<lparr>n_status := FAILED, n_failed_at := Some (now e), n_failure_reason := Some reason\<rparr>"

definition error_text :: "send_result \<Rightarrow> string" where
  "error_text r = (if truthy_str (sr_error r) then the (sr_error r) else ''UNKNOWN_ERROR'')"

definition sent_audit :: "notification_row \<Rightarrow> device_row \<Rightarrow> audit_payload" where
  "sent_audit n d =
     \<lparr>au_eventType = ''SEND'', au_entityType = ''NOTIFICATION'', au_entityId = Some (n_id n), au_userId = None,
      au_action = ''notification_sent'',
      au_description = ''Sent push notification to device '' @ show_int (n_device_id n) @ '' for alert '' @ show_int (n_alert_id n),
      au_oldValues = JUndefined, au_newValues = JUndefined,
      au_metadata = JObj [(''alertId'', JNum (of_int (n_alert_id n))), (''deviceId'', JNum (of_int (n_device_id n))),
        (''platform'', JStr (platform_name (d_platform d))), (''confidence'', JStr (confidence_name (n_confidence n))),
        (''matchReason'', JStr (n_match_reason n)),
        (''distanceKm'', case n_distance_km n of None \<Rightarrow> JNull | Some x \<Rightarrow> JNum x)],
      au_errorMessage = None, au_success = True,
      au_actorId = None, au_actorType = None\<rparr>"

definition failed_audit :: "notification_row \<Rightarrow> device_row \<Rightarrow> send_result \<Rightarrow> audit_payload" where
  "failed_audit n d r =
     \<lparr>au_eventType = ''FAILURE'', au_entityType = ''NOTIFICATION'', au_entityId = Some (n_id n), au_userId = None,
      au_action = ''notification_failed'',
      au_description = ''Failed to send push notification to device '' @ show_int (n_device_id n) @ '' for alert '' @ show_int (n_alert_id n),
      au_oldValues = JUndefined, au_newValues = JUndefined,
      au_metadata = JObj [(''alertId'', JNum (of_int (n_alert_id n))), (''deviceId'', JNum (of_int (n_device_id n))),
        (''platform'', JStr (platform_name (d_platform d))), (''invalidToken'', JBool (sr_invalidToken r))],
      au_errorMessage = Some (error_text r), au_success = False,
      au_actorId = None, au_actorType = None\<rparr>"

text \<open>The outer \<open>catch\<close>: the row is marked failed with the error's message, and the error rethrown.\<close>

definition push_catch :: "env \<Rightarrow> id \<Rightarrow> exn \<Rightarrow> string \<Rightarrow> world \<Rightarrow> (exn + unit) \<times> world" where
  "push_catch e notificationId err message w =
     (Inl err, update_notification notificationId
        (failed_row e (if message = [] then ''UNKNOWN_ERROR'' else message)) w)"

definition push_failed_message :: "send_result \<Rightarrow> string" where
  "push_failed_message r =
     ''Failed to send push notification: '' @ (case sr_error r of None \<Rightarrow> ''undefined'' | Some t \<Rightarrow> t)"

definition processPushNotification :: "env \<Rightarrow> id \<Rightarrow> world \<Rightarrow> (exn + unit) \<times> world" where
  "processPushNotification e notificationId w =
     (case find_notification notificationId w of
        None \<Rightarrow> (Inr (), w)
      | Some n \<Rightarrow>
          (case (find_device (n_device_id n) w, find_alert (n_alert_id n) w) of
             (Some d, Some alert) \<Rightarrow>
               if \<not> truthy_str (d_push_token d)
               then (Inr (), update_notification notificationId (failed_row e ''PUSH_TOKEN_MISSING'') w)
               else
                 let r = send_push e (d_platform d) (the (d_push_token d)) (buildPushPayload n alert w) in
                 if sr_success r then
                   (Inr (), emit_audit ''audit.notification.sent'' (sent_audit n d)
                      (update_notification notificationId
                         (\<lambda>n. n\<lparr>n_status := SENT, n_sent_at := Some (now e), n_push_message_id :=
                            (case sr_messageId r of None \<Rightarrow> n_push_message_id n | Some m \<Rightarrow> Some m)\<rparr>) w))
                 else
                   let w1 = update_notification notificationId (failed_row e (error_text r)) w;
                       w2 = (if sr_invalidToken r
                             then update_device (n_device_id n)
                                    (\<lambda>d. d\<lparr>d_push_token := None, d_push_token_updated_at := Some (now e),
         d_updated_at := now e\<rparr>) w1
                             else w1);
                       w3 = emit_audit ''audit.notification.failed'' (failed_audit n d r) w2
                   in if sr_invalidToken r \<or> defaulted [] (sr_error r) \<in> set TERMINAL_PUSH_ERRORS
                      then (Inr (), w3)
                      else push_catch e notificationId (Error (push_failed_message r)) (push_failed_message r) w3
           | _ \<Rightarrow> push_catch e notificationId (TypeError ''Cannot read properties of null'')
                    ''Cannot read properties of null'' w))"

definition process :: "env \<Rightarrow> job \<Rightarrow> world \<Rightarrow> (exn + unit) \<times> world" where
  "process e job w =
     (case job of
        AlertNotificationJob alertId wave \<Rightarrow> processAlertNotifications e alertId wave w
      | PushNotificationJob notificationId \<Rightarrow> processPushNotification e notificationId w
      | SuccessStoryJob alertId \<Rightarrow> processSuccessStory e alertId w)"

end
