(* ===== verification/WaveProperties.thy ===== *)
theory WaveProperties
  imports NotificationProcessor
begin

text \<open>
  What the queue worker guarantees: which rows a wave adds and for whom, the success-story fan-out,
  and the outcome of a single push.
\<close>

section \<open>Loops that only add notification rows\<close>

definition grows :: "(notification_row \<Rightarrow> bool) \<Rightarrow> world \<Rightarrow> world \<Rightarrow> bool" where
  "grows P w w' \<longleftrightarrow>
     (\<exists>ns. notifications w' = notifications w @ ns \<and> (\<forall>n\<in>set ns. P n)) \<and>
     devices w' = devices w \<and> users w' = users w \<and> alerts w' = alerts w"

lemma grows_refl [simp]: "grows P w w"
  by (auto simp: grows_def)

lemma grows_trans: "grows P w w1 \<Longrightarrow> grows P w1 w2 \<Longrightarrow> grows P w w2"
  unfolding grows_def by (auto simp: ball_Un)

lemma grows_mono: "grows P w w' \<Longrightarrow> (\<And>n. P n \<Longrightarrow> Q n) \<Longrightarrow> grows Q w w'"
  unfolding grows_def by blast

lemma grows_frame: "grows P w w' \<Longrightarrow> devices w' = devices w \<and> users w' = users w \<and> alerts w' = alerts w"
  by (simp add: grows_def)

lemma for_each_grows:
  assumes "\<And>x v. x \<in> set xs \<Longrightarrow> devices v = devices w \<Longrightarrow> grows P v (snd (f x v))"
  shows "grows P w (snd (for_each f xs w))"
proof -
  have "grows P v (snd (for_each f ys v))" if "set ys \<subseteq> set xs" "devices v = devices w" for ys v
    using that
  proof (induction ys arbitrary: v)
    case (Cons y ys)
    obtain r v1 where fy: "f y v = (r, v1)" by fastforce
    have g: "grows P v v1" using assms [of y v] Cons.prems fy by simp
    then have "grows P v1 (snd (for_each f ys v1))"
      using Cons.IH Cons.prems by (simp add: grows_frame)
    then show ?case using fy g grows_trans by (cases r) auto
  qed simp
  then show ?thesis by simp
qed

lemma and_then_grows:
  assumes "grows P w (snd rw)" and "\<And>v. devices v = devices w \<Longrightarrow> grows P v (snd (f v))"
  shows "grows P w (snd (and_then rw f))"
proof -
  obtain r v where rv: "rw = (r, v)" by fastforce
  then have "grows P v (snd (f v))" using assms by (simp add: grows_frame)
  then show ?thesis using assms(1) rv grows_trans by (cases r) (auto simp: and_then_def)
qed

lemma track_grows: "grows n_excluded w (snd (track e i reason d w))"
  by (auto simp: track_def grows_def trackExclusion_def emit_audit_def insert_notification_def Let_def
      blank_notification_def split: option.split)

lemma excludeAll_grows: "grows n_excluded w (snd (excludeAll e i reason ds w))"
  unfolding excludeAll_def
  by (rule for_each_grows)
    (auto simp: grows_def trackExclusion_def emit_audit_def insert_notification_def Let_def blank_notification_def)

lemma push_device_grows:
  "grows (\<lambda>n. n_device_id n = d \<and> \<not> n_excluded n \<and> row_channel n = PUSH \<and> n_alert_id n = i) w
     (snd (push_device e i m d w))"
  by (auto simp: push_device_def Let_def grows_def insert_notification_def blank_notification_def
      row_channel_def queue_add_def split: option.split)

lemma sendFallback_frame: "sendFallbackEmail e a m w = (r, w') \<Longrightarrow> w' = w\<lparr>mailbox := mailbox w'\<rparr>"
  by (auto simp: sendFallbackEmail_def dest: email_frames split: option.splits if_splits prod.splits)

lemma email_user_grows: "grows (\<lambda>n. row_channel n = EMAIL) w (snd (email_user e a um w))"
proof (cases um)
  case (Pair k m)
  obtain r w' where fb: "sendFallbackEmail e a m w = (r, w')" by fastforce
  obtain mb where "w' = w\<lparr>mailbox := mb\<rparr>" using sendFallback_frame [OF fb] by blast
  then have "notifications w' = notifications w" "devices w' = devices w" "users w' = users w" "alerts w' = alerts w"
    by simp_all
  then show ?thesis using Pair fb
    by (auto simp: email_user_def grows_def recordEmailNotification_def insert_notification_def mail_outcome_def
        row_channel_def email_meta_def split: option.split)
qed

section \<open>The push pass\<close>

text \<open>Rows that count for a user, whatever the alert.\<close>

definition user_rows :: "id \<Rightarrow> world \<Rightarrow> notification_row list" where
  "user_rows u w = filter (\<lambda>n. \<not> n_excluded n \<and> notified_user w n = Some u) (notifications w)"

lemma hasBeenNotified_rows:
  "hasBeenNotified i u c w = list_ex (\<lambda>n. n_alert_id n = i \<and> n_status n \<noteq> FAILED \<and> row_channel n = c) (user_rows u w)"
  by (auto simp: hasBeenNotified_def user_rows_def list_ex_iff)

lemma isOverDailyCap_rows:
  "isOverDailyCap e u wave w \<longleftrightarrow>
     DAILY_CAP_BY_CONFIDENCE wave \<le> count_where (\<lambda>n. n_queued_at n \<ge> now e - 24 * 60 * 60 * 1000) (user_rows u w)"
proof -
  have "filter (\<lambda>n. \<not> n_excluded n \<and> n_queued_at n \<ge> t \<and> notified_user w n = Some u) (notifications w) =
      filter (\<lambda>n. n_queued_at n \<ge> t) (user_rows u w)" for t
    by (simp add: user_rows_def conj_commute conj_left_commute)
  then show ?thesis by (simp add: isOverDailyCap_def Let_def count_where_def)
qed

text \<open>The reachable devices of a user, as the handler groups them.\<close>

definition grouped_ok :: "(jskey \<times> id list) list \<Rightarrow> device_row list \<Rightarrow> bool" where
  "grouped_ok g ds \<longleftrightarrow> (\<forall>k is. map_of g k = Some is \<longrightarrow>
     (\<forall>i\<in>set is. \<exists>d\<in>set ds. d_id d = i \<and> k = KStr (show_int (d_user_id d)) \<and>
        d_push_token d \<noteq> None \<and> d_push_enabled d))"

lemma devices_by_user_ok: "grouped_ok (devices_by_user us w) (devices w)"
proof -
  let ?add = "\<lambda>device acc. let key = KStr (show_int (d_user_id device))
      in map_set key (defaulted [] (map_of acc key) @ [d_id device]) acc"
  have fold_ok: "grouped_ok (fold ?add ds acc) (devices w)"
    if "grouped_ok acc (devices w)" "\<forall>d\<in>set ds. d \<in> set (devices w) \<and> d_push_token d \<noteq> None \<and> d_push_enabled d" for ds acc
    using that
  proof (induction ds arbitrary: acc)
    case (Cons d ds)
    let ?k = "KStr (show_int (d_user_id d))"
    have old: "\<exists>d'\<in>set (devices w). d_id d' = i \<and> k = KStr (show_int (d_user_id d')) \<and>
        d_push_token d' \<noteq> None \<and> d_push_enabled d'" if "map_of acc k = Some is" "i \<in> set is" for k "is" i
      using Cons.prems(1) that unfolding grouped_ok_def by blast
    have "grouped_ok (map_set ?k (defaulted [] (map_of acc ?k) @ [d_id d]) acc) (devices w)"
      unfolding grouped_ok_def
    proof (intro allI impI ballI)
      fix k "is" i assume "map_of (map_set ?k (defaulted [] (map_of acc ?k) @ [d_id d]) acc) k = Some is" "i \<in> set is"
      then consider "k = ?k" "i = d_id d" | "map_of acc k = Some is" "i \<in> set is" "k \<noteq> ?k"
        | is' where "k = ?k" "map_of acc k = Some is'" "i \<in> set is'"
        by (cases "map_of acc ?k") (auto simp: defaulted_def split: if_splits)
      then show "\<exists>d\<in>set (devices w). d_id d = i \<and> k = KStr (show_int (d_user_id d)) \<and>
          d_push_token d \<noteq> None \<and> d_push_enabled d"
      proof cases
        case 1
        then show ?thesis using Cons.prems(2) by (intro bexI [of _ d]) auto
      next
        case 2
        then show ?thesis using old by blast
      next
        case 3
        then show ?thesis using old by blast
      qed
    qed
    then show ?case using Cons by (simp add: Let_def)
  qed simp
  show ?thesis unfolding devices_by_user_def by (rule fold_ok) (auto simp: grouped_ok_def)
qed

definition may_push :: "env \<Rightarrow> id \<Rightarrow> confidence \<Rightarrow> id \<Rightarrow> world \<Rightarrow> bool" where
  "may_push e i wave u w \<longleftrightarrow>
     \<not> hasBeenNotified i u PUSH w \<and> \<not> isOverDailyCap e u wave w \<and> (wave = HIGH \<or> \<not> isQuietHours e)"

text \<open>A row added for the user with the given key, under the rules of \<open>may_push\<close> at \<open>w\<close>.\<close>

definition fair_push :: "env \<Rightarrow> id \<Rightarrow> confidence \<Rightarrow> jskey set \<Rightarrow> world \<Rightarrow> notification_row \<Rightarrow> bool" where
  "fair_push e i wave ks w n \<longleftrightarrow>
     n_excluded n \<or>
     (\<exists>u. KStr (show_int u) \<in> ks \<and> notified_user w n = Some u \<and> row_channel n = PUSH \<and> n_alert_id n = i \<and>
          may_push e i wave u w)"

lemma push_user_grows:
  assumes "distinct (map d_id (devices w))" and "grouped_ok g (devices w)"
  shows "grows (fair_push e i wave {k} w) w (snd (push_user e i wave g (k, m) w))"
proof (cases "defaulted [] (map_of g k) = []")
  case True
  then show ?thesis
    using grows_mono [OF track_grows] by (auto simp: push_user_def fair_push_def)
next
  case False
  let ?ts = "defaulted [] (map_of g k)"
  have owner: "\<exists>u. k = KStr (show_int u) \<and> map_option d_user_id (find_device t w) = Some u" if t: "t \<in> set ?ts" for t
  proof -
    obtain "is" where "map_of g k = Some is" "t \<in> set is"
      using t by (cases "map_of g k") (auto simp: defaulted_def)
    then obtain d where d: "d \<in> set (devices w)" "d_id d = t" "k = KStr (show_int (d_user_id d))"
      using assms(2) unfolding grouped_ok_def by blast
    then have "find_device t w = Some d"
      using find_row_distinct [OF assms(1) d(1)] by (simp add: find_device_def)
    then show ?thesis using d(3) by auto
  qed
  obtain u where u: "k = KStr (show_int u)" using False owner by (metis list.set_intros(1) neq_Nil_conv)
  show ?thesis
  proof (cases "isQuietHours e \<and> wave \<noteq> HIGH \<or> hasBeenNotified i u PUSH w \<or> isOverDailyCap e u wave w")
    case True
    then show ?thesis using False u grows_mono [OF excludeAll_grows]
      by (auto simp: push_user_def Let_def fair_push_def)
  next
    case ok: False
    then have may: "may_push e i wave u w" by (auto simp: may_push_def)
    have "snd (push_user e i wave g (k, m) w) = snd (for_each (push_device e i m) ?ts w)"
      using False ok u by (auto simp: push_user_def Let_def)
    moreover have "grows (fair_push e i wave {k} w) w (snd (for_each (push_device e i m) ?ts w))"
    proof (rule for_each_grows)
      fix t and v :: world assume t: "t \<in> set ?ts" and "devices v = devices w"
      have "fair_push e i wave {k} w n"
        if "n_device_id n = t \<and> \<not> n_excluded n \<and> row_channel n = PUSH \<and> n_alert_id n = i" for n
        using that owner [OF t] u may by (auto simp: fair_push_def notified_user_def)
      then show "grows (fair_push e i wave {k} w) v (snd (push_device e i m t v))"
        using grows_mono [OF push_device_grows] by blast
    qed
    ultimately show ?thesis by simp
  qed
qed

text \<open>Rows for other users leave a user's standing as it was.\<close>

lemma notified_user_devices: "devices v = devices w \<Longrightarrow> notified_user v n = notified_user w n"
  by (simp add: notified_user_def find_device_def)

lemma user_rows_other:
  assumes "grows (fair_push e i wave ks w) v v'" and "devices v = devices w" and "KStr (show_int u) \<notin> ks"
  shows "user_rows u v' = user_rows u v"
proof -
  obtain ns where ns: "notifications v' = notifications v @ ns" "\<forall>n\<in>set ns. fair_push e i wave ks w n"
    and dv: "devices v' = devices v" using assms(1) by (auto simp: grows_def)
  have "\<not> (\<not> n_excluded n \<and> notified_user v n = Some u)" if "n \<in> set ns" for n
    using ns(2) that assms(3) notified_user_devices [OF assms(2)] by (fastforce simp: fair_push_def)
  then have "filter (\<lambda>n. \<not> n_excluded n \<and> notified_user v n = Some u) ns = []"
    by (auto simp: filter_empty_conv)
  then show ?thesis
    using ns(1) dv by (simp add: user_rows_def notified_user_devices [OF dv])
qed

lemma may_push_rows: "user_rows u v = user_rows u w \<Longrightarrow> may_push e i wave u v = may_push e i wave u w"
  by (simp add: may_push_def hasBeenNotified_rows isOverDailyCap_rows)

lemma push_pass_grows:
  assumes "distinct (map d_id (devices w))" and "grouped_ok g (devices w)"
    and "distinct (map fst ums)" and "devices v = devices w"
    and "\<And>u. KStr (show_int u) \<in> fst ` set ums \<Longrightarrow> user_rows u v = user_rows u w"
  shows "grows (fair_push e i wave (fst ` set ums) w) v (snd (for_each (push_user e i wave g) ums v))"
  using assms(3-5)
proof (induction ums arbitrary: v)
  case (Cons um ums)
  obtain k m where um: "um = (k, m)" by (cases um)
  obtain r v1 where f: "push_user e i wave g (k, m) v = (r, v1)" by fastforce
  have g0: "grows (fair_push e i wave {k} v) v v1"
    using push_user_grows [of v g e i wave k m] assms(1,2) Cons.prems(2) f by simp
  have fair: "fair_push e i wave (fst ` set (um # ums)) w n" if "fair_push e i wave {k} v n" for n
    using that unfolding fair_push_def
  proof (elim disjE exE conjE)
    fix u assume u: "KStr (show_int u) \<in> {k}" "notified_user v n = Some u" "row_channel n = PUSH"
      "n_alert_id n = i" "may_push e i wave u v"
    have k: "KStr (show_int u) \<in> fst ` set (um # ums)" using u(1) um by simp
    have "may_push e i wave u w" using u(5) may_push_rows [OF Cons.prems(3) [OF k]] by simp
    then show "n_excluded n \<or> (\<exists>u. KStr (show_int u) \<in> fst ` set (um # ums) \<and> notified_user w n = Some u \<and>
        row_channel n = PUSH \<and> n_alert_id n = i \<and> may_push e i wave u w)"
      using u(2-4) k notified_user_devices [OF Cons.prems(2), of n] by metis
  qed simp
  have g1: "grows (fair_push e i wave (fst ` set (um # ums)) w) v v1" using g0 fair by (rule grows_mono)
  have "user_rows u v1 = user_rows u w" if "KStr (show_int u) \<in> fst ` set ums" for u
  proof -
    have "KStr (show_int u) \<noteq> k" using that Cons.prems(1) um by auto
    then show ?thesis
      using user_rows_other [OF g0] Cons.prems(3) [of u] that by simp
  qed
  then have "grows (fair_push e i wave (fst ` set ums) w) v1 (snd (for_each (push_user e i wave g) ums v1))"
    using Cons.IH [of v1] Cons.prems(1,2) um grows_frame [OF g0] by simp
  then have "grows (fair_push e i wave (fst ` set (um # ums)) w) v1 (snd (for_each (push_user e i wave g) ums v1))"
    by (rule grows_mono) (auto simp: fair_push_def)
  then show ?case using um f g1 grows_trans by (cases r) auto
qed simp

lemma first_per_user_keys:
  "distinct (map fst (first_per_user ms)) \<and> fst ` set (first_per_user ms) = dm_userId ` set ms"
proof -
  have "distinct (map fst (fold (\<lambda>match acc. if map_of acc (dm_userId match) \<noteq> None then acc
      else map_set (dm_userId match) match acc) ms acc))" if "distinct (map fst acc)"
    for acc :: "(jskey \<times> device_match) list"
    using that by (induction ms arbitrary: acc) auto
  then show ?thesis
    using fold_first_keys [of dm_userId "\<lambda>m. m" ms "[]"] by (simp add: first_per_user_def)
qed

text \<open>Every row a wave adds: an exclusion, a fair push or an e-mail row.\<close>

lemma wave_grows:
  assumes "distinct (map d_id (devices w))" and "find_alert i w = Some a" and "a_status a = ACTIVE"
  shows "grows (\<lambda>n. row_channel n = EMAIL \<or>
      fair_push e i (defaulted HIGH jw) (dm_userId ` set (wave_matches e a (defaulted HIGH jw) w)) w n)
    w (snd (processAlertNotifications e i jw w))"
proof -
  let ?wave = "defaulted HIGH jw"
  let ?ms = "wave_matches e a ?wave w"
  let ?ums = "first_per_user ?ms"
  let ?g = "devices_by_user (finite_ids (map_keys ?ums)) w"
  let ?P = "\<lambda>n. row_channel n = EMAIL \<or> fair_push e i ?wave (dm_userId ` set ?ms) w n"
  have keys: "distinct (map fst ?ums)" "fst ` set ?ums = dm_userId ` set ?ms"
    using first_per_user_keys by blast+
  obtain r1 w1 where t: "for_each (track_tokenless e i) ?ms w = (r1, w1)" by fastforce
  have t1: "grows n_excluded w w1"
    using for_each_grows [of ?ms w n_excluded "track_tokenless e i"] t track_grows
    by (simp add: track_tokenless_def)
  have rows1: "user_rows u w1 = user_rows u w" for u
  proof -
    have "grows (fair_push e i ?wave {} w) w w1" using t1 by (rule grows_mono) (simp add: fair_push_def)
    then show ?thesis by (rule user_rows_other) simp_all
  qed
  have p: "grows (fair_push e i ?wave (dm_userId ` set ?ms) w) w1 (snd (for_each (push_user e i ?wave ?g) ?ums w1))"
    using push_pass_grows [OF assms(1) devices_by_user_ok keys(1), of w1 e i ?wave] rows1 grows_frame [OF t1]
    unfolding keys(2) by blast
  have t2: "grows ?P w w1" using t1 by (rule grows_mono) (simp add: fair_push_def)
  have p2: "grows ?P w (snd (and_then (r1, w1) (for_each (push_user e i ?wave ?g) ?ums)))"
    using t2 grows_trans [OF t2 grows_mono [OF p]] by (cases r1) (auto simp: and_then_def)
  have em: "grows ?P v (snd (for_each (email_user e a) ?ums v))" for v
    by (rule for_each_grows) (auto intro: grows_mono [OF email_user_grows])
  have "grows ?P w (snd (and_then (and_then (r1, w1) (for_each (push_user e i ?wave ?g) ?ums))
      (\<lambda>w. if ?wave = HIGH then for_each (email_user e a) ?ums w else (Inr (), w))))"
    by (rule and_then_grows [OF p2]) (use em in auto)
  then show ?thesis
    using assms(2,3) t by (simp add: processAlertNotifications_def Let_def)
qed

section \<open>Properties of the waves\<close>

text \<open>The rows a handler added.\<close>

definition new_rows :: "world \<Rightarrow> world \<Rightarrow> notification_row list" where
  "new_rows w w' = drop (length (notifications w)) (notifications w')"

lemma grows_new_rows: "grows P w w' \<Longrightarrow> n \<in> set (new_rows w w') \<Longrightarrow> P n"
  by (auto simp: grows_def new_rows_def)

text \<open>
  C6. Who a wave pushes to: a wave that runs from start to end without anything else happening in
  between (\<open>solo_processAlertNotifications\<close>) adds push rows only for its own alert, which is ACTIVE,
  and only for devices of a user whom the location service matched for that alert in the tier of the
  wave, who is not the alert's creator, was not reached by push for this alert before, and is under
  the daily cap of the tier; and outside the HIGH wave no push row is added during quiet hours. For
  an alert that is missing or not ACTIVE the wave does nothing at all.
\<close>

theorem wave_push_rules:
  assumes "distinct (map d_id (devices w))" and "processAlertNotifications e i jw w = (r, w')"
    and "n \<in> set (new_rows w w')" and "\<not> n_excluded n" and "row_channel n = PUSH"
  shows "\<exists>a u m. find_alert i w = Some a \<and> a_status a = ACTIVE \<and> n_alert_id n = i \<and>
    notified_user w n = Some u \<and> m \<in> set (findDevicesForAlert e i w) \<and>
    dm_userId m = KStr (show_int u) \<and> dm_confidence m = defaulted HIGH jw \<and>
    u \<noteq> a_creator_id a \<and> \<not> hasBeenNotified i u PUSH w \<and> \<not> isOverDailyCap e u (defaulted HIGH jw) w \<and>
    (defaulted HIGH jw = HIGH \<or> \<not> isQuietHours e)"
proof -
  have idle: False if "w' = w" using that assms(3) by (simp add: new_rows_def)
  obtain a where a: "find_alert i w = Some a" "a_status a = ACTIVE"
    using idle assms(2) by (cases "find_alert i w") (auto simp: processAlertNotifications_def split: if_splits)
  let ?ks = "dm_userId ` set (wave_matches e a (defaulted HIGH jw) w)"
  have "fair_push e i (defaulted HIGH jw) ?ks w n"
    using grows_new_rows [OF wave_grows [OF assms(1) a, of e jw], of n] assms(2,3,5) by auto
  then obtain u where u: "KStr (show_int u) \<in> ?ks" "notified_user w n = Some u" "n_alert_id n = i"
    "may_push e i (defaulted HIGH jw) u w"
    using assms(4) by (auto simp: fair_push_def)
  obtain m where "m \<in> set (wave_matches e a (defaulted HIGH jw) w)" "dm_userId m = KStr (show_int u)"
    using u(1) by (metis imageE)
  then have m: "m \<in> set (findDevicesForAlert e i w)" "dm_confidence m = defaulted HIGH jw"
      "dm_userId m = KStr (show_int u)" "KStr (show_int u) \<noteq> KStr (show_int (a_creator_id a))"
    using a by (auto simp: wave_matches_def find_alert_def dest: find_row_Some)
  show ?thesis
    by (intro exI [of _ a] exI [of _ u] exI [of _ m]) (use a u m in \<open>auto simp: may_push_def\<close>)
qed

theorem wave_push_rules_witness:
  "\<exists>n u. n \<in> set (new_rows demo_town
       (snd (processAlertNotifications (demo_env (12 * ms_per_hour)) 41 (Some HIGH) demo_town))) \<and>
     notified_user demo_town n = Some u \<and> u \<noteq> 7 \<and> n_alert_id n = 41"
proof -
  let ?e = "demo_env (12 * ms_per_hour)"
  obtain r w' where run: "processAlertNotifications ?e 41 (Some HIGH) demo_town = (r, w')" by fastforce
  have "list_ex (\<lambda>n. \<not> n_excluded n \<and> row_channel n = PUSH)
      (new_rows demo_town (snd (processAlertNotifications ?e 41 (Some HIGH) demo_town)))" by code_simp
  then obtain n where n: "n \<in> set (new_rows demo_town w')" "\<not> n_excluded n" "row_channel n = PUSH"
    using run by (auto simp: list_ex_iff)
  have dist: "distinct (map d_id (devices demo_town))" by (simp add: demo_town_def)
  have "find_alert 41 demo_town = Some demo_alert" using demo_town_live by (simp add: reachable_alert_def)
  with wave_push_rules [OF dist run n] n(1) run show ?thesis by auto
qed

lemma no_zone_keys:
  assumes "raw_int e = KNum" and "alert_zones w = []" and "r \<in> set (findDevicesForAlert e i w)"
  shows "\<exists>u. dm_userId r = KNum u"
proof -
  obtain a where r: "r \<in> set (deduplicateMatches (allMatches e a w))"
    using assms(3) by (cases "find_alert i w") (auto simp: findDevicesForAlert_def split: if_splits)
  obtain m where m: "m \<in> set (allMatches e a w)" "r = device_match.truncate m"
    by (rule dedup_sound [OF r]) blast
  have "findAlertZoneMatches e lat lon rad w = []" for lat lon rad
    using assms(2) by (simp add: findAlertZoneMatches_def alert_zone_rows_def by_priority_distance_def map_values_def)
  then have "\<exists>u. dm_userId m = KNum u"
    using m(1) assms(1)
    by (auto simp: allMatches_def Let_def findSavedZoneMatches_def findFreshGpsMatches_def findStaleGpsMatches_def
        findPostalCodeMatches_def findIpGeoMatches_def split: if_splits)
  then show ?thesis using m(2) by simp
qed

lemma for_each_queue:
  assumes "\<And>x v. x \<in> set xs \<Longrightarrow> queue (snd (f x v)) = queue v"
  shows "queue (snd (for_each f xs w)) = queue w"
  using assms
proof (induction xs arbitrary: w)
  case (Cons x xs)
  obtain r v where f: "f x w = (r, v)" by fastforce
  then have "queue v = queue w" using Cons.prems [of x w] by simp
  then show ?case using Cons f by (cases r) auto
qed simp

lemma no_groups_for_numbers: "map_of (devices_by_user us w) (KNum k) = None"
  using devices_by_user_ok [of us w]
proof -
  have "\<exists>s. fst x = KStr s" if "x \<in> set (fold (\<lambda>device acc.
         let key = KStr (show_int (d_user_id device))
         in map_set key (defaulted [] (map_of acc key) @ [d_id device]) acc) ds acc)"
    "\<forall>y\<in>set acc. \<exists>s. fst y = KStr s" for x :: "jskey \<times> id list" and ds acc
    using that
  proof (induction ds arbitrary: acc)
    case (Cons d ds)
    have "\<forall>y\<in>set (map_set (KStr (show_int (d_user_id d))) v acc). \<exists>s. fst y = KStr s" for v
      using Cons.prems(2) by (auto dest: in_map_set)
    then show ?case using Cons by (simp add: Let_def)
  qed simp
  then show ?thesis by (fastforce simp: devices_by_user_def map_of_eq_None_iff)
qed

lemma email_user_queue: "queue (snd (email_user e a um w)) = queue w"
proof (cases um)
  case (Pair k m)
  obtain r w' where fb: "sendFallbackEmail e a m w = (r, w')" by fastforce
  obtain mb where "w' = w\<lparr>mailbox := mb\<rparr>" using sendFallback_frame [OF fb] by blast
  then have "queue w' = queue w" by simp
  then show ?thesis using Pair fb
    by (auto simp: email_user_def recordEmailNotification_def insert_notification_def split: option.split)
qed

lemma track_queue: "queue (snd (track e i reason d w)) = queue w"
  by (simp add: track_def split: option.split)

lemma and_then_queue:
  "queue (snd rw) = queue w \<Longrightarrow> (\<And>v. queue (snd (f v)) = queue v) \<Longrightarrow> queue (snd (and_then rw f)) = queue w"
  by (cases rw; cases "fst rw") (auto simp: and_then_def)

text \<open>
  Numeric identifiers are never pushed: when the driver delivers integer columns as numbers and
  nobody has an alert zone, a wave queues no push job at all, and the filter on the creator's id,
  which compares with a string, removes nobody.
\<close>

theorem numeric_ids_never_pushed:
  assumes "raw_int e = KNum" and "alert_zones w = []"
  shows "queue (snd (processAlertNotifications e i jw w)) = queue w \<and>
    (\<forall>a. wave_matches e a wave w = filter (\<lambda>m. dm_confidence m = wave) (findDevicesForAlert e (a_id a) w))"
proof
  show "\<forall>a. wave_matches e a wave w = filter (\<lambda>m. dm_confidence m = wave) (findDevicesForAlert e (a_id a) w)"
    unfolding wave_matches_def using no_zone_keys [OF assms] by (fastforce intro!: filter_cong)
next
  have push: "queue (snd (push_user e i wv (devices_by_user us w) um v)) = queue v" if "\<exists>k. fst um = KNum k" for wv us um v
    using that no_groups_for_numbers track_queue by (cases um) (auto simp: push_user_def Let_def defaulted_def)
  have keys: "\<exists>k. fst um = KNum k" if "um \<in> set (first_per_user (wave_matches e a wv w))" for um a wv
  proof -
    have "fst um \<in> dm_userId ` set (wave_matches e a wv w)"
      using that first_per_user_keys [of "wave_matches e a wv w"] by (metis imageI)
    then show ?thesis using no_zone_keys [OF assms] by (auto simp: wave_matches_def)
  qed
  show "queue (snd (processAlertNotifications e i jw w)) = queue w"
  proof (cases "find_alert i w")
    case (Some a)
    have "queue (snd (for_each (push_user e i wv (devices_by_user us w)) (first_per_user (wave_matches e a wv w)) v)) = queue v"
      for wv us v by (rule for_each_queue) (use push keys in blast)
    moreover have "queue (snd (for_each (track_tokenless e i) ms v)) = queue v" for ms v
      by (rule for_each_queue) (simp add: track_tokenless_def track_queue)
    moreover have "queue (snd (for_each (email_user e a) ums v)) = queue v" for ums v
      by (rule for_each_queue) (rule email_user_queue)
    ultimately show ?thesis
      using Some by (auto simp: processAlertNotifications_def Let_def intro!: and_then_queue)
  qed (simp add: processAlertNotifications_def)
qed

definition demo_gps_town :: world where
  "demo_gps_town = demo_town\<lparr>alert_zones := []\<rparr>"

theorem numeric_ids_never_pushed_witness:
  "findDevicesForAlert (demo_env 5) 41 demo_gps_town \<noteq> [] \<and>
   queue (snd (processAlertNotifications (demo_env 5) 41 (Some HIGH) demo_gps_town)) = []"
proof -
  have "raw_int (demo_env 5) = KNum" "alert_zones demo_gps_town = []"
    by (simp_all add: demo_env_def demo_gps_town_def)
  from numeric_ids_never_pushed [OF this, of 41 "Some HIGH"]
  have "queue (snd (processAlertNotifications (demo_env 5) 41 (Some HIGH) demo_gps_town)) = queue demo_gps_town" by blast
  moreover have "queue demo_gps_town = []"
    by (simp add: demo_gps_town_def demo_town_def demo_world_def empty_world_def)
  moreover have "findDevicesForAlert (demo_env 5) 41 demo_gps_town \<noteq> []" by code_simp
  ultimately show ?thesis by simp
qed

section \<open>The success story\<close>

lemma js_set_props: "distinct (js_set xs) \<and> set (js_set xs) = set xs"
proof -
  have "distinct (fold (\<lambda>x acc. if x \<in> set acc then acc else acc @ [x]) ys acc) \<and>
      set (fold (\<lambda>x acc. if x \<in> set acc then acc else acc @ [x]) ys acc) = set acc \<union> set ys"
    if "distinct acc" for acc ys :: "'a list"
    using that by (induction ys arbitrary: acc) auto
  then show ?thesis by (simp add: js_set_def)
qed

lemma js_set_simps [simp]: "distinct (js_set xs)" "set (js_set xs) = set xs"
  by (simp_all add: js_set_props)

text \<open>Who helped: somebody a notification of the alert reached, or who reported a sighting.\<close>

definition helper_of :: "id \<Rightarrow> world \<Rightarrow> id \<Rightarrow> bool" where
  "helper_of i w u \<longleftrightarrow>
     (\<exists>n\<in>set (delivered_rows i w). notified_user w n = Some u) \<or>
     (\<exists>s\<in>set (sightings w). sg_alert_id s = i \<and> sg_reporter_id s = u)"

lemma story_recipients_props:
  "distinct (story_recipients i c w) \<and> (u \<in> set (story_recipients i c w) \<longleftrightarrow> u \<noteq> c \<and> helper_of i w u)"
proof -
  have *: "set (case notified_user w n of None \<Rightarrow> [] | Some u \<Rightarrow> [u]) = {u. notified_user w n = Some u}" for n
    by (cases "notified_user w n") auto
  show ?thesis by (auto simp: story_recipients_def helper_of_def *)
qed

text \<open>The devices the fan-out pushes to, and the rows and jobs it adds.\<close>

definition story_targets :: "id \<Rightarrow> id \<Rightarrow> world \<Rightarrow> device_row list" where
  "story_targets i c w =
     filter (\<lambda>d. d_user_id d \<in> set (story_recipients i c w) \<and> d_push_token d \<noteq> None \<and> d_push_enabled d) (devices w)"

lemma story_push_ok:
  assumes "\<And>n. queue_ok e n"
  shows "\<exists>n. n_device_id n = d_id d \<and> row_channel n = PUSH \<and> n_id n = next_id n_id (notifications w) \<and>
    story_push e i d w = (Inr (), w\<lparr>notifications := notifications w @ [n],
      queue := queue w @ [\<lparr>j_job = PushNotificationJob (n_id n), j_delay = 0, j_jobId = None\<rparr>]\<rparr>)"
  by (rule exI [of _ "(blank_notification e i (d_id d) HIGH SUCCESS_STORY_MATCH_REASON w)\<lparr>n_meta := Some (story_meta None)\<rparr>"])
    (simp add: assms story_push_def Let_def insert_notification_def queue_add_def blank_notification_def
      row_channel_def story_meta_def)

lemma story_push_loop:
  assumes "\<And>n. queue_ok e n"
  shows "\<exists>ns. map n_device_id ns = map d_id ds \<and> (\<forall>n\<in>set ns. row_channel n = PUSH) \<and>
    for_each (story_push e i) ds w = (Inr (), w\<lparr>notifications := notifications w @ ns,
      queue := queue w @ map (\<lambda>n. \<lparr>j_job = PushNotificationJob (n_id n), j_delay = 0, j_jobId = None\<rparr>) ns\<rparr>)"
proof (induction ds arbitrary: w)
  case Nil
  then show ?case by simp
next
  case (Cons d ds)
  obtain n where n: "n_device_id n = d_id d" "row_channel n = PUSH"
    "story_push e i d w = (Inr (), w\<lparr>notifications := notifications w @ [n],
      queue := queue w @ [\<lparr>j_job = PushNotificationJob (n_id n), j_delay = 0, j_jobId = None\<rparr>]\<rparr>)"
    using story_push_ok [OF assms] by blast
  let ?w = "w\<lparr>notifications := notifications w @ [n],
      queue := queue w @ [\<lparr>j_job = PushNotificationJob (n_id n), j_delay = 0, j_jobId = None\<rparr>]\<rparr>"
  obtain ns where "map n_device_id ns = map d_id ds" "\<forall>n\<in>set ns. row_channel n = PUSH"
    "for_each (story_push e i) ds ?w = (Inr (), ?w\<lparr>notifications := notifications ?w @ ns,
      queue := queue ?w @ map (\<lambda>n. \<lparr>j_job = PushNotificationJob (n_id n), j_delay = 0, j_jobId = None\<rparr>) ns\<rparr>)"
    using Cons.IH by blast
  then show ?case using n by (intro exI [of _ "n # ns"]) simp
qed

lemma story_email_frame:
  "alerts (snd (story_email e i s g u w)) = alerts w \<and> queue (snd (story_email e i s g u w)) = queue w \<and>
   fst (story_email e i s g u w) = Inr () \<and>
   (\<exists>ms. notifications (snd (story_email e i s g u w)) = notifications w @ ms \<and> (\<forall>m\<in>set ms. row_channel m = EMAIL))"
proof -
  obtain b w' where m: "sendPetIsHomeEmail e u \<lparr>ph_alertId = i, ph_tagId = s_tagId s, ph_petName = s_petName s,
           ph_petPhotoUrl = s_petPhotoUrl s, ph_thankYouMessage = s_thankYouMessage s\<rparr> w = (b, w')" by fastforce
  obtain mb where "w' = w\<lparr>mailbox := mb\<rparr>" using email_frames(2) [OF m] by blast
  then have "alerts w' = alerts w" "queue w' = queue w" "notifications w' = notifications w" by simp_all
  then show ?thesis using m
    by (simp add: story_email_def insert_notification_def row_channel_def mail_outcome_def story_meta_def
        split: option.split)
qed

lemma story_email_loop:
  "alerts (snd (for_each (story_email e i s g) us w)) = alerts w \<and>
   queue (snd (for_each (story_email e i s g) us w)) = queue w \<and> fst (for_each (story_email e i s g) us w) = Inr () \<and>
   (\<exists>ms. notifications (snd (for_each (story_email e i s g) us w)) = notifications w @ ms \<and>
      (\<forall>m\<in>set ms. row_channel m = EMAIL))"
proof (induction us arbitrary: w)
  case (Cons u us)
  obtain r v where f: "story_email e i s g u w = (r, v)" by fastforce
  with story_email_frame [of e i s g u w] obtain ms where v: "r = Inr ()" "alerts v = alerts w" "queue v = queue w"
    "notifications v = notifications w @ ms" "\<forall>m\<in>set ms. row_channel m = EMAIL" by auto
  obtain ms' where "notifications (snd (for_each (story_email e i s g) us v)) = notifications v @ ms'"
    "\<forall>m\<in>set ms'. row_channel m = EMAIL" using Cons.IH [of v] by blast
  then have "\<exists>ms. notifications (snd (for_each (story_email e i s g) us v)) = notifications w @ ms \<and>
      (\<forall>m\<in>set ms. row_channel m = EMAIL)"
    by (intro exI [of _ "ms @ ms'"]) (use v in auto)
  then show ?case using Cons.IH [of v] f v by simp
qed simp

lemma story_run_claims:
  assumes "story_run e i c s w = (r, w')"
  shows "alerts w' = update_where (\<lambda>a. a_id a = i \<and> a_success_story_sent_at a = None)
    (\<lambda>a. a\<lparr>a_success_story_sent_at := Some (now e), a_updated_at := now e\<rparr>) (alerts w)"
proof -
  let ?claimed = "w\<lparr>alerts := update_where (\<lambda>a. a_id a = i \<and> a_success_story_sent_at a = None)
    (\<lambda>a. a\<lparr>a_success_story_sent_at := Some (now e), a_updated_at := now e\<rparr>) (alerts w)\<rparr>"
  have push: "alerts (snd (for_each (story_push e i) ds v)) = alerts v" for ds v
  proof (induction ds arbitrary: v)
    case (Cons d ds)
    obtain r v1 where f: "story_push e i d v = (r, v1)" by fastforce
    then have "alerts v1 = alerts v"
      by (auto simp: story_push_def Let_def insert_notification_def queue_add_def split: if_splits)
    then show ?case using Cons f by (cases r) auto
  qed simp
  have "alerts (snd (and_then (for_each (story_push e i) ds ?claimed)
      (\<lambda>w2. for_each (story_email e i s (any_device us w2)) us w2))) = alerts ?claimed" for ds us
    using push [of ds ?claimed] story_email_loop
    by (cases "for_each (story_push e i) ds ?claimed"; cases "fst (for_each (story_push e i) ds ?claimed)")
      (auto simp: and_then_def)
  then have "alerts (snd (story_run e i c s w)) = alerts ?claimed"
    by (simp add: story_run_def Let_def)
  then show ?thesis using assms by simp
qed

lemma story_run_idle:
  assumes "\<And>a. a \<in> set (alerts w) \<Longrightarrow> a_id a = i \<Longrightarrow> a_success_story_sent_at a \<noteq> None"
  shows "story_run e i c s w = (Inr (), w)"
proof -
  have "count_where (\<lambda>a. a_id a = i \<and> a_success_story_sent_at a = None) (alerts w) = 0"
    using assms by (auto simp: count_where_0)
  moreover have "update_where (\<lambda>a. a_id a = i \<and> a_success_story_sent_at a = None) f (alerts w) = alerts w" for f
    unfolding update_where_def
  proof (rule map_idI)
    fix a assume "a \<in> set (alerts w)"
    then show "(if a_id a = i \<and> a_success_story_sent_at a = None then f a else a) = a"
      using assms [of a] by auto
  qed
  ultimately show ?thesis by (simp add: story_run_def Let_def)
qed

text \<open>
  The success story goes out at most once: after one worker has run past its claim, running
  the job again changes nothing, and neither does a second worker that had already passed the
  checks on the old state with whatever snapshot and creator it had read.
\<close>

theorem success_story_once:
  assumes "story_run e i c s w = (r, w')"
  shows "story_run e2 i c2 s2 w' = (Inr (), w') \<and> processSuccessStory e2 i w' = (Inr (), w')"
proof -
  have claimed: "a_success_story_sent_at a \<noteq> None" if a: "a \<in> set (alerts w')" and ai: "a_id a = i" for a
  proof -
    obtain b where b: "a = (if a_id b = i \<and> a_success_story_sent_at b = None
        then b\<lparr>a_success_story_sent_at := Some (now e), a_updated_at := now e\<rparr> else b)"
      using a unfolding story_run_claims [OF assms] set_update_where by blast
    show ?thesis
    proof (cases "a_id b = i \<and> a_success_story_sent_at b = None")
      case True
      then show ?thesis using b by simp
    next
      case False
      then have "a = b" using b by (simp only: if_False)
      then show ?thesis using False ai by simp
    qed
  qed
  have "story_run e2 i c2 s2 w' = (Inr (), w')" for c2 s2
    by (rule story_run_idle) (use claimed in blast)
  moreover have "find_alert i w' = Some a \<Longrightarrow> a_success_story_sent_at a \<noteq> None" for a
    using claimed by (auto simp: find_alert_def dest: find_row_Some)
  ultimately show ?thesis
    by (auto simp: processSuccessStory_def story_check_def split: option.splits)
qed

definition demo_snapshot :: snapshot_row where
  "demo_snapshot = \<lparr>s_id = 1, s_tagId = ''PET7K9X2A'', s_alertId = 41, s_petName = ''Bella'', s_petPhotoUrl = None,
     s_thankYouMessage = None, s_resolvedAt = 0, s_neighboursNotified = None, s_sightingsReported = 1,
     s_expiresAt = ms_per_day\<rparr>"

definition demo_story :: world where
  "demo_story = demo_town\<lparr>snapshots := [demo_snapshot],
     sightings := [demo_sighting]\<rparr>"

theorem success_story_once_witness:
  "queue (snd (story_run (demo_env 5) 41 7 demo_snapshot demo_story)) \<noteq> [] \<and>
   processSuccessStory (demo_env 6) 41 (snd (story_run (demo_env 5) 41 7 demo_snapshot demo_story)) =
     (Inr (), snd (story_run (demo_env 5) 41 7 demo_snapshot demo_story))"
proof -
  obtain r w' where run: "story_run (demo_env 5) 41 7 demo_snapshot demo_story = (r, w')" by fastforce
  have "queue (snd (story_run (demo_env 5) 41 7 demo_snapshot demo_story)) \<noteq> []" by code_simp
  then show ?thesis using success_story_once [OF run] run by simp
qed

text \<open>
  Who hears the good news: with the queue available and an unclaimed alert, the fan-out creates
  exactly one push row and one push job for every push-enabled device of every helper (a
  user whom a notification of the alert reached, or who reported a sighting), none for the owner;
  every other row it adds is the record of an e-mail, and it completes normally.
\<close>

theorem success_story_reach:
  assumes "\<And>n. queue_ok e n" and "story_check i w = Some (c, s)"
  shows "\<exists>ns ms w'. processSuccessStory e i w = (Inr (), w') \<and>
    notifications w' = notifications w @ ns @ ms \<and>
    (\<forall>n\<in>set ns. row_channel n = PUSH) \<and> (\<forall>m\<in>set ms. row_channel m = EMAIL) \<and>
    map n_device_id ns = map d_id (story_targets i c w) \<and>
    queue w' = queue w @ map (\<lambda>n. \<lparr>j_job = PushNotificationJob (n_id n), j_delay = 0, j_jobId = None\<rparr>) ns \<and>
    (\<forall>d. d \<in> set (story_targets i c w) \<longleftrightarrow> d \<in> set (devices w) \<and> d_push_token d \<noteq> None \<and> d_push_enabled d \<and>
       d_user_id d \<noteq> c \<and> helper_of i w (d_user_id d))"
proof -
  obtain a where a: "find_alert i w = Some a" "a_success_story_sent_at a = None"
    using assms(2) by (auto simp: story_check_def split: option.splits if_splits)
  define w1 where "w1 = w\<lparr>alerts := update_where (\<lambda>a. a_id a = i \<and> a_success_story_sent_at a = None)
    (\<lambda>a. a\<lparr>a_success_story_sent_at := Some (now e), a_updated_at := now e\<rparr>) (alerts w)\<rparr>"
  have claim: "count_where (\<lambda>a. a_id a = i \<and> a_success_story_sent_at a = None) (alerts w) \<noteq> 0"
    using a unfolding find_alert_def count_where_0 by (meson find_row_Some)
  have same: "story_recipients i c w1 = story_recipients i c w" "devices w1 = devices w" "queue w1 = queue w"
    "notifications w1 = notifications w"
    by (simp_all add: w1_def story_recipients_def delivered_rows_def notified_user_def find_device_def)
  have targets: "d \<in> set (story_targets i c w) \<longleftrightarrow> d \<in> set (devices w) \<and> d_push_token d \<noteq> None \<and> d_push_enabled d \<and>
       d_user_id d \<noteq> c \<and> helper_of i w (d_user_id d)" for d
    using story_recipients_props [of i c w] by (auto simp: story_targets_def)
  have run: "processSuccessStory e i w = story_run e i c s w"
    using assms(2) by (simp add: processSuccessStory_def)
  obtain ns where ns: "map n_device_id ns = map d_id (story_targets i c w)" "\<forall>n\<in>set ns. row_channel n = PUSH"
    "for_each (story_push e i) (story_targets i c w) w1 = (Inr (), w1\<lparr>notifications := notifications w1 @ ns,
      queue := queue w1 @ map (\<lambda>n. \<lparr>j_job = PushNotificationJob (n_id n), j_delay = 0, j_jobId = None\<rparr>) ns\<rparr>)"
    using story_push_loop [OF assms(1)] by blast
  show ?thesis
  proof (cases "story_recipients i c w = []")
    case True
    then have "story_targets i c w = []" by (simp add: story_targets_def)
    then have none: "ns = []" using ns(1) by simp
    have run1: "story_run e i c s w = (Inr (), w1)"
      using True claim same by (simp add: story_run_def Let_def w1_def)
    show ?thesis
      by (intro exI [of _ ns] exI [of _ "[]"] exI [of _ w1] conjI allI) (use run run1 none same targets ns(1) in simp_all)
  next
    case False
    let ?w2 = "w1\<lparr>notifications := notifications w1 @ ns,
      queue := queue w1 @ map (\<lambda>n. \<lparr>j_job = PushNotificationJob (n_id n), j_delay = 0, j_jobId = None\<rparr>) ns\<rparr>"
    let ?mail = "for_each (story_email e i s (any_device (story_recipients i c w) ?w2)) (story_recipients i c w) ?w2"
    have run1: "story_run e i c s w = ?mail"
      using False claim same ns(3) unfolding story_targets_def
      by (simp add: story_run_def Let_def w1_def [symmetric] and_then_def)
    obtain ms where mail: "fst ?mail = Inr ()" "queue (snd ?mail) = queue ?w2"
      "notifications (snd ?mail) = notifications ?w2 @ ms" "\<forall>m\<in>set ms. row_channel m = EMAIL"
      using story_email_loop by blast
    show ?thesis
      by (intro exI [of _ ns] exI [of _ ms] exI [of _ "snd ?mail"] conjI allI)
        (use run run1 mail same targets ns(1,2) in \<open>simp_all add: prod_eq_iff\<close>)
  qed
qed

theorem success_story_reach_witness:
  "\<exists>w'. processSuccessStory (demo_env 5) 41 demo_story = (Inr (), w') \<and> length (queue w') = 1"
proof -
  have chk: "story_check 41 demo_story = Some (7, demo_snapshot)"
    by (simp add: story_check_def demo_story_def demo_town_def demo_world_def find_alert_def alert_snapshot_def
        demo_alert_def demo_snapshot_def)
  have q: "\<And>n. queue_ok (demo_env 5) n" by (simp add: demo_env_def)
  have "length (story_targets 41 7 demo_story) = 1" "queue demo_story = []" by code_simp+
  then show ?thesis using success_story_reach [OF q chk] by (metis append_Nil length_map)
qed


section \<open>One push\<close>

lemma other_store_frames [simp]:
  "find_device j (update_notification i f w) = find_device j w"
  "find_notification j (update_device i g w) = find_notification j w"
  "find_device j (emit_audit x y w) = find_device j w"
  "find_notification j (emit_audit x y w) = find_notification j w"
  "alerts (update_notification i f w) = alerts w"
  "alerts (update_device i g w) = alerts w"
  "alerts (emit_audit x y w) = alerts w"
  by (simp_all add: find_device_def find_notification_def update_notification_def update_device_def emit_audit_def)

lemma find_put [simp]:
  assumes "\<And>r. d_id (g r) = d_id r" and "\<And>r. n_id (f r) = n_id r"
  shows "find_device j (update_device i g w) = (if j = i then map_option g (find_device i w) else find_device j w)"
    and "find_notification j (update_notification i f w) =
      (if j = i then map_option f (find_notification i w) else find_notification j w)"
  using assms by (simp_all add: find_device_def update_device_def find_notification_def update_notification_def find_row_put)

lemma failed_row_props [simp]: "n_id (failed_row e r n) = n_id n" "n_status (failed_row e r n) = FAILED"
  by (simp_all add: failed_row_def)

text \<open>
  The outcome of a push job whose device holds a token: the row ends \<open>SENT\<close> exactly when the
  provider of the device's platform accepted the message and \<open>FAILED\<close> otherwise; the device loses its
  token exactly when the provider reported the token invalid; the job is retried (the handler raises)
  exactly on a failure that is neither that nor a provider that is not set up; and no other
  notification, device or alert changes.
\<close>

theorem push_outcome:
  assumes "find_notification i w = Some n" and "find_device (n_device_id n) w = Some d"
    and "find_alert (n_alert_id n) w = Some a" and "truthy_str (d_push_token d)"
    and "r = send_push e (d_platform d) (the (d_push_token d)) (buildPushPayload n a w)"
    and "processPushNotification e i w = (res, w')"
  shows "map_option n_status (find_notification i w') = Some (if sr_success r then SENT else FAILED) \<and>
    map_option d_push_token (find_device (n_device_id n) w') =
      Some (if \<not> sr_success r \<and> sr_invalidToken r then None else d_push_token d) \<and>
    (res = Inr () \<longleftrightarrow> sr_success r \<or> sr_invalidToken r \<or> defaulted [] (sr_error r) \<in> set TERMINAL_PUSH_ERRORS) \<and>
    (\<forall>j. j \<noteq> i \<longrightarrow> find_notification j w' = find_notification j w) \<and>
    (\<forall>j. j \<noteq> n_device_id n \<longrightarrow> find_device j w' = find_device j w) \<and> alerts w' = alerts w"
  using assms by (auto simp: processPushNotification_def push_catch_def Let_def split: if_splits)

definition demo_sent :: world where
  "demo_sent = snd (story_run (demo_env 5) 41 7 demo_snapshot demo_story)"

definition dead_token_env :: env where
  "dead_token_env = (demo_env 6)\<lparr>fcm_send := (\<lambda>_ _. \<lparr>sr_success = False, sr_messageId = None,
     sr_error = Some ''INVALID_TOKEN'', sr_invalidToken = True\<rparr>)\<rparr>"

theorem push_outcome_witness:
  "\<exists>w'. processPushNotification dead_token_env 1 demo_sent = (Inr (), w') \<and>
     map_option n_status (find_notification 1 w') = Some FAILED \<and>
     map_option d_push_token (find_device 11 w') = Some None"
proof -
  obtain res w' where run: "processPushNotification dead_token_env 1 demo_sent = (res, w')" by fastforce
  let ?n = "the (find_notification 1 demo_sent)"
  let ?d = "the (find_device (n_device_id ?n) demo_sent)"
  let ?a = "the (find_alert (n_alert_id ?n) demo_sent)"
  have n: "find_notification 1 demo_sent = Some ?n" and d: "find_device (n_device_id ?n) demo_sent = Some ?d"
    and a: "find_alert (n_alert_id ?n) demo_sent = Some ?a" and tok: "truthy_str (d_push_token ?d)"
    and dev: "n_device_id ?n = 11"
    by code_simp+
  have "\<not> sr_success (send_push dead_token_env (d_platform ?d) (the (d_push_token ?d)) (buildPushPayload ?n ?a demo_sent))"
    "sr_invalidToken (send_push dead_token_env (d_platform ?d) (the (d_push_token ?d)) (buildPushPayload ?n ?a demo_sent))"
    by code_simp+
  then show ?thesis using push_outcome [OF n d a tok refl run] run dev by simp
qed

end
