(* ===== verification/Worker.thy ===== *)
theory Worker
  imports NotificationProcessor
begin

text \<open>
  The queue worker of \<open>src/notification/notification-queue.processor.ts\<close> one statement at a time. A
  worker holds what its handler still has to do; one step of it performs one database statement,
  one call of the queue or one message of a mail or push provider, at the instant and in the state
  of that moment. Between two steps of one worker anything else may happen: no handler opens a
  transaction. A worker that runs without interruption computes what the handlers of
  \<open>NotificationProcessor\<close> compute (\<open>solo_processAlertNotifications\<close>, \<open>solo_processSuccessStory\<close>,
  \<open>solo_processPushNotification\<close>).

  Reads that one statement of the source makes at once (\<open>Promise.all\<close>, nested selects) and the
  queries of one call of the location service are one step.
\<close>

section \<open>Workers\<close>

text \<open>What a wave has left once its recipients are known (lines 190 to 300 of the source).\<close>

datatype wave_task =
    Track exclusion_reason jskey
  | Exclude exclusion_reason id
  | Raise exn
  | Seen id device_match "id list"
  | Cap id device_match "id list"
  | PushRow device_match id
  | PushQueue id
  | MailSeen id device_match
  | MailOpt device_match
  | MailSend id device_match
  | MailRow device_match bool

datatype push_task =
    MarkFailed string
  | MarkSent send_result
  | ClearToken id
  | Report string audit_payload

text \<open>
  A worker of each kind of job, phase by phase. A story worker past \<open>StoryClaim\<close> holds the claim of
  its alert.
\<close>

datatype worker =
    WaveBegin id "confidence option"
  | WaveFind alert_row confidence
  | WaveDevices alert_row confidence "device_match list"
  | Waving alert_row confidence "wave_task list"
  | StoryBegin id
  | StoryClaim id id snapshot_row
  | StoryRecipients id id snapshot_row
  | StoryDevices id snapshot_row "id list"
  | StoryPush id snapshot_row "id list" "id list"
  | StoryQueue id snapshot_row "id list" id "id list"
  | StoryMail id snapshot_row "(id \<times> id) list" "id list"
  | StorySend id snapshot_row "(id \<times> id) list" id "id list"
  | StoryRecord id snapshot_row "(id \<times> id) list" id bool "id list"
  | PushBegin id
  | PushSend id notification_row device_row push_payload
  | PushWrites id "push_task list" "exn + unit"
  | Finished "exn + unit"

fun worker_of :: "job \<Rightarrow> worker" where
  "worker_of (AlertNotificationJob i jw) = WaveBegin i jw"
| "worker_of (PushNotificationJob n) = PushBegin n"
| "worker_of (SuccessStoryJob i) = StoryBegin i"

section \<open>The wave\<close>

text \<open>
  The tasks for one matched user: the decisions that need no statement (no device to push to, quiet
  hours) are taken from what was read before the loop.
\<close>

definition user_tasks ::
  "bool \<Rightarrow> confidence \<Rightarrow> (jskey \<times> id list) list \<Rightarrow> jskey \<times> device_match \<Rightarrow> wave_task list" where
  "user_tasks quiet wave devicesByUser um =
     (case um of (userId, match) \<Rightarrow>
        let targets = defaulted [] (map_of devicesByUser userId) in
        if targets = [] then
          (if truthy_str (dm_pushToken match) then [Track PUSH_TOKEN_MISSING (dm_deviceId match)] else [])
        else if quiet \<and> wave \<noteq> HIGH then map (Exclude QUIET_HOURS) targets
        else case key_int userId of None \<Rightarrow> [Raise nan_id] | Some uid \<Rightarrow> [Seen uid match targets])"

definition mail_tasks :: "jskey \<times> device_match \<Rightarrow> wave_task list" where
  "mail_tasks um =
     (case um of (userId, match) \<Rightarrow>
        case key_int userId of None \<Rightarrow> [Raise nan_id] | Some uid \<Rightarrow> [MailSeen uid match])"

definition tokenless_tasks :: "device_match \<Rightarrow> wave_task list" where
  "tokenless_tasks match =
     (if \<not> truthy_str (dm_pushToken match) then [Track PUSH_TOKEN_MISSING (dm_deviceId match)] else [])"

definition wave_tasks ::
  "bool \<Rightarrow> confidence \<Rightarrow> device_match list \<Rightarrow> (jskey \<times> id list) list \<Rightarrow> wave_task list" where
  "wave_tasks quiet wave deviceMatches devicesByUser =
     (let userMatches = first_per_user deviceMatches in
      concat (map tokenless_tasks deviceMatches) @
      concat (map (user_tasks quiet wave devicesByUser) userMatches) @
      (if wave = HIGH then concat (map mail_tasks userMatches) else []))"

text \<open>The row a wave inserts for one device (\<open>prisma.notification.create\<close>).\<close>

definition wave_push_row :: "env \<Rightarrow> id \<Rightarrow> device_match \<Rightarrow> id \<Rightarrow> world \<Rightarrow> notification_row" where
  "wave_push_row e alertId match deviceId w =
     (blank_notification e alertId deviceId (dm_confidence match) (source_name (dm_matchReason match)) w)
       \<lparr>n_distance_km := Some (dm_distanceKm match)\<rparr>"

definition alert_mail :: "alert_row \<Rightarrow> device_match \<Rightarrow> alert_email_payload" where
  "alert_mail alert match =
     \<lparr>ae_petName = a_pet_name alert, ae_petSpecies = species_name (a_pet_species alert),
      ae_petDescription = a_pet_description alert,
      ae_petPhotoUrl = (case a_pet_photos alert of [] \<Rightarrow> None | p # _ \<Rightarrow> Some p),
      ae_locationAddress = a_location_address alert,
      ae_distanceKm = Some (dm_distanceKm match), ae_alertId = a_id alert\<rparr>"

text \<open>One task: the tasks that take its place, or the error it raises, and the state after it.\<close>

fun do_task :: "env \<Rightarrow> alert_row \<Rightarrow> confidence \<Rightarrow> wave_task \<Rightarrow> world \<Rightarrow> (exn + wave_task list) \<times> world" where
  "do_task e a wave (Track reason d) w =
     (case track e (a_id a) reason d w of (Inl err, w') \<Rightarrow> (Inl err, w') | (Inr _, w') \<Rightarrow> (Inr [], w'))"
| "do_task e a wave (Exclude reason d) w = (Inr [], trackExclusion e (a_id a) d reason w)"
| "do_task e a wave (Raise err) w = (Inl err, w)"
| "do_task e a wave (Seen uid match targets) w =
     (Inr (if hasBeenNotified (a_id a) uid PUSH w then map (Exclude ALREADY_NOTIFIED) targets
           else [Cap uid match targets]), w)"
| "do_task e a wave (Cap uid match targets) w =
     (Inr (if isOverDailyCap e uid wave w then map (Exclude DAILY_CAP) targets
           else map (PushRow match) targets), w)"
| "do_task e a wave (PushRow match d) w =
     (let n = wave_push_row e (a_id a) match d w in (Inr [PushQueue (n_id n)], insert_notification n w))"
| "do_task e a wave (PushQueue i) w =
     (case queue_add e (PushNotificationJob i) 0 None w of
        None \<Rightarrow> (Inl (Error ''queue unavailable''), w)
      | Some w' \<Rightarrow> (Inr [], w'))"
| "do_task e a wave (MailSeen uid match) w =
     (Inr (if hasBeenNotified (a_id a) uid EMAIL w then [] else [MailOpt match]), w)"
| "do_task e a wave (MailOpt match) w =
     (Inr (case key_int (dm_userId match) of
             None \<Rightarrow> []
           | Some u \<Rightarrow> if isOptedIn u w then [MailSend u match] else []), w)"
| "do_task e a wave (MailSend u match) w =
     (case sendAlertEmail e u (alert_mail a match) w of (sent, w') \<Rightarrow> (Inr [MailRow match sent], w'))"
| "do_task e a wave (MailRow match sent) w = (Inr [], recordEmailNotification e (a_id a) match sent w)"

section \<open>The success story\<close>

definition claim_story :: "env \<Rightarrow> id \<Rightarrow> world \<Rightarrow> world" where
  "claim_story e alertId w =
     w\<lparr>alerts := update_where (\<lambda>a. a_id a = alertId \<and> a_success_story_sent_at a = None)
        (\<lambda>a. a\<lparr>a_success_story_sent_at := Some (now e), a_updated_at := now e\<rparr>) (alerts w)\<rparr>"

definition story_push_row :: "env \<Rightarrow> id \<Rightarrow> id \<Rightarrow> world \<Rightarrow> notification_row" where
  "story_push_row e alertId d w =
     (blank_notification e alertId d HIGH SUCCESS_STORY_MATCH_REASON w)\<lparr>n_meta := Some (story_meta None)\<rparr>"

definition story_mail_row :: "env \<Rightarrow> id \<Rightarrow> id \<Rightarrow> bool \<Rightarrow> world \<Rightarrow> notification_row" where
  "story_mail_row e alertId d sent w =
     mail_outcome e sent ''EMAIL_NOT_SENT''
       ((blank_notification e alertId d HIGH SUCCESS_STORY_MATCH_REASON w)
          \<lparr>n_meta := Some (story_meta (Some ''EMAIL''))\<rparr>)"

definition pushable_devices :: "id list \<Rightarrow> world \<Rightarrow> device_row list" where
  "pushable_devices us w =
     filter (\<lambda>d. d_user_id d \<in> set us \<and> d_push_token d \<noteq> None \<and> d_push_enabled d) (devices w)"

definition story_mail :: "id \<Rightarrow> snapshot_row \<Rightarrow> pet_is_home_payload" where
  "story_mail alertId s =
     \<lparr>ph_alertId = alertId, ph_tagId = s_tagId s, ph_petName = s_petName s,
      ph_petPhotoUrl = s_petPhotoUrl s, ph_thankYouMessage = s_thankYouMessage s\<rparr>"

section \<open>The push\<close>

fun do_push_task :: "env \<Rightarrow> id \<Rightarrow> push_task \<Rightarrow> world \<Rightarrow> world" where
  "do_push_task e i (MarkFailed reason) w = update_notification i (failed_row e reason) w"
| "do_push_task e i (MarkSent r) w =
     update_notification i (\<lambda>n. n\<lparr>n_status := SENT, n_sent_at := Some (now e), n_push_message_id :=
       (case sr_messageId r of None \<Rightarrow> n_push_message_id n | Some m \<Rightarrow> Some m)\<rparr>) w"
| "do_push_task e i (ClearToken d) w =
     update_device d (\<lambda>d. d\<lparr>d_push_token := None, d_push_token_updated_at := Some (now e), d_updated_at := now e\<rparr>) w"
| "do_push_task e i (Report channel payload) w = emit_audit channel payload w"

text \<open>What follows the provider's answer, and whether the handler raises at the end.\<close>

definition after_send :: "notification_row \<Rightarrow> device_row \<Rightarrow> send_result \<Rightarrow> push_task list \<times> (exn + unit)" where
  "after_send n d r =
     (if sr_success r then ([MarkSent r, Report ''audit.notification.sent'' (sent_audit n d)], Inr ())
      else
        let writes = [MarkFailed (error_text r)] @ (if sr_invalidToken r then [ClearToken (n_device_id n)] else []) @
                     [Report ''audit.notification.failed'' (failed_audit n d r)]
        in if sr_invalidToken r \<or> defaulted [] (sr_error r) \<in> set TERMINAL_PUSH_ERRORS then (writes, Inr ())
           else (writes @ [MarkFailed (push_failed_message r)], Inl (Error (push_failed_message r))))"

section \<open>One step of a worker\<close>

fun worker_next :: "env \<Rightarrow> worker \<Rightarrow> world \<Rightarrow> worker \<times> world" where
  "worker_next e (WaveBegin i jw) w =
     (case find_alert i w of
        None \<Rightarrow> (Finished (Inr ()), w)
      | Some a \<Rightarrow> if a_status a \<noteq> ACTIVE then (Finished (Inr ()), w) else (WaveFind a (defaulted HIGH jw), w))"
| "worker_next e (WaveFind a wave) w = (WaveDevices a wave (wave_matches e a wave w), w)"
| "worker_next e (WaveDevices a wave ms) w =
     (Waving a wave (wave_tasks (isQuietHours e) wave ms
        (devices_by_user (finite_ids (map_keys (first_per_user ms))) w)), w)"
| "worker_next e (Waving a wave []) w = (Finished (Inr ()), w)"
| "worker_next e (Waving a wave (t # ts)) w =
     (case do_task e a wave t w of
        (Inl err, w') \<Rightarrow> (Finished (Inl err), w')
      | (Inr us, w') \<Rightarrow> (Waving a wave (us @ ts), w'))"
| "worker_next e (StoryBegin i) w =
     (case story_check i w of
        None \<Rightarrow> (Finished (Inr ()), w)
      | Some (creatorId, s) \<Rightarrow> (StoryClaim i creatorId s, w))"
| "worker_next e (StoryClaim i creatorId s) w =
     (let claim = count_where (\<lambda>a. a_id a = i \<and> a_success_story_sent_at a = None) (alerts w)
      in (if claim = 0 then Finished (Inr ()) else StoryRecipients i creatorId s, claim_story e i w))"
| "worker_next e (StoryRecipients i creatorId s) w =
     (let us = story_recipients i creatorId w
      in (if us = [] then Finished (Inr ()) else StoryDevices i s us, w))"
| "worker_next e (StoryDevices i s us) w = (StoryPush i s us (map d_id (pushable_devices us w)), w)"
| "worker_next e (StoryPush i s us (d # ds)) w =
     (let n = story_push_row e i d w in (StoryQueue i s us (n_id n) ds, insert_notification n w))"
| "worker_next e (StoryQueue i s us n ds) w =
     (case queue_add e (PushNotificationJob n) 0 None w of
        None \<Rightarrow> (Finished (Inl (Error ''queue unavailable'')), w)
      | Some w' \<Rightarrow> (StoryPush i s us ds, w'))"
| "worker_next e (StoryPush i s us []) w = (StoryMail i s (any_device us w) us, w)"
| "worker_next e (StoryMail i s g []) w = (Finished (Inr ()), w)"
| "worker_next e (StoryMail i s g (u # us)) w =
     (if isOptedIn u w then StorySend i s g u us else StoryMail i s g us, w)"
| "worker_next e (StorySend i s g u us) w =
     (case sendPetIsHomeEmail e u (story_mail i s) w of (sent, w') \<Rightarrow> (StoryRecord i s g u sent us, w'))"
| "worker_next e (StoryRecord i s g u sent us) w =
     (StoryMail i s g us,
      case map_of g u of None \<Rightarrow> w | Some d \<Rightarrow> insert_notification (story_mail_row e i d sent w) w)"
| "worker_next e (PushBegin i) w =
     (case find_notification i w of
        None \<Rightarrow> (Finished (Inr ()), w)
      | Some n \<Rightarrow>
          (case (find_device (n_device_id n) w, find_alert (n_alert_id n) w) of
             (Some d, Some a) \<Rightarrow>
               (if \<not> truthy_str (d_push_token d) then PushWrites i [MarkFailed ''PUSH_TOKEN_MISSING''] (Inr ())
                else PushSend i n d (buildPushPayload n a w), w)
           | _ \<Rightarrow> (PushWrites i [MarkFailed ''Cannot read properties of null'']
                    (Inl (TypeError ''Cannot read properties of null'')), w)))"
| "worker_next e (PushSend i n d payload) w =
     (case after_send n d (send_push e (d_platform d) (the (d_push_token d)) payload) of
        (writes, r) \<Rightarrow> (PushWrites i writes r, w))"
| "worker_next e (PushWrites i [] r) w = (Finished r, w)"
| "worker_next e (PushWrites i (t # ts) r) w = (PushWrites i ts r, do_push_task e i t w)"
| "worker_next e (Finished r) w = (Finished r, w)"

section \<open>A worker without interruption\<close>

inductive solo :: "env \<Rightarrow> worker \<times> world \<Rightarrow> worker \<times> world \<Rightarrow> bool" for e where
  solo_refl: "solo e c c"
| solo_next: "solo e (worker_next e (fst c) (snd c)) c' \<Longrightarrow> solo e c c'"

lemma solo_trans: "solo e a b \<Longrightarrow> solo e b c \<Longrightarrow> solo e a c"
  by (induction rule: solo.induct) (auto intro: solo_next)

lemma solo_step: "worker_next e k w = c \<Longrightarrow> solo e c c' \<Longrightarrow> solo e (k, w) c'"
  by (rule solo_next) simp

text \<open>
  \<open>performs e a wave ts f\<close>: in front of any other tasks, the tasks \<open>ts\<close> end like the function \<open>f\<close>,
  by an error or with the other tasks left.
\<close>

definition performs ::
  "env \<Rightarrow> alert_row \<Rightarrow> confidence \<Rightarrow> wave_task list \<Rightarrow> (world \<Rightarrow> (exn + unit) \<times> world) \<Rightarrow> bool" where
  "performs e a wave ts f \<longleftrightarrow> (\<forall>rest w. solo e (Waving a wave (ts @ rest), w)
     (case f w of (Inl err, w') \<Rightarrow> (Finished (Inl err), w') | (Inr _, w') \<Rightarrow> (Waving a wave rest, w')))"

lemma performs_nil: "performs e a wave [] (\<lambda>w. (Inr (), w))"
  by (simp add: performs_def solo_refl)

lemma performs_append:
  assumes "performs e a wave ts f" and "performs e a wave us g"
  shows "performs e a wave (ts @ us) (\<lambda>w. and_then (f w) g)"
  unfolding performs_def
proof (intro allI)
  fix rest w
  obtain r w' where f: "f w = (r, w')" by fastforce
  have first: "solo e (Waving a wave ((ts @ us) @ rest), w)
      (case r of Inl err \<Rightarrow> (Finished (Inl err), w') | Inr _ \<Rightarrow> (Waving a wave (us @ rest), w'))"
    using assms(1) [unfolded performs_def, rule_format, of "us @ rest" w] f by (cases r) auto
  show "solo e (Waving a wave ((ts @ us) @ rest), w)
     (case and_then (f w) g of (Inl err, w') \<Rightarrow> (Finished (Inl err), w') | (Inr _, w') \<Rightarrow> (Waving a wave rest, w'))"
  proof (cases r)
    case (Inl err)
    then show ?thesis using first f by (simp add: and_then_def)
  next
    case (Inr u)
    have "solo e (Waving a wave (us @ rest), w')
       (case g w' of (Inl err, w') \<Rightarrow> (Finished (Inl err), w') | (Inr _, w') \<Rightarrow> (Waving a wave rest, w'))"
      using assms(2) by (simp add: performs_def)
    with first Inr f show ?thesis by (auto simp: and_then_def intro: solo_trans)
  qed
qed

lemma for_each_as_then: "for_each f (x # xs) w = and_then (f x w) (for_each f xs)"
  by (simp add: and_then_def split: prod.split sum.split)

lemma performs_each:
  assumes "\<And>x. x \<in> set xs \<Longrightarrow> performs e a wave (g x) (f x)"
  shows "performs e a wave (concat (map g xs)) (for_each f xs)"
  using assms
proof (induction xs)
  case Nil
  have "for_each f [] = (\<lambda>w. (Inr (), w))" by (rule ext) simp
  then show ?case using performs_nil by simp
next
  case (Cons x xs)
  have "for_each f (x # xs) = (\<lambda>w. and_then (f x w) (for_each f xs))"
    by (rule ext) (rule for_each_as_then)
  then show ?case using Cons performs_append [of e a wave "g x" "f x"] by simp
qed

lemma performs_map:
  assumes "\<And>x. x \<in> set xs \<Longrightarrow> performs e a wave [t x] (f x)"
  shows "performs e a wave (map t xs) (for_each f xs)"
  using performs_each [of xs e a wave "\<lambda>x. [t x]" f] assms by (simp add: concat_map_singleton)

lemma performs_task:
  assumes "\<And>w. do_task e a wave t w =
     (case f w of (Inl err, w') \<Rightarrow> (Inl err, w') | (Inr _, w') \<Rightarrow> (Inr [], w'))"
  shows "performs e a wave [t] f"
  unfolding performs_def
proof (intro allI)
  fix rest w
  have "worker_next e (Waving a wave ([t] @ rest)) w =
     (case f w of (Inl err, w') \<Rightarrow> (Finished (Inl err), w') | (Inr _, w') \<Rightarrow> (Waving a wave rest, w'))"
    using assms [of w] by (cases "f w"; cases "fst (f w)") (auto split: sum.split)
  then show "solo e (Waving a wave ([t] @ rest), w)
     (case f w of (Inl err, w') \<Rightarrow> (Finished (Inl err), w') | (Inr _, w') \<Rightarrow> (Waving a wave rest, w'))"
    by (rule solo_step) (rule solo_refl)
qed

text \<open>A task that only looks, and goes on with the tasks \<open>us w\<close>.\<close>

lemma performs_look:
  assumes "\<And>w. do_task e a wave t w = (Inr (us w), w)"
    and "\<And>w. \<exists>f. performs e a wave (us w) f \<and> f w = g w"
  shows "performs e a wave [t] g"
  unfolding performs_def
proof (intro allI)
  fix rest w
  obtain f where f: "performs e a wave (us w) f" "f w = g w" using assms(2) by blast
  have "worker_next e (Waving a wave ([t] @ rest)) w = (Waving a wave (us w @ rest), w)"
    using assms(1) by simp
  then show "solo e (Waving a wave ([t] @ rest), w)
     (case g w of (Inl err, w') \<Rightarrow> (Finished (Inl err), w') | (Inr _, w') \<Rightarrow> (Waving a wave rest, w'))"
    by (rule solo_step) (use f(1) [unfolded performs_def, rule_format, of rest w] f(2) in simp)
qed

lemma performs_choice:
  assumes "\<And>w. do_task e a wave t w = (Inr (if b w then ts else us), w)"
    and "performs e a wave ts f" and "performs e a wave us g"
  shows "performs e a wave [t] (\<lambda>w. if b w then f w else g w)"
proof (rule performs_look [OF assms(1)])
  show "\<exists>h. performs e a wave (if b w then ts else us) h \<and> h w = (if b w then f w else g w)" for w
  proof (cases "b w")
    case True
    then show ?thesis using assms(2) by (intro exI [of _ f]) simp
  next
    case False
    then show ?thesis using assms(3) by (intro exI [of _ g]) simp
  qed
qed

lemma performs_track: "performs e a wave [Track reason d] (track e (a_id a) reason d)"
  by (rule performs_task) simp

lemma performs_exclude: "performs e a wave (map (Exclude reason) ds) (excludeAll e (a_id a) reason ds)"
proof -
  have "excludeAll e (a_id a) reason ds = for_each (\<lambda>d w. (Inr (), trackExclusion e (a_id a) d reason w)) ds"
    by (rule ext) (simp add: excludeAll_def)
  then show ?thesis by (auto intro!: performs_map performs_task)
qed

lemma performs_push_row: "performs e a wave [PushRow m d] (push_device e (a_id a) m d)"
  unfolding performs_def
proof (intro allI)
  fix rest w
  let ?n = "wave_push_row e (a_id a) m d w"
  have "worker_next e (Waving a wave ([PushRow m d] @ rest)) w =
      (Waving a wave (PushQueue (n_id ?n) # rest), insert_notification ?n w)"
    by (simp add: Let_def)
  moreover have "worker_next e (Waving a wave (PushQueue (n_id ?n) # rest)) (insert_notification ?n w) =
      (case push_device e (a_id a) m d w of (Inl err, w') \<Rightarrow> (Finished (Inl err), w') | (Inr _, w') \<Rightarrow> (Waving a wave rest, w'))"
    by (simp add: push_device_def wave_push_row_def Let_def split: option.split)
  ultimately show "solo e (Waving a wave ([PushRow m d] @ rest), w)
     (case push_device e (a_id a) m d w of (Inl err, w') \<Rightarrow> (Finished (Inl err), w') | (Inr _, w') \<Rightarrow> (Waving a wave rest, w'))"
    by (metis solo_step solo_refl)
qed


lemma performs_user:
  "performs e a wave (user_tasks (isQuietHours e) wave g um) (push_user e (a_id a) wave g um)"
proof -
  obtain u m where um: "um = (u, m)" by fastforce
  let ?ts = "defaulted [] (map_of g u)"
  have nil: "performs e a wave [] (push_user e (a_id a) wave g um)"
    if "\<And>w. push_user e (a_id a) wave g um w = (Inr (), w)"
    using performs_nil [of e a wave] that by (simp add: performs_def)
  have like: "performs e a wave ts (push_user e (a_id a) wave g um)"
    if "performs e a wave ts f" "\<And>w. push_user e (a_id a) wave g um w = f w" for ts f
    using that by (simp add: performs_def)
  have rows: "performs e a wave (map (PushRow m) ?ts) (for_each (push_device e (a_id a) m) ?ts)"
    by (rule performs_map) (rule performs_push_row)
  consider (none) "?ts = []" | (quiet) "?ts \<noteq> []" "isQuietHours e \<and> wave \<noteq> HIGH"
    | (nan) "?ts \<noteq> []" "\<not> (isQuietHours e \<and> wave \<noteq> HIGH)" "key_int u = None"
    | (ask) uid where "?ts \<noteq> []" "\<not> (isQuietHours e \<and> wave \<noteq> HIGH)" "key_int u = Some uid"
    by blast
  then show ?thesis
  proof cases
    case none
    then show ?thesis using nil like [OF performs_track]
      by (simp add: user_tasks_def push_user_def um Let_def)
  next
    case quiet
    then show ?thesis using like [OF performs_exclude]
      by (simp add: user_tasks_def push_user_def um Let_def)
  next
    case nan
    have "performs e a wave [Raise nan_id] (\<lambda>w. (Inl nan_id, w))" by (rule performs_task) simp
    moreover have "user_tasks (isQuietHours e) wave g um = [Raise nan_id]"
      using nan by (auto simp: user_tasks_def um)
    moreover have "push_user e (a_id a) wave g um w = (Inl nan_id, w)" for w
      using nan by (auto simp: push_user_def um)
    ultimately show ?thesis using like by simp
  next
    case ask
    have cap: "performs e a wave [Cap uid m ?ts] (\<lambda>w. if isOverDailyCap e uid wave w
        then excludeAll e (a_id a) DAILY_CAP ?ts w else for_each (push_device e (a_id a) m) ?ts w)"
      by (rule performs_choice [OF _ performs_exclude rows]) simp
    have "performs e a wave [Seen uid m ?ts] (\<lambda>w. if hasBeenNotified (a_id a) uid PUSH w
        then excludeAll e (a_id a) ALREADY_NOTIFIED ?ts w
        else if isOverDailyCap e uid wave w then excludeAll e (a_id a) DAILY_CAP ?ts w
        else for_each (push_device e (a_id a) m) ?ts w)"
      by (rule performs_choice [OF _ performs_exclude cap]) simp
    moreover have "user_tasks (isQuietHours e) wave g um = [Seen uid m ?ts]"
      using ask by (auto simp: user_tasks_def um)
    moreover have "push_user e (a_id a) wave g um w = (if hasBeenNotified (a_id a) uid PUSH w
        then excludeAll e (a_id a) ALREADY_NOTIFIED ?ts w
        else if isOverDailyCap e uid wave w then excludeAll e (a_id a) DAILY_CAP ?ts w
        else for_each (push_device e (a_id a) m) ?ts w)" for w
      using ask by (auto simp: push_user_def um)
    ultimately show ?thesis using like by simp
  qed
qed

lemma performs_mail: "performs e a wave (mail_tasks um) (email_user e a um)"
proof -
  obtain u m where um: "um = (u, m)" by fastforce
  have row: "performs e a wave [MailRow m sent] (\<lambda>w. (Inr (), recordEmailNotification e (a_id a) m sent w))" for sent
    by (rule performs_task) simp
  let ?send = "\<lambda>v w. case sendAlertEmail e v (alert_mail a m) w of
      (sent, w') \<Rightarrow> ((Inr (), recordEmailNotification e (a_id a) m sent w') :: (exn + unit) \<times> world)"
  have send: "performs e a wave [MailSend v m] (?send v)" for v
    unfolding performs_def
  proof (intro allI)
    fix rest w
    obtain sent w' where s: "sendAlertEmail e v (alert_mail a m) w = (sent, w')" by fastforce
    have 1: "worker_next e (Waving a wave ([MailSend v m] @ rest)) w = (Waving a wave ([MailRow m sent] @ rest), w')"
      using s by simp
    show "solo e (Waving a wave ([MailSend v m] @ rest), w)
       (case ?send v w of (Inl err, w') \<Rightarrow> (Finished (Inl err), w') | (Inr _, w') \<Rightarrow> (Waving a wave rest, w'))"
      by (rule solo_step [OF 1]) (use row [of sent, unfolded performs_def, rule_format, of rest w'] s in simp)
  qed
  let ?fall = "\<lambda>w. case sendFallbackEmail e a m w of (None, w') \<Rightarrow> ((Inr (), w') :: (exn + unit) \<times> world)
      | (Some sent, w') \<Rightarrow> (Inr (), recordEmailNotification e (a_id a) m sent w')"
  have fall: "performs e a wave [MailOpt m] ?fall"
  proof (rule performs_look)
    show "do_task e a wave (MailOpt m) w = (Inr (case key_int (dm_userId m) of
        None \<Rightarrow> [] | Some u \<Rightarrow> if isOptedIn u w then [MailSend u m] else []), w)" for w by simp
    show "\<exists>f. performs e a wave (case key_int (dm_userId m) of
        None \<Rightarrow> [] | Some u \<Rightarrow> if isOptedIn u w then [MailSend u m] else []) f \<and> f w = ?fall w" for w
    proof (cases "key_int (dm_userId m)")
      case None
      then show ?thesis
        by (intro exI [of _ "\<lambda>w. (Inr (), w)"]) (simp add: sendFallbackEmail_def performs_nil)
    next
      case (Some v)
      show ?thesis
      proof (cases "isOptedIn v w")
        case True
        then show ?thesis using Some send [of v]
          by (intro exI [of _ "?send v"])
            (auto simp: sendFallbackEmail_def alert_mail_def split: prod.split)
      next
        case False
        then show ?thesis using Some
          by (intro exI [of _ "\<lambda>w. (Inr (), w)"]) (simp add: sendFallbackEmail_def performs_nil)
      qed
    qed
  qed
  show ?thesis
  proof (cases "key_int u")
    case None
    have "performs e a wave [Raise nan_id] (\<lambda>w. (Inl nan_id, w))" by (rule performs_task) simp
    then show ?thesis using None by (simp add: mail_tasks_def email_user_def um performs_def)
  next
    case (Some uid)
    have "performs e a wave [MailSeen uid m] (email_user e a um)"
    proof (rule performs_look)
      show "do_task e a wave (MailSeen uid m) w =
        (Inr (if hasBeenNotified (a_id a) uid EMAIL w then [] else [MailOpt m]), w)" for w by simp
      show "\<exists>f. performs e a wave (if hasBeenNotified (a_id a) uid EMAIL w then [] else [MailOpt m]) f \<and>
          f w = email_user e a um w" for w
      proof (cases "hasBeenNotified (a_id a) uid EMAIL w")
        case True
        then show ?thesis using Some
          by (intro exI [of _ "\<lambda>w. (Inr (), w)"]) (simp add: email_user_def um performs_nil)
      next
        case False
        then show ?thesis using Some fall
          by (intro exI [of _ ?fall]) (simp add: email_user_def um)
      qed
    qed
    then show ?thesis using Some by (simp add: mail_tasks_def um)
  qed
qed

text \<open>The wave handler as it was defined in one piece.\<close>

lemma solo_processAlertNotifications:
  assumes "processAlertNotifications e i jw w = (r, w')"
  shows "solo e (WaveBegin i jw, w) (Finished r, w')"
proof (cases "\<exists>a. find_alert i w = Some a \<and> a_status a = ACTIVE")
  case False
  then have "worker_next e (WaveBegin i jw) w = (Finished (Inr ()), w)" and "(r, w') = (Inr (), w)"
    using assms by (auto simp: processAlertNotifications_def split: option.splits)
  then show ?thesis by (auto intro: solo_step solo_refl)
next
  case True
  then obtain a where a: "find_alert i w = Some a" "a_status a = ACTIVE" by blast
  then have i: "a_id a = i" by (auto simp: find_alert_def dest: find_row_Some)
  let ?wave = "defaulted HIGH jw"
  let ?ms = "wave_matches e a ?wave w"
  let ?us = "first_per_user ?ms"
  let ?g = "devices_by_user (finite_ids (map_keys ?us)) w"
  let ?f = "\<lambda>w. and_then (and_then (for_each (track_tokenless e i) ?ms w) (for_each (push_user e i ?wave ?g) ?us))
      (\<lambda>w. if ?wave = HIGH then for_each (email_user e a) ?us w else (Inr (), w))"
  have tokenless: "performs e a ?wave (tokenless_tasks m) (track_tokenless e i m)" for m
    using performs_track [of e a ?wave] performs_nil [of e a ?wave] i
    by (simp add: tokenless_tasks_def track_tokenless_def performs_def)
  have mails: "performs e a ?wave (if ?wave = HIGH then concat (map mail_tasks ?us) else [])
      (\<lambda>w. if ?wave = HIGH then for_each (email_user e a) ?us w else (Inr (), w))"
    using performs_each [of ?us e a ?wave mail_tasks, OF performs_mail] performs_nil by auto
  have "performs e a ?wave (wave_tasks (isQuietHours e) ?wave ?ms ?g) ?f"
    unfolding wave_tasks_def Let_def append_assoc [symmetric]
    by (intro performs_append performs_each tokenless mails performs_user [of e a, unfolded i])
  from this [unfolded performs_def, rule_format, of "[]" w]
  have run: "solo e (Waving a ?wave (wave_tasks (isQuietHours e) ?wave ?ms ?g), w)
      (case ?f w of (Inl err, w') \<Rightarrow> (Finished (Inl err), w') | (Inr _, w') \<Rightarrow> (Waving a ?wave [], w'))"
    by simp
  have f: "?f w = (r, w')" using assms a i by (simp add: processAlertNotifications_def Let_def)
  have fin: "solo e (Waving a ?wave [], w') (Finished (Inr ()), w')"
    by (rule solo_step [OF _ solo_refl]) simp
  have "solo e (Waving a ?wave (wave_tasks (isQuietHours e) ?wave ?ms ?g), w) (Finished r, w')"
    using run fin f solo_trans by (cases r) auto
  then have "solo e (WaveDevices a ?wave ?ms, w) (Finished r, w')"
    by (rule solo_step [rotated]) simp
  then have "solo e (WaveFind a ?wave, w) (Finished r, w')"
    by (rule solo_step [rotated]) simp
  then show ?thesis by (rule solo_step [rotated]) (simp add: a)
qed


text \<open>The success story.\<close>

lemma solo_story_pushes:
  "solo e (StoryPush i s us (map d_id ds @ rest), w)
     (case for_each (story_push e i) ds w of
        (Inl err, w') \<Rightarrow> (Finished (Inl err), w') | (Inr _, w') \<Rightarrow> (StoryPush i s us rest, w'))"
proof (induction ds arbitrary: w)
  case Nil
  show ?case by (simp add: solo_refl)
next
  case (Cons d ds)
  let ?n = "story_push_row e i (d_id d) w"
  have row: "worker_next e (StoryPush i s us (map d_id (d # ds) @ rest)) w =
      (StoryQueue i s us (n_id ?n) (map d_id ds @ rest), insert_notification ?n w)"
    by (simp add: Let_def)
  have add: "worker_next e (StoryQueue i s us (n_id ?n) (map d_id ds @ rest)) (insert_notification ?n w) =
      (case story_push e i d w of
         (Inl err, w') \<Rightarrow> (Finished (Inl err), w') | (Inr _, w') \<Rightarrow> (StoryPush i s us (map d_id ds @ rest), w'))"
    by (simp add: story_push_def story_push_row_def Let_def split: option.split)
  show ?case
  proof (cases "story_push e i d w")
    case (Pair r w')
    have "solo e (StoryQueue i s us (n_id ?n) (map d_id ds @ rest), insert_notification ?n w)
      (case for_each (story_push e i) (d # ds) w of
         (Inl err, w') \<Rightarrow> (Finished (Inl err), w') | (Inr _, w') \<Rightarrow> (StoryPush i s us rest, w'))"
      by (rule solo_step [OF add]) (use Pair Cons.IH [of w'] in \<open>cases r; simp add: solo_refl\<close>)
    then show ?thesis by (rule solo_step [OF row])
  qed
qed

lemma solo_story_mails:
  "solo e (StoryMail i s g (us @ rest), w)
     (case for_each (story_email e i s g) us w of
        (Inl err, w') \<Rightarrow> (Finished (Inl err), w') | (Inr _, w') \<Rightarrow> (StoryMail i s g rest, w'))"
proof (induction us arbitrary: w)
  case Nil
  show ?case by (simp add: solo_refl)
next
  case (Cons u us)
  show ?case
  proof (cases "isOptedIn u w")
    case False
    then show ?thesis using Cons.IH [of w]
      by (auto simp: story_email_def intro: solo_step)
  next
    case True
    obtain sent w1 where m: "sendPetIsHomeEmail e u (story_mail i s) w = (sent, w1)" by fastforce
    let ?w2 = "case map_of g u of None \<Rightarrow> w1 | Some d \<Rightarrow> insert_notification (story_mail_row e i d sent w1) w1"
    have one: "story_email e i s g u w = (Inr (), ?w2)"
      using True m by (simp add: story_email_def story_mail_def story_mail_row_def split: option.split)
    have 1: "worker_next e (StoryMail i s g ((u # us) @ rest)) w = (StorySend i s g u (us @ rest), w)"
      using True by simp
    have 2: "worker_next e (StorySend i s g u (us @ rest)) w = (StoryRecord i s g u sent (us @ rest), w1)"
      using m by simp
    have 3: "worker_next e (StoryRecord i s g u sent (us @ rest)) w1 = (StoryMail i s g (us @ rest), ?w2)"
      by simp
    show ?thesis
      by (rule solo_step [OF 1], rule solo_step [OF 2], rule solo_step [OF 3])
        (use Cons.IH [of ?w2] one in simp)
  qed
qed

lemma solo_story_tail:
  "solo e (StoryDevices i s us, w) (Finished (fst c), snd c)"
  if "c = and_then (for_each (story_push e i) (pushable_devices us w) w)
       (\<lambda>w2. for_each (story_email e i s (any_device us w2)) us w2)"
proof -
  obtain r w1 where p: "for_each (story_push e i) (pushable_devices us w) w = (r, w1)" by fastforce
  have 1: "worker_next e (StoryDevices i s us) w = (StoryPush i s us (map d_id (pushable_devices us w) @ []), w)"
    by simp
  have pushes: "solo e (StoryDevices i s us, w)
      (case r of Inl err \<Rightarrow> (Finished (Inl err), w1) | Inr _ \<Rightarrow> (StoryPush i s us [], w1))"
    by (rule solo_step [OF 1])
      (use solo_story_pushes [of e i s us "pushable_devices us w" "[]" w] p in \<open>cases r; simp\<close>)
  show ?thesis
  proof (cases r)
    case (Inl err)
    then show ?thesis using pushes p that by (simp add: and_then_def)
  next
    case (Inr u)
    obtain r2 w2 where m: "for_each (story_email e i s (any_device us w1)) us w1 = (r2, w2)" by fastforce
    have 2: "worker_next e (StoryPush i s us []) w1 = (StoryMail i s (any_device us w1) (us @ []), w1)" by simp
    have 3: "worker_next e (StoryMail i s (any_device us w1) []) w2 = (Finished (Inr ()), w2)" by simp
    have "solo e (StoryPush i s us [], w1) (Finished r2, w2)"
      by (rule solo_step [OF 2], rule solo_trans [OF solo_story_mails [of e i s "any_device us w1" us "[]" w1]])
        (use m in \<open>cases r2; auto intro: solo_refl solo_step [OF 3]\<close>)
    then have "solo e (StoryDevices i s us, w) (Finished r2, w2)" using pushes Inr solo_trans by auto
    then show ?thesis using m p Inr that by (simp add: and_then_def)
  qed
qed

lemma solo_processSuccessStory:
  assumes "processSuccessStory e i w = (r, w')"
  shows "solo e (StoryBegin i, w) (Finished r, w')"
proof (cases "story_check i w")
  case None
  then have "worker_next e (StoryBegin i) w = (Finished r, w')"
    using assms by (simp add: processSuccessStory_def)
  then show ?thesis by (rule solo_step) (rule solo_refl)
next
  case (Some cs)
  obtain c s where cs: "cs = (c, s)" by fastforce
  have run: "story_run e i c s w = (r, w')" using assms Some cs by (simp add: processSuccessStory_def)
  let ?w1 = "claim_story e i w" and ?us = "story_recipients i c (claim_story e i w)"
  let ?none = "count_where (\<lambda>a. a_id a = i \<and> a_success_story_sent_at a = None) (alerts w) = 0"
  have 1: "worker_next e (StoryBegin i) w = (StoryClaim i c s, w)" using Some cs by simp
  show ?thesis
  proof (cases "?none \<or> ?us = []")
    case True
    then have rw: "r = Inr ()" "w' = ?w1"
      using run by (auto simp: story_run_def Let_def claim_story_def split: if_splits)
    show ?thesis
    proof (cases ?none)
      case True
      then have 2: "worker_next e (StoryClaim i c s) w = (Finished r, w')" using rw by simp
      show ?thesis by (rule solo_step [OF 1], rule solo_step [OF 2]) (rule solo_refl)
    next
      case False
      then have 2: "worker_next e (StoryClaim i c s) w = (StoryRecipients i c s, w')" using rw by simp
      have 3: "worker_next e (StoryRecipients i c s) w' = (Finished r, w')"
        using rw True False by simp
      show ?thesis by (rule solo_step [OF 1], rule solo_step [OF 2], rule solo_step [OF 3]) (rule solo_refl)
    qed
  next
    case False
    then have 2: "worker_next e (StoryClaim i c s) w = (StoryRecipients i c s, ?w1)" by simp
    have 3: "worker_next e (StoryRecipients i c s) ?w1 = (StoryDevices i s ?us, ?w1)" using False by simp
    have "(r, w') = and_then (for_each (story_push e i) (pushable_devices ?us ?w1) ?w1)
       (\<lambda>w2. for_each (story_email e i s (any_device ?us w2)) ?us w2)"
      using run False by (simp add: story_run_def Let_def claim_story_def pushable_devices_def)
    from solo_story_tail [OF this] have "solo e (StoryDevices i s ?us, ?w1) (Finished r, w')" by simp
    then show ?thesis by (rule solo_step [OF 1, OF solo_step [OF 2, OF solo_step [OF 3]]])
  qed
qed

text \<open>The push.\<close>

lemma solo_writes: "solo e (PushWrites i ts r, w) (Finished r, fold (do_push_task e i) ts w)"
proof (induction ts arbitrary: w)
  case Nil
  have "worker_next e (PushWrites i [] r) w = (Finished r, w)" by simp
  then show ?case by (simp add: solo_step [OF _ solo_refl])
next
  case (Cons t ts)
  have "worker_next e (PushWrites i (t # ts) r) w = (PushWrites i ts r, do_push_task e i t w)" by simp
  then show ?case using Cons solo_step by simp
qed

lemma after_send_writes:
  assumes "after_send n d r = (ts, q)"
  shows "(q, fold (do_push_task e i) ts w) =
    (if sr_success r then
       (Inr (), emit_audit ''audit.notification.sent'' (sent_audit n d)
          (update_notification i
             (\<lambda>n. n\<lparr>n_status := SENT, n_sent_at := Some (now e), n_push_message_id :=
                (case sr_messageId r of None \<Rightarrow> n_push_message_id n | Some m \<Rightarrow> Some m)\<rparr>) w))
     else
       let w1 = update_notification i (failed_row e (error_text r)) w;
           w2 = (if sr_invalidToken r
                 then update_device (n_device_id n)
                        (\<lambda>d. d\<lparr>d_push_token := None, d_push_token_updated_at := Some (now e), d_updated_at := now e\<rparr>) w1
                 else w1);
           w3 = emit_audit ''audit.notification.failed'' (failed_audit n d r) w2
       in if sr_invalidToken r \<or> defaulted [] (sr_error r) \<in> set TERMINAL_PUSH_ERRORS
          then (Inr (), w3)
          else push_catch e i (Error (push_failed_message r)) (push_failed_message r) w3)"
  using assms by (auto simp: after_send_def push_catch_def push_failed_message_def Let_def split: if_splits)

lemma solo_processPushNotification:
  assumes "processPushNotification e i w = (r, w')"
  shows "solo e (PushBegin i, w) (Finished r, w')"
proof -
  have fin: ?thesis if "worker_next e (PushBegin i) w = (PushWrites i ts r, w)" "w' = fold (do_push_task e i) ts w" for ts
    by (rule solo_step [OF that(1)]) (use solo_writes that(2) in simp)
  show ?thesis
  proof (cases "find_notification i w")
    case None
    then have "worker_next e (PushBegin i) w = (Finished r, w')"
      using assms by (simp add: processPushNotification_def)
    then show ?thesis by (rule solo_step) (rule solo_refl)
  next
    case (Some n)
    show ?thesis
    proof (cases "find_device (n_device_id n) w = None \<or> find_alert (n_alert_id n) w = None")
      case True
      then show ?thesis using assms Some
        by (intro fin [of "[MarkFailed ''Cannot read properties of null'']"])
          (auto simp: processPushNotification_def push_catch_def split: option.splits)
    next
      case False
      then obtain d a where d: "find_device (n_device_id n) w = Some d" "find_alert (n_alert_id n) w = Some a" by auto
      show ?thesis
      proof (cases "truthy_str (d_push_token d)")
        case False
        then show ?thesis using assms Some d
          by (intro fin [of "[MarkFailed ''PUSH_TOKEN_MISSING'']"]) (auto simp: processPushNotification_def)
      next
        case True
        let ?p = "buildPushPayload n a w"
        let ?r = "send_push e (d_platform d) (the (d_push_token d)) ?p"
        obtain ts q where s: "after_send n d ?r = (ts, q)" by fastforce
        have 1: "worker_next e (PushBegin i) w = (PushSend i n d ?p, w)" using Some d True by simp
        have 2: "worker_next e (PushSend i n d ?p) w = (PushWrites i ts q, w)" using s by simp
        have "(q, fold (do_push_task e i) ts w) = (r, w')"
          using after_send_writes [OF s, of e i w] assms Some d True
          by (simp add: processPushNotification_def Let_def cong: if_cong)
        then show ?thesis
          by (intro solo_step [OF 1] solo_step [OF 2]) (use solo_writes [of e i ts q w] in simp)
      qed
    qed
  qed
qed

text \<open>Every job, run by one worker without interruption.\<close>

lemma solo_process:
  assumes "process e job w = (r, w')"
  shows "solo e (worker_of job, w) (Finished r, w')"
  using assms solo_processAlertNotifications solo_processSuccessStory solo_processPushNotification
  by (cases job) (simp_all add: process_def)

end
