(* ===== verification/QueueSystem.thy ===== *)
theory QueueSystem
  imports AlertSafety WaveProperties Worker
begin

text \<open>
  The alert commands and the queue workers together. The state is the shared world and the workers
  that run. A step of the system is one alert command (of \<open>AlertSafety\<close>, taken as one step), a worker
  taking any job that was ever queued (in any order, any number of times: the queue delivers at
  least once, and a handler that raises or dies is retried), one statement of one worker, a worker
  stopping half way, or one of the two endpoints by which a device reports on a notification. Any
  number of workers run at once, and their statements interleave freely.
\<close>

section \<open>What each operation does to the notification table\<close>

definition is_story :: "notification_row \<Rightarrow> bool" where
  "is_story n \<longleftrightarrow> (case n_meta n of None \<Rightarrow> False | Some m \<Rightarrow> m_kind m = Some SUCCESS_STORY_META_KIND)"

subsection \<open>Alert commands\<close>

lemma other_tables [simp]:
  "devices (publish e n s i w) = devices w" "devices (update_pet p f w) = devices w"
  "devices (clear_missing e q w) = devices w" "notifications (clear_missing e q w) = notifications w"
  "devices (emit_system x y w) = devices w" "notifications (emit_system x y w) = notifications w"
  by (simp_all add: publish_def Let_def update_pet_def clear_missing_def emit_system_def split: option.split)

lemma publishers_tables [simp]:
  "devices (activated e i w) = devices w" "notifications (activated e i w) = notifications w"
  "devices (resolved e i w) = devices w" "notifications (resolved e i w) = notifications w"
  "devices (cancelled e i w) = devices w" "notifications (cancelled e i w) = notifications w"
  "devices (expired e i w) = devices w" "notifications (expired e i w) = notifications w"
  by (simp_all add: activated_def resolved_def cancelled_def expired_def)

lemma freeze_tables [simp]:
  "devices (snd (freeze_snapshot e i p dto w)) = devices w"
  "notifications (snd (freeze_snapshot e i p dto w)) = notifications w"
  using freeze_only_snapshots [of e i p dto w] by auto

lemma queue_calls_tables [simp]:
  "devices (snd (queueAlertNotifications e i w)) = devices w"
  "notifications (snd (queueAlertNotifications e i w)) = notifications w"
  "devices (snd (queueSuccessStoryNotifications e i w)) = devices w"
  "notifications (snd (queueSuccessStoryNotifications e i w)) = notifications w"
proof -
  obtain r w' where q: "queueAlertNotifications e i w = (r, w')" by fastforce
  then obtain js where "w' = w\<lparr>queue := queue w @ js\<rparr>"
    using queue_waves_only_queue unfolding queueAlertNotifications_def by blast
  then show "devices (snd (queueAlertNotifications e i w)) = devices w"
    "notifications (snd (queueAlertNotifications e i w)) = notifications w" using q by simp_all
  obtain r' w'' where q': "queueSuccessStoryNotifications e i w = (r', w'')" by fastforce
  then obtain js' where "w'' = w\<lparr>queue := queue w @ js'\<rparr>" using queueSuccessStory_only_queue by blast
  then show "devices (snd (queueSuccessStoryNotifications e i w)) = devices w"
    "notifications (snd (queueSuccessStoryNotifications e i w)) = notifications w" using q' by simp_all
qed

lemma claim_pet_devices: "claim_pet e u p w = (r, w') \<Longrightarrow> devices w' = devices w"
  by (auto simp: claim_pet_def split: if_splits option.splits)

lemma fold_expired_tables [simp]:
  "devices (fold (\<lambda>row. expired e (expiry_event e row)) rows w) = devices w"
  "notifications (fold (\<lambda>row. expired e (expiry_event e row)) rows w) = notifications w"
  by (induction rows arbitrary: w) auto

lemma create_tables:
  "devices (snd (create e u dto w)) = devices w \<and> notifications (snd (create e u dto w)) = notifications w"
proof -
  obtain lr r where lim: "checkAlertCreationLimit (read_limits (getenv e)) (redis_up e) (now e) u (redis_db w) = (lr, r)"
    by fastforce
  obtain cr w1 where claim: "claim_pet e u (ca_petId dto) (w\<lparr>redis_db := r\<rparr>) = (cr, w1)" by fastforce
  have "devices w1 = devices w" "notifications w1 = notifications w"
    using claim_pet_frame [OF claim] claim_pet_devices [OF claim] by simp_all
  then show ?thesis
    using lim claim by (cases lr; cases cr) (simp_all add: create_def Let_def created_mail_state)
qed

lemma exec_tables: "devices (exec e c w) = devices w \<and> notifications (exec e c w) = notifications w"
proof (cases c)
  case (Create u dto)
  then show ?thesis by (simp add: create_tables)
next
  case (Update i u dto)
  then show ?thesis by (cases "find_alert i w") (simp_all add: update_def Let_def)
next
  case (Resolve i u dto)
  then show ?thesis
    by (cases "find_alert i w") (simp_all add: resolve_def Let_def resolved_mail_state case_prod_beta)
next
  case (Cancel i u dto)
  then show ?thesis by (cases "find_alert i w") (simp_all add: cancel_def Let_def)
next
  case (Renew i u)
  then show ?thesis by (cases "find_alert i w") (simp_all add: renew_def Let_def)
next
  case (AddPhotos i u urls)
  then show ?thesis by (cases "findById i (Some u) w") (simp_all add: addPhotos_def Let_def)
next
  case CheckExpired
  then show ?thesis by (cases "expiry_error e") (simp_all add: checkExpired_def Let_def)
qed

subsection \<open>Statements that add a row\<close>

text \<open>Rows are added under fresh ids, each satisfying \<open>P\<close>; alerts, devices and users are left alone.\<close>

definition adds :: "(notification_row \<Rightarrow> bool) \<Rightarrow> world \<Rightarrow> world \<Rightarrow> bool" where
  "adds P w w' \<longleftrightarrow> grows P w w' \<and>
     (distinct (map n_id (notifications w)) \<longrightarrow> distinct (map n_id (notifications w')))"

lemma adds_refl [simp]: "adds P w w"
  by (simp add: adds_def)

lemma adds_trans: "adds P w w1 \<Longrightarrow> adds P w1 w2 \<Longrightarrow> adds P w w2"
  unfolding adds_def using grows_trans by blast

lemma adds_frame:
  "adds P w w' \<Longrightarrow> devices w' = devices w \<and> users w' = users w \<and> alerts w' = alerts w"
  by (simp add: adds_def grows_def)

lemma adds_same: "notifications w' = notifications w \<Longrightarrow> devices w' = devices w \<Longrightarrow> users w' = users w \<Longrightarrow>
    alerts w' = alerts w \<Longrightarrow> adds P w w'"
  by (simp add: adds_def grows_def)

lemma adds_one:
  assumes "notifications w' = notifications w @ [n]" and "n_id n = next_id n_id (notifications w)" and "P n"
    and "devices w' = devices w" and "users w' = users w" and "alerts w' = alerts w"
  shows "adds P w w'"
  using assms next_id_fresh [of _ "notifications w" n_id] by (fastforce simp: adds_def grows_def)

text \<open>A row of the missing-pet waves of alert \<open>i\<close>, and a row of its success story.\<close>

definition missing_row :: "id \<Rightarrow> notification_row \<Rightarrow> bool" where
  "missing_row i n \<longleftrightarrow> n_alert_id n = i \<and> \<not> is_story n"

definition story_row :: "id \<Rightarrow> notification_row \<Rightarrow> bool" where
  "story_row i n \<longleftrightarrow> n_alert_id n = i \<and> is_story n"

lemmas row_kinds = missing_row_def story_row_def is_story_def blank_notification_def insert_notification_def

lemma trackExclusion_adds: "adds (missing_row i) w (trackExclusion e i d reason w)"
  by (rule adds_one, simp add: trackExclusion_def Let_def emit_audit_def row_kinds)
    (simp_all add: trackExclusion_def Let_def emit_audit_def row_kinds)

lemma track_adds: "adds (missing_row i) w (snd (track e i reason d w))"
  by (cases "key_int d") (simp_all add: track_def trackExclusion_adds)


lemma queue_add_same:
  "queue_add e j d k w = Some w' \<Longrightarrow> notifications w' = notifications w \<and> devices w' = devices w \<and>
     users w' = users w \<and> alerts w' = alerts w"
  by (auto simp: queue_add_def split: if_splits)

lemma mail_row_adds: "adds (missing_row i) w (recordEmailNotification e i m sent w)"
proof (cases "key_int (dm_deviceId m)")
  case None
  then show ?thesis by (simp add: recordEmailNotification_def)
next
  case (Some d)
  show ?thesis
    by (rule adds_one [of _ _ "mail_outcome e sent ''EMAIL_FALLBACK_NOT_SENT''
        ((blank_notification e i d (dm_confidence m) (source_name (dm_matchReason m)) w)
           \<lparr>n_distance_km := Some (dm_distanceKm m), n_meta := Some email_meta\<rparr>)"])
      (use Some in \<open>simp_all add: recordEmailNotification_def mail_outcome_def email_meta_def row_kinds\<close>)
qed

text \<open>Every task of a wave adds missing-pet rows of its alert, if it adds a row at all.\<close>

lemma do_task_adds: "adds (missing_row (a_id a)) w (snd (do_task e a wave t w))"
proof (cases t)
  case (Track reason d)
  then show ?thesis using track_adds [of "a_id a" w e reason d] by (auto split: prod.split sum.split)
next
  case (Exclude reason d)
  then show ?thesis by (simp add: trackExclusion_adds)
next
  case (PushRow m d)
  then show ?thesis
    by (auto intro!: adds_one [of _ _ "wave_push_row e (a_id a) m d w"]
        simp: Let_def wave_push_row_def row_kinds)
next
  case (PushQueue i)
  then show ?thesis by (auto dest: queue_add_same intro!: adds_same split: option.split)
next
  case (MailSend u m)
  obtain sent w' where m: "sendAlertEmail e u (alert_mail a m) w = (sent, w')" by fastforce
  obtain mb where "w' = w\<lparr>mailbox := mb\<rparr>" using email_frames(1) [OF m] by blast
  then show ?thesis using MailSend m by (simp add: adds_same)
next
  case (MailRow m sent)
  then show ?thesis by (simp add: mail_row_adds)
qed simp_all

subsection \<open>Operations on one row\<close>

text \<open>
  Rows keep their id, alert, device and kind; devices keep their ids; alerts stay.
\<close>

definition shape :: "notification_row \<Rightarrow> id \<times> id \<times> id \<times> bool \<times> channel" where
  "shape n = (n_id n, n_alert_id n, n_device_id n, is_story n, row_channel n)"

definition reshapes :: "world \<Rightarrow> world \<Rightarrow> bool" where
  "reshapes w w' \<longleftrightarrow> map shape (notifications w') = map shape (notifications w) \<and>
     map d_id (devices w') = map d_id (devices w) \<and> alerts w' = alerts w"

lemma reshapes_refl [simp]: "reshapes w w"
  by (simp add: reshapes_def)

lemma reshapes_notification:
  assumes "\<And>n. n \<in> set (notifications w) \<Longrightarrow> n_id n = i \<Longrightarrow> shape (f n) = shape n"
  shows "reshapes w (update_notification i f w)"
  using assms by (simp add: reshapes_def update_notification_def update_where_def)

lemma reshapes_trans: "reshapes w w1 \<Longrightarrow> reshapes w1 w2 \<Longrightarrow> reshapes w w2"
  by (simp add: reshapes_def)

lemma reshapes_device: "(\<And>d. d_id (g d) = d_id d) \<Longrightarrow> reshapes w (update_device i g w)"
  by (simp add: reshapes_def update_device_def update_where_def)

lemma reshapes_audit: "reshapes w (emit_audit x y w)"
  by (simp add: reshapes_def)

lemma reshapes_failed: "reshapes w (update_notification i (failed_row e r) w)"
  by (rule reshapes_notification) (simp add: shape_def failed_row_def is_story_def row_channel_def)


lemma do_push_reshapes: "reshapes w (do_push_task e i t w)"
proof (cases t)
  case (MarkSent r)
  then show ?thesis by (auto intro!: reshapes_notification simp: shape_def is_story_def row_channel_def)
next
  case (ClearToken d)
  then show ?thesis by (auto intro!: reshapes_device)
qed (simp_all add: reshapes_failed reshapes_audit)

lemma receipt_reshapes: "reshapes w (snd (handleDeliveryReceipt e i w))"
  by (auto simp: handleDeliveryReceipt_def shape_def is_story_def row_channel_def
      intro!: reshapes_notification split: option.split)

lemma relevance_reshapes:
  assumes "distinct (map n_id (notifications w))"
  shows "reshapes w (snd (recordRelevance e i u b dk w))"
proof (cases "List.find (\<lambda>n. n_id n = i \<and> notified_user w n = Some u) (notifications w)")
  case (Some n)
  then have n: "n \<in> set (notifications w)" "n_id n = i" by (auto simp: find_Some_iff)
  have "m = n" if "m \<in> set (notifications w)" "n_id m = i" for m
    using assms n that by (metis distinct_map inj_on_def)
  then show ?thesis using Some
    by (auto simp: recordRelevance_def Let_def shape_def is_story_def row_channel_def
        intro!: reshapes_notification split: option.split)
qed (simp add: recordRelevance_def)

section \<open>What the tables show\<close>

text \<open>The alert and device of every success-story push row.\<close>

definition story_pushes :: "world \<Rightarrow> (id \<times> id) list" where
  "story_pushes w = map (\<lambda>n. (n_alert_id n, n_device_id n))
     (filter (\<lambda>n. is_story n \<and> row_channel n = PUSH) (notifications w))"

text \<open>The ids of the missing-pet rows of an alert: pushes, exclusions and fallback e-mails.\<close>

definition missing_ids :: "id \<Rightarrow> world \<Rightarrow> id list" where
  "missing_ids i w = map n_id (filter (missing_row i) (notifications w))"

definition story_claimed :: "id \<Rightarrow> world \<Rightarrow> bool" where
  "story_claimed i w \<longleftrightarrow> (case find_alert i w of None \<Rightarrow> False | Some a \<Rightarrow> a_success_story_sent_at a \<noteq> None)"

definition ended :: "id \<Rightarrow> world \<Rightarrow> bool" where
  "ended i w \<longleftrightarrow> (case find_alert i w of None \<Rightarrow> False | Some a \<Rightarrow> a_status a \<noteq> ACTIVE)"

definition tables_ok :: "world \<Rightarrow> bool" where
  "tables_ok w \<longleftrightarrow> alerts_ok w \<and> distinct (map d_id (devices w)) \<and> distinct (map n_id (notifications w)) \<and>
     list_all (\<lambda>n. is_story n \<longrightarrow> story_claimed (n_alert_id n) w) (notifications w) \<and> distinct (story_pushes w)"

text \<open>All of these read the rows only through their shape.\<close>

lemma filter_shape:
  assumes "map shape ns = map shape ms" and "\<And>n. p n = q (shape n)" and "\<And>n. f n = g (shape n)"
  shows "map f (filter p ns) = map f (filter p ms)"
proof -
  have "map f (filter p xs) = map g (filter q (map shape xs))" for xs
    by (induction xs) (simp_all add: assms(2,3))
  then show ?thesis using assms(1) by simp
qed

lemma reshapes_views:
  assumes "reshapes w w'"
  shows "story_pushes w' = story_pushes w" and "missing_ids i w' = missing_ids i w"
    and "find_alert i w' = find_alert i w" and "tables_ok w' = tables_ok w"
proof -
  have sh: "map shape (notifications w') = map shape (notifications w)" and al: "alerts w' = alerts w"
    and dv: "map d_id (devices w') = map d_id (devices w)" using assms by (simp_all add: reshapes_def)
  show sp: "story_pushes w' = story_pushes w"
    unfolding story_pushes_def
    by (rule filter_shape [OF sh, where q = "\<lambda>(_, _, _, s, c). s \<and> c = PUSH" and g = "\<lambda>(_, i, d, _, _). (i, d)"])
      (simp_all add: shape_def)
  show "missing_ids i w' = missing_ids i w"
    unfolding missing_ids_def
    by (rule filter_shape [OF sh, where q = "\<lambda>(_, a, _, s, _). a = i \<and> \<not> s" and g = fst])
      (simp_all add: shape_def missing_row_def)
  show fa: "find_alert i w' = find_alert i w" for i using al by (simp add: find_alert_def)
  have ids: "map n_id (notifications w') = map n_id (notifications w)"
    using filter_shape [OF sh, where p = "\<lambda>_. True" and q = "\<lambda>_. True" and f = n_id and g = fst]
    by (simp add: shape_def)
  have look: "list_all (\<lambda>n. is_story n \<longrightarrow> story_claimed (n_alert_id n) v) ns =
      list_all (\<lambda>(_, i, _, s, _). s \<longrightarrow> story_claimed i v) (map shape ns)" for ns v
    by (simp add: list.pred_map shape_def comp_def)
  have cl: "story_claimed j w' = story_claimed j w" for j by (simp add: story_claimed_def fa)
  have "list_all (\<lambda>n. is_story n \<longrightarrow> story_claimed (n_alert_id n) w') (notifications w') =
      list_all (\<lambda>n. is_story n \<longrightarrow> story_claimed (n_alert_id n) w) (notifications w)"
    unfolding look cl sh ..
  then show "tables_ok w' = tables_ok w"
    unfolding tables_ok_def alerts_ok_def al dv ids sp by simp
qed

lemma adds_views:
  assumes "adds P w w'" and "tables_ok w" and "\<And>n. P n \<Longrightarrow> \<not> is_story n"
  shows "tables_ok w'" and "find_alert i w' = find_alert i w"
    and "(\<And>n. P n \<Longrightarrow> n_alert_id n \<noteq> i) \<Longrightarrow> missing_ids i w' = missing_ids i w"
proof -
  obtain ns where ns: "notifications w' = notifications w @ ns" "\<forall>n\<in>set ns. P n"
    and rest: "devices w' = devices w" "alerts w' = alerts w"
    and ids: "distinct (map n_id (notifications w')) "
    using assms(1,2) by (auto simp: adds_def grows_def tables_ok_def)
  have "filter (\<lambda>n. is_story n \<and> row_channel n = PUSH) ns = []"
    using ns(2) assms(3) by (auto simp: filter_empty_conv)
  then have sp: "story_pushes w' = story_pushes w" using ns(1) by (simp add: story_pushes_def)
  show "find_alert i w' = find_alert i w" using rest by (simp add: find_alert_def)
  have cl: "story_claimed j w' = story_claimed j w" for j using rest by (simp add: story_claimed_def find_alert_def)
  have "list_all (\<lambda>n. is_story n \<longrightarrow> story_claimed (n_alert_id n) w) ns"
    using ns(2) assms(3) by (auto simp: list_all_iff)
  then have "list_all (\<lambda>n. is_story n \<longrightarrow> story_claimed (n_alert_id n) w') (notifications w')"
    using assms(2) unfolding ns(1) cl tables_ok_def by simp
  moreover have "alerts_ok w'" using assms(2) rest(2) by (simp add: tables_ok_def alerts_ok_def)
  moreover have "distinct (map d_id (devices w'))" "distinct (story_pushes w')"
    using assms(2) unfolding rest(1) sp tables_ok_def by blast+
  ultimately show "tables_ok w'" using ids unfolding tables_ok_def by blast
  show "missing_ids i w' = missing_ids i w" if "\<And>n. P n \<Longrightarrow> n_alert_id n \<noteq> i"
  proof -
    have "filter (missing_row i) ns = []" using ns(2) that by (auto simp: filter_empty_conv missing_row_def)
    then show ?thesis using ns(1) by (simp add: missing_ids_def)
  qed
qed

lemma claimed_find:
  "find_alert j (claim_story e i w) = map_option (\<lambda>a. if a_id a = i \<and> a_success_story_sent_at a = None
     then a\<lparr>a_success_story_sent_at := Some (now e), a_updated_at := now e\<rparr> else a) (find_alert j w)"
  unfolding find_alert_def claim_story_def by (simp add: find_row_update)

lemma claimed_story: "find_alert i w \<noteq> None \<Longrightarrow> story_claimed i (claim_story e i w)"
  using alert_store.get_key [of i w]
  by (auto simp: story_claimed_def claimed_find split: option.splits)

lemma claimed_keeps: "story_claimed j w \<Longrightarrow> story_claimed j (claim_story e i w)"
  by (auto simp: story_claimed_def claimed_find split: option.splits)

lemma claimed_ended [simp]: "ended j (claim_story e i w) = ended j w"
  by (auto simp: ended_def claimed_find split: option.splits)

lemma claimed_ok: "alerts_ok (claim_story e i w) = alerts_ok w"
proof -
  let ?f = "\<lambda>a. if a_id a = i \<and> a_success_story_sent_at a = None
     then a\<lparr>a_success_story_sent_at := Some (now e), a_updated_at := now e\<rparr> else a"
  have "alert_ok (?f a) = alert_ok a" "a_id (?f a) = a_id a" for a by (simp_all add: alert_ok_def)
  then show ?thesis
    by (simp add: alerts_ok_def claim_story_def update_where_def list.pred_map comp_def)
qed

lemma command_views:
  assumes "alert_step w w'" and "devices w' = devices w" and "notifications w' = notifications w" and "tables_ok w"
  shows "tables_ok w'" and "ended i w \<Longrightarrow> ended i w'" and "missing_ids i w' = missing_ids i w"
proof -
  have later: "\<exists>b. find_alert j w' = Some b \<and> evolves a b" if "find_alert j w = Some a" for j a
    using step_evolves [OF _ assms(1)] that evolves_refl by blast
  show "missing_ids i w' = missing_ids i w" using assms(3) by (simp add: missing_ids_def)
  show "ended i w'" if "ended i w"
    using that later [of i] by (fastforce simp: ended_def evolves_def split: option.splits)
  have "story_claimed j w'" if "story_claimed j w" for j
    using that later [of j] by (fastforce simp: story_claimed_def evolves_def split: option.splits)
  then have "list_all (\<lambda>n. is_story n \<longrightarrow> story_claimed (n_alert_id n) w') (notifications w')"
    using assms(3,4) by (auto simp: tables_ok_def list_all_iff)
  moreover have "alerts_ok w'" using assms(1,4) step_keeps_ok by (auto simp: tables_ok_def)
  moreover have "distinct (story_pushes w')" using assms(3,4) by (simp add: tables_ok_def story_pushes_def)
  ultimately show "tables_ok w'" using assms(2-4) unfolding tables_ok_def by simp
qed


section \<open>The system\<close>

text \<open>The alert whose wave a worker is in the middle of, past its look at the status.\<close>

fun waving :: "worker \<Rightarrow> id option" where
  "waving (WaveFind a wave) = Some (a_id a)"
| "waving (WaveDevices a wave ms) = Some (a_id a)"
| "waving (Waving a wave ts) = Some (a_id a)"
| "waving k = None"

text \<open>The alert whose success story a worker has claimed and not finished.\<close>

fun holds_claim :: "worker \<Rightarrow> id option" where
  "holds_claim (StoryRecipients i c s) = Some i"
| "holds_claim (StoryDevices i s us) = Some i"
| "holds_claim (StoryPush i s us ds) = Some i"
| "holds_claim (StoryQueue i s us n ds) = Some i"
| "holds_claim (StoryMail i s g us) = Some i"
| "holds_claim (StorySend i s g u us) = Some i"
| "holds_claim (StoryRecord i s g u sent us) = Some i"
| "holds_claim k = None"

type_synonym system = "world \<times> worker list"

inductive system_step :: "system \<Rightarrow> system \<Rightarrow> bool" where
  command: "alert_step w w' \<Longrightarrow> system_step (w, ks) (w', ks)"
| take_job: "j \<in> set (queue w) \<Longrightarrow> system_step (w, ks) (w, ks @ [worker_of (j_job j)])"
| advance: "worker_next e k w = (k', w') \<Longrightarrow> system_step (w, xs @ k # ys) (w', xs @ k' # ys)"
| stop: "system_step (w, xs @ k # ys) (w, xs @ Finished r # ys)"
| receipt: "handleDeliveryReceipt e i w = (r, w') \<Longrightarrow> system_step (w, ks) (w', ks)"
| report: "recordRelevance e i u b dk w = (r, w') \<Longrightarrow> system_step (w, ks) (w', ks)"

text \<open>
  What a worker past its claim may rely on: the claim is in the table, and no device it has still to
  reach has a row of the story.
\<close>

fun worker_ok :: "world \<Rightarrow> worker \<Rightarrow> bool" where
  "worker_ok w (StoryRecipients i c s) = (story_claimed i w \<and> i \<notin> fst ` set (story_pushes w))"
| "worker_ok w (StoryDevices i s us) = (story_claimed i w \<and> i \<notin> fst ` set (story_pushes w))"
| "worker_ok w (StoryPush i s us ds) =
     (story_claimed i w \<and> distinct ds \<and> set (map (Pair i) ds) \<inter> set (story_pushes w) = {})"
| "worker_ok w (StoryQueue i s us n ds) =
     (story_claimed i w \<and> distinct ds \<and> set (map (Pair i) ds) \<inter> set (story_pushes w) = {})"
| "worker_ok w (StoryMail i s g us) = story_claimed i w"
| "worker_ok w (StorySend i s g u us) = story_claimed i w"
| "worker_ok w (StoryRecord i s g u sent us) = story_claimed i w"
| "worker_ok w k = True"

definition claims :: "worker list \<Rightarrow> id list" where
  "claims ks = List.map_filter holds_claim ks"

definition system_ok :: "system \<Rightarrow> bool" where
  "system_ok s \<longleftrightarrow> (case s of (w, ks) \<Rightarrow> tables_ok w \<and> distinct (claims ks) \<and> list_all (worker_ok w) ks)"

lemma claims_simps [simp]:
  "claims [] = []" "claims (k # ks) = (case holds_claim k of None \<Rightarrow> claims ks | Some i \<Rightarrow> i # claims ks)"
  "claims (xs @ ys) = claims xs @ claims ys"
  by (simp_all add: claims_def map_filter_def split: option.split)

lemma claims_iff: "i \<in> set (claims ks) \<longleftrightarrow> (\<exists>k\<in>set ks. holds_claim k = Some i)"
  by (induction ks) (auto split: option.splits)

lemma worker_of_quiet [simp]:
  "holds_claim (worker_of j) = None" "waving (worker_of j) = None" "worker_ok w (worker_of j)"
  by (cases j; simp)+

lemma holder_claimed: "worker_ok w k \<Longrightarrow> holds_claim k = Some i \<Longrightarrow> story_claimed i w"
  by (cases k) simp_all

text \<open>
  What a worker relies on survives the steps of everyone else: claims stay, and new push rows of a
  story are written only by the worker that holds its claim.
\<close>

lemma worker_ok_stable:
  assumes "worker_ok w k" and "\<And>i. story_claimed i w \<Longrightarrow> story_claimed i w'"
    and "\<And>p. p \<in> set (story_pushes w') \<Longrightarrow> p \<in> set (story_pushes w) \<or> holds_claim k \<noteq> Some (fst p)"
  shows "worker_ok w' k"
  using assms by (cases k) force+

section \<open>One statement of one worker\<close>

definition sound_step :: "worker \<Rightarrow> world \<Rightarrow> worker \<Rightarrow> world \<Rightarrow> bool" where
  "sound_step k w k' w' \<longleftrightarrow> tables_ok w' \<and> worker_ok w' k' \<and>
     (\<forall>j. story_claimed j w \<longrightarrow> story_claimed j w') \<and>
     (\<forall>p\<in>set (story_pushes w'). p \<in> set (story_pushes w) \<or> holds_claim k = Some (fst p)) \<and>
     (\<forall>i. holds_claim k' = Some i \<longrightarrow> holds_claim k = Some i \<or> \<not> story_claimed i w) \<and>
     (\<forall>j. ended j w' = ended j w) \<and>
     (\<forall>j. waving k \<noteq> Some j \<longrightarrow> missing_ids j w' = missing_ids j w) \<and>
     (\<forall>j. waving k' = Some j \<longrightarrow> waving k = Some j \<or> \<not> ended j w)"

text \<open>Statements that only look, or only change columns nobody here relies on.\<close>

lemma sound_reshapes:
  assumes "tables_ok w" and "reshapes w w'" and "worker_ok w k'"
    and "holds_claim k' = None \<or> holds_claim k' = holds_claim k"
    and "\<And>j. waving k' = Some j \<Longrightarrow> waving k = Some j \<or> \<not> ended j w"
  shows "sound_step k w k' w'"
proof -
  note v = reshapes_views [OF assms(2)]
  have cl: "story_claimed j w' = story_claimed j w" "ended j w' = ended j w" for j
    by (simp_all add: story_claimed_def ended_def v(3))
  have "worker_ok w' k'" by (rule worker_ok_stable [OF assms(3)]) (use cl v(1) in simp_all)
  then show ?thesis using assms(1,4,5) v cl unfolding sound_step_def by auto
qed

lemma sound_same:
  assumes "tables_ok w" and "notifications w' = notifications w" and "devices w' = devices w"
    and "alerts w' = alerts w" and "worker_ok w k'"
    and "holds_claim k' = None \<or> holds_claim k' = holds_claim k"
    and "\<And>j. waving k' = Some j \<Longrightarrow> waving k = Some j \<or> \<not> ended j w"
  shows "sound_step k w k' w'"
  by (rule sound_reshapes) (use assms in \<open>simp_all add: reshapes_def\<close>)

text \<open>A task of a wave.\<close>

lemma sound_wave:
  assumes "tables_ok w" and "adds (missing_row i) w w'" and "waving k = Some i" and "holds_claim k = None"
    and "waving k' = None \<or> waving k' = Some i" and "holds_claim k' = None" and "\<And>v. worker_ok v k'"
  shows "sound_step k w k' w'"
proof -
  have kind: "missing_row i n \<Longrightarrow> \<not> is_story n" for n by (simp add: missing_row_def)
  note v = adds_views [OF assms(2,1) kind]
  have fa: "find_alert j w' = find_alert j w" for j
    using adds_frame [OF assms(2)] by (simp add: find_alert_def)
  have sp: "story_pushes w' = story_pushes w"
    using assms(2) kind by (auto simp: adds_def grows_def story_pushes_def filter_empty_conv)
  have "missing_ids j w' = missing_ids j w" if "i \<noteq> j" for j
    by (rule v(3)) (use that in \<open>auto simp: missing_row_def\<close>)
  then show ?thesis using v(1) fa sp assms(3-7)
    by (auto simp: sound_step_def story_claimed_def ended_def)
qed

text \<open>Rows of a success story: of a helper's device, or of an e-mail.\<close>

lemma story_row_views:
  assumes "tables_ok w" and "w' = insert_notification n w" and "n_id n = next_id n_id (notifications w)"
    and "story_row i n" and "story_claimed i w"
    and "row_channel n = PUSH \<Longrightarrow> (i, n_device_id n) \<notin> set (story_pushes w)"
  shows "tables_ok w'" and "missing_ids j w' = missing_ids j w" and "find_alert j w' = find_alert j w"
    and "story_pushes w' = story_pushes w @ (if row_channel n = PUSH then [(i, n_device_id n)] else [])"
proof -
  have w': "notifications w' = notifications w @ [n]" "devices w' = devices w" "alerts w' = alerts w"
    using assms(2) by (simp_all add: insert_notification_def)
  have n: "is_story n" "n_alert_id n = i" using assms(4) by (simp_all add: story_row_def)
  show sp: "story_pushes w' = story_pushes w @ (if row_channel n = PUSH then [(i, n_device_id n)] else [])"
    using n by (simp add: story_pushes_def w'(1))
  show "missing_ids j w' = missing_ids j w" using n by (simp add: missing_ids_def w'(1) missing_row_def)
  show "find_alert j w' = find_alert j w" for j by (simp add: find_alert_def w'(3))
  have cl: "story_claimed j w' = story_claimed j w" for j by (simp add: story_claimed_def find_alert_def w'(3))
  have "list_all (\<lambda>n. is_story n \<longrightarrow> story_claimed (n_alert_id n) w') (notifications w')"
    using assms(1,5) n unfolding w'(1) cl tables_ok_def by simp
  moreover have "distinct (map n_id (notifications w'))"
    using assms(1,3) next_id_fresh [of _ "notifications w" n_id] by (fastforce simp: w'(1) tables_ok_def)
  moreover have "distinct (story_pushes w')" using assms(1,6) unfolding sp tables_ok_def by simp
  moreover have "alerts_ok w'" using assms(1) by (simp add: tables_ok_def alerts_ok_def w'(3))
  ultimately show "tables_ok w'" using assms(1) unfolding tables_ok_def w'(2) by blast
qed

lemma sound_story_row:
  assumes "tables_ok w" and "w' = insert_notification n w" and "n_id n = next_id n_id (notifications w)"
    and "story_row i n" and "story_claimed i w"
    and "row_channel n = PUSH \<Longrightarrow> (i, n_device_id n) \<notin> set (story_pushes w)"
    and "holds_claim k = Some i" and "holds_claim k' = Some i" and "waving k' = None" and "worker_ok w' k'"
  shows "sound_step k w k' w'"
proof -
  note v = story_row_views [OF assms(1-6)]
  show ?thesis using v(1,2,4) assms(7-10)
    by (auto simp: sound_step_def story_claimed_def ended_def v(3) split: if_splits)
qed

lemma story_push_row_simps [simp]:
  "n_id (story_push_row e i d w) = next_id n_id (notifications w)" "story_row i (story_push_row e i d w)"
  "n_device_id (story_push_row e i d w) = d" "row_channel (story_push_row e i d w) = PUSH"
  by (simp_all add: story_push_row_def story_meta_def row_channel_def row_kinds)

lemma story_mail_row_simps [simp]:
  "n_id (story_mail_row e i d sent w) = next_id n_id (notifications w)" "story_row i (story_mail_row e i d sent w)"
  "row_channel (story_mail_row e i d sent w) = EMAIL"
  by (simp_all add: story_mail_row_def story_meta_def mail_outcome_def row_channel_def row_kinds)

lemma story_pushes_insert:
  "story_pushes (insert_notification n w) =
     story_pushes w @ (if is_story n \<and> row_channel n = PUSH then [(n_alert_id n, n_device_id n)] else [])"
  by (simp add: story_pushes_def insert_notification_def)

lemma story_claimed_insert [simp]: "story_claimed i (insert_notification n w) = story_claimed i w"
  by (simp add: story_claimed_def insert_notification_def find_alert_def)

lemma sound_story_push:
  assumes "tables_ok w" and "worker_ok w (StoryPush i s us (d # ds))"
  shows "sound_step (StoryPush i s us (d # ds)) w (StoryQueue i s us n ds)
    (insert_notification (story_push_row e i d w) w)"
proof -
  have n: "is_story (story_push_row e i d w)" "n_alert_id (story_push_row e i d w) = i"
    using story_push_row_simps(2) [of i e d w] by (simp_all add: story_row_def)
  have "worker_ok (insert_notification (story_push_row e i d w) w) (StoryQueue i s us n ds)"
    using assms(2) n by (auto simp: story_pushes_insert)
  then show ?thesis using assms(2)
    by (intro sound_story_row [OF assms(1) refl, where i = i]) (auto)
qed

text \<open>The claim.\<close>

lemma sound_claim:
  assumes "tables_ok w"
  shows "sound_step (StoryClaim i c s) w (fst (worker_next e (StoryClaim i c s) w)) (claim_story e i w)"
proof -
  let ?w' = "claim_story e i w" and ?k' = "fst (worker_next e (StoryClaim i c s) w)"
  have same: "notifications ?w' = notifications w" "devices ?w' = devices w" by (simp_all add: claim_story_def)
  then have sp: "story_pushes ?w' = story_pushes w" "missing_ids j ?w' = missing_ids j w" for j
    by (simp_all add: story_pushes_def missing_ids_def)
  have rows: "list_all (\<lambda>n. is_story n \<longrightarrow> story_claimed (n_alert_id n) ?w') (notifications ?w')"
    using assms claimed_keeps by (auto simp: tables_ok_def same list_all_iff)
  have ok: "tables_ok ?w'"
    using assms rows claimed_ok [of e i w] unfolding tables_ok_def same sp by simp
  have new: "\<not> story_claimed i w \<and> story_claimed i ?w' \<and> i \<notin> fst ` set (story_pushes w)"
    if "holds_claim ?k' = Some j" for j
  proof -
    have "count_where (\<lambda>a. a_id a = i \<and> a_success_story_sent_at a = None) (alerts w) \<noteq> 0"
      using that by (auto simp: Let_def split: if_splits)
    then obtain a where a: "a \<in> set (alerts w)" "a_id a = i" "a_success_story_sent_at a = None"
      by (auto simp: count_where_def filter_empty_conv)
    have "distinct (map a_id (alerts w))" using assms by (simp add: tables_ok_def alerts_ok_def)
    then have f: "find_alert i w = Some a"
      using find_row_distinct [of a_id "alerts w" a] a(1,2) by (simp add: find_alert_def)
    then have un: "\<not> story_claimed i w" using a(3) by (simp add: story_claimed_def)
    then have "i \<notin> fst ` set (story_pushes w)"
      using assms by (auto simp: tables_ok_def list_all_iff story_pushes_def)
    then show ?thesis using un claimed_story f by simp
  qed
  have "worker_ok ?w' ?k'"
    using new sp by (auto simp: Let_def split: if_splits)
  then show ?thesis
    using ok new sp claimed_keeps
    by (auto simp: sound_step_def Let_def split: if_splits)
qed


text \<open>Every statement of every worker.\<close>

lemma advance_sound:
  assumes "worker_next e k w = (k', w')" and "tables_ok w" and "worker_ok w k"
  shows "sound_step k w k' w'"
proof -
  have look: "sound_step k w k' w'" if "w' = w" "worker_ok w k'"
      "holds_claim k' = None \<or> holds_claim k' = holds_claim k"
      "\<And>j. waving k' = Some j \<Longrightarrow> waving k = Some j \<or> \<not> ended j w"
    using sound_same [OF assms(2) _ _ _ that(2-4), of w'] that(1) by simp
  show ?thesis
  proof (cases k)
    case (WaveBegin i jw)
    show ?thesis
    proof (cases "find_alert i w")
      case None
      then show ?thesis using WaveBegin assms(1) by (intro look) auto
    next
      case (Some a)
      then have "a_id a = i" by (auto simp: find_alert_def dest: find_row_Some)
      then show ?thesis using WaveBegin Some assms(1) by (intro look) (auto simp: ended_def split: if_splits)
    qed
  next
    case (Waving a wave ts)
    show ?thesis
    proof (cases ts)
      case Nil
      then show ?thesis using Waving assms(1) by (intro look) auto
    next
      case (Cons t us)
      have w': "w' = snd (do_task e a wave t w)" and k': "waving k' = None \<or> waving k' = Some (a_id a)"
        "holds_claim k' = None" "\<And>v. worker_ok v k'"
        using assms(1) Waving Cons by (auto split: prod.splits sum.splits)
      show ?thesis
        by (rule sound_wave [of _ "a_id a"]) (use assms(2) Waving w' k' do_task_adds in auto)
    qed
  next
    case (StoryBegin i)
    then show ?thesis using assms(1) by (intro look) (auto split: option.splits)
  next
    case (StoryClaim i c s)
    then have "k' = fst (worker_next e (StoryClaim i c s) w)" "w' = claim_story e i w"
      using assms(1) by (simp_all add: Let_def)
    then show ?thesis using sound_claim [OF assms(2)] StoryClaim by simp
  next
    case (StoryRecipients i c s)
    then show ?thesis using assms(1,3) by (intro look) (auto simp: Let_def split: if_splits)
  next
    case (StoryDevices i s us)
    have "distinct (map d_id (devices w))" using assms(2) by (simp add: tables_ok_def)
    then have "distinct (map d_id (pushable_devices us w))"
      by (simp add: pushable_devices_def distinct_map_filter)
    then show ?thesis using StoryDevices assms(1,3) by (intro look) force+
  next
    case (StoryPush i s us ds)
    show ?thesis
    proof (cases ds)
      case Nil
      then show ?thesis using StoryPush assms(1,3) by (intro look) auto
    next
      case (Cons d es)
      then show ?thesis using StoryPush assms sound_story_push [OF assms(2), of i s us d es]
        by (auto simp: Let_def)
    qed
  next
    case (StoryQueue i s us n ds)
    show ?thesis
    proof (cases "queue_add e (PushNotificationJob n) 0 None w")
      case None
      then show ?thesis using StoryQueue assms(1,3) by (intro look) auto
    next
      case (Some v)
      then have k': "k' = StoryPush i s us ds" "w' = v" using StoryQueue assms(1) by auto
      show ?thesis
        by (rule sound_same [OF assms(2)])
          (use queue_add_same [OF Some] k' StoryQueue assms(3) in auto)
    qed
  next
    case (StoryMail i s g us)
    then show ?thesis using assms(1,3) by (intro look; cases us) (auto split: if_splits)
  next
    case (StorySend i s g u us)
    obtain sent v where m: "sendPetIsHomeEmail e u (story_mail i s) w = (sent, v)" by fastforce
    then have k': "k' = StoryRecord i s g u sent us" "w' = v" using StorySend assms(1) by auto
    obtain mb where "v = w\<lparr>mailbox := mb\<rparr>" using email_frames(2) [OF m] by blast
    then show ?thesis
      by (intro sound_same [OF assms(2)]) (use k' StorySend assms(3) in auto)
  next
    case (StoryRecord i s g u sent us)
    show ?thesis
    proof (cases "map_of g u")
      case None
      then show ?thesis using StoryRecord assms(1,3) by (intro look) auto
    next
      case (Some d)
      show ?thesis
        by (rule sound_story_row [OF assms(2), where n = "story_mail_row e i d sent w" and i = i])
          (use Some StoryRecord assms(1,3) in auto)
    qed
  next
    case (PushBegin i)
    then show ?thesis using assms(1) by (intro look) (auto split: option.splits if_splits)
  next
    case (PushSend i n d payload)
    then show ?thesis using assms(1) by (intro look) (auto split: prod.splits)
  next
    case (PushWrites i ts r)
    show ?thesis
    proof (cases ts)
      case Nil
      then show ?thesis using PushWrites assms(1) by (intro look) auto
    next
      case (Cons t us)
      then show ?thesis using PushWrites assms(1)
        by (intro sound_reshapes [OF assms(2)]) (auto simp: do_push_reshapes)
    qed
  qed (intro look; use assms(1,3) in auto)+
qed

section \<open>One step of the system\<close>

definition quiet :: "id \<Rightarrow> system \<Rightarrow> bool" where
  "quiet i s \<longleftrightarrow> (case s of (w, ks) \<Rightarrow> ended i w \<and> filter (\<lambda>k. waving k = Some i) ks = [])"

lemma worker_set_ok:
  assumes "system_ok (w, ks)" and "tables_ok w'" and "\<And>i. story_claimed i w \<Longrightarrow> story_claimed i w'"
    and "story_pushes w' = story_pushes w"
  shows "system_ok (w', ks)"
  using assms worker_ok_stable [of w _ w'] by (auto simp: system_ok_def list_all_iff)

lemma advance_ok:
  assumes "sound_step k w k' w'" and "system_ok (w, xs @ k # ys)"
  shows "system_ok (w', xs @ k' # ys)"
proof -
  note a = assms(1) [unfolded sound_step_def]
  have ok: "list_all (worker_ok w) (xs @ ys)" "worker_ok w k" "distinct (claims (xs @ k # ys))"
    using assms(2) by (auto simp: system_ok_def)
  have other: "worker_ok w' m" if m: "m \<in> set (xs @ ys)" for m
  proof (rule worker_ok_stable)
    show "worker_ok w m" using ok(1) m unfolding list_all_iff by blast
    show "story_claimed i w \<Longrightarrow> story_claimed i w'" for i using a by blast
    show "p \<in> set (story_pushes w) \<or> holds_claim m \<noteq> Some (fst p)" if p: "p \<in> set (story_pushes w')" for p
    proof (cases "p \<in> set (story_pushes w)")
      case False
      then have "holds_claim k = Some (fst p)" using a p by blast
      then have "fst p \<notin> set (claims xs) \<union> set (claims ys)" using ok(3) by auto
      then show ?thesis using m claims_iff [of "fst p" xs] claims_iff [of "fst p" ys] by auto
    qed simp
  qed
  have "distinct (claims (xs @ k' # ys))"
  proof (cases "holds_claim k'")
    case None
    then show ?thesis using ok(3) by (auto split: option.splits)
  next
    case (Some i)
    have "i \<notin> set (claims xs) \<union> set (claims ys)"
    proof (cases "holds_claim k = Some i")
      case True
      then show ?thesis using ok(3) by auto
    next
      case False
      then have "\<not> story_claimed i w" using a Some by blast
      then have "holds_claim m \<noteq> Some i" if "m \<in> set (xs @ ys)" for m
        using that ok(1) holder_claimed unfolding list_all_iff by blast
      then show ?thesis unfolding claims_iff Un_iff by auto
    qed
    then show ?thesis using ok(3) Some by (auto split: option.splits)
  qed
  then show ?thesis using other a by (auto simp: system_ok_def list_all_iff)
qed

lemma stop_ok: "system_ok (w, xs @ k # ys) \<Longrightarrow> system_ok (w, xs @ Finished r # ys)"
  by (auto simp: system_ok_def split: option.splits)

lemma system_step_ok:
  assumes "system_ok s" and "system_step s s'"
  shows "system_ok s' \<and> (quiet i s \<longrightarrow> quiet i s' \<and> missing_ids i (fst s') = missing_ids i (fst s))"
  using assms(2,1)
proof cases
  case (command w w' ks)
  have t: "devices w' = devices w" "notifications w' = notifications w"
    using command(3) exec_tables by (auto elim!: alert_stepE)
  have "tables_ok w" using assms(1) command(1) by (simp add: system_ok_def)
  note v = command_views [OF command(3) t this]
  have "story_claimed j w'" if "story_claimed j w" for j
    using that step_evolves [OF _ command(3)] evolves_refl
    by (fastforce simp: story_claimed_def evolves_def split: option.splits)
  moreover have "story_pushes w' = story_pushes w" by (simp add: story_pushes_def t(2))
  ultimately have "system_ok s'" using worker_set_ok [OF _ v(1)] assms(1) command(1,2) by simp
  then show ?thesis using v(2,3) [of i] command(1,2) by (simp add: quiet_def)
next
  case (take_job j w ks)
  then show ?thesis using assms(1) by (simp add: system_ok_def quiet_def)
next
  case (advance e k w k' w' xs ys)
  have ok: "tables_ok w" "worker_ok w k" using assms(1) advance(1) by (simp_all add: system_ok_def)
  note a = advance_sound [OF advance(3) ok]
  have "quiet i s' \<and> missing_ids i w' = missing_ids i w" if "quiet i s"
    using that a advance(1,2) by (auto simp: quiet_def sound_step_def split: if_splits)
  then show ?thesis using advance_ok [OF a] assms(1) advance(1,2) by simp
next
  case (stop w xs k ys r)
  then show ?thesis using assms(1) stop_ok by (auto simp: quiet_def split: if_splits)
next
  case (receipt e j w r w' ks)
  have "reshapes w w'" using receipt_reshapes [of w e j] receipt(3) by simp
  note v = reshapes_views [OF this]
  have "tables_ok w'" using v(4) assms(1) receipt(1) by (simp add: system_ok_def)
  then have "system_ok s'" using worker_set_ok [of w ks w'] assms(1) receipt(1,2) v(1,3)
    by (simp add: story_claimed_def)
  then show ?thesis using v(2,3) receipt(1,2) by (simp add: quiet_def ended_def)
next
  case (report e j u b dk w r w' ks)
  have "distinct (map n_id (notifications w))" using assms(1) report(1) by (simp add: system_ok_def tables_ok_def)
  then have "reshapes w w'" using relevance_reshapes [of w e j u b dk] report(3) by simp
  note v = reshapes_views [OF this]
  have "tables_ok w'" using v(4) assms(1) report(1) by (simp add: system_ok_def)
  then have "system_ok s'" using worker_set_ok [of w ks w'] assms(1) report(1,2) v(1,3)
    by (simp add: story_claimed_def)
  then show ?thesis using v(2,3) report(1,2) by (simp add: quiet_def ended_def)
qed

interpretation system_life: lifecycle system_step system_ok
  by unfold_locales (use system_step_ok in blast)

interpretation system_quiet: lifecycle system_step
  "\<lambda>s. system_ok s \<and> quiet i s \<and> missing_ids i (fst s) = ids"
  by unfold_locales (use system_step_ok in auto)


section \<open>Properties of the system\<close>

text \<open>A schedule: the workers advanced in turn, by their position in the list.\<close>

primrec schedule :: "env \<Rightarrow> nat list \<Rightarrow> system \<Rightarrow> system" where
  "schedule e [] s = s"
| "schedule e (n # ns) s =
     (case s of (w, ks) \<Rightarrow>
        if n < length ks
        then (case worker_next e (ks ! n) w of (k', w') \<Rightarrow> schedule e ns (w', ks[n := k']))
        else (w, ks))"

lemma reaches_trans: "reaches step t u \<Longrightarrow> reaches step s t \<Longrightarrow> reaches step s u"
  by (induction rule: reaches.induct) (auto intro: reaches_step)

lemma schedule_reaches: "reaches system_step s (schedule e ns s)"
proof (induction ns arbitrary: s)
  case Nil
  show ?case by (simp add: reaches_refl)
next
  case (Cons n ns)
  obtain w ks where s: "s = (w, ks)" by fastforce
  show ?case
  proof (cases "n < length ks")
    case False
    then show ?thesis by (simp add: s reaches_refl)
  next
    case True
    obtain k' w' where k': "worker_next e (ks ! n) w = (k', w')" by fastforce
    have "system_step (w, take n ks @ ks ! n # drop (Suc n) ks) (w', take n ks @ k' # drop (Suc n) ks)"
      by (rule advance) (rule k')
    then have one: "system_step s (w', ks[n := k'])"
      using True by (simp add: s id_take_nth_drop [symmetric] upd_conv_take_nth_drop)
    have "reaches system_step s (w', ks[n := k'])" by (rule reaches_step [OF reaches_refl]) (rule one)
    moreover have "reaches system_step (w', ks[n := k']) (schedule e ns (w', ks[n := k']))" by (rule Cons.IH)
    ultimately show ?thesis using True k' reaches_trans by (simp add: s)
  qed
qed

lemma length_schedule: "length (snd (schedule e ns s)) = length (snd s)"
  by (induction ns arbitrary: s) (auto split: prod.split)

text \<open>
  C3. The success story under every interleaving: any number of workers handle jobs of the queue at
  once, statement by statement and stopping anywhere, while alert commands, receipts and reports
  come in, in whatever order and however often the queue delivers its jobs. At most one worker ever
  holds the claim of an alert, no device ever gets two success-story push rows for one alert, every
  success-story row belongs to an alert whose claim is set, notification ids stay unique and the
  alert invariant holds.
\<close>

theorem system_story_once:
  assumes "reaches system_step s s'" and "system_ok s"
  shows "distinct (story_pushes (fst s')) \<and> distinct (claims (snd s')) \<and> alerts_ok (fst s') \<and>
    distinct (map n_id (notifications (fst s'))) \<and>
    list_all (\<lambda>n. is_story n \<longrightarrow> story_claimed (n_alert_id n) (fst s')) (notifications (fst s'))"
  using system_life.reaches_good [OF assms] by (auto simp: system_ok_def tables_ok_def)

definition demo_queue :: world where
  "demo_queue = demo_story\<lparr>queue := [\<lparr>j_job = SuccessStoryJob 41, j_delay = 0, j_jobId = None\<rparr>,
     \<lparr>j_job = AlertNotificationJob 41 (Some HIGH), j_delay = 0, j_jobId = None\<rparr>]\<rparr>"

text \<open>Two deliveries of one story job: both read before either claims.\<close>

definition demo_race :: system where
  "demo_race = schedule (demo_env 5) [0, 1, 0, 1, 0, 0, 0, 1, 0, 0, 1, 0] (demo_queue, [StoryBegin 41, StoryBegin 41])"

theorem system_story_once_witness:
  "story_pushes (fst demo_race) = [(41, 11)] \<and> distinct (claims (snd demo_race)) \<and>
   snd (schedule (demo_env 5) [0, 1] (demo_queue, [StoryBegin 41, StoryBegin 41])) =
     [StoryClaim 41 7 demo_snapshot, StoryClaim 41 7 demo_snapshot]"
proof -
  have "system_ok (demo_queue, [StoryBegin 41, StoryBegin 41])" by code_simp
  moreover have "reaches system_step (demo_queue, [StoryBegin 41, StoryBegin 41]) demo_race"
    unfolding demo_race_def by (rule schedule_reaches)
  ultimately have "distinct (claims (snd demo_race))" using system_story_once by blast
  moreover have "story_pushes (fst demo_race) = [(41, 11)]"
    "snd (schedule (demo_env 5) [0, 1] (demo_queue, [StoryBegin 41, StoryBegin 41])) =
     [StoryClaim 41 7 demo_snapshot, StoryClaim 41 7 demo_snapshot]" by code_simp+
  ultimately show ?thesis by blast
qed

text \<open>
  Rows, not messages: a push job that is delivered again finds its row \<open>SENT\<close> and sends it again,
  because \<open>processPushNotification\<close> never looks at the status.
\<close>

lemma push_sent_again:
  assumes "find_notification i w = Some n" and "n_status n = SENT"
    and "find_device (n_device_id n) w = Some d" and "truthy_str (d_push_token d)"
    and "find_alert (n_alert_id n) w = Some a"
  shows "worker_next e (PushBegin i) w = (PushSend i n d (buildPushPayload n a w), w)"
  using assms by simp

text \<open>
  C2. Quiet after the end: take any moment at which an alert is resolved, cancelled, expired or a
  draft and no worker is in the middle of one of its waves (past its look at the status). From then
  on no missing-pet row (push, exclusion or fallback e-mail) is added for it, whatever commands,
  workers, crashes, redeliveries and reports follow, statement by statement and in any order, and
  although its later waves are still queued; it also never becomes active again.
\<close>

theorem system_quiet_after_end:
  assumes "reaches system_step s s'" and "system_ok s" and "quiet i s"
  shows "missing_ids i (fst s') = missing_ids i (fst s) \<and> quiet i s'"
  using system_quiet.reaches_good [OF assms(1), of i "missing_ids i (fst s)"] assms(2,3) by blast

definition demo_over :: world where
  "demo_over = update_alert 41 (\<lambda>a. a\<lparr>a_status := RESOLVED, a_resolved_at := Some 3\<rparr>) demo_queue"

theorem system_quiet_after_end_witness:
  "missing_ids 41 (fst (schedule (demo_env 9) (replicate 9 0) (demo_queue, [WaveBegin 41 (Some HIGH)]))) \<noteq> [] \<and>
   missing_ids 41 (fst (schedule (demo_env 9) (replicate 9 0) (demo_over, [WaveBegin 41 (Some HIGH)]))) = []"
proof -
  let ?s = "(demo_over, [WaveBegin 41 (Some HIGH)])"
  have "system_ok ?s" "quiet 41 ?s" "missing_ids 41 (fst ?s) = []" by code_simp+
  with system_quiet_after_end [OF schedule_reaches, of ?s 41 "demo_env 9" "replicate 9 0"]
  have "missing_ids 41 (fst (schedule (demo_env 9) (replicate 9 0) ?s)) = []" by metis
  moreover have "missing_ids 41 (fst (schedule (demo_env 9) (replicate 9 0) (demo_queue, [WaveBegin 41 (Some HIGH)]))) \<noteq> []"
    by code_simp
  ultimately show ?thesis by blast
qed

text \<open>
  The condition on the workers is needed. A worker reads the status once; the location query looks at
  it again, but nothing does after that: when the owner cancels the alert between the query and the
  inserts, the wave still adds its row.
\<close>

definition demo_cancelled :: world where
  "demo_cancelled = exec (demo_env 9) (Cancel 41 7 \<lparr>cl_reason = Absent\<rparr>) demo_queue"

text \<open>The worker that has read both.\<close>

definition demo_reader :: worker where
  "demo_reader = hd (snd (schedule (demo_env 9) [0, 0] (demo_queue, [WaveBegin 41 (Some HIGH)])))"

lemma late_wave_row:
  "\<exists>k w' k'. reaches system_step (demo_queue, [WaveBegin 41 (Some HIGH)]) (demo_cancelled, [k]) \<and>
     ended 41 demo_cancelled \<and> missing_ids 41 demo_cancelled = [] \<and>
     reaches system_step (demo_cancelled, [k]) (w', [k']) \<and> missing_ids 41 w' \<noteq> []"
proof -
  let ?s0 = "(demo_queue, [WaveBegin 41 (Some HIGH)])"
  let ?s1 = "schedule (demo_env 9) (replicate 8 0) (demo_cancelled, [demo_reader])"
  have "fst (schedule (demo_env 9) [0, 0] ?s0) = demo_queue"
    by (simp split: option.split prod.split)
  moreover have "snd (schedule (demo_env 9) [0, 0] ?s0) = [demo_reader]"
    using length_schedule [of "demo_env 9" "[0, 0]" ?s0] by (auto simp: demo_reader_def length_Suc_conv simp del: schedule.simps)
  ultimately have k: "schedule (demo_env 9) [0, 0] ?s0 = (demo_queue, [demo_reader])" by (rule prod_eqI [of _ "(demo_queue, [demo_reader])", simplified])
  have "reaches system_step ?s0 (demo_queue, [demo_reader])"
    using schedule_reaches [of ?s0 "demo_env 9" "[0, 0]"] unfolding k .
  moreover have "system_step (demo_queue, [demo_reader]) (demo_cancelled, [demo_reader])"
    unfolding demo_cancelled_def by (rule command) (rule alert_step)
  ultimately have 1: "reaches system_step ?s0 (demo_cancelled, [demo_reader])" by (rule reaches_step)
  have 2: "ended 41 demo_cancelled" "missing_ids 41 demo_cancelled = []" by code_simp+
  have 3: "missing_ids 41 (fst ?s1) \<noteq> []" by code_simp
  obtain k' where "snd ?s1 = [k']"
    using length_schedule [of "demo_env 9" "replicate 8 0" "(demo_cancelled, [demo_reader])"]
    by (auto simp: length_Suc_conv simp del: schedule.simps)
  then have "reaches system_step (demo_cancelled, [demo_reader]) (fst ?s1, [k'])"
    using schedule_reaches [of "(demo_cancelled, [demo_reader])" "demo_env 9" "replicate 8 0"] by (metis prod.collapse)
  with 1 2 3 show ?thesis by blast
qed

end
