(* ===== verification/JsText.thy ===== *)
theory JsText
  imports Prelude
begin

text \<open>
  More of the JavaScript runtime: \<open>String.prototype.split\<close>, the conversion \<open>Number(s)\<close> and
  \<open>parseFloat(s)\<close>. A number is an exact rational; \<open>NaN\<close> and the infinities are \<open>None\<close>.
\<close>

section \<open>split\<close>

fun split_on :: "char \<Rightarrow> string \<Rightarrow> string list" where
  "split_on c [] = [[]]"
| "split_on c (x # xs) =
     (if x = c then [] # split_on c xs
      else (case split_on c xs of [] \<Rightarrow> [[x]] | y # ys \<Rightarrow> (x # y) # ys))"

lemma split_on_nonempty [simp]: "split_on c s \<noteq> []"
  by (induction s) (auto split: list.split)

lemma split_on_plain [js_simps]: "c \<notin> set s \<Longrightarrow> split_on c s = [s]"
  by (induction s) auto

lemma split_on_append [js_simps]: "c \<notin> set s \<Longrightarrow> split_on c (s @ c # t) = s # split_on c t"
  by (induction s) auto

lemma split_on_parts: "y \<in> set (split_on c s) \<Longrightarrow> c \<notin> set y"
proof (induction s arbitrary: y)
  case (Cons x xs)
  then show ?case by (cases "split_on c xs") (auto split: if_splits)
qed simp

text \<open>Joining the parts with the separator gives the string back.\<close>

fun join_on :: "char \<Rightarrow> string list \<Rightarrow> string" where
  "join_on c [] = []"
| "join_on c [s] = s"
| "join_on c (s # ss) = s @ c # join_on c ss"

lemma join_split [js_simps]: "join_on c (split_on c s) = s"
proof (induction s)
  case (Cons x xs)
  show ?case
  proof (cases "split_on c xs")
    case Nil
    then show ?thesis by simp
  next
    case (Cons y ys)
    with Cons.IH show ?thesis by (cases ys) auto
  qed
qed simp

text \<open>\<open>toLowerCase\<close> on ASCII text.\<close>

definition ascii_lower :: "char \<Rightarrow> char" where
  "ascii_lower c = (let n = (of_char c :: nat) in if 65 \<le> n \<and> n \<le> 90 then char_of (n + 32) else c)"

text \<open>\<open>String.prototype.includes\<close>\<close>

fun str_includes :: "string \<Rightarrow> string \<Rightarrow> bool" where
  "str_includes sub [] = (sub = [])"
| "str_includes sub (c # cs) = (take (length sub) (c # cs) = sub \<or> str_includes sub cs)"

text \<open>\<open>toLowerCase\<close>, \<open>startsWith\<close>\<close>

definition lower :: "string \<Rightarrow> string" where
  "lower s = map ascii_lower s"

definition starts_with :: "string \<Rightarrow> string \<Rightarrow> bool" where
  "starts_with prefix s \<longleftrightarrow> take (length prefix) s = prefix"

text \<open>\<open>s.split(sep)\<close> and \<open>xs.join(sep)\<close> for a separator of any length.\<close>

fun split_str :: "string \<Rightarrow> string \<Rightarrow> string list" where
  "split_str sep [] = [[]]"
| "split_str sep (c # cs) =
     (if sep \<noteq> [] \<and> starts_with sep (c # cs) then [] # split_str sep (drop (length sep - 1) cs)
      else (case split_str sep cs of [] \<Rightarrow> [[c]] | p # ps \<Rightarrow> (c # p) # ps))"

fun join_str :: "string \<Rightarrow> string list \<Rightarrow> string" where
  "join_str sep [] = []"
| "join_str sep [x] = x"
| "join_str sep (x # y # ys) = x @ sep @ join_str sep (y # ys)"

lemma split_str_nonempty [simp]: "split_str sep s \<noteq> []"
  by (cases s) (auto split: list.splits)

lemma join_str_Cons: "xs \<noteq> [] \<Longrightarrow> join_str sep (x # xs) = x @ sep @ join_str sep xs"
  by (cases xs) simp_all

lemma starts_with_append: "starts_with p s \<Longrightarrow> p @ drop (length p) s = s"
  by (metis append_take_drop_id starts_with_def)

lemma join_split_str [js_simps]: "join_str sep (split_str sep s) = s"
proof (induction sep s rule: split_str.induct)
  case (2 sep c cs)
  show ?case
  proof (cases "sep \<noteq> [] \<and> starts_with sep (c # cs)")
    case True
    then have "drop (length sep) (c # cs) = drop (length sep - 1) cs" by (cases sep) simp_all
    then have "sep @ drop (length sep - 1) cs = c # cs" using True starts_with_append by metis
    then show ?thesis using True 2 by (simp add: join_str_Cons)
  next
    case False
    then have j: "join_str sep (split_str sep cs) = cs" using 2 by simp
    obtain p ps where p: "split_str sep cs = p # ps" using split_str_nonempty [of sep cs] by (cases "split_str sep cs") auto
    have "join_str sep ((c # p) # ps) = c # cs" using j p by (cases ps) simp_all
    then show ?thesis unfolding split_str.simps(2) if_not_P [OF False] p by simp
  qed
qed simp

section \<open>Numbers\<close>

definition digits_ok :: "string \<Rightarrow> bool" where
  "digits_ok s \<longleftrightarrow> s \<noteq> [] \<and> list_all is_digit s"

text \<open>An exponent: digits with an optional sign.\<close>

definition exponent_value :: "string \<Rightarrow> int option" where
  "exponent_value s =
     (case s of
        [] \<Rightarrow> None
      | c # cs \<Rightarrow>
          if c = CHR ''-'' then (if digits_ok cs then Some (- int (digits_val 0 cs)) else None)
          else if c = CHR ''+'' then (if digits_ok cs then Some (int (digits_val 0 cs)) else None)
          else (if digits_ok s then Some (int (digits_val 0 s)) else None))"

definition scale10 :: "int \<Rightarrow> rat \<Rightarrow> rat" where
  "scale10 k x = (if 0 \<le> k then x * 10 ^ nat k else x / 10 ^ nat (- k))"

text \<open>The digits before the exponent: an integral part, a fraction part, not both empty.\<close>

definition mantissa_value :: "string \<Rightarrow> rat option" where
  "mantissa_value s =
     (let ip = takeWhile (\<lambda>c. c \<noteq> CHR ''.'') s; rest = dropWhile (\<lambda>c. c \<noteq> CHR ''.'') s; fp = tl rest
      in if list_all is_digit ip \<and> list_all is_digit fp \<and> (ip \<noteq> [] \<or> fp \<noteq> [])
         then Some (of_nat (digits_val 0 ip) + of_nat (digits_val 0 fp) / 10 ^ length fp) else None)"

definition is_exp_mark :: "char \<Rightarrow> bool" where
  "is_exp_mark c \<longleftrightarrow> c = CHR ''e'' \<or> c = CHR ''E''"

definition unsigned_decimal :: "string \<Rightarrow> rat option" where
  "unsigned_decimal s =
     (let m = takeWhile (\<lambda>c. \<not> is_exp_mark c) s; rest = dropWhile (\<lambda>c. \<not> is_exp_mark c) s
      in if rest = [] then mantissa_value m
         else (case (mantissa_value m, exponent_value (tl rest)) of
                 (Some x, Some k) \<Rightarrow> Some (scale10 k x) | _ \<Rightarrow> None))"

definition decimal_literal :: "string \<Rightarrow> rat option" where
  "decimal_literal s =
     (case s of
        [] \<Rightarrow> None
      | c # cs \<Rightarrow>
          if c = CHR ''-'' then map_option uminus (unsigned_decimal cs)
          else if c = CHR ''+'' then unsigned_decimal cs else unsigned_decimal s)"

text \<open>Literals in base 16, 8 and 2; they take no sign.\<close>

definition radix_digit :: "char \<Rightarrow> nat option" where
  "radix_digit c =
     (let n = (of_char c :: nat) in
      if 48 \<le> n \<and> n \<le> 57 then Some (n - 48) else if 97 \<le> n \<and> n \<le> 102 then Some (n - 87)
      else if 65 \<le> n \<and> n \<le> 70 then Some (n - 55) else None)"

definition radix_value :: "nat \<Rightarrow> string \<Rightarrow> rat option" where
  "radix_value b s =
     (if s \<noteq> [] \<and> list_all (\<lambda>c. case radix_digit c of None \<Rightarrow> False | Some d \<Rightarrow> d < b) s
      then Some (of_nat (foldl (\<lambda>a c. b * a + the (radix_digit c)) 0 s)) else None)"

definition js_number :: "string \<Rightarrow> rat option" where
  "js_number s =
     (let t = trim s; p = take 2 t in
      if t = [] then Some 0
      else if p = ''0x'' \<or> p = ''0X'' then radix_value 16 (drop 2 t)
      else if p = ''0o'' \<or> p = ''0O'' then radix_value 8 (drop 2 t)
      else if p = ''0b'' \<or> p = ''0B'' then radix_value 2 (drop 2 t)
      else decimal_literal t)"

text \<open>\<open>parseFloat\<close>: the longest prefix, after leading white space, that is a decimal literal.\<close>

definition js_parse_float :: "string \<Rightarrow> rat option" where
  "js_parse_float s =
     (let t = dropWhile is_space s;
          found = filter (\<lambda>n. decimal_literal (take n t) \<noteq> None) (rev [1..<Suc (length t)])
      in case found of [] \<Rightarrow> None | n # _ \<Rightarrow> decimal_literal (take n t))"

definition is_integer :: "rat \<Rightarrow> bool" where
  "is_integer x \<longleftrightarrow> of_int \<lfloor>x\<rfloor> = x"

lemma digit_plain: "is_digit c \<Longrightarrow> c \<noteq> CHR ''.'' \<and> \<not> is_exp_mark c"
  by (auto simp: is_digit_def is_exp_mark_def)

lemma decimal_literal_digits:
  assumes "digits_ok s"
  shows "decimal_literal s = Some (of_nat (digits_val 0 s))"
proof -
  have d: "\<forall>c\<in>set s. is_digit c" "s \<noteq> []" using assms by (auto simp: digits_ok_def list_all_iff)
  have tw: "takeWhile (\<lambda>c. c \<noteq> CHR ''.'') s = s" "takeWhile (\<lambda>c. \<not> is_exp_mark c) s = s"
    using d(1) digit_plain by (auto simp: takeWhile_eq_all_conv)
  have dw: "dropWhile (\<lambda>c. c \<noteq> CHR ''.'') s = []" "dropWhile (\<lambda>c. \<not> is_exp_mark c) s = []"
    using d(1) digit_plain by auto
  obtain c cs where s: "s = c # cs" using d(2) by (cases s) auto
  have c: "c \<noteq> CHR ''-''" "c \<noteq> CHR ''+''" using d(1) s by (auto simp: is_digit_def)
  have "unsigned_decimal s = Some (of_nat (digits_val 0 s))"
    unfolding unsigned_decimal_def mantissa_value_def Let_def tw dw
    using d by (simp add: list_all_iff digits_val_def)
  then show ?thesis using s c by (simp add: decimal_literal_def)
qed

lemma dropWhile_none: "(\<And>c. c \<in> set xs \<Longrightarrow> \<not> P c) \<Longrightarrow> dropWhile P xs = xs"
  by (cases xs) auto

lemma trim_plain: "(\<And>c. c \<in> set s \<Longrightarrow> \<not> is_space c) \<Longrightarrow> trim s = s"
  using dropWhile_none [of s is_space] dropWhile_none [of "rev s" is_space] by (simp add: trim_def)

lemma js_number_show_nat [js_simps]: "js_number (show_nat n) = Some (of_nat n)"
proof -
  have ok: "digits_ok (show_nat n)" using show_nat_digits by (simp add: digits_ok_def)
  have sp: "\<not> is_space c" if "c \<in> set (show_nat n)" for c
    using that show_nat_digits [of n] digit_not_special by (auto simp: list_all_iff)
  have t: "trim (show_nat n) = show_nat n" using sp by (rule trim_plain)
  have "take 2 (show_nat n) \<noteq> [CHR ''0'', c]" if "\<not> is_digit c" for c
  proof
    assume "take 2 (show_nat n) = [CHR ''0'', c]"
    then have "c \<in> set (take 2 (show_nat n))" by simp
    then have "c \<in> set (show_nat n)" by (meson in_set_takeD)
    then show False using that show_nat_digits [of n] by (auto simp: list_all_iff)
  qed
  then show ?thesis
    using t decimal_literal_digits [OF ok] by (simp add: js_number_def Let_def digits_val_show_nat is_digit_def)
qed

section \<open>Printing a number\<close>

text \<open>
  The digits of a fraction part. \<open>String(x)\<close> of a number between a millionth and \<open>10 ^ 21\<close> with at
  most twenty decimals is its integral part and these digits.
\<close>

primrec fraction_digits :: "nat \<Rightarrow> rat \<Rightarrow> string" where
  "fraction_digits 0 x = []"
| "fraction_digits (Suc n) x =
     (if x = 0 then [] else digit_char (nat \<lfloor>10 * x\<rfloor>) # fraction_digits n (10 * x - of_int \<lfloor>10 * x\<rfloor>))"

definition show_number :: "rat \<Rightarrow> string" where
  "show_number x =
     (let a = \<bar>x\<bar>; ip = \<lfloor>a\<rfloor>; fp = fraction_digits 20 (a - of_int ip)
      in (if x < 0 then ''-'' else []) @ show_nat (nat ip) @ (if fp = [] then [] else CHR ''.'' # fp))"

lemma fraction_digits_0 [simp]: "fraction_digits n 0 = []"
  by (cases n) simp_all

lemma show_number_int [js_simps]: "0 \<le> n \<Longrightarrow> show_number (of_int n) = show_nat (nat n)"
  by (simp add: show_number_def Let_def)

end
