(* ===== verification/Upload.thy ===== *)
theory Upload
  imports World JsText "HOL-Library.Word"
begin

text \<open>
  \<open>src/upload/upload.service.ts\<close>, \<open>image-type.ts\<close> and \<open>cloudinary.service.ts\<close>: recognising images by
  their first bytes, validating and storing uploaded files, and the names under which they are
  stored. A buffer is a list of 8-bit words. The Cloudinary SDK, random identifiers and the order in
  which concurrent uploads fail are the fields of \<open>cloud\<close>.
\<close>

unbundle bit_operations_syntax

section \<open>Recognising images\<close>

type_synonym bytes = "8 word list"

text \<open>\<open>buffer.toString('ascii', from, to)\<close>: the decoder clears the highest bit of every byte.\<close>

definition ascii_slice :: "bytes \<Rightarrow> nat \<Rightarrow> nat \<Rightarrow> string" where
  "ascii_slice buffer a b = map (\<lambda>x. char_of (unat (x AND 0x7F))) (take (b - a) (drop a buffer))"

definition readUInt32BE :: "bytes \<Rightarrow> nat" where
  "readUInt32BE buffer = ((unat (buffer ! 0) * 256 + unat (buffer ! 1)) * 256 + unat (buffer ! 2)) * 256 + unat (buffer ! 3)"

definition HEIC_BRANDS :: "string list" where
  "HEIC_BRANDS = [''heic'', ''heix'', ''hevc'', ''hevx'']"

definition HEIF_BRANDS :: "string list" where
  "HEIF_BRANDS = [''mif1'', ''msf1'', ''heif'', ''heim'', ''heis'', ''avif'']"

definition brand_type :: "string \<Rightarrow> string option" where
  "brand_type brand =
     (if brand \<in> set HEIC_BRANDS then Some ''image/heic''
      else if brand \<in> set HEIF_BRANDS then Some ''image/heif'' else None)"

text \<open>The compatible brands from \<open>offset\<close> on.\<close>

function brand_loop :: "bytes \<Rightarrow> nat \<Rightarrow> nat \<Rightarrow> string option" where
  "brand_loop buffer boxSize offset =
     (if offset + 4 \<le> boxSize
      then (case brand_type (map ascii_lower (ascii_slice buffer offset (offset + 4))) of
              Some t \<Rightarrow> Some t
            | None \<Rightarrow> brand_loop buffer boxSize (offset + 4))
      else None)"
  by pat_completeness auto

termination
  by (relation "measure (\<lambda>(_, boxSize, offset). boxSize - offset)") auto

declare brand_loop.simps [simp del]

definition sniffImageType :: "bytes option \<Rightarrow> string option" where
  "sniffImageType buf =
     (case buf of
        None \<Rightarrow> None
      | Some buffer \<Rightarrow>
          if length buffer < 12 then None
          else if take 3 buffer = [0xFF, 0xD8, 0xFF] then Some ''image/jpeg''
          else if take 8 buffer = [0x89, 0x50, 0x4E, 0x47, 0x0D, 0x0A, 0x1A, 0x0A] then Some ''image/png''
          else if ascii_slice buffer 0 4 = ''RIFF'' \<and> ascii_slice buffer 8 12 = ''WEBP'' then Some ''image/webp''
          else if ascii_slice buffer 4 8 = ''ftyp'' then
            (case brand_type (map ascii_lower (ascii_slice buffer 8 12)) of
               Some t \<Rightarrow> Some t
             | None \<Rightarrow> brand_loop buffer (min (min (readUInt32BE buffer) (length buffer)) 64) 16)
          else None)"

section \<open>Names\<close>

definition is_slash :: "char \<Rightarrow> bool" where
  "is_slash c \<longleftrightarrow> c = CHR ''/''"

text \<open>\<open>replace(/^\\/+|\\/+$/g, '')\<close>\<close>

definition strip_slashes :: "string \<Rightarrow> string" where
  "strip_slashes s = rev (dropWhile is_slash (rev (dropWhile is_slash s)))"

definition config_or :: "env \<Rightarrow> string \<Rightarrow> string \<Rightarrow> string" where
  "config_or e k d = (case getenv e k of None \<Rightarrow> d | Some s \<Rightarrow> s)"

definition buildFolder :: "env \<Rightarrow> string \<Rightarrow> string" where
  "buildFolder e folder =
     join_on CHR ''/'' (filter (\<lambda>s. s \<noteq> []) (map strip_slashes (filter (\<lambda>s. s \<noteq> []) [config_or e ''CLOUDINARY_FOLDER'' [], folder])))"

text \<open>\<open>replace(/\\.[^/.]+$/, '')\<close>\<close>

definition drop_extension :: "string \<Rightarrow> string" where
  "drop_extension s =
     (let ext = takeWhile (\<lambda>c. c \<noteq> CHR ''/'' \<and> c \<noteq> CHR ''.'') (rev s);
          rest = dropWhile (\<lambda>c. c \<noteq> CHR ''/'' \<and> c \<noteq> CHR ''.'') (rev s)
      in if ext \<noteq> [] \<and> rest \<noteq> [] \<and> hd rest = CHR ''.'' then rev (tl rest) else s)"

definition is_safe_char :: "char \<Rightarrow> bool" where
  "is_safe_char c \<longleftrightarrow> (let n = (of_char c :: nat) in
     (97 \<le> n \<and> n \<le> 122) \<or> (65 \<le> n \<and> n \<le> 90) \<or> (48 \<le> n \<and> n \<le> 57) \<or> c = CHR ''_'' \<or> c = CHR ''-'')"

text \<open>\<open>replace(/_+/g, '_')\<close>\<close>

fun squeeze_underscores :: "string \<Rightarrow> string" where
  "squeeze_underscores (c # d # cs) =
     (if c = CHR ''_'' \<and> d = CHR ''_'' then squeeze_underscores (d # cs) else c # squeeze_underscores (d # cs))"
| "squeeze_underscores cs = cs"

definition strip_underscores :: "string \<Rightarrow> string" where
  "strip_underscores s = rev (dropWhile (\<lambda>c. c = CHR ''_'') (rev (dropWhile (\<lambda>c. c = CHR ''_'') s)))"

definition buildPublicId :: "env \<Rightarrow> string \<Rightarrow> string" where
  "buildPublicId e filename =
     (let safeFilename = take 120 (strip_underscores (squeeze_underscores
            (map (\<lambda>c. if is_safe_char c then c else CHR ''_'') (drop_extension filename))))
      in show_int (now e) @ ''-'' @ (if safeFilename = [] then ''image'' else safeFilename))"

text \<open>\<open>indexOf\<close> of a marker and what follows it.\<close>

fun after_marker :: "string \<Rightarrow> string \<Rightarrow> string option" where
  "after_marker m s =
     (if take (length m) s = m then Some (drop (length m) s)
      else case s of [] \<Rightarrow> None | _ # cs \<Rightarrow> after_marker m cs)"

declare after_marker.simps [simp del]

text \<open>\<open>replace(/^v\\d+\\//, '')\<close>\<close>

definition drop_version :: "string \<Rightarrow> string" where
  "drop_version s =
     (case s of
        [] \<Rightarrow> s
      | c # cs \<Rightarrow>
          let digits = takeWhile is_digit cs; rest = dropWhile is_digit cs
          in if c = CHR ''v'' \<and> digits \<noteq> [] \<and> rest \<noteq> [] \<and> hd rest = CHR ''/'' then tl rest else s)"

definition extractPublicId :: "string \<Rightarrow> string option" where
  "extractPublicId url =
     (case after_marker ''/upload/'' url of
        None \<Rightarrow> None
      | Some pathAfterUpload \<Rightarrow>
          Some (drop_extension (drop_version (hd (split_on CHR ''?'' pathAfterUpload)))))"

section \<open>Storing files\<close>

record upload_options =
  uo_webOptimise :: bool
  uo_randomPublicId :: bool

record cloud =
  sdk_upload :: "string \<Rightarrow> string \<Rightarrow> bool \<Rightarrow> bytes \<Rightarrow> exn + string option" \<comment> \<open>folder, public id, optimised; secure URL\<close>
  sdk_uuid :: "nat \<Rightarrow> string" \<comment> \<open>the random identifier drawn for the n-th file of a batch\<close>
  sdk_first :: "exn list \<Rightarrow> exn" \<comment> \<open>which failure of a batch is reported first\<close>
  sdk_destroy :: "string \<Rightarrow> bool"

definition ensureConfigured :: "env \<Rightarrow> bool" where
  "ensureConfigured e \<longleftrightarrow> truthy_str (getenv e ''CLOUDINARY_CLOUD_NAME'') \<and> truthy_str (getenv e ''CLOUDINARY_API_KEY'') \<and>
     truthy_str (getenv e ''CLOUDINARY_SECRET'')"

definition not_configured :: exn where
  "not_configured = InternalServerErrorException ''Cloudinary upload is not configured''"

definition cloudinaryUpload ::
  "env \<Rightarrow> cloud \<Rightarrow> nat \<Rightarrow> bytes \<Rightarrow> string \<Rightarrow> string \<Rightarrow> upload_options \<Rightarrow> exn + string" where
  "cloudinaryUpload e cl k file folder filename options =
     (if \<not> ensureConfigured e then Inl not_configured
      else case sdk_upload cl (buildFolder e folder)
             (if uo_randomPublicId options then sdk_uuid cl k else buildPublicId e filename) (uo_webOptimise options) file of
        Inl err \<Rightarrow> Inl err
      | Inr url \<Rightarrow> if truthy_str url then Inr (the url) else Inl (Error ''Cloudinary upload did not return a secure URL''))"

definition deleteImageByUrl :: "env \<Rightarrow> cloud \<Rightarrow> string \<Rightarrow> exn + unit" where
  "deleteImageByUrl e cl url =
     (if \<not> ensureConfigured e then Inl not_configured
      else case extractPublicId url of
        None \<Rightarrow> Inl (Error ''Invalid Cloudinary URL format'')
      | Some publicId \<Rightarrow>
          if publicId = [] then Inl (Error ''Invalid Cloudinary URL format'')
          else if sdk_destroy cl publicId then Inr () else Inl (Error ''destroy failed''))"

text \<open>\<open>UploadService.deleteFile\<close> reports no failure.\<close>

definition deleteFile :: "env \<Rightarrow> cloud \<Rightarrow> string \<Rightarrow> unit" where
  "deleteFile e cl url = (case deleteImageByUrl e cl url of Inl _ \<Rightarrow> () | Inr _ \<Rightarrow> ())"

record upload_file =
  uf_buffer :: bytes
  uf_size :: int
  uf_mimetype :: "string option"
  uf_originalname :: string

definition DEFAULT_MAX_FILES_PER_UPLOAD :: nat where "DEFAULT_MAX_FILES_PER_UPLOAD = 5"

text \<open>The configured value is used as it is: a text that is no number makes every comparison false.\<close>

definition maxFileSize :: "env \<Rightarrow> rat option" where
  "maxFileSize e = (case getenv e ''MAX_FILE_SIZE'' of None \<Rightarrow> Some (10 * 1024 * 1024) | Some s \<Rightarrow> js_number s)"

definition allowedImageTypes :: "string list" where
  "allowedImageTypes = [''image/jpeg'', ''image/jpg'', ''image/png'', ''image/webp'', ''image/heic'', ''image/heif'']"

definition resolveMimeType :: "upload_file \<Rightarrow> string" where
  "resolveMimeType file =
     (case sniffImageType (Some (uf_buffer file)) of
        Some t \<Rightarrow> t
      | None \<Rightarrow> map ascii_lower (case uf_mimetype file of None \<Rightarrow> [] | Some m \<Rightarrow> m))"

definition invalid_type_message :: string where
  "invalid_type_message = ''Invalid file type. Allowed types: image/jpeg, image/jpg, image/png, image/webp, image/heic, image/heif''"

definition validate_file :: "env \<Rightarrow> upload_file \<Rightarrow> exn option" where
  "validate_file e file =
     (case maxFileSize e of
        Some m \<Rightarrow>
          if of_int (uf_size file) > m
          then Some (BadRequestException (''File size exceeds maximum allowed size of '' @ show_number (m / (1024 * 1024)) @ ''MB''))
          else if resolveMimeType file \<notin> set allowedImageTypes then Some (BadRequestException invalid_type_message) else None
      | None \<Rightarrow>
          if resolveMimeType file \<notin> set allowedImageTypes then Some (BadRequestException invalid_type_message) else None)"

definition uploadImage ::
  "env \<Rightarrow> cloud \<Rightarrow> nat \<Rightarrow> upload_file option \<Rightarrow> string \<Rightarrow> upload_options \<Rightarrow> exn + string" where
  "uploadImage e cl k file folder options =
     (case file of
        None \<Rightarrow> Inl (BadRequestException ''No file provided'')
      | Some f \<Rightarrow>
          (case validate_file e f of
             Some err \<Rightarrow> Inl err
           | None \<Rightarrow> cloudinaryUpload e cl k (uf_buffer f) folder (uf_originalname f) options))"

text \<open>
  All files of a batch are handled at once. A file that fails validation is rejected at once and is
  reported before any failure of the provider.
\<close>

definition uploadImages ::
  "env \<Rightarrow> cloud \<Rightarrow> upload_file list \<Rightarrow> string \<Rightarrow> nat \<Rightarrow> upload_options \<Rightarrow> exn + string list" where
  "uploadImages e cl files folder maxFiles options =
     (if files = [] then Inr []
      else if length files > maxFiles
      then Inl (BadRequestException (''Maximum '' @ show_nat maxFiles @ '' images allowed per upload''))
      else case List.map_filter (validate_file e) files of
        err # _ \<Rightarrow> Inl err
      | [] \<Rightarrow>
          let results = map (\<lambda>(k, f). uploadImage e cl k (Some f) folder options) (enumerate 0 files)
          in if list_all is_ok results then Inr (map projr results)
             else Inl (sdk_first cl (map projl (filter (\<lambda>r. \<not> is_ok r) results))))"

section \<open>What the upload guarantees\<close>

lemma brand_type_cases: "brand_type b = Some t \<Longrightarrow> t = ''image/heic'' \<or> t = ''image/heif''"
  by (auto simp: brand_type_def split: if_splits)

lemma brand_loop_type: "brand_loop buffer n k = Some t \<Longrightarrow> t = ''image/heic'' \<or> t = ''image/heif''"
proof (induction buffer n k rule: brand_loop.induct)
  case (1 buffer n k)
  then show ?case
    using brand_type_cases by (auto simp: brand_loop.simps [of buffer n k] split: if_splits option.splits)
qed

lemma sniffed_allowed: "sniffImageType b = Some t \<Longrightarrow> t \<in> set allowedImageTypes"
  using brand_type_cases brand_loop_type
  by (auto simp: sniffImageType_def allowedImageTypes_def split: option.splits if_splits)

definition size_ok :: "env \<Rightarrow> upload_file \<Rightarrow> bool" where
  "size_ok e f = (case maxFileSize e of None \<Rightarrow> True | Some m \<Rightarrow> of_int (uf_size f) \<le> m)"

text \<open>
  Which files are accepted: a file passes validation exactly when it is within the size limit and
  either its first bytes are those of a supported image or, when they are not, its declared
  content type is that of one. In particular the declared type of an unrecognised file is trusted.
\<close>

theorem file_accepted_iff:
  "validate_file e f = None \<longleftrightarrow> size_ok e f \<and>
     ((\<exists>t. sniffImageType (Some (uf_buffer f)) = Some t) \<or>
      map ascii_lower (case uf_mimetype f of None \<Rightarrow> [] | Some m \<Rightarrow> m) \<in> set allowedImageTypes)"
proof (cases "sniffImageType (Some (uf_buffer f))")
  case None
  then show ?thesis by (auto simp: validate_file_def size_ok_def resolveMimeType_def split: option.splits)
next
  case (Some t)
  then have "resolveMimeType f \<in> set allowedImageTypes" using sniffed_allowed by (simp add: resolveMimeType_def)
  then show ?thesis using Some by (auto simp: validate_file_def size_ok_def split: option.splits)
qed

text \<open>Twelve bytes that are no image pass with a declared type.\<close>

lemma spoofed_header_accepted:
  assumes "size_ok e f" and "sniffImageType (Some (uf_buffer f)) = None" and "uf_mimetype f = Some ''image/png''"
  shows "validate_file e f = None"
proof -
  have "map ascii_lower ''image/png'' \<in> set allowedImageTypes" by code_simp
  then have "resolveMimeType f \<in> set allowedImageTypes" using assms(2,3) by (simp add: resolveMimeType_def)
  then show ?thesis using assms(1) by (auto simp: validate_file_def size_ok_def split: option.splits)
qed

lemma sniff_junk: "sniffImageType (Some (replicate 32 0x4D)) = None"
  by code_simp

text \<open>A batch.\<close>

lemma map_filter_Nil: "List.map_filter p xs = [] \<longleftrightarrow> (\<forall>x\<in>set xs. p x = None)"
  by (induction xs) (auto simp: List.map_filter_simps split: option.splits)

lemma projr_results:
  "list_all is_ok (map g xs) \<and> us = map projr (map g xs) \<longleftrightarrow> list_all2 (\<lambda>x u. g x = Inr u) xs us"
proof (induction xs arbitrary: us)
  case (Cons x xs)
  then show ?case by (cases "g x") (auto simp: list_all2_Cons1)
qed auto

lemma upload_batch_iff:
  "uploadImages e cl files folder n options = Inr urls \<longleftrightarrow>
     (files = [] \<and> urls = []) \<or>
     (files \<noteq> [] \<and> length files \<le> n \<and>
      list_all2 (\<lambda>(k, f) url. uploadImage e cl k (Some f) folder options = Inr url) (enumerate 0 files) urls)"
proof -
  let ?g = "\<lambda>(k, f). uploadImage e cl k (Some f) folder options"
  have valid: "List.map_filter (validate_file e) files = []"
    if "list_all2 (\<lambda>x u. ?g x = Inr u) (enumerate 0 files) us" for us
  proof -
    have "validate_file e f = None" if f: "f \<in> set files" for f
    proof -
      obtain k where "(k, f) \<in> set (enumerate 0 files)" using f by (metis enumerate_eq_zip in_set_impl_in_set_zip2 length_upt diff_zero add_0)
      then obtain u where "uploadImage e cl k (Some f) folder options = Inr u"
        using \<open>list_all2 _ _ us\<close> by (auto simp: list_all2_conv_all_nth in_set_conv_nth)
      then show ?thesis by (auto simp: uploadImage_def split: option.splits)
    qed
    then show ?thesis unfolding map_filter_Nil by blast
  qed
  have eq: "(\<lambda>(k, f) url. uploadImage e cl k (Some f) folder options = Inr url) = (\<lambda>x u. ?g x = Inr u)" by auto
  show ?thesis
  proof (cases "files = [] \<or> n < length files")
    case True
    then show ?thesis by (auto simp: uploadImages_def)
  next
    case False
    show ?thesis
    proof (cases "List.map_filter (validate_file e) files")
      case Nil
      then show ?thesis using False projr_results [of ?g "enumerate 0 files" urls] unfolding eq
        by (auto simp: uploadImages_def Let_def)
    next
      case (Cons err errs)
      then show ?thesis using False valid unfolding eq by (auto simp: uploadImages_def)
    qed
  qed
qed

text \<open>
  A batch of images is stored as a whole: the upload succeeds exactly when the batch is empty or
  holds no more files than allowed and every single file is stored, and then it answers one URL
  per file in the order the files were received.
\<close>

theorem upload_batch:
  "uploadImages e cl files folder n options = Inr urls \<longleftrightarrow>
     (files = [] \<and> urls = []) \<or>
     (files \<noteq> [] \<and> length files \<le> n \<and>
      list_all2 (\<lambda>(k, f) url. uploadImage e cl k (Some f) folder options = Inr url) (enumerate 0 files) urls)"
  by (rule upload_batch_iff)

section \<open>Names round trip\<close>

lemma while_split:
  "(\<And>c. c \<in> set s \<Longrightarrow> P c) \<Longrightarrow> \<not> P d \<Longrightarrow> takeWhile P (s @ d # t) = s \<and> dropWhile P (s @ d # t) = d # t"
  by (induction s) auto

lemma after_marker_skip: "c \<noteq> CHR ''/'' \<Longrightarrow> after_marker ''/upload/'' (c # t) = after_marker ''/upload/'' t"
  by (simp add: after_marker.simps [of _ "c # t"])

lemma after_marker_skips: "CHR ''/'' \<notin> set s \<Longrightarrow> after_marker ''/upload/'' (s @ t) = after_marker ''/upload/'' t"
  by (induction s) (auto simp: after_marker_skip)

lemma segment_prefix:
  assumes "CHR ''/'' \<notin> set seg" and "take 8 (CHR ''/'' # seg @ CHR ''/'' # t) = ''/upload/''"
  shows "seg = ''upload''"
proof -
  have seven: "take 7 (seg @ CHR ''/'' # t) = ''upload/''" using assms(2) by (simp add: numeral_eq_Suc)
  have short: "length seg < 7"
  proof (rule ccontr)
    assume "\<not> length seg < 7"
    then have "''upload/'' = take 7 seg" using seven by simp
    then have "CHR ''/'' \<in> set (take 7 seg)" by (metis list.set_intros(1,2))
    then show False using assms(1) by (meson in_set_takeD)
  qed
  have "take 7 (seg @ CHR ''/'' # t) = seg @ CHR ''/'' # take (6 - length seg) t" using short by (simp add: take_Cons')
  moreover have "takeWhile (\<lambda>c. c \<noteq> CHR ''/'') (seg @ CHR ''/'' # take (6 - length seg) t) = seg"
    using while_split [of seg "\<lambda>c. c \<noteq> CHR ''/''" "CHR ''/''" "take (6 - length seg) t"] assms(1) by metis
  ultimately have "takeWhile (\<lambda>c. c \<noteq> CHR ''/'') (take 7 (seg @ CHR ''/'' # t)) = seg" by simp
  then show ?thesis unfolding seven by simp
qed

lemma after_marker_segment:
  assumes "CHR ''/'' \<notin> set seg" and "seg \<noteq> ''upload''"
  shows "after_marker ''/upload/'' (CHR ''/'' # seg @ CHR ''/'' # t) = after_marker ''/upload/'' (CHR ''/'' # t)"
proof -
  have len: "length ''/upload/'' = 8" by simp
  have "take 8 (CHR ''/'' # seg @ CHR ''/'' # t) \<noteq> ''/upload/''" using segment_prefix assms by blast
  then have "after_marker ''/upload/'' (CHR ''/'' # seg @ CHR ''/'' # t) = after_marker ''/upload/'' (seg @ CHR ''/'' # t)"
    unfolding after_marker.simps [of _ "CHR ''/'' # seg @ CHR ''/'' # t"] len by simp
  then show ?thesis using after_marker_skips [OF assms(1)] by simp
qed

text \<open>The documented form of a delivery URL.\<close>

definition delivery_url :: "string \<Rightarrow> nat \<Rightarrow> string \<Rightarrow> string \<Rightarrow> string" where
  "delivery_url cloud_name version public_id ext =
     ''https://res.cloudinary.com/'' @ cloud_name @ ''/image/upload/v'' @ show_nat version @ ''/'' @ public_id @ ''.'' @ ext"

lemma delivery_url_path:
  assumes "CHR ''/'' \<notin> set c" and "c \<noteq> ''upload''"
  shows "after_marker ''/upload/'' (delivery_url c v p x) = Some (CHR ''v'' # show_nat v @ CHR ''/'' # p @ CHR ''.'' # x)"
proof -
  let ?m = "after_marker ''/upload/''"
  define t where "t = CHR ''v'' # show_nat v @ CHR ''/'' # p @ CHR ''.'' # x"
  define t1 where "t1 = ''upload/'' @ t"
  define t2 where "t2 = ''image'' @ CHR ''/'' # t1"
  define t3 where "t3 = c @ CHR ''/'' # t2"
  define t4 where "t4 = ''res.cloudinary.com'' @ CHR ''/'' # t3"
  have "delivery_url c v p x = ''https:'' @ CHR ''/'' # [] @ CHR ''/'' # t4"
    by (simp add: delivery_url_def t_def t1_def t2_def t3_def t4_def)
  moreover have "?m (''https:'' @ CHR ''/'' # [] @ CHR ''/'' # t4) = ?m (CHR ''/'' # [] @ CHR ''/'' # t4)"
    by (rule after_marker_skips) simp
  moreover have "?m (CHR ''/'' # [] @ CHR ''/'' # t4) = ?m (CHR ''/'' # t4)" by (rule after_marker_segment) auto
  moreover have "?m (CHR ''/'' # t4) = ?m (CHR ''/'' # t3)" unfolding t4_def by (rule after_marker_segment) auto
  moreover have "?m (CHR ''/'' # t3) = ?m (CHR ''/'' # t2)" unfolding t3_def by (rule after_marker_segment [OF assms])
  moreover have "?m (CHR ''/'' # t2) = ?m (CHR ''/'' # t1)" unfolding t2_def by (rule after_marker_segment) auto
  moreover have "?m (CHR ''/'' # t1) = Some t" by (simp add: after_marker.simps t1_def)
  ultimately show ?thesis unfolding t_def by metis
qed

lemma drop_extension_append:
  assumes "x \<noteq> []" and "CHR ''/'' \<notin> set x" and "CHR ''.'' \<notin> set x"
  shows "drop_extension (p @ CHR ''.'' # x) = p"
proof -
  have "takeWhile (\<lambda>c. c \<noteq> CHR ''/'' \<and> c \<noteq> CHR ''.'') (rev x @ CHR ''.'' # rev p) = rev x \<and>
    dropWhile (\<lambda>c. c \<noteq> CHR ''/'' \<and> c \<noteq> CHR ''.'') (rev x @ CHR ''.'' # rev p) = CHR ''.'' # rev p"
    by (rule while_split) (use assms(2,3) in auto)
  then show ?thesis using assms(1) by (simp add: drop_extension_def Let_def)
qed

lemma drop_version_show: "drop_version (CHR ''v'' # show_nat v @ CHR ''/'' # t) = t"
proof -
  have d: "\<forall>c\<in>set (show_nat v). is_digit c" "show_nat v \<noteq> []"
    using show_nat_digits [of v] by (auto simp: list_all_iff)
  have "takeWhile is_digit (show_nat v @ CHR ''/'' # t) = show_nat v \<and>
    dropWhile is_digit (show_nat v @ CHR ''/'' # t) = CHR ''/'' # t"
    by (rule while_split) (use d(1) in \<open>auto simp: is_digit_def\<close>)
  then show ?thesis using d(2) unfolding drop_version_def by (simp only: list.case Let_def) simp
qed

text \<open>
  Deleting what was stored: the public id read back from the delivery URL of an image, in the
  documented form, is the public id the image was stored under, so that deleting by URL destroys
  exactly that image.
\<close>

theorem public_id_round_trip:
  assumes "CHR ''/'' \<notin> set c" and "c \<noteq> ''upload''" and "CHR ''?'' \<notin> set p"
    and "x \<noteq> []" and "CHR ''/'' \<notin> set x" and "CHR ''.'' \<notin> set x" and "CHR ''?'' \<notin> set x"
  shows "extractPublicId (delivery_url c v p x) = Some p"
proof -
  have digits: "CHR ''?'' \<notin> set (show_nat v)"
    using show_nat_digits [of v] by (auto simp: list_all_iff is_digit_def)
  have "split_on CHR ''?'' (CHR ''v'' # show_nat v @ CHR ''/'' # p @ CHR ''.'' # x) =
      [CHR ''v'' # show_nat v @ CHR ''/'' # p @ CHR ''.'' # x]"
    by (rule split_on_plain) (use digits assms(3,7) in auto)
  then show ?thesis
    by (simp add: extractPublicId_def delivery_url_path [OF assms(1,2)] drop_version_show
        drop_extension_append [OF assms(4-6)])
qed

theorem public_id_round_trip_witness:
  "extractPublicId (delivery_url ''demo'' 17 ''fifi/sightings/1/v2/a.b'' ''jpg'') = Some ''fifi/sightings/1/v2/a.b''"
  by (rule public_id_round_trip) auto

lemma squeeze_set: "set (squeeze_underscores s) \<subseteq> set s"
  by (induction s rule: squeeze_underscores.induct) auto

lemma strip_set: "set (strip_underscores s) \<subseteq> set s"
proof
  fix x assume "x \<in> set (strip_underscores s)"
  then have "x \<in> set (dropWhile (\<lambda>c. c = CHR ''_'') (rev (dropWhile (\<lambda>c. c = CHR ''_'') s)))"
    by (simp add: strip_underscores_def)
  then have "x \<in> set (rev (dropWhile (\<lambda>c. c = CHR ''_'') s))" by (rule set_dropWhileD)
  then have "x \<in> set (dropWhile (\<lambda>c. c = CHR ''_'') s)" by simp
  then show "x \<in> set s" by (rule set_dropWhileD)
qed

text \<open>A stored name cannot leave its folder: it holds letters, digits, underscores and hyphens only.\<close>

lemma buildPublicId_safe:
  "list_all is_safe_char (buildPublicId e filename) \<and> length (buildPublicId e filename) \<le> length (show_int (now e)) + 121"
proof -
  let ?m = "map (\<lambda>c. if is_safe_char c then c else CHR ''_'') (drop_extension filename)"
  let ?f = "take 120 (strip_underscores (squeeze_underscores ?m))"
  have m: "set ?m \<subseteq> Collect is_safe_char" by (auto simp: is_safe_char_def)
  have "set ?f \<subseteq> set (squeeze_underscores ?m)" using set_take_subset strip_set by (rule order.trans)
  then have f: "list_all is_safe_char ?f"
    using squeeze_set [of ?m] m unfolding list_all_iff by blast
  have n: "list_all is_safe_char (show_int n)" for n
    using show_nat_digits by (auto simp: show_int_def list_all_iff is_safe_char_def is_digit_def)
  have i: "list_all is_safe_char ''image''" "list_all is_safe_char ''-''" by code_simp+
  have len: "length ?f \<le> 120" by simp
  show ?thesis
  proof (cases "?f = []")
    case True
    then have "buildPublicId e filename = show_int (now e) @ ''-'' @ ''image''" unfolding buildPublicId_def Let_def by simp
    then show ?thesis using n i by simp
  next
    case False
    then have "buildPublicId e filename = show_int (now e) @ ''-'' @ ?f" unfolding buildPublicId_def Let_def by simp
    then show ?thesis using n i(2) f len unfolding list_all_append by (simp only: length_append list_all_append) simp
  qed
qed

end
