(* ===== verification/Sighting.thy ===== *)
theory Sighting
  imports AlertLifecycle Upload
begin

text \<open>
  \<open>src/sighting/sighting.service.ts\<close>, \<open>sighting.controller.ts\<close>, its DTOs and
  \<open>src/config/sighting.config.ts\<close>: reporting, listing and dismissing sightings of an alert, and
  attaching photos to them.
\<close>

section \<open>Settings\<close>

definition DEFAULT_MAX_SIGHTING_PHOTOS :: int where "DEFAULT_MAX_SIGHTING_PHOTOS = 3"
definition DEFAULT_SIGHTING_PHOTO_UPLOAD_WINDOW_HOURS :: rat where "DEFAULT_SIGHTING_PHOTO_UPLOAD_WINDOW_HOURS = 24"

definition getMaxSightingPhotos :: "env \<Rightarrow> int" where
  "getMaxSightingPhotos e =
     (case getenv e ''MAX_SIGHTING_PHOTOS'' of
        None \<Rightarrow> DEFAULT_MAX_SIGHTING_PHOTOS
      | Some raw \<Rightarrow>
          (case js_parse_int raw of
             None \<Rightarrow> DEFAULT_MAX_SIGHTING_PHOTOS
           | Some parsed \<Rightarrow> if parsed > 0 then parsed else DEFAULT_MAX_SIGHTING_PHOTOS))"

definition getSightingPhotoUploadWindowHours :: "env \<Rightarrow> rat" where
  "getSightingPhotoUploadWindowHours e =
     (case getenv e ''SIGHTING_PHOTO_UPLOAD_WINDOW_HOURS'' of
        None \<Rightarrow> DEFAULT_SIGHTING_PHOTO_UPLOAD_WINDOW_HOURS
      | Some raw \<Rightarrow>
          (case js_parse_float raw of
             None \<Rightarrow> DEFAULT_SIGHTING_PHOTO_UPLOAD_WINDOW_HOURS
           | Some parsed \<Rightarrow> if parsed > 0 then parsed else DEFAULT_SIGHTING_PHOTO_UPLOAD_WINDOW_HOURS))"

section \<open>Requests and responses\<close>

record create_sighting_dto =
  cs_alert_id :: id
  cs_latitude :: rat
  cs_longitude :: rat
  cs_address :: string
  cs_photo :: "string option"
  cs_notes :: "string option"
  cs_confidence :: confidence
  cs_sighting_time :: time
  cs_direction :: "string option"

definition valid_create_sighting :: "format_checks \<Rightarrow> create_sighting_dto \<Rightarrow> bool" where
  "valid_create_sighting fc d \<longleftrightarrow>
     0 < cs_alert_id d \<and> num_between (- 90) 90 (cs_latitude d) \<and> num_between (- 180) 180 (cs_longitude d) \<and>
     cs_address d \<noteq> [] \<and> opt_ok (fc_isUrl fc) (cs_photo d)"

record dismiss_sighting_dto =
  ds_reason :: string

definition valid_dismiss_sighting :: "dismiss_sighting_dto \<Rightarrow> bool" where
  "valid_dismiss_sighting d \<longleftrightarrow> ds_reason d \<noteq> []"

record sighting_dto =
  sd_id :: id
  sd_alert_id :: id
  sd_reported_by :: id
  sd_latitude :: rat
  sd_longitude :: rat
  sd_address :: "string option"
  sd_photo :: "string option"
  sd_photos :: "string list"
  sd_notes :: "string option"
  sd_confidence :: "string option"
  sd_sighting_time :: time
  sd_direction :: "string option"
  sd_dismissed :: bool
  sd_dismissed_at :: "time option"
  sd_dismissed_reason :: "string option"
  sd_created_at :: time
  sd_updated_at :: time

definition first_photo :: "string list \<Rightarrow> string option" where
  "first_photo ps = (case ps of [] \<Rightarrow> None | p # _ \<Rightarrow> Some p)"

definition mapSightingDto :: "sighting_row \<Rightarrow> sighting_dto" where
  "mapSightingDto s =
     \<lparr>sd_id = sg_id s, sd_alert_id = sg_alert_id s, sd_reported_by = sg_reporter_id s,
      sd_latitude = sg_sighting_lat s, sd_longitude = sg_sighting_lon s, sd_address = sg_location_address s,
      sd_photo = (case sg_photo_url s of Some p \<Rightarrow> Some p | None \<Rightarrow> first_photo (sg_photos s)), sd_photos = sg_photos s,
      sd_notes = sg_notes s, sd_confidence = sg_confidence s, sd_sighting_time = sg_sighting_time s,
      sd_direction = sg_direction s, sd_dismissed = sg_dismissed s, sd_dismissed_at = sg_dismissed_at s,
      sd_dismissed_reason = sg_dismissed_reason s, sd_created_at = sg_created_at s, sd_updated_at = sg_updated_at s\<rparr>"

section \<open>E-mails\<close>

definition alert_brief :: "alert_row \<Rightarrow> json" where
  "alert_brief a = JObj [(''id'', JNum (of_int (a_id a))), (''petName'', JStr (a_pet_name a)),
     (''petSpecies'', JStr (species_name (a_pet_species a)))]"

text \<open>Both mails read the user and the alert first, then render and send.\<close>

definition sighting_mail ::
  "env \<Rightarrow> string \<Rightarrow> string \<Rightarrow> id \<Rightarrow> id \<Rightarrow> (user_row \<Rightarrow> alert_row \<Rightarrow> json) \<Rightarrow> world \<Rightarrow> (exn + user_row) \<times> world" where
  "sighting_mail e template failure userId alertId data w =
     (case find_user userId w of
        None \<Rightarrow> (Inl (Error ''USER_NOT_FOUND''), w)
      | Some user \<Rightarrow>
          (case find_alert alertId w of
             None \<Rightarrow> (Inl (Error ''ALERT_NOT_FOUND''), w)
           | Some alert \<Rightarrow>
               (case send_html e template (u_email user) (data user alert) w of
                  (sent, w') \<Rightarrow> (if sent then Inr user else Inl (Error failure), w'))))"

definition sendSightingReportedEmail :: "env \<Rightarrow> id \<Rightarrow> id \<Rightarrow> sighting_dto \<Rightarrow> world \<Rightarrow> (exn + string) \<times> world" where
  "sendSightingReportedEmail e alertCreatorId alertId sighting w =
     (case sighting_mail e ''sightingReported'' ''FAILED_TO_SEND_SIGHTING_REPORTED_EMAIL'' alertCreatorId alertId
        (\<lambda>user alert. JObj [(''user'', user_json user), (''alert'', alert_brief alert),
           (''sighting'', JObj [(''id'', JNum (of_int (sd_id sighting))), (''location'', jstr_opt (sd_address sighting)),
              (''latitude'', JNum (sd_latitude sighting)), (''longitude'', JNum (sd_longitude sighting)),
              (''confidence'', jstr_opt (sd_confidence sighting)), (''sightingTime'', JDate (sd_sighting_time sighting)),
              (''photo'', jstr_opt (sd_photo sighting)), (''notes'', jstr_opt (sd_notes sighting)),
              (''direction'', jstr_opt (sd_direction sighting))]),
           (''appUrl'', JStr (getWebAppUrl e))]) w of
        (Inl x, w') \<Rightarrow> (Inl x, w')
      | (Inr user, w') \<Rightarrow> (Inr (''Sighting email sent to '' @ u_email user), w'))"

definition sendSightingDismissedEmail ::
  "env \<Rightarrow> id \<Rightarrow> id \<Rightarrow> sighting_dto \<Rightarrow> string \<Rightarrow> world \<Rightarrow> (exn + string) \<times> world" where
  "sendSightingDismissedEmail e reporterId alertId sighting dismissReason w =
     (case sighting_mail e ''sightingDismissed'' ''FAILED_TO_SEND_SIGHTING_DISMISSED_EMAIL'' reporterId alertId
        (\<lambda>user alert. JObj [(''user'', user_json user), (''alert'', alert_brief alert),
           (''sighting'', JObj [(''id'', JNum (of_int (sd_id sighting))), (''location'', jstr_opt (sd_address sighting)),
              (''sightingTime'', JDate (sd_sighting_time sighting))]),
           (''dismissReason'', JStr dismissReason), (''appUrl'', JStr (getWebAppUrl e))]) w of
        (Inl x, w') \<Rightarrow> (Inl x, w')
      | (Inr user, w') \<Rightarrow> (Inr (''Dismissal email sent to '' @ u_email user), w'))"

section \<open>Reporting\<close>

text \<open>
  One row per device of the creator, and for each of them all waves of the alert are queued again;
  a failing queue is logged and the loop goes on.
\<close>

definition sighting_reason :: "create_sighting_dto \<Rightarrow> string" where
  "sighting_reason dto =
     ''Sighting reported at '' @ (if cs_address dto \<noteq> [] then cs_address dto else ''unknown location'')"

definition notify_device :: "env \<Rightarrow> id \<Rightarrow> create_sighting_dto \<Rightarrow> device_row \<Rightarrow> world \<Rightarrow> world" where
  "notify_device e alertId dto d w =
     (let n = (blank_notification e alertId (d_id d) (cs_confidence dto) (sighting_reason dto) w)\<lparr>n_distance_km := Some 0\<rparr>
      in snd (queueAlertNotifications e alertId (insert_notification n w)))"

definition notifyCreatorOfSighting :: "env \<Rightarrow> id \<Rightarrow> id \<Rightarrow> create_sighting_dto \<Rightarrow> world \<Rightarrow> world" where
  "notifyCreatorOfSighting e creatorId alertId dto w =
     fold (notify_device e alertId dto)
       (filter (\<lambda>d. d_user_id d = creatorId \<and> d_push_token d \<noteq> None) (devices w)) w"

definition new_sighting_row :: "env \<Rightarrow> create_sighting_dto \<Rightarrow> id \<Rightarrow> world \<Rightarrow> sighting_row" where
  "new_sighting_row e dto reporterId w =
     \<lparr>sg_id = next_id sg_id (sightings w), sg_alert_id = cs_alert_id dto, sg_reporter_id = reporterId,
      sg_sighting_lat = cs_latitude dto, sg_sighting_lon = cs_longitude dto,
      sg_location_point = (cs_longitude dto, cs_latitude dto), sg_location_address = Some (cs_address dto),
      sg_photo_url = or_null (cs_photo dto),
      sg_photos = (case or_null (cs_photo dto) of None \<Rightarrow> [] | Some p \<Rightarrow> [p]), sg_notes = or_null (cs_notes dto),
      sg_confidence = Some (confidence_name (cs_confidence dto)), sg_sighting_time = cs_sighting_time dto,
      sg_direction = or_null (cs_direction dto), sg_dismissed = False, sg_dismissed_at = None,
      sg_dismissed_reason = None, sg_created_at = now e, sg_updated_at = now e\<rparr>"

definition sighting_audit :: "id \<Rightarrow> id \<Rightarrow> create_sighting_dto \<Rightarrow> audit_payload" where
  "sighting_audit sightingId reporterId dto =
     entity_audit ''CREATE'' ''SIGHTING'' sightingId reporterId ''sighting_reported''
       (''Sighting reported for alert #'' @ show_int (cs_alert_id dto)) JUndefined
       (JObj [(''alertId'', JNum (of_int (cs_alert_id dto))), (''confidence'', JStr (confidence_name (cs_confidence dto))),
          (''location'', JObj [(''lat'', JNum (cs_latitude dto)), (''lon'', JNum (cs_longitude dto))]),
          (''sightingTime'', JDate (cs_sighting_time dto))])"

definition sighting_not_found :: "id \<Rightarrow> exn" where
  "sighting_not_found i = NotFoundException (''Sighting with ID '' @ show_int i @ '' not found'')"

definition create_sighting :: "env \<Rightarrow> create_sighting_dto \<Rightarrow> id \<Rightarrow> world \<Rightarrow> (exn + sighting_dto) \<times> world" where
  "create_sighting e dto reporterId w =
     (case find_alert (cs_alert_id dto) w of
        None \<Rightarrow> (Inl (not_found (cs_alert_id dto)), w)
      | Some alert \<Rightarrow>
          if a_status alert \<noteq> ACTIVE
          then (Inl (BadRequestException (''Cannot report sighting for '' @ status_lower (a_status alert) @ '' alert'')), w)
          else
            let row = new_sighting_row e dto reporterId w;
                w1 = w\<lparr>sightings := sightings w @ [row]\<rparr>;
                w2 = emit_audit ENTITY_CREATED (sighting_audit (sg_id row) reporterId dto) w1;
                w3 = notifyCreatorOfSighting e (a_creator_id alert) (cs_alert_id dto) dto w2
            in case find_sighting (sg_id row) w3 of
                 None \<Rightarrow> (Inl (NotFoundException (''Sighting with ID '' @ show_int (sg_id row) @ '' not found after creation'')), w3)
               | Some sighting \<Rightarrow>
                   (Inr (mapSightingDto sighting),
                    snd (sendSightingReportedEmail e (a_creator_id alert) (cs_alert_id dto) (mapSightingDto sighting) w3)))"

section \<open>Reading\<close>

definition findOneSighting :: "id \<Rightarrow> world \<Rightarrow> sighting_dto option" where
  "findOneSighting sightingId w = map_option mapSightingDto (find_sighting sightingId w)"

definition findByAlert :: "id \<Rightarrow> id option \<Rightarrow> world \<Rightarrow> exn + sighting_dto list" where
  "findByAlert alertId requesterId w =
     (case find_alert alertId w of
        None \<Rightarrow> Inl (not_found alertId)
      | Some alert \<Rightarrow>
          let isCreator = (requesterId = Some (a_creator_id alert))
          in Inr (map mapSightingDto (sort_key (\<lambda>s. - sg_sighting_time s)
               (filter (\<lambda>s. sg_alert_id s = alertId \<and> (isCreator \<or> \<not> sg_dismissed s)) (sightings w)))))"

section \<open>Dismissing\<close>

definition dismiss_row :: "env \<Rightarrow> dismiss_sighting_dto \<Rightarrow> sighting_row \<Rightarrow> sighting_row" where
  "dismiss_row e dto s = s\<lparr>sg_dismissed := True, sg_dismissed_at := Some (now e),
     sg_dismissed_reason := Some (ds_reason dto), sg_updated_at := now e\<rparr>"

definition dismiss_audit :: "id \<Rightarrow> id \<Rightarrow> dismiss_sighting_dto \<Rightarrow> sighting_row \<Rightarrow> audit_payload" where
  "dismiss_audit sightingId requesterId dto s =
     entity_audit ''UPDATE'' ''SIGHTING'' sightingId requesterId ''sighting_dismissed''
       (''Dismissed sighting #'' @ show_int sightingId @ '': '' @ ds_reason dto)
       (JObj [(''dismissed'', JBool (sg_dismissed s)), (''dismissedAt'', jdate_opt (sg_dismissed_at s)),
          (''dismissedReason'', jstr_opt (sg_dismissed_reason s))])
       (JObj [(''dismissed'', JBool True), (''dismissedReason'', JStr (ds_reason dto))])"

definition dismiss :: "env \<Rightarrow> id \<Rightarrow> dismiss_sighting_dto \<Rightarrow> id \<Rightarrow> world \<Rightarrow> (exn + sighting_dto) \<times> world" where
  "dismiss e sightingId dto requesterId w =
     (case find_sighting sightingId w of
        None \<Rightarrow> (Inl (sighting_not_found sightingId), w)
      | Some sighting \<Rightarrow>
          (case find_alert (sg_alert_id sighting) w of
             None \<Rightarrow> (Inl (TypeError ''Cannot read properties of null''), w)
           | Some alert \<Rightarrow>
               if a_creator_id alert \<noteq> requesterId
               then (Inl (ForbiddenException ''Only the alert creator can dismiss sightings''), w)
               else if sg_dismissed sighting then (Inl (BadRequestException ''Sighting is already dismissed''), w)
               else (Inr (mapSightingDto (dismiss_row e dto sighting)),
                     emit_audit ENTITY_UPDATED (dismiss_audit sightingId requesterId dto sighting)
                       (update_sighting sightingId (dismiss_row e dto) w))))"

section \<open>Photos\<close>

definition authorizePhotoUpload :: "env \<Rightarrow> id \<Rightarrow> id \<Rightarrow> int \<Rightarrow> world \<Rightarrow> exn + unit" where
  "authorizePhotoUpload e sightingId requesterId incomingCount w =
     (case find_sighting sightingId w of
        None \<Rightarrow> Inl (sighting_not_found sightingId)
      | Some sighting \<Rightarrow>
          if sg_reporter_id sighting \<noteq> requesterId
          then Inl (ForbiddenException ''Only the reporter of a sighting can add photos to it'')
          else case find_alert (sg_alert_id sighting) w of
            None \<Rightarrow> Inl (TypeError ''Cannot read properties of null'')
          | Some alert \<Rightarrow>
              if a_status alert \<noteq> ACTIVE
              then Inl (ForbiddenException ''Photos can only be added while the alert is active'')
              else
                let windowHours = getSightingPhotoUploadWindowHours e;
                    windowEnd = of_int (sg_created_at sighting) + windowHours * 60 * 60 * 1000
                in if of_int (now e) > windowEnd
                   then Inl (ForbiddenException (''Photos can only be added within '' @ show_number windowHours @ '' hours of reporting the sighting''))
                   else if incomingCount < 1 then Inl (BadRequestException ''At least one photo file is required'')
                   else
                     let maxPhotos = getMaxSightingPhotos e; existingCount = int (length (sg_photos sighting))
                     in if existingCount + incomingCount > maxPhotos
                        then Inl (BadRequestException (''A sighting can have at most '' @ show_int maxPhotos @ '' photos; ''
                               @ show_int (max (maxPhotos - existingCount) 0) @ '' more can be added''))
                        else Inr ())"

definition append_row :: "env \<Rightarrow> string list \<Rightarrow> sighting_row \<Rightarrow> sighting_row" where
  "append_row e photoUrls s =
     s\<lparr>sg_photos := sg_photos s @ photoUrls, sg_photo_url := first_photo (sg_photos s @ photoUrls), sg_updated_at := now e\<rparr>"

definition append_audit :: "id \<Rightarrow> id \<Rightarrow> string list \<Rightarrow> sighting_row \<Rightarrow> audit_payload" where
  "append_audit sightingId userId photoUrls s =
     entity_audit ''UPDATE'' ''SIGHTING'' sightingId userId ''sighting_photos_added''
       (''Added '' @ show_nat (length photoUrls) @ '' photo(s) to sighting #'' @ show_int sightingId)
       (JObj [(''photoUrl'', jstr_opt (sg_photo_url s)), (''photos'', jstrs (sg_photos s))])
       (JObj [(''photoUrl'', jstr_opt (first_photo (sg_photos s @ photoUrls))), (''photos'', jstrs (sg_photos s @ photoUrls))])"

definition appendPhotos :: "env \<Rightarrow> id \<Rightarrow> string list \<Rightarrow> id \<Rightarrow> world \<Rightarrow> (exn + string list) \<times> world" where
  "appendPhotos e sightingId photoUrls userId w =
     (case find_sighting sightingId w of
        None \<Rightarrow> (Inl (sighting_not_found sightingId), w)
      | Some sighting \<Rightarrow>
          (Inr (sg_photos sighting @ photoUrls),
           emit_audit ENTITY_UPDATED (append_audit sightingId userId photoUrls sighting)
             (update_sighting sightingId (append_row e photoUrls) w)))"

text \<open>The two upload endpoints.\<close>

definition sightingPhotoUploadOptions :: upload_options where
  "sightingPhotoUploadOptions = \<lparr>uo_webOptimise = True, uo_randomPublicId = True\<rparr>"

definition sighting_folder :: "id \<Rightarrow> string" where
  "sighting_folder i = ''sightings/'' @ show_int i"

definition uploadPhotos :: "env \<Rightarrow> cloud \<Rightarrow> id \<Rightarrow> id \<Rightarrow> upload_file list \<Rightarrow> world \<Rightarrow> (exn + string list) \<times> world" where
  "uploadPhotos e cl i userId incoming w =
     (case authorizePhotoUpload e i userId (int (length incoming)) w of
        Inl x \<Rightarrow> (Inl x, w)
      | Inr _ \<Rightarrow>
          (case uploadImages e cl incoming (sighting_folder i) (nat (getMaxSightingPhotos e)) sightingPhotoUploadOptions of
             Inl x \<Rightarrow> (Inl x, w)
           | Inr photoUrls \<Rightarrow>
               (case appendPhotos e i photoUrls userId w of
                  (Inl x, w') \<Rightarrow> (Inl x, w')
                | (Inr _, w') \<Rightarrow> (Inr photoUrls, w'))))"

definition uploadPhoto :: "env \<Rightarrow> cloud \<Rightarrow> id \<Rightarrow> id \<Rightarrow> upload_file option \<Rightarrow> world \<Rightarrow> (exn + string) \<times> world" where
  "uploadPhoto e cl i userId file w =
     (case file of
        None \<Rightarrow> (Inl (BadRequestException ''At least one photo file is required''), w)
      | Some f \<Rightarrow>
          (case authorizePhotoUpload e i userId 1 w of
             Inl x \<Rightarrow> (Inl x, w)
           | Inr _ \<Rightarrow>
               (case uploadImage e cl 0 (Some f) (sighting_folder i) sightingPhotoUploadOptions of
                  Inl x \<Rightarrow> (Inl x, w)
                | Inr photoUrl \<Rightarrow>
                    (case appendPhotos e i [photoUrl] userId w of
                       (Inl x, w') \<Rightarrow> (Inl x, w')
                     | (Inr _, w') \<Rightarrow> (Inr photoUrl, w')))))"

end
