(* ===== verification/SightingProperties.thy ===== *)
theory SightingProperties
  imports Sighting AlertSafety
begin

text \<open>
  What the sighting service guarantees: the invariant of the sighting table over any sequence of
  requests, who may change what, what reporting a sighting causes, and what a reader sees.
\<close>

section \<open>Notifying the creator\<close>

lemma queue_waves_kind:
  "queue_waves e i ws w = (r, w') \<Longrightarrow>
   \<exists>js. w' = w\<lparr>queue := queue w @ js\<rparr> \<and> (\<forall>j\<in>set js. \<exists>c. j_job j = AlertNotificationJob i c)"
proof (induction ws arbitrary: w)
  case Nil
  then show ?case by (intro exI [of _ "[]"]) simp
next
  case (Cons x ws)
  obtain wave d where x: "x = (wave, d)" by (cases x)
  show ?case
  proof (cases "queue_add e (AlertNotificationJob i (Some wave)) d None w")
    case None
    then show ?thesis using Cons.prems x by (intro exI [of _ "[]"]) simp
  next
    case (Some w1)
    then have "queue_waves e i ws w1 = (r, w')" using Cons.prems x by simp
    then obtain js where js: "w' = w1\<lparr>queue := queue w1 @ js\<rparr>" "\<forall>j\<in>set js. \<exists>c. j_job j = AlertNotificationJob i c"
      using Cons.IH by blast
    then show ?thesis using queue_add_Some [OF Some]
      by (intro exI [of _ "\<lparr>j_job = AlertNotificationJob i (Some wave), j_delay = d, j_jobId = None\<rparr> # js"]) simp
  qed
qed

lemma notify_device_effect:
  "\<exists>n js. notify_device e i dto d w = w\<lparr>notifications := notifications w @ [n], queue := queue w @ js\<rparr> \<and>
     n_alert_id n = i \<and> n_device_id n = d_id d \<and> n_status n = QUEUED \<and> n_meta n = None \<and>
     n_confidence n = cs_confidence dto \<and> n_match_reason n = sighting_reason dto \<and>
     (\<forall>j\<in>set js. \<exists>c. j_job j = AlertNotificationJob i c)"
proof -
  let ?n = "(blank_notification e i (d_id d) (cs_confidence dto) (sighting_reason dto) w)\<lparr>n_distance_km := Some 0\<rparr>"
  obtain r w' where q: "queue_waves e i ESCALATION_WAVES (insert_notification ?n w) = (r, w')" by fastforce
  obtain js where "w' = (insert_notification ?n w)\<lparr>queue := queue (insert_notification ?n w) @ js\<rparr>"
    "\<forall>j\<in>set js. \<exists>c. j_job j = AlertNotificationJob i c" using queue_waves_kind [OF q] by blast
  then show ?thesis using q
    by (intro exI [of _ ?n] exI [of _ js])
      (simp add: notify_device_def queueAlertNotifications_def insert_notification_def blank_notification_def)
qed

text \<open>One row per device, in device order, and only waves of the alert in the queue.\<close>

definition sighting_note :: "id \<Rightarrow> create_sighting_dto \<Rightarrow> device_row \<Rightarrow> notification_row \<Rightarrow> bool" where
  "sighting_note i dto d n \<longleftrightarrow> n_alert_id n = i \<and> n_device_id n = d_id d \<and> n_status n = QUEUED \<and> n_meta n = None \<and>
     n_confidence n = cs_confidence dto \<and> n_match_reason n = sighting_reason dto"

lemma notify_fold:
  "\<exists>ns js. fold (notify_device e i dto) ds w = w\<lparr>notifications := notifications w @ ns, queue := queue w @ js\<rparr> \<and>
     list_all2 (sighting_note i dto) ds ns \<and> (\<forall>j\<in>set js. \<exists>c. j_job j = AlertNotificationJob i c)"
proof (induction ds arbitrary: w)
  case Nil
  then show ?case by (intro exI [of _ "[]"]) simp
next
  case (Cons d ds)
  obtain n js where n: "notify_device e i dto d w = w\<lparr>notifications := notifications w @ [n], queue := queue w @ js\<rparr>"
    "sighting_note i dto d n" "\<forall>j\<in>set js. \<exists>c. j_job j = AlertNotificationJob i c"
    using notify_device_effect [of e i dto d w] unfolding sighting_note_def by blast
  obtain ns ks where ns: "fold (notify_device e i dto) ds (notify_device e i dto d w) =
      (notify_device e i dto d w)\<lparr>notifications := notifications (notify_device e i dto d w) @ ns,
        queue := queue (notify_device e i dto d w) @ ks\<rparr>"
    "list_all2 (sighting_note i dto) ds ns" "\<forall>j\<in>set ks. \<exists>c. j_job j = AlertNotificationJob i c"
    using Cons.IH by blast
  then show ?case using n by (intro exI [of _ "n # ns"] exI [of _ "js @ ks"]) auto
qed

lemma sighting_mail_frame:
  "sighting_mail e t f u i d w = (r, w') \<Longrightarrow> w' = w\<lparr>mailbox := mailbox w'\<rparr>"
  by (auto simp: sighting_mail_def send_html_def split: option.splits prod.splits if_splits)

lemma reported_mail_frame:
  "\<exists>ms. snd (sendSightingReportedEmail e u i s w) = w\<lparr>mailbox := mailbox w @ ms\<rparr>"
proof -
  have "\<exists>ms. snd (sighting_mail e t f u i d w) = w\<lparr>mailbox := mailbox w @ ms\<rparr>" for t f d
    by (auto simp: sighting_mail_def send_html_def split: option.splits prod.splits if_splits
        intro: exI [of _ "[]"])
  then show ?thesis
    by (auto simp: sendSightingReportedEmail_def split: prod.splits sum.splits) (metis snd_conv)+
qed

lemma report_effect:
  assumes "find_alert (cs_alert_id dto) w = Some a" and "a_status a = ACTIVE"
  shows "\<exists>ns js ms. create_sighting e dto reporterId w =
    (Inr (mapSightingDto (new_sighting_row e dto reporterId w)),
     w\<lparr>sightings := sightings w @ [new_sighting_row e dto reporterId w],
       audits := audits w @ [(ENTITY_CREATED, sighting_audit (next_id sg_id (sightings w)) reporterId dto)],
       notifications := notifications w @ ns, queue := queue w @ js, mailbox := mailbox w @ ms\<rparr>) \<and>
    list_all2 (sighting_note (cs_alert_id dto) dto)
      (filter (\<lambda>d. d_user_id d = a_creator_id a \<and> d_push_token d \<noteq> None) (devices w)) ns \<and>
    (\<forall>j\<in>set js. \<exists>c. j_job j = AlertNotificationJob (cs_alert_id dto) c)"
proof -
  let ?row = "new_sighting_row e dto reporterId w" and ?i = "cs_alert_id dto"
  define w1 where "w1 = w\<lparr>sightings := sightings w @ [?row]\<rparr>"
  define w2 where "w2 = emit_audit ENTITY_CREATED (sighting_audit (sg_id ?row) reporterId dto) w1"
  have dev: "devices w2 = devices w" by (simp add: w2_def w1_def emit_audit_def)
  obtain ns js where n: "notifyCreatorOfSighting e (a_creator_id a) ?i dto w2 =
      w2\<lparr>notifications := notifications w2 @ ns, queue := queue w2 @ js\<rparr>"
    "list_all2 (sighting_note ?i dto) (filter (\<lambda>d. d_user_id d = a_creator_id a \<and> d_push_token d \<noteq> None) (devices w)) ns"
    "\<forall>j\<in>set js. \<exists>c. j_job j = AlertNotificationJob ?i c"
    using notify_fold [of e ?i dto "filter (\<lambda>d. d_user_id d = a_creator_id a \<and> d_push_token d \<noteq> None) (devices w2)" w2]
    unfolding notifyCreatorOfSighting_def dev by blast
  define w3 where "w3 = w2\<lparr>notifications := notifications w2 @ ns, queue := queue w2 @ js\<rparr>"
  have id: "sg_id ?row = next_id sg_id (sightings w)" by (simp add: new_sighting_row_def)
  have found: "find_sighting (sg_id ?row) w3 = Some ?row"
    by (simp add: w3_def w2_def w1_def emit_audit_def find_sighting_def id find_row_inserted [OF id])
  obtain ms where m: "snd (sendSightingReportedEmail e (a_creator_id a) ?i (mapSightingDto ?row) w3) = w3\<lparr>mailbox := mailbox w3 @ ms\<rparr>"
    using reported_mail_frame by blast
  have "create_sighting e dto reporterId w = (Inr (mapSightingDto ?row), w3\<lparr>mailbox := mailbox w3 @ ms\<rparr>)"
    using assms(1,2) n(1) found m
    by (simp add: create_sighting_def Let_def w1_def [symmetric] w2_def [symmetric] w3_def [symmetric])
  then show ?thesis using n(2,3)
    by (intro exI [of _ ns] exI [of _ js] exI [of _ ms]) (simp add: w3_def w2_def w1_def emit_audit_def id)
qed

text \<open>
  What reporting a sighting does: on an ACTIVE alert the request succeeds; it adds exactly the row
  built from the request, undismissed and with the reporter's photo as its only photo, and answers
  that row; it adds exactly one QUEUED notification row for each device of the alert's creator that
  has a push token, in device order. Every job it queues is a wave of the alert: no push job is
  queued for any of the new rows. Alerts, users, devices and pets stay as they are.
\<close>

theorem report_effects:
  assumes "find_alert (cs_alert_id dto) w = Some a" and "a_status a = ACTIVE"
  shows "\<exists>ns js ms. create_sighting e dto reporterId w =
    (Inr (mapSightingDto (new_sighting_row e dto reporterId w)),
     w\<lparr>sightings := sightings w @ [new_sighting_row e dto reporterId w],
       audits := audits w @ [(ENTITY_CREATED, sighting_audit (next_id sg_id (sightings w)) reporterId dto)],
       notifications := notifications w @ ns, queue := queue w @ js, mailbox := mailbox w @ ms\<rparr>) \<and>
    list_all2 (sighting_note (cs_alert_id dto) dto)
      (filter (\<lambda>d. d_user_id d = a_creator_id a \<and> d_push_token d \<noteq> None) (devices w)) ns \<and>
    (\<forall>j\<in>set js. \<exists>c. j_job j = AlertNotificationJob (cs_alert_id dto) c)"
  using assms by (rule report_effect)

definition demo_report :: create_sighting_dto where
  "demo_report = \<lparr>cs_alert_id = 41, cs_latitude = 35, cs_longitude = 33, cs_address = ''Park'', cs_photo = Some ''p'',
     cs_notes = None, cs_confidence = HIGH, cs_sighting_time = 3, cs_direction = None\<rparr>"

definition demo_owner_phone :: device_row where
  "demo_owner_phone = demo_phone\<lparr>d_id := 12, d_user_id := 7\<rparr>"

theorem report_effects_witness:
  "\<exists>n w'. create_sighting (demo_env 5) demo_report 8 (demo_town\<lparr>devices := [demo_phone, demo_owner_phone]\<rparr>) =
     (Inr (mapSightingDto (new_sighting_row (demo_env 5) demo_report 8 (demo_town\<lparr>devices := [demo_phone, demo_owner_phone]\<rparr>))), w') \<and>
     notifications w' = [n] \<and> n_device_id n = 12"
proof -
  let ?w = "demo_town\<lparr>devices := [demo_phone, demo_owner_phone]\<rparr>"
  have a: "find_alert (cs_alert_id demo_report) ?w = Some demo_alert"
    by (simp add: find_alert_def demo_report_def demo_town_def demo_world_def)
  obtain ns js ms where r: "create_sighting (demo_env 5) demo_report 8 ?w =
    (Inr (mapSightingDto (new_sighting_row (demo_env 5) demo_report 8 ?w)),
     ?w\<lparr>sightings := sightings ?w @ [new_sighting_row (demo_env 5) demo_report 8 ?w],
       audits := audits ?w @ [(ENTITY_CREATED, sighting_audit (next_id sg_id (sightings ?w)) 8 demo_report)],
       notifications := notifications ?w @ ns, queue := queue ?w @ js, mailbox := mailbox ?w @ ms\<rparr>)"
    and ns: "list_all2 (sighting_note (cs_alert_id demo_report) demo_report)
      (filter (\<lambda>d. d_user_id d = a_creator_id demo_alert \<and> d_push_token d \<noteq> None) (devices ?w)) ns"
    using report_effects [OF a, of "demo_env 5" 8] by auto
  have "filter (\<lambda>d. d_user_id d = a_creator_id demo_alert \<and> d_push_token d \<noteq> None) (devices ?w) = [demo_owner_phone]"
    by (simp add: demo_phone_def demo_owner_phone_def)
  then obtain n where "ns = [n]" "n_device_id n = 12"
    using ns by (auto simp: list_all2_Cons1 sighting_note_def demo_owner_phone_def)
  moreover have "notifications ?w = []" by (simp add: demo_town_def demo_world_def empty_world_def)
  ultimately show ?thesis using r by auto
qed

section \<open>The sighting table\<close>

text \<open>Requests in any order, under one configuration, while other services change the rest of the world.\<close>

inductive sighting_step :: "env \<Rightarrow> world \<Rightarrow> world \<Rightarrow> bool" for e0 where
  report: "getenv e = getenv e0 \<Longrightarrow> create_sighting e dto u w = (r, w') \<Longrightarrow> sighting_step e0 w w'"
| dismissal: "getenv e = getenv e0 \<Longrightarrow> dismiss e i dis u w = (r, w') \<Longrightarrow> sighting_step e0 w w'"
| photos: "getenv e = getenv e0 \<Longrightarrow> uploadPhotos e cl i u files w = (rs, w') \<Longrightarrow> sighting_step e0 w w'"
| photo: "getenv e = getenv e0 \<Longrightarrow> uploadPhoto e cl i u fl w = (rp, w') \<Longrightarrow> sighting_step e0 w w'"
| elsewhere: "sightings w' = sightings w \<Longrightarrow> sighting_step e0 w w'"

inductive_cases sighting_stepE [elim]: "sighting_step e0 w w'"

definition sighting_ok :: "env \<Rightarrow> sighting_row \<Rightarrow> bool" where
  "sighting_ok e s \<longleftrightarrow> sg_photo_url s = first_photo (sg_photos s) \<and> int (length (sg_photos s)) \<le> getMaxSightingPhotos e \<and>
     (sg_dismissed s \<longleftrightarrow> sg_dismissed_at s \<noteq> None) \<and> (sg_dismissed s \<longleftrightarrow> sg_dismissed_reason s \<noteq> None) \<and>
     sg_location_point s = (sg_sighting_lon s, sg_sighting_lat s)"

definition sighting_table :: "env \<Rightarrow> world \<Rightarrow> bool" where
  "sighting_table e w \<longleftrightarrow> distinct (map sg_id (sightings w)) \<and> list_all (sighting_ok e) (sightings w)"

text \<open>What a row keeps for ever.\<close>

definition sighting_keeps :: "sighting_row \<Rightarrow> sighting_row \<Rightarrow> bool" where
  "sighting_keeps s s' \<longleftrightarrow> sg_alert_id s' = sg_alert_id s \<and> sg_reporter_id s' = sg_reporter_id s \<and>
     sg_sighting_time s' = sg_sighting_time s \<and> sg_location_point s' = sg_location_point s \<and>
     sg_created_at s' = sg_created_at s \<and>
     (sg_dismissed s \<longrightarrow> sg_dismissed s' \<and> sg_dismissed_at s' = sg_dismissed_at s \<and> sg_dismissed_reason s' = sg_dismissed_reason s) \<and>
     (\<exists>ps. sg_photos s' = sg_photos s @ ps)"

lemma sighting_keeps_refl [simp]: "sighting_keeps s s"
  by (simp add: sighting_keeps_def)

lemma sighting_keeps_trans: "sighting_keeps s t \<Longrightarrow> sighting_keeps t u \<Longrightarrow> sighting_keeps s u"
  unfolding sighting_keeps_def by force

text \<open>The four ways a request changes the table.\<close>

datatype sighting_change = Same | Added sighting_row | Changed id "sighting_row \<Rightarrow> sighting_row"

primrec apply_change :: "sighting_change \<Rightarrow> sighting_row list \<Rightarrow> sighting_row list" where
  "apply_change Same rows = rows"
| "apply_change (Added s) rows = rows @ [s]"
| "apply_change (Changed i f) rows = update_where (\<lambda>s. sg_id s = i) f rows"

definition change_ok :: "env \<Rightarrow> sighting_row list \<Rightarrow> sighting_change \<Rightarrow> bool" where
  "change_ok e rows c = (case c of
     Same \<Rightarrow> True
   | Added s \<Rightarrow> sg_id s = next_id sg_id rows \<and> sighting_ok e s
   | Changed i f \<Rightarrow> (\<exists>s. find_row sg_id i rows = Some s \<and> (sighting_ok e s \<longrightarrow> sighting_ok e (f s)) \<and> sighting_keeps s (f s)) \<and>
       (\<forall>s. sg_id (f s) = sg_id s))"

lemma change_table:
  assumes "sighting_table e w" and "change_ok e (sightings w) c" and "sightings w' = apply_change c (sightings w)"
  shows "sighting_table e w'"
proof (cases c)
  case (Added s)
  then show ?thesis using assms next_id_fresh [of _ "sightings w" sg_id]
    by (fastforce simp: sighting_table_def change_ok_def)
next
  case (Changed i f)
  then obtain s where s: "find_row sg_id i (sightings w) = Some s" "sighting_ok e s \<longrightarrow> sighting_ok e (f s)"
    and id: "\<forall>s. sg_id (f s) = sg_id s" using assms(2) by (auto simp: change_ok_def)
  have uniq: "r = s" if "r \<in> set (sightings w)" "sg_id r = i" for r
    using find_row_distinct [of sg_id "sightings w" r] that s(1) assms(1) by (simp add: sighting_table_def)
  have "map sg_id (sightings w') = map sg_id (sightings w)"
    using assms(3) Changed id by (simp add: update_where_def)
  moreover have "list_all (sighting_ok e) (sightings w')"
    using assms(1,3) Changed uniq s(2) by (auto simp: list_all_iff update_where_def sighting_table_def)
  ultimately show ?thesis using assms(1) by (simp add: sighting_table_def)
qed (use assms in \<open>auto simp: sighting_table_def\<close>)

lemma change_keeps:
  assumes "change_ok e (sightings w) c" and "sightings w' = apply_change c (sightings w)" and "find_sighting j w = Some s"
  shows "\<exists>s'. find_sighting j w' = Some s' \<and> sighting_keeps s s'"
proof (cases c)
  case (Added r)
  then show ?thesis using assms find_row_next_id [of sg_id "sightings w"]
    by (auto simp: change_ok_def find_sighting_def find_row_inserted)
next
  case (Changed i f)
  then show ?thesis using assms
    by (auto simp: change_ok_def find_sighting_def find_row_put)
qed (use assms in \<open>auto simp: find_sighting_def\<close>)

lemma max_photos_config: "getenv e = getenv e0 \<Longrightarrow> getMaxSightingPhotos e = getMaxSightingPhotos e0"
  by (simp add: getMaxSightingPhotos_def)

lemma max_photos_pos: "1 \<le> getMaxSightingPhotos e"
  by (auto simp: getMaxSightingPhotos_def DEFAULT_MAX_SIGHTING_PHOTOS_def split: option.splits)

lemma new_sighting_ok: "sighting_ok e0 (new_sighting_row e dto u w)"
  using max_photos_pos [of e0]
  by (auto simp: sighting_ok_def new_sighting_row_def first_photo_def split: option.split)

lemma dismiss_row_ok: "sighting_ok e0 s \<Longrightarrow> sighting_ok e0 (dismiss_row e d s)"
  by (simp add: sighting_ok_def dismiss_row_def)

lemma append_row_ok:
  "sighting_ok e0 s \<Longrightarrow> int (length (sg_photos s) + length us) \<le> getMaxSightingPhotos e0 \<Longrightarrow> sighting_ok e0 (append_row e us s)"
  by (auto simp: sighting_ok_def append_row_def)

lemma authorize_room:
  assumes "authorizePhotoUpload e i u n w = Inr x"
  shows "\<exists>s. find_sighting i w = Some s \<and> int (length (sg_photos s)) + n \<le> getMaxSightingPhotos e"
  using assms by (auto simp: authorizePhotoUpload_def Let_def split: option.splits if_splits)

lemma append_change:
  assumes "authorizePhotoUpload e i u (int (length us)) w = Inr x" and "getenv e = getenv e0"
    and "appendPhotos e i us v w = (r, w')"
  shows "\<exists>c. change_ok e0 (sightings w) c \<and> sightings w' = apply_change c (sightings w)"
proof -
  obtain s where s: "find_sighting i w = Some s" "int (length (sg_photos s)) + int (length us) \<le> getMaxSightingPhotos e0"
    using authorize_room [OF assms(1)] max_photos_config [OF assms(2)] by auto
  have "sighting_ok e0 s \<longrightarrow> sighting_ok e0 (append_row e us s)" using append_row_ok s(2) by simp
  moreover have "sighting_keeps s (append_row e us s)" by (simp add: sighting_keeps_def append_row_def)
  moreover have "sg_id (append_row e us t) = sg_id t" for t by (simp add: append_row_def)
  ultimately have "change_ok e0 (sightings w) (Changed i (append_row e us))"
    using s(1) by (auto simp: change_ok_def find_sighting_def)
  moreover have "sightings w' = apply_change (Changed i (append_row e us)) (sightings w)"
    using assms(3) s(1) by (auto simp: appendPhotos_def emit_audit_def update_sighting_def)
  ultimately show ?thesis by blast
qed

lemma upload_batch_length: "uploadImages e cl files folder n opts = Inr urls \<Longrightarrow> length urls = length files"
  unfolding upload_batch_iff by (auto dest: list_all2_lengthD)

lemma sighting_step_change:
  assumes "sighting_step e0 w w'"
  shows "\<exists>c. change_ok e0 (sightings w) c \<and> sightings w' = apply_change c (sightings w)"
  using assms
proof cases
  case (report e dto u r)
  show ?thesis
  proof (cases "\<exists>a. find_alert (cs_alert_id dto) w = Some a \<and> a_status a = ACTIVE")
    case True
    then obtain a where a: "find_alert (cs_alert_id dto) w = Some a" "a_status a = ACTIVE" by blast
    have "sightings w' = sightings w @ [new_sighting_row e dto u w]"
      using report_effect [OF a, of e u] report(2) by auto
    then show ?thesis using new_sighting_ok
      by (intro exI [of _ "Added (new_sighting_row e dto u w)"]) (simp add: change_ok_def new_sighting_row_def)
  next
    case False
    then have "w' = w" using report(2) by (auto simp: create_sighting_def split: option.splits)
    then show ?thesis by (intro exI [of _ Same]) (simp add: change_ok_def)
  qed
next
  case (dismissal e i dis u r)
  show ?thesis
  proof (cases "w' = w")
    case True
    then show ?thesis by (intro exI [of _ Same]) (simp add: change_ok_def)
  next
    case False
    then obtain s where s: "find_sighting i w = Some s" "\<not> sg_dismissed s"
      "sightings w' = update_where (\<lambda>s. sg_id s = i) (dismiss_row e dis) (sightings w)"
      using dismissal(2) by (auto simp: dismiss_def emit_audit_def update_sighting_def split: option.splits if_splits)
    have "sighting_keeps s (dismiss_row e dis s)" using s(2) by (simp add: sighting_keeps_def dismiss_row_def)
    moreover have "sg_id (dismiss_row e dis t) = sg_id t" for t by (simp add: dismiss_row_def)
    ultimately have "change_ok e0 (sightings w) (Changed i (dismiss_row e dis))"
      using s(1) dismiss_row_ok by (auto simp: change_ok_def find_sighting_def)
    then show ?thesis using s(3) by (intro exI [of _ "Changed i (dismiss_row e dis)"]) simp
  qed
next
  case (photos e cl i u files rs)
  show ?thesis
  proof (cases "w' = w")
    case True
    then show ?thesis by (intro exI [of _ Same]) (simp add: change_ok_def)
  next
    case False
    then obtain x us r where a: "authorizePhotoUpload e i u (int (length files)) w = Inr x"
      "uploadImages e cl files (sighting_folder i) (nat (getMaxSightingPhotos e)) sightingPhotoUploadOptions = Inr us"
      "appendPhotos e i us u w = (r, w')"
      using photos(2) by (auto simp: uploadPhotos_def split: sum.splits prod.splits)
    show ?thesis by (rule append_change [OF _ photos(1) a(3)]) (use a(1) upload_batch_length [OF a(2)] in simp)
  qed
next
  case (photo e cl i u fl rp)
  show ?thesis
  proof (cases "w' = w")
    case True
    then show ?thesis by (intro exI [of _ Same]) (simp add: change_ok_def)
  next
    case False
    then obtain x url r where a: "authorizePhotoUpload e i u 1 w = Inr x" "appendPhotos e i [url] u w = (r, w')"
      using photo(2) by (auto simp: uploadPhoto_def split: option.splits sum.splits prod.splits)
    show ?thesis by (rule append_change [OF _ photo(1) a(2)]) (use a(1) in simp)
  qed
next
  case elsewhere
  then show ?thesis by (intro exI [of _ Same]) (simp add: change_ok_def)
qed

interpretation sighting_life: lifecycle "sighting_step e0" "sighting_table e0" for e0
  by unfold_locales (use sighting_step_change change_table in blast)

lemma sighting_history:
  assumes "reaches (sighting_step e0) w w'" and "find_sighting j w = Some s"
  shows "\<exists>s'. find_sighting j w' = Some s' \<and> sighting_keeps s s'"
  using assms
proof (induction rule: reaches.induct)
  case (reaches_step w w1 w2)
  then obtain s1 where s1: "find_sighting j w1 = Some s1" "sighting_keeps s s1" by blast
  obtain c where "change_ok e0 (sightings w1) c" "sightings w2 = apply_change c (sightings w1)"
    using sighting_step_change [OF reaches_step.hyps(2)] by blast
  then show ?case using change_keeps [OF _ _ s1(1)] s1(2) sighting_keeps_trans by blast
qed auto

text \<open>
  C36. The sighting table: over any sequence of reports, dismissals and photo uploads, with anything
  else happening in between, every row holds at most the configured number of photos, its legacy
  photo is the first of them, it carries a dismissal time and reason exactly when it is dismissed,
  and its point is its coordinates; ids stay unique. A row is never lost, keeps its alert, reporter,
  time and place, is never undismissed, and its photos are only appended to.
\<close>

theorem sighting_invariant:
  assumes "reaches (sighting_step e0) w w'" and "sighting_table e0 w" and "find_sighting j w = Some s"
  shows "sighting_table e0 w' \<and> (\<exists>s'. find_sighting j w' = Some s' \<and> sighting_keeps s s' \<and>
    sd_photo (mapSightingDto s') = first_photo (sd_photos (mapSightingDto s')))"
proof -
  have t: "sighting_table e0 w'" by (rule sighting_life.reaches_good [OF assms(1,2)])
  obtain s' where s': "find_sighting j w' = Some s'" "sighting_keeps s s'"
    using sighting_history [OF assms(1,3)] by blast
  have "sighting_ok e0 s'" using t find_row_Some [of sg_id j "sightings w'" s'] s'(1)
    by (auto simp: sighting_table_def find_sighting_def list_all_iff)
  then have "sd_photo (mapSightingDto s') = first_photo (sd_photos (mapSightingDto s'))"
    by (auto simp: mapSightingDto_def sighting_ok_def split: option.split)
  then show ?thesis using t s' by blast
qed

definition demo_seen :: world where
  "demo_seen = demo_town\<lparr>sightings := [demo_sighting]\<rparr>"

definition demo_dismissal :: dismiss_sighting_dto where
  "demo_dismissal = \<lparr>ds_reason = ''Not mine''\<rparr>"

theorem sighting_invariant_witness:
  "\<exists>w' s'. dismiss (demo_env 5) 1 demo_dismissal 7 demo_seen = (Inr (mapSightingDto s'), w') \<and>
     find_sighting 1 w' = Some s' \<and> sg_dismissed s' \<and> sighting_table (demo_env 0) w'"
proof -
  have f: "find_sighting 1 demo_seen = Some demo_sighting"
    by (simp add: find_sighting_def demo_seen_def demo_sighting_def)
  have s: "sg_alert_id demo_sighting = 41" "\<not> sg_dismissed demo_sighting" by (simp_all add: demo_sighting_def)
  have a: "find_alert 41 demo_seen = Some demo_alert" by (simp add: find_alert_def demo_seen_def demo_town_def demo_world_def)
  have d: "dismiss (demo_env 5) 1 demo_dismissal 7 demo_seen =
      (Inr (mapSightingDto (dismiss_row (demo_env 5) demo_dismissal demo_sighting)),
       emit_audit ENTITY_UPDATED (dismiss_audit 1 7 demo_dismissal demo_sighting)
         (update_sighting 1 (dismiss_row (demo_env 5) demo_dismissal) demo_seen))" (is "_ = (Inr (mapSightingDto ?s), ?w')")
    using a s by (simp add: dismiss_def f)
  have env: "getenv (demo_env 5) = getenv (demo_env 0)" by (simp add: demo_env_def)
  have step: "sighting_step (demo_env 0) demo_seen ?w'" by (rule sighting_step.dismissal [OF env d])
  have reach: "reaches (sighting_step (demo_env 0)) demo_seen ?w'" by (rule reaches_step [OF reaches_refl]) (rule step)
  have table: "sighting_table (demo_env 0) demo_seen"
    by (simp add: sighting_table_def demo_seen_def sighting_ok_def demo_sighting_def first_photo_def getMaxSightingPhotos_def
        demo_env_def DEFAULT_MAX_SIGHTING_PHOTOS_def)
  have "sighting_table (demo_env 0) ?w'" using sighting_invariant [OF reach table f] by blast
  moreover have "find_sighting 1 ?w' = Some ?s"
    using f by (simp add: find_sighting_def emit_audit_def update_sighting_def find_row_put dismiss_row_def)
  moreover have "sg_dismissed ?s" by (simp add: dismiss_row_def)
  ultimately show ?thesis using d by blast
qed

text \<open>
  The limit holds for requests that run one after the other. Authorisation and writing are separate
  steps with an upload in between: two requests authorised for the last free places both write.
\<close>

lemma photo_limit_race:
  assumes "authorizePhotoUpload e i u (int (length us)) w = Inr x" and "find_sighting i w = Some s"
    and "int (length (sg_photos s)) + int (length us) = getMaxSightingPhotos e" and "us \<noteq> []"
    and "appendPhotos e i us u w = (r1, w1)" and "appendPhotos e i us u w1 = (r2, w2)"
  shows "\<exists>s2. find_sighting i w2 = Some s2 \<and> getMaxSightingPhotos e < int (length (sg_photos s2))"
proof -
  have id: "sg_id (append_row e us t) = sg_id t" for t by (simp add: append_row_def)
  have w1: "find_sighting i w1 = Some (append_row e us s)"
    using assms(2,5) by (auto simp: appendPhotos_def emit_audit_def update_sighting_def find_sighting_def find_row_put id)
  then have "find_sighting i w2 = Some (append_row e us (append_row e us s))"
    using assms(6) by (auto simp: appendPhotos_def emit_audit_def update_sighting_def find_sighting_def find_row_put id)
  moreover have "getMaxSightingPhotos e < int (length (sg_photos s)) + 2 * int (length us)"
    using assms(3,4) by (cases us) simp_all
  ultimately show ?thesis by (simp add: append_row_def)
qed

section \<open>Permissions\<close>

text \<open>
  C40. Who may change a sighting: a dismissal changes anything only when the requester created the
  alert and the sighting was not dismissed yet; a photo upload changes anything only when the
  requester reported the sighting, the alert is ACTIVE, the upload window is open and the new photos
  fit the limit; otherwise the request is answered with an error.
\<close>

theorem sighting_permissions:
  "((\<exists>x. dismiss e i d u w = (Inl x, w)) \<or>
     (\<exists>s a w'. dismiss e i d u w = (Inr (mapSightingDto (dismiss_row e d s)), w') \<and> find_sighting i w = Some s \<and>
        find_alert (sg_alert_id s) w = Some a \<and> a_creator_id a = u \<and> \<not> sg_dismissed s)) \<and>
   ((\<exists>x. uploadPhotos e cl i u files w = (Inl x, w)) \<or>
     (\<exists>s a urls w'. uploadPhotos e cl i u files w = (Inr urls, w') \<and> find_sighting i w = Some s \<and> sg_reporter_id s = u \<and>
        find_alert (sg_alert_id s) w = Some a \<and> a_status a = ACTIVE \<and>
        of_int (now e) \<le> of_int (sg_created_at s) + getSightingPhotoUploadWindowHours e * 60 * 60 * 1000 \<and>
        files \<noteq> [] \<and> length urls = length files \<and> int (length (sg_photos s) + length files) \<le> getMaxSightingPhotos e \<and>
        find_sighting i w' = Some (append_row e urls s)))"
proof (rule conjI)
  show "(\<exists>x. dismiss e i d u w = (Inl x, w)) \<or>
     (\<exists>s a w'. dismiss e i d u w = (Inr (mapSightingDto (dismiss_row e d s)), w') \<and> find_sighting i w = Some s \<and>
        find_alert (sg_alert_id s) w = Some a \<and> a_creator_id a = u \<and> \<not> sg_dismissed s)"
    by (auto simp: dismiss_def split: option.splits)
next
  show "(\<exists>x. uploadPhotos e cl i u files w = (Inl x, w)) \<or>
     (\<exists>s a urls w'. uploadPhotos e cl i u files w = (Inr urls, w') \<and> find_sighting i w = Some s \<and> sg_reporter_id s = u \<and>
        find_alert (sg_alert_id s) w = Some a \<and> a_status a = ACTIVE \<and>
        of_int (now e) \<le> of_int (sg_created_at s) + getSightingPhotoUploadWindowHours e * 60 * 60 * 1000 \<and>
        files \<noteq> [] \<and> length urls = length files \<and> int (length (sg_photos s) + length files) \<le> getMaxSightingPhotos e \<and>
        find_sighting i w' = Some (append_row e urls s))" (is "?err \<or> ?ok")
  proof (cases "authorizePhotoUpload e i u (int (length files)) w")
    case (Inl x)
    then show ?thesis by (simp add: uploadPhotos_def)
  next
    case (Inr x)
    then obtain s a where s: "find_sighting i w = Some s" "sg_reporter_id s = u" "find_alert (sg_alert_id s) w = Some a"
      "a_status a = ACTIVE" "of_int (now e) \<le> of_int (sg_created_at s) + getSightingPhotoUploadWindowHours e * 60 * 60 * 1000"
      "files \<noteq> []" "int (length (sg_photos s) + length files) \<le> getMaxSightingPhotos e"
      by (auto simp: authorizePhotoUpload_def Let_def split: option.splits if_splits)
    have id: "sg_id (append_row e us t) = sg_id t" for us t by (simp add: append_row_def)
    show ?thesis
    proof (cases "uploadImages e cl files (sighting_folder i) (nat (getMaxSightingPhotos e)) sightingPhotoUploadOptions")
      case (Inl y)
      then show ?thesis using Inr by (simp add: uploadPhotos_def)
    next
      case (Inr us)
      let ?w' = "emit_audit ENTITY_UPDATED (append_audit i u us s) (update_sighting i (append_row e us) w)"
      have "uploadPhotos e cl i u files w = (Inr us, ?w')"
        using \<open>authorizePhotoUpload _ _ _ _ _ = Inr x\<close> Inr s(1) by (simp add: uploadPhotos_def appendPhotos_def)
      moreover have "find_sighting i ?w' = Some (append_row e us s)"
        using s(1) by (simp add: find_sighting_def emit_audit_def update_sighting_def find_row_put id)
      ultimately show ?thesis using s upload_batch_length [OF Inr] by blast
    qed
  qed
qed

section \<open>Reading\<close>

text \<open>
  What a reader sees: the sightings of an alert, newest first and in their table order among
  equal times; the creator of the alert sees all of them, everybody else exactly those that were not
  dismissed.
\<close>

theorem listed_sightings:
  assumes "find_alert i w = Some a"
  shows "\<exists>rows. findByAlert i requester w = Inr (map mapSightingDto rows) \<and>
    sorted_wrt (\<lambda>s t. sg_sighting_time t \<le> sg_sighting_time s) rows \<and>
    (\<forall>t. filter (\<lambda>s. sg_sighting_time s = t) rows =
       filter (\<lambda>s. sg_sighting_time s = t \<and> sg_alert_id s = i \<and> (requester = Some (a_creator_id a) \<or> \<not> sg_dismissed s)) (sightings w))"
proof -
  let ?sel = "filter (\<lambda>s. sg_alert_id s = i \<and> (requester = Some (a_creator_id a) \<or> \<not> sg_dismissed s)) (sightings w)"
  let ?rows = "sort_key (\<lambda>s. - sg_sighting_time s) ?sel"
  have "findByAlert i requester w = Inr (map mapSightingDto ?rows)" using assms by (simp add: findByAlert_def)
  moreover have "sorted_wrt (\<lambda>s t. sg_sighting_time t \<le> sg_sighting_time s) ?rows"
    using sorted_sort_key [of "\<lambda>s. - sg_sighting_time s" ?sel] by (simp add: sorted_wrt_map)
  moreover have "filter (\<lambda>s. sg_sighting_time s = t) ?rows =
      filter (\<lambda>s. sg_sighting_time s = t \<and> sg_alert_id s = i \<and> (requester = Some (a_creator_id a) \<or> \<not> sg_dismissed s)) (sightings w)" for t
    using sort_key_stable [of "\<lambda>s. - sg_sighting_time s" "- t" ?sel] by (simp add: conj_commute)
  ultimately show ?thesis by blast
qed

theorem listed_sightings_witness:
  "\<exists>rows. findByAlert 41 (Some 8) demo_seen = Inr (map mapSightingDto rows) \<and>
     filter (\<lambda>s. sg_sighting_time s = 0) rows = [demo_sighting]"
proof -
  have a: "find_alert 41 demo_seen = Some demo_alert" by (simp add: find_alert_def demo_seen_def demo_town_def demo_world_def)
  have s: "sightings demo_seen = [demo_sighting]" by (simp add: demo_seen_def)
  have "sg_sighting_time demo_sighting = 0 \<and> sg_alert_id demo_sighting = 41 \<and> \<not> sg_dismissed demo_sighting"
    by (simp add: demo_sighting_def)
  then show ?thesis using listed_sightings [OF a, of "Some 8"] unfolding s by fastforce
qed

end
