(* ===== verification/Cache.thy ===== *)
theory Cache
  imports Prelude
begin

text \<open>
  One key of the cache manager (Redis behind \<open>@nestjs/cache-manager\<close>): an entry with the instant until
  which it is valid. Whether a call succeeds, and whether the store still keeps a valid entry (it may drop
  one early), is part of \<open>cache_env\<close>. The zone cache and the language service read through it.
\<close>

record cache_env =
  get_ok :: bool
  set_ok :: bool
  del_ok :: bool
  keeps :: bool

type_synonym 'v cache = "('v \<times> time) option"

definition cache_error :: exn where "cache_error = Error ''cache unavailable''"

definition cache_get :: "cache_env \<Rightarrow> time \<Rightarrow> 'v cache \<Rightarrow> exn + 'v option" where
  "cache_get ce t c =
     (if \<not> get_ok ce then Inl cache_error
      else Inr (case c of None \<Rightarrow> None | Some (v, until) \<Rightarrow> if t < until \<and> keeps ce then Some v else None))"

definition cache_set :: "cache_env \<Rightarrow> time \<Rightarrow> 'v \<Rightarrow> int \<Rightarrow> exn + 'v cache" where
  "cache_set ce t v ttl = (if set_ok ce then Inr (Some (v, t + ttl)) else Inl cache_error)"

definition cache_del :: "cache_env \<Rightarrow> exn + 'v cache" where
  "cache_del ce = (if del_ok ce then Inr None else Inl cache_error)"

lemma cache_get_hit: "cache_get ce t c = Inr (Some v) \<longleftrightarrow> get_ok ce \<and> keeps ce \<and> (\<exists>u. c = Some (v, u) \<and> t < u)"
  by (auto simp: cache_get_def split: option.splits)

end
