(* ===== verification/AlertZone.thy ===== *)
theory AlertZone
  imports AlertLifecycle Cache
begin

text \<open>
  Alert zones (\<open>src/src/user/alert-zone.service.ts\<close>, \<open>alert-zone-cache.service.ts\<close>,
  \<open>dto/alert-zone.dto.ts\<close>): the service with its ownership, limit and radius checks, and the
  read-through cache of the active zones that every write invalidates.

  The state of this component is the database together with the entry of the cache.
\<close>

section \<open>DTOs and validation\<close>

record create_zone_dto =
  cz_name :: string
  cz_latitude :: rat
  cz_longitude :: rat
  cz_radius_meters :: rat
  cz_priority :: "rat option"
  cz_is_active :: "bool option"

record update_zone_dto =
  uz_name :: "string field"
  uz_latitude :: "rat field"
  uz_longitude :: "rat field"
  uz_radius_meters :: "rat field"
  uz_priority :: "rat field"
  uz_is_active :: "bool field"

text \<open>
  The decorators of the two DTOs. No pipe runs them: \<open>main.ts\<close> registers no global one and the
  \<open>me/alert-zones\<close> endpoints attach none, so the service sees bodies these predicates refuse.
\<close>

definition valid_create_zone :: "create_zone_dto \<Rightarrow> bool" where
  "valid_create_zone dto \<longleftrightarrow>
     length (cz_name dto) \<in> {1..50} \<and> num_between (-90) 90 (cz_latitude dto) \<and>
     num_between (-180) 180 (cz_longitude dto) \<and> num_between 50 5000 (cz_radius_meters dto) \<and>
     opt_ok (num_between 0 10) (cz_priority dto)"

definition valid_update_zone :: "update_zone_dto \<Rightarrow> bool" where
  "valid_update_zone dto \<longleftrightarrow>
     field_ok (\<lambda>n. length n \<in> {1..50}) (uz_name dto) \<and> field_ok (num_between (-90) 90) (uz_latitude dto) \<and>
     field_ok (num_between (-180) 180) (uz_longitude dto) \<and> field_ok (num_between 50 5000) (uz_radius_meters dto) \<and>
     field_ok (num_between 0 10) (uz_priority dto)"

text \<open>\<open>x !== undefined\<close> on a field of a partial DTO.\<close>

definition is_given :: "'a field \<Rightarrow> bool" where
  "is_given f \<longleftrightarrow> f \<noteq> Absent"

record zone_dto =
  zd_id :: id
  zd_name :: string
  zd_latitude :: rat
  zd_longitude :: rat
  zd_radius_meters :: int
  zd_radius_km :: rat
  zd_is_active :: bool
  zd_priority :: int
  zd_created_at :: time
  zd_updated_at :: time

text \<open>\<open>Number(x.toFixed(3))\<close>\<close>

definition fixed3 :: "rat \<Rightarrow> rat" where
  "fixed3 x = of_int (math_round (x * 1000)) / 1000"

text \<open>The raw rows carry \<open>ST_X\<close> as longitude and \<open>ST_Y\<close> as latitude of the stored point.\<close>

definition mapZoneDto :: "alert_zone_row \<Rightarrow> zone_dto" where
  "mapZoneDto z =
     \<lparr>zd_id = az_id z, zd_name = az_name z, zd_latitude = snd (az_location_point z),
      zd_longitude = fst (az_location_point z), zd_radius_meters = az_radius_meters z,
      zd_radius_km = fixed3 (of_int (az_radius_meters z) / 1000), zd_is_active = az_is_active z,
      zd_priority = az_priority z, zd_created_at = az_created_at z, zd_updated_at = az_updated_at z\<rparr>"

section \<open>The cache\<close>

record cached_zone =
  ch_id :: id
  ch_user_id :: id
  ch_name :: string
  ch_lat :: rat
  ch_lon :: rat
  ch_radius_meters :: int
  ch_priority :: int
  ch_is_active :: bool

type_synonym zone_cache = "cached_zone list cache"

record zone_state =
  zs_db :: world
  zs_cache :: zone_cache

definition CACHE_TTL_ALERT_ZONES :: int where "CACHE_TTL_ALERT_ZONES = 300"

definition cached_of :: "alert_zone_row \<Rightarrow> cached_zone" where
  "cached_of z =
     \<lparr>ch_id = az_id z, ch_user_id = az_user_id z, ch_name = az_name z, ch_lat = az_lat z, ch_lon = az_lon z,
      ch_radius_meters = az_radius_meters z, ch_priority = az_priority z, ch_is_active = az_is_active z\<rparr>"

definition fetchActiveZonesFromDB :: "world \<Rightarrow> cached_zone list" where
  "fetchActiveZonesFromDB w =
     map cached_of (sort_key (\<lambda>z. - az_priority z) (filter az_is_active (alert_zones w)))"

definition getActiveAlertZones :: "env \<Rightarrow> cache_env \<Rightarrow> zone_state \<Rightarrow> cached_zone list \<times> zone_state" where
  "getActiveAlertZones e ce s =
     (case cache_get ce (now e) (zs_cache s) of
        Inl _ \<Rightarrow> (fetchActiveZonesFromDB (zs_db s), s)
      | Inr (Some cached) \<Rightarrow> (cached, s)
      | Inr None \<Rightarrow>
          let zones = fetchActiveZonesFromDB (zs_db s) in
          (case cache_set ce (now e) zones (CACHE_TTL_ALERT_ZONES * 1000) of
             Inl _ \<Rightarrow> (fetchActiveZonesFromDB (zs_db s), s)
           | Inr c \<Rightarrow> (zones, s\<lparr>zs_cache := c\<rparr>)))"

definition invalidateCache :: "cache_env \<Rightarrow> zone_state \<Rightarrow> zone_state" where
  "invalidateCache ce s = (case cache_del ce of Inl _ \<Rightarrow> s | Inr c \<Rightarrow> s\<lparr>zs_cache := c\<rparr>)"

definition warmCache :: "env \<Rightarrow> cache_env \<Rightarrow> zone_state \<Rightarrow> zone_state" where
  "warmCache e ce s = snd (getActiveAlertZones e ce s)"

definition getCacheStats :: "env \<Rightarrow> cache_env \<Rightarrow> zone_state \<Rightarrow> bool \<times> nat option" where
  "getCacheStats e ce s =
     (case cache_get ce (now e) (zs_cache s) of
        Inl _ \<Rightarrow> (False, None)
      | Inr None \<Rightarrow> (False, None)
      | Inr (Some cached) \<Rightarrow> (True, Some (length cached)))"

section \<open>The service\<close>

definition MAX_ZONES_PER_USER :: nat where "MAX_ZONES_PER_USER = 10"
definition MIN_RADIUS_METERS :: rat where "MIN_RADIUS_METERS = 50"
definition MAX_RADIUS_METERS :: rat where "MAX_RADIUS_METERS = 5000"

definition find_zone :: "id \<Rightarrow> world \<Rightarrow> alert_zone_row option" where
  "find_zone i w = find_row az_id i (alert_zones w)"

definition update_zone :: "id \<Rightarrow> (alert_zone_row \<Rightarrow> alert_zone_row) \<Rightarrow> world \<Rightarrow> world" where
  "update_zone i f w = w\<lparr>alert_zones := update_where (\<lambda>z. az_id z = i) f (alert_zones w)\<rparr>"

interpretation zone_store: row_store az_id find_zone update_zone
  by unfold_locales
    (auto simp: find_zone_def update_zone_def find_row_put dest: find_row_Some)

definition radius_error :: exn where
  "radius_error = BadRequestException ''Radius must be between 50 and 5000 meters''"

definition zone_not_found :: "id \<Rightarrow> exn" where
  "zone_not_found i = NotFoundException (''Alert zone with ID '' @ show_int i @ '' not found'')"

definition zone_forbidden :: "string \<Rightarrow> exn" where
  "zone_forbidden verb = ForbiddenException (''You do not have permission to '' @ verb @ '' this alert zone'')"

definition findOneZone :: "id \<Rightarrow> id \<Rightarrow> world \<Rightarrow> exn + zone_dto" where
  "findOneZone zoneId userId w =
     (case find_zone zoneId w of
        None \<Rightarrow> Inl (zone_not_found zoneId)
      | Some zone \<Rightarrow>
          if az_user_id zone \<noteq> userId then Inl (zone_forbidden ''access'')
          else Inr (mapZoneDto zone))"

definition findZonesByUser :: "id \<Rightarrow> world \<Rightarrow> zone_dto list" where
  "findZonesByUser userId w =
     map mapZoneDto (sort_key (\<lambda>z. - az_priority z) (sort_key (\<lambda>z. - az_created_at z)
       (filter (\<lambda>z. az_user_id z = userId) (alert_zones w))))"

definition ENTITY_DELETED :: string where "ENTITY_DELETED = ''audit.entity.deleted''"

definition zone_values :: "string \<Rightarrow> rat \<Rightarrow> rat \<Rightarrow> rat \<Rightarrow> rat \<Rightarrow> bool \<Rightarrow> json" where
  "zone_values name lat lon radius priority active =
     JObj [(''name'', JStr name), (''latitude'', JNum lat), (''longitude'', JNum lon), (''radius_meters'', JNum radius),
           (''priority'', JNum priority), (''is_active'', JBool active)]"

definition zone_dto_values :: "zone_dto \<Rightarrow> json" where
  "zone_dto_values z =
     zone_values (zd_name z) (zd_latitude z) (zd_longitude z) (of_int (zd_radius_meters z)) (of_int (zd_priority z))
       (zd_is_active z)"

text \<open>The payload leaves \<open>success\<close> out, which the audit log records as true.\<close>

definition zone_audit :: "string \<Rightarrow> string \<Rightarrow> string \<Rightarrow> id \<Rightarrow> id \<Rightarrow> json \<Rightarrow> json \<Rightarrow> audit_payload" where
  "zone_audit eventType action description zoneId userId oldValues newValues =
     (entity_audit eventType ''ALERT_ZONE'' zoneId userId action description oldValues newValues)
       \<lparr>au_actorId := Some (show_int userId), au_actorType := Some ''user''\<rparr>"

text \<open>What the \<open>Int\<close> columns keep of the numbers bound by the raw statements.\<close>

definition int_bound :: "env \<Rightarrow> rat \<Rightarrow> int" where
  "int_bound e x = \<lfloor>int_column e x\<rfloor>"

definition new_zone_row :: "env \<Rightarrow> create_zone_dto \<Rightarrow> id \<Rightarrow> world \<Rightarrow> alert_zone_row" where
  "new_zone_row e dto userId w =
     \<lparr>az_id = next_id az_id (alert_zones w), az_user_id = userId, az_name = cz_name dto, az_lat = cz_latitude dto,
      az_lon = cz_longitude dto, az_location_point = (cz_longitude dto, cz_latitude dto),
      az_radius_meters = int_bound e (cz_radius_meters dto), az_is_active = defaulted True (cz_is_active dto),
      az_priority = int_bound e (defaulted 1 (cz_priority dto)), az_created_at = now e, az_updated_at = now e\<rparr>"

definition createZone ::
  "env \<Rightarrow> cache_env \<Rightarrow> create_zone_dto \<Rightarrow> id \<Rightarrow> zone_state \<Rightarrow> (exn + zone_dto) \<times> zone_state" where
  "createZone e ce dto userId s =
     (let w = zs_db s in
      if find_user userId w = None
      then (Inl (NotFoundException (''User with ID '' @ show_int userId @ '' not found'')), s)
      else if count_where (\<lambda>z. az_user_id z = userId) (alert_zones w) \<ge> MAX_ZONES_PER_USER
      then (Inl (BadRequestException ''Maximum limit of 10 alert zones reached''), s)
      else if cz_radius_meters dto < MIN_RADIUS_METERS \<or> cz_radius_meters dto > MAX_RADIUS_METERS
      then (Inl radius_error, s)
      else
        let row = new_zone_row e dto userId w;
            zoneId = az_id row;
            w1 = w\<lparr>alert_zones := alert_zones w @ [row]\<rparr>
        in case findOneZone zoneId userId w1 of
             Inl err \<Rightarrow> (Inl err, s\<lparr>zs_db := w1\<rparr>)
           | Inr zone \<Rightarrow>
               let w2 = emit_audit ENTITY_CREATED
                     (zone_audit ''CREATE'' ''alert_zone_created'' (''Created alert zone: '' @ cz_name dto) zoneId userId JUndefined
                        (zone_values (cz_name dto) (cz_latitude dto) (cz_longitude dto) (cz_radius_meters dto)
                           (defaulted 1 (cz_priority dto)) (defaulted True (cz_is_active dto)))) w1
               in (Inr zone, invalidateCache ce (s\<lparr>zs_db := w2\<rparr>)))"

text \<open>
  The two statements of \<open>update\<close>: the raw one when a coordinate is given, which rounds numbers into
  \<open>Int\<close> columns, and the client's, which refuses \<open>null\<close> for a required column and a number with a
  fraction for an \<open>Int\<close> column.
\<close>

definition moved_row :: "env \<Rightarrow> update_zone_dto \<Rightarrow> alert_zone_row \<Rightarrow> alert_zone_row" where
  "moved_row e dto z =
     (let lat = field_or (snd (az_location_point z)) (uz_latitude dto);
          lon = field_or (fst (az_location_point z)) (uz_longitude dto)
      in z\<lparr>az_location_point := (lon, lat), az_lat := lat, az_lon := lon,
           az_name := field_or (az_name z) (uz_name dto),
           az_radius_meters := int_bound e (field_or (of_int (az_radius_meters z)) (uz_radius_meters dto)),
           az_priority := int_bound e (field_or (of_int (az_priority z)) (uz_priority dto)),
           az_is_active := field_or (az_is_active z) (uz_is_active dto), az_updated_at := now e\<rparr>)"

definition prisma_int_field :: "rat field \<Rightarrow> bool" where
  "prisma_int_field f = (case f of Absent \<Rightarrow> True | Null \<Rightarrow> False | Given x \<Rightarrow> x = of_int \<lfloor>x\<rfloor>)"

definition client_accepts :: "update_zone_dto \<Rightarrow> bool" where
  "client_accepts dto \<longleftrightarrow>
     uz_name dto \<noteq> Null \<and> prisma_int_field (uz_radius_meters dto) \<and> prisma_int_field (uz_priority dto) \<and>
     uz_is_active dto \<noteq> Null"

definition patched_row :: "env \<Rightarrow> update_zone_dto \<Rightarrow> alert_zone_row \<Rightarrow> alert_zone_row" where
  "patched_row e dto z =
     z\<lparr>az_name := field_or (az_name z) (uz_name dto),
       az_radius_meters := \<lfloor>field_or (of_int (az_radius_meters z)) (uz_radius_meters dto)\<rfloor>,
       az_priority := \<lfloor>field_or (of_int (az_priority z)) (uz_priority dto)\<rfloor>,
       az_is_active := field_or (az_is_active z) (uz_is_active dto), az_updated_at := now e\<rparr>"

text \<open>\<open>null < 50\<close> is \<open>0 < 50\<close>.\<close>

definition radius_refused :: "rat field \<Rightarrow> bool" where
  "radius_refused f = (case f of Absent \<Rightarrow> False | Null \<Rightarrow> True | Given r \<Rightarrow> r < MIN_RADIUS_METERS \<or> r > MAX_RADIUS_METERS)"

definition updateZone ::
  "env \<Rightarrow> cache_env \<Rightarrow> id \<Rightarrow> update_zone_dto \<Rightarrow> id \<Rightarrow> zone_state \<Rightarrow> (exn + zone_dto) \<times> zone_state" where
  "updateZone e ce zoneId dto userId s =
     (let w = zs_db s in
      case find_zone zoneId w of
        None \<Rightarrow> (Inl (zone_not_found zoneId), s)
      | Some existing \<Rightarrow>
          if az_user_id existing \<noteq> userId then (Inl (zone_forbidden ''update''), s)
          else if radius_refused (uz_radius_meters dto) then (Inl radius_error, s)
          else case findOneZone zoneId userId w of
            Inl err \<Rightarrow> (Inl err, s)
          | Inr old \<Rightarrow>
              let moved = is_given (uz_latitude dto) \<or> is_given (uz_longitude dto) in
              if \<not> moved \<and> \<not> client_accepts dto then (Inl (Error ''Invalid prisma.alertZone.update() invocation''), s)
              else
                let w1 = update_zone zoneId (if moved then moved_row e dto else patched_row e dto) w
                in case findOneZone zoneId userId w1 of
                     Inl err \<Rightarrow> (Inl err, s\<lparr>zs_db := w1\<rparr>)
                   | Inr updated \<Rightarrow>
                       let w2 = emit_audit ENTITY_UPDATED
                             (zone_audit ''UPDATE'' ''alert_zone_updated'' (''Updated alert zone: '' @ zd_name updated) zoneId userId
                                (zone_dto_values old) (zone_dto_values updated)) w1
                       in (Inr updated, invalidateCache ce (s\<lparr>zs_db := w2\<rparr>)))"

definition deleteZone :: "cache_env \<Rightarrow> id \<Rightarrow> id \<Rightarrow> zone_state \<Rightarrow> (exn + unit) \<times> zone_state" where
  "deleteZone ce zoneId userId s =
     (let w = zs_db s in
      case find_zone zoneId w of
        None \<Rightarrow> (Inl (zone_not_found zoneId), s)
      | Some zone \<Rightarrow>
          if az_user_id zone \<noteq> userId then (Inl (zone_forbidden ''delete''), s)
          else case findOneZone zoneId userId w of
            Inl err \<Rightarrow> (Inl err, s)
          | Inr details \<Rightarrow>
              let w1 = w\<lparr>alert_zones := delete_where (\<lambda>z. az_id z = zoneId) (alert_zones w)\<rparr>;
                  w2 = emit_audit ENTITY_DELETED
                    (zone_audit ''DELETE'' ''alert_zone_deleted'' (''Deleted alert zone: '' @ zd_name details) zoneId userId
                       (zone_dto_values details) JUndefined) w1
              in (Inr (), invalidateCache ce (s\<lparr>zs_db := w2\<rparr>)))"

end
