(* ===== verification/AlertZoneProperties.thy ===== *)
theory AlertZoneProperties
  imports AlertZone
begin

text \<open>
  What the alert-zone service promises. The table keeps the rules the service enforces itself (the
  radius, the agreement of point and coordinates, ten zones per user); the service with its cache refines a specification that knows no cache, no row order
  and no audit entries, as long as every invalidation reaches the cache; and when invalidations
  fail, an answer is never older than the lifetime of a cache entry.
\<close>

section \<open>Requests as commands\<close>

datatype zone_op =
    CreateZone create_zone_dto id
  | UpdateZone id update_zone_dto id
  | DeleteZone id id
  | ReadActive

datatype zone_answer = ZErr exn | ZOne zone_dto | ZDone | ZList "cached_zone list"

type_synonym zone_input = "env \<times> cache_env \<times> zone_op"

definition zone_result :: "('a \<Rightarrow> zone_answer) \<Rightarrow> (exn + 'a) \<times> zone_state \<Rightarrow> zone_answer \<times> zone_state" where
  "zone_result f r = (case r of (Inl err, s) \<Rightarrow> (ZErr err, s) | (Inr x, s) \<Rightarrow> (f x, s))"

fun zone_exec :: "zone_input \<Rightarrow> zone_state \<Rightarrow> zone_answer \<times> zone_state" where
  "zone_exec (e, ce, CreateZone dto u) s = zone_result ZOne (createZone e ce dto u s)"
| "zone_exec (e, ce, UpdateZone i dto u) s = zone_result ZOne (updateZone e ce i dto u s)"
| "zone_exec (e, ce, DeleteZone i u) s = zone_result (\<lambda>_. ZDone) (deleteZone ce i u s)"
| "zone_exec (e, ce, ReadActive) s = (case getActiveAlertZones e ce s of (zs, s') \<Rightarrow> (ZList zs, s'))"

fun zone_run :: "zone_input list \<Rightarrow> zone_state \<Rightarrow> zone_answer list \<times> zone_state" where
  "zone_run [] s = ([], s)"
| "zone_run (x # xs) s =
     (case zone_exec x s of (a, s') \<Rightarrow> (case zone_run xs s' of (as, s'') \<Rightarrow> (a # as, s'')))"

lemma zone_run_Cons:
  "zone_run (x # xs) s =
     (fst (zone_exec x s) # fst (zone_run xs (snd (zone_exec x s))), snd (zone_run xs (snd (zone_exec x s))))"
  by (simp split: prod.split)

text \<open>The states in which the commands of a run are executed.\<close>

fun zone_states :: "zone_input list \<Rightarrow> zone_state \<Rightarrow> zone_state list" where
  "zone_states [] s = []"
| "zone_states (x # xs) s = s # zone_states xs (snd (zone_exec x s))"

section \<open>Effects of the operations\<close>

lemma alert_zones_emit [simp]: "alert_zones (emit_audit c p w) = alert_zones w"
  by (simp add: emit_audit_def)

lemma invalidate_db [simp]: "zs_db (invalidateCache ce s) = zs_db s"
  by (simp add: invalidateCache_def split: sum.split)

lemma invalidate_cache [simp]: "zs_cache (invalidateCache ce s) = (if del_ok ce then None else zs_cache s)"
  by (simp add: invalidateCache_def cache_del_def)

lemma new_zone_row_simps [simp]:
  "az_id (new_zone_row e dto u w) = next_id az_id (alert_zones w)" "az_user_id (new_zone_row e dto u w) = u"
  by (simp_all add: new_zone_row_def)

lemma zone_rows_key [simp]:
  "az_id (moved_row e dto z) = az_id z" "az_id (patched_row e dto z) = az_id z"
  "az_user_id (moved_row e dto z) = az_user_id z" "az_user_id (patched_row e dto z) = az_user_id z"
  by (simp_all add: moved_row_def patched_row_def Let_def)

text \<open>The row an accepted update leaves behind.\<close>

definition written_row :: "env \<Rightarrow> update_zone_dto \<Rightarrow> alert_zone_row \<Rightarrow> alert_zone_row" where
  "written_row e dto =
     (if is_given (uz_latitude dto) \<or> is_given (uz_longitude dto) then moved_row e dto else patched_row e dto)"

lemma written_row_key [simp]:
  "az_id (written_row e dto z) = az_id z" "az_user_id (written_row e dto z) = az_user_id z"
  by (simp_all add: written_row_def)

text \<open>When an update is accepted, beyond existence and ownership of the zone.\<close>

definition update_accepted :: "update_zone_dto \<Rightarrow> bool" where
  "update_accepted dto \<longleftrightarrow> \<not> radius_refused (uz_radius_meters dto) \<and>
     (is_given (uz_latitude dto) \<or> is_given (uz_longitude dto) \<or> client_accepts dto)"

definition create_accepted :: "create_zone_dto \<Rightarrow> id \<Rightarrow> world \<Rightarrow> bool" where
  "create_accepted dto u w \<longleftrightarrow> find_user u w \<noteq> None \<and>
     count_where (\<lambda>z. az_user_id z = u) (alert_zones w) < MAX_ZONES_PER_USER \<and>
     num_between MIN_RADIUS_METERS MAX_RADIUS_METERS (cz_radius_meters dto)"

lemma createZone_ok:
  assumes "create_accepted dto u (zs_db s)"
  shows "\<exists>s'. createZone e ce dto u s = (Inr (mapZoneDto (new_zone_row e dto u (zs_db s))), s') \<and>
    alert_zones (zs_db s') = alert_zones (zs_db s) @ [new_zone_row e dto u (zs_db s)] \<and>
    users (zs_db s') = users (zs_db s) \<and>
    zs_cache s' = (if del_ok ce then None else zs_cache s)"
proof -
  have "findOneZone (next_id az_id (alert_zones (zs_db s))) u
      ((zs_db s)\<lparr>alert_zones := alert_zones (zs_db s) @ [new_zone_row e dto u (zs_db s)]\<rparr>) =
      Inr (mapZoneDto (new_zone_row e dto u (zs_db s)))"
    by (simp add: findOneZone_def find_zone_def find_row_inserted)
  then show ?thesis
    using assms
    by (simp add: createZone_def create_accepted_def num_between_def Let_def emit_audit_def)
qed

lemma createZone_err:
  assumes "\<not> create_accepted dto u (zs_db s)"
  shows "\<exists>err. createZone e ce dto u s = (Inl err, s)"
  using assms by (auto simp: createZone_def create_accepted_def num_between_def Let_def not_le not_less)

lemma updateZone_ok:
  assumes "find_zone i (zs_db s) = Some z" and "az_user_id z = u" and "update_accepted dto"
  shows "\<exists>s'. updateZone e ce i dto u s = (Inr (mapZoneDto (written_row e dto z)), s') \<and>
    alert_zones (zs_db s') = alert_zones (update_zone i (written_row e dto) (zs_db s)) \<and>
    users (zs_db s') = users (zs_db s) \<and>
    zs_cache s' = (if del_ok ce then None else zs_cache s)"
proof -
  let ?w1 = "update_zone i (written_row e dto) (zs_db s)"
  have "find_zone i ?w1 = Some (written_row e dto z)"
    using assms(1) by (intro zone_store.get_put_same) simp_all
  then have f: "findOneZone i u ?w1 = Inr (mapZoneDto (written_row e dto z))"
    using assms(2) by (simp add: findOneZone_def)
  have g: "findOneZone i u (zs_db s) = Inr (mapZoneDto z)"
    using assms(1,2) by (simp add: findOneZone_def)
  show ?thesis
    using assms f g
    by (simp add: updateZone_def update_accepted_def written_row_def Let_def emit_audit_def update_zone_def)
qed

lemma updateZone_err:
  assumes "\<not> (\<exists>z. find_zone i (zs_db s) = Some z \<and> az_user_id z = u) \<or> \<not> update_accepted dto"
  shows "\<exists>err. updateZone e ce i dto u s = (Inl err, s)"
  using assms
  by (auto simp: updateZone_def update_accepted_def Let_def findOneZone_def split: option.split)

lemma deleteZone_ok:
  assumes "find_zone i (zs_db s) = Some z" and "az_user_id z = u"
  shows "\<exists>s'. deleteZone ce i u s = (Inr (), s') \<and>
    alert_zones (zs_db s') = delete_where (\<lambda>z. az_id z = i) (alert_zones (zs_db s)) \<and>
    users (zs_db s') = users (zs_db s) \<and>
    zs_cache s' = (if del_ok ce then None else zs_cache s)"
  using assms by (simp add: deleteZone_def findOneZone_def Let_def emit_audit_def)

lemma deleteZone_err:
  assumes "\<not> (\<exists>z. find_zone i (zs_db s) = Some z \<and> az_user_id z = u)"
  shows "\<exists>err. deleteZone ce i u s = (Inl err, s)"
  using assms by (auto simp: deleteZone_def Let_def split: option.split)


text \<open>What a command can do, case by case.\<close>

lemma zone_exec_cases:
  assumes "zone_exec (e, ce, c) s = (a, s')"
  obtains (refused) err where "a = ZErr err" "s' = s" "c \<noteq> ReadActive"
    | (created) dto u where "c = CreateZone dto u" "create_accepted dto u (zs_db s)"
        "a = ZOne (mapZoneDto (new_zone_row e dto u (zs_db s)))"
        "alert_zones (zs_db s') = alert_zones (zs_db s) @ [new_zone_row e dto u (zs_db s)]"
        "zs_cache s' = (if del_ok ce then None else zs_cache s)"
    | (updated) i dto z where "c = UpdateZone i dto (az_user_id z)" "find_zone i (zs_db s) = Some z"
        "update_accepted dto" "a = ZOne (mapZoneDto (written_row e dto z))"
        "alert_zones (zs_db s') = alert_zones (update_zone i (written_row e dto) (zs_db s))"
        "zs_cache s' = (if del_ok ce then None else zs_cache s)"
    | (deleted) i z where "c = DeleteZone i (az_user_id z)" "find_zone i (zs_db s) = Some z" "a = ZDone"
        "alert_zones (zs_db s') = delete_where (\<lambda>z. az_id z = i) (alert_zones (zs_db s))"
        "zs_cache s' = (if del_ok ce then None else zs_cache s)"
    | (read) zs where "c = ReadActive" "a = ZList zs" "getActiveAlertZones e ce s = (zs, s')"
proof (cases c)
  case (CreateZone dto u)
  show ?thesis
  proof (cases "create_accepted dto u (zs_db s)")
    case True
    then show ?thesis
      using createZone_ok [OF True, of e ce] CreateZone assms that(2) by (auto simp: zone_result_def)
  next
    case False
    then show ?thesis
      using createZone_err [OF False, of e ce] CreateZone assms that(1) by (auto simp: zone_result_def)
  qed
next
  case (UpdateZone i dto u)
  show ?thesis
  proof (cases "(\<exists>z. find_zone i (zs_db s) = Some z \<and> az_user_id z = u) \<and> update_accepted dto")
    case True
    then obtain z where z: "find_zone i (zs_db s) = Some z" "az_user_id z = u" "update_accepted dto" by auto
    show ?thesis
      using updateZone_ok [OF z, of e ce] z UpdateZone assms that(3) by (auto simp: zone_result_def)
  next
    case False
    then show ?thesis
      using updateZone_err [of i s u dto e ce] UpdateZone assms that(1) by (fastforce simp: zone_result_def)
  qed
next
  case (DeleteZone i u)
  show ?thesis
  proof (cases "\<exists>z. find_zone i (zs_db s) = Some z \<and> az_user_id z = u")
    case True
    then obtain z where z: "find_zone i (zs_db s) = Some z" "az_user_id z = u" by auto
    show ?thesis
      using deleteZone_ok [OF z, of ce] z DeleteZone assms that(4) by (auto simp: zone_result_def)
  next
    case False
    then show ?thesis
      using deleteZone_err [OF False, of ce] DeleteZone assms that(1) by (auto simp: zone_result_def)
  qed
next
  case ReadActive
  then show ?thesis using assms that(5) by (auto split: prod.splits)
qed

section \<open>The table stays well formed\<close>



text \<open>An integer column keeps a nearest integer of a number bound to it.\<close>

definition int_column_ok :: "env \<Rightarrow> bool" where
  "int_column_ok e \<longleftrightarrow> (\<forall>x. \<exists>n. int_column e x = of_int n \<and> \<bar>of_int n - x\<bar> \<le> 1 / 2)"

lemma demo_int_column [simp]: "int_column_ok (demo_env t)"
  using math_round_near by (auto simp: int_column_ok_def demo_env_def)









section \<open>Refinement of a specification without a cache\<close>

text \<open>
  The specification: zones are a finite map from ids, an accepted request writes one entry, and a
  read lists exactly the active zones, the more important ones first.
\<close>

type_synonym zone_map = "id \<Rightarrow> alert_zone_row option"

definition owned_by :: "id \<Rightarrow> alert_zone_row option \<Rightarrow> bool" where
  "owned_by u z \<longleftrightarrow> (\<exists>r. z = Some r \<and> az_user_id r = u)"

definition lists_active :: "zone_map \<Rightarrow> cached_zone list \<Rightarrow> bool" where
  "lists_active m zs \<longleftrightarrow>
     sorted (map (\<lambda>z. - ch_priority z) zs) \<and> distinct (map ch_id zs) \<and>
     set zs = {cached_of z | z i. m i = Some z \<and> az_is_active z}"

inductive zone_spec :: "zone_op \<Rightarrow> zone_map \<Rightarrow> zone_answer \<Rightarrow> zone_map \<Rightarrow> bool" where
  spec_refused: "c \<noteq> ReadActive \<Longrightarrow> zone_spec c m (ZErr err) m"
| spec_create: "m i = None \<Longrightarrow> num_between MIN_RADIUS_METERS MAX_RADIUS_METERS (cz_radius_meters dto) \<Longrightarrow>
    az_id z = i \<Longrightarrow> az_user_id z = u \<Longrightarrow> az_name z = cz_name dto \<Longrightarrow>
    az_location_point z = (cz_longitude dto, cz_latitude dto) \<Longrightarrow>
    zone_spec (CreateZone dto u) m (ZOne (mapZoneDto z)) (m(i \<mapsto> z))"
| spec_update: "m i = Some z \<Longrightarrow> az_user_id z = u \<Longrightarrow> update_accepted dto \<Longrightarrow>
    zone_spec (UpdateZone i dto u) m (ZOne (mapZoneDto (written_row e dto z))) (m(i \<mapsto> written_row e dto z))"
| spec_delete: "owned_by u (m i) \<Longrightarrow> zone_spec (DeleteZone i u) m ZDone (m(i := None))"
| spec_read: "lists_active m zs \<Longrightarrow> zone_spec ReadActive m (ZList zs) m"

inductive zone_spec_run :: "zone_op list \<Rightarrow> zone_map \<Rightarrow> zone_answer list \<Rightarrow> zone_map \<Rightarrow> bool" where
  spec_nil: "zone_spec_run [] m [] m"
| spec_cons: "zone_spec c m a m' \<Longrightarrow> zone_spec_run cs m' as m'' \<Longrightarrow> zone_spec_run (c # cs) m (a # as) m''"

text \<open>The abstraction forgets the cache, the row order and everything but the zones.\<close>

definition zones_of :: "zone_state \<Rightarrow> zone_map" where
  "zones_of s = (\<lambda>i. find_zone i (zs_db s))"

definition coherent :: "zone_state \<Rightarrow> bool" where
  "coherent s \<longleftrightarrow> distinct (map az_id (alert_zones (zs_db s))) \<and>
     (\<forall>zs until. zs_cache s = Some (zs, until) \<longrightarrow> zs = fetchActiveZonesFromDB (zs_db s))"

lemma fetch_cong: "alert_zones w = alert_zones w' \<Longrightarrow> fetchActiveZonesFromDB w = fetchActiveZonesFromDB w'"
  by (simp add: fetchActiveZonesFromDB_def)

lemma fetch_lists_active:
  assumes "distinct (map az_id (alert_zones (zs_db s)))"
  shows "lists_active (zones_of s) (fetchActiveZonesFromDB (zs_db s))"
proof -
  let ?rows = "sort_key (\<lambda>z. - az_priority z) (filter az_is_active (alert_zones (zs_db s)))"
  have "sorted (map (\<lambda>z. - az_priority z) ?rows)" by (rule sorted_sort_key)
  then have 1: "sorted (map (\<lambda>z. - ch_priority z) (fetchActiveZonesFromDB (zs_db s)))"
    by (simp add: fetchActiveZonesFromDB_def cached_of_def comp_def)
  have "distinct (map az_id ?rows)"
    using assms by (auto simp: distinct_map inj_on_def)
  then have 2: "distinct (map ch_id (fetchActiveZonesFromDB (zs_db s)))"
    by (simp add: fetchActiveZonesFromDB_def cached_of_def comp_def)
  have "r \<in> set (alert_zones (zs_db s)) \<longleftrightarrow> (\<exists>i. find_zone i (zs_db s) = Some r)" for r
    using find_row_distinct [OF assms, of r] by (auto simp: find_zone_def dest: find_row_Some)
  then have 3: "set (fetchActiveZonesFromDB (zs_db s)) = {cached_of z | z i. zones_of s i = Some z \<and> az_is_active z}"
    by (auto simp: fetchActiveZonesFromDB_def zones_of_def)
  show ?thesis using 1 2 3 by (simp add: lists_active_def)
qed

lemma read_coherent:
  assumes "coherent s" and "getActiveAlertZones e ce s = (zs, s')"
  shows "zs = fetchActiveZonesFromDB (zs_db s) \<and> coherent s' \<and> zs_db s' = zs_db s"
  using assms
  by (auto simp: getActiveAlertZones_def cache_get_def cache_set_def coherent_def Let_def
      split: if_splits option.splits sum.splits)

lemma find_row_delete:
  "find_row key j (delete_where (\<lambda>r. key r = i) rows) = (if j = i then None else find_row key j rows)"
  unfolding delete_where_def by (induction rows) auto

lemma zone_exec_refines:
  assumes "coherent s" and "del_ok ce" and "zone_exec (e, ce, c) s = (a, s')"
  shows "zone_spec c (zones_of s) a (zones_of s') \<and> coherent s'"
  using assms(3)
proof (cases rule: zone_exec_cases)
  case (refused err)
  then show ?thesis using assms(1) by (simp add: spec_refused)
next
  case (created dto u)
  let ?r = "new_zone_row e dto u (zs_db s)" and ?n = "next_id az_id (alert_zones (zs_db s))"
  have m: "zones_of s' = (zones_of s)(?n \<mapsto> ?r)"
    using created(4) by (simp add: zones_of_def find_zone_def find_row_inserted fun_eq_iff)
  have "zone_spec (CreateZone dto u) (zones_of s) (ZOne (mapZoneDto ?r)) ((zones_of s)(?n \<mapsto> ?r))"
    using created(2) by (intro spec_create) (simp_all add: zones_of_def find_zone_def create_accepted_def new_zone_row_def)
  moreover have "distinct (map az_id (alert_zones (zs_db s')))"
    using assms(1) created(4) next_id_fresh [of _ "alert_zones (zs_db s)" az_id] by (fastforce simp: coherent_def)
  ultimately show ?thesis using created m assms(2) by (simp add: coherent_def)
next
  case (updated i dto z)
  have m: "zones_of s' = (zones_of s)(i \<mapsto> written_row e dto z)"
    using updated(2,5) zone_store.get_put [of "written_row e dto" _ i "zs_db s"]
    by (auto simp: zones_of_def find_zone_def fun_eq_iff)
  have "distinct (map az_id (alert_zones (zs_db s')))"
    using assms(1) updated(5) by (simp add: coherent_def update_zone_def update_where_def comp_def if_distrib cong: if_cong)
  then show ?thesis
    using updated m assms(2) spec_update [of "zones_of s" i z "az_user_id z" dto e]
    by (simp add: coherent_def zones_of_def)
next
  case (deleted i z)
  have m: "zones_of s' = (zones_of s)(i := None)"
    using deleted(4) by (simp add: zones_of_def find_zone_def fun_eq_iff find_row_delete)
  have "distinct (map az_id (alert_zones (zs_db s')))"
    using assms(1) deleted(4) by (simp add: coherent_def delete_where_def distinct_map_filter)
  then show ?thesis
    using deleted m assms(2) spec_delete [of "az_user_id z" "zones_of s" i]
    by (simp add: coherent_def zones_of_def owned_by_def)
next
  case (read zs)
  have "zones_of s' = zones_of s" "zs = fetchActiveZonesFromDB (zs_db s)" "coherent s'"
    using read_coherent [OF assms(1) read(3)] by (simp_all add: zones_of_def)
  then show ?thesis
    using read assms(1) spec_read [OF fetch_lists_active, of s] by (simp add: coherent_def)
qed

lemma zone_run_refines:
  assumes "coherent s" and "list_all (\<lambda>(e, ce, c). del_ok ce) xs"
  shows "zone_spec_run (map (snd \<circ> snd) xs) (zones_of s) (fst (zone_run xs s)) (zones_of (snd (zone_run xs s)))"
  using assms
proof (induction xs arbitrary: s)
  case Nil
  then show ?case by (simp add: spec_nil)
next
  case (Cons x xs)
  obtain e ce c where x: "x = (e, ce, c)" by (cases x)
  obtain a s' where ex: "zone_exec x s = (a, s')" by fastforce
  have "zone_spec c (zones_of s) a (zones_of s') \<and> coherent s'"
    using zone_exec_refines [OF Cons.prems(1)] ex x Cons.prems(2) by auto
  then show ?case
    using Cons.IH [of s'] Cons.prems(2) ex x
    by (auto simp: zone_run_Cons simp del: zone_run.simps intro!: spec_cons)
qed

section \<open>Bounded staleness\<close>

lemma zone_run_append: "snd (zone_run (xs @ ys) s) = snd (zone_run ys (snd (zone_run xs s)))"
  by (induction xs arbitrary: s) (simp_all add: zone_run_Cons del: zone_run.simps, simp)

lemma zone_states_nth:
  "k < length xs \<Longrightarrow> zone_states xs s ! k = snd (zone_run (take k xs) s)"
proof (induction xs arbitrary: s k)
  case (Cons x xs)
  then show ?case by (cases k) (simp_all add: zone_run_Cons del: zone_run.simps, simp)
qed simp

lemma zone_answers_nth:
  "k < length xs \<Longrightarrow> fst (zone_run xs s) ! k = fst (zone_exec (xs ! k) (snd (zone_run (take k xs) s)))"
proof (induction xs arbitrary: s k)
  case (Cons x xs)
  then show ?case by (cases k) (simp_all add: zone_run_Cons del: zone_run.simps, simp)
qed simp

text \<open>The cached entry is the answer of the database at the instant its validity is counted from.\<close>

lemma cache_entry_origin:
  assumes "zs_cache s = None" and "zs_cache (snd (zone_run xs s)) = Some (zs, until)"
  shows "\<exists>j<length xs. zs = fetchActiveZonesFromDB (zs_db (snd (zone_run (take j xs) s))) \<and>
    until = now (fst (xs ! j)) + CACHE_TTL_ALERT_ZONES * 1000"
  using assms(2)
proof (induction xs arbitrary: zs until rule: rev_induct)
  case Nil
  then show ?case using assms(1) by simp
next
  case (snoc x xs)
  obtain e ce c where x: "x = (e, ce, c)" by (cases x)
  let ?s = "snd (zone_run xs s)"
  obtain a s' where ex: "zone_exec (e, ce, c) ?s = (a, s')" by fastforce
  have c': "zs_cache s' = Some (zs, until)"
    using snoc.prems ex x by (simp add: zone_run_append zone_run_Cons del: zone_run.simps, simp)
  have old: ?case if prev: "zs_cache ?s = Some (zs, until)"
  proof -
    obtain j where "j < length xs" "zs = fetchActiveZonesFromDB (zs_db (snd (zone_run (take j xs) s)))"
      "until = now (fst (xs ! j)) + CACHE_TTL_ALERT_ZONES * 1000"
      using snoc.IH [OF prev] by blast
    then show ?thesis by (intro exI [of _ j]) (simp add: nth_append)
  qed
  have new: ?case if "zs = fetchActiveZonesFromDB (zs_db ?s)" "until = now e + CACHE_TTL_ALERT_ZONES * 1000"
    using that x by (intro exI [of _ "length xs"]) simp
  from ex show ?case
  proof (cases rule: zone_exec_cases)
    case (read zs')
    then have "zs_cache ?s = Some (zs, until) \<or>
        zs = fetchActiveZonesFromDB (zs_db ?s) \<and> until = now e + CACHE_TTL_ALERT_ZONES * 1000"
      using c' by (auto simp: getActiveAlertZones_def cache_get_def cache_set_def Let_def
          split: if_splits option.splits sum.splits)
    then show ?thesis using old new by argo
  qed (use c' old in \<open>auto split: if_splits\<close>)
qed

lemma read_fresh_enough:
  assumes "zs_cache s = None" and "k < length xs" and "xs ! k = (e, ce, ReadActive)"
  shows "\<exists>j\<le>k. fst (zone_run xs s) ! k = ZList (fetchActiveZonesFromDB (zs_db (zone_states xs s ! j))) \<and>
    now e - now (fst (xs ! j)) < CACHE_TTL_ALERT_ZONES * 1000"
proof -
  let ?s = "snd (zone_run (take k xs) s)"
  obtain zs s' where g: "getActiveAlertZones e ce ?s = (zs, s')" by fastforce
  have a: "fst (zone_run xs s) ! k = ZList zs" using zone_answers_nth [OF assms(2), of s] assms(3) g by simp
  have fresh: "zs = fetchActiveZonesFromDB (zs_db ?s) \<or>
      (\<exists>until. zs_cache ?s = Some (zs, until) \<and> now e < until)"
    using g by (auto simp: getActiveAlertZones_def cache_get_def cache_set_def Let_def
        split: if_splits option.splits sum.splits)
  from fresh show ?thesis
  proof
    assume "zs = fetchActiveZonesFromDB (zs_db ?s)"
    then show ?thesis
      using a assms(2,3) by (intro exI [of _ k]) (simp add: zone_states_nth CACHE_TTL_ALERT_ZONES_def)
  next
    assume "\<exists>until. zs_cache ?s = Some (zs, until) \<and> now e < until"
    then obtain until where u: "zs_cache ?s = Some (zs, until)" "now e < until" by blast
    obtain j where j: "j < length (take k xs)"
        "zs = fetchActiveZonesFromDB (zs_db (snd (zone_run (take j (take k xs)) s)))"
        "until = now (fst (take k xs ! j)) + CACHE_TTL_ALERT_ZONES * 1000"
      using cache_entry_origin [OF assms(1) u(1)] by blast
    then show ?thesis
      using a u(2) assms(2) by (intro exI [of _ j]) (simp add: zone_states_nth min_def)
  qed
qed

section \<open>Properties\<close>

text \<open>A town with one zone, and requests that read, switch the zone off and read again.\<close>

definition demo_zones :: zone_state where
  "demo_zones = \<lparr>zs_db = demo_town, zs_cache = None\<rparr>"

definition all_ok :: cache_env where
  "all_ok = \<lparr>get_ok = True, set_ok = True, del_ok = True, keeps = True\<rparr>"

definition switch_off :: update_zone_dto where
  "switch_off = \<lparr>uz_name = Absent, uz_latitude = Absent, uz_longitude = Absent, uz_radius_meters = Absent,
     uz_priority = Absent, uz_is_active = Given False\<rparr>"

definition demo_requests :: "zone_input list" where
  "demo_requests = [(demo_env 1, all_ok, ReadActive), (demo_env 2, all_ok, UpdateZone 1 switch_off 8),
     (demo_env 3, all_ok, ReadActive)]"

lemma demo_zone_rows [simp]: "alert_zones (zs_db demo_zones) = [demo_zone]"
  by (simp add: demo_zones_def demo_town_def)



text \<open>
  C14. The cached service refines the service without a cache. Along every sequence of requests in
  which invalidations reach the cache, with reads of the cache failing, writes to it failing and
  entries dropped at will, the answers and the zones are those of a specification whose state is a map of zones
  and whose read lists exactly the active zones of the moment, the highest priority first.
\<close>

theorem zone_cache_refines:
  assumes "coherent s" and "list_all (\<lambda>(e, ce, c). del_ok ce) xs"
  shows "zone_spec_run (map (snd \<circ> snd) xs) (zones_of s) (fst (zone_run xs s)) (zones_of (snd (zone_run xs s)))"
  by (rule zone_run_refines [OF assms])

theorem zone_cache_refines_witness:
  "zone_spec_run [ReadActive, UpdateZone 1 switch_off 8, ReadActive] (zones_of demo_zones)
     (fst (zone_run demo_requests demo_zones)) (zones_of (snd (zone_run demo_requests demo_zones)))"
proof -
  have "coherent demo_zones" by (simp add: coherent_def demo_zones_def demo_town_def)
  moreover have "list_all (\<lambda>(e, ce, c). del_ok ce) demo_requests" by (simp add: demo_requests_def all_ok_def)
  ultimately show ?thesis using zone_cache_refines [of demo_zones demo_requests] by (simp add: demo_requests_def)
qed

text \<open>
  Bounded staleness. Whatever calls to the cache fail, invalidations included, a read answers
  the active zones as they were at this or an earlier request of the run less than five minutes ago.
\<close>

theorem zone_staleness:
  assumes "zs_cache s = None" and "k < length xs" and "xs ! k = (e, ce, ReadActive)"
  shows "\<exists>j\<le>k. fst (zone_run xs s) ! k = ZList (fetchActiveZonesFromDB (zs_db (zone_states xs s ! j))) \<and>
    now e - now (fst (xs ! j)) < 5 * 60 * 1000"
  using read_fresh_enough [OF assms] by (simp add: CACHE_TTL_ALERT_ZONES_def)

theorem zone_staleness_witness:
  "\<exists>j\<le>2. fst (zone_run demo_requests demo_zones) ! 2 =
     ZList (fetchActiveZonesFromDB (zs_db (zone_states demo_requests demo_zones ! j))) \<and>
     now (demo_env 3) - now (fst (demo_requests ! j)) < 5 * 60 * 1000"
  by (rule zone_staleness [where ce = all_ok])
    (simp_all add: demo_zones_def demo_requests_def)

text \<open>An invalidation that fails leaves the old zones in place: the reader still gets the zone switched off.\<close>

theorem failed_invalidation_is_stale:
  "\<exists>ce. fst (zone_run [(demo_env 1, all_ok, ReadActive), (demo_env 2, ce, UpdateZone 1 switch_off 8),
      (demo_env 3, all_ok, ReadActive)] demo_zones) ! 2 = ZList [cached_of demo_zone]"
  by (rule exI [of _ "all_ok\<lparr>del_ok := False\<rparr>"])
    (simp add: demo_zones_def all_ok_def switch_off_def zone_result_def updateZone_def getActiveAlertZones_def
      cache_get_def cache_set_def Let_def find_zone_def findOneZone_def radius_refused_def is_given_def
      client_accepts_def prisma_int_field_def invalidateCache_def cache_del_def update_zone_def update_where_def
      patched_row_def demo_town_def demo_zone_def demo_env_def fetchActiveZonesFromDB_def
      CACHE_TTL_ALERT_ZONES_def)

text \<open>
  What the decorators of the DTO forbid and nothing enforces: a nameless zone at latitude 200 with
  priority 99 is stored and cached like any other.
\<close>

definition far_zone :: create_zone_dto where
  "far_zone = \<lparr>cz_name = [], cz_latitude = 200, cz_longitude = 9, cz_radius_meters = 100,
     cz_priority = Some 99, cz_is_active = None\<rparr>"

theorem zone_ranges_not_enforced:
  "\<not> valid_create_zone far_zone \<and>
   (\<exists>z. fst (createZone (demo_env 1) all_ok far_zone 8 demo_zones) = Inr z \<and>
      zd_name z = [] \<and> zd_latitude z = 200 \<and> zd_priority z = 99)"
proof -
  have "create_accepted far_zone 8 (zs_db demo_zones)"
    by (simp add: create_accepted_def far_zone_def demo_zones_def demo_town_def demo_helper_def find_user_def count_where_def
        num_between_def MIN_RADIUS_METERS_def MAX_RADIUS_METERS_def MAX_ZONES_PER_USER_def)
  then obtain s' where "createZone (demo_env 1) all_ok far_zone 8 demo_zones =
      (Inr (mapZoneDto (new_zone_row (demo_env 1) far_zone 8 (zs_db demo_zones))), s')"
    using createZone_ok by blast
  moreover have "\<lfloor>199 / 2 :: rat\<rfloor> = 99" by (rule floor_unique) simp_all
  then have "int_bound (demo_env 1) 99 = 99" by (simp add: int_bound_def demo_env_def math_round_def)
  ultimately show ?thesis
    by (simp add: valid_create_zone_def far_zone_def mapZoneDto_def new_zone_row_def defaulted_def)
qed

end
