(* ===== verification/Token.thy ===== *)
theory Token
  imports World JsText
begin

text \<open>
  \<open>src/auth/services/token.service.ts\<close>, \<open>token-cleanup.service.ts\<close> and \<open>login-issuer.service.ts\<close>:
  access and rotating refresh tokens. The session table and the users with their roles and gates
  are the state; JWT signing and verification, the hash, the authenticated cipher and the
  encodings are a record of functions, and \<open>crypto_ok\<close> states what is documented of them. What
  a call draws from its surroundings (the clock, random identifiers, the initialisation vector) is
  a record of its own, with whether the one database update whose failure is caught succeeds. A
  refresh request is a sequence of steps, one \<open>rot_phase\<close> after another, so that several requests
  can be interleaved; a step is one database statement, except that issuing the pair (the user and
  the two inserts) and revoking everything (two updates) are one step each.
\<close>

section \<open>State\<close>

record role_row =
  ro_id :: id
  ro_slug :: string
  ro_name :: string
  ro_level :: int
  ro_active :: bool

record gate_row =
  ga_id :: id
  ga_slug :: string
  ga_name :: string
  ga_active :: bool

record auth_user =
  tu_id :: id
  tu_email :: string
  tu_name :: string
  tu_banned :: bool
  tu_banReason :: "string option"
  tu_banExpires :: "time option"
  tu_roles :: "role_row list"
  tu_gates :: "gate_row list"

datatype token_type = SessionToken | AccessToken | RefreshToken

record session_row =
  se_token :: string
  se_tokenType :: token_type
  se_userId :: id
  se_expiresAt :: time
  se_ipAddress :: "string option"
  se_userAgent :: "string option"
  se_revoked :: bool
  se_revokedAt :: "time option"
  se_replacementCiphertext :: "string option"

record auth_db =
  sessions :: "session_row list"
  accounts :: "auth_user list"

record jwt_payload =
  jp_sub :: id
  jp_email :: string
  jp_roles :: "(id \<times> string \<times> int) list"
  jp_gates :: "(id \<times> string) list"
  jp_type :: token_type
  jp_jti :: string

record rotated_tokens =
  rt_userId :: id
  rt_accessToken :: string
  rt_accessExpiresAt :: time
  rt_refreshToken :: string
  rt_refreshExpiresAt :: time

record token_user =
  ku_id :: id
  ku_email :: string
  ku_name :: string
  ku_roles :: "(id \<times> string \<times> string \<times> int) list"
  ku_gates :: "(id \<times> string \<times> string) list"

record crypto =
  env_var :: "string \<Rightarrow> string option"
  sha256_hex :: "string \<Rightarrow> string"
  sha256_raw :: "string \<Rightarrow> string"
  jwt_sign :: "time \<Rightarrow> jwt_payload \<Rightarrow> int \<Rightarrow> string"
  jwt_verify :: "time \<Rightarrow> string \<Rightarrow> jwt_payload option"
  gcm_seal :: "string \<Rightarrow> string \<Rightarrow> string \<Rightarrow> string \<times> string" \<comment> \<open>key, vector, text; tag and ciphertext\<close>
  gcm_open :: "string \<Rightarrow> string \<Rightarrow> string \<Rightarrow> string \<Rightarrow> string option" \<comment> \<open>key, vector, tag, ciphertext\<close>
  base64 :: "string \<Rightarrow> string"
  unbase64 :: "string \<Rightarrow> string"
  json_stringify :: "json \<Rightarrow> string"
  json_parse :: "string \<Rightarrow> json option"
  to_iso :: "time \<Rightarrow> string"
  parse_date :: "string \<Rightarrow> time"

record moment =
  clock :: time
  access_jti :: string
  refresh_jti :: string
  random_iv :: string
  store_ok :: bool \<comment> \<open>whether the update that remembers a new pair succeeds; its failure is caught\<close>

section \<open>Durations and settings\<close>

definition DEFAULT_ACCESS_EXPIRATION :: string where "DEFAULT_ACCESS_EXPIRATION = ''15m''"
definition DEFAULT_REFRESH_EXPIRATION :: string where "DEFAULT_REFRESH_EXPIRATION = ''30d''"
definition DEFAULT_REFRESH_REUSE_GRACE_SECONDS :: int where "DEFAULT_REFRESH_REUSE_GRACE_SECONDS = 300"
definition REPLAY_WAIT_ATTEMPTS :: nat where "REPLAY_WAIT_ATTEMPTS = 6"
definition REPLACEMENT_SETTLE_MS :: int where "REPLACEMENT_SETTLE_MS = 5000"

text \<open>\<open>/^([1-9]\\d*)([smhd])$/\<close>\<close>

definition durationToSeconds :: "string \<Rightarrow> exn + int" where
  "durationToSeconds duration =
     (let digits = butlast duration; unit = last duration in
      if duration \<noteq> [] \<and> digits_ok digits \<and> hd digits \<noteq> CHR ''0'' \<and> unit \<in> set ''smhd''
      then Inr (let value = int (digits_val 0 digits) in
             if unit = CHR ''s'' then value
             else if unit = CHR ''m'' then value * 60
             else if unit = CHR ''h'' then value * 60 * 60
             else value * 24 * 60 * 60)
      else Inl (Error (''Invalid duration format: '' @ duration)))"

definition env_or :: "crypto \<Rightarrow> string \<Rightarrow> string \<Rightarrow> string" where
  "env_or cr k d = (case env_var cr k of None \<Rightarrow> d | Some s \<Rightarrow> if s = [] then d else s)"

definition reuseGraceSeconds :: "crypto \<Rightarrow> int" where
  "reuseGraceSeconds cr =
     (case env_var cr ''REFRESH_TOKEN_REUSE_GRACE_SECONDS'' of
        None \<Rightarrow> DEFAULT_REFRESH_REUSE_GRACE_SECONDS
      | Some raw \<Rightarrow>
          if raw = [] then DEFAULT_REFRESH_REUSE_GRACE_SECONDS
          else case js_number raw of
            None \<Rightarrow> DEFAULT_REFRESH_REUSE_GRACE_SECONDS
          | Some x \<Rightarrow>
              if is_integer x \<and> x \<ge> 0 then \<lfloor>x\<rfloor> else DEFAULT_REFRESH_REUSE_GRACE_SECONDS)"

section \<open>Sessions\<close>

definition hashToken :: "crypto \<Rightarrow> string \<Rightarrow> string" where
  "hashToken cr token = sha256_hex cr token"

definition find_session :: "string \<Rightarrow> auth_db \<Rightarrow> session_row option" where
  "find_session h db = List.find (\<lambda>s. se_token s = h) (sessions db)"

definition find_account :: "id \<Rightarrow> auth_db \<Rightarrow> auth_user option" where
  "find_account u db = find_row tu_id u (accounts db)"

definition update_sessions :: "(session_row \<Rightarrow> bool) \<Rightarrow> (session_row \<Rightarrow> session_row) \<Rightarrow> auth_db \<Rightarrow> auth_db" where
  "update_sessions p f db = db\<lparr>sessions := update_where p f (sessions db)\<rparr>"

text \<open>An \<open>undefined\<close> value leaves a column as it is.\<close>

definition keep_undefined :: "'a option \<Rightarrow> 'a option \<Rightarrow> 'a option" where
  "keep_undefined old new = (case new of None \<Rightarrow> old | Some x \<Rightarrow> Some x)"

definition storeTokenInSession ::
  "crypto \<Rightarrow> string \<Rightarrow> id \<Rightarrow> token_type \<Rightarrow> time \<Rightarrow> string option \<Rightarrow> string option \<Rightarrow> auth_db \<Rightarrow> auth_db" where
  "storeTokenInSession cr token userId tokenType expiresAt ipAddress userAgent db =
     (let storedToken = (if tokenType = SessionToken then token else hashToken cr token) in
      case find_session storedToken db of
        None \<Rightarrow> db\<lparr>sessions := sessions db @
          [\<lparr>se_token = storedToken, se_tokenType = tokenType, se_userId = userId, se_expiresAt = expiresAt,
            se_ipAddress = ipAddress, se_userAgent = userAgent, se_revoked = False, se_revokedAt = None,
            se_replacementCiphertext = None\<rparr>]\<rparr>
      | Some _ \<Rightarrow> update_sessions (\<lambda>s. se_token s = storedToken)
          (\<lambda>s. s\<lparr>se_expiresAt := expiresAt, se_ipAddress := keep_undefined (se_ipAddress s) ipAddress,
                 se_userAgent := keep_undefined (se_userAgent s) userAgent, se_revoked := False\<rparr>) db)"

definition access_payload :: "moment \<Rightarrow> auth_user \<Rightarrow> jwt_payload" where
  "access_payload m user =
     \<lparr>jp_sub = tu_id user, jp_email = tu_email user,
      jp_roles = map (\<lambda>r. (ro_id r, ro_slug r, ro_level r)) (tu_roles user),
      jp_gates = map (\<lambda>g. (ga_id g, ga_slug g)) (tu_gates user), jp_type = AccessToken, jp_jti = access_jti m\<rparr>"

definition refresh_payload :: "moment \<Rightarrow> auth_user \<Rightarrow> jwt_payload" where
  "refresh_payload m user =
     \<lparr>jp_sub = tu_id user, jp_email = tu_email user, jp_roles = [], jp_gates = [],
      jp_type = RefreshToken, jp_jti = refresh_jti m\<rparr>"

definition generateAccessToken ::
  "crypto \<Rightarrow> moment \<Rightarrow> auth_user \<Rightarrow> string option \<Rightarrow> string option \<Rightarrow> auth_db \<Rightarrow> (exn + string \<times> time) \<times> auth_db" where
  "generateAccessToken cr m user ipAddress userAgent db =
     (case durationToSeconds (env_or cr ''JWT_ACCESS_EXPIRATION'' DEFAULT_ACCESS_EXPIRATION) of
        Inl err \<Rightarrow> (Inl err, db)
      | Inr expiresInSeconds \<Rightarrow>
          let expiresAt = clock m + expiresInSeconds * 1000;
              token = jwt_sign cr (clock m) (access_payload m user) expiresInSeconds
          in (Inr (token, expiresAt),
              storeTokenInSession cr token (tu_id user) AccessToken expiresAt ipAddress userAgent db))"

definition generateRefreshToken ::
  "crypto \<Rightarrow> moment \<Rightarrow> auth_user \<Rightarrow> string option \<Rightarrow> string option \<Rightarrow> auth_db \<Rightarrow> (exn + string \<times> time) \<times> auth_db" where
  "generateRefreshToken cr m user ipAddress userAgent db =
     (case durationToSeconds (env_or cr ''JWT_REFRESH_EXPIRATION'' DEFAULT_REFRESH_EXPIRATION) of
        Inl err \<Rightarrow> (Inl err, db)
      | Inr expiresInSeconds \<Rightarrow>
          let expiresAt = clock m + expiresInSeconds * 1000;
              token = jwt_sign cr (clock m) (refresh_payload m user) expiresInSeconds
          in (Inr (token, expiresAt),
              storeTokenInSession cr token (tu_id user) RefreshToken expiresAt ipAddress userAgent db))"

section \<open>Validation\<close>

definition token_user_of :: "auth_user \<Rightarrow> token_user" where
  "token_user_of user =
     \<lparr>ku_id = tu_id user, ku_email = tu_email user, ku_name = tu_name user,
      ku_roles = map (\<lambda>r. (ro_id r, ro_slug r, ro_name r, ro_level r)) (filter ro_active (tu_roles user)),
      ku_gates = map (\<lambda>g. (ga_id g, ga_slug g, ga_name g)) (filter ga_active (tu_gates user))\<rparr>"

definition unban :: "auth_user \<Rightarrow> auth_user" where
  "unban u = u\<lparr>tu_banned := False, tu_banReason := None, tu_banExpires := None\<rparr>"

definition validateAccessToken :: "crypto \<Rightarrow> moment \<Rightarrow> string \<Rightarrow> auth_db \<Rightarrow> (exn + token_user) \<times> auth_db" where
  "validateAccessToken cr m token db =
     (case jwt_verify cr (clock m) token of
        None \<Rightarrow> (Inl (UnauthorizedException ''Invalid or expired token''), db)
      | Some payload \<Rightarrow>
          if jp_type payload \<noteq> AccessToken then (Inl (UnauthorizedException ''Invalid token type''), db)
          else case find_session (hashToken cr token) db of
            None \<Rightarrow> (Inl (UnauthorizedException ''Token has been revoked''), db)
          | Some session \<Rightarrow>
              if se_revoked session then (Inl (UnauthorizedException ''Token has been revoked''), db)
              else case find_account (se_userId session) db of
                None \<Rightarrow> (Inl (UnauthorizedException ''Invalid or expired token''), db)
              | Some user \<Rightarrow>
                  if tu_banned user then
                    if (case tu_banExpires user of None \<Rightarrow> True | Some t \<Rightarrow> t > clock m)
                    then (Inl (UnauthorizedException ''User account is banned''), db)
                    else (Inr (token_user_of user),
                          db\<lparr>accounts := update_where (\<lambda>u. tu_id u = se_userId session) unban (accounts db)\<rparr>)
                  else (Inr (token_user_of user), db))"

definition validateRefreshToken :: "crypto \<Rightarrow> moment \<Rightarrow> string \<Rightarrow> auth_db \<Rightarrow> exn + id" where
  "validateRefreshToken cr m token db =
     (case jwt_verify cr (clock m) token of
        None \<Rightarrow> Inl (UnauthorizedException ''Invalid or expired refresh token'')
      | Some payload \<Rightarrow>
          if jp_type payload \<noteq> RefreshToken then Inl (UnauthorizedException ''Invalid token type'')
          else case find_session (hashToken cr token) db of
            None \<Rightarrow> Inl (UnauthorizedException ''Refresh token has been revoked'')
          | Some session \<Rightarrow>
              if se_revoked session then Inl (UnauthorizedException ''Refresh token has been revoked'')
              else Inr (jp_sub payload))"

section \<open>Revocation\<close>

definition revoke_row :: "moment \<Rightarrow> session_row \<Rightarrow> session_row" where
  "revoke_row m s = s\<lparr>se_revoked := True, se_revokedAt := Some (clock m)\<rparr>"

definition revokeToken :: "crypto \<Rightarrow> moment \<Rightarrow> string \<Rightarrow> auth_db \<Rightarrow> bool \<times> auth_db" where
  "revokeToken cr m token db =
     (let p = (\<lambda>s. se_token s = hashToken cr token \<and> \<not> se_revoked s)
      in (count_where p (sessions db) > 0, update_sessions p (revoke_row m) db))"

definition revokeAllUserTokens :: "crypto \<Rightarrow> moment \<Rightarrow> id \<Rightarrow> string option \<Rightarrow> auth_db \<Rightarrow> nat \<times> auth_db" where
  "revokeAllUserTokens cr m userId exceptToken db =
     (let db1 = update_sessions (\<lambda>s. se_userId s = userId \<and> se_replacementCiphertext s \<noteq> None)
                  (\<lambda>s. s\<lparr>se_replacementCiphertext := None\<rparr>) db;
          p = (\<lambda>s. se_userId s = userId \<and> \<not> se_revoked s \<and>
                   (truthy_str exceptToken \<longrightarrow> se_token s \<noteq> hashToken cr (the exceptToken)))
      in (count_where p (sessions db1), update_sessions p (revoke_row m) db1))"

text \<open>\<open>TokenService.cleanupExpiredTokens\<close> and the nightly jobs of \<open>TokenCleanupService\<close>.\<close>

definition cleanupExpiredTokens :: "moment \<Rightarrow> auth_db \<Rightarrow> nat \<times> auth_db" where
  "cleanupExpiredTokens m db =
     (let p = (\<lambda>s. se_expiresAt s < clock m)
      in (count_where p (sessions db), db\<lparr>sessions := delete_where p (sessions db)\<rparr>))"

definition before :: "time \<Rightarrow> time option \<Rightarrow> bool" where
  "before t x = (case x of None \<Rightarrow> False | Some y \<Rightarrow> y < t)"

definition nightlyTokenCleanup :: "moment \<Rightarrow> auth_db \<Rightarrow> (nat \<times> nat) \<times> auth_db" where
  "nightlyTokenCleanup m db =
     (let graceCutoff = clock m - 60 * 60 * 1000;
          db1 = update_sessions (\<lambda>s. se_replacementCiphertext s \<noteq> None \<and> before graceCutoff (se_revokedAt s))
                  (\<lambda>s. s\<lparr>se_replacementCiphertext := None\<rparr>) db;
          old = (\<lambda>s. se_expiresAt s < clock m);
          db2 = db1\<lparr>sessions := delete_where old (sessions db1)\<rparr>;
          thirtyDaysAgo = clock m - 30 * 24 * 60 * 60 * 1000;
          gone = (\<lambda>s. se_revoked s \<and> before thirtyDaysAgo (se_revokedAt s))
      in ((count_where old (sessions db1), count_where gone (sessions db2)),
          db2\<lparr>sessions := delete_where gone (sessions db2)\<rparr>))"

definition cleanupExpiredBans :: "moment \<Rightarrow> auth_db \<Rightarrow> nat \<times> auth_db" where
  "cleanupExpiredBans m db =
     (let p = (\<lambda>u. tu_banned u \<and> before (clock m) (tu_banExpires u))
      in (count_where p (accounts db), db\<lparr>accounts := update_where p unban (accounts db)\<rparr>))"

section \<open>The stored replacement pair\<close>

definition replacementKey :: "crypto \<Rightarrow> string" where
  "replacementKey cr = sha256_raw cr (env_or cr ''JWT_SECRET'' ''your-secret-key-change-in-production'')"

definition pair_json :: "crypto \<Rightarrow> rotated_tokens \<Rightarrow> json" where
  "pair_json cr pair =
     JObj [(''userId'', JNum (of_int (rt_userId pair))), (''accessToken'', JStr (rt_accessToken pair)),
       (''accessExpiresAt'', JStr (to_iso cr (rt_accessExpiresAt pair))),
       (''refreshToken'', JStr (rt_refreshToken pair)),
       (''refreshExpiresAt'', JStr (to_iso cr (rt_refreshExpiresAt pair)))]"

text \<open>
  The documented behaviour the replay of a stored pair rests on: decoding inverts encoding (for JSON:
  on the flat objects of one number and four strings that are stored), opening a sealed text with
  its own key, vector and tag gives the text, Base64 text is free of dots and empty only for an
  empty input, and the tag, and the ciphertext of a non-empty text, are not empty.
\<close>

definition crypto_ok :: "crypto \<Rightarrow> bool" where
  "crypto_ok cr \<longleftrightarrow>
     (\<forall>s. unbase64 cr (base64 cr s) = s \<and> CHR ''.'' \<notin> set (base64 cr s) \<and> (base64 cr s = [] \<longrightarrow> s = [])) \<and>
     (\<forall>k iv t. gcm_open cr k iv (fst (gcm_seal cr k iv t)) (snd (gcm_seal cr k iv t)) = Some t \<and>
        fst (gcm_seal cr k iv t) \<noteq> [] \<and> (snd (gcm_seal cr k iv t) = [] \<longrightarrow> t = [])) \<and>
     (\<forall>p. json_parse cr (json_stringify cr (pair_json cr p)) = Some (pair_json cr p) \<and>
        json_stringify cr (pair_json cr p) \<noteq> []) \<and>
     (\<forall>t. parse_date cr (to_iso cr t) = t)"

definition encryptReplacement :: "crypto \<Rightarrow> moment \<Rightarrow> rotated_tokens \<Rightarrow> string" where
  "encryptReplacement cr m pair =
     (case gcm_seal cr (replacementKey cr) (random_iv m) (json_stringify cr (pair_json cr pair)) of
        (tag, ciphertext) \<Rightarrow> join_on CHR ''.'' (map (base64 cr) [random_iv m, tag, ciphertext]))"

text \<open>A number that is not integral equals no user id, so such a pair is dropped here.\<close>

definition parsed_pair :: "crypto \<Rightarrow> json \<Rightarrow> rotated_tokens option" where
  "parsed_pair cr parsed =
     (case (json_prop ''userId'' parsed, json_prop ''accessToken'' parsed, json_prop ''refreshToken'' parsed,
            json_prop ''accessExpiresAt'' parsed, json_prop ''refreshExpiresAt'' parsed) of
        (JNum u, JStr a, JStr r, JStr ae, JStr re) \<Rightarrow>
          if \<not> is_integer u then None
          else Some \<lparr>rt_userId = \<lfloor>u\<rfloor>, rt_accessToken = a, rt_accessExpiresAt = parse_date cr ae,
                rt_refreshToken = r, rt_refreshExpiresAt = parse_date cr re\<rparr>
      | _ \<Rightarrow> None)"

definition decryptReplacement :: "crypto \<Rightarrow> string \<Rightarrow> rotated_tokens option" where
  "decryptReplacement cr blob =
     (case split_on CHR ''.'' blob of
        ivB64 # tagB64 # ctB64 # _ \<Rightarrow>
          if ivB64 = [] \<or> tagB64 = [] \<or> ctB64 = [] then None
          else (case gcm_open cr (replacementKey cr) (unbase64 cr ivB64) (unbase64 cr tagB64) (unbase64 cr ctB64) of
                  None \<Rightarrow> None
                | Some plaintext \<Rightarrow>
                    (case json_parse cr plaintext of None \<Rightarrow> None | Some parsed \<Rightarrow> parsed_pair cr parsed))
      | _ \<Rightarrow> None)"

text \<open>The pair if it may still be handed out: its refresh token is stored, live and unexpired.\<close>

definition replayReplacement ::
  "crypto \<Rightarrow> moment \<Rightarrow> string option \<Rightarrow> id \<Rightarrow> auth_db \<Rightarrow> rotated_tokens option" where
  "replayReplacement cr m ciphertext userId db =
     (if \<not> truthy_str ciphertext then None
      else case decryptReplacement cr (the ciphertext) of
        None \<Rightarrow> None
      | Some pair \<Rightarrow>
          if rt_userId pair \<noteq> userId then None
          else case find_session (hashToken cr (rt_refreshToken pair)) db of
            None \<Rightarrow> None
          | Some child \<Rightarrow>
              if se_tokenType child \<noteq> RefreshToken \<or> se_revoked child \<or> se_expiresAt child \<le> clock m then None
              else Some pair)"

section \<open>Rotation, step by step\<close>

datatype rot_phase =
    RotRevokeAll id \<comment> \<open>reuse was detected; every session of the user is to be revoked\<close>
  | RotClaim id \<comment> \<open>the row was read as live; it is to be claimed\<close>
  | RotMint id \<comment> \<open>the claim succeeded; the new pair is to be issued\<close>
  | RotStore rotated_tokens \<comment> \<open>the pair was issued; it is to be remembered on the claimed row\<close>
  | RotWait id "string option" bool nat \<comment> \<open>the pair of another request is awaited\<close>
  | RotDone "exn + rotated_tokens"

definition already_used :: exn where
  "already_used = UnauthorizedException ''Refresh token already used''"

text \<open>Everything up to and including the first read of the session row.\<close>

definition rot_begin :: "crypto \<Rightarrow> moment \<Rightarrow> string \<Rightarrow> auth_db \<Rightarrow> rot_phase" where
  "rot_begin cr m rawToken db =
     (case jwt_verify cr (clock m) rawToken of
        None \<Rightarrow> RotDone (Inl (UnauthorizedException ''Invalid or expired refresh token''))
      | Some payload \<Rightarrow>
          if jp_type payload \<noteq> RefreshToken then RotDone (Inl (UnauthorizedException ''Invalid token type''))
          else case find_session (hashToken cr rawToken) db of
            None \<Rightarrow> RotDone (Inl (UnauthorizedException ''Invalid or expired refresh token''))
          | Some session \<Rightarrow>
              if se_tokenType session \<noteq> RefreshToken
              then RotDone (Inl (UnauthorizedException ''Invalid or expired refresh token''))
              else if se_revoked session then
                let graceMs = reuseGraceSeconds cr * 1000;
                    revokedAtMs = (case se_revokedAt session of None \<Rightarrow> 0 | Some t \<Rightarrow> t)
                in if clock m - revokedAtMs \<le> graceMs
                   then RotWait (se_userId session) (se_replacementCiphertext session)
                          (clock m - revokedAtMs < REPLACEMENT_SETTLE_MS) 0
                   else RotRevokeAll (se_userId session)
              else RotClaim (se_userId session))"

text \<open>The pair for a user, both tokens stored.\<close>

definition mint_pair ::
  "crypto \<Rightarrow> moment \<Rightarrow> auth_user \<Rightarrow> string option \<Rightarrow> string option \<Rightarrow> auth_db \<Rightarrow> (exn + rotated_tokens) \<times> auth_db" where
  "mint_pair cr m user ip ua db =
     (case generateAccessToken cr m user ip ua db of
        (Inl err, db1) \<Rightarrow> (Inl err, db1)
      | (Inr (access, accessExpiresAt), db1) \<Rightarrow>
          (case generateRefreshToken cr m user ip ua db1 of
             (Inl err, db2) \<Rightarrow> (Inl err, db2)
           | (Inr (refresh, refreshExpiresAt), db2) \<Rightarrow>
               (Inr \<lparr>rt_userId = tu_id user, rt_accessToken = access, rt_accessExpiresAt = accessExpiresAt,
                     rt_refreshToken = refresh, rt_refreshExpiresAt = refreshExpiresAt\<rparr>, db2)))"

definition rot_next ::
  "crypto \<Rightarrow> moment \<Rightarrow> string option \<Rightarrow> string option \<Rightarrow> string \<Rightarrow> rot_phase \<Rightarrow> auth_db \<Rightarrow> rot_phase \<times> auth_db" where
  "rot_next cr m ip ua rawToken ph db =
     (let tokenHash = hashToken cr rawToken in
      case ph of
        RotRevokeAll u \<Rightarrow> (RotDone (Inl (RefreshTokenReuseError u)), snd (revokeAllUserTokens cr m u None db))
      | RotClaim u \<Rightarrow>
          (let p = (\<lambda>s. se_token s = tokenHash \<and> \<not> se_revoked s) in
           if count_where p (sessions db) = 0 then (RotWait u None True 0, db)
           else (RotMint u, update_sessions p (revoke_row m) db))
      | RotMint u \<Rightarrow>
          (case find_account u db of
             None \<Rightarrow> (RotDone (Inl (UnauthorizedException ''User not found'')), db)
           | Some user \<Rightarrow>
               (case mint_pair cr m user ip ua db of
                  (Inl err, db') \<Rightarrow> (RotDone (Inl err), db')
                | (Inr pair, db') \<Rightarrow> (RotStore pair, db')))
      | RotStore pair \<Rightarrow>
          (RotDone (Inr pair),
           if store_ok m
           then update_sessions (\<lambda>s. se_token s = tokenHash)
                  (\<lambda>s. s\<lparr>se_replacementCiphertext := Some (encryptReplacement cr m pair)\<rparr>) db
           else db)
      | RotWait u ciphertext wait attempt \<Rightarrow>
          if truthy_str ciphertext
          then (RotDone (case replayReplacement cr m ciphertext u db of None \<Rightarrow> Inl already_used | Some p \<Rightarrow> Inr p), db)
          else if \<not> wait \<or> attempt \<ge> REPLAY_WAIT_ATTEMPTS then (RotDone (Inl already_used), db)
          else (RotWait u (case find_session tokenHash db of None \<Rightarrow> None | Some s \<Rightarrow> se_replacementCiphertext s)
                  wait (Suc attempt), db)
      | RotDone r \<Rightarrow> (RotDone r, db))"

text \<open>
  A whole request: \<open>other n\<close> is what other requests do to the database before its \<open>n\<close>-th step, and
  \<open>ms n\<close> what that step draws from its surroundings. Ten steps are enough for every request.
\<close>

primrec rot_steps ::
  "crypto \<Rightarrow> (nat \<Rightarrow> moment) \<Rightarrow> (nat \<Rightarrow> auth_db \<Rightarrow> auth_db) \<Rightarrow> string option \<Rightarrow> string option \<Rightarrow> string \<Rightarrow> nat \<Rightarrow>
   auth_db \<Rightarrow> rot_phase \<times> auth_db" where
  "rot_steps cr ms other ip ua raw 0 db = (let db = other 0 db in (rot_begin cr (ms 0) raw db, db))"
| "rot_steps cr ms other ip ua raw (Suc n) db =
     (case rot_steps cr ms other ip ua raw n db of
        (ph, db') \<Rightarrow> rot_next cr (ms (Suc n)) ip ua raw ph (other (Suc n) db'))"

definition rotateRefreshToken ::
  "crypto \<Rightarrow> (nat \<Rightarrow> moment) \<Rightarrow> string option \<Rightarrow> string option \<Rightarrow> string \<Rightarrow> auth_db \<Rightarrow> (exn + rotated_tokens) option \<times> auth_db" where
  "rotateRefreshToken cr ms ip ua raw db =
     (case rot_steps cr ms (\<lambda>_ d. d) ip ua raw 10 db of
        (RotDone r, db') \<Rightarrow> (Some r, db') | (_, db') \<Rightarrow> (None, db'))"

section \<open>Signing in\<close>

text \<open>\<open>LoginIssuerService.issueTokens\<close>: the pair and the audit entry.\<close>

definition login_audit :: "auth_user \<Rightarrow> string \<Rightarrow> string option \<Rightarrow> string option \<Rightarrow> (string \<times> json) list \<Rightarrow> audit_payload" where
  "login_audit user method ip ua extra =
     \<lparr>au_eventType = ''LOGIN'', au_entityType = ''SESSION'', au_entityId = None, au_userId = Some (tu_id user),
      au_action = ''user_login'',
      au_description = ''User logged in'' @ (if method = ''password'' then [] else '' via '' @ method) @ '': '' @ tu_email user,
      au_oldValues = JUndefined, au_newValues = JUndefined,
      au_metadata = JObj ([(''email'', JStr (tu_email user)), (''method'', JStr method),
        (''ipAddress'', case ip of None \<Rightarrow> JUndefined | Some x \<Rightarrow> JStr x),
        (''userAgent'', case ua of None \<Rightarrow> JUndefined | Some x \<Rightarrow> JStr x)] @ extra),
      au_errorMessage = None, au_success = True,
      au_actorId = None, au_actorType = None\<rparr>"

definition issueTokens ::
  "crypto \<Rightarrow> moment \<Rightarrow> auth_user \<Rightarrow> string \<Rightarrow> string option \<Rightarrow> string option \<Rightarrow> (string \<times> json) list \<Rightarrow> auth_db \<Rightarrow>
   (exn + rotated_tokens \<times> audit_payload) \<times> auth_db" where
  "issueTokens cr m user method ip ua extra db =
     (case mint_pair cr m user ip ua db of
        (Inl err, db') \<Rightarrow> (Inl err, db')
      | (Inr pair, db') \<Rightarrow> (Inr (pair, login_audit user method ip ua extra), db'))"

end
