(* ===== verification/Guards.thy ===== *)
theory Guards
  imports Token
begin

text \<open>
  \<open>src/auth/guards/\<close> and the sign-out and refresh endpoints of \<open>src/auth/auth/auth.controller.ts\<close>: the
  bearer-token, client-key, role and level guards a request passes before its handler runs, the
  bucket a request is throttled by, and what signing out and refreshing answer.
\<close>

section \<open>Requests and routes\<close>

datatype header_value = HStr string | HArr "string list"

record http_request =
  rq_authorization :: "string option"
  rq_client_key :: "header_value option" \<comment> \<open>\<open>x-client-key\<close>\<close>
  rq_forwarded_for :: "header_value option" \<comment> \<open>\<open>x-forwarded-for\<close>\<close>
  rq_user_agent :: "string option"
  rq_ips :: "string list"
  rq_ip :: "string option"
  rq_remoteAddress :: "string option"
  rq_user :: "token_user option"
  rq_session :: "token_user option"

text \<open>
  What the decorators of a handler and its controller say; \<open>rr_guards\<close> are the guards named by
  \<open>@UseGuards\<close>, of the controller first. Metadata without the guard that reads it has no effect.
\<close>

datatype guard = BearerTokenGuard | ClientKeyGuard | RolesGuard | MinUserLevelGuard

record route =
  rr_guards :: "guard list"
  rr_anonymous :: bool
  rr_clientKey :: bool
  rr_roles :: "string list"
  rr_minLevel :: "int option"

definition exn_message :: "exn \<Rightarrow> string" where
  "exn_message x = (case x of
     NotFoundException s \<Rightarrow> s | ForbiddenException s \<Rightarrow> s | UnprocessableEntityException s \<Rightarrow> s
   | BadRequestException s \<Rightarrow> s | UnauthorizedException s \<Rightarrow> s | ConflictException s \<Rightarrow> s
   | InternalServerErrorException s \<Rightarrow> s | RateLimitExceeded s _ \<Rightarrow> s | Error s \<Rightarrow> s | TypeError s \<Rightarrow> s
   | RefreshTokenReuseError _ \<Rightarrow> ''Refresh token reuse detected; all sessions have been revoked'')"

definition two_parts :: "string \<Rightarrow> string \<times> string option" where
  "two_parts s = (case split_on CHR '' '' s of
     t # r # _ \<Rightarrow> (t, if r = [] then None else Some r) | t # _ \<Rightarrow> (t, None) | [] \<Rightarrow> ([], None))"

section \<open>The bearer-token guard\<close>

definition extractTokenFromHeader :: "http_request \<Rightarrow> string option" where
  "extractTokenFromHeader rq =
     (if \<not> truthy_str (rq_authorization rq) then None
      else case two_parts (the (rq_authorization rq)) of (typ, token) \<Rightarrow> if typ \<noteq> ''Bearer'' then None else token)"

definition bearerCanActivate ::
  "crypto \<Rightarrow> moment \<Rightarrow> route \<Rightarrow> http_request \<Rightarrow> auth_db \<Rightarrow> (exn + http_request) \<times> auth_db" where
  "bearerCanActivate cr m rt rq db =
     (if rr_anonymous rt then
        (case extractTokenFromHeader rq of
           None \<Rightarrow> (Inr rq, db)
         | Some token \<Rightarrow>
             (case validateAccessToken cr m token db of
                (Inl _, db') \<Rightarrow> (Inr rq, db')
              | (Inr user, db') \<Rightarrow> (Inr (rq\<lparr>rq_user := Some user\<rparr>), db')))
      else
        (case extractTokenFromHeader rq of
           None \<Rightarrow> (Inl (UnauthorizedException ''No authorization token provided''), db)
         | Some token \<Rightarrow>
             (case validateAccessToken cr m token db of
                (Inl x, db') \<Rightarrow> (Inl (UnauthorizedException (exn_message x)), db')
              | (Inr user, db') \<Rightarrow> (Inr (rq\<lparr>rq_user := Some user, rq_session := Some user\<rparr>), db'))))"

section \<open>The client-key guard\<close>

definition getConfiguredClientKeys :: "crypto \<Rightarrow> string list" where
  "getConfiguredClientKeys cr =
     filter (\<lambda>s. s \<noteq> []) (map trim (split_on CHR '','' (case env_var cr ''CLIENT_API_KEYS'' of None \<Rightarrow> [] | Some s \<Rightarrow> s)))"

definition isValidClientKey :: "crypto \<Rightarrow> string \<Rightarrow> bool" where
  "isValidClientKey cr presented \<longleftrightarrow> list_ex (\<lambda>key. key = presented) (getConfiguredClientKeys cr)"

definition extractHeader :: "http_request \<Rightarrow> string option" where
  "extractHeader rq =
     (case rq_client_key rq of
        None \<Rightarrow> None
      | Some (HArr vs) \<Rightarrow> (case vs of [] \<Rightarrow> None | v # _ \<Rightarrow> Some v)
      | Some (HStr s) \<Rightarrow> if s = [] then None else Some s)"

definition has_user :: "http_request \<Rightarrow> bool" where
  "has_user rq = (case rq_user rq of None \<Rightarrow> False | Some u \<Rightarrow> ku_id u \<noteq> 0)"

definition clientKeyCanActivate :: "crypto \<Rightarrow> route \<Rightarrow> http_request \<Rightarrow> exn + unit" where
  "clientKeyCanActivate cr rt rq =
     (if \<not> rr_clientKey rt then Inr ()
      else if has_user rq then Inr ()
      else
        let presented = extractHeader rq in
        if \<not> truthy_str presented then Inl (UnauthorizedException ''Missing client key'')
        else if getConfiguredClientKeys cr = [] then Inl (UnauthorizedException ''Client API keys not configured'')
        else if \<not> isValidClientKey cr (the presented) then Inl (UnauthorizedException ''Invalid client key'')
        else Inr ())"

section \<open>Roles and levels\<close>

fun join_comma :: "string list \<Rightarrow> string" where
  "join_comma [] = []"
| "join_comma [s] = s"
| "join_comma (s # ss) = s @ '', '' @ join_comma ss"

definition rolesCanActivate :: "route \<Rightarrow> http_request \<Rightarrow> exn + unit" where
  "rolesCanActivate rt rq =
     (if rr_anonymous rt then Inr ()
      else if rr_roles rt = [] then Inr ()
      else case rq_user rq of
        None \<Rightarrow> Inl (ForbiddenException ''User not authenticated'')
      | Some user \<Rightarrow>
          if list_ex (\<lambda>(_, slug, _, _). slug \<in> set (rr_roles rt)) (ku_roles user) then Inr ()
          else Inl (ForbiddenException (''Insufficient permissions. Required roles: '' @ join_comma (rr_roles rt))))"

definition userHasMinLevel :: "token_user \<Rightarrow> int \<Rightarrow> bool" where
  "userHasMinLevel user minLevel \<longleftrightarrow> list_ex (\<lambda>(_, _, _, level). level \<le> minLevel) (ku_roles user)"

definition minLevelCanActivate :: "route \<Rightarrow> http_request \<Rightarrow> exn + unit" where
  "minLevelCanActivate rt rq =
     (if rr_anonymous rt then Inr ()
      else case rr_minLevel rt of
        None \<Rightarrow> Inr ()
      | Some minLevel \<Rightarrow>
          (case rq_user rq of
             None \<Rightarrow> Inl (ForbiddenException ''User not authenticated'')
           | Some user \<Rightarrow>
               if userHasMinLevel user minLevel then Inr ()
               else Inl (ForbiddenException (''Insufficient permissions. Minimum role level required: '' @ show_int minLevel))))"

text \<open>The guards in the order they run: the global bearer guard first, then those of the route.\<close>

definition run_guard ::
  "crypto \<Rightarrow> moment \<Rightarrow> route \<Rightarrow> guard \<Rightarrow> http_request \<Rightarrow> auth_db \<Rightarrow> (exn + http_request) \<times> auth_db" where
  "run_guard cr m rt g rq db =
     (case g of
        BearerTokenGuard \<Rightarrow> bearerCanActivate cr m rt rq db
      | ClientKeyGuard \<Rightarrow> (case clientKeyCanActivate cr rt rq of Inl x \<Rightarrow> (Inl x, db) | Inr _ \<Rightarrow> (Inr rq, db))
      | RolesGuard \<Rightarrow> (case rolesCanActivate rt rq of Inl x \<Rightarrow> (Inl x, db) | Inr _ \<Rightarrow> (Inr rq, db))
      | MinUserLevelGuard \<Rightarrow> (case minLevelCanActivate rt rq of Inl x \<Rightarrow> (Inl x, db) | Inr _ \<Rightarrow> (Inr rq, db)))"

primrec run_guards ::
  "crypto \<Rightarrow> moment \<Rightarrow> route \<Rightarrow> guard list \<Rightarrow> http_request \<Rightarrow> auth_db \<Rightarrow> (exn + http_request) \<times> auth_db" where
  "run_guards cr m rt [] rq db = (Inr rq, db)"
| "run_guards cr m rt (g # gs) rq db =
     (case run_guard cr m rt g rq db of
        (Inl x, db') \<Rightarrow> (Inl x, db')
      | (Inr rq', db') \<Rightarrow> run_guards cr m rt gs rq' db')"

definition guarded ::
  "crypto \<Rightarrow> moment \<Rightarrow> route \<Rightarrow> http_request \<Rightarrow> auth_db \<Rightarrow> (exn + http_request) \<times> auth_db" where
  "guarded cr m rt rq db = run_guards cr m rt (BearerTokenGuard # rr_guards rt) rq db"

section \<open>Throttling\<close>

definition firstHeader :: "header_value option \<Rightarrow> string option" where
  "firstHeader v =
     (case v of
        None \<Rightarrow> None
      | Some (HArr vs) \<Rightarrow> (case vs of [] \<Rightarrow> None | s # _ \<Rightarrow> if s = [] then None else Some s)
      | Some (HStr s) \<Rightarrow> if s = [] then None else Some s)"

definition firstForwardedIp :: "header_value option \<Rightarrow> string option" where
  "firstForwardedIp v =
     (case firstHeader v of
        None \<Rightarrow> None
      | Some raw \<Rightarrow> let first = trim (hd (split_on CHR '','' raw))
                    in if first \<noteq> [] \<and> length first \<le> 64 then Some first else None)"

definition getTracker :: "crypto \<Rightarrow> http_request \<Rightarrow> string" where
  "getTracker cr rq =
     (if has_user rq then ''user:'' @ show_int (ku_id (the (rq_user rq)))
      else case firstHeader (rq_client_key rq) of
        Some clientKey \<Rightarrow>
          let bucket = ''client:'' @ take 16 (sha256_hex cr clientKey);
              forwarded = (if isValidClientKey cr clientKey then firstForwardedIp (rq_forwarded_for rq) else None)
          in (case forwarded of None \<Rightarrow> bucket | Some ip \<Rightarrow> bucket @ '':ip:'' @ ip)
      | None \<Rightarrow> (case rq_ips rq of ip # _ \<Rightarrow> ip | [] \<Rightarrow> (case rq_ip rq of None \<Rightarrow> [] | Some ip \<Rightarrow> ip)))"

section \<open>Endpoints\<close>

definition bearerFromRequest :: "http_request \<Rightarrow> string option" where
  "bearerFromRequest rq =
     (if \<not> truthy_str (rq_authorization rq) then None
      else case two_parts (the (rq_authorization rq)) of
        (scheme, token) \<Rightarrow> if map ascii_lower scheme = ''bearer'' then token else None)"

definition client_ip :: "http_request \<Rightarrow> string option" where
  "client_ip rq = (if truthy_str (rq_ip rq) then rq_ip rq else rq_remoteAddress rq)"

definition jopt :: "string option \<Rightarrow> json" where
  "jopt x = (case x of None \<Rightarrow> JUndefined | Some s \<Rightarrow> JStr s)"

definition session_audit ::
  "string \<Rightarrow> id option \<Rightarrow> string \<Rightarrow> string \<Rightarrow> json \<Rightarrow> string option \<Rightarrow> bool \<Rightarrow> audit_payload" where
  "session_audit eventType userId action description metadata errorMessage success =
     \<lparr>au_eventType = eventType, au_entityType = ''SESSION'', au_entityId = None, au_userId = userId, au_action = action,
      au_description = description, au_oldValues = JUndefined, au_newValues = JUndefined, au_metadata = metadata,
      au_errorMessage = errorMessage, au_success = success,
      au_actorId = None, au_actorType = None\<rparr>"

text \<open>\<open>sign_out\<close> is what the cookie library does to its own sessions; its failures are ignored.\<close>

definition logout ::
  "crypto \<Rightarrow> (auth_db \<Rightarrow> auth_db) \<Rightarrow> moment \<Rightarrow> http_request \<Rightarrow> string option \<Rightarrow> auth_db \<Rightarrow>
   (string \<times> (string \<times> audit_payload)) \<times> auth_db" where
  "logout cr sign_out m rq refresh db =
     (let accessToken = bearerFromRequest rq;
          (userId, db1) = (case accessToken of
             None \<Rightarrow> (None, db)
           | Some t \<Rightarrow> (case validateAccessToken cr m t db of
                          (Inl _, d) \<Rightarrow> (None, d) | (Inr user, d) \<Rightarrow> (Some (ku_id user), d)));
          db2 = (case accessToken of None \<Rightarrow> db1 | Some t \<Rightarrow> snd (revokeToken cr m t db1));
          db3 = (if truthy_str refresh then snd (revokeToken cr m (the refresh) db2) else db2);
          db4 = sign_out db3
      in ((''Logout successful'',
           (''audit.user.logout'', session_audit ''LOGOUT'' userId ''user_logout'' ''User logged out''
              (JObj [(''ipAddress'', jopt (client_ip rq)), (''userAgent'', jopt (rq_user_agent rq)),
                 (''revokedAccessToken'', JBool (accessToken \<noteq> None)), (''revokedRefreshToken'', JBool (truthy_str refresh))])
              None True)), db4))"

definition logoutAll ::
  "crypto \<Rightarrow> moment \<Rightarrow> token_user \<Rightarrow> http_request \<Rightarrow> auth_db \<Rightarrow> ((string \<times> nat) \<times> (string \<times> audit_payload)) \<times> auth_db" where
  "logoutAll cr m user rq db =
     (case revokeAllUserTokens cr m (ku_id user) None db of
        (revokedCount, db') \<Rightarrow>
          (((''All sessions revoked'', revokedCount),
            (''audit.user.logout'', session_audit ''LOGOUT'' (Some (ku_id user)) ''user_logout_all''
               ''User logged out from all devices''
               (JObj [(''scope'', JStr ''all''), (''revokedCount'', JNum (of_nat revokedCount)),
                  (''ipAddress'', jopt (client_ip rq)), (''userAgent'', jopt (rq_user_agent rq))]) None True)), db'))"

record refresh_response =
  rf_accessToken :: string
  rf_expiresAt :: string
  rf_refreshToken :: string
  rf_refreshExpiresAt :: string

definition refresh_response_of :: "crypto \<Rightarrow> rotated_tokens \<Rightarrow> refresh_response" where
  "refresh_response_of cr p = \<lparr>rf_accessToken = rt_accessToken p, rf_expiresAt = to_iso cr (rt_accessExpiresAt p),
     rf_refreshToken = rt_refreshToken p, rf_refreshExpiresAt = to_iso cr (rt_refreshExpiresAt p)\<rparr>"

definition reuse_audit :: "http_request \<Rightarrow> id \<Rightarrow> audit_payload" where
  "reuse_audit rq u =
     session_audit ''FAILURE'' (Some u) ''refresh_token_reuse_detected''
       ''Rotated refresh token was presented again; all user sessions revoked''
       (JObj [(''ipAddress'', jopt (client_ip rq)), (''userAgent'', jopt (rq_user_agent rq))])
       (Some (exn_message (RefreshTokenReuseError u))) False"

text \<open>The answer, the audit entries and the database.\<close>

definition refreshToken ::
  "crypto \<Rightarrow> (nat \<Rightarrow> moment) \<Rightarrow> http_request \<Rightarrow> string option \<Rightarrow> auth_db \<Rightarrow>
   (exn + refresh_response) option \<times> (string \<times> audit_payload) list \<times> auth_db" where
  "refreshToken cr ms rq body db =
     (if \<not> truthy_str body then (Some (Inl (BadRequestException ''Refresh token is required'')), [], db)
      else case rotateRefreshToken cr ms (client_ip rq) (rq_user_agent rq) (the body) db of
        (None, db') \<Rightarrow> (None, [], db')
      | (Some (Inr rotated), db') \<Rightarrow> (Some (Inr (refresh_response_of cr rotated)), [], db')
      | (Some (Inl (RefreshTokenReuseError u)), db') \<Rightarrow>
          (Some (Inl (RefreshTokenReuseError u)), [(''audit.user.login_failed'', reuse_audit rq u)], db')
      | (Some (Inl (UnauthorizedException s)), db') \<Rightarrow> (Some (Inl (UnauthorizedException s)), [], db')
      | (Some (Inl _), db') \<Rightarrow> (Some (Inl (UnauthorizedException ''Invalid or expired refresh token'')), [], db'))"

end
