(* ===== verification/TokenSafety.thy ===== *)
theory TokenSafety
  imports Token
begin

text \<open>
  Token lifetimes, the round trip of the stored pair and the termination of every refresh request,
  with a concrete instance of the cryptographic functions for evaluated examples.
\<close>

section \<open>Durations\<close>

lemma durationToSeconds_show:
  assumes "0 < n" and "u \<in> set ''smhd''"
  shows "durationToSeconds (show_nat n @ [u]) = Inr (int n *
    (if u = CHR ''s'' then 1 else if u = CHR ''m'' then 60 else if u = CHR ''h'' then 3600 else 86400))"
proof -
  have ok: "digits_ok (show_nat n)" using show_nat_digits by (simp add: digits_ok_def)
  have "hd (show_nat n) \<noteq> CHR ''0''" using assms(1) show_nat_hd by blast
  then show ?thesis
    using ok assms(2) by (auto simp: durationToSeconds_def Let_def digits_val_show_nat)
qed

lemma show_digits_val:
  assumes "digits_ok ds" and "hd ds \<noteq> CHR ''0''"
  shows "show_nat (digits_val 0 ds) = ds \<and> 0 < digits_val 0 ds"
  using assms
proof (induction ds rule: rev_induct)
  case (snoc c ds)
  have c: "is_digit c" "digit_val c < 10" "digit_char (digit_val c) = c"
    using snoc.prems(1) by (auto simp: digits_ok_def is_digit_def digit_val_def digit_char_def)
  have val: "digits_val 0 (ds @ [c]) = 10 * digits_val 0 ds + digit_val c" by (simp add: digits_val_def)
  show ?case
  proof (cases "ds = []")
    case True
    have "digit_char 0 = CHR ''0''" by code_simp
    then have "digit_val c \<noteq> 0" using True snoc.prems(2) c(3) by (cases "digit_val c") auto
    then show ?thesis using True c val by (simp add: digits_val_def show_nat.simps)
  next
    case False
    then have "digits_ok ds" "hd ds \<noteq> CHR ''0''" using snoc.prems by (auto simp: digits_ok_def)
    then have ih: "show_nat (digits_val 0 ds) = ds" "0 < digits_val 0 ds" using snoc.IH by blast+
    have "\<not> 10 * digits_val 0 ds + digit_val c < 10" using ih(2) by simp
    moreover have "(10 * digits_val 0 ds + digit_val c) div 10 = digits_val 0 ds"
      "(10 * digits_val 0 ds + digit_val c) mod 10 = digit_val c" using c(2) by simp_all
    ultimately show ?thesis using ih c(3) val by (simp add: show_nat.simps [of "10 * digits_val 0 ds + digit_val c"])
  qed
qed (simp add: digits_ok_def)

definition unit_seconds :: "char \<Rightarrow> int" where
  "unit_seconds u = (if u = CHR ''s'' then 1 else if u = CHR ''m'' then 60 else if u = CHR ''h'' then 3600 else 86400)"

text \<open>
  Token lifetimes: a configured duration is accepted exactly when it is the decimal notation of
  a positive number, without leading zeros, followed by one of the units s, m, h and d, and then
  its value is that number of units in seconds; everything else is refused.
\<close>

theorem duration_exact:
  "durationToSeconds d = Inr n \<longleftrightarrow>
     (\<exists>k u. 0 < k \<and> u \<in> set ''smhd'' \<and> d = show_nat k @ [u] \<and> n = int k * unit_seconds u)"
proof
  assume "durationToSeconds d = Inr n"
  then have d: "d \<noteq> []" "digits_ok (butlast d)" "hd (butlast d) \<noteq> CHR ''0''" "last d \<in> set ''smhd''"
    and n: "n = int (digits_val 0 (butlast d)) * unit_seconds (last d)"
    by (auto simp: durationToSeconds_def Let_def unit_seconds_def split: if_splits)
  have "show_nat (digits_val 0 (butlast d)) = butlast d" "0 < digits_val 0 (butlast d)"
    using show_digits_val [OF d(2,3)] by blast+
  then show "\<exists>k u. 0 < k \<and> u \<in> set ''smhd'' \<and> d = show_nat k @ [u] \<and> n = int k * unit_seconds u"
    using d n by (intro exI [of _ "digits_val 0 (butlast d)"] exI [of _ "last d"]) simp
next
  assume "\<exists>k u. 0 < k \<and> u \<in> set ''smhd'' \<and> d = show_nat k @ [u] \<and> n = int k * unit_seconds u"
  then show "durationToSeconds d = Inr n"
    by (auto simp: durationToSeconds_show unit_seconds_def)
qed

section \<open>The stored pair\<close>

lemma crypto_okD:
  assumes "crypto_ok cr"
  shows "unbase64 cr (base64 cr s) = s" and "CHR ''.'' \<notin> set (base64 cr s)" and "base64 cr s = [] \<Longrightarrow> s = []"
    and "gcm_open cr k iv (fst (gcm_seal cr k iv t)) (snd (gcm_seal cr k iv t)) = Some t"
    and "fst (gcm_seal cr k iv t) \<noteq> []" and "snd (gcm_seal cr k iv t) = [] \<Longrightarrow> t = []"
    and "json_parse cr (json_stringify cr (pair_json cr p)) = Some (pair_json cr p)"
    and "json_stringify cr (pair_json cr p) \<noteq> []"
    and "parse_date cr (to_iso cr i) = i"
  using assms unfolding crypto_ok_def by blast+

lemma decrypt_encrypt:
  assumes "crypto_ok cr" and "length (random_iv m) = 12"
  shows "decryptReplacement cr (encryptReplacement cr m p) = Some p"
proof -
  let ?k = "replacementKey cr" and ?t = "json_stringify cr (pair_json cr p)"
  obtain tag ct where seal: "gcm_seal cr ?k (random_iv m) ?t = (tag, ct)" by fastforce
  note ok = crypto_okD [OF assms(1)]
  have js: "json_parse cr ?t = Some (pair_json cr p)" "?t \<noteq> []"
    by (rule ok(7), rule ok(8))
  have opened: "gcm_open cr ?k (random_iv m) tag ct = Some ?t" "tag \<noteq> []" "ct \<noteq> []"
    using ok(4) [of ?k "random_iv m" ?t] ok(5) [of ?k "random_iv m" ?t] ok(6) [of ?k "random_iv m" ?t] seal js(2)
    by auto
  have blob: "encryptReplacement cr m p =
      base64 cr (random_iv m) @ CHR ''.'' # base64 cr tag @ CHR ''.'' # base64 cr ct"
    by (simp add: encryptReplacement_def seal)
  have split: "split_on CHR ''.'' (encryptReplacement cr m p) = [base64 cr (random_iv m), base64 cr tag, base64 cr ct]"
    unfolding blob by (simp add: split_on_append split_on_plain ok(2))
  have ne: "base64 cr (random_iv m) \<noteq> []" "base64 cr tag \<noteq> []" "base64 cr ct \<noteq> []"
    using ok(3) opened(2,3) assms(2) by fastforce+
  have "parsed_pair cr (pair_json cr p) = Some p"
    by (simp add: parsed_pair_def pair_json_def json_prop_def ok(9) is_integer_def)
  then show ?thesis using split ne opened(1) js(1) ok(1) by (simp add: decryptReplacement_def)
qed

text \<open>
  The replayed pair is the issued pair: decrypting what a rotation stores on the consumed row
  gives back exactly the pair it answered, for every key, vector and pair.
\<close>

theorem replacement_round_trip:
  assumes "crypto_ok cr" and "length (random_iv m) = 12"
  shows "decryptReplacement cr (encryptReplacement cr m p) = Some p"
  using assms by (rule decrypt_encrypt)

text \<open>A concrete instance for evaluated examples: escaped text for Base64, counted strings for JSON.\<close>

primrec demo_escape :: "string \<Rightarrow> string" where
  "demo_escape [] = []"
| "demo_escape (c # cs) = (if c = CHR ''.'' then ''-d'' else if c = CHR ''-'' then ''--'' else [c]) @ demo_escape cs"

fun demo_unescape :: "string \<Rightarrow> string" where
  "demo_unescape [] = []"
| "demo_unescape [c] = [c]"
| "demo_unescape (c # d # cs) =
     (if c = CHR ''-'' then (if d = CHR ''d'' then CHR ''.'' else d) # demo_unescape cs
      else c # demo_unescape (d # cs))"

lemma demo_unescape_Cons: "c \<noteq> CHR ''-'' \<Longrightarrow> demo_unescape (c # cs) = c # demo_unescape cs"
  by (cases cs) auto

lemma demo_escape_laws:
  "demo_unescape (demo_escape s) = s" "CHR ''.'' \<notin> set (demo_escape s)" "demo_escape s = [] \<Longrightarrow> s = []"
proof -
  show "demo_unescape (demo_escape s) = s"
    by (induction s) (auto simp: demo_unescape_Cons)
  show "CHR ''.'' \<notin> set (demo_escape s)" by (induction s) auto
  show "demo_escape s = [] \<Longrightarrow> s = []" by (cases s) (auto split: if_splits)
qed

primrec demo_counted :: "string list \<Rightarrow> string" where
  "demo_counted [] = []"
| "demo_counted (s # ss) = replicate (length s) CHR ''1'' @ CHR ''0'' # s @ demo_counted ss"

fun demo_uncount :: "nat \<Rightarrow> string \<Rightarrow> string list" where
  "demo_uncount 0 s = []"
| "demo_uncount (Suc n) s =
     (let k = length (takeWhile (\<lambda>c. c = CHR ''1'') s); rest = drop (Suc k) s
      in take k rest # demo_uncount n (drop k rest))"

lemma demo_uncount_counted: "demo_uncount (length xs) (demo_counted xs) = xs"
proof (induction xs)
  case (Cons a xs)
  have count: "length (takeWhile (\<lambda>c. c = CHR ''1'') (replicate n CHR ''1'' @ CHR ''0'' # t)) = n" for n t
    by (induction n) simp_all
  have enc: "demo_counted (a # xs) = replicate (length a) CHR ''1'' @ CHR ''0'' # (a @ demo_counted xs)"
    by simp
  have rest: "drop (Suc (length a)) (replicate (length a) CHR ''1'' @ CHR ''0'' # (a @ demo_counted xs)) = a @ demo_counted xs"
    by simp
  show ?case unfolding enc by (simp only: list.size demo_uncount.simps Let_def count rest Nat.add_0_right add_Suc_right)
      (simp add: Cons.IH)
qed simp

definition demo_text :: "json \<Rightarrow> string" where
  "demo_text j = (case j of JStr s \<Rightarrow> s | JNum x \<Rightarrow> show_int \<lfloor>x\<rfloor> | _ \<Rightarrow> ''?'')"

definition demo_stringify :: "json \<Rightarrow> string" where
  "demo_stringify j = demo_counted [demo_text (json_prop ''userId'' j), demo_text (json_prop ''accessToken'' j),
     demo_text (json_prop ''accessExpiresAt'' j), demo_text (json_prop ''refreshToken'' j),
     demo_text (json_prop ''refreshExpiresAt'' j)]"

definition demo_json_parse :: "string \<Rightarrow> json option" where
  "demo_json_parse s =
     (case demo_uncount 5 s of
        [u, a, ae, r, re] \<Rightarrow> Some (JObj [(''userId'', JNum (of_int (the (js_parse_int u)))), (''accessToken'', JStr a),
          (''accessExpiresAt'', JStr ae), (''refreshToken'', JStr r), (''refreshExpiresAt'', JStr re)])
      | _ \<Rightarrow> None)"

definition demo_sign :: "time \<Rightarrow> jwt_payload \<Rightarrow> int \<Rightarrow> string" where
  "demo_sign t p s = (if jp_type p = AccessToken then ''a:'' else ''r:'') @ show_int (jp_sub p) @ '':'' @ jp_jti p"

definition demo_verify :: "time \<Rightarrow> string \<Rightarrow> jwt_payload option" where
  "demo_verify t s =
     (case split_on CHR '':'' s of
        [k, u, j] \<Rightarrow> Some \<lparr>jp_sub = the (js_parse_int u), jp_email = [], jp_roles = [], jp_gates = [],
          jp_type = (if k = ''a'' then AccessToken else RefreshToken), jp_jti = j\<rparr>
      | _ \<Rightarrow> None)"

text \<open>A binary notation for instants.\<close>

function demo_iso :: "time \<Rightarrow> string" where
  "demo_iso n = (if n = 0 then [] else if n = - 1 then ''-''
     else (if even n then CHR ''0'' else CHR ''1'') # demo_iso (n div 2))"
  by pat_completeness auto

termination
  by (relation "measure (\<lambda>n. nat \<bar>n\<bar>)") auto

declare demo_iso.simps [simp del]

primrec demo_date :: "string \<Rightarrow> time" where
  "demo_date [] = 0"
| "demo_date (c # cs) = (if c = CHR ''-'' then - 1 else 2 * demo_date cs + (if c = CHR ''1'' then 1 else 0))"

lemma demo_date_iso: "demo_date (demo_iso n) = n"
proof (induction n rule: demo_iso.induct)
  case (1 n)
  then show ?case
    by (cases "n = 0 \<or> n = - 1") (auto simp: demo_iso.simps [of n] demo_iso.simps [of 0] elim!: evenE oddE)
qed

definition demo_crypto :: crypto where
  "demo_crypto = \<lparr>env_var = (\<lambda>_. None), sha256_hex = (\<lambda>s. CHR ''h'' # s), sha256_raw = (\<lambda>s. s),
     jwt_sign = demo_sign, jwt_verify = demo_verify, gcm_seal = (\<lambda>k iv t. (''T'', t)),
     gcm_open = (\<lambda>k iv tag ct. Some ct), base64 = demo_escape, unbase64 = demo_unescape,
     json_stringify = demo_stringify, json_parse = demo_json_parse, to_iso = demo_iso,
     parse_date = demo_date\<rparr>"

lemma demo_crypto_ok: "crypto_ok demo_crypto"
proof -
  have "demo_json_parse (demo_stringify (pair_json demo_crypto p)) = Some (pair_json demo_crypto p) \<and>
      demo_stringify (pair_json demo_crypto p) \<noteq> []" for p
  proof -
    let ?xs = "[show_int (rt_userId p), rt_accessToken p, demo_iso (rt_accessExpiresAt p), rt_refreshToken p,
      demo_iso (rt_refreshExpiresAt p)]"
    have str: "demo_stringify (pair_json demo_crypto p) = demo_counted ?xs"
      by (simp add: demo_stringify_def demo_text_def pair_json_def json_prop_def demo_crypto_def)
    have len: "length ?xs = 5" by simp
    have "demo_uncount 5 (demo_counted ?xs) = ?xs" using demo_uncount_counted [of ?xs] unfolding len .
    moreover have "demo_counted ?xs \<noteq> []" by simp
    ultimately show ?thesis unfolding str by (simp add: demo_json_parse_def pair_json_def demo_crypto_def)
  qed
  then show ?thesis
    using demo_escape_laws by (simp add: crypto_ok_def demo_crypto_def demo_date_iso)
qed

definition demo_moment :: "time \<Rightarrow> string \<Rightarrow> moment" where
  "demo_moment t j = \<lparr>clock = t, access_jti = j, refresh_jti = j, random_iv = ''abcdefghijkl'', store_ok = True\<rparr>"

definition demo_pair :: rotated_tokens where
  "demo_pair = \<lparr>rt_userId = 7, rt_accessToken = ''a:7:x'', rt_accessExpiresAt = 900, rt_refreshToken = ''r:7:x'',
     rt_refreshExpiresAt = 5000\<rparr>"

theorem replacement_round_trip_witness:
  "decryptReplacement demo_crypto (encryptReplacement demo_crypto (demo_moment 1 ''x'') demo_pair) = Some demo_pair"
  by (rule replacement_round_trip [OF demo_crypto_ok]) (simp add: demo_moment_def)

section \<open>Every request is answered\<close>

definition steps_left :: "rot_phase \<Rightarrow> nat" where
  "steps_left ph =
     (case ph of RotDone _ \<Rightarrow> 0 | RotRevokeAll _ \<Rightarrow> 1 | RotStore _ \<Rightarrow> 1 | RotMint _ \<Rightarrow> 2
      | RotWait _ _ _ n \<Rightarrow> Suc (REPLAY_WAIT_ATTEMPTS - n) | RotClaim _ \<Rightarrow> Suc (Suc REPLAY_WAIT_ATTEMPTS))"

lemma rot_begin_left: "steps_left (rot_begin cr m raw db) \<le> 8"
  by (auto simp: rot_begin_def steps_left_def Let_def REPLAY_WAIT_ATTEMPTS_def split: option.split)

lemma rot_next_left: "steps_left (fst (rot_next cr m ip ua raw ph db)) \<le> steps_left ph - 1"
  by (cases ph)
    (auto simp: rot_next_def steps_left_def Let_def REPLAY_WAIT_ATTEMPTS_def split: option.split sum.split prod.split)

lemma rot_steps_left: "steps_left (fst (rot_steps cr ms other ip ua raw n db)) \<le> 8 - n"
proof (induction n)
  case 0
  then show ?case by (simp add: Let_def rot_begin_left)
next
  case (Suc n)
  obtain ph d where s: "rot_steps cr ms other ip ua raw n db = (ph, d)" by fastforce
  then show ?case using Suc rot_next_left [of cr "ms (Suc n)" ip ua raw ph "other (Suc n) d"] by simp
qed

lemma steps_done:
  "\<exists>r. fst (rot_steps cr ms other ip ua raw (8 + n) db) = RotDone r"
proof -
  have "steps_left (fst (rot_steps cr ms other ip ua raw (8 + n) db)) = 0"
    using rot_steps_left [of cr ms other ip ua raw "8 + n" db] by simp
  then show ?thesis
    by (cases "fst (rot_steps cr ms other ip ua raw (8 + n) db)") (auto simp: steps_left_def)
qed

text \<open>
  The database statements of one phase: the two updates of \<open>revokeAllUserTokens\<close>; the claim; the user,
  and for each of the two tokens the insert and, on a duplicate, the update that takes its place; the
  update that remembers the pair; the look at the stored pair's own row, or the row read again.
\<close>

definition statements :: "rot_phase \<Rightarrow> nat" where
  "statements ph =
     (case ph of RotRevokeAll _ \<Rightarrow> 2 | RotClaim _ \<Rightarrow> 1 | RotMint _ \<Rightarrow> 5 | RotStore _ \<Rightarrow> 1
      | RotWait _ ciphertext wait attempt \<Rightarrow>
          if truthy_str ciphertext \<or> wait \<and> attempt < REPLAY_WAIT_ATTEMPTS then 1 else 0
      | RotDone _ \<Rightarrow> 0)"

text \<open>All statements of a request up to its \<open>n\<close>-th step, the first read of the row included.\<close>

primrec rot_statements ::
  "crypto \<Rightarrow> (nat \<Rightarrow> moment) \<Rightarrow> (nat \<Rightarrow> auth_db \<Rightarrow> auth_db) \<Rightarrow> string option \<Rightarrow> string option \<Rightarrow> string \<Rightarrow> nat \<Rightarrow>
   auth_db \<Rightarrow> nat" where
  "rot_statements cr ms other ip ua raw 0 db = 1"
| "rot_statements cr ms other ip ua raw (Suc n) db =
     rot_statements cr ms other ip ua raw n db + statements (fst (rot_steps cr ms other ip ua raw n db))"

definition statements_left :: "rot_phase \<Rightarrow> nat" where
  "statements_left ph =
     (case ph of RotRevokeAll _ \<Rightarrow> 2 | RotClaim _ \<Rightarrow> 8 | RotMint _ \<Rightarrow> 6 | RotStore _ \<Rightarrow> 1
      | RotWait _ ciphertext wait attempt \<Rightarrow>
          if truthy_str ciphertext then 1
          else if wait \<and> attempt < REPLAY_WAIT_ATTEMPTS then Suc (REPLAY_WAIT_ATTEMPTS - attempt) else 0
      | RotDone _ \<Rightarrow> 0)"

lemma statements_next:
  "statements ph + statements_left (fst (rot_next cr m ip ua raw ph db)) \<le> statements_left ph"
  by (cases ph)
    (auto simp: rot_next_def statements_def statements_left_def Let_def REPLAY_WAIT_ATTEMPTS_def truthy_str_def
      split: option.split sum.split prod.split)

lemma statements_bound:
  "rot_statements cr ms other ip ua raw n db + statements_left (fst (rot_steps cr ms other ip ua raw n db)) \<le> 9"
proof (induction n)
  case 0
  show ?case
    by (auto simp: rot_begin_def statements_left_def Let_def REPLAY_WAIT_ATTEMPTS_def split: option.split)
next
  case (Suc n)
  obtain ph d where s: "rot_steps cr ms other ip ua raw n db = (ph, d)" by fastforce
  then show ?case using Suc statements_next [of ph cr "ms (Suc n)" ip ua raw "other (Suc n) d"] by simp
qed

text \<open>
  C38. A refresh request is always answered: whatever token is presented, whatever other requests do
  to the database before each of its steps and however long the surroundings take, the request has
  its answer, a pair or an error, after the first read of the row and at most eight further steps,
  and it issues at most nine database statements in all; in particular the wait for a concurrent
  winner ends.
\<close>

theorem refresh_answered:
  "(\<exists>r. fst (rot_steps cr ms other ip ua raw (8 + n) db) = RotDone r) \<and>
   rot_statements cr ms other ip ua raw k db \<le> 9"
  using steps_done [of cr ms other ip ua raw n db] statements_bound [of cr ms other ip ua raw k db] by simp

end
