(* ===== verification/TokenProtocol.thy ===== *)
theory TokenProtocol
  imports TokenSafety
begin

text \<open>
  The refresh-token protocol under concurrency: refresh requests advance one database step at a time
  and are interleaved with sign-ins, sign-outs, access checks and the nightly sweeps. One refresh token
  yields one pair under every such interleaving.
\<close>

section \<open>Requests in any order\<close>

text \<open>
  The state of the protocol: the database, the requests under way, the pairs answered so far (with the
  hash of the token they were answered to) and every hash that was ever stored.
\<close>

record token_state =
  ts_db :: auth_db
  ts_req :: "nat \<Rightarrow> (string \<times> rot_phase) option"
  ts_answers :: "(string \<times> rotated_tokens) list"
  ts_seen :: "string set"

text \<open>
  Newly signed tokens carry a random identifier: the hash of such a token was never stored before and
  the two hashes of a pair differ.
\<close>

definition fresh_pair :: "crypto \<Rightarrow> moment \<Rightarrow> auth_user \<Rightarrow> string set \<Rightarrow> bool" where
  "fresh_pair cr m user seen \<longleftrightarrow>
     (\<forall>s t. hashToken cr (jwt_sign cr (clock m) (access_payload m user) s) \<notin> seen \<and>
            hashToken cr (jwt_sign cr (clock m) (refresh_payload m user) t) \<notin> seen \<and>
            hashToken cr (jwt_sign cr (clock m) (access_payload m user) s) \<noteq>
            hashToken cr (jwt_sign cr (clock m) (refresh_payload m user) t))"

definition db_tokens :: "auth_db \<Rightarrow> string set" where
  "db_tokens db = se_token ` set (sessions db)"

definition new_answer :: "string \<Rightarrow> rot_phase \<Rightarrow> rot_phase \<Rightarrow> (string \<times> rotated_tokens) list" where
  "new_answer h ph ph' = (case (ph, ph') of (RotDone _, _) \<Rightarrow> [] | (_, RotDone (Inr p)) \<Rightarrow> [(h, p)] | _ \<Rightarrow> [])"

definition put_db :: "auth_db \<Rightarrow> token_state \<Rightarrow> token_state" where
  "put_db db st = st\<lparr>ts_db := db, ts_seen := ts_seen st \<union> db_tokens db\<rparr>"

inductive token_step :: "crypto \<Rightarrow> token_state \<Rightarrow> token_state \<Rightarrow> bool" for cr where
  arrive: "ts_req st r = None \<Longrightarrow>
    token_step cr st (st\<lparr>ts_req := (ts_req st)(r \<mapsto> (raw, rot_begin cr m raw (ts_db st)))\<rparr>)"
| advance: "ts_req st r = Some (raw, ph) \<Longrightarrow> rot_next cr m ip ua raw ph (ts_db st) = (ph', db') \<Longrightarrow>
    length (random_iv m) = 12 \<Longrightarrow>
    (\<And>u user. ph = RotMint u \<Longrightarrow> find_account u (ts_db st) = Some user \<Longrightarrow> fresh_pair cr m user (ts_seen st)) \<Longrightarrow>
    token_step cr st ((put_db db' st)\<lparr>ts_req := (ts_req st)(r \<mapsto> (raw, ph')),
      ts_answers := ts_answers st @ new_answer (hashToken cr raw) ph ph'\<rparr>)"
| sign_in: "fresh_pair cr m user (ts_seen st) \<Longrightarrow> issueTokens cr m user meth ip ua extra (ts_db st) = (res, db') \<Longrightarrow>
    token_step cr st (put_db db' st)"
| sign_out: "token_step cr st (put_db (snd (revokeToken cr m raw (ts_db st))) st)"
| sign_out_all: "token_step cr st (put_db (snd (revokeAllUserTokens cr m u except (ts_db st))) st)"
| use_access: "token_step cr st (put_db (snd (validateAccessToken cr m raw (ts_db st))) st)"
| sweep: "token_step cr st (put_db (snd (nightlyTokenCleanup m (ts_db st))) st)"
| sweep_expired: "token_step cr st (put_db (snd (cleanupExpiredTokens m (ts_db st))) st)"
| sweep_bans: "token_step cr st (put_db (snd (cleanupExpiredBans m (ts_db st))) st)"

inductive_cases token_stepE [elim]: "token_step cr st st'"

subsection \<open>The invariant\<close>

text \<open>A live row; a request that owns the claim of a hash; the pairs known for a hash.\<close>

definition live_token :: "string \<Rightarrow> auth_db \<Rightarrow> bool" where
  "live_token h db \<longleftrightarrow> (\<exists>s\<in>set (sessions db). se_token s = h \<and> \<not> se_revoked s)"

definition minting :: "crypto \<Rightarrow> token_state \<Rightarrow> string \<Rightarrow> nat \<Rightarrow> bool" where
  "minting cr st h r \<longleftrightarrow> (\<exists>raw u. ts_req st r = Some (raw, RotMint u) \<and> hashToken cr raw = h)"

definition storing :: "crypto \<Rightarrow> token_state \<Rightarrow> string \<Rightarrow> nat \<Rightarrow> bool" where
  "storing cr st h r \<longleftrightarrow> (\<exists>raw p. ts_req st r = Some (raw, RotStore p) \<and> hashToken cr raw = h)"

definition row_pairs :: "crypto \<Rightarrow> auth_db \<Rightarrow> string \<Rightarrow> rotated_tokens set" where
  "row_pairs cr db h = {p. \<exists>s\<in>set (sessions db). \<exists>ct. se_token s = h \<and> se_replacementCiphertext s = Some ct \<and>
     decryptReplacement cr ct = Some p}"

definition phase_pairs :: "crypto \<Rightarrow> rot_phase \<Rightarrow> rotated_tokens set" where
  "phase_pairs cr ph = (case ph of RotStore p \<Rightarrow> {p} | RotWait _ (Some ct) _ _ \<Rightarrow> {p. decryptReplacement cr ct = Some p} | _ \<Rightarrow> {})"

definition req_pairs :: "crypto \<Rightarrow> token_state \<Rightarrow> string \<Rightarrow> rotated_tokens set" where
  "req_pairs cr st h = {p. \<exists>r raw ph. ts_req st r = Some (raw, ph) \<and> hashToken cr raw = h \<and> p \<in> phase_pairs cr ph}"

definition known_pairs :: "crypto \<Rightarrow> token_state \<Rightarrow> string \<Rightarrow> rotated_tokens set" where
  "known_pairs cr st h = row_pairs cr (ts_db st) h \<union> req_pairs cr st h \<union> {p. (h, p) \<in> set (ts_answers st)}"

definition spent :: "crypto \<Rightarrow> token_state \<Rightarrow> string \<Rightarrow> bool" where
  "spent cr st h \<longleftrightarrow> (\<exists>r. minting cr st h r \<or> storing cr st h r) \<or> known_pairs cr st h \<noteq> {}"

definition token_inv :: "crypto \<Rightarrow> token_state \<Rightarrow> bool" where
  "token_inv cr st \<longleftrightarrow>
     db_tokens (ts_db st) \<subseteq> ts_seen st \<and>
     (\<forall>h r r'. (minting cr st h r \<or> storing cr st h r) \<and> (minting cr st h r' \<or> storing cr st h r') \<longrightarrow> r = r') \<and>
     (\<forall>h. spent cr st h \<longrightarrow> \<not> live_token h (ts_db st) \<and> h \<in> ts_seen st) \<and>
     (\<forall>h r. minting cr st h r \<longrightarrow> known_pairs cr st h = {}) \<and>
     (\<forall>h p q. p \<in> known_pairs cr st h \<and> q \<in> known_pairs cr st h \<longrightarrow> p = q)"

lemma token_inv_shrink:
  assumes "token_inv cr st" and "ts_seen st \<subseteq> ts_seen st'" and "db_tokens (ts_db st') \<subseteq> ts_seen st'"
    and "\<And>h r. minting cr st' h r \<Longrightarrow> minting cr st h r" and "\<And>h r. storing cr st' h r \<Longrightarrow> storing cr st h r"
    and "\<And>h. known_pairs cr st' h \<subseteq> known_pairs cr st h"
    and "\<And>h. live_token h (ts_db st') \<Longrightarrow> live_token h (ts_db st) \<or> h \<notin> ts_seen st"
  shows "token_inv cr st'"
proof -
  have spent: "spent cr st h" if "spent cr st' h" for h
    using that assms(4,5,6) [of h] unfolding spent_def by blast
  show ?thesis
    unfolding token_inv_def
  proof (intro conjI allI impI)
    fix h assume "spent cr st' h"
    then have "spent cr st h" by (rule spent)
    then have "\<not> live_token h (ts_db st)" "h \<in> ts_seen st" using assms(1) unfolding token_inv_def by blast+
    then show "\<not> live_token h (ts_db st')" "h \<in> ts_seen st'" using assms(2) assms(7) [of h] by blast+
  next
    fix h r r' assume "(minting cr st' h r \<or> storing cr st' h r) \<and> (minting cr st' h r' \<or> storing cr st' h r')"
    then have "(minting cr st h r \<or> storing cr st h r) \<and> (minting cr st h r' \<or> storing cr st h r')"
      using assms(4,5) by blast
    then show "r = r'" using assms(1) unfolding token_inv_def by blast
  next
    fix h r assume "minting cr st' h r"
    then have "known_pairs cr st h = {}" using assms(1,4) unfolding token_inv_def by blast
    then show "known_pairs cr st' h = {}" using assms(6) [of h] by blast
  next
    fix h p q assume "p \<in> known_pairs cr st' h \<and> q \<in> known_pairs cr st' h"
    then have "p \<in> known_pairs cr st h \<and> q \<in> known_pairs cr st h" using assms(6) [of h] by blast
    then show "p = q" using assms(1) unfolding token_inv_def by blast
  qed (rule assms(3))
qed


text \<open>
  Operations that only weaken the table: rows vanish, are revoked or lose their stored pair; new rows
  have a token from \<open>N\<close> and no stored pair.
\<close>

definition weaker :: "string set \<Rightarrow> auth_db \<Rightarrow> auth_db \<Rightarrow> bool" where
  "weaker N db db' \<longleftrightarrow> (\<forall>s'\<in>set (sessions db').
     (se_token s' \<in> N \<and> se_replacementCiphertext s' = None) \<or>
     (\<exists>s\<in>set (sessions db). se_token s = se_token s' \<and> (\<not> se_revoked s' \<longrightarrow> \<not> se_revoked s) \<and>
        (se_replacementCiphertext s' = None \<or> se_replacementCiphertext s' = se_replacementCiphertext s)))"

lemma weaker_refl [simp]: "weaker N db db"
  unfolding weaker_def by blast

lemma weaker_trans: "weaker N db db1 \<Longrightarrow> weaker N db1 db2 \<Longrightarrow> weaker N db db2"
  unfolding weaker_def by (smt (verit, best))

lemma weaker_mono: "weaker N db db' \<Longrightarrow> N \<subseteq> M \<Longrightarrow> weaker M db db'"
  unfolding weaker_def by blast

lemma weaker_update:
  assumes "\<And>s. p s \<Longrightarrow> se_token (f s) = se_token s \<and> (\<not> se_revoked (f s) \<longrightarrow> \<not> se_revoked s) \<and>
      (se_replacementCiphertext (f s) = None \<or> se_replacementCiphertext (f s) = se_replacementCiphertext s)"
  shows "weaker N db (update_sessions p f db)"
  unfolding weaker_def update_sessions_def using assms by (fastforce simp: update_where_def)

lemma weaker_delete: "weaker N db (db\<lparr>sessions := delete_where p (sessions db)\<rparr>)"
  unfolding weaker_def by (auto simp: delete_where_def)

lemma weaker_accounts: "weaker N db (db\<lparr>accounts := us\<rparr>)"
  unfolding weaker_def by auto

lemma weaker_revoke: "weaker N db (snd (revokeToken cr m raw db))"
  unfolding revokeToken_def Let_def snd_conv by (rule weaker_update) (simp add: revoke_row_def)

lemma weaker_revoke_all: "weaker N db (snd (revokeAllUserTokens cr m u x db))"
  unfolding revokeAllUserTokens_def Let_def snd_conv
  by (rule weaker_trans [OF weaker_update weaker_update]) (simp_all add: revoke_row_def)

lemma weaker_sweeps:
  "weaker N db (snd (nightlyTokenCleanup m db))" "weaker N db (snd (cleanupExpiredTokens m db))"
  "weaker N db (snd (cleanupExpiredBans m db))" "weaker N db (snd (validateAccessToken cr m raw db))"
proof -
  show "weaker N db (snd (nightlyTokenCleanup m db))"
    unfolding nightlyTokenCleanup_def Let_def snd_conv
    by (rule weaker_trans [OF weaker_trans [OF weaker_update weaker_delete] weaker_delete]) simp
  show "weaker N db (snd (cleanupExpiredTokens m db))" by (simp add: cleanupExpiredTokens_def Let_def weaker_delete)
  show "weaker N db (snd (cleanupExpiredBans m db))" by (simp add: cleanupExpiredBans_def Let_def weaker_accounts)
  show "weaker N db (snd (validateAccessToken cr m raw db))"
    by (simp add: validateAccessToken_def weaker_accounts split: option.split)
qed

lemma find_session_None: "h \<notin> db_tokens db \<Longrightarrow> find_session h db = None"
  unfolding find_session_def db_tokens_def find_None_iff by auto

lemma store_fresh:
  assumes "hashToken cr tok \<notin> db_tokens db" and "ty \<noteq> SessionToken"
  shows "weaker {hashToken cr tok} db (storeTokenInSession cr tok u ty t ip ua db)"
    and "db_tokens (storeTokenInSession cr tok u ty t ip ua db) = insert (hashToken cr tok) (db_tokens db)"
  using assms find_session_None [OF assms(1)]
  by (auto simp: storeTokenInSession_def Let_def weaker_def db_tokens_def)

text \<open>Issuing a pair adds rows under fresh tokens only.\<close>

lemma mint_weaker:
  assumes "fresh_pair cr m user seen" and "db_tokens db \<subseteq> seen" and "mint_pair cr m user ip ua db = (res, db')"
  shows "\<exists>N. N \<inter> seen = {} \<and> weaker N db db' \<and> db_tokens db' \<subseteq> seen \<union> N"
proof -
  let ?a = "\<lambda>s. hashToken cr (jwt_sign cr (clock m) (access_payload m user) s)"
  let ?r = "\<lambda>s. hashToken cr (jwt_sign cr (clock m) (refresh_payload m user) s)"
  have fresh: "?a s \<notin> seen" "?r s \<notin> seen" "?a s \<noteq> ?r t" for s t
    using assms(1) unfolding fresh_pair_def by blast+
  show ?thesis
  proof (cases "durationToSeconds (env_or cr ''JWT_ACCESS_EXPIRATION'' DEFAULT_ACCESS_EXPIRATION)")
    case (Inl err)
    then have "db' = db" using assms(3) by (simp add: mint_pair_def generateAccessToken_def)
    then show ?thesis using assms(2) by (intro exI [of _ "{}"]) simp
  next
    case (Inr sa)
    define db1 where "db1 = storeTokenInSession cr (jwt_sign cr (clock m) (access_payload m user) sa) (tu_id user)
      AccessToken (clock m + sa * 1000) ip ua db"
    have a: "?a sa \<notin> db_tokens db" using fresh(1) assms(2) by blast
    have w1: "weaker {?a sa} db db1" "db_tokens db1 = insert (?a sa) (db_tokens db)"
      unfolding db1_def using store_fresh [OF a] by simp_all
    show ?thesis
    proof (cases "durationToSeconds (env_or cr ''JWT_REFRESH_EXPIRATION'' DEFAULT_REFRESH_EXPIRATION)")
      case (Inl err)
      then have "db' = db1" using assms(3) Inr
        by (simp add: mint_pair_def generateAccessToken_def generateRefreshToken_def Let_def db1_def)
      then show ?thesis using w1 fresh assms(2) by (intro exI [of _ "{?a sa}"]) auto
    next
      case (Inr sr)
      define db2 where "db2 = storeTokenInSession cr (jwt_sign cr (clock m) (refresh_payload m user) sr) (tu_id user)
        RefreshToken (clock m + sr * 1000) ip ua db1"
      have r: "?r sr \<notin> db_tokens db1" using fresh [of sr] fresh(3) [of sa sr] w1(2) assms(2) by auto
      have w2: "weaker {?r sr} db1 db2" "db_tokens db2 = insert (?r sr) (db_tokens db1)"
        unfolding db2_def using store_fresh [OF r] by simp_all
      have "db' = db2" using assms(3) Inr \<open>durationToSeconds (env_or cr ''JWT_ACCESS_EXPIRATION'' DEFAULT_ACCESS_EXPIRATION) = Inr sa\<close>
        by (simp add: mint_pair_def generateAccessToken_def generateRefreshToken_def Let_def db1_def db2_def)
      moreover have "weaker {?a sa, ?r sr} db db2"
        using weaker_trans [OF weaker_mono [OF w1(1)] weaker_mono [OF w2(1)]] by blast
      ultimately show ?thesis using w1(2) w2(2) fresh assms(2) by (intro exI [of _ "{?a sa, ?r sr}"]) auto
    qed
  qed
qed

lemma weaker_views:
  assumes "weaker N db db'" and "N \<inter> seen = {}"
  shows "row_pairs cr db' h \<subseteq> row_pairs cr db h" and "live_token h db' \<Longrightarrow> live_token h db \<or> h \<notin> seen"
    and "db_tokens db' \<subseteq> db_tokens db \<union> N"
proof -
  show "row_pairs cr db' h \<subseteq> row_pairs cr db h"
    using assms(1) unfolding row_pairs_def weaker_def by fastforce
  show "live_token h db \<or> h \<notin> seen" if "live_token h db'"
    using that assms unfolding live_token_def weaker_def by (metis disjoint_iff)
  show "db_tokens db' \<subseteq> db_tokens db \<union> N"
  proof
    fix x assume "x \<in> db_tokens db'"
    then obtain s' where s': "s' \<in> set (sessions db')" "x = se_token s'" unfolding db_tokens_def by blast
    then have "se_token s' \<in> N \<or> (\<exists>s\<in>set (sessions db). se_token s = se_token s')"
      using assms(1) unfolding weaker_def by blast
    then show "x \<in> db_tokens db \<union> N" unfolding db_tokens_def s'(2) by (metis UnI1 UnI2 imageI)
  qed
qed

text \<open>A step that touches only the database and weakens it.\<close>

lemma put_db_views [simp]:
  "ts_req (put_db db st) = ts_req st" "ts_answers (put_db db st) = ts_answers st" "ts_db (put_db db st) = db"
  "ts_seen (put_db db st) = ts_seen st \<union> db_tokens db"
  by (simp_all add: put_db_def)

lemma put_db_same [simp]: "(put_db db st)\<lparr>ts_req := q, ts_answers := ts_answers st\<rparr> = (put_db db st)\<lparr>ts_req := q\<rparr>"
  by (cases st) (simp add: put_db_def)

lemma inv_put_db:
  assumes "token_inv cr st" and "weaker N (ts_db st) db'" and "N \<inter> ts_seen st = {}"
  shows "token_inv cr (put_db db' st)"
proof (rule token_inv_shrink [OF assms(1)])
  show "known_pairs cr (put_db db' st) h \<subseteq> known_pairs cr st h" for h
    using weaker_views(1) [OF assms(2,3), of cr h] unfolding known_pairs_def req_pairs_def by auto
  show "live_token h (ts_db (put_db db' st)) \<Longrightarrow> live_token h (ts_db st) \<or> h \<notin> ts_seen st" for h
    using weaker_views(2) [OF assms(2,3), of h] by simp
qed (simp_all add: minting_def storing_def)

subsection \<open>Every step keeps the invariant\<close>

text \<open>A request moves to a phase that owns nothing and offers only pairs already known.\<close>

lemma inv_request:
  assumes "token_inv cr st"
    and "\<And>u. ph' \<noteq> RotMint u" and "\<And>p. ph' \<noteq> RotStore p"
    and "phase_pairs cr ph' \<subseteq> known_pairs cr st (hashToken cr raw)"
    and "\<And>h. row_pairs cr db' h \<subseteq> known_pairs cr st h"
    and "\<And>h. live_token h db' \<Longrightarrow> live_token h (ts_db st) \<or> h \<notin> ts_seen st"
    and "\<And>h p. (h, p) \<in> set new \<Longrightarrow> p \<in> known_pairs cr st h"
  shows "token_inv cr ((put_db db' st)\<lparr>ts_req := (ts_req st)(r \<mapsto> (raw, ph')), ts_answers := ts_answers st @ new\<rparr>)"
    (is "token_inv cr ?st'")
proof (rule token_inv_shrink [OF assms(1)])
  show "minting cr ?st' h q \<Longrightarrow> minting cr st h q" for h q
    using assms(2) by (auto simp: minting_def split: if_splits)
  show "storing cr ?st' h q \<Longrightarrow> storing cr st h q" for h q
    using assms(3) by (auto simp: storing_def split: if_splits)
  show "live_token h (ts_db ?st') \<Longrightarrow> live_token h (ts_db st) \<or> h \<notin> ts_seen st" for h
    using assms(6) by simp
  have req: "req_pairs cr ?st' h \<subseteq> known_pairs cr st h" for h
  proof
    fix p assume "p \<in> req_pairs cr ?st' h"
    then obtain q raw' ph where q: "((ts_req st)(r \<mapsto> (raw, ph'))) q = Some (raw', ph)" "hashToken cr raw' = h"
        "p \<in> phase_pairs cr ph" unfolding req_pairs_def by auto
    show "p \<in> known_pairs cr st h"
    proof (cases "q = r")
      case True
      then show ?thesis using q assms(4) by auto
    next
      case False
      then have "p \<in> req_pairs cr st h" unfolding req_pairs_def using q by auto
      then show ?thesis unfolding known_pairs_def by blast
    qed
  qed
  show "known_pairs cr ?st' h \<subseteq> known_pairs cr st h" for h
    using req [of h] assms(5) [of h] assms(7) [of h] unfolding known_pairs_def [of cr ?st'] known_pairs_def [of cr st]
    by auto
qed simp_all

lemma find_session_in: "find_session h db = Some s \<Longrightarrow> s \<in> set (sessions db) \<and> se_token s = h"
  unfolding find_session_def by (auto simp: find_Some_iff)

lemma row_pairs_found:
  "find_session h db = Some s \<Longrightarrow> se_replacementCiphertext s = Some ct \<Longrightarrow> decryptReplacement cr ct = Some p \<Longrightarrow>
   p \<in> row_pairs cr db h"
  using find_session_in [of h db s] unfolding row_pairs_def by blast

lemma known_row: "row_pairs cr (ts_db st) h \<subseteq> known_pairs cr st h"
  unfolding known_pairs_def by blast

lemma known_phase: "ts_req st r = Some (raw, ph) \<Longrightarrow> phase_pairs cr ph \<subseteq> known_pairs cr st (hashToken cr raw)"
  unfolding known_pairs_def req_pairs_def by blast

lemma rot_begin_pairs:
  "phase_pairs cr (rot_begin cr m raw db) \<subseteq> row_pairs cr db (hashToken cr raw)"
  "rot_begin cr m raw db \<noteq> RotMint u" "rot_begin cr m raw db \<noteq> RotStore p"
  by (auto simp: rot_begin_def Let_def phase_pairs_def row_pairs_found split: option.splits if_splits)

lemma inv_arrive:
  assumes "token_inv cr st"
  shows "token_inv cr (st\<lparr>ts_req := (ts_req st)(r \<mapsto> (raw, rot_begin cr m raw (ts_db st)))\<rparr>)"
proof -
  have seen: "db_tokens (ts_db st) \<subseteq> ts_seen st" using assms unfolding token_inv_def by blast
  have "token_inv cr ((put_db (ts_db st) st)\<lparr>ts_req := (ts_req st)(r \<mapsto> (raw, rot_begin cr m raw (ts_db st))),
      ts_answers := ts_answers st @ []\<rparr>)"
    by (rule inv_request [OF assms])
      (simp_all add: rot_begin_pairs(2,3) known_row order.trans [OF rot_begin_pairs(1) known_row])
  moreover have "put_db (ts_db st) st = st" using seen by (simp add: put_db_def Un_absorb2)
  ultimately show ?thesis by simp
qed

text \<open>The winner of a claim owns the token: it was live, so nobody owned it and no pair was known.\<close>

lemma spent_weaker:
  assumes "weaker N (ts_db st) db'" and "N \<inter> ts_seen st = {}" and "spent cr (put_db db' st) h"
  shows "spent cr st h"
  using assms(3) weaker_views(1) [OF assms(1,2), of cr h]
  unfolding spent_def known_pairs_def minting_def storing_def req_pairs_def by auto

lemma inv_claim:
  assumes inv: "token_inv cr st" and "\<not> spent cr st (hashToken cr raw)"
    and "\<not> live_token (hashToken cr raw) (ts_db st)" and "hashToken cr raw \<in> ts_seen st"
    and r: "ts_req st r = Some (raw, RotClaim u)"
  shows "token_inv cr (st\<lparr>ts_req := (ts_req st)(r \<mapsto> (raw, RotMint u))\<rparr>)" (is "token_inv cr ?st'")
proof -
  let ?h = "hashToken cr raw"
  have own: "minting cr ?st' h q \<or> storing cr ?st' h q \<longleftrightarrow> (minting cr st h q \<or> storing cr st h q) \<or> (h = ?h \<and> q = r)" for h q
    using r by (auto simp: minting_def storing_def)
  have none: "\<not> minting cr st ?h q" "\<not> storing cr st ?h q" "known_pairs cr st ?h = {}" for q
    using assms(2) unfolding spent_def by blast+
  have req: "req_pairs cr ?st' h = req_pairs cr st h" for h
  proof -
    have "phase_pairs cr (RotMint u) = {}" "phase_pairs cr (RotClaim u) = {}" by (simp_all add: phase_pairs_def)
    then show ?thesis unfolding req_pairs_def using r by (auto split: if_splits) (metis option.inject prod.inject equals0D)
  qed
  then have known: "known_pairs cr ?st' h = known_pairs cr st h" for h
    unfolding known_pairs_def by simp
  have spent: "spent cr ?st' h \<longleftrightarrow> spent cr st h \<or> h = ?h" for h
    unfolding spent_def own known by blast
  show ?thesis
    unfolding token_inv_def
  proof (intro conjI allI impI)
    show "db_tokens (ts_db ?st') \<subseteq> ts_seen ?st'" using inv unfolding token_inv_def by simp
  next
    fix h q q' assume "(minting cr ?st' h q \<or> storing cr ?st' h q) \<and> (minting cr ?st' h q' \<or> storing cr ?st' h q')"
    then have "((minting cr st h q \<or> storing cr st h q) \<or> h = ?h \<and> q = r) \<and>
        ((minting cr st h q' \<or> storing cr st h q') \<or> h = ?h \<and> q' = r)" unfolding own .
    then show "q = q'" using none(1,2) inv unfolding token_inv_def by blast
  next
    fix h assume "spent cr ?st' h"
    then have "spent cr st h \<or> h = ?h" by (simp add: spent)
    then show "\<not> live_token h (ts_db ?st')" "h \<in> ts_seen ?st'"
      using inv assms(3,4) unfolding token_inv_def by auto
  next
    fix h q assume "minting cr ?st' h q"
    then have "minting cr st h q \<or> h = ?h" by (auto simp: minting_def split: if_splits)
    then show "known_pairs cr ?st' h = {}" using none(3) inv unfolding token_inv_def known by blast
  next
    fix h p q assume "p \<in> known_pairs cr ?st' h \<and> q \<in> known_pairs cr ?st' h"
    then show "p = q" using inv unfolding known token_inv_def by blast
  qed
qed

text \<open>The owner's pair becomes the one known pair.\<close>

lemma inv_minted:
  assumes inv: "token_inv cr st" and r: "ts_req st r = Some (raw, RotMint u)"
  shows "token_inv cr (st\<lparr>ts_req := (ts_req st)(r \<mapsto> (raw, RotStore p))\<rparr>)" (is "token_inv cr ?st'")
proof -
  let ?h = "hashToken cr raw"
  have m: "minting cr st ?h r" using r unfolding minting_def by blast
  then have none: "known_pairs cr st ?h = {}" using inv unfolding token_inv_def by blast
  have mint: "minting cr ?st' h q \<longleftrightarrow> minting cr st h q \<and> q \<noteq> r" for h q using r by (auto simp: minting_def)
  have own: "minting cr ?st' h q \<or> storing cr ?st' h q \<longleftrightarrow> minting cr st h q \<or> storing cr st h q" for h q
    using r by (auto simp: minting_def storing_def)
  have "req_pairs cr ?st' h \<subseteq> req_pairs cr st h \<union> (if h = ?h then {p} else {})" for h
  proof
    fix x assume "x \<in> req_pairs cr ?st' h"
    then obtain q raw' ph where "((ts_req st)(r \<mapsto> (raw, RotStore p))) q = Some (raw', ph)" "hashToken cr raw' = h"
        "x \<in> phase_pairs cr ph" unfolding req_pairs_def by auto
    then show "x \<in> req_pairs cr st h \<union> (if h = ?h then {p} else {})"
      unfolding req_pairs_def by (auto simp: phase_pairs_def split: if_splits)
  qed
  then have known: "known_pairs cr ?st' h \<subseteq> known_pairs cr st h \<union> (if h = ?h then {p} else {})" for h
    unfolding known_pairs_def by fastforce
  have spent: "spent cr st h" if "spent cr ?st' h" for h
    using that m known [of h] unfolding spent_def own by (auto split: if_splits)
  show ?thesis
    unfolding token_inv_def
  proof (intro conjI allI impI)
    show "db_tokens (ts_db ?st') \<subseteq> ts_seen ?st'" using inv unfolding token_inv_def by simp
  next
    fix h q q' assume "(minting cr ?st' h q \<or> storing cr ?st' h q) \<and> (minting cr ?st' h q' \<or> storing cr ?st' h q')"
    then show "q = q'" using inv unfolding own token_inv_def by blast
  next
    fix h assume "spent cr ?st' h"
    then have "spent cr st h" by (rule spent)
    then show "\<not> live_token h (ts_db ?st')" "h \<in> ts_seen ?st'" using inv unfolding token_inv_def by auto
  next
    fix h q assume "minting cr ?st' h q"
    then have q: "minting cr st h q" "q \<noteq> r" unfolding mint by blast+
    then have "known_pairs cr st h = {}" "h \<noteq> ?h" using m inv unfolding token_inv_def by blast+
    then show "known_pairs cr ?st' h = {}" using known [of h] by simp
  next
    fix h x y assume "x \<in> known_pairs cr ?st' h \<and> y \<in> known_pairs cr ?st' h"
    then have "x \<in> known_pairs cr st h \<union> (if h = ?h then {p} else {})" "y \<in> known_pairs cr st h \<union> (if h = ?h then {p} else {})"
      using known [of h] by blast+
    then show "x = y" using none inv unfolding token_inv_def by (cases "h = ?h") auto
  qed
qed

text \<open>One database step of a request.\<close>

lemma new_answer_Inl [simp]: "new_answer h ph (RotDone (Inl e)) = []"
  by (cases ph) (simp_all add: new_answer_def)

lemma new_answer_open [simp]:
  "new_answer h ph (RotMint u) = []" "new_answer h ph (RotStore p) = []" "new_answer h ph (RotWait u ct w n) = []"
  by (cases ph; simp add: new_answer_def)+

lemma claim_weaker: "weaker N db (update_sessions (\<lambda>s. se_token s = h \<and> \<not> se_revoked s) (revoke_row m) db)"
  by (rule weaker_update) (simp add: revoke_row_def)

lemma set_update_sessions: "set (sessions (update_sessions p f db)) = (\<lambda>s. if p s then f s else s) ` set (sessions db)"
  by (simp add: update_sessions_def update_where_def)

lemma claim_dead: "\<not> live_token h (update_sessions (\<lambda>s. se_token s = h \<and> \<not> se_revoked s) (revoke_row m) db)"
  unfolding live_token_def set_update_sessions bex_simps by (simp add: revoke_row_def)

lemma claim_live: "count_where (\<lambda>s. se_token s = h \<and> \<not> se_revoked s) (sessions db) \<noteq> 0 \<Longrightarrow> live_token h db"
  by (auto simp: count_where_def live_token_def filter_empty_conv)

lemma store_views:
  fixes db :: auth_db and h :: string
  assumes "decryptReplacement cr ct = Some p"
  defines "db' \<equiv> update_sessions (\<lambda>s. se_token s = h) (\<lambda>s. s\<lparr>se_replacementCiphertext := Some ct\<rparr>) db"
  shows "row_pairs cr db' x \<subseteq> row_pairs cr db x \<union> (if x = h then {p} else {})"
    and "live_token x db' \<Longrightarrow> live_token x db"
proof -
  let ?f = "\<lambda>s. if se_token s = h then s\<lparr>se_replacementCiphertext := Some ct\<rparr> else s"
  have f: "se_token (?f s) = se_token s" "se_revoked (?f s) = se_revoked s"
    "se_replacementCiphertext (?f s) = (if se_token s = h then Some ct else se_replacementCiphertext s)" for s
    by simp_all
  show "row_pairs cr db' x \<subseteq> row_pairs cr db x \<union> (if x = h then {p} else {})"
    unfolding row_pairs_def db'_def set_update_sessions bex_simps f using assms(1) by auto
  show "live_token x db' \<Longrightarrow> live_token x db"
    unfolding live_token_def db'_def set_update_sessions bex_simps f .
qed

lemma live_seen: "token_inv cr st \<Longrightarrow> live_token h (ts_db st) \<Longrightarrow> h \<in> ts_seen st"
  unfolding token_inv_def live_token_def db_tokens_def by blast

lemma inv_advance:
  assumes ok: "crypto_ok cr" and inv: "token_inv cr st" and r: "ts_req st r = Some (raw, ph)"
    and step: "rot_next cr m ip ua raw ph (ts_db st) = (ph', db')" and iv: "length (random_iv m) = 12"
    and fresh: "\<And>u user. ph = RotMint u \<Longrightarrow> find_account u (ts_db st) = Some user \<Longrightarrow> fresh_pair cr m user (ts_seen st)"
  shows "token_inv cr ((put_db db' st)\<lparr>ts_req := (ts_req st)(r \<mapsto> (raw, ph')),
    ts_answers := ts_answers st @ new_answer (hashToken cr raw) ph ph'\<rparr>)" (is "token_inv cr ?st'")
proof -
  let ?h = "hashToken cr raw"
  note same = known_row [of cr st]
  have weak: "token_inv cr ?st'"
    if "ph' = RotDone (Inl e) \<or> ph' = RotWait u None w n" and w: "weaker N (ts_db st) db'" and N: "N \<inter> ts_seen st = {}" for e u w n N
  proof (rule inv_request [OF inv])
    show "row_pairs cr db' h \<subseteq> known_pairs cr st h" for h
      using weaker_views(1) [OF w N, of cr h] same by blast
    show "live_token h db' \<Longrightarrow> live_token h (ts_db st) \<or> h \<notin> ts_seen st" for h by (rule weaker_views(2) [OF w N])
  qed (use that(1) in \<open>auto simp: phase_pairs_def\<close>)
  show ?thesis
  proof (cases ph)
    case (RotRevokeAll u)
    then show ?thesis using step weaker_revoke_all [of "{}" "ts_db st" cr m u None]
      by (intro weak [of "RefreshTokenReuseError u" _ _ _ "{}"]) (auto simp: rot_next_def Let_def)
  next
    case (RotClaim u)
    show ?thesis
    proof (cases "count_where (\<lambda>s. se_token s = ?h \<and> \<not> se_revoked s) (sessions (ts_db st)) = 0")
      case True
      then show ?thesis using step RotClaim
        by (intro weak [of already_used u True 0 "{}"]) (auto simp: rot_next_def Let_def)
    next
      case False
      then have l: "live_token ?h (ts_db st)" by (rule claim_live)
      have n: "ph' = RotMint u" "db' = update_sessions (\<lambda>s. se_token s = ?h \<and> \<not> se_revoked s) (revoke_row m) (ts_db st)"
        using step RotClaim False by (simp_all add: rot_next_def Let_def)
      have w: "weaker {} (ts_db st) db'" unfolding n(2) by (rule claim_weaker)
      have "\<not> spent cr st ?h" using l inv unfolding token_inv_def by blast
      then have ns: "\<not> spent cr (put_db db' st) ?h" using spent_weaker [OF w] by blast
      have "token_inv cr ((put_db db' st)\<lparr>ts_req := (ts_req (put_db db' st))(r \<mapsto> (raw, RotMint u))\<rparr>)"
        by (rule inv_claim [OF inv_put_db [OF inv w] ns])
          (use claim_dead live_seen [OF inv l] r RotClaim in \<open>simp_all add: n(2)\<close>)
      then show ?thesis by (simp add: n(1))
    qed
  next
    case (RotMint u)
    show ?thesis
    proof (cases "find_account u (ts_db st)")
      case None
      then show ?thesis using step RotMint
        by (intro weak [of "UnauthorizedException ''User not found''" _ _ _ "{}"]) (auto simp: rot_next_def Let_def)
    next
      case (Some user)
      obtain res where res: "mint_pair cr m user ip ua (ts_db st) = (res, db')"
        using step RotMint Some by (auto simp: rot_next_def Let_def split: prod.splits sum.splits)
      have "db_tokens (ts_db st) \<subseteq> ts_seen st" using inv unfolding token_inv_def by blast
      then obtain N where N: "N \<inter> ts_seen st = {}" "weaker N (ts_db st) db'"
        using mint_weaker [OF fresh [OF RotMint Some] _ res] by blast
      show ?thesis
      proof (cases res)
        case (Inl e)
        then show ?thesis using N step RotMint Some res by (intro weak [of e _ _ _ N]) (auto simp: rot_next_def)
      next
        case (Inr p)
        have "token_inv cr ((put_db db' st)\<lparr>ts_req := (ts_req (put_db db' st))(r \<mapsto> (raw, RotStore p))\<rparr>)"
          by (rule inv_minted [OF inv_put_db [OF inv N(2,1)]]) (simp add: r RotMint)
        moreover have "ph' = RotStore p" using step RotMint Some res Inr by (simp add: rot_next_def)
        ultimately show ?thesis by simp
      qed
    qed
  next
    case (RotStore p)
    let ?ct = "encryptReplacement cr m p"
    have n: "ph' = RotDone (Inr p)"
      "db' = (if store_ok m then update_sessions (\<lambda>s. se_token s = ?h)
         (\<lambda>s. s\<lparr>se_replacementCiphertext := Some ?ct\<rparr>) (ts_db st) else ts_db st)"
      using step RotStore by (simp_all add: rot_next_def Let_def)
    note views = store_views [OF decrypt_encrypt [OF ok iv, where p = p], where h = ?h and db = "ts_db st"]
    have known: "p \<in> known_pairs cr st ?h" using known_phase [OF r, of cr] RotStore by (simp add: phase_pairs_def)
    show ?thesis
    proof (rule inv_request [OF inv])
      show "row_pairs cr db' h \<subseteq> known_pairs cr st h" for h
        using views(1) [where x = h] same [of h] known unfolding n(2)
        by (cases "store_ok m") (auto split: if_splits)
      show "live_token h db' \<Longrightarrow> live_token h (ts_db st) \<or> h \<notin> ts_seen st" for h
        using views(2) [where x = h] unfolding n(2) by (cases "store_ok m") auto
    qed (use n(1) known RotStore in \<open>auto simp: phase_pairs_def new_answer_def\<close>)
  next
    case (RotWait u ct w n)
    have db: "db' = ts_db st" using step RotWait by (auto simp: rot_next_def Let_def split: if_splits)
    have ph': "phase_pairs cr ph' \<subseteq> row_pairs cr (ts_db st) ?h" "\<And>u. ph' \<noteq> RotMint u" "\<And>p. ph' \<noteq> RotStore p"
      using step RotWait by (auto simp: rot_next_def Let_def phase_pairs_def row_pairs_found split: if_splits option.splits)
    have new: "p \<in> phase_pairs cr ph" if "(h, p) \<in> set (new_answer ?h ph ph')" for h p
      using that step RotWait
      by (auto simp: rot_next_def Let_def phase_pairs_def new_answer_def replayReplacement_def truthy_str_def
          split: if_splits option.splits)
    have h: "h = ?h" if "(h, p) \<in> set (new_answer ?h ph ph')" for h p
      using that by (auto simp: new_answer_def split: rot_phase.splits sum.splits)
    show ?thesis
      by (rule inv_request [OF inv ph'(2,3)])
        (use ph'(1) same known_phase [OF r, of cr] new h db in \<open>blast+\<close>)
  next
    case (RotDone res)
    have "ph' = RotDone res" "db' = ts_db st" using step RotDone by (simp_all add: rot_next_def)
    then show ?thesis using RotDone same
      by (intro inv_request [OF inv]) (auto simp: phase_pairs_def new_answer_def)
  qed
qed

subsection \<open>One token, one pair\<close>

lemma token_step_inv:
  assumes "crypto_ok cr" and "token_inv cr st" and "token_step cr st st'"
  shows "token_inv cr st'"
  using assms(3)
proof cases
  case (sign_in m user meth ip ua extra res db')
  obtain res' where mp: "mint_pair cr m user ip ua (ts_db st) = (res', db')"
    using sign_in(3) by (auto simp: issueTokens_def split: prod.splits sum.splits)
  have seen: "db_tokens (ts_db st) \<subseteq> ts_seen st" using assms(2) unfolding token_inv_def by blast
  obtain N where N: "N \<inter> ts_seen st = {}" "weaker N (ts_db st) db'"
    using mint_weaker [OF sign_in(2) seen mp] by blast
  show ?thesis unfolding sign_in(1) by (rule inv_put_db [OF assms(2) N(2,1)])
qed (use assms in \<open>auto intro: inv_arrive inv_advance inv_put_db [where N = "{}"] weaker_revoke weaker_revoke_all weaker_sweeps\<close>)

interpretation token_life: lifecycle "token_step cr" "\<lambda>st. crypto_ok cr \<and> token_inv cr st" for cr
  by unfold_locales (auto intro: token_step_inv)

text \<open>Before the first request no row holds a stored pair.\<close>

definition token_start :: "token_state \<Rightarrow> bool" where
  "token_start st \<longleftrightarrow> ts_req st = Map.empty \<and> ts_answers st = [] \<and> db_tokens (ts_db st) \<subseteq> ts_seen st \<and>
     list_all (\<lambda>s. se_replacementCiphertext s = None) (sessions (ts_db st))"

lemma token_start_inv: "token_start st \<Longrightarrow> token_inv cr st"
  by (auto simp: token_start_def token_inv_def spent_def known_pairs_def row_pairs_def req_pairs_def minting_def
      storing_def list_all_iff)

text \<open>
  C4. A refresh token is worth one pair: whatever requests, sign-ins, sign-outs, access checks and
  sweeps are interleaved, database step by database step, all successful answers to one refresh
  token carry the same pair, and once there is an answer no row of that token is live again, so no
  replay and no race between requests mints a second pair.
\<close>

theorem refresh_single_pair:
  assumes "crypto_ok cr" and "token_start st" and "reaches (token_step cr) st st'"
    and "(h, p) \<in> set (ts_answers st')" and "(h, q) \<in> set (ts_answers st')"
  shows "p = q \<and> \<not> live_token h (ts_db st')"
proof -
  have "token_inv cr st'"
    using token_life.reaches_good [OF assms(3)] assms(1) token_start_inv [OF assms(2)] by blast
  moreover have "p \<in> known_pairs cr st' h" "q \<in> known_pairs cr st' h"
    using assms(4,5) unfolding known_pairs_def by blast+
  ultimately show ?thesis unfolding token_inv_def spent_def by blast
qed

text \<open>Two requests with the same token, played in a given order.\<close>

definition advance_req :: "crypto \<Rightarrow> moment \<Rightarrow> nat \<Rightarrow> token_state \<Rightarrow> token_state" where
  "advance_req cr m r st =
     (case ts_req st r of
        None \<Rightarrow> st
      | Some (raw, ph) \<Rightarrow>
          (case rot_next cr m None None raw ph (ts_db st) of
             (ph', db') \<Rightarrow> (put_db db' st)\<lparr>ts_req := (ts_req st)(r \<mapsto> (raw, ph')),
               ts_answers := ts_answers st @ new_answer (hashToken cr raw) ph ph'\<rparr>))"

definition demo_can_advance :: "moment \<Rightarrow> nat \<Rightarrow> token_state \<Rightarrow> bool" where
  "demo_can_advance m r st \<longleftrightarrow> length (random_iv m) = 12 \<and> (case ts_req st r of
     None \<Rightarrow> False
   | Some (raw, RotMint u) \<Rightarrow> (case find_account u (ts_db st) of
       None \<Rightarrow> True
     | Some user \<Rightarrow> hashToken demo_crypto (demo_sign (clock m) (access_payload m user) 0) \<notin> ts_seen st \<and>
                     hashToken demo_crypto (demo_sign (clock m) (refresh_payload m user) 0) \<notin> ts_seen st)
   | Some (raw, _) \<Rightarrow> True)"

lemma demo_advance_step:
  assumes "demo_can_advance m r st"
  shows "token_step demo_crypto st (advance_req demo_crypto m r st)"
proof -
  obtain raw ph where r: "ts_req st r = Some (raw, ph)" using assms by (auto simp: demo_can_advance_def split: option.splits)
  obtain ph' db' where n: "rot_next demo_crypto m None None raw ph (ts_db st) = (ph', db')" by fastforce
  have "token_step demo_crypto st ((put_db db' st)\<lparr>ts_req := (ts_req st)(r \<mapsto> (raw, ph')),
      ts_answers := ts_answers st @ new_answer (hashToken demo_crypto raw) ph ph'\<rparr>)"
  proof (rule token_step.advance [OF r n])
    show "length (random_iv m) = 12" using assms by (simp add: demo_can_advance_def)
    fix u user assume "ph = RotMint u" "find_account u (ts_db st) = Some user"
    then show "fresh_pair demo_crypto m user (ts_seen st)"
      using assms r by (auto simp: demo_can_advance_def fresh_pair_def demo_crypto_def demo_sign_def hashToken_def
          access_payload_def refresh_payload_def)
  qed
  then show ?thesis using r n by (simp add: advance_req_def)
qed

primrec demo_play :: "(nat \<times> moment) list \<Rightarrow> token_state \<Rightarrow> token_state" where
  "demo_play [] st = st"
| "demo_play (x # xs) st = demo_play xs (advance_req demo_crypto (snd x) (fst x) st)"

primrec demo_playable :: "(nat \<times> moment) list \<Rightarrow> token_state \<Rightarrow> bool" where
  "demo_playable [] st = True"
| "demo_playable (x # xs) st = (demo_can_advance (snd x) (fst x) st \<and>
     demo_playable xs (advance_req demo_crypto (snd x) (fst x) st))"

lemma demo_play_reaches:
  "reaches (token_step demo_crypto) s st \<Longrightarrow> demo_playable xs st \<Longrightarrow> reaches (token_step demo_crypto) s (demo_play xs st)"
proof (induction xs arbitrary: st)
  case (Cons x xs)
  have "reaches (token_step demo_crypto) s (advance_req demo_crypto (snd x) (fst x) st)"
    by (rule reaches_step [OF Cons.prems(1)]) (use Cons.prems(2) demo_advance_step in simp)
  then show ?case using Cons by simp
qed simp

definition demo_account :: auth_user where
  "demo_account = \<lparr>tu_id = 7, tu_email = ''a@b'', tu_name = ''A'', tu_banned = False, tu_banReason = None,
     tu_banExpires = None, tu_roles = [], tu_gates = []\<rparr>"

definition demo_live_row :: "string \<Rightarrow> token_type \<Rightarrow> session_row" where
  "demo_live_row raw ty = \<lparr>se_token = CHR ''h'' # raw, se_tokenType = ty, se_userId = 7, se_expiresAt = 1000000,
     se_ipAddress = None, se_userAgent = None, se_revoked = False, se_revokedAt = None, se_replacementCiphertext = None\<rparr>"

definition demo_tokens :: token_state where
  "demo_tokens = \<lparr>ts_db = \<lparr>sessions = [demo_live_row ''r:7:old'' RefreshToken], accounts = [demo_account]\<rparr>,
     ts_req = Map.empty, ts_answers = [], ts_seen = {''hr:7:old''}\<rparr>"

definition demo_arrived :: "token_state" where
  "demo_arrived = demo_tokens\<lparr>ts_req := [0 \<mapsto> (''r:7:old'', rot_begin demo_crypto (demo_moment 5 ''x'') ''r:7:old'' (ts_db demo_tokens)),
     1 \<mapsto> (''r:7:old'', rot_begin demo_crypto (demo_moment 6 ''y'') ''r:7:old'' (ts_db demo_tokens))]\<rparr>"

definition demo_order :: "(nat \<times> moment) list" where
  "demo_order = map (\<lambda>(r, t, j). (r, demo_moment t j))
     [(0, 7, ''x''), (1, 8, ''y''), (0, 9, ''x''), (1, 10, ''y''), (0, 11, ''x''), (1, 12, ''y''), (1, 13, ''y'')]"

lemma demo_arrived_reached: "reaches (token_step demo_crypto) demo_tokens demo_arrived"
proof -
  let ?s1 = "demo_tokens\<lparr>ts_req := (ts_req demo_tokens)(0 \<mapsto> (''r:7:old'',
    rot_begin demo_crypto (demo_moment 5 ''x'') ''r:7:old'' (ts_db demo_tokens)))\<rparr>"
  have "token_step demo_crypto demo_tokens ?s1" by (rule token_step.arrive) (simp add: demo_tokens_def)
  then have "reaches (token_step demo_crypto) demo_tokens ?s1" by (rule reaches_step [OF reaches_refl])
  moreover have "token_step demo_crypto ?s1 (?s1\<lparr>ts_req := (ts_req ?s1)(1 \<mapsto> (''r:7:old'',
    rot_begin demo_crypto (demo_moment 6 ''y'') ''r:7:old'' (ts_db ?s1)))\<rparr>)"
    by (rule token_step.arrive) (simp add: demo_tokens_def)
  ultimately have "reaches (token_step demo_crypto) demo_tokens (?s1\<lparr>ts_req := (ts_req ?s1)(1 \<mapsto> (''r:7:old'',
    rot_begin demo_crypto (demo_moment 6 ''y'') ''r:7:old'' (ts_db ?s1)))\<rparr>)" by (rule reaches_step)
  then show ?thesis by (simp add: demo_arrived_def demo_tokens_def)
qed

lemma demo_order_facts:
  "demo_playable demo_order demo_arrived"
  "map fst (ts_answers (demo_play demo_order demo_arrived)) = [''hr:7:old'', ''hr:7:old'']"
  by (code_simp, code_simp)

theorem refresh_single_pair_witness:
  "\<exists>p q. ts_answers (demo_play demo_order demo_arrived) = [(''hr:7:old'', p), (''hr:7:old'', q)] \<and> p = q \<and>
     \<not> live_token ''hr:7:old'' (ts_db (demo_play demo_order demo_arrived))"
proof -
  obtain p q where a: "ts_answers (demo_play demo_order demo_arrived) = [(''hr:7:old'', p), (''hr:7:old'', q)]"
    using demo_order_facts(2) by (auto simp: map_eq_Cons_conv)
  have "token_start demo_tokens" by (simp add: token_start_def demo_tokens_def db_tokens_def demo_live_row_def)
  then have "p = q \<and> \<not> live_token ''hr:7:old'' (ts_db (demo_play demo_order demo_arrived))"
    by (rule refresh_single_pair [OF demo_crypto_ok _ demo_play_reaches [OF demo_arrived_reached demo_order_facts(1)]])
      (simp_all add: a)
  then show ?thesis using a by blast
qed

end
