(* ===== verification/TokenProperties.thy ===== *)
theory TokenProperties
  imports TokenProtocol
begin

text \<open>
  What one refresh request does on its own: rotation and replay, detection of reuse, and what remains
  usable after every session of a user was revoked.
\<close>

section \<open>Reading the session table after a change\<close>

lemma find_map: "(\<And>x. P (g x) = P x) \<Longrightarrow> List.find P (map g xs) = map_option g (List.find P xs)"
  by (induction xs) auto

lemma find_snoc: "List.find P (xs @ [x]) = (case List.find P xs of Some y \<Rightarrow> Some y | None \<Rightarrow> if P x then Some x else None)"
  by (induction xs) auto

lemma find_session_update:
  assumes "\<And>s. se_token (f s) = se_token s"
  shows "find_session h (update_sessions p f db) = map_option (\<lambda>s. if p s then f s else s) (find_session h db)"
  unfolding find_session_def update_sessions_def update_where_def using assms by (simp add: find_map)

lemma find_session_revoke_all:
  "find_session h (snd (revokeAllUserTokens cr m u x db)) =
     map_option (\<lambda>s. let s1 = (if se_userId s = u \<and> se_replacementCiphertext s \<noteq> None
                                then s\<lparr>se_replacementCiphertext := None\<rparr> else s)
                     in if se_userId s1 = u \<and> \<not> se_revoked s1 \<and> (truthy_str x \<longrightarrow> se_token s1 \<noteq> hashToken cr (the x))
                        then revoke_row m s1 else s1) (find_session h db)"
  unfolding revokeAllUserTokens_def Let_def snd_conv
  by (cases "find_session h db") (auto simp: find_session_update revoke_row_def)

lemma find_session_store:
  assumes "hashToken cr tok \<notin> db_tokens db" and "ty \<noteq> SessionToken"
  shows "find_session h (storeTokenInSession cr tok u ty t ip ua db) =
    (if h = hashToken cr tok then Some \<lparr>se_token = hashToken cr tok, se_tokenType = ty, se_userId = u, se_expiresAt = t,
       se_ipAddress = ip, se_userAgent = ua, se_revoked = False, se_revokedAt = None, se_replacementCiphertext = None\<rparr>
     else find_session h db)"
  using find_session_None [OF assms(1)] assms(2)
  by (auto simp: storeTokenInSession_def Let_def find_session_def find_snoc split: option.splits)

lemma rot_steps_done:
  assumes "rot_steps cr ms (\<lambda>_ d. d) ip ua raw n db = (RotDone r, db')"
  shows "rot_steps cr ms (\<lambda>_ d. d) ip ua raw (k + n) db = (RotDone r, db')"
  by (induction k) (simp_all add: assms rot_next_def)

lemma rotate_done:
  assumes "rot_steps cr ms (\<lambda>_ d. d) ip ua raw n db = (RotDone r, db')" and "n \<le> 10"
  shows "rotateRefreshToken cr ms ip ua raw db = (Some r, db')"
  using rot_steps_done [OF assms(1), of "10 - n"] assms(2) by (simp add: rotateRefreshToken_def)

text \<open>A refresh token that is presented: its signature holds and its row is \<open>s\<close>.\<close>

definition presented :: "crypto \<Rightarrow> moment \<Rightarrow> string \<Rightarrow> auth_db \<Rightarrow> session_row \<Rightarrow> bool" where
  "presented cr m raw db s \<longleftrightarrow>
     (case jwt_verify cr (clock m) raw of None \<Rightarrow> False | Some payload \<Rightarrow> jp_type payload = RefreshToken) \<and>
     find_session (hashToken cr raw) db = Some s \<and> se_tokenType s = RefreshToken"

definition revoked_ms :: "session_row \<Rightarrow> time" where
  "revoked_ms s = (case se_revokedAt s of None \<Rightarrow> 0 | Some t \<Rightarrow> t)"

lemma rot_begin_presented:
  assumes "presented cr m raw db s"
  shows "rot_begin cr m raw db =
    (if \<not> se_revoked s then RotClaim (se_userId s)
     else if clock m - revoked_ms s \<le> reuseGraceSeconds cr * 1000
     then RotWait (se_userId s) (se_replacementCiphertext s) (clock m - revoked_ms s < REPLACEMENT_SETTLE_MS) 0
     else RotRevokeAll (se_userId s))"
  using assms by (auto simp: presented_def rot_begin_def revoked_ms_def Let_def split: option.splits)

section \<open>Reuse\<close>

text \<open>
  C10. Reuse outside the grace window is treated as theft: a refresh token that was revoked longer ago
  than the window is answered with the reuse error naming its user; afterwards every session row of
  that user is revoked and holds no stored pair, the rows of all other users and the accounts are
  unchanged, and no row was added or removed.
\<close>

theorem reuse_revokes_all:
  assumes "presented cr (ms 0) raw db s" and "se_revoked s"
    and "reuseGraceSeconds cr * 1000 < clock (ms 0) - revoked_ms s"
  shows "\<exists>db'. rotateRefreshToken cr ms ip ua raw db = (Some (Inl (RefreshTokenReuseError (se_userId s))), db') \<and>
    accounts db' = accounts db \<and>
    list_all2 (\<lambda>x y. se_token y = se_token x \<and> se_userId y = se_userId x \<and>
      (if se_userId x = se_userId s then se_revoked y \<and> se_replacementCiphertext y = None else y = x))
      (sessions db) (sessions db')"
proof -
  let ?db' = "snd (revokeAllUserTokens cr (ms 1) (se_userId s) None db)"
  have "rot_begin cr (ms 0) raw db = RotRevokeAll (se_userId s)"
    using assms(2,3) by (simp add: rot_begin_presented [OF assms(1)])
  then have "rot_steps cr ms (\<lambda>_ d. d) ip ua raw 1 db = (RotDone (Inl (RefreshTokenReuseError (se_userId s))), ?db')"
    by (simp add: rot_next_def)
  then have "rotateRefreshToken cr ms ip ua raw db = (Some (Inl (RefreshTokenReuseError (se_userId s))), ?db')"
    by (rule rotate_done) simp
  moreover have "accounts ?db' = accounts db"
    by (simp add: revokeAllUserTokens_def update_sessions_def Let_def)
  moreover have "list_all2 (\<lambda>x y. se_token y = se_token x \<and> se_userId y = se_userId x \<and>
      (if se_userId x = se_userId s then se_revoked y \<and> se_replacementCiphertext y = None else y = x))
      (sessions db) (sessions ?db')"
    by (simp add: revokeAllUserTokens_def update_sessions_def update_where_def Let_def truthy_str_def revoke_row_def
        list.rel_map list.rel_refl)
  ultimately show ?thesis by blast
qed

definition demo_stale_row :: session_row where
  "demo_stale_row = (demo_live_row ''r:7:old'' RefreshToken)\<lparr>se_revoked := True, se_revokedAt := Some 0\<rparr>"

definition demo_stale :: auth_db where
  "demo_stale = \<lparr>sessions = [demo_stale_row, demo_live_row ''a:7:z'' AccessToken], accounts = [demo_account]\<rparr>"

theorem reuse_revokes_all_witness:
  "\<exists>db'. rotateRefreshToken demo_crypto (\<lambda>_. demo_moment 400000 ''n'') None None ''r:7:old'' demo_stale =
     (Some (Inl (RefreshTokenReuseError 7)), db') \<and> se_revoked (sessions db' ! 1)"
proof -
  have p: "presented demo_crypto (demo_moment 400000 ''n'') ''r:7:old'' demo_stale demo_stale_row" by code_simp
  have s: "se_revoked demo_stale_row" "se_userId demo_stale_row = 7" "se_userId (demo_live_row ''a:7:z'' AccessToken) = 7"
    by code_simp+
  have g: "reuseGraceSeconds demo_crypto * 1000 < clock (demo_moment 400000 ''n'') - revoked_ms demo_stale_row" by code_simp
  obtain db' where r: "rotateRefreshToken demo_crypto (\<lambda>_. demo_moment 400000 ''n'') None None ''r:7:old'' demo_stale =
     (Some (Inl (RefreshTokenReuseError 7)), db')"
    and l: "list_all2 (\<lambda>x y. se_token y = se_token x \<and> se_userId y = se_userId x \<and>
      (if se_userId x = 7 then se_revoked y \<and> se_replacementCiphertext y = None else y = x))
      (sessions demo_stale) (sessions db')"
    using reuse_revokes_all [of demo_crypto "\<lambda>_. demo_moment 400000 ''n''", OF p s(1) g, of None None] unfolding s(2) by blast
  have "se_revoked (sessions db' ! 1)"
    using l s(3) by (auto simp: demo_stale_def list_all2_Cons1)
  then show ?thesis using r by blast
qed

section \<open>Rotation and replay\<close>

lemma db_tokens_update:
  assumes "\<And>s. se_token (f s) = se_token s"
  shows "db_tokens (update_sessions p f db) = db_tokens db"
  unfolding db_tokens_def set_update_sessions image_image by (rule image_cong [OF refl]) (simp add: assms)

definition access_secs :: "crypto \<Rightarrow> exn + int" where
  "access_secs cr = durationToSeconds (env_or cr ''JWT_ACCESS_EXPIRATION'' DEFAULT_ACCESS_EXPIRATION)"

definition refresh_secs :: "crypto \<Rightarrow> exn + int" where
  "refresh_secs cr = durationToSeconds (env_or cr ''JWT_REFRESH_EXPIRATION'' DEFAULT_REFRESH_EXPIRATION)"

text \<open>A live row of a kind of token.\<close>

definition live_row :: "token_type \<Rightarrow> string \<Rightarrow> auth_db \<Rightarrow> session_row \<Rightarrow> bool" where
  "live_row ty h db s \<longleftrightarrow> find_session h db = Some s \<and> se_token s = h \<and> se_tokenType s = ty \<and> \<not> se_revoked s"

lemma mint_pair_ok:
  assumes "fresh_pair cr m user (db_tokens db)" and "access_secs cr = Inr sa" and "refresh_secs cr = Inr sr"
  shows "\<exists>p db' a r. mint_pair cr m user ip ua db = (Inr p, db') \<and> rt_userId p = tu_id user \<and>
    hashToken cr (rt_accessToken p) \<notin> db_tokens db \<and> hashToken cr (rt_refreshToken p) \<notin> db_tokens db \<and>
    live_row AccessToken (hashToken cr (rt_accessToken p)) db' a \<and>
    live_row RefreshToken (hashToken cr (rt_refreshToken p)) db' r \<and> se_expiresAt r = clock m + sr * 1000 \<and>
    (\<forall>h\<in>db_tokens db. find_session h db' = find_session h db)"
proof -
  let ?at = "jwt_sign cr (clock m) (access_payload m user) sa" and ?rt = "jwt_sign cr (clock m) (refresh_payload m user) sr"
  have f: "hashToken cr ?at \<notin> db_tokens db" "hashToken cr ?rt \<notin> db_tokens db" "hashToken cr ?at \<noteq> hashToken cr ?rt"
    using assms(1) unfolding fresh_pair_def by blast+
  define db1 where "db1 = storeTokenInSession cr ?at (tu_id user) AccessToken (clock m + sa * 1000) ip ua db"
  define db2 where "db2 = storeTokenInSession cr ?rt (tu_id user) RefreshToken (clock m + sr * 1000) ip ua db1"
  have r: "hashToken cr ?rt \<notin> db_tokens db1" unfolding db1_def using store_fresh(2) [OF f(1)] f(2,3) by simp
  have mint: "mint_pair cr m user ip ua db =
      (Inr \<lparr>rt_userId = tu_id user, rt_accessToken = ?at, rt_accessExpiresAt = clock m + sa * 1000, rt_refreshToken = ?rt,
         rt_refreshExpiresAt = clock m + sr * 1000\<rparr>, db2)"
    using assms(2,3) by (simp add: mint_pair_def generateAccessToken_def generateRefreshToken_def access_secs_def
        refresh_secs_def Let_def db1_def db2_def)
  have look: "find_session h db2 = (if h = hashToken cr ?rt then find_session (hashToken cr ?rt) db2
      else if h = hashToken cr ?at then find_session (hashToken cr ?at) db1 else find_session h db)" for h
    unfolding db2_def db1_def using find_session_store [OF r] find_session_store [OF f(1)] by (simp add: db1_def)
  have "\<exists>r. live_row RefreshToken (hashToken cr ?rt) db2 r \<and> se_expiresAt r = clock m + sr * 1000"
    unfolding db2_def live_row_def by (simp add: find_session_store [OF r])
  moreover have "\<exists>a. live_row AccessToken (hashToken cr ?at) db2 a"
    using f(3) by (simp add: live_row_def look) (simp add: db1_def find_session_store [OF f(1)])
  moreover have "\<forall>h\<in>db_tokens db. find_session h db2 = find_session h db"
    using f(1,2) look by metis
  ultimately show ?thesis using f mint by auto
qed

lemma decrypt_nonempty: "decryptReplacement cr ct = Some p \<Longrightarrow> ct \<noteq> []"
  by (auto simp: decryptReplacement_def)

text \<open>Claim, mint and store: what the whole rotation of a live token leaves behind.\<close>

lemma rotate_live:
  assumes p0: "presented cr (ms 0) raw db s" and "\<not> se_revoked s"
    and acc: "find_account (se_userId s) db = Some user" and fresh: "fresh_pair cr (ms 2) user (db_tokens db)"
    and secs: "access_secs cr = Inr sa" "refresh_secs cr = Inr sr"
  shows "\<exists>p db' a r. rotateRefreshToken cr ms ip ua raw db = (Some (Inr p), db') \<and> rt_userId p = se_userId s \<and>
    find_session (hashToken cr raw) db' =
      Some (if store_ok (ms 3)
            then (revoke_row (ms 1) s)\<lparr>se_replacementCiphertext := Some (encryptReplacement cr (ms 3) p)\<rparr>
            else revoke_row (ms 1) s) \<and>
    live_row AccessToken (hashToken cr (rt_accessToken p)) db' a \<and>
    live_row RefreshToken (hashToken cr (rt_refreshToken p)) db' r \<and> se_expiresAt r = clock (ms 2) + sr * 1000"
proof -
  let ?h = "hashToken cr raw" and ?u = "se_userId s"
  define db1 where "db1 = update_sessions (\<lambda>s. se_token s = ?h \<and> \<not> se_revoked s) (revoke_row (ms 1)) db"
  have s: "find_session ?h db = Some s" "se_token s = ?h" "s \<in> set (sessions db)"
    using p0 find_session_in [of ?h db s] by (auto simp: presented_def)
  have tok: "db_tokens db1 = db_tokens db" unfolding db1_def by (rule db_tokens_update) (simp add: revoke_row_def)
  have ht: "?h \<in> db_tokens db1" unfolding tok unfolding db_tokens_def using s(2,3) by (metis imageI)
  have old1: "find_session ?h db1 = Some (revoke_row (ms 1) s)"
    unfolding db1_def by (subst find_session_update) (use s assms(2) in \<open>simp_all add: revoke_row_def\<close>)
  have "count_where (\<lambda>s. se_token s = ?h \<and> \<not> se_revoked s) (sessions db) \<noteq> 0"
    using s(2,3) assms(2) by (auto simp: count_where_def filter_empty_conv)
  then have claim: "rot_steps cr ms (\<lambda>_ d. d) ip ua raw (Suc 0) db = (RotMint ?u, db1)"
    using assms(2) by (simp add: rot_begin_presented [OF p0] rot_next_def Let_def db1_def)
  obtain p db2 a r where mint: "mint_pair cr (ms 2) user ip ua db1 = (Inr p, db2)" "rt_userId p = tu_id user"
    and new: "hashToken cr (rt_accessToken p) \<notin> db_tokens db1" "hashToken cr (rt_refreshToken p) \<notin> db_tokens db1"
    and ar: "live_row AccessToken (hashToken cr (rt_accessToken p)) db2 a"
      "live_row RefreshToken (hashToken cr (rt_refreshToken p)) db2 r" "se_expiresAt r = clock (ms 2) + sr * 1000"
    and look: "\<forall>h\<in>db_tokens db1. find_session h db2 = find_session h db1"
    using mint_pair_ok [OF fresh [folded tok] secs, of ip ua] by blast
  have acc1: "find_account ?u db1 = Some user" using acc by (simp add: db1_def find_account_def update_sessions_def)
  have user: "tu_id user = ?u" using acc by (auto simp: find_account_def find_row_def find_Some_iff)
  have minted: "rot_steps cr ms (\<lambda>_ d. d) ip ua raw (Suc (Suc 0)) db = (RotStore p, db2)"
    unfolding rot_steps.simps(2) [of _ _ _ _ _ _ "Suc 0"] claim using acc1 mint by (simp add: rot_next_def numeral_2_eq_2)
  define ct where "ct = encryptReplacement cr (ms 3) p"
  define db3 where "db3 = (if store_ok (ms 3)
    then update_sessions (\<lambda>s. se_token s = ?h) (\<lambda>s. s\<lparr>se_replacementCiphertext := Some ct\<rparr>) db2 else db2)"
  have "rot_steps cr ms (\<lambda>_ d. d) ip ua raw (Suc (Suc (Suc 0))) db = (RotDone (Inr p), db3)"
    unfolding rot_steps.simps(2) [of _ _ _ _ _ _ "Suc (Suc 0)"] minted
    by (simp add: rot_next_def db3_def ct_def numeral_3_eq_3)
  then have "rotateRefreshToken cr ms ip ua raw db = (Some (Inr p), db3)" by (rule rotate_done) simp
  moreover have look3: "find_session h db3 = map_option (\<lambda>s. if store_ok (ms 3) \<and> se_token s = ?h
      then s\<lparr>se_replacementCiphertext := Some ct\<rparr> else s) (find_session h db2)" for h
    by (cases "store_ok (ms 3)") (simp_all add: db3_def find_session_update option.map_ident)
  moreover have "find_session ?h db2 = Some (revoke_row (ms 1) s)" using look ht old1 by simp
  moreover have "hashToken cr (rt_accessToken p) \<noteq> ?h" "hashToken cr (rt_refreshToken p) \<noteq> ?h" using new ht by metis+
  ultimately show ?thesis using mint(2) user s(2) ar
    by (intro exI [of _ p] exI [of _ db3] exI [of _ a] exI [of _ r]) (simp add: live_row_def ct_def revoke_row_def)
qed

lemma replay_stored:
  assumes "presented cr (ms 0) raw db s" and "se_revoked s" and "se_replacementCiphertext s = Some ct"
    and "decryptReplacement cr ct = Some p" and "rt_userId p = se_userId s"
    and "clock (ms 0) - revoked_ms s \<le> reuseGraceSeconds cr * 1000"
    and "live_row RefreshToken (hashToken cr (rt_refreshToken p)) db r" and "clock (ms 1) < se_expiresAt r"
  shows "rotateRefreshToken cr ms ip ua raw db = (Some (Inr p), db)"
proof -
  have ct: "ct \<noteq> []" by (rule decrypt_nonempty [OF assms(4)])
  have "replayReplacement cr (ms (Suc 0)) (Some ct) (se_userId s) db = Some p"
    using assms(4,5,7,8) ct by (simp add: replayReplacement_def truthy_str_def live_row_def)
  then have "rot_steps cr ms (\<lambda>_ d. d) ip ua raw 1 db = (RotDone (Inr p), db)"
    using assms(2,3,6) ct by (simp add: rot_begin_presented [OF assms(1)] rot_next_def truthy_str_def)
  then show ?thesis by (rule rotate_done) simp
qed

text \<open>
  C35. Rotation works and its answer can be fetched again: a live refresh token whose user exists is
  exchanged for a pair of the same user whose access and refresh tokens are stored and live, and is
  itself revoked. When the update that remembers the pair succeeded and the token is presented again
  with nothing done to the sessions in between, within the grace window and before the new refresh
  token has expired, the answer is the very same pair and nothing changes. (Without that update the
  second presentation fails, \<open>unstored_pair_is_lost\<close>; a sign-out in between closes the replay,
  \<open>logout_all_final\<close>.)
\<close>

theorem rotate_then_replay:
  assumes "crypto_ok cr" and "presented cr (ms 0) raw db s" and "\<not> se_revoked s"
    and "find_account (se_userId s) db = Some user" and "fresh_pair cr (ms 2) user (db_tokens db)"
    and "length (random_iv (ms 3)) = 12" and "access_secs cr = Inr sa" and "refresh_secs cr = Inr sr"
    and "store_ok (ms 3)"
    and "case jwt_verify cr (clock (ms' 0)) raw of None \<Rightarrow> False | Some q \<Rightarrow> jp_type q = RefreshToken"
    and "clock (ms' 0) - clock (ms 1) \<le> reuseGraceSeconds cr * 1000"
    and "clock (ms' 1) < clock (ms 2) + sr * 1000"
  shows "\<exists>p db' old a r. rotateRefreshToken cr ms ip ua raw db = (Some (Inr p), db') \<and> rt_userId p = se_userId s \<and>
    find_session (hashToken cr raw) db' = Some old \<and> se_revoked old \<and>
    live_row AccessToken (hashToken cr (rt_accessToken p)) db' a \<and>
    live_row RefreshToken (hashToken cr (rt_refreshToken p)) db' r \<and>
    rotateRefreshToken cr ms' ip' ua' raw db' = (Some (Inr p), db')"
proof -
  obtain p db' a r where rot: "rotateRefreshToken cr ms ip ua raw db = (Some (Inr p), db')" "rt_userId p = se_userId s"
    and old: "find_session (hashToken cr raw) db' =
      Some ((revoke_row (ms 1) s)\<lparr>se_replacementCiphertext := Some (encryptReplacement cr (ms 3) p)\<rparr>)"
    and ar: "live_row AccessToken (hashToken cr (rt_accessToken p)) db' a"
      "live_row RefreshToken (hashToken cr (rt_refreshToken p)) db' r" "se_expiresAt r = clock (ms 2) + sr * 1000"
    using rotate_live [OF assms(2-5,7,8), of ip ua] assms(9) by auto
  let ?old = "(revoke_row (ms 1) s)\<lparr>se_replacementCiphertext := Some (encryptReplacement cr (ms 3) p)\<rparr>"
  have "presented cr (ms' 0) raw db' ?old" using assms(2,10) old by (simp add: presented_def revoke_row_def)
  then have "rotateRefreshToken cr ms' ip' ua' raw db' = (Some (Inr p), db')"
    by (rule replay_stored [OF _ _ _ decrypt_encrypt [OF assms(1,6)] _ _ ar(2)])
      (use assms(11,12) rot(2) ar(3) in \<open>simp_all add: revoke_row_def revoked_ms_def\<close>)
  moreover have "se_revoked ?old" by (simp add: revoke_row_def)
  ultimately show ?thesis using rot old ar(1,2) by blast
qed

definition demo_moments :: "time \<Rightarrow> nat \<Rightarrow> moment" where
  "demo_moments t n = demo_moment (t + int n) ''n''"

theorem rotate_then_replay_witness:
  "\<exists>p db'. rotateRefreshToken demo_crypto (demo_moments 10) None None ''r:7:old'' (ts_db demo_tokens) = (Some (Inr p), db') \<and>
     rotateRefreshToken demo_crypto (demo_moments 2000) None None ''r:7:old'' db' = (Some (Inr p), db')"
proof -
  have h: "presented demo_crypto (demo_moments 10 0) ''r:7:old'' (ts_db demo_tokens) (demo_live_row ''r:7:old'' RefreshToken)"
    "\<not> se_revoked (demo_live_row ''r:7:old'' RefreshToken)"
    "length (random_iv (demo_moments 10 3)) = 12" "access_secs demo_crypto = Inr 900" "refresh_secs demo_crypto = Inr 2592000"
    "clock (demo_moments 2000 0) - clock (demo_moments 10 1) \<le> reuseGraceSeconds demo_crypto * 1000"
    "clock (demo_moments 2000 1) < clock (demo_moments 10 2) + 2592000 * 1000"
    "case jwt_verify demo_crypto (clock (demo_moments 2000 0)) ''r:7:old'' of None \<Rightarrow> False | Some q \<Rightarrow> jp_type q = RefreshToken"
    "store_ok (demo_moments 10 3)"
    by code_simp+
  have acc: "find_account (se_userId (demo_live_row ''r:7:old'' RefreshToken)) (ts_db demo_tokens) = Some demo_account"
    by (simp add: find_account_def find_row_def demo_live_row_def demo_tokens_def demo_account_def)
  have fresh: "fresh_pair demo_crypto (demo_moments 10 2) demo_account (db_tokens (ts_db demo_tokens))"
    by (simp add: fresh_pair_def db_tokens_def demo_tokens_def demo_live_row_def demo_crypto_def demo_sign_def hashToken_def
        access_payload_def refresh_payload_def demo_moments_def demo_moment_def demo_account_def show_int_def show_nat.simps)
  show ?thesis
    using rotate_then_replay [OF demo_crypto_ok h(1,2) acc fresh h(3,4,5,9,8,6,7), of None None None None] by blast
qed

section \<open>After every session was revoked\<close>

text \<open>A revoked row without a stored pair, and the phases a request for it can be in.\<close>

definition dead_row :: "string \<Rightarrow> auth_db \<Rightarrow> bool" where
  "dead_row h db \<longleftrightarrow> (\<exists>s. find_session h db = Some s \<and> se_revoked s \<and> se_replacementCiphertext s = None)"

definition hopeless :: "rot_phase \<Rightarrow> bool" where
  "hopeless ph = (case ph of RotRevokeAll _ \<Rightarrow> True | RotWait _ None _ _ \<Rightarrow> True | RotDone (Inl _) \<Rightarrow> True | _ \<Rightarrow> False)"

lemma hopeless_begin: "dead_row (hashToken cr raw) db \<Longrightarrow> hopeless (rot_begin cr m raw db)"
  by (auto simp: dead_row_def hopeless_def rot_begin_def Let_def split: option.splits)

lemma dead_row_revoke_all: "dead_row h db \<Longrightarrow> dead_row h (snd (revokeAllUserTokens cr m u x db))"
proof -
  assume "dead_row h db"
  then obtain s where "find_session h db = Some s" "se_revoked s" "se_replacementCiphertext s = None"
    unfolding dead_row_def by blast
  then show ?thesis unfolding dead_row_def find_session_revoke_all by (simp add: Let_def)
qed

lemma hopeless_next:
  assumes "dead_row (hashToken cr raw) db" and "hopeless ph" and "rot_next cr m ip ua raw ph db = (ph', db')"
  shows "hopeless ph' \<and> dead_row (hashToken cr raw) db'"
proof (cases ph)
  case (RotRevokeAll u)
  then show ?thesis using assms(1,3) dead_row_revoke_all by (auto simp: rot_next_def hopeless_def)
next
  case (RotWait u ct w n)
  then show ?thesis using assms
    by (auto simp: rot_next_def hopeless_def truthy_str_def dead_row_def split: option.splits if_splits)
qed (use assms in \<open>auto simp: hopeless_def rot_next_def split: sum.splits\<close>)

lemma hopeless_steps:
  assumes "dead_row (hashToken cr raw) db"
  shows "hopeless (fst (rot_steps cr ms (\<lambda>_ d. d) ip ua raw n db)) \<and>
    dead_row (hashToken cr raw) (snd (rot_steps cr ms (\<lambda>_ d. d) ip ua raw n db))"
proof (induction n)
  case (Suc n)
  then show ?case using hopeless_next by (simp add: split_beta) (metis prod.collapse)
qed (simp add: Let_def hopeless_begin assms)

lemma dead_row_refused:
  assumes "dead_row (hashToken cr raw) db"
  shows "\<exists>e db'. rotateRefreshToken cr ms ip ua raw db = (Some (Inl e), db')"
proof -
  obtain ph db' where st: "rot_steps cr ms (\<lambda>_ d. d) ip ua raw 10 db = (ph, db')" by fastforce
  have "hopeless ph" using hopeless_steps [OF assms, of ms ip ua 10] st by simp
  moreover obtain r where "ph = RotDone r" using steps_done [of cr ms "\<lambda>_ d. d" ip ua raw 2 db] st by auto
  ultimately show ?thesis using st by (auto simp: rotateRefreshToken_def hopeless_def split: sum.splits)
qed

text \<open>
  Signing out everywhere is final: after all sessions of a user were revoked, no token stored for
  that user is accepted again. Every access check of such a token fails and changes nothing, and every
  refresh request for it, at any later time and whatever the grace window, ends in an error.
\<close>

theorem logout_all_final:
  assumes "find_session (hashToken cr raw) db = Some s" and "se_userId s = u"
    and "db' = snd (revokeAllUserTokens cr m u None db)"
  shows "(\<forall>m'. \<exists>e. validateAccessToken cr m' raw db' = (Inl e, db')) \<and>
    (\<forall>ms ip ua. \<exists>e db''. rotateRefreshToken cr ms ip ua raw db' = (Some (Inl e), db''))"
proof -
  have dead: "dead_row (hashToken cr raw) db'"
    unfolding dead_row_def assms(3) find_session_revoke_all
    using assms(1,2) by (simp add: Let_def truthy_str_def revoke_row_def)
  have "\<exists>e. validateAccessToken cr m' raw db' = (Inl e, db')" for m'
    using dead by (auto simp: validateAccessToken_def dead_row_def split: option.splits)
  then show ?thesis using dead_row_refused [OF dead] by blast
qed

theorem logout_all_final_witness:
  "\<exists>e. validateAccessToken demo_crypto (demo_moment 9 ''n'') ''a:7:z'' (snd (revokeAllUserTokens demo_crypto (demo_moment 8 ''n'') 7 None demo_stale)) =
     (Inl e, snd (revokeAllUserTokens demo_crypto (demo_moment 8 ''n'') 7 None demo_stale))"
proof -
  have f: "find_session (hashToken demo_crypto ''a:7:z'') demo_stale = Some (demo_live_row ''a:7:z'' AccessToken)"
    by (simp add: find_session_def demo_stale_def demo_stale_row_def demo_live_row_def hashToken_def demo_crypto_def)
  have "se_userId (demo_live_row ''a:7:z'' AccessToken) = 7" by (simp add: demo_live_row_def)
  from logout_all_final [OF f this refl] show ?thesis by blast
qed

text \<open>
  When the update that remembers the new pair fails, the failure is caught and the pair is answered;
  the second presentation of the token then ends in an error, at whatever time it comes.
\<close>

lemma unstored_pair_is_lost:
  assumes "presented cr (ms 0) raw db s" and "\<not> se_revoked s" and "se_replacementCiphertext s = None"
    and "find_account (se_userId s) db = Some user" and "fresh_pair cr (ms 2) user (db_tokens db)"
    and "access_secs cr = Inr sa" and "refresh_secs cr = Inr sr" and "\<not> store_ok (ms 3)"
  shows "\<exists>p db' x db''. rotateRefreshToken cr ms ip ua raw db = (Some (Inr p), db') \<and>
    rotateRefreshToken cr ms' ip' ua' raw db' = (Some (Inl x), db'')"
proof -
  obtain p db' where rot: "rotateRefreshToken cr ms ip ua raw db = (Some (Inr p), db')"
    "find_session (hashToken cr raw) db' = Some (revoke_row (ms 1) s)"
    using rotate_live [OF assms(1,2,4-7), of ip ua] assms(8) by auto
  then have "dead_row (hashToken cr raw) db'" using assms(3) by (simp add: dead_row_def revoke_row_def)
  then show ?thesis using rot(1) dead_row_refused by blast
qed

text \<open>
  The guarantee is about stored tokens only. A request that has already claimed its token when every
  session of the user is revoked goes on to mint a pair, whose refresh token is live afterwards.
\<close>

lemma logout_all_race:
  assumes r: "ts_req st r = Some (raw, RotMint u)" and acc: "find_account u (ts_db st) = Some user"
    and secs: "access_secs cr = Inr sa" "refresh_secs cr = Inr sr" and iv: "length (random_iv m') = 12"
    and fresh: "fresh_pair cr m' user (ts_seen st \<union> db_tokens (ts_db st))"
  shows "\<exists>st1 st2 s. token_step cr st st1 \<and> ts_db st1 = snd (revokeAllUserTokens cr m u None (ts_db st)) \<and>
    token_step cr st1 st2 \<and> s \<in> set (sessions (ts_db st2)) \<and> se_tokenType s = RefreshToken \<and> \<not> se_revoked s"
proof -
  define db1 where "db1 = snd (revokeAllUserTokens cr m u None (ts_db st))"
  define st1 where "st1 = put_db db1 st"
  have s1: "token_step cr st st1" unfolding st1_def db1_def by (rule token_step.sign_out_all)
  have tok: "db_tokens db1 = db_tokens (ts_db st)"
    unfolding db1_def revokeAllUserTokens_def Let_def snd_conv by (simp add: db_tokens_update revoke_row_def)
  have acc1: "find_account u (ts_db st1) = Some user"
    using acc by (simp add: st1_def db1_def find_account_def revokeAllUserTokens_def update_sessions_def Let_def)
  have fr: "fresh_pair cr m' user (ts_seen st1)" "fresh_pair cr m' user (db_tokens db1)"
    using fresh unfolding fresh_pair_def st1_def by (simp_all add: tok)
  obtain p db2 s where mint: "mint_pair cr m' user None None db1 = (Inr p, db2)"
    and live: "live_row RefreshToken (hashToken cr (rt_refreshToken p)) db2 s"
    using mint_pair_ok [OF fr(2) secs, of None None] by blast
  have n: "rot_next cr m' None None raw (RotMint u) (ts_db st1) = (RotStore p, db2)"
    using acc1 mint by (simp add: rot_next_def st1_def)
  have r1: "ts_req st1 r = Some (raw, RotMint u)" using r by (simp add: st1_def)
  define st2 where "st2 = (put_db db2 st1)\<lparr>ts_req := (ts_req st1)(r \<mapsto> (raw, RotStore p)),
      ts_answers := ts_answers st1 @ new_answer (hashToken cr raw) (RotMint u) (RotStore p)\<rparr>"
  have s2: "token_step cr st1 st2"
    unfolding st2_def by (rule token_step.advance [OF r1 n iv]) (use fr(1) acc1 in auto)
  have db2: "ts_db st2 = db2" "ts_db st1 = db1" by (simp_all add: st2_def st1_def)
  have "s \<in> set (sessions db2)" "se_tokenType s = RefreshToken" "\<not> se_revoked s"
    using live find_session_in unfolding live_row_def by blast+
  then show ?thesis using s1 s2 unfolding db1_def [symmetric] db2(1) [symmetric] using db2(2) by blast
qed

end
