(* ===== verification/GuardProperties.thy ===== *)
theory GuardProperties
  imports Guards TokenProperties
begin

text \<open>
  What the guards and the session endpoints guarantee: who reaches a handler, that signing out ends a
  session, and what refreshing can answer.
\<close>

section \<open>Who reaches a handler\<close>

lemma validate_accepted:
  "validateAccessToken cr m t db = (Inr u, db') \<Longrightarrow>
   \<exists>p s a. jwt_verify cr (clock m) t = Some p \<and> jp_type p = AccessToken \<and> find_session (hashToken cr t) db = Some s \<and>
     \<not> se_revoked s \<and> find_account (se_userId s) db = Some a \<and>
     \<not> (tu_banned a \<and> (case tu_banExpires a of None \<Rightarrow> True | Some x \<Rightarrow> x > clock m)) \<and> u = token_user_of a"
  by (auto simp: validateAccessToken_def split: option.splits if_splits)

text \<open>Checking a token again at once answers the same user and changes nothing.\<close>

lemma validate_again:
  assumes "validateAccessToken cr m t db = (Inr u, db')"
  shows "validateAccessToken cr m t db' = (Inr u, db')"
proof -
  obtain p s a where v: "jwt_verify cr (clock m) t = Some p" "jp_type p = AccessToken" "find_session (hashToken cr t) db = Some s"
    "\<not> se_revoked s" "find_account (se_userId s) db = Some a"
    "\<not> (tu_banned a \<and> (case tu_banExpires a of None \<Rightarrow> True | Some x \<Rightarrow> x > clock m))" "u = token_user_of a"
    using validate_accepted [OF assms] by blast
  show ?thesis
  proof (cases "tu_banned a")
    case True
    then have db': "db' = db\<lparr>accounts := update_where (\<lambda>u. tu_id u = se_userId s) unban (accounts db)\<rparr>"
      using assms v by (auto simp: validateAccessToken_def)
    have "find_account (se_userId s) db' = Some (unban a)" "find_session (hashToken cr t) db' = Some s"
      using v(3,5) by (simp_all add: db' find_account_def find_session_def find_row_put unban_def)
    then show ?thesis using v by (simp add: validateAccessToken_def unban_def token_user_of_def)
  next
    case False
    then have "db' = db" using assms v by (simp add: validateAccessToken_def)
    then show ?thesis using assms by simp
  qed
qed

text \<open>Once the global bearer guard has attached the user, the other guards decide but change nothing.\<close>

lemma guards_after_bearer:
  assumes "run_guards cr m rt gs rq db = (Inr rq', db')" and "\<not> rr_anonymous rt"
    and "extractTokenFromHeader rq = Some t" and "validateAccessToken cr m t db = (Inr u, db)"
    and "rq_user rq = Some u" and "rq_session rq = Some u"
  shows "rq' = rq \<and> db' = db \<and> (RolesGuard \<in> set gs \<longrightarrow> rolesCanActivate rt rq = Inr ()) \<and>
    (MinUserLevelGuard \<in> set gs \<longrightarrow> minLevelCanActivate rt rq = Inr ())"
  using assms(1)
proof (induction gs)
  case (Cons g gs)
  have b: "bearerCanActivate cr m rt rq db = (Inr rq, db)"
    using assms(2-6) by (simp add: bearerCanActivate_def)
  have "run_guard cr m rt g rq db = (Inr rq, db)"
    using Cons.prems b by (cases g) (auto simp: run_guard_def split: sum.splits prod.splits)
  then show ?case
    using Cons by (cases g) (auto simp: run_guard_def split: sum.splits)
qed simp

lemma token_of_attached [simp]:
  "extractTokenFromHeader (rq\<lparr>rq_user := a, rq_session := b\<rparr>) = extractTokenFromHeader rq"
  by (simp add: extractTokenFromHeader_def cong: if_cong)

lemma guarded_bearer:
  assumes "guarded cr m rt rq db = (Inr rq', db')" and "\<not> rr_anonymous rt"
  shows "\<exists>t u. extractTokenFromHeader rq = Some t \<and> validateAccessToken cr m t db = (Inr u, db') \<and>
    rq' = rq\<lparr>rq_user := Some u, rq_session := Some u\<rparr> \<and>
    (RolesGuard \<in> set (rr_guards rt) \<longrightarrow> rolesCanActivate rt rq' = Inr ()) \<and>
    (MinUserLevelGuard \<in> set (rr_guards rt) \<longrightarrow> minLevelCanActivate rt rq' = Inr ())"
proof -
  obtain t u db1 where t: "extractTokenFromHeader rq = Some t" "validateAccessToken cr m t db = (Inr u, db1)"
    and g: "run_guards cr m rt (rr_guards rt) (rq\<lparr>rq_user := Some u, rq_session := Some u\<rparr>) db1 = (Inr rq', db')"
    using assms
    by (auto simp: guarded_def run_guard_def bearerCanActivate_def split: option.splits prod.splits sum.splits)
  show ?thesis
    using guards_after_bearer [OF g assms(2), of t u] t validate_again [OF t(2)] by auto
qed

text \<open>
  C11. Protected routes: a handler that is not marked anonymous runs only for a request with a bearer
  token that is signed as an access token, is stored and not revoked, and belongs to an existing
  user who is not banned at that moment; the user and the session attached to the request are that
  user with the active roles and gates only. If the route lists the role guard and names roles, one of
  the user's active roles is among them, and if it lists the level guard and names a level, one of them
  is at least as privileged. Naming roles alone checks nothing: \<open>audit_log_open\<close> is a controller
  that names one and lists no role guard.
\<close>

theorem protected_routes:
  assumes "guarded cr m rt rq db = (Inr rq', db')" and "\<not> rr_anonymous rt"
  shows "\<exists>t p s a. extractTokenFromHeader rq = Some t \<and> jwt_verify cr (clock m) t = Some p \<and> jp_type p = AccessToken \<and>
    find_session (hashToken cr t) db = Some s \<and> \<not> se_revoked s \<and> find_account (se_userId s) db = Some a \<and>
    \<not> (tu_banned a \<and> (case tu_banExpires a of None \<Rightarrow> True | Some x \<Rightarrow> x > clock m)) \<and>
    rq_user rq' = Some (token_user_of a) \<and> rq_session rq' = Some (token_user_of a) \<and>
    (RolesGuard \<in> set (rr_guards rt) \<and> rr_roles rt \<noteq> [] \<longrightarrow>
       (\<exists>r\<in>set (tu_roles a). ro_active r \<and> ro_slug r \<in> set (rr_roles rt))) \<and>
    (\<forall>l. MinUserLevelGuard \<in> set (rr_guards rt) \<and> rr_minLevel rt = Some l \<longrightarrow>
       (\<exists>r\<in>set (tu_roles a). ro_active r \<and> ro_level r \<le> l))"
proof -
  obtain t u where t: "extractTokenFromHeader rq = Some t" "validateAccessToken cr m t db = (Inr u, db')"
    and rq': "rq_user rq' = Some u" "rq_session rq' = Some u"
    and g: "RolesGuard \<in> set (rr_guards rt) \<Longrightarrow> rolesCanActivate rt rq' = Inr ()"
      "MinUserLevelGuard \<in> set (rr_guards rt) \<Longrightarrow> minLevelCanActivate rt rq' = Inr ()"
    using guarded_bearer [OF assms] by auto
  obtain p s a where a: "jwt_verify cr (clock m) t = Some p" "jp_type p = AccessToken" "find_session (hashToken cr t) db = Some s"
    "\<not> se_revoked s" "find_account (se_userId s) db = Some a"
    "\<not> (tu_banned a \<and> (case tu_banExpires a of None \<Rightarrow> True | Some x \<Rightarrow> x > clock m))" "u = token_user_of a"
    using validate_accepted [OF t(2)] by blast
  have roles: "\<exists>r\<in>set (tu_roles a). ro_active r \<and> ro_slug r \<in> set (rr_roles rt)"
    if "RolesGuard \<in> set (rr_guards rt) \<and> rr_roles rt \<noteq> []"
    using g(1) that assms(2) rq'(1) a(7)
    by (auto simp: rolesCanActivate_def token_user_of_def list_ex_iff split: if_splits)
  have level: "\<exists>r\<in>set (tu_roles a). ro_active r \<and> ro_level r \<le> l"
    if "MinUserLevelGuard \<in> set (rr_guards rt) \<and> rr_minLevel rt = Some l" for l
    using g(2) that assms(2) rq'(1) a(7)
    by (auto simp: minLevelCanActivate_def userHasMinLevel_def token_user_of_def list_ex_iff split: if_splits)
  show ?thesis using t(1) a rq' roles level by blast
qed

definition demo_route :: route where
  "demo_route = \<lparr>rr_guards = [RolesGuard, MinUserLevelGuard], rr_anonymous = False, rr_clientKey = False,
     rr_roles = [''admin''], rr_minLevel = Some 10\<rparr>"

definition demo_request :: http_request where
  "demo_request = \<lparr>rq_authorization = Some ''Bearer a:7:z'', rq_client_key = None, rq_forwarded_for = None,
     rq_user_agent = None, rq_ips = [], rq_ip = None, rq_remoteAddress = None, rq_user = None, rq_session = None\<rparr>"

definition demo_admin_db :: auth_db where
  "demo_admin_db = \<lparr>sessions = [demo_live_row ''a:7:z'' AccessToken],
     accounts = [demo_account\<lparr>tu_roles := [\<lparr>ro_id = 1, ro_slug = ''admin'', ro_name = ''A'', ro_level = 5, ro_active = True\<rparr>]\<rparr>]\<rparr>"

theorem protected_routes_witness:
  "\<exists>rq' db' s. guarded demo_crypto (demo_moment 9 ''n'') demo_route demo_request demo_admin_db = (Inr rq', db') \<and>
     find_session ''ha:7:z'' demo_admin_db = Some s \<and> \<not> se_revoked s"
proof -
  have ok: "is_ok (fst (guarded demo_crypto (demo_moment 9 ''n'') demo_route demo_request demo_admin_db))"
    "extractTokenFromHeader demo_request = Some ''a:7:z''" "\<not> rr_anonymous demo_route" by code_simp+
  obtain rq' db' where g: "guarded demo_crypto (demo_moment 9 ''n'') demo_route demo_request demo_admin_db = (Inr rq', db')"
    using ok(1) by (metis is_okE prod.collapse)
  have h: "hashToken demo_crypto ''a:7:z'' = ''ha:7:z''" by (simp add: hashToken_def demo_crypto_def)
  show ?thesis using protected_routes [OF g ok(3)] g unfolding ok(2) by (metis h option.inject)
qed

section \<open>Client keys and throttling\<close>

text \<open>Without a signed-in user a guarded route opens only to a configured key; it fails closed.\<close>

lemma client_key_gate:
  assumes "rr_clientKey rt" and "\<not> has_user rq"
  shows "clientKeyCanActivate cr rt rq = Inr () \<longleftrightarrow>
    (\<exists>k. extractHeader rq = Some k \<and> k \<noteq> [] \<and> k \<in> set (getConfiguredClientKeys cr))"
  using assms
  by (cases "extractHeader rq")
    (auto simp: clientKeyCanActivate_def truthy_str_def isValidClientKey_def list_ex_iff Let_def)

text \<open>Signed-in users have buckets of their own, whatever their headers say.\<close>

lemma tracker_per_user:
  assumes "has_user rq" and "has_user rq'"
  shows "getTracker cr rq = getTracker cr rq' \<longleftrightarrow> ku_id (the (rq_user rq)) = ku_id (the (rq_user rq'))"
  using assms by (auto simp: getTracker_def)

text \<open>
  The key that selects an anonymous bucket is not checked: the address of the caller plays no part as
  soon as any key is presented, so an unknown caller leaves its bucket by inventing another key.
\<close>

lemma invented_key_new_bucket:
  assumes "\<not> has_user rq" and "k \<noteq> []" and "k' \<noteq> []" and "\<not> isValidClientKey cr k" and "\<not> isValidClientKey cr k'"
    and "take 16 (sha256_hex cr k) \<noteq> take 16 (sha256_hex cr k')"
  shows "getTracker cr (rq\<lparr>rq_client_key := Some (HStr k)\<rparr>) \<noteq> getTracker cr (rq\<lparr>rq_client_key := Some (HStr k')\<rparr>)"
  using assms by (simp add: getTracker_def has_user_def firstHeader_def Let_def)

section \<open>Signing out\<close>

lemma find_session_revoke:
  "find_session h (snd (revokeToken cr m t db)) =
     map_option (\<lambda>s. if se_token s = hashToken cr t \<and> \<not> se_revoked s then revoke_row m s else s) (find_session h db)"
  unfolding revokeToken_def Let_def snd_conv by (rule find_session_update) (simp add: revoke_row_def)

lemma find_session_validate: "find_session h (snd (validateAccessToken cr m t db)) = find_session h db"
  by (simp add: validateAccessToken_def find_session_def split: option.split)

lemma revoked_access_refused:
  assumes "find_session (hashToken cr t) db = Some s" and "se_revoked s"
  shows "\<exists>x. validateAccessToken cr m t db = (Inl x, db)"
  using assms by (auto simp: validateAccessToken_def split: option.splits)

lemma dead_never_rotates:
  assumes "dead_row (hashToken cr raw) db"
  shows "\<exists>x db'. rotateRefreshToken cr ms ip ua raw db = (Some (Inl x), db')"
proof -
  obtain ph db' where st: "rot_steps cr ms (\<lambda>_ d. d) ip ua raw 10 db = (ph, db')" by fastforce
  have "hopeless ph" using hopeless_steps [OF assms, of ms ip ua 10] st by simp
  moreover obtain r where "ph = RotDone r" using steps_done [of cr ms "\<lambda>_ d. d" ip ua raw 2 db] st by auto
  ultimately show ?thesis using st by (auto simp: rotateRefreshToken_def hopeless_def split: sum.splits)
qed

text \<open>
  Signing out ends the session: provided the cookie library touches only its own sessions, after a
  logout that carries a stored access token and a stored, not yet exchanged refresh token, every
  later access check of the access token fails and every later refresh with the refresh token ends
  in an error, whether or not the access token was still valid; the endpoint itself always succeeds.
\<close>

theorem logout_ends_session:
  assumes "\<And>h d. find_session h (sign_out d) = find_session h d"
    and "bearerFromRequest rq = Some a" and "find_session (hashToken cr a) db = Some sa"
    and "truthy_str (Some r)" and "find_session (hashToken cr r) db = Some sr" and "se_replacementCiphertext sr = None"
  shows "\<exists>au db'. logout cr sign_out m rq (Some r) db = ((''Logout successful'', au), db') \<and>
    (\<forall>m'. \<exists>x. validateAccessToken cr m' a db' = (Inl x, db')) \<and>
    (\<forall>ms ip ua. \<exists>x db''. rotateRefreshToken cr ms ip ua r db' = (Some (Inl x), db''))"
proof -
  let ?db1 = "snd (validateAccessToken cr m a db)"
  let ?db' = "sign_out (snd (revokeToken cr m r (snd (revokeToken cr m a ?db1))))"
  obtain au where l: "logout cr sign_out m rq (Some r) db = ((''Logout successful'', au), ?db')"
    using assms(2,4) by (cases "validateAccessToken cr m a db"; cases "fst (validateAccessToken cr m a db)")
      (simp_all add: logout_def Let_def)
  have look: "find_session h ?db' = map_option (\<lambda>s. if se_token s = hashToken cr r \<and> \<not> se_revoked s then revoke_row m s else s)
      (map_option (\<lambda>s. if se_token s = hashToken cr a \<and> \<not> se_revoked s then revoke_row m s else s) (find_session h db))" for h
    by (simp add: assms(1) find_session_revoke find_session_validate)
  have ta: "se_token sa = hashToken cr a" "se_token sr = hashToken cr r"
    using assms(3,5) find_session_in by blast+
  have "\<exists>s. find_session (hashToken cr a) ?db' = Some s \<and> se_revoked s"
    using assms(3) ta(1) by (auto simp: look revoke_row_def)
  then have "\<exists>x. validateAccessToken cr m' a ?db' = (Inl x, ?db')" for m'
    using revoked_access_refused by blast
  moreover have "dead_row (hashToken cr r) ?db'"
    unfolding dead_row_def look using assms(5,6) ta(2) by (auto simp: revoke_row_def)
  then have "\<exists>x db''. rotateRefreshToken cr ms ip ua r ?db' = (Some (Inl x), db'')" for ms ip ua
    by (rule dead_never_rotates)
  ultimately show ?thesis using l by blast
qed

definition demo_pair_db :: auth_db where
  "demo_pair_db = \<lparr>sessions = [demo_live_row ''a:7:z'' AccessToken, demo_live_row ''r:7:z'' RefreshToken], accounts = [demo_account]\<rparr>"

theorem logout_ends_session_witness:
  "\<exists>au db' x. logout demo_crypto (\<lambda>d. d) (demo_moment 9 ''n'') demo_request (Some ''r:7:z'') demo_pair_db = ((''Logout successful'', au), db') \<and>
     validateAccessToken demo_crypto (demo_moment 10 ''n'') ''a:7:z'' db' = (Inl x, db')"
proof -
  have b: "bearerFromRequest demo_request = Some ''a:7:z''" by code_simp
  have f: "find_session (hashToken demo_crypto ''a:7:z'') demo_pair_db = Some (demo_live_row ''a:7:z'' AccessToken)"
    "find_session (hashToken demo_crypto ''r:7:z'') demo_pair_db = Some (demo_live_row ''r:7:z'' RefreshToken)"
    by (simp_all add: find_session_def demo_pair_db_def demo_live_row_def hashToken_def demo_crypto_def)
  have c: "se_replacementCiphertext (demo_live_row ''r:7:z'' RefreshToken) = None" by (simp add: demo_live_row_def)
  have "truthy_str (Some ''r:7:z'')" by (simp add: truthy_str_def)
  from logout_ends_session [of "\<lambda>d. d", OF refl b f(1) this f(2) c] show ?thesis by blast
qed

section \<open>Refreshing\<close>

definition user_revoked :: "id \<Rightarrow> auth_db \<Rightarrow> bool" where
  "user_revoked u db \<longleftrightarrow> list_all (\<lambda>s. se_userId s \<noteq> u \<or> se_revoked s) (sessions db)"

lemma user_revoked_all: "user_revoked u (snd (revokeAllUserTokens cr m u None db))"
  unfolding user_revoked_def list_all_iff revokeAllUserTokens_def Let_def snd_conv set_update_sessions ball_simps
  by (simp add: truthy_str_def revoke_row_def)

lemma duration_error: "durationToSeconds d = Inl x \<Longrightarrow> \<exists>s. x = Error s"
  by (auto simp: durationToSeconds_def Let_def split: if_splits)

lemma mint_error: "mint_pair cr m user ip ua db = (Inl x, db') \<Longrightarrow> \<exists>s. x = Error s"
  using duration_error
  by (auto simp: mint_pair_def generateAccessToken_def generateRefreshToken_def Let_def split: sum.splits prod.splits)

lemma rot_begin_reuse: "rot_begin cr m raw db \<noteq> RotDone (Inl (RefreshTokenReuseError u))"
  by (auto simp: rot_begin_def Let_def split: option.splits)

lemma rot_next_reuse:
  assumes "rot_next cr m ip ua raw ph db = (RotDone (Inl (RefreshTokenReuseError u)), db')"
    and "ph = RotDone (Inl (RefreshTokenReuseError u)) \<Longrightarrow> user_revoked u db"
  shows "user_revoked u db'"
proof (cases ph)
  case (RotRevokeAll v)
  then show ?thesis using assms(1) user_revoked_all by (auto simp: rot_next_def)
next
  case (RotMint v)
  then obtain user where "mint_pair cr m user ip ua db = (Inl (RefreshTokenReuseError u), db')"
    using assms(1) by (auto simp: rot_next_def split: option.splits prod.splits sum.splits)
  then show ?thesis using mint_error by blast
next
  case (RotWait v ct w n)
  then show ?thesis using assms(1)
    by (auto simp: rot_next_def already_used_def split: option.splits if_splits)
qed (use assms in \<open>auto simp: rot_next_def Let_def split: if_splits\<close>)

lemma rot_steps_reuse:
  "rot_steps cr ms (\<lambda>_ d. d) ip ua raw n db = (RotDone (Inl (RefreshTokenReuseError u)), db') \<Longrightarrow> user_revoked u db'"
proof (induction n arbitrary: db')
  case 0
  then show ?case using rot_begin_reuse by (simp add: Let_def)
next
  case (Suc n)
  obtain ph d where s: "rot_steps cr ms (\<lambda>_ d. d) ip ua raw n db = (ph, d)" by fastforce
  have "rot_next cr (ms (Suc n)) ip ua raw ph d = (RotDone (Inl (RefreshTokenReuseError u)), db')"
    using Suc.prems s by simp
  moreover have "user_revoked u d" if "ph = RotDone (Inl (RefreshTokenReuseError u))" using Suc.IH s that by blast
  ultimately show ?case by (rule rot_next_reuse)
qed

text \<open>
  What the refresh endpoint answers: it always answers; the answer is a new or replayed pair, a 400
  for a missing token, or a 401. A 401 for reuse is exactly the case that is audited, with the user
  named by the error, and then every session of that user is revoked.
\<close>

theorem refresh_endpoint_answers:
  "\<exists>r au db'. refreshToken cr ms rq body db = (Some r, au, db') \<and>
     (case r of
        Inr resp \<Rightarrow> au = [] \<and> (\<exists>p. rotateRefreshToken cr ms (client_ip rq) (rq_user_agent rq) (the body) db = (Some (Inr p), db') \<and>
                        resp = refresh_response_of cr p)
      | Inl (RefreshTokenReuseError u) \<Rightarrow> au = [(''audit.user.login_failed'', reuse_audit rq u)] \<and>
          user_revoked u db'
      | Inl (UnauthorizedException _) \<Rightarrow> au = []
      | Inl (BadRequestException _) \<Rightarrow> au = [] \<and> db' = db \<and> \<not> truthy_str body
      | Inl _ \<Rightarrow> False)"
proof (cases "truthy_str body")
  case False
  then show ?thesis by (simp add: refreshToken_def)
next
  case True
  obtain ph db' where st: "rot_steps cr ms (\<lambda>_ d. d) (client_ip rq) (rq_user_agent rq) (the body) 10 db = (ph, db')" by fastforce
  obtain r where r: "ph = RotDone r"
    using steps_done [of cr ms "\<lambda>_ d. d" "client_ip rq" "rq_user_agent rq" "the body" 2 db] st by auto
  have rot: "rotateRefreshToken cr ms (client_ip rq) (rq_user_agent rq) (the body) db = (Some r, db')"
    using st r by (simp add: rotateRefreshToken_def)
  have reuse: "user_revoked u db'" if "r = Inl (RefreshTokenReuseError u)" for u
    by (rule rot_steps_reuse [OF st [unfolded r that]])
  show ?thesis
  proof (cases r)
    case (Inr p)
    then show ?thesis using True rot by (simp add: refreshToken_def)
  next
    case (Inl x)
    then show ?thesis using True rot reuse by (cases x) (simp_all add: refreshToken_def)
  qed
qed

end
