(* ===== verification/AuditLog.thy ===== *)
theory AuditLog
  imports GuardProperties AlertDto
begin

text \<open>
  The audit log (\<open>src/src/audit/audit-log.service.ts\<close>, \<open>audit-log.controller.ts\<close>): the listener that
  redacts and stores every payload the services emit, the queries over the stored rows, and who may
  read them. The columns for the request (address, user agent, session and request id) and for stack
  traces are left out; no caller sets the time of an event, so it is the time of storing.
\<close>

section \<open>Redaction\<close>

definition SENSITIVE_FIELDS :: "string list" where
  "SENSITIVE_FIELDS =
     [''password'', ''passwordHash'', ''secret'', ''token'', ''accessToken'', ''refreshToken'', ''apiKey'', ''privateKey'',
      ''apiSecret'', ''fcmToken'', ''pushToken'', ''push_token'', ''idToken'', ''password_hash'', ''access_token'',
      ''refresh_token'', ''api_key'', ''private_key'', ''api_secret'', ''fcm_token'']"

definition is_sensitive :: "string \<Rightarrow> bool" where
  "is_sensitive key \<longleftrightarrow> list_ex (\<lambda>field. str_includes (lower field) (lower key)) SENSITIVE_FIELDS"

definition REDACTED :: json where "REDACTED = JStr ''[REDACTED]''"

text \<open>
  \<open>{ ...obj }\<close>: the own enumerable properties. An array gives its indices as keys, a \<open>Date\<close> has none.
\<close>

primrec spread_keys :: "nat \<Rightarrow> 'a list \<Rightarrow> (string \<times> 'a) list" where
  "spread_keys n [] = []"
| "spread_keys n (x # xs) = (show_nat n, x) # spread_keys (Suc n) xs"

text \<open>\<open>typeof v === 'object'\<close> holds for objects, arrays and dates; every other value is kept.\<close>

fun removeSensitiveFields :: "json \<Rightarrow> json" where
  "removeSensitiveFields (JObj ps) =
     JObj (map (\<lambda>(k, v). (k, if is_sensitive k then REDACTED else removeSensitiveFields v)) ps)"
| "removeSensitiveFields (JArr xs) =
     JObj (map (\<lambda>(k, v). (k, if is_sensitive k then REDACTED else v))
       (spread_keys 0 (map removeSensitiveFields xs)))"
| "removeSensitiveFields (JDate t) = JObj []"
| "removeSensitiveFields JUndefined = JUndefined"
| "removeSensitiveFields JNull = JNull"
| "removeSensitiveFields (JBool b) = JBool b"
| "removeSensitiveFields (JNum x) = JNum x"
| "removeSensitiveFields (JStr s) = JStr s"

section \<open>Storing\<close>

record audit_row =
  al_id :: id
  al_eventType :: string
  al_action :: string
  al_entityType :: string
  al_entityId :: "id option"
  al_description :: string
  al_userId :: "id option"
  al_actorId :: "string option"
  al_actorType :: string
  al_oldValues :: json
  al_newValues :: json
  al_metadata :: json
  al_success :: bool
  al_errorMessage :: "string option"
  al_timestamp :: time
  al_createdAt :: time

text \<open>\<open>x ? removeSensitiveFields(x) : undefined\<close>\<close>

definition sanitized :: "json \<Rightarrow> json" where
  "sanitized j = (if j = JUndefined \<or> j = JNull then JUndefined else removeSensitiveFields j)"

definition sanitizePayload :: "audit_payload \<Rightarrow> audit_payload" where
  "sanitizePayload p =
     p\<lparr>au_oldValues := sanitized (au_oldValues p), au_newValues := sanitized (au_newValues p),
       au_metadata := sanitized (au_metadata p)\<rparr>"

definition inferActorType :: "id option \<Rightarrow> string option \<Rightarrow> string" where
  "inferActorType userId actorId =
     (if truthy_num userId then ''user''
      else if \<not> truthy_str actorId then ''system''
      else if starts_with ''cron_'' (the actorId) then ''cron''
      else if starts_with ''api_'' (the actorId) then ''api_key''
      else if starts_with ''webhook_'' (the actorId) then ''webhook''
      else ''system'')"

definition createAuditLog :: "time \<Rightarrow> audit_payload \<Rightarrow> audit_row list \<Rightarrow> audit_row" where
  "createAuditLog t p rows =
     \<lparr>al_id = next_id al_id rows, al_eventType = au_eventType p, al_action = au_action p,
      al_entityType = au_entityType p, al_entityId = au_entityId p, al_description = au_description p,
      al_userId = au_userId p,
      al_actorId = (if truthy_str (au_actorId p) then au_actorId p else map_option show_int (au_userId p)),
      al_actorType = (if truthy_str (au_actorType p) then the (au_actorType p)
                      else inferActorType (au_userId p) (au_actorId p)),
      al_oldValues = sanitized (au_oldValues p), al_newValues = sanitized (au_newValues p),
      al_metadata = sanitized (au_metadata p), al_success = au_success p, al_errorMessage = au_errorMessage p,
      al_timestamp = t, al_createdAt = t\<rparr>"

text \<open>A failing insert is logged and swallowed.\<close>

definition handleAuditEvent :: "time \<Rightarrow> bool \<Rightarrow> audit_payload \<Rightarrow> audit_row list \<Rightarrow> audit_row list" where
  "handleAuditEvent t db_ok p rows =
     (let sanitizedPayload = sanitizePayload p in
      if db_ok then rows @ [createAuditLog t sanitizedPayload rows] else rows)"

text \<open>The listener receives what is emitted under a name that starts with \<open>audit.\<close>\<close>

definition deliver_audits ::
  "(time \<times> bool \<times> string \<times> audit_payload) list \<Rightarrow> audit_row list \<Rightarrow> audit_row list" where
  "deliver_audits evs rows =
     fold (\<lambda>(t, db_ok, channel, p) rs. if starts_with ''audit.'' channel then handleAuditEvent t db_ok p rs else rs) evs rows"

section \<open>Queries\<close>

record audit_options =
  ao_page :: int
  ao_limit :: int
  ao_eventType :: "string option"
  ao_entityType :: "string option"
  ao_entityId :: "id option"
  ao_userId :: "id option"
  ao_actorId :: "string option"
  ao_success :: "bool option"
  ao_startDate :: "time option"
  ao_endDate :: "time option"
  ao_action :: "string option"

definition in_dates :: "time option \<Rightarrow> time option \<Rightarrow> audit_row \<Rightarrow> bool" where
  "in_dates startDate endDate r \<longleftrightarrow>
     opt_ok (\<lambda>t. t \<le> al_timestamp r) startDate \<and> opt_ok (\<lambda>t. al_timestamp r \<le> t) endDate"

text \<open>A filter on a string is left out when the string is empty.\<close>

definition str_filter :: "(string \<Rightarrow> bool) \<Rightarrow> string option \<Rightarrow> bool" where
  "str_filter p x \<longleftrightarrow> (truthy_str x \<longrightarrow> p (the x))"

definition audit_where :: "audit_options \<Rightarrow> audit_row \<Rightarrow> bool" where
  "audit_where opts r \<longleftrightarrow>
     str_filter (\<lambda>x. al_eventType r = x) (ao_eventType opts) \<and>
     str_filter (\<lambda>x. al_entityType r = x) (ao_entityType opts) \<and>
     opt_ok (\<lambda>x. al_entityId r = Some x) (ao_entityId opts) \<and>
     opt_ok (\<lambda>x. al_userId r = Some x) (ao_userId opts) \<and>
     str_filter (\<lambda>x. al_actorId r = Some x) (ao_actorId opts) \<and>
     opt_ok (\<lambda>x. al_success r = x) (ao_success opts) \<and>
     str_filter (\<lambda>x. str_includes (lower x) (lower (al_action r))) (ao_action opts) \<and>
     in_dates (ao_startDate opts) (ao_endDate opts) r"

definition newest_first :: "audit_row list \<Rightarrow> audit_row list" where
  "newest_first rows = sort_key (\<lambda>r. - al_timestamp r) rows"

definition getAuditLogs :: "audit_options \<Rightarrow> audit_row list \<Rightarrow> audit_row list \<times> nat" where
  "getAuditLogs opts rows =
     (let matching = filter (audit_where opts) rows in
      (take (nat (ao_limit opts)) (drop (nat ((ao_page opts - 1) * ao_limit opts)) (newest_first matching)),
       length matching))"

text \<open>The controller adds the number of pages, \<open>Math.ceil(total / limit)\<close>.\<close>

definition totalPages :: "audit_options \<Rightarrow> audit_row list \<Rightarrow> int" where
  "totalPages opts rows = \<lceil>(of_nat (snd (getAuditLogs opts rows)) :: rat) / of_int (ao_limit opts)\<rceil>"

definition AUDIT_EVENT_TYPES :: "string list" where
  "AUDIT_EVENT_TYPES =
     [''CREATE'', ''UPDATE'', ''DELETE'', ''LOGIN'', ''LOGOUT'', ''ACCESS'', ''EXPORT'', ''IMPORT'', ''APPROVAL'',
      ''REJECTION'', ''SEND'', ''RECEIVE'', ''ACTIVATION'', ''DEACTIVATION'', ''ROTATION'', ''REVOCATION'', ''RESET'',
      ''FAILURE'', ''SUCCESS'', ''SYSTEM'']"

definition AUDIT_ENTITY_TYPES :: "string list" where
  "AUDIT_ENTITY_TYPES =
     [''USER'', ''ALERT'', ''SIGHTING'', ''DEVICE'', ''SAVED_ZONE'', ''NOTIFICATION'', ''SESSION'', ''ROLE'', ''GATE'',
      ''EMAIL'', ''LOCATION'', ''SYSTEM'']"

definition valid_audit_query :: "audit_options \<Rightarrow> bool" where
  "valid_audit_query opts \<longleftrightarrow>
     1 \<le> ao_page opts \<and> 1 \<le> ao_limit opts \<and> ao_limit opts \<le> 100 \<and>
     opt_ok (\<lambda>t. t \<in> set AUDIT_EVENT_TYPES) (ao_eventType opts) \<and>
     opt_ok (\<lambda>t. t \<in> set AUDIT_ENTITY_TYPES) (ao_entityType opts)"

text \<open>The list of the query omits a type of the schema: events on alert zones cannot be selected by entity type.\<close>

lemma alert_zone_not_selectable:
  "ao_entityType opts = Some ''ALERT_ZONE'' \<Longrightarrow> \<not> valid_audit_query opts"
  by (simp add: valid_audit_query_def AUDIT_ENTITY_TYPES_def opt_ok_def)

definition getEntityAuditTrail :: "string \<Rightarrow> id \<Rightarrow> nat \<Rightarrow> audit_row list \<Rightarrow> audit_row list" where
  "getEntityAuditTrail entityType entityId limit rows =
     take limit (newest_first (filter (\<lambda>r. al_entityType r = entityType \<and> al_entityId r = Some entityId) rows))"

definition getUserActivity :: "id \<Rightarrow> nat \<Rightarrow> time option \<Rightarrow> time option \<Rightarrow> audit_row list \<Rightarrow> audit_row list" where
  "getUserActivity userId limit startDate endDate rows =
     take limit (newest_first (filter (\<lambda>r. al_userId r = Some userId \<and> in_dates startDate endDate r) rows))"

definition getSecurityEvents :: "nat \<Rightarrow> time option \<Rightarrow> time option \<Rightarrow> audit_row list \<Rightarrow> audit_row list" where
  "getSecurityEvents limit startDate endDate rows =
     take limit (newest_first (filter (\<lambda>r.
       al_eventType r \<in> {''LOGIN'', ''LOGOUT'', ''FAILURE'', ''REVOCATION'', ''RESET''} \<and> in_dates startDate endDate r) rows))"

definition getFailedOperations :: "nat \<Rightarrow> time option \<Rightarrow> time option \<Rightarrow> audit_row list \<Rightarrow> audit_row list" where
  "getFailedOperations limit startDate endDate rows =
     take limit (newest_first (filter (\<lambda>r. \<not> al_success r \<and> in_dates startDate endDate r) rows))"

text \<open>\<open>groupBy\<close> with a count per group.\<close>

definition group_counts :: "('r \<Rightarrow> 'k) \<Rightarrow> 'r list \<Rightarrow> ('k \<times> nat) list" where
  "group_counts key rows = map (\<lambda>k. (k, count_where (\<lambda>r. key r = k) rows)) (remdups (map key rows))"

record audit_stats =
  st_totalEvents :: nat
  st_eventsByType :: "(string \<times> nat) list"
  st_eventsByEntity :: "(string \<times> nat) list"
  st_failureRate :: rat
  st_topUsers :: "(id \<times> nat) list"

definition getAuditStatistics :: "time \<Rightarrow> time \<Rightarrow> audit_row list \<Rightarrow> audit_stats" where
  "getAuditStatistics startDate endDate rows =
     (let selected = filter (in_dates (Some startDate) (Some endDate)) rows;
          totalEvents = length selected;
          failedEvents = count_where (\<lambda>r. \<not> al_success r) selected;
          userActivity = take 10 (sort_key (\<lambda>(_, n). - int n)
            (group_counts (the \<circ> al_userId) (filter (\<lambda>r. al_userId r \<noteq> None) selected)))
      in \<lparr>st_totalEvents = totalEvents, st_eventsByType = group_counts al_eventType selected,
          st_eventsByEntity = filter (\<lambda>(t, _). t \<noteq> []) (group_counts al_entityType selected),
          st_failureRate = (if totalEvents > 0 then of_nat failedEvents / of_nat totalEvents * 100 else 0),
          st_topUsers = userActivity\<rparr>)"

definition findOneAudit :: "id \<Rightarrow> audit_row list \<Rightarrow> exn + audit_row" where
  "findOneAudit i rows =
     (case find_row al_id i rows of
        None \<Rightarrow> Inl (NotFoundException (''Audit log with ID '' @ show_int i @ '' not found''))
      | Some r \<Rightarrow> Inr r)"

text \<open>The decorators of the controller: the bearer guard and the metadata \<open>@Roles('admin')\<close>.\<close>

definition audit_route :: route where
  "audit_route = \<lparr>rr_guards = [BearerTokenGuard], rr_anonymous = False, rr_clientKey = False,
     rr_roles = [''admin''], rr_minLevel = None\<rparr>"

section \<open>What redaction guarantees\<close>

text \<open>The value under a key, and at a path of keys.\<close>

definition json_child :: "string \<Rightarrow> json \<Rightarrow> json option" where
  "json_child k j =
     (case j of JObj ps \<Rightarrow> map_of ps k | JArr xs \<Rightarrow> map_of (spread_keys 0 xs) k | _ \<Rightarrow> None)"

primrec json_at :: "string list \<Rightarrow> json \<Rightarrow> json option" where
  "json_at [] j = Some j"
| "json_at (k # ks) j = (case json_child k j of None \<Rightarrow> None | Some v \<Rightarrow> json_at ks v)"

fun is_scalar :: "json \<Rightarrow> bool" where
  "is_scalar (JObj ps) = False"
| "is_scalar (JArr xs) = False"
| "is_scalar (JDate t) = False"
| "is_scalar j = True"

lemma map_of_mapped: "map_of (map (\<lambda>(k, v). (k, f k v)) ps) x = map_option (f x) (map_of ps x)"
  by (induction ps) auto

lemma spread_keys_map: "spread_keys n (map g xs) = map (\<lambda>(k, v). (k, g v)) (spread_keys n xs)"
  by (induction xs arbitrary: n) auto

lemma child_redacted:
  "json_child k (removeSensitiveFields j) =
   map_option (\<lambda>v. if is_sensitive k then REDACTED else removeSensitiveFields v) (json_child k j)"
  by (cases j)
    (simp_all add: json_child_def spread_keys_map map_of_mapped option.map_comp comp_def del: map_map)

lemma redacted_idem_entry:
  assumes "\<And>v. v \<in> set xs \<Longrightarrow> removeSensitiveFields (g v) = g v"
  shows "map (\<lambda>(k, v). (k, if is_sensitive k then REDACTED else removeSensitiveFields v))
      (map (\<lambda>(k, v). (k, if is_sensitive k then REDACTED else v)) (spread_keys n (map g xs))) =
    map (\<lambda>(k, v). (k, if is_sensitive k then REDACTED else v)) (spread_keys n (map g xs))"
  using assms by (induction xs arbitrary: n) auto

lemma redaction_idempotent: "removeSensitiveFields (removeSensitiveFields j) = removeSensitiveFields j"
proof (induction j rule: removeSensitiveFields.induct)
  case (1 ps)
  then show ?case by auto
next
  case (2 xs)
  then show ?case using redacted_idem_entry [of xs removeSensitiveFields 0] by simp
qed simp_all

lemma sanitized_idempotent [simp]: "sanitized (sanitized j) = sanitized j"
proof -
  have "removeSensitiveFields j = JNull \<longleftrightarrow> j = JNull" "removeSensitiveFields j = JUndefined \<longleftrightarrow> j = JUndefined"
    by (cases j; simp)+
  then show ?thesis by (auto simp: sanitized_def redaction_idempotent)
qed

lemma no_child_of_redacted: "json_at (ks @ [k]) REDACTED = None"
  by (cases ks) (simp_all add: json_child_def REDACTED_def)

lemma redacted_at:
  "json_at (ks @ [k]) (removeSensitiveFields j) = Some v \<Longrightarrow> is_sensitive k \<Longrightarrow> v = REDACTED"
proof (induction ks arbitrary: j)
  case Nil
  then show ?case by (auto simp: child_redacted split: option.splits)
next
  case (Cons k' ks)
  then show ?case
    by (auto simp: child_redacted no_child_of_redacted split: option.splits if_splits)
qed

lemma scalar_kept:
  "json_at ks j = Some v \<Longrightarrow> is_scalar v \<Longrightarrow> \<not> list_ex is_sensitive ks \<Longrightarrow>
   json_at ks (removeSensitiveFields j) = Some v"
proof (induction ks arbitrary: j)
  case Nil
  then show ?case by (cases v) auto
next
  case (Cons k ks)
  then show ?case by (auto simp: child_redacted split: option.splits)
qed

text \<open>
  A date has no enumerable property: wherever a payload carries one outside a sensitive key, the stored
  value is an empty object and the instant is lost.
\<close>

lemma date_lost:
  "json_at ks j = Some (JDate t) \<Longrightarrow> \<not> list_ex is_sensitive ks \<Longrightarrow>
   json_at ks (removeSensitiveFields j) = Some (JObj [])"
proof (induction ks arbitrary: j)
  case (Cons k ks)
  then show ?case by (auto simp: child_redacted split: option.splits)
qed simp

section \<open>What the log guarantees\<close>

lemma stored_row:
  "handleAuditEvent t ok p rows = rows @ (if ok then [createAuditLog t p rows] else [])"
  by (simp add: handleAuditEvent_def createAuditLog_def sanitizePayload_def)

lemma delivered_rows:
  assumes "r \<in> set (deliver_audits evs rows)"
  shows "r \<in> set rows \<or> (\<exists>t ch p rs. (t, True, ch, p) \<in> set evs \<and> starts_with ''audit.'' ch \<and> r = createAuditLog t p rs)"
  using assms unfolding deliver_audits_def
proof (induction evs arbitrary: rows)
  case (Cons ev evs)
  obtain t ok ch p where ev: "ev = (t, ok, ch, p)" by (cases ev)
  let ?rows = "if starts_with ''audit.'' ch then handleAuditEvent t ok p rows else rows"
  have "r \<in> set ?rows \<or> (\<exists>t ch p rs. (t, True, ch, p) \<in> set evs \<and> starts_with ''audit.'' ch \<and> r = createAuditLog t p rs)"
    using Cons.IH [of ?rows] Cons.prems by (simp add: ev)
  then show ?case by (auto simp: ev stored_row split: if_splits)
qed simp

lemma rows_kept: "set rows \<subseteq> set (deliver_audits evs rows)"
  unfolding deliver_audits_def
proof (induction evs arbitrary: rows)
  case (Cons ev evs)
  obtain t ok ch p where ev: "ev = (t, ok, ch, p)" by (cases ev)
  let ?rows = "if starts_with ''audit.'' ch then handleAuditEvent t ok p rows else rows"
  have "set rows \<subseteq> set ?rows" by (auto simp: stored_row)
  then show ?case using Cons.IH [of ?rows] by (auto simp: ev)
qed simp

lemma delivered_stored:
  assumes "(t, True, ch, p) \<in> set evs" and "starts_with ''audit.'' ch"
  shows "\<exists>rs. createAuditLog t p rs \<in> set (deliver_audits evs rows)"
proof -
  obtain xs ys where evs: "evs = xs @ (t, True, ch, p) # ys" using assms(1) by (meson split_list)
  let ?rs = "deliver_audits xs rows"
  have "deliver_audits evs rows = deliver_audits ys (?rs @ [createAuditLog t p ?rs])"
    using assms(2) by (simp add: evs deliver_audits_def stored_row)
  then show ?thesis using rows_kept [of "?rs @ [createAuditLog t p ?rs]" ys] by auto
qed

lemma sanitized_at: "json_at (ks @ [k]) (sanitized j) = Some v \<Longrightarrow> is_sensitive k \<Longrightarrow> v = REDACTED"
  using redacted_at [of ks k j v] by (cases ks) (auto simp: sanitized_def json_child_def split: if_splits)

text \<open>
  C18. Secrets never reach the audit log. Whatever the services emit, a stored row comes from an emitted
  payload, and at every depth of its old values, new values and metadata a key that contains the name
  of a sensitive field holds the redaction mark. Every payload emitted on an audit channel is stored,
  unless the insert fails.
\<close>

theorem audit_redaction:
  "(\<forall>r \<in> set (deliver_audits evs []). \<exists>t ch p. (t, True, ch, p) \<in> set evs \<and>
      al_action r = au_action p \<and> al_userId r = au_userId p \<and> al_entityId r = au_entityId p \<and> al_timestamp r = t \<and>
      (\<forall>j \<in> {al_oldValues r, al_newValues r, al_metadata r}. \<forall>ks k v.
         json_at (ks @ [k]) j = Some v \<and> is_sensitive k \<longrightarrow> v = REDACTED)) \<and>
   (\<forall>t ch p. (t, True, ch, p) \<in> set evs \<and> starts_with ''audit.'' ch \<longrightarrow>
      (\<exists>r \<in> set (deliver_audits evs []). al_action r = au_action p \<and> al_userId r = au_userId p \<and>
         al_newValues r = sanitized (au_newValues p)))"
proof (intro conjI ballI)
  fix r assume "r \<in> set (deliver_audits evs [])"
  then obtain t ch p rs where p: "(t, True, ch, p) \<in> set evs" "r = createAuditLog t p rs"
    using delivered_rows [of r evs "[]"] by auto
  show "\<exists>t ch p. (t, True, ch, p) \<in> set evs \<and>
      al_action r = au_action p \<and> al_userId r = au_userId p \<and> al_entityId r = au_entityId p \<and> al_timestamp r = t \<and>
      (\<forall>j \<in> {al_oldValues r, al_newValues r, al_metadata r}. \<forall>ks k v.
         json_at (ks @ [k]) j = Some v \<and> is_sensitive k \<longrightarrow> v = REDACTED)"
    using p by (intro exI [of _ t] exI [of _ ch] exI [of _ p]) (auto simp: createAuditLog_def dest: sanitized_at)
next
  show "\<forall>t ch p. (t, True, ch, p) \<in> set evs \<and> starts_with ''audit.'' ch \<longrightarrow>
      (\<exists>r \<in> set (deliver_audits evs []). al_action r = au_action p \<and> al_userId r = au_userId p \<and>
         al_newValues r = sanitized (au_newValues p))"
  proof (intro allI impI, elim conjE)
    fix t ch p assume "(t, True, ch, p) \<in> set evs" "starts_with ''audit.'' ch"
    then obtain rs where "createAuditLog t p rs \<in> set (deliver_audits evs [])"
      using delivered_stored by blast
    then show "\<exists>r \<in> set (deliver_audits evs []). al_action r = au_action p \<and> al_userId r = au_userId p \<and>
         al_newValues r = sanitized (au_newValues p)"
      by (rule bexI [rotated]) (simp add: createAuditLog_def)
  qed
qed

definition demo_leak :: audit_payload where
  "demo_leak = entity_audit ''UPDATE'' ''DEVICE'' 1 8 ''device_updated'' ''d'' JUndefined
     (JObj [(''d'', JObj [(''token'', JStr ''secret''), (''os'', JStr ''IOS'')])])"

theorem audit_redaction_witness:
  "\<exists>r \<in> set (deliver_audits [(5, True, ''audit.entity.updated'', demo_leak)] []).
     al_newValues r = JObj [(''d'', JObj [(''token'', REDACTED), (''os'', JStr ''IOS'')])]"
proof -
  have s: "sanitized (au_newValues demo_leak) =
      JObj [(''d'', JObj [(''token'', REDACTED), (''os'', JStr ''IOS'')])]" by (simp add: demo_leak_def entity_audit_def sanitized_def REDACTED_def is_sensitive_def SENSITIVE_FIELDS_def lower_def ascii_lower_def)
  have "starts_with ''audit.'' ''audit.entity.updated''" by code_simp
  then show ?thesis
    using audit_redaction [of "[(5, True, ''audit.entity.updated'', demo_leak)]"] unfolding s [symmetric]
    by fastforce
qed

section \<open>Paging\<close>

lemma newest_first_props [simp]:
  "length (newest_first rows) = length rows" "mset (newest_first rows) = mset rows"
  "sorted (map (\<lambda>r. - al_timestamp r) (newest_first rows))"
  by (simp_all add: newest_first_def)

lemma pages_concat:
  "concat (map (\<lambda>i. take n (drop (i * n) xs)) [0..<k]) = take (k * n) xs"
proof (induction k)
  case (Suc k)
  have "take (Suc k * n) xs = take (k * n) xs @ take n (drop (k * n) xs)"
    using take_add [of "k * n" n xs] by (simp add: add.commute)
  then show ?case using Suc by simp
qed simp

lemma pages_cover:
  assumes "0 < (n::int)"
  shows "\<exists>k. \<lceil>(of_nat t :: rat) / of_int n\<rceil> = int k \<and> t \<le> k * nat n"
proof -
  let ?c = "\<lceil>(of_nat t :: rat) / of_int n\<rceil>"
  have c: "0 \<le> ?c" using assms by (simp add: zero_le_ceiling order.strict_trans2 [of "-1" 0])
  have "(of_nat t :: rat) / of_int n \<le> of_int ?c" by (rule le_of_int_ceiling)
  moreover have "(0::rat) < of_int n" using assms by simp
  ultimately have "(of_nat t :: rat) \<le> of_int ?c * of_int n" by (simp only: pos_divide_le_eq)
  then have "(of_int (int t) :: rat) \<le> of_int (?c * n)" by simp
  then have "int t \<le> ?c * n" by (simp only: of_int_le_iff)
  also have "\<dots> = int (nat ?c * nat n)" using c assms by simp
  finally show ?thesis using c by (intro exI [of _ "nat ?c"]) (simp only: of_nat_le_iff nat_0_le simp_thms)
qed

text \<open>
  Paging through the audit log. For every filter and page size the DTO accepts, the pages 1 to the
  advertised number of pages put together are exactly the matching rows, each once, newest first; the
  advertised total is their number.
\<close>

theorem audit_pages:
  assumes "valid_audit_query opts"
  shows "\<exists>k. totalPages opts rows = int k \<and>
    concat (map (\<lambda>i. fst (getAuditLogs (opts\<lparr>ao_page := int i + 1\<rparr>) rows)) [0..<k]) =
      newest_first (filter (audit_where opts) rows) \<and>
    snd (getAuditLogs opts rows) = length (filter (audit_where opts) rows)"
proof -
  let ?m = "filter (audit_where opts) rows" and ?n = "nat (ao_limit opts)"
  have n: "0 < ao_limit opts" using assms by (simp add: valid_audit_query_def)
  have w: "audit_where (opts\<lparr>ao_page := p\<rparr>) = audit_where opts" for p by (rule ext) (simp add: audit_where_def)
  have page: "fst (getAuditLogs (opts\<lparr>ao_page := int i + 1\<rparr>) rows) = take ?n (drop (i * ?n) (newest_first ?m))" for i
    using n by (simp add: getAuditLogs_def w Let_def nat_mult_distrib)
  obtain k where k: "totalPages opts rows = int k" "length ?m \<le> k * ?n"
    using pages_cover [OF n, of "length ?m"] by (auto simp: totalPages_def getAuditLogs_def Let_def)
  show ?thesis
    unfolding page pages_concat using k by (intro exI [of _ k]) (simp add: getAuditLogs_def Let_def)
qed

definition demo_options :: audit_options where
  "demo_options = \<lparr>ao_page = 1, ao_limit = 50, ao_eventType = None, ao_entityType = None, ao_entityId = None,
     ao_userId = None, ao_actorId = None, ao_success = None, ao_startDate = None, ao_endDate = None, ao_action = None\<rparr>"

theorem audit_pages_witness:
  "\<exists>k. totalPages demo_options (deliver_audits [(5, True, ''audit.entity.updated'', demo_leak)] []) = int k"
proof -
  have "valid_audit_query demo_options" by (simp add: valid_audit_query_def demo_options_def opt_ok_def)
  then show ?thesis using audit_pages by blast
qed

text \<open>The counts per event type add up to the total, and the failure rate is a percentage.\<close>

lemma group_counts_sum: "sum_list (map snd (group_counts key rows)) = length rows"
proof -
  have "sum_list (map snd (group_counts key rows)) = (\<Sum>k\<in>set (map key rows). length (filter (\<lambda>r. key r = k) rows))"
    by (simp add: group_counts_def count_where_def comp_def sum_list_distinct_conv_sum_set)
  also have "\<dots> = (\<Sum>k\<in>set (map key rows). count_list (map key rows) k)"
    by (intro sum.cong) (simp_all add: count_list_eq_length_filter filter_map comp_def eq_commute)
  also have "\<dots> = length rows" using sum_count_set [of "map key rows" "set (map key rows)"] by simp
  finally show ?thesis .
qed

lemma statistics_consistent:
  "sum_list (map snd (st_eventsByType (getAuditStatistics s t rows))) = st_totalEvents (getAuditStatistics s t rows)"
  "0 \<le> st_failureRate (getAuditStatistics s t rows)" "st_failureRate (getAuditStatistics s t rows) \<le> 100"
proof -
  let ?sel = "filter (in_dates (Some s) (Some t)) rows"
  have "count_where (\<lambda>r. \<not> al_success r) ?sel \<le> length ?sel" by (simp add: count_where_def del: filter_filter)
  then have "(of_nat (count_where (\<lambda>r. \<not> al_success r) ?sel) :: rat) \<le> of_nat (length ?sel)" by (simp only: of_nat_le_iff)
  then show "st_failureRate (getAuditStatistics s t rows) \<le> 100"
    by (simp add: getAuditStatistics_def Let_def divide_le_eq)
qed (simp_all add: getAuditStatistics_def Let_def group_counts_sum)

section \<open>Who reads the log\<close>

text \<open>
  The controller is documented as open to administrators only, and carries the metadata for it, but not
  the guard that reads the metadata: every signed-in user passes, whatever the roles.
\<close>

theorem audit_log_open:
  assumes "extractTokenFromHeader rq = Some t" and "validateAccessToken cr m t db = (Inr u, db')"
  shows "guarded cr m audit_route rq db = (Inr (rq\<lparr>rq_user := Some u, rq_session := Some u\<rparr>), db')"
proof -
  have "bearerCanActivate cr m audit_route rq db = (Inr (rq\<lparr>rq_user := Some u, rq_session := Some u\<rparr>), db')"
    using assms by (simp add: bearerCanActivate_def audit_route_def)
  moreover have "bearerCanActivate cr m audit_route (rq\<lparr>rq_user := Some u, rq_session := Some u\<rparr>) db' =
      (Inr (rq\<lparr>rq_user := Some u, rq_session := Some u\<rparr>), db')"
    using assms validate_again [OF assms(2)] by (simp add: bearerCanActivate_def audit_route_def)
  ultimately show ?thesis by (simp add: guarded_def run_guard_def audit_route_def)
qed

end
