(* ===== verification/Pet.thy ===== *)
theory Pet
  imports AlertLifecycle Upload
begin

text \<open>
  Pets (\<open>src/src/pet/pet.service.ts\<close>, \<open>pet.mapper.ts\<close>, \<open>pet.controller.ts\<close>, \<open>config/pet.config.ts\<close>):
  registration with a fresh collar tag, edits that are copied into the open alerts of the pet, the
  missing flag, and the automatic resolution of alerts when a pet is marked as found.

  The state is the database of the other services with the pet types and the adoption listings. The
  tag candidates come from nanoid, one per attempt. Localised type names are left out.
\<close>

section \<open>State\<close>

datatype adoption_status = AVAILABLE | ADOPTED | WITHDRAWN

record listing_row =
  li_id :: id
  li_petId :: id
  li_userId :: id
  li_status :: adoption_status
  li_lat :: rat
  li_lon :: rat
  li_location_point :: point
  li_locationAddress :: "string option"
  li_description :: "string option"
  li_adoptedAt :: "time option"
  li_created_at :: time
  li_updated_at :: time

record pet_state =
  ps_world :: world
  ps_types :: "id list"
  ps_listings :: "listing_row list"

text \<open>What the service reads from its surroundings, beyond the clock and the environment variables.\<close>

record pet_env =
  pe_env :: env
  pe_nanoid :: "nat \<Rightarrow> string" \<comment> \<open>the candidate of each attempt\<close>
  pe_alerts_ok :: bool \<comment> \<open>whether the guarded statements of the automatic resolution succeed\<close>
  pe_spread :: "(string \<times> json) list \<Rightarrow> id \<Rightarrow> pet_state \<Rightarrow> exn + pet_row \<times> pet_state"
    \<comment> \<open>what the database client does with further keys of a body, in the statement that writes the pet\<close>

abbreviation pe_now :: "pet_env \<Rightarrow> time" where
  "pe_now pe \<equiv> now (pe_env pe)"

section \<open>DTOs and settings\<close>

definition DEFAULT_MAX_PET_PHOTOS :: int where "DEFAULT_MAX_PET_PHOTOS = 5"

definition getMaxPetPhotos :: "env \<Rightarrow> int" where
  "getMaxPetPhotos e =
     (case getenv e ''MAX_PET_PHOTOS'' of
        None \<Rightarrow> DEFAULT_MAX_PET_PHOTOS
      | Some raw \<Rightarrow> (case js_parse_int raw of
            None \<Rightarrow> DEFAULT_MAX_PET_PHOTOS
          | Some parsed \<Rightarrow> if parsed > 0 then parsed else DEFAULT_MAX_PET_PHOTOS))"

record create_pet_dto =
  cp_petTypeId :: id
  cp_name :: string
  cp_gender :: "gender option"
  cp_photos :: "string list option"
  cp_primaryPhoto :: "string option"
  cp_size :: "pet_size option"
  cp_birthday :: "time option"
  cp_isMissing :: "bool option"
  cp_rest :: "(string \<times> json) list" \<comment> \<open>the keys of the body the DTO does not declare\<close>

definition valid_create_pet :: "env \<Rightarrow> format_checks \<Rightarrow> create_pet_dto \<Rightarrow> bool" where
  "valid_create_pet e fc dto \<longleftrightarrow>
     1 \<le> cp_petTypeId dto \<and> length (cp_name dto) \<in> {1..100} \<and>
     opt_ok (\<lambda>ps. int (length ps) \<le> getMaxPetPhotos e \<and> list_all (fc_isUrl fc) ps) (cp_photos dto) \<and>
     opt_ok (fc_isUrl fc) (cp_primaryPhoto dto)"

record update_pet_dto =
  up_petTypeId :: "id field"
  up_name :: "string field"
  up_gender :: "gender field"
  up_photos :: "string list field"
  up_primaryPhoto :: "string field"
  up_size :: "pet_size field"
  up_birthday :: "time field"
  up_isMissing :: "bool field"
  up_rest :: "(string \<times> json) list"

definition valid_update_pet :: "env \<Rightarrow> format_checks \<Rightarrow> update_pet_dto \<Rightarrow> bool" where
  "valid_update_pet e fc dto \<longleftrightarrow>
     field_ok (\<lambda>i. 1 \<le> i) (up_petTypeId dto) \<and> field_ok (\<lambda>n. length n \<in> {1..100}) (up_name dto) \<and>
     field_ok (\<lambda>ps. int (length ps) \<le> getMaxPetPhotos e \<and> list_all (fc_isUrl fc) ps) (up_photos dto) \<and>
     field_ok (fc_isUrl fc) (up_primaryPhoto dto)"

text \<open>
  No pipe runs on \<open>/pets\<close>: neither are these decorators enforced nor are undeclared keys dropped. The
  model types the declared fields; the others travel in \<open>cp_rest\<close> and \<open>up_rest\<close>, because the service
  spreads the body into the statement, and the client writes whatever columns and nested records they name.
\<close>

section \<open>Mapping\<close>

definition orderedPetPhotos :: "pet_row \<Rightarrow> string list" where
  "orderedPetPhotos pet =
     (let primary = p_primaryPhoto pet in
      if \<not> truthy_str primary \<or> the primary \<notin> set (p_photos pet) then p_photos pet
      else the primary # filter (\<lambda>p. p \<noteq> the primary) (p_photos pet))"

text \<open>The primary photo of the response: the chosen one, else the first.\<close>

definition responsePrimaryPhoto :: "pet_row \<Rightarrow> string option" where
  "responsePrimaryPhoto pet =
     (case p_primaryPhoto pet of
        Some p \<Rightarrow> Some p
      | None \<Rightarrow> (case p_photos pet of [] \<Rightarrow> None | p # _ \<Rightarrow> Some p))"

section \<open>Checks\<close>

definition too_many_photos :: "env \<Rightarrow> exn" where
  "too_many_photos e =
     UnprocessableEntityException (''A pet can have at most '' @ show_int (getMaxPetPhotos e) @ '' photos'')"

definition validatePhotos :: "env \<Rightarrow> string list \<Rightarrow> string option \<Rightarrow> exn + unit" where
  "validatePhotos e photos primaryPhoto =
     (if int (length photos) > getMaxPetPhotos e then Inl (too_many_photos e)
      else if truthy_str primaryPhoto \<and> the primaryPhoto \<notin> set photos
      then Inl (UnprocessableEntityException ''Primary photo must be one of the pet photos'')
      else Inr ())"

definition requirePetType :: "id \<Rightarrow> pet_state \<Rightarrow> exn + unit" where
  "requirePetType petTypeId s =
     (if petTypeId \<in> set (ps_types s) then Inr ()
      else Inl (UnprocessableEntityException (''Pet type '' @ show_int petTypeId @ '' does not exist'')))"

definition find_tag :: "string \<Rightarrow> world \<Rightarrow> pet_row option" where
  "find_tag tag w = List.find (\<lambda>p. p_tagId p = tag) (pets w)"

text \<open>At most five candidates are tried.\<close>

definition MAX_TAG_RETRIES :: nat where "MAX_TAG_RETRIES = 5"

fun tag_loop :: "nat \<Rightarrow> (nat \<Rightarrow> string) \<Rightarrow> nat \<Rightarrow> world \<Rightarrow> exn + string" where
  "tag_loop 0 nano attempt w = Inl (ConflictException ''Failed to generate unique tag ID after multiple attempts'')"
| "tag_loop (Suc left) nano attempt w =
     (if find_tag (nano attempt) w = None then Inr (nano attempt) else tag_loop left nano (Suc attempt) w)"

definition generateTagId :: "pet_env \<Rightarrow> world \<Rightarrow> exn + string" where
  "generateTagId pe w = tag_loop MAX_TAG_RETRIES (pe_nanoid pe) 0 w"

section \<open>Operations\<close>

definition new_pet_row :: "pet_env \<Rightarrow> id \<Rightarrow> string \<Rightarrow> create_pet_dto \<Rightarrow> world \<Rightarrow> pet_row" where
  "new_pet_row pe userId tag dto w =
     \<lparr>p_id = next_id p_id (pets w), p_tagId = tag, p_userId = userId, p_petTypeId = cp_petTypeId dto,
      p_name = cp_name dto, p_gender = cp_gender dto, p_photos = defaulted [] (cp_photos dto),
      p_primaryPhoto = cp_primaryPhoto dto, p_size = cp_size dto, p_isMissing = defaulted False (cp_isMissing dto),
      p_birthday = cp_birthday dto, p_created_at = pe_now pe, p_updated_at = pe_now pe\<rparr>"

text \<open>
  The literal keys of \<open>createPet\<close> override those of the body. Without further keys the client writes
  the row alone; with some, what it does is its own.
\<close>

definition create_rest :: "create_pet_dto \<Rightarrow> (string \<times> json) list" where
  "create_rest dto = filter (\<lambda>(k, _). k \<notin> {''tagId'', ''user'', ''petType''}) (cp_rest dto)"

definition write_rest ::
  "pet_env \<Rightarrow> (string \<times> json) list \<Rightarrow> id \<Rightarrow> pet_row \<Rightarrow> pet_state \<Rightarrow> exn + pet_row \<times> pet_state" where
  "write_rest pe rest i row s = (if rest = [] then Inr (row, s) else pe_spread pe rest i s)"

text \<open>\<open>connect\<close> to a user that does not exist is refused by the client.\<close>

definition no_such_user :: exn where "no_such_user = Error ''No User record was found for a nested connect''"

definition createPet :: "pet_env \<Rightarrow> id \<Rightarrow> create_pet_dto \<Rightarrow> pet_state \<Rightarrow> (exn + pet_row) \<times> pet_state" where
  "createPet pe userId dto s =
     (case generateTagId pe (ps_world s) of
        Inl err \<Rightarrow> (Inl err, s)
      | Inr tag \<Rightarrow>
          (case requirePetType (cp_petTypeId dto) s of
             Inl err \<Rightarrow> (Inl err, s)
           | Inr _ \<Rightarrow>
               (case validatePhotos (pe_env pe) (defaulted [] (cp_photos dto)) (cp_primaryPhoto dto) of
                  Inl err \<Rightarrow> (Inl err, s)
                | Inr _ \<Rightarrow>
                    let w = ps_world s; pet = new_pet_row pe userId tag dto w in
                    if find_user userId w = None then (Inl no_such_user, s)
                    else
                      (case write_rest pe (create_rest dto) (p_id pet) pet (s\<lparr>ps_world := w\<lparr>pets := pets w @ [pet]\<rparr>\<rparr>) of
                         Inl err \<Rightarrow> (Inl err, s)
                       | Inr (row, s1) \<Rightarrow> (Inr row, s1)))))"

text \<open>The personal pets of a user: those without an adoption listing, newest first.\<close>

definition findAllByUser :: "id \<Rightarrow> pet_state \<Rightarrow> pet_row list" where
  "findAllByUser userId s =
     sort_key (\<lambda>p. - p_created_at p)
       (filter (\<lambda>p. p_userId p = userId \<and> \<not> list_ex (\<lambda>l. li_petId l = p_id p) (ps_listings s)) (pets (ps_world s)))"

definition findOnePet :: "id \<Rightarrow> id option \<Rightarrow> world \<Rightarrow> exn + pet_row" where
  "findOnePet i userId w =
     (case find_pet i w of
        None \<Rightarrow> Inl (NotFoundException (''Pet with ID '' @ show_int i @ '' not found''))
      | Some pet \<Rightarrow>
          (case userId of
             Some u \<Rightarrow>
               if p_userId pet \<noteq> u then Inl (ForbiddenException ''You do not have permission to access this pet'')
               else Inr pet
           | None \<Rightarrow> Inr pet))"

definition findPetByTagId :: "string \<Rightarrow> world \<Rightarrow> exn + pet_row" where
  "findPetByTagId tag w =
     (case find_tag tag w of
        None \<Rightarrow> Inl (NotFoundException (''Pet with tag ID '' @ tag @ '' not found''))
      | Some pet \<Rightarrow> Inr pet)"

text \<open>\<open>null\<close> for a required column is refused by the client.\<close>

definition pet_update_accepted :: "update_pet_dto \<Rightarrow> bool" where
  "pet_update_accepted dto \<longleftrightarrow>
     up_name dto \<noteq> Null \<and> up_photos dto \<noteq> Null \<and> up_isMissing dto \<noteq> Null"

definition field_opt :: "'a field \<Rightarrow> 'a option" where
  "field_opt f = (case f of Given x \<Rightarrow> Some x | _ \<Rightarrow> None)"

text \<open>Whether the photos or the primary photo are part of the request, and the row it leaves.\<close>

definition photos_touched :: "update_pet_dto \<Rightarrow> bool" where
  "photos_touched dto \<longleftrightarrow> up_photos dto \<noteq> Absent \<or> up_primaryPhoto dto \<noteq> Absent"

definition update_pet_row :: "pet_env \<Rightarrow> update_pet_dto \<Rightarrow> pet_row \<Rightarrow> pet_row" where
  "update_pet_row pe dto p =
     (let photos = field_or (p_photos p) (up_photos dto);
          primary = patched (p_primaryPhoto p) (up_primaryPhoto dto);
          primary' = (if photos_touched dto \<and> truthy_str primary \<and> the primary \<notin> set photos then None else primary)
      in p\<lparr>p_petTypeId := field_or (p_petTypeId p) (up_petTypeId dto), p_name := field_or (p_name p) (up_name dto),
           p_gender := patched (p_gender p) (up_gender dto), p_photos := photos, p_primaryPhoto := primary',
           p_size := patched (p_size p) (up_size dto), p_birthday := patched (p_birthday p) (up_birthday dto),
           p_isMissing := field_or (p_isMissing p) (up_isMissing dto), p_updated_at := pe_now pe\<rparr>)"

definition is_open_for :: "id \<Rightarrow> alert_row \<Rightarrow> bool" where
  "is_open_for petId a \<longleftrightarrow> a_pet_id a = Some petId \<and> (a_status a = ACTIVE \<or> a_status a = DRAFT)"

definition snapshot_of :: "pet_env \<Rightarrow> pet_row \<Rightarrow> alert_row \<Rightarrow> alert_row" where
  "snapshot_of pe pet a =
     a\<lparr>a_pet_name := p_name pet, a_pet_photos := orderedPetPhotos pet, a_updated_at := pe_now pe\<rparr>"

definition syncAlertSnapshots :: "pet_env \<Rightarrow> pet_row \<Rightarrow> world \<Rightarrow> world" where
  "syncAlertSnapshots pe pet w =
     w\<lparr>alerts := update_where (is_open_for (p_id pet)) (snapshot_of pe pet) (alerts w)\<rparr>"

text \<open>A given type overrides a \<open>petType\<close> of the body.\<close>

definition update_rest :: "update_pet_dto \<Rightarrow> (string \<times> json) list" where
  "update_rest dto = filter (\<lambda>(k, _). k \<noteq> ''petType'' \<or> up_petTypeId dto = Absent) (up_rest dto)"

definition updatePet :: "pet_env \<Rightarrow> id \<Rightarrow> id \<Rightarrow> update_pet_dto \<Rightarrow> pet_state \<Rightarrow> (exn + pet_row) \<times> pet_state" where
  "updatePet pe i userId dto s =
     (let w = ps_world s in
      case findOnePet i (Some userId) w of
        Inl err \<Rightarrow> (Inl err, s)
      | Inr existing \<Rightarrow>
          (case (if photos_touched dto
                 then validatePhotos (pe_env pe) (field_or (p_photos existing) (up_photos dto)) (field_opt (up_primaryPhoto dto))
                 else Inr ()) of
             Inl err \<Rightarrow> (Inl err, s)
           | Inr _ \<Rightarrow>
               (case up_petTypeId dto of
                  Null \<Rightarrow> (Inl (Error ''Invalid prisma.petType.findUnique() invocation''), s)
                | _ \<Rightarrow>
                    (case (case up_petTypeId dto of Given t \<Rightarrow> requirePetType t s | _ \<Rightarrow> Inr ()) of
                       Inl err \<Rightarrow> (Inl err, s)
                     | Inr _ \<Rightarrow>
                         if \<not> pet_update_accepted dto then (Inl (Error ''Invalid prisma.pet.update() invocation''), s)
                         else
                           let w1 = update_pet i (update_pet_row pe dto) w
                           in (case write_rest pe (update_rest dto) i (update_pet_row pe dto existing) (s\<lparr>ps_world := w1\<rparr>) of
                                 Inl err \<Rightarrow> (Inl err, s)
                               | Inr (updated, s1) \<Rightarrow>
                                   (Inr updated, s1\<lparr>ps_world := (if photos_touched dto \<or> up_name dto \<noteq> Absent
                                      then syncAlertSnapshots pe updated (ps_world s1) else ps_world s1)\<rparr>))))))"

text \<open>Deleting a pet removes its adoption listing and unlinks its alerts (\<open>onDelete\<close> of the relations).\<close>

definition deletePet :: "id \<Rightarrow> id \<Rightarrow> pet_state \<Rightarrow> (exn + unit) \<times> pet_state" where
  "deletePet i userId s =
     (let w = ps_world s in
      case findOnePet i (Some userId) w of
        Inl err \<Rightarrow> (Inl err, s)
      | Inr _ \<Rightarrow>
          (Inr (), s\<lparr>ps_world := w\<lparr>pets := delete_where (\<lambda>p. p_id p = i) (pets w),
                                    alerts := update_where (\<lambda>a. a_pet_id a = Some i) (\<lambda>a. a\<lparr>a_pet_id := None\<rparr>) (alerts w)\<rparr>,
                       ps_listings := delete_where (\<lambda>l. li_petId l = i) (ps_listings s)\<rparr>))"

definition markAsMissing :: "pet_env \<Rightarrow> id \<Rightarrow> id \<Rightarrow> pet_state \<Rightarrow> (exn + pet_row) \<times> pet_state" where
  "markAsMissing pe i userId s =
     (let w = ps_world s in
      case findOnePet i (Some userId) w of
        Inl err \<Rightarrow> (Inl err, s)
      | Inr pet \<Rightarrow>
          if p_isMissing pet then (Inl (UnprocessableEntityException ''Pet is already marked as missing''), s)
          else (Inr (set_missing (pe_env pe) True pet),
                s\<lparr>ps_world := update_pet i (set_missing (pe_env pe) True) w\<rparr>))"

definition FOUND_NOTE :: string where
  "FOUND_NOTE = ''Pet found! Alert auto-resolved when pet was marked as found.''"

definition auto_resolve_row :: "pet_env \<Rightarrow> alert_row \<Rightarrow> alert_row" where
  "auto_resolve_row pe a =
     a\<lparr>a_status := RESOLVED, a_resolved_at := Some (pe_now pe), a_notes := Some FOUND_NOTE, a_updated_at := pe_now pe\<rparr>"

definition found_event :: "pet_env \<Rightarrow> id \<Rightarrow> id \<Rightarrow> alert_row \<Rightarrow> event_input" where
  "found_event pe petId userId a =
     \<lparr>in_alertId = a_id a, in_petId = Some petId, in_creatorId = a_creator_id a, in_previousStatus = Some (a_status a),
      in_changedBy = Some userId, in_source = ByPetFound, in_occurredAt = Some (pe_now pe), in_outcome = None,
      in_notes = None, in_shareSuccessStory = None, in_reason = None\<rparr>"

definition is_live_for :: "id \<Rightarrow> alert_row \<Rightarrow> bool" where
  "is_live_for petId a \<longleftrightarrow> a_pet_id a = Some petId \<and> a_status a = ACTIVE"

definition auto_resolve :: "pet_env \<Rightarrow> id \<Rightarrow> id \<Rightarrow> world \<Rightarrow> world" where
  "auto_resolve pe petId userId w =
     (let activeAlerts = filter (is_live_for petId) (alerts w) in
      if activeAlerts = [] then w
      else
        let w1 = w\<lparr>alerts := update_where (\<lambda>a. a_id a \<in> set (map a_id activeAlerts) \<and> a_status a = ACTIVE)
                               (auto_resolve_row pe) (alerts w)\<rparr>
        in fold (\<lambda>a w'. resolved (pe_env pe) (found_event pe petId userId a) w') activeAlerts w1)"

definition markAsFound :: "pet_env \<Rightarrow> id \<Rightarrow> id \<Rightarrow> pet_state \<Rightarrow> (exn + pet_row) \<times> pet_state" where
  "markAsFound pe i userId s =
     (let w = ps_world s in
      case findOnePet i (Some userId) w of
        Inl err \<Rightarrow> (Inl err, s)
      | Inr pet \<Rightarrow>
          if \<not> p_isMissing pet then (Inl (UnprocessableEntityException ''Pet is not marked as missing''), s)
          else
            let w1 = update_pet i (set_missing (pe_env pe) False) w;
                w2 = (if pe_alerts_ok pe then auto_resolve pe i userId w1 else w1)
            in (Inr (set_missing (pe_env pe) False pet), s\<lparr>ps_world := w2\<rparr>))"

definition findAllMissing :: "world \<Rightarrow> pet_row list" where
  "findAllMissing w = sort_key (\<lambda>p. - p_updated_at p) (filter p_isMissing (pets w))"

text \<open>\<open>POST /pets/:id/photos\<close>: ownership first, then the upload; the pet itself is not changed.\<close>

definition uploadPetPhotos ::
  "env \<Rightarrow> cloud \<Rightarrow> id \<Rightarrow> id \<Rightarrow> upload_file list \<Rightarrow> world \<Rightarrow> exn + string list" where
  "uploadPetPhotos e cl i userId files w =
     (case findOnePet i (Some userId) w of
        Inl err \<Rightarrow> Inl err
      | Inr _ \<Rightarrow> uploadImages e cl files (''pets/'' @ show_int i) (nat (getMaxPetPhotos e))
                   \<lparr>uo_webOptimise = False, uo_randomPublicId = False\<rparr>)"

end
