(* ===== verification/Adoption.thy ===== *)
theory Adoption
  imports Pet
begin

text \<open>
  The adoption board (\<open>src/src/adoption/adoption.service.ts\<close>): a listing is created together with its
  pet, browsed while it is available, edited, withdrawn, relisted and marked as adopted by its owner.

  The two writes of \<open>create\<close> and those of \<open>update\<close> run in one transaction: a failing step leaves no
  trace. The age filters compare the birthday with the instant \<open>months_ago\<close> gives for the interval
  arithmetic of the database.
\<close>

section \<open>DTOs\<close>

record create_listing_dto =
  cl_pet :: create_pet_dto \<comment> \<open>without \<open>isMissing\<close>\<close>
  cl_lat :: rat
  cl_lon :: rat
  cl_locationAddress :: "string option"
  cl_description :: "string option"

record update_listing_dto =
  ul_pet :: update_pet_dto
  ul_lat :: "rat field"
  ul_lon :: "rat field"
  ul_locationAddress :: "string field"
  ul_description :: "string field"

record listings_query =
  lq_lat :: "rat option"
  lq_lon :: "rat option"
  lq_radiusKm :: "rat option"
  lq_petTypeId :: "id option"
  lq_gender :: "gender option"
  lq_size :: "pet_size option"
  lq_minAgeMonths :: "int option"
  lq_maxAgeMonths :: "int option"
  lq_limit :: "nat option"
  lq_offset :: "nat option"

definition valid_create_listing :: "env \<Rightarrow> format_checks \<Rightarrow> create_listing_dto \<Rightarrow> bool" where
  "valid_create_listing e fc dto \<longleftrightarrow>
     valid_create_pet e fc (cl_pet dto) \<and> cp_isMissing (cl_pet dto) = None \<and>
     num_between (-90) 90 (cl_lat dto) \<and> num_between (-180) 180 (cl_lon dto) \<and>
     opt_ok (max_length 255) (cl_locationAddress dto) \<and> opt_ok (max_length 2000) (cl_description dto)"

definition valid_update_listing :: "env \<Rightarrow> format_checks \<Rightarrow> update_listing_dto \<Rightarrow> bool" where
  "valid_update_listing e fc dto \<longleftrightarrow>
     valid_update_pet e fc (ul_pet dto) \<and> up_isMissing (ul_pet dto) = Absent \<and>
     field_ok (num_between (-90) 90) (ul_lat dto) \<and> field_ok (num_between (-180) 180) (ul_lon dto) \<and>
     field_ok (max_length 255) (ul_locationAddress dto) \<and> field_ok (max_length 2000) (ul_description dto)"

text \<open>The pipe of \<open>/adoptions\<close> drops the keys its DTOs do not declare.\<close>

definition whitelist_create :: "create_listing_dto \<Rightarrow> create_listing_dto" where
  "whitelist_create dto = dto\<lparr>cl_pet := (cl_pet dto)\<lparr>cp_rest := []\<rparr>\<rparr>"

definition whitelist_update :: "update_listing_dto \<Rightarrow> update_listing_dto" where
  "whitelist_update dto = dto\<lparr>ul_pet := (ul_pet dto)\<lparr>up_rest := []\<rparr>\<rparr>"

definition valid_listings_query :: "listings_query \<Rightarrow> bool" where
  "valid_listings_query q \<longleftrightarrow>
     opt_ok (num_between (-90) 90) (lq_lat q) \<and> opt_ok (num_between (-180) 180) (lq_lon q) \<and>
     opt_ok (num_between 1 100) (lq_radiusKm q) \<and> opt_ok (\<lambda>i. 1 \<le> i) (lq_petTypeId q) \<and>
     opt_ok (\<lambda>n. 0 \<le> n) (lq_minAgeMonths q) \<and> opt_ok (\<lambda>n. 0 \<le> n) (lq_maxAgeMonths q) \<and>
     opt_ok (\<lambda>n. n \<in> {1..100}) (lq_limit q)"

section \<open>Row access\<close>

definition find_listing :: "id \<Rightarrow> pet_state \<Rightarrow> listing_row option" where
  "find_listing i s = find_row li_id i (ps_listings s)"

definition update_listing :: "id \<Rightarrow> (listing_row \<Rightarrow> listing_row) \<Rightarrow> pet_state \<Rightarrow> pet_state" where
  "update_listing i f s = s\<lparr>ps_listings := update_where (\<lambda>l. li_id l = i) f (ps_listings s)\<rparr>"

interpretation listing_store: row_store li_id find_listing update_listing
  by unfold_locales
    (auto simp: find_listing_def update_listing_def find_row_put dest: find_row_Some)

definition MAX_ADOPTION_PHOTOS :: nat where "MAX_ADOPTION_PHOTOS = 10"

definition listing_not_found :: "id \<Rightarrow> exn" where
  "listing_not_found i = NotFoundException (''Adoption listing '' @ show_int i @ '' not found'')"

primrec adoption_status_name :: "adoption_status \<Rightarrow> string" where
  "adoption_status_name AVAILABLE = ''AVAILABLE''"
| "adoption_status_name ADOPTED = ''ADOPTED''"
| "adoption_status_name WITHDRAWN = ''WITHDRAWN''"

section \<open>Operations\<close>

definition new_listing_row :: "pet_env \<Rightarrow> id \<Rightarrow> id \<Rightarrow> create_listing_dto \<Rightarrow> pet_state \<Rightarrow> listing_row" where
  "new_listing_row pe userId petId dto s =
     \<lparr>li_id = next_id li_id (ps_listings s), li_petId = petId, li_userId = userId, li_status = AVAILABLE,
      li_lat = cl_lat dto, li_lon = cl_lon dto, li_location_point = (cl_lon dto, cl_lat dto),
      li_locationAddress = cl_locationAddress dto, li_description = cl_description dto, li_adoptedAt = None,
      li_created_at = pe_now pe, li_updated_at = pe_now pe\<rparr>"

definition createListing ::
  "pet_env \<Rightarrow> id \<Rightarrow> create_listing_dto \<Rightarrow> pet_state \<Rightarrow> (exn + listing_row) \<times> pet_state" where
  "createListing pe userId dto s =
     (case createPet pe userId (cl_pet dto) s of
        (Inl err, _) \<Rightarrow> (Inl err, s)
      | (Inr pet, s1) \<Rightarrow>
          if list_ex (\<lambda>l. li_petId l = p_id pet) (ps_listings s1)
          then (Inl (ConflictException ''Pet already has an adoption listing''), s)
          else
            let row = new_listing_row pe userId (p_id pet) dto s1
            in (Inr row, s1\<lparr>ps_listings := ps_listings s1 @ [row]\<rparr>))"

text \<open>The instant a number of months before another one, by the calendar of the database.\<close>

type_synonym calendar = "time \<Rightarrow> int \<Rightarrow> time"

definition pet_of :: "pet_state \<Rightarrow> listing_row \<Rightarrow> pet_row option" where
  "pet_of s l = find_pet (li_petId l) (ps_world s)"

definition listing_matches ::
  "pet_env \<Rightarrow> calendar \<Rightarrow> listings_query \<Rightarrow> pet_state \<Rightarrow> listing_row \<Rightarrow> bool" where
  "listing_matches pe months_ago q s l \<longleftrightarrow>
     li_status l = AVAILABLE \<and>
     (case pet_of s l of
        None \<Rightarrow> False
      | Some p \<Rightarrow>
          opt_ok (\<lambda>t. p_petTypeId p = t) (lq_petTypeId q) \<and>
          opt_ok (\<lambda>g. p_gender p = Some g) (lq_gender q) \<and>
          opt_ok (\<lambda>z. p_size p = Some z) (lq_size q) \<and>
          opt_ok (\<lambda>n. \<exists>b. p_birthday p = Some b \<and> b \<le> months_ago (pe_now pe) n) (lq_minAgeMonths q) \<and>
          opt_ok (\<lambda>n. \<exists>b. p_birthday p = Some b \<and> b \<ge> months_ago (pe_now pe) (n + 1)) (lq_maxAgeMonths q)) \<and>
     (case (lq_lat q, lq_lon q) of
        (Some lat, Some lon) \<Rightarrow>
          st_dwithin (pe_env pe) (li_location_point l) (lon, lat) (defaulted 10 (lq_radiusKm q) * 1000)
      | _ \<Rightarrow> True)"

definition listing_distance :: "pet_env \<Rightarrow> listings_query \<Rightarrow> listing_row \<Rightarrow> rat option" where
  "listing_distance pe q l =
     (case (lq_lat q, lq_lon q) of
        (Some lat, Some lon) \<Rightarrow> Some (st_distance (pe_env pe) (li_location_point l) (lon, lat) / 1000)
      | _ \<Rightarrow> None)"

text \<open>The page of listings with their distances, and the number of matches.\<close>

definition findAvailable ::
  "pet_env \<Rightarrow> calendar \<Rightarrow> listings_query \<Rightarrow> pet_state \<Rightarrow> exn + (listing_row \<times> rat option) list \<times> nat" where
  "findAvailable pe months_ago q s =
     (if (lq_lat q \<noteq> None) \<noteq> (lq_lon q \<noteq> None)
      then Inl (BadRequestException ''lat and lon must be provided together'')
      else if lq_minAgeMonths q \<noteq> None \<and> lq_maxAgeMonths q \<noteq> None \<and> the (lq_minAgeMonths q) > the (lq_maxAgeMonths q)
      then Inl (BadRequestException ''minAgeMonths cannot exceed maxAgeMonths'')
      else
        let matching = filter (listing_matches pe months_ago q s) (ps_listings s);
            newest = sort_key (\<lambda>l. - li_created_at l) matching;
            ordered = (if lq_lat q \<noteq> None then sort_key (\<lambda>l. the (listing_distance pe q l)) newest else newest);
            page = take (defaulted 20 (lq_limit q)) (drop (defaulted 0 (lq_offset q)) ordered);
            distances = map (\<lambda>l. (li_id l, listing_distance pe q l)) page;
            listings = filter (\<lambda>l. li_id l \<in> set (map li_id page)) (ps_listings s);
            data = List.map_filter (\<lambda>i. find_row li_id i listings) (map li_id page)
        in Inr (map (\<lambda>l. (l, case map_of distances (li_id l) of None \<Rightarrow> None | Some d \<Rightarrow> d)) data, length matching))"

definition findOneForRequester :: "id \<Rightarrow> id option \<Rightarrow> pet_state \<Rightarrow> exn + listing_row" where
  "findOneForRequester i requesterId s =
     (case find_listing i s of
        None \<Rightarrow> Inl (listing_not_found i)
      | Some l \<Rightarrow>
          if li_status l \<noteq> AVAILABLE \<and> Some (li_userId l) \<noteq> requesterId then Inl (listing_not_found i) else Inr l)"

definition findMine :: "id \<Rightarrow> pet_state \<Rightarrow> listing_row list" where
  "findMine userId s =
     sort_key (\<lambda>l. - li_created_at l) (filter (\<lambda>l. li_userId l = userId) (ps_listings s))"

definition requireOwned :: "id \<Rightarrow> id \<Rightarrow> pet_state \<Rightarrow> exn + listing_row" where
  "requireOwned i userId s =
     (case find_listing i s of
        None \<Rightarrow> Inl (listing_not_found i)
      | Some l \<Rightarrow>
          if li_userId l \<noteq> userId then Inl (ForbiddenException ''You do not have permission to manage this listing'')
          else Inr l)"

definition no_pet_fields :: "update_pet_dto \<Rightarrow> bool" where
  "no_pet_fields dto \<longleftrightarrow>
     up_petTypeId dto = Absent \<and> up_name dto = Absent \<and> up_gender dto = Absent \<and> up_photos dto = Absent \<and>
     up_primaryPhoto dto = Absent \<and> up_size dto = Absent \<and> up_birthday dto = Absent \<and> up_isMissing dto = Absent \<and>
     up_rest dto = []"

definition no_listing_fields :: "update_listing_dto \<Rightarrow> bool" where
  "no_listing_fields dto \<longleftrightarrow> ul_lat dto = Absent \<and> ul_locationAddress dto = Absent \<and> ul_description dto = Absent"

text \<open>The client's update, which refuses \<open>null\<close> coordinates, and the raw update of the point.\<close>

definition update_listing_row :: "pet_env \<Rightarrow> update_listing_dto \<Rightarrow> listing_row \<Rightarrow> listing_row" where
  "update_listing_row pe dto l =
     (let l1 = l\<lparr>li_lat := field_or (li_lat l) (ul_lat dto), li_lon := field_or (li_lon l) (ul_lon dto),
                 li_locationAddress := patched (li_locationAddress l) (ul_locationAddress dto),
                 li_description := patched (li_description l) (ul_description dto), li_updated_at := pe_now pe\<rparr>
      in if ul_lat dto \<noteq> Absent then l1\<lparr>li_location_point := (li_lon l1, li_lat l1)\<rparr> else l1)"

definition updateListing ::
  "pet_env \<Rightarrow> id \<Rightarrow> id \<Rightarrow> update_listing_dto \<Rightarrow> pet_state \<Rightarrow> (exn + listing_row) \<times> pet_state" where
  "updateListing pe i userId dto s =
     (case requireOwned i userId s of
        Inl err \<Rightarrow> (Inl err, s)
      | Inr listing \<Rightarrow>
          if (ul_lat dto \<noteq> Absent) \<noteq> (ul_lon dto \<noteq> Absent)
          then (Inl (BadRequestException ''lat and lon must be provided together''), s)
          else
            (case (if no_pet_fields (ul_pet dto) then (Inr None, s)
                   else case updatePet pe (li_petId listing) userId (ul_pet dto) s of
                     (Inl err, _) \<Rightarrow> (Inl err, s) | (Inr p, s1) \<Rightarrow> (Inr (Some p), s1)) of
               (Inl err, _) \<Rightarrow> (Inl err, s)
             | (Inr _, s1) \<Rightarrow>
                 if no_listing_fields dto then (Inr listing, s1)
                 else if ul_lat dto = Null \<or> ul_lon dto = Null
                 then (Inl (Error ''Invalid prisma.adoptionListing.update() invocation''), s)
                 else (Inr (update_listing_row pe dto listing), update_listing i (update_listing_row pe dto) s1)))"

definition status_conflict :: "string \<Rightarrow> string \<Rightarrow> listing_row \<Rightarrow> exn" where
  "status_conflict wanted what l =
     ConflictException (''Only '' @ wanted @ '' listings can be '' @ what @ '' (current: '' @
       adoption_status_name (li_status l) @ '')'')"

definition adopted_row :: "pet_env \<Rightarrow> listing_row \<Rightarrow> listing_row" where
  "adopted_row pe l = l\<lparr>li_status := ADOPTED, li_adoptedAt := Some (pe_now pe), li_updated_at := pe_now pe\<rparr>"

definition status_row :: "pet_env \<Rightarrow> adoption_status \<Rightarrow> listing_row \<Rightarrow> listing_row" where
  "status_row pe st l = l\<lparr>li_status := st, li_updated_at := pe_now pe\<rparr>"

definition markAdopted :: "pet_env \<Rightarrow> id \<Rightarrow> id \<Rightarrow> pet_state \<Rightarrow> (exn + listing_row) \<times> pet_state" where
  "markAdopted pe i userId s =
     (case requireOwned i userId s of
        Inl err \<Rightarrow> (Inl err, s)
      | Inr l \<Rightarrow>
          if li_status l \<noteq> AVAILABLE then (Inl (status_conflict ''AVAILABLE'' ''marked adopted'' l), s)
          else (Inr (adopted_row pe l), update_listing i (adopted_row pe) s))"

definition withdraw :: "pet_env \<Rightarrow> id \<Rightarrow> id \<Rightarrow> pet_state \<Rightarrow> (exn + listing_row) \<times> pet_state" where
  "withdraw pe i userId s =
     (case requireOwned i userId s of
        Inl err \<Rightarrow> (Inl err, s)
      | Inr l \<Rightarrow>
          if li_status l \<noteq> AVAILABLE then (Inl (status_conflict ''AVAILABLE'' ''withdrawn'' l), s)
          else (Inr (status_row pe WITHDRAWN l), update_listing i (status_row pe WITHDRAWN) s))"

definition relist :: "pet_env \<Rightarrow> id \<Rightarrow> id \<Rightarrow> pet_state \<Rightarrow> (exn + listing_row) \<times> pet_state" where
  "relist pe i userId s =
     (case requireOwned i userId s of
        Inl err \<Rightarrow> (Inl err, s)
      | Inr l \<Rightarrow>
          if li_status l \<noteq> WITHDRAWN then (Inl (status_conflict ''WITHDRAWN'' ''relisted'' l), s)
          else (Inr (status_row pe AVAILABLE l), update_listing i (status_row pe AVAILABLE) s))"

definition removeListing :: "id \<Rightarrow> id \<Rightarrow> pet_state \<Rightarrow> (exn + unit) \<times> pet_state" where
  "removeListing i userId s =
     (case requireOwned i userId s of
        Inl err \<Rightarrow> (Inl err, s)
      | Inr l \<Rightarrow> deletePet (li_petId l) userId s)"

definition push_photos :: "pet_env \<Rightarrow> string list \<Rightarrow> pet_row \<Rightarrow> pet_row" where
  "push_photos pe urls p = p\<lparr>p_photos := p_photos p @ urls, p_updated_at := pe_now pe\<rparr>"

definition addListingPhotos ::
  "pet_env \<Rightarrow> id \<Rightarrow> id \<Rightarrow> string list \<Rightarrow> pet_state \<Rightarrow> (exn + listing_row) \<times> pet_state" where
  "addListingPhotos pe i userId urls s =
     (case requireOwned i userId s of
        Inl err \<Rightarrow> (Inl err, s)
      | Inr l \<Rightarrow>
          let current = (case pet_of s l of None \<Rightarrow> 0 | Some p \<Rightarrow> length (p_photos p)) in
          if current + length urls > MAX_ADOPTION_PHOTOS
          then (Inl (BadRequestException (''A listing may have at most '' @ show_nat MAX_ADOPTION_PHOTOS @
                  '' photos (currently '' @ show_nat current @ '')'')), s)
          else (Inr l, s\<lparr>ps_world := update_pet (li_petId l) (push_photos pe urls) (ps_world s)\<rparr>))"

text \<open>
  \<open>POST /adoptions/:id/photos\<close>: the ownership check, the upload, then the count. Photos beyond the limit are
  refused only after they have been stored with the image host.
\<close>

definition uploadListingPhotos ::
  "pet_env \<Rightarrow> cloud \<Rightarrow> id \<Rightarrow> id \<Rightarrow> upload_file list \<Rightarrow> pet_state \<Rightarrow> (exn + listing_row) \<times> pet_state" where
  "uploadListingPhotos pe cl i userId files s =
     (case requireOwned i userId s of
        Inl err \<Rightarrow> (Inl err, s)
      | Inr l \<Rightarrow>
          (case uploadImages (pe_env pe) cl files (''pets/'' @ show_int (li_petId l)) DEFAULT_MAX_FILES_PER_UPLOAD
                  \<lparr>uo_webOptimise = False, uo_randomPublicId = False\<rparr> of
             Inl err \<Rightarrow> (Inl err, s)
           | Inr urls \<Rightarrow> addListingPhotos pe i userId urls s))"

end
