(* ===== verification/PetProperties.thy ===== *)
theory PetProperties
  imports Adoption QueueSystem
begin

text \<open>
  What pets, the adoption board and alerts guarantee together. The commands of the three components
  form one step relation (a household at work, one request after another); along its runs with
  documented bodies the tables keep their invariants and an alert never comes back to life. Then the effects
  of the individual operations. What a body with further keys, which nothing drops on \<open>/pets\<close>, can do to
  these promises is proved at the end of each part.
\<close>

section \<open>Commands\<close>

datatype pet_cmd =
    CreatePet id create_pet_dto
  | UpdatePet id id update_pet_dto
  | DeletePet id id
  | MarkMissing id id
  | MarkFound id id
  | CreateListing id create_listing_dto
  | UpdateListing id id update_listing_dto
  | MarkAdopted id id
  | Withdraw id id
  | Relist id id
  | RemoveListing id id
  | AddListingPhotos id id "string list"

fun exec_pet :: "pet_env \<Rightarrow> pet_cmd \<Rightarrow> pet_state \<Rightarrow> pet_state" where
  "exec_pet pe (CreatePet u dto) s = snd (createPet pe u dto s)"
| "exec_pet pe (UpdatePet i u dto) s = snd (updatePet pe i u dto s)"
| "exec_pet pe (DeletePet i u) s = snd (deletePet i u s)"
| "exec_pet pe (MarkMissing i u) s = snd (markAsMissing pe i u s)"
| "exec_pet pe (MarkFound i u) s = snd (markAsFound pe i u s)"
| "exec_pet pe (CreateListing u dto) s = snd (createListing pe u (whitelist_create dto) s)"
| "exec_pet pe (UpdateListing i u dto) s = snd (updateListing pe i u (whitelist_update dto) s)"
| "exec_pet pe (MarkAdopted i u) s = snd (markAdopted pe i u s)"
| "exec_pet pe (Withdraw i u) s = snd (withdraw pe i u s)"
| "exec_pet pe (Relist i u) s = snd (relist pe i u s)"
| "exec_pet pe (RemoveListing i u) s = snd (removeListing i u s)"
| "exec_pet pe (AddListingPhotos i u urls) s = snd (addListingPhotos pe i u urls s)"

text \<open>nanoid draws nine characters of the alphabet it is configured with.\<close>

definition tag_ok :: "string \<Rightarrow> bool" where
  "tag_ok t \<longleftrightarrow> length t = TAG_ID_LENGTH \<and> set t \<subseteq> set TAG_ID_ALPHABET"

definition nanoid_ok :: "pet_env \<Rightarrow> bool" where
  "nanoid_ok pe \<longleftrightarrow> (\<forall>n. tag_ok (pe_nanoid pe n))"

text \<open>A documented body: no key but those the DTO declares. The pipe of \<open>/adoptions\<close> sees to it, nothing on \<open>/pets\<close> does.\<close>

definition documented :: "pet_cmd \<Rightarrow> bool" where
  "documented c \<longleftrightarrow>
     (case c of CreatePet u dto \<Rightarrow> cp_rest dto = [] | UpdatePet i u dto \<Rightarrow> up_rest dto = [] | _ \<Rightarrow> True)"

lemma no_rest [simp]: "cp_rest c = [] \<Longrightarrow> create_rest c = []" "up_rest d = [] \<Longrightarrow> update_rest d = []"
  "write_rest pe [] i row s = Inr (row, s)"
  by (simp_all add: create_rest_def update_rest_def write_rest_def)

lemma whitelisted [simp]:
  "cp_rest (cl_pet (whitelist_create c)) = []" "up_rest (ul_pet (whitelist_update d)) = []"
  by (simp_all add: whitelist_create_def whitelist_update_def)

inductive household_step :: "pet_state \<Rightarrow> pet_state \<Rightarrow> bool" where
  alert_cmd: "alert_step (ps_world s) w' \<Longrightarrow> household_step s (s\<lparr>ps_world := w'\<rparr>)"
| pet_cmd: "nanoid_ok pe \<Longrightarrow> documented c \<Longrightarrow> household_step s (exec_pet pe c s)"

inductive_cases household_stepE [elim]: "household_step s s'"

section \<open>What pet commands do to alerts\<close>

lemma alerts_of_pet_update [simp]: "alerts (update_pet i f w) = alerts w"
  by (simp add: update_pet_def)

lemma alerts_fold_resolved [simp]:
  "alerts (fold (\<lambda>a. resolved e (f a)) xs w) = alerts w" "pets (fold (\<lambda>a. resolved e (f a)) xs w) = pets w"
  by (induction xs arbitrary: w) (simp_all add: publisher_defs)

text \<open>The permitted changes of one alert row by the pet service.\<close>

inductive pet_row_step :: "pet_env \<Rightarrow> alert_row \<Rightarrow> alert_row \<Rightarrow> bool" for pe where
  unchanged: "pet_row_step pe a a"
| synced: "a_status a = ACTIVE \<or> a_status a = DRAFT \<Longrightarrow> pet_row_step pe a (snapshot_of pe pet a)"
| unlinked: "pet_row_step pe a (a\<lparr>a_pet_id := None\<rparr>)"
| found: "a_status a = ACTIVE \<Longrightarrow> pet_row_step pe a (auto_resolve_row pe a)"

lemma auto_resolve_alerts:
  "alerts (auto_resolve pe i u w) =
   update_where (\<lambda>a. a_id a \<in> a_id ` set (filter (is_live_for i) (alerts w)) \<and> a_status a = ACTIVE) (auto_resolve_row pe) (alerts w)"
proof (cases "filter (is_live_for i) (alerts w) = []")
  case True
  show ?thesis unfolding auto_resolve_def Let_def True by (simp add: update_where_def)
next
  case False
  then show ?thesis by (simp add: auto_resolve_def Let_def del: set_filter)
qed

text \<open>Every command changes the alert table row by row.\<close>

definition rowwise :: "pet_env \<Rightarrow> alert_row list \<Rightarrow> alert_row list \<Rightarrow> bool" where
  "rowwise pe xs ys \<longleftrightarrow> list_all2 (pet_row_step pe) xs ys"

lemma rowwise_refl [simp]: "rowwise pe xs xs"
  by (simp add: rowwise_def list_all2_refl unchanged)

lemma rowwise_update:
  "(\<And>a. p a \<Longrightarrow> pet_row_step pe a (f a)) \<Longrightarrow> rowwise pe xs (update_where p f xs)"
  by (simp add: rowwise_def update_where_def list_all2_conv_all_nth unchanged)

text \<open>The state an accepted edit of a pet leaves behind.\<close>

definition pet_edited :: "pet_env \<Rightarrow> id \<Rightarrow> update_pet_dto \<Rightarrow> pet_row \<Rightarrow> pet_state \<Rightarrow> pet_state" where
  "pet_edited pe i dto pet s =
     (let w1 = update_pet i (update_pet_row pe dto) (ps_world s) in
      s\<lparr>ps_world := (if photos_touched dto \<or> up_name dto \<noteq> Absent
                      then syncAlertSnapshots pe (update_pet_row pe dto pet) w1 else w1)\<rparr>)"

definition photos_accepted :: "pet_env \<Rightarrow> update_pet_dto \<Rightarrow> pet_row \<Rightarrow> bool" where
  "photos_accepted pe dto pet \<longleftrightarrow>
     (photos_touched dto \<longrightarrow>
        validatePhotos (pe_env pe) (field_or (p_photos pet) (up_photos dto)) (field_opt (up_primaryPhoto dto)) = Inr ())"

definition type_accepted :: "update_pet_dto \<Rightarrow> pet_state \<Rightarrow> bool" where
  "type_accepted dto s \<longleftrightarrow>
     (case up_petTypeId dto of Absent \<Rightarrow> True | Null \<Rightarrow> False | Given t \<Rightarrow> t \<in> set (ps_types s))"

lemma unit_refused: "(r :: exn + unit) \<noteq> Inr () \<Longrightarrow> \<exists>err. r = Inl err"
  by (cases r) auto

lemma updatePet_state:
  assumes doc: "up_rest dto = []"
  shows "(\<exists>err. updatePet pe i u dto s = (Inl err, s)) \<or>
   (\<exists>pet. findOnePet i (Some u) (ps_world s) = Inr pet \<and> photos_accepted pe dto pet \<and> type_accepted dto s \<and>
     pet_update_accepted dto \<and> updatePet pe i u dto s = (Inr (update_pet_row pe dto pet), pet_edited pe i dto pet s))"
proof (cases "findOnePet i (Some u) (ps_world s)")
  case (Inr pet)
  show ?thesis
  proof (cases "photos_accepted pe dto pet")
    case False
    then have "photos_touched dto" "\<exists>err. validatePhotos (pe_env pe) (field_or (p_photos pet) (up_photos dto))
        (field_opt (up_primaryPhoto dto)) = Inl err"
      using unit_refused by (auto simp: photos_accepted_def)
    then show ?thesis using Inr by (auto simp: updatePet_def Let_def)
  next
    case True
    then have v: "(if photos_touched dto then validatePhotos (pe_env pe) (field_or (p_photos pet) (up_photos dto))
        (field_opt (up_primaryPhoto dto)) else Inr ()) = Inr ()" by (simp add: photos_accepted_def)
    show ?thesis
      using Inr True doc unfolding updatePet_def Let_def v
      by (cases "up_petTypeId dto")
        (simp_all add: v requirePetType_def type_accepted_def pet_edited_def Let_def)
  qed
qed (simp add: updatePet_def)

lemma sync_rowwise: "rowwise pe xs (update_where (is_open_for j) (snapshot_of pe q) xs)"
  by (rule rowwise_update) (auto simp: is_open_for_def intro: synced)

lemma updatePet_rowwise: "up_rest dto = [] \<Longrightarrow> rowwise pe (alerts (ps_world s)) (alerts (ps_world (snd (updatePet pe i u dto s))))"
  using updatePet_state [of dto pe i u s]
  by (auto simp: pet_edited_def syncAlertSnapshots_def sync_rowwise Let_def)

lemma deletePet_rowwise: "rowwise pe (alerts (ps_world s)) (alerts (ps_world (snd (deletePet i u s))))"
  by (auto simp: deletePet_def Let_def intro!: rowwise_update unlinked split: sum.split)

lemma markAsFound_rowwise: "rowwise pe (alerts (ps_world s)) (alerts (ps_world (snd (markAsFound pe i u s))))"
  by (auto simp: markAsFound_def Let_def auto_resolve_alerts intro!: rowwise_update found split: sum.split)

lemma createPet_world:
  "cp_rest dto = [] \<Longrightarrow> alerts (ps_world (snd (createPet pe u dto s))) = alerts (ps_world s)"
  by (auto simp: createPet_def Let_def split: sum.split)

lemma updateListing_world:
  "ps_world (snd (updateListing pe i u dto s)) = ps_world s \<or>
   (\<exists>j. ps_world (snd (updateListing pe i u dto s)) = ps_world (snd (updatePet pe j u (ul_pet dto) s)))"
proof (cases "requireOwned i u s")
  case (Inr l)
  obtain r s1 where upd: "updatePet pe (li_petId l) u (ul_pet dto) s = (r, s1)" by fastforce
  then have "ps_world (snd (updateListing pe i u dto s)) = ps_world s \<or>
      ps_world (snd (updateListing pe i u dto s)) = ps_world (snd (updatePet pe (li_petId l) u (ul_pet dto) s))"
    using Inr by (cases r) (auto simp: updateListing_def update_listing_def)
  then show ?thesis by blast
qed (simp add: updateListing_def)

lemma exec_pet_rowwise:
  assumes doc: "documented c"
  shows "rowwise pe (alerts (ps_world s)) (alerts (ps_world (exec_pet pe c s)))"
proof (cases c)
  case (CreatePet u dto)
  then show ?thesis using doc by (simp add: createPet_world documented_def)
next
  case (UpdatePet i u dto)
  then show ?thesis using doc by (simp add: updatePet_rowwise documented_def)
next
  case (DeletePet i u)
  then show ?thesis by (simp add: deletePet_rowwise)
next
  case (MarkMissing i u)
  then show ?thesis by (auto simp: markAsMissing_def Let_def split: sum.split)
next
  case (MarkFound i u)
  then show ?thesis by (simp add: markAsFound_rowwise)
next
  case (CreateListing u dto)
  then show ?thesis
    using createPet_world [of "cl_pet (whitelist_create dto)" pe u s]
    by (auto simp: createListing_def Let_def split: sum.split prod.split)
next
  case (UpdateListing i u dto)
  then show ?thesis
    using updateListing_world [of pe i u "whitelist_update dto" s] updatePet_rowwise [of "ul_pet (whitelist_update dto)" pe s _ u]
    by auto
next
  case (RemoveListing i u)
  then show ?thesis using deletePet_rowwise [of pe s] by (auto simp: removeListing_def split: sum.split)
next
  case (AddListingPhotos i u urls)
  then show ?thesis by (auto simp: addListingPhotos_def Let_def split: sum.split)
qed (auto simp: markAdopted_def withdraw_def relist_def update_listing_def split: sum.split)

section \<open>Alerts never come back to life\<close>

definition status_moves :: "alert_row \<Rightarrow> alert_row \<Rightarrow> bool" where
  "status_moves a a' \<longleftrightarrow>
     a_id a' = a_id a \<and> a_creator_id a' = a_creator_id a \<and> a_location_point a' = a_location_point a \<and>
     a_created_at a' = a_created_at a \<and> (a_pet_id a' = a_pet_id a \<or> a_pet_id a' = None) \<and>
     a_success_story_sent_at a' = a_success_story_sent_at a \<and>
     (a_status a \<noteq> ACTIVE \<longrightarrow> a_status a' \<noteq> ACTIVE) \<and> (a_status a = RESOLVED \<longrightarrow> a_status a' = RESOLVED) \<and>
     (a_status a = CANCELLED \<longrightarrow> a_status a' = CANCELLED \<or> a_status a' = RESOLVED)"

lemma status_moves_trans: "status_moves a b \<Longrightarrow> status_moves b c \<Longrightarrow> status_moves a c"
  unfolding status_moves_def by auto

lemma evolves_moves: "evolves a a' \<Longrightarrow> status_moves a a'"
  by (auto simp: evolves_def status_moves_def identity_of_def)

lemma pet_row_moves: "pet_row_step pe a a' \<Longrightarrow> status_moves a a'"
  by (erule pet_row_step.cases) (auto simp: status_moves_def snapshot_of_def auto_resolve_row_def)

lemma pet_row_ok: "pet_row_step pe a a' \<Longrightarrow> alert_ok a \<Longrightarrow> alert_ok a'"
  by (erule pet_row_step.cases) (auto simp: alert_ok_def snapshot_of_def auto_resolve_row_def)

lemma pet_row_id: "pet_row_step pe a a' \<Longrightarrow> a_id a' = a_id a"
  by (erule pet_row_step.cases) (auto simp: snapshot_of_def auto_resolve_row_def)

lemma rowwise_find:
  assumes "rowwise pe xs ys" and "find_row a_id i xs = Some a"
  shows "\<exists>a'. find_row a_id i ys = Some a' \<and> pet_row_step pe a a'"
  using assms unfolding rowwise_def
  by (induction rule: list_all2_induct) (auto dest: pet_row_id split: if_splits)

lemma rowwise_ok:
  assumes "rowwise pe (alerts w) (alerts w')" and "alerts_ok w"
  shows "alerts_ok w'"
proof -
  have "map a_id (alerts w') = map a_id (alerts w)" if "list_all2 (pet_row_step pe) (alerts w) (alerts w')"
    using that by (induction rule: list_all2_induct) (auto dest: pet_row_id)
  moreover have "list_all alert_ok ys" if "list_all2 (pet_row_step pe) xs ys" "list_all alert_ok xs" for xs ys
    using that by (induction rule: list_all2_induct) (auto dest: pet_row_ok)
  ultimately show ?thesis using assms by (simp add: rowwise_def alerts_ok_def)
qed

lemma household_alert_moves:
  assumes "\<exists>b. find_alert i (ps_world s) = Some b \<and> status_moves a b" and "household_step s s'"
  shows "\<exists>b. find_alert i (ps_world s') = Some b \<and> status_moves a b"
proof -
  obtain b where b: "find_alert i (ps_world s) = Some b" "status_moves a b" using assms(1) by blast
  from assms(2) show ?thesis
  proof cases
    case (alert_cmd w')
    then obtain b' where "find_alert i w' = Some b'" "evolves b b'"
      using step_evolves [of i "ps_world s" b w'] b(1) by auto
    then show ?thesis using alert_cmd b(2) evolves_moves status_moves_trans by auto
  next
    case (pet_cmd pe c)
    then obtain b' where "find_alert i (ps_world s') = Some b'" "pet_row_step pe b b'"
      using rowwise_find [OF exec_pet_rowwise [OF pet_cmd(3)], of i s b pe] b(1) by (auto simp: find_alert_def)
    then show ?thesis using b(2) pet_row_moves status_moves_trans by blast
  qed
qed

interpretation household_history:
  lifecycle household_step "\<lambda>s. \<exists>b. find_alert i (ps_world s) = Some b \<and> status_moves a b"
  by unfold_locales (rule household_alert_moves)

lemma household_alerts_ok:
  assumes "alerts_ok (ps_world s)" and "household_step s s'"
  shows "alerts_ok (ps_world s')"
  using assms(2)
proof cases
  case (alert_cmd w')
  then show ?thesis using step_keeps_ok [OF assms(1) alert_cmd(2)] by simp
next
  case (pet_cmd pe c)
  then show ?thesis using rowwise_ok [OF exec_pet_rowwise [OF pet_cmd(3)]] assms(1) by blast
qed

interpretation household_alerts: lifecycle household_step "\<lambda>s. alerts_ok (ps_world s)"
  by unfold_locales (rule household_alerts_ok)

section \<open>The pet and listing tables\<close>

text \<open>What identifies a pet, without the flag and the timestamp that other components write.\<close>

definition pet_core :: "pet_row \<Rightarrow> pet_row" where
  "pet_core p = p\<lparr>p_isMissing := False, p_updated_at := 0\<rparr>"

definition pet_ok :: "pet_row \<Rightarrow> bool" where
  "pet_ok p \<longleftrightarrow> tag_ok (p_tagId p) \<and> (truthy_str (p_primaryPhoto p) \<longrightarrow> the (p_primaryPhoto p) \<in> set (p_photos p))"

definition pets_ok :: "pet_row list \<Rightarrow> bool" where
  "pets_ok ps \<longleftrightarrow> distinct (map p_id ps) \<and> distinct (map p_tagId ps) \<and> list_all pet_ok ps"

definition listing_ok :: "pet_row list \<Rightarrow> listing_row \<Rightarrow> bool" where
  "listing_ok ps l \<longleftrightarrow>
     (\<exists>p\<in>set ps. p_id p = li_petId l \<and> p_userId p = li_userId l) \<and>
     li_location_point l = (li_lon l, li_lat l) \<and> (li_status l = ADOPTED \<longleftrightarrow> li_adoptedAt l \<noteq> None)"

definition household_ok :: "pet_state \<Rightarrow> bool" where
  "household_ok s \<longleftrightarrow>
     pets_ok (pets (ps_world s)) \<and> list_all (listing_ok (pets (ps_world s))) (ps_listings s) \<and>
     distinct (map li_id (ps_listings s)) \<and> distinct (map li_petId (ps_listings s))"

text \<open>The invariant does not depend on the flag or the timestamp, nor on anything but pets and listings.\<close>

lemma pet_core_cols [simp]:
  "p_id (pet_core p) = p_id p" "p_tagId (pet_core p) = p_tagId p" "p_userId (pet_core p) = p_userId p"
  "p_photos (pet_core p) = p_photos p" "p_primaryPhoto (pet_core p) = p_primaryPhoto p" "pet_ok (pet_core p) = pet_ok p"
  by (simp_all add: pet_core_def pet_ok_def)

lemma pets_ok_core: "pets_ok (map pet_core ps) = pets_ok ps"
  by (simp add: pets_ok_def comp_def list.pred_map)

lemma listing_ok_core: "listing_ok (map pet_core ps) l = listing_ok ps l"
  by (simp add: listing_ok_def)

lemma household_ok_core:
  assumes "map pet_core (pets (ps_world s')) = map pet_core (pets (ps_world s))" and "ps_listings s' = ps_listings s"
  shows "household_ok s' = household_ok s"
proof -
  have "pets_ok (pets (ps_world s')) = pets_ok (pets (ps_world s))"
    using assms(1) pets_ok_core by metis
  moreover have "listing_ok (pets (ps_world s')) = listing_ok (pets (ps_world s))"
    using assms(1) listing_ok_core by (intro ext) metis
  ultimately show ?thesis using assms(2) by (simp add: household_ok_def)
qed

lemma core_set_missing [simp]:
  "map pet_core (pets (update_pet i (set_missing e b) w)) = map pet_core (pets w)"
  by (simp add: update_pet_def update_where_def set_missing_def pet_core_def)

text \<open>Alert commands touch nothing of a pet but its flag.\<close>

lemma pets_frames [simp]:
  "pets (publish e n st i w) = pets w" "pets (emit_audit c p w) = pets w" "pets (emit_system x y w) = pets w"
  "pets (update_alert j f w) = pets w"
  by (simp_all add: publish_def Let_def emit_audit_def emit_system_def update_alert_def split: option.split)

lemma pets_publishers [simp]:
  "pets (activated e i w) = pets w" "pets (resolved e i w) = pets w" "pets (cancelled e i w) = pets w"
  "pets (expired e i w) = pets w"
  by (simp_all add: activated_def resolved_def cancelled_def expired_def)

lemma pets_freeze [simp]: "pets (snd (freeze_snapshot e i p dto w)) = pets w"
  using freeze_only_snapshots [of e i p dto w] by auto

lemma pets_queue_calls [simp]:
  "pets (snd (queueAlertNotifications e i w)) = pets w" "pets (snd (queueSuccessStoryNotifications e i w)) = pets w"
proof -
  obtain r w' where q: "queueAlertNotifications e i w = (r, w')" by fastforce
  then obtain js where "w' = w\<lparr>queue := queue w @ js\<rparr>"
    using queue_waves_only_queue unfolding queueAlertNotifications_def by blast
  then show "pets (snd (queueAlertNotifications e i w)) = pets w" using q by simp
  obtain r' w'' where q': "queueSuccessStoryNotifications e i w = (r', w'')" by fastforce
  then obtain js' where "w'' = w\<lparr>queue := queue w @ js'\<rparr>" using queueSuccessStory_only_queue by blast
  then show "pets (snd (queueSuccessStoryNotifications e i w)) = pets w" using q' by simp
qed

lemma core_clear_missing [simp]: "map pet_core (pets (clear_missing e p w)) = map pet_core (pets w)"
  by (simp add: clear_missing_def)

lemma core_claim: "claim_pet e u p w = (r, w') \<Longrightarrow> map pet_core (pets w') = map pet_core (pets w)"
  by (auto simp: claim_pet_def split: if_splits option.splits)

lemma core_create: "map pet_core (pets (snd (create e u dto w))) = map pet_core (pets w)"
proof -
  obtain lr r where lim: "checkAlertCreationLimit (read_limits (getenv e)) (redis_up e) (now e) u (redis_db w) = (lr, r)"
    by fastforce
  obtain cr w1 where claim: "claim_pet e u (ca_petId dto) (w\<lparr>redis_db := r\<rparr>) = (cr, w1)" by fastforce
  have "map pet_core (pets w1) = map pet_core (pets w)" using core_claim [OF claim] by simp
  then show ?thesis
    using lim claim by (cases lr; cases cr) (simp_all add: create_def Let_def created_mail_state)
qed

lemma fold_expired_pets [simp]: "pets (fold (\<lambda>row. expired e (expiry_event e row)) rows w) = pets w"
  by (induction rows arbitrary: w) auto

lemma exec_core: "map pet_core (pets (exec e c w)) = map pet_core (pets w)"
proof (cases c)
  case (Create u dto)
  then show ?thesis by (simp add: core_create)
next
  case (Update i u dto)
  then show ?thesis by (cases "find_alert i w") (simp_all add: update_def Let_def)
next
  case (Resolve i u dto)
  then show ?thesis
    by (cases "find_alert i w") (simp_all add: resolve_def Let_def resolved_mail_state case_prod_beta)
next
  case (Cancel i u dto)
  then show ?thesis by (cases "find_alert i w") (simp_all add: cancel_def Let_def)
next
  case (Renew i u)
  then show ?thesis by (cases "find_alert i w") (simp_all add: renew_def Let_def)
next
  case (AddPhotos i u urls)
  then show ?thesis by (cases "findById i (Some u) w") (simp_all add: addPhotos_def Let_def)
next
  case CheckExpired
  then show ?thesis by (cases "expiry_error e") (simp_all add: checkExpired_def Let_def)
qed

section \<open>Pet commands keep the invariant\<close>

lemma tag_loop_fresh:
  assumes "tag_loop n nano k w = Inr t"
  shows "(\<exists>j. t = nano j) \<and> t \<notin> set (map p_tagId (pets w))"
  using assms
proof (induction n arbitrary: k)
  case (Suc n)
  then show ?case
    by (auto simp: find_tag_def find_None_iff split: if_splits)
qed simp

lemma createPet_cases:
  assumes "createPet pe u dto s = (r, s')" and "cp_rest dto = []"
  shows "(\<exists>err. r = Inl err \<and> s' = s) \<or>
    (\<exists>t. generateTagId pe (ps_world s) = Inr t \<and>
       validatePhotos (pe_env pe) (defaulted [] (cp_photos dto)) (cp_primaryPhoto dto) = Inr () \<and>
       find_user u (ps_world s) \<noteq> None \<and> cp_petTypeId dto \<in> set (ps_types s) \<and>
       r = Inr (new_pet_row pe u t dto (ps_world s)) \<and>
       s' = s\<lparr>ps_world := (ps_world s)\<lparr>pets := pets (ps_world s) @ [new_pet_row pe u t dto (ps_world s)]\<rparr>\<rparr>)"
  using assms
  by (auto simp: createPet_def requirePetType_def Let_def split: sum.splits if_splits)

lemma new_pet_ok:
  assumes "validatePhotos e (defaulted [] (cp_photos dto)) (cp_primaryPhoto dto) = Inr ()" and "tag_ok t"
  shows "pet_ok (new_pet_row pe u t dto w)"
  using assms by (auto simp: pet_ok_def new_pet_row_def validatePhotos_def split: if_splits)

lemma pets_ok_snoc:
  assumes "pets_ok ps" and "pet_ok p" and "p_id p = next_id p_id ps" and "p_tagId p \<notin> set (map p_tagId ps)"
  shows "pets_ok (ps @ [p])"
proof -
  have "p_id p \<notin> p_id ` set ps" using assms(3) next_id_fresh [of _ ps p_id] by fastforce
  then show ?thesis using assms by (simp add: pets_ok_def)
qed

lemma listing_ok_mono: "listing_ok ps l \<Longrightarrow> set ps \<subseteq> set qs \<Longrightarrow> listing_ok qs l"
  by (auto simp: listing_ok_def)

lemma createPet_ok:
  assumes "household_ok s" and "nanoid_ok pe" and "createPet pe u dto s = (r, s')" and "cp_rest dto = []"
  shows "household_ok s' \<and> ps_listings s' = ps_listings s \<and>
    (\<forall>p. r = Inr p \<longrightarrow> p \<in> set (pets (ps_world s')) \<and> p_userId p = u \<and> p_id p = next_id p_id (pets (ps_world s)))"
  using createPet_cases [OF assms(3,4)]
proof (elim disjE exE conjE)
  fix t assume t: "generateTagId pe (ps_world s) = Inr t"
    and v: "validatePhotos (pe_env pe) (defaulted [] (cp_photos dto)) (cp_primaryPhoto dto) = Inr ()"
    and r: "r = Inr (new_pet_row pe u t dto (ps_world s))"
    and s': "s' = s\<lparr>ps_world := (ps_world s)\<lparr>pets := pets (ps_world s) @ [new_pet_row pe u t dto (ps_world s)]\<rparr>\<rparr>"
  let ?p = "new_pet_row pe u t dto (ps_world s)"
  have p: "p_id ?p = next_id p_id (pets (ps_world s))" "p_tagId ?p = t" "p_userId ?p = u" by (simp_all add: new_pet_row_def)
  have "tag_ok t" "t \<notin> set (map p_tagId (pets (ps_world s)))"
    using tag_loop_fresh t assms(2) unfolding generateTagId_def nanoid_ok_def by metis+
  then have "pets_ok (pets (ps_world s) @ [?p])"
    using assms(1) p new_pet_ok [OF v] by (intro pets_ok_snoc) (auto simp: household_ok_def)
  moreover have "list_all (listing_ok (pets (ps_world s) @ [?p])) (ps_listings s)"
    using assms(1) by (auto simp: household_ok_def list_all_iff intro: listing_ok_mono)
  ultimately show ?thesis using assms(1) s' r p by (simp add: household_ok_def)
qed (use assms(1) in auto)

text \<open>An edit by primary key that keeps id, tag and owner keeps the tables in order.\<close>

lemma household_ok_update_pet:
  assumes "household_ok s" and "\<And>p. p_id (f p) = p_id p \<and> p_tagId (f p) = p_tagId p \<and> p_userId (f p) = p_userId p"
    and "\<And>p. find_pet i (ps_world s) = Some p \<Longrightarrow> pet_ok p \<Longrightarrow> pet_ok (f p)"
    and "pets w' = pets (update_pet i f (ps_world s))"
  shows "household_ok (s\<lparr>ps_world := w'\<rparr>)"
proof -
  let ?ps = "pets (ps_world s)" and ?qs = "update_where (\<lambda>p. p_id p = i) f (pets (ps_world s))"
  have q: "pets w' = ?qs" using assms(4) by (simp add: update_pet_def)
  have cols: "map p_id ?qs = map p_id ?ps" "map p_tagId ?qs = map p_tagId ?ps"
    using assms(2) by (simp_all add: update_where_def)
  have d: "distinct (map p_id ?ps)" "list_all pet_ok ?ps" using assms(1) by (simp_all add: household_ok_def pets_ok_def)
  have "pet_ok (f p)" if "p \<in> set ?ps" "p_id p = i" for p
    using that d assms(3) [of p] find_row_distinct [OF d(1) that(1)] by (auto simp: find_pet_def list_all_iff)
  then have ok: "list_all pet_ok ?qs" using d(2) by (auto simp: list_all_iff update_where_def)
  have lst: "listing_ok ?qs l" if l: "listing_ok ?ps l" for l
  proof -
    obtain p where p: "p \<in> set ?ps" "p_id p = li_petId l" "p_userId p = li_userId l" using l by (auto simp: listing_ok_def)
    then have "(if p_id p = i then f p else p) \<in> set ?qs" by (auto simp: update_where_def)
    moreover have "p_id (if p_id p = i then f p else p) = li_petId l" "p_userId (if p_id p = i then f p else p) = li_userId l"
      using assms(2) p by auto
    ultimately have "\<exists>q\<in>set ?qs. p_id q = li_petId l \<and> p_userId q = li_userId l" by blast
    then show ?thesis using l by (simp add: listing_ok_def)
  qed
  show ?thesis
    using assms(1) cols ok lst by (auto simp: household_ok_def pets_ok_def q list_all_iff)
qed

lemma update_pet_row_ok:
  assumes "photos_accepted pe dto pet" and "pet_ok pet"
  shows "pet_ok (update_pet_row pe dto pet)"
proof (cases "photos_touched dto")
  case True
  then show ?thesis using assms(2) by (auto simp: pet_ok_def update_pet_row_def Let_def)
next
  case False
  then have "up_photos dto = Absent" "up_primaryPhoto dto = Absent" by (auto simp: photos_touched_def)
  then show ?thesis using assms(2) by (simp add: pet_ok_def update_pet_row_def Let_def photos_touched_def)
qed

lemma findOnePet_SomeD: "findOnePet i u w = Inr p \<Longrightarrow> find_pet i w = Some p"
  by (auto simp: findOnePet_def split: option.splits if_splits)

lemma updatePet_ok:
  assumes "household_ok s" and "up_rest dto = []"
  shows "household_ok (snd (updatePet pe i u dto s)) \<and> ps_listings (snd (updatePet pe i u dto s)) = ps_listings s"
  using updatePet_state [OF assms(2), of pe i u s]
proof (elim disjE exE conjE)
  fix pet assume f: "findOnePet i (Some u) (ps_world s) = Inr pet" and v: "photos_accepted pe dto pet"
    and upd: "updatePet pe i u dto s = (Inr (update_pet_row pe dto pet), pet_edited pe i dto pet s)"
  have w: "pets (ps_world (pet_edited pe i dto pet s)) = pets (update_pet i (update_pet_row pe dto) (ps_world s))"
    by (simp add: pet_edited_def syncAlertSnapshots_def Let_def)
  have "household_ok (s\<lparr>ps_world := ps_world (pet_edited pe i dto pet s)\<rparr>)"
  proof (rule household_ok_update_pet [OF assms(1) _ _ w])
    show "p_id (update_pet_row pe dto p) = p_id p \<and> p_tagId (update_pet_row pe dto p) = p_tagId p \<and>
        p_userId (update_pet_row pe dto p) = p_userId p" for p by (simp add: update_pet_row_def Let_def)
    show "pet_ok (update_pet_row pe dto p)" if "find_pet i (ps_world s) = Some p" "pet_ok p" for p
      using that v findOnePet_SomeD [OF f] by (simp add: update_pet_row_ok)
  qed
  moreover have "s\<lparr>ps_world := ps_world (pet_edited pe i dto pet s)\<rparr> = pet_edited pe i dto pet s"
    by (simp add: pet_edited_def Let_def)
  ultimately show ?thesis using upd by (simp add: pet_edited_def Let_def)
qed (use assms in auto)

lemma deletePet_ok:
  assumes "household_ok s"
  shows "household_ok (snd (deletePet i u s))"
proof (cases "findOnePet i (Some u) (ps_world s)")
  case (Inr pet)
  let ?ps = "pets (ps_world s)"
  have "pets_ok (delete_where (\<lambda>p. p_id p = i) ?ps)"
    using assms by (auto simp: household_ok_def pets_ok_def list_all_iff delete_where_def distinct_map_filter)
  moreover have "listing_ok (delete_where (\<lambda>p. p_id p = i) ?ps) l" if "listing_ok ?ps l" "li_petId l \<noteq> i" for l
    using that by (auto simp: listing_ok_def)
  ultimately show ?thesis
    using assms Inr
    by (auto simp: deletePet_def Let_def household_ok_def list_all_iff)
      (auto simp: delete_where_def distinct_map_filter)
qed (use assms in \<open>simp add: deletePet_def\<close>)

lemma household_ok_update_listing:
  assumes "household_ok s" and "\<And>l. li_id (f l) = li_id l \<and> li_petId (f l) = li_petId l"
    and "\<And>l. find_listing i s = Some l \<Longrightarrow> listing_ok (pets (ps_world s)) l \<Longrightarrow> listing_ok (pets (ps_world s)) (f l)"
  shows "household_ok (update_listing i f s)"
proof -
  let ?ls = "ps_listings s" and ?ok = "listing_ok (pets (ps_world s))"
  have d: "distinct (map li_id ?ls)" "list_all ?ok ?ls" using assms(1) by (simp_all add: household_ok_def)
  have "?ok (f l)" if "l \<in> set ?ls" "li_id l = i" for l
    using that d assms(3) [of l] find_row_distinct [OF d(1) that(1)] by (auto simp: find_listing_def list_all_iff)
  then have "list_all ?ok (update_where (\<lambda>l. li_id l = i) f ?ls)"
    using d(2) by (auto simp: list_all_iff update_where_def)
  moreover have "map li_id (update_where (\<lambda>l. li_id l = i) f ?ls) = map li_id ?ls"
      "map li_petId (update_where (\<lambda>l. li_id l = i) f ?ls) = map li_petId ?ls"
    using assms(2) by (simp_all add: update_where_def)
  ultimately show ?thesis using assms(1) by (simp add: household_ok_def update_listing_def)
qed

lemma createListing_ok:
  assumes "household_ok s" and "nanoid_ok pe" and "cp_rest (cl_pet dto) = []"
  shows "household_ok (snd (createListing pe u dto s))"
proof -
  obtain r s1 where c: "createPet pe u (cl_pet dto) s = (r, s1)" by fastforce
  note ok = createPet_ok [OF assms(1,2) c assms(3)]
  show ?thesis
  proof (cases r)
    case (Inl err)
    then show ?thesis using c assms(1) by (simp add: createListing_def)
  next
    case (Inr p)
    then have p: "p \<in> set (pets (ps_world s1))" "p_userId p = u" and h: "household_ok s1" using ok by auto
    let ?l = "new_listing_row pe u (p_id p) dto s1"
    have "listing_ok (pets (ps_world s1)) ?l" using p by (auto simp: listing_ok_def new_listing_row_def)
    moreover have "li_id ?l \<notin> li_id ` set (ps_listings s1)"
      using next_id_fresh [of _ "ps_listings s1" li_id] by (fastforce simp: new_listing_row_def)
    moreover have "li_petId ?l \<notin> li_petId ` set (ps_listings s1)"
      if "\<not> list_ex (\<lambda>l. li_petId l = p_id p) (ps_listings s1)"
      using that by (auto simp: list_ex_iff new_listing_row_def)
    ultimately show ?thesis
      using c Inr h assms(1) by (auto simp: createListing_def Let_def household_ok_def)
  qed
qed

lemma update_listing_row_ok:
  assumes "listing_ok ps l" and "(ul_lat dto \<noteq> Absent) = (ul_lon dto \<noteq> Absent)"
  shows "listing_ok ps (update_listing_row pe dto l)"
  using assms by (cases "ul_lat dto") (auto simp: listing_ok_def update_listing_row_def Let_def)

lemma updateListing_ok:
  assumes "household_ok s" and "up_rest (ul_pet dto) = []"
  shows "household_ok (snd (updateListing pe i u dto s))"
proof (cases "requireOwned i u s")
  case (Inr l)
  obtain r s1 where upd: "updatePet pe (li_petId l) u (ul_pet dto) s = (r, s1)" by fastforce
  have s1: "household_ok s1" using updatePet_ok [OF assms, of pe "li_petId l" u] upd by simp
  have "household_ok (update_listing i (update_listing_row pe dto) t)"
    if "household_ok t" "(ul_lat dto \<noteq> Absent) = (ul_lon dto \<noteq> Absent)" for t
    using that by (intro household_ok_update_listing) (auto simp: update_listing_row_ok, auto simp: update_listing_row_def Let_def)
  then show ?thesis using Inr upd s1 assms by (cases r) (auto simp: updateListing_def)
qed (use assms(1) in \<open>simp add: updateListing_def\<close>)

lemma status_commands_ok:
  assumes "household_ok s"
  shows "household_ok (snd (markAdopted pe i u s))" "household_ok (snd (withdraw pe i u s))"
    "household_ok (snd (relist pe i u s))"
proof -
  have own: "find_listing i s = Some l" if "requireOwned i u s = Inr l" for l
    using that by (auto simp: requireOwned_def split: option.splits if_splits)
  show "household_ok (snd (markAdopted pe i u s))"
    using assms
    by (auto simp: markAdopted_def listing_ok_def adopted_row_def intro!: household_ok_update_listing split: sum.split)
  show "household_ok (snd (withdraw pe i u s))" "household_ok (snd (relist pe i u s))"
    using assms own
    by (auto simp: withdraw_def relist_def listing_ok_def status_row_def intro!: household_ok_update_listing
        split: sum.split)
qed

lemma exec_pet_ok:
  assumes "household_ok s" and "nanoid_ok pe" and "documented c"
  shows "household_ok (exec_pet pe c s)"
proof (cases c)
  case (CreatePet u dto)
  have "cp_rest dto = []" using assms(3) CreatePet by (simp add: documented_def)
  then show ?thesis using createPet_ok [OF assms(1,2), of u dto] CreatePet by (metis exec_pet.simps(1) prod.collapse)
next
  case (MarkMissing i u)
  have "household_ok (s\<lparr>ps_world := update_pet i (set_missing (pe_env pe) True) (ps_world s)\<rparr>)"
    using assms(1) household_ok_core [of "s\<lparr>ps_world := update_pet i (set_missing (pe_env pe) True) (ps_world s)\<rparr>" s] by simp
  then show ?thesis using MarkMissing assms(1) by (auto simp: markAsMissing_def Let_def split: sum.split)
next
  case (MarkFound i u)
  let ?w = "update_pet i (set_missing (pe_env pe) False) (ps_world s)"
  have "pets (auto_resolve pe i u w) = pets w" for w by (simp add: auto_resolve_def Let_def)
  then have "household_ok (s\<lparr>ps_world := auto_resolve pe i u ?w\<rparr>)" "household_ok (s\<lparr>ps_world := ?w\<rparr>)"
    using assms(1) household_ok_core [of "s\<lparr>ps_world := auto_resolve pe i u ?w\<rparr>" s]
      household_ok_core [of "s\<lparr>ps_world := ?w\<rparr>" s] by simp_all
  then show ?thesis using MarkFound assms(1) by (auto simp: markAsFound_def Let_def split: sum.split)
next
  case (RemoveListing i u)
  then show ?thesis using assms(1) deletePet_ok by (auto simp: removeListing_def split: sum.split)
next
  case (AddListingPhotos i u urls)
  have "household_ok (s\<lparr>ps_world := update_pet j (push_photos pe urls) (ps_world s)\<rparr>)" for j
    by (rule household_ok_update_pet [OF assms(1), where i = j and f = "push_photos pe urls"]) (auto simp: push_photos_def pet_ok_def)
  then show ?thesis using AddListingPhotos assms(1) by (auto simp: addListingPhotos_def Let_def split: sum.split)
qed (use assms in \<open>simp_all add: documented_def updatePet_ok deletePet_ok createListing_ok updateListing_ok status_commands_ok\<close>)

lemma household_ok_step:
  assumes "household_ok s" and "household_step s s'"
  shows "household_ok s'"
  using assms(2)
proof cases
  case (alert_cmd w')
  then obtain e c where "w' = exec e c (ps_world s)" by auto
  then show ?thesis
    using assms(1) household_ok_core [of s' s] exec_core [of e c "ps_world s"] alert_cmd(1) by simp
next
  case (pet_cmd pe c)
  then show ?thesis using exec_pet_ok [OF assms(1) pet_cmd(2,3)] by simp
qed

interpretation household_tables: lifecycle household_step household_ok
  by unfold_locales (rule household_ok_step)

section \<open>Properties\<close>

definition demo_pet_env :: pet_env where
  "demo_pet_env = \<lparr>pe_env = demo_env 9, pe_nanoid = (\<lambda>_. ''PET7K9X2B''), pe_alerts_ok = True,
     pe_spread = (\<lambda>_ _ _. Inl (Error ''Unknown argument''))\<rparr>"

definition demo_household :: pet_state where
  "demo_household = \<lparr>ps_world = demo_world, ps_types = [1], ps_listings = []\<rparr>"

lemma demo_nanoid [simp]: "nanoid_ok demo_pet_env"
  by (simp add: nanoid_ok_def demo_pet_env_def tag_ok_def TAG_ID_LENGTH_def TAG_ID_ALPHABET_def)

lemma demo_household_simps [simp]:
  "ps_world demo_household = demo_world" "ps_listings demo_household = []" "ps_types demo_household = [1]"
  by (simp_all add: demo_household_def)

lemma demo_found_step: "reaches household_step demo_household (exec_pet demo_pet_env (MarkFound 3 7) demo_household)"
  by (rule reaches_step [OF reaches_refl]) (rule pet_cmd [OF demo_nanoid], simp add: documented_def)

text \<open>
  C16. Alerts and pets together: along every sequence of alert commands with pet and adoption
  commands (edits with documented bodies, deletion, marking as found, listing), one after another, an
  alert keeps its id, creator, position and creation time and is linked to its pet or, after the pet is
  deleted, to none; once it is not ACTIVE it is never ACTIVE again, a RESOLVED alert stays RESOLVED and a
  CANCELLED one can only become RESOLVED; and the alert table keeps its invariant. An edit with
  undocumented keys escapes this: \<open>pet_edit_reopens_alert\<close>.
\<close>

theorem household_alerts_final:
  assumes "reaches household_step s s'" and "alerts_ok (ps_world s)"
  shows "alerts_ok (ps_world s') \<and>
    (\<forall>i a. find_alert i (ps_world s) = Some a \<longrightarrow>
       (\<exists>a'. find_alert i (ps_world s') = Some a' \<and> status_moves a a'))"
proof (intro conjI allI impI)
  show "alerts_ok (ps_world s')" using assms by (rule household_alerts.reaches_good)
  fix i a assume "find_alert i (ps_world s) = Some a"
  then show "\<exists>a'. find_alert i (ps_world s') = Some a' \<and> status_moves a a'"
    by (intro household_history.reaches_good [OF assms(1)]) (auto simp: status_moves_def)
qed

lemma demo_world_alerts_ok [simp]: "alerts_ok demo_world"
  by (simp add: alerts_ok_def demo_world_def alert_ok_def demo_alert_def num_between_def)

theorem household_alerts_final_witness:
  "\<exists>a'. find_alert 41 (ps_world (exec_pet demo_pet_env (MarkFound 3 7) demo_household)) = Some a' \<and> status_moves demo_alert a'"
proof -
  have "alerts_ok (ps_world demo_household)" "find_alert 41 (ps_world demo_household) = Some demo_alert" by simp_all
  then show ?thesis using household_alerts_final [OF demo_found_step] by blast
qed

text \<open>
  C15. The pet and listing tables: along every such sequence pet ids and collar tags are unique, every
  tag has nine characters of the tag alphabet, a chosen primary photo is one of the pet's photos, every
  listing belongs to an existing pet of the same owner, at most one per pet, with its point at its
  coordinates, and it carries an adoption time exactly when it is ADOPTED. Bodies are documented ones:
  \<open>/pets\<close> does not drop other keys, and \<open>pet_given_away\<close> shows what they can do.
\<close>

theorem household_invariant:
  assumes "reaches household_step s s'" and "household_ok s"
  shows "household_ok s'"
  using assms by (rule household_tables.reaches_good)

theorem household_invariant_witness:
  "household_ok (exec_pet demo_pet_env (MarkFound 3 7) demo_household)"
proof -
  have "household_ok demo_household"
    by (simp add: household_ok_def pets_ok_def pet_ok_def demo_world_def demo_pet_row_def tag_ok_def TAG_ID_LENGTH_def
        TAG_ID_ALPHABET_def)
  then show ?thesis by (rule household_invariant [OF demo_found_step])
qed

lemma bus_fold_resolved:
  "bus (fold (\<lambda>a. resolved e (f a)) xs w) =
   bus w @ concat (map (\<lambda>a. [(AlertEventNames EV_RESOLVED, mk_event e RESOLVED (f a)),
                            (AlertEventNames STATUS_CHANGED, mk_event e RESOLVED (f a))]) xs)"
  by (induction xs arbitrary: w) (simp_all add: publisher_defs)

lemma fold_resolved_rest:
  "queue (fold (\<lambda>a. resolved e (f a)) xs w) = queue w" "snapshots (fold (\<lambda>a. resolved e (f a)) xs w) = snapshots w"
  by (induction xs arbitrary: w) (simp_all add: publisher_defs)

lemma auto_resolve_effects:
  assumes "distinct (map a_id (alerts w))"
  shows "find_alert j (auto_resolve pe i u w) =
      map_option (\<lambda>a. if is_live_for i a then auto_resolve_row pe a else a) (find_alert j w)"
    and "bus (auto_resolve pe i u w) = bus w @ concat (map (\<lambda>a.
      [(AlertEventNames EV_RESOLVED, mk_event (pe_env pe) RESOLVED (found_event pe i u a)),
       (AlertEventNames STATUS_CHANGED, mk_event (pe_env pe) RESOLVED (found_event pe i u a))]) (filter (is_live_for i) (alerts w)))"
    and "queue (auto_resolve pe i u w) = queue w" and "snapshots (auto_resolve pe i u w) = snapshots w"
proof -
  let ?p = "\<lambda>a. a_id a \<in> a_id ` set (filter (is_live_for i) (alerts w)) \<and> a_status a = ACTIVE"
  have row: "?p a \<longleftrightarrow> is_live_for i a" if "a \<in> set (alerts w)" for a
    using that assms by (auto simp: is_live_for_def distinct_map inj_on_def)
  have "find_alert j (auto_resolve pe i u w) = map_option (\<lambda>a. if ?p a then auto_resolve_row pe a else a) (find_alert j w)"
    unfolding find_alert_def auto_resolve_alerts by (rule find_row_update) (simp add: auto_resolve_row_def)
  also have "\<dots> = map_option (\<lambda>a. if is_live_for i a then auto_resolve_row pe a else a) (find_alert j w)"
  proof (cases "find_alert j w")
    case (Some a)
    then have "a \<in> set (alerts w)" by (auto simp: find_alert_def dest: find_row_Some)
    then show ?thesis using Some row by simp
  qed simp
  finally show "find_alert j (auto_resolve pe i u w) =
      map_option (\<lambda>a. if is_live_for i a then auto_resolve_row pe a else a) (find_alert j w)" .
  show "bus (auto_resolve pe i u w) = bus w @ concat (map (\<lambda>a.
      [(AlertEventNames EV_RESOLVED, mk_event (pe_env pe) RESOLVED (found_event pe i u a)),
       (AlertEventNames STATUS_CHANGED, mk_event (pe_env pe) RESOLVED (found_event pe i u a))]) (filter (is_live_for i) (alerts w)))"
    "queue (auto_resolve pe i u w) = queue w" "snapshots (auto_resolve pe i u w) = snapshots w"
    by (simp_all add: auto_resolve_def Let_def bus_fold_resolved fold_resolved_rest)
qed

text \<open>
  Marking a pet as found: it succeeds exactly for the owner of an existing pet that is marked as
  missing, and otherwise changes nothing. Then exactly the ACTIVE alerts of the pet become RESOLVED at
  this instant with the fixed note, every other alert is untouched, one resolution event per such alert is
  published in table order, and neither a success story is queued nor a reunion snapshot written.
\<close>

theorem markAsFound_effects:
  assumes "distinct (map a_id (alerts (ps_world s)))" and "pe_alerts_ok pe"
  shows "(\<exists>pet. find_pet i (ps_world s) = Some pet \<and> p_userId pet = u \<and> p_isMissing pet \<and>
       (\<exists>s'. markAsFound pe i u s = (Inr (set_missing (pe_env pe) False pet), s') \<and>
         find_pet i (ps_world s') = Some (set_missing (pe_env pe) False pet) \<and>
         (\<forall>j. find_alert j (ps_world s') =
            map_option (\<lambda>a. if is_live_for i a then auto_resolve_row pe a else a) (find_alert j (ps_world s))) \<and>
         bus (ps_world s') = bus (ps_world s) @ concat (map (\<lambda>a.
            [(AlertEventNames EV_RESOLVED, mk_event (pe_env pe) RESOLVED (found_event pe i u a)),
             (AlertEventNames STATUS_CHANGED, mk_event (pe_env pe) RESOLVED (found_event pe i u a))])
            (filter (is_live_for i) (alerts (ps_world s)))) \<and>
         queue (ps_world s') = queue (ps_world s) \<and> snapshots (ps_world s') = snapshots (ps_world s))) \<or>
    \<not> (\<exists>pet. find_pet i (ps_world s) = Some pet \<and> p_userId pet = u \<and> p_isMissing pet) \<and>
      (\<exists>err. markAsFound pe i u s = (Inl err, s))"
proof (cases "\<exists>pet. find_pet i (ps_world s) = Some pet \<and> p_userId pet = u \<and> p_isMissing pet")
  case True
  then obtain pet where p: "find_pet i (ps_world s) = Some pet" "p_userId pet = u" "p_isMissing pet" by blast
  let ?w = "update_pet i (set_missing (pe_env pe) False) (ps_world s)"
  have m: "markAsFound pe i u s = (Inr (set_missing (pe_env pe) False pet), s\<lparr>ps_world := auto_resolve pe i u ?w\<rparr>)"
    using p assms(2) by (simp add: markAsFound_def findOnePet_def Let_def)
  have "find_pet i ?w = Some (set_missing (pe_env pe) False pet)"
    using p(1) by (intro pet_store.get_put_same) (simp_all add: set_missing_def)
  then have fp: "find_pet i (auto_resolve pe i u ?w) = Some (set_missing (pe_env pe) False pet)"
    by (simp add: find_pet_def auto_resolve_def Let_def)
  have d: "distinct (map a_id (alerts ?w))" using assms(1) by simp
  have rest: "bus ?w = bus (ps_world s)" "queue ?w = queue (ps_world s)" "snapshots ?w = snapshots (ps_world s)"
    by (simp_all add: update_pet_def)
  show ?thesis
    using p m fp auto_resolve_effects(1) [OF d, of _ pe i u] auto_resolve_effects(2-4) [OF d, of pe i u] rest
    by (intro disjI1 exI [of _ pet] conjI exI [of _ "s\<lparr>ps_world := auto_resolve pe i u ?w\<rparr>"]) simp_all
next
  case False
  then have "\<exists>err. markAsFound pe i u s = (Inl err, s)"
    by (auto simp: markAsFound_def findOnePet_def Let_def split: option.split)
  then show ?thesis using False by blast
qed

theorem markAsFound_effects_witness:
  "\<exists>s'. markAsFound demo_pet_env 3 7 demo_household = (Inr (set_missing (demo_env 9) False demo_pet_row), s') \<and>
     find_alert 41 (ps_world s') = Some (auto_resolve_row demo_pet_env demo_alert)"
proof -
  have "distinct (map a_id (alerts (ps_world demo_household)))" "pe_alerts_ok demo_pet_env"
    "find_pet 3 (ps_world demo_household) = Some demo_pet_row" "p_userId demo_pet_row = 7" "p_isMissing demo_pet_row"
    "is_live_for 3 demo_alert" "pe_env demo_pet_env = demo_env 9"
    by (simp_all add: demo_world_def demo_pet_env_def demo_pet_row_def find_pet_def is_live_for_def)
  then show ?thesis
    using markAsFound_effects [of demo_household demo_pet_env 3 7] by fastforce
qed

text \<open>
  Edits of a pet reach its open alerts. When an edit that names the pet or touches its photos is
  accepted, every DRAFT or ACTIVE alert of the pet shows the new name and the new photos with the primary
  photo first, without changing anything else, and every closed alert and every alert of another pet is untouched.
\<close>

theorem edit_reaches_open_alerts:
  assumes "updatePet pe i u dto s = (Inr p, s')" and "up_rest dto = []" and "photos_touched dto \<or> up_name dto \<noteq> Absent"
    and "find_alert j (ps_world s) = Some a"
  shows "find_pet i (ps_world s') = Some p \<and> p_userId p = u \<and>
    find_alert j (ps_world s') = Some (if is_open_for i a then snapshot_of pe p a else a) \<and>
    set (orderedPetPhotos p) = set (p_photos p) \<and>
    (truthy_str (p_primaryPhoto p) \<and> the (p_primaryPhoto p) \<in> set (p_photos p) \<longrightarrow>
       hd (orderedPetPhotos p) = the (p_primaryPhoto p))"
proof -
  obtain pet where f: "findOnePet i (Some u) (ps_world s) = Inr pet" and p: "p = update_pet_row pe dto pet"
    and s': "s' = pet_edited pe i dto pet s"
    using updatePet_state [OF assms(2), of pe i u s] assms(1) by auto
  have fp: "find_pet i (ps_world s) = Some pet" "p_userId pet = u" "p_id pet = i"
    using f by (auto simp: findOnePet_def find_pet_def split: option.splits if_splits dest: find_row_Some)
  have ids: "p_id p = i" "p_userId p = u" using fp by (simp_all add: p update_pet_row_def Let_def)
  let ?w1 = "update_pet i (update_pet_row pe dto) (ps_world s)"
  have w': "ps_world s' = syncAlertSnapshots pe p ?w1" using s' p assms(3) by (simp add: pet_edited_def Let_def)
  have 1: "find_pet i (ps_world s') = Some p"
  proof -
    have "find_pet i ?w1 = Some p"
      unfolding p using fp(1) by (intro pet_store.get_put_same) (simp_all add: update_pet_row_def Let_def)
    then show ?thesis by (simp add: w' syncAlertSnapshots_def find_pet_def)
  qed
  have 2: "find_alert j (ps_world s') = Some (if is_open_for i a then snapshot_of pe p a else a)"
    using assms(4) ids
    by (simp add: w' syncAlertSnapshots_def find_alert_def find_row_update snapshot_of_def)
  have 3: "set (orderedPetPhotos p) = set (p_photos p)"
    by (auto simp: orderedPetPhotos_def Let_def)
  show ?thesis using 1 2 3 ids by (simp add: orderedPetPhotos_def Let_def)
qed

definition demo_rename :: update_pet_dto where
  "demo_rename = \<lparr>up_petTypeId = Absent, up_name = Given ''Bello'', up_gender = Absent, up_photos = Absent,
     up_primaryPhoto = Absent, up_size = Absent, up_birthday = Absent, up_isMissing = Absent, up_rest = []\<rparr>"

theorem edit_reaches_open_alerts_witness:
  "\<exists>p s'. updatePet demo_pet_env 3 7 demo_rename demo_household = (Inr p, s') \<and>
     find_alert 41 (ps_world s') = Some (snapshot_of demo_pet_env p demo_alert)"
proof -
  have "\<exists>p s'. updatePet demo_pet_env 3 7 demo_rename demo_household = (Inr p, s')"
    by (simp add: updatePet_def findOnePet_def demo_rename_def photos_touched_def pet_update_accepted_def Let_def demo_pet_row_def)
  then obtain p s' where u: "updatePet demo_pet_env 3 7 demo_rename demo_household = (Inr p, s')" by blast
  have "find_alert 41 (ps_world demo_household) = Some demo_alert" "up_rest demo_rename = []" "up_name demo_rename \<noteq> Absent" "is_open_for 3 demo_alert"
    by (simp_all add: demo_rename_def is_open_for_def)
  then show ?thesis using edit_reaches_open_alerts [OF u, of 41 demo_alert] u by auto
qed

section \<open>The adoption board\<close>

lemma requireOwned_Inr: "requireOwned i u s = Inr l \<longleftrightarrow> find_listing i s = Some l \<and> li_userId l = u"
  by (auto simp: requireOwned_def split: option.split)

text \<open>How a listing may change in one command.\<close>

definition listing_moves :: "pet_cmd \<Rightarrow> listing_row \<Rightarrow> listing_row \<Rightarrow> bool" where
  "listing_moves c l l' \<longleftrightarrow>
     li_id l' = li_id l \<and> li_petId l' = li_petId l \<and> li_userId l' = li_userId l \<and> li_created_at l' = li_created_at l \<and>
     (li_status l' = li_status l \<and> li_adoptedAt l' = li_adoptedAt l \<or>
      li_status l = AVAILABLE \<and> li_status l' = ADOPTED \<and> c = MarkAdopted (li_id l) (li_userId l) \<or>
      li_status l = AVAILABLE \<and> li_status l' = WITHDRAWN \<and> c = Withdraw (li_id l) (li_userId l) \<or>
      li_status l = WITHDRAWN \<and> li_status l' = AVAILABLE \<and> c = Relist (li_id l) (li_userId l))"

lemma listing_moves_refl [simp]: "listing_moves c l l"
  by (simp add: listing_moves_def)

lemma update_listing_row_cols [simp]:
  "li_id (update_listing_row pe dto l) = li_id l" "li_petId (update_listing_row pe dto l) = li_petId l"
  "li_userId (update_listing_row pe dto l) = li_userId l" "li_status (update_listing_row pe dto l) = li_status l"
  "li_adoptedAt (update_listing_row pe dto l) = li_adoptedAt l" "li_created_at (update_listing_row pe dto l) = li_created_at l"
  by (simp_all add: update_listing_row_def Let_def)

lemma find_listing_put:
  assumes "\<And>l. li_id (f l) = li_id l" and "find_listing i s = Some l" and "find_listing i (update_listing j f s) = Some l'"
  shows "l' = l \<or> (j = i \<and> l' = f l)"
  using listing_store.get_put [of f i j s] assms by (auto split: if_splits)

lemma listing_cmd_moves:
  assumes "household_ok s" and "find_listing i s = Some l" and "find_listing i (exec_pet pe c s) = Some l'"
    and "documented c"
  shows "listing_moves c l l'"
proof -
  have l: "l \<in> set (ps_listings s)" "li_id l = i" using assms(2) by (auto simp: find_listing_def dest: find_row_Some)
  have d: "distinct (map li_id (ps_listings s))" using assms(1) by (simp add: household_ok_def)
  have kept: "l' = l" if "find_listing i t = Some l'" "\<And>x. x \<in> set (ps_listings t) \<Longrightarrow> li_id x = i \<Longrightarrow> x \<in> set (ps_listings s)" for t
  proof -
    have "l' \<in> set (ps_listings s)" "li_id l' = i"
      using that find_row_Some [of li_id i "ps_listings t" l'] by (auto simp: find_listing_def)
    then show ?thesis using l d by (metis inj_on_contraD distinct_map)
  qed
  have del: "l' = l" if "find_listing i (snd (deletePet j u s)) = Some l'" for j u
    by (rule kept [OF that]) (auto simp: deletePet_def Let_def split: sum.splits)
  show ?thesis
  proof (cases c)
    case (CreatePet u dto)
    have "l' = l" using assms(3) unfolding CreatePet exec_pet.simps
      by (rule kept) (use assms(4) CreatePet in \<open>auto simp: documented_def createPet_def Let_def split: sum.splits if_splits\<close>)
    then show ?thesis by simp
  next
    case (UpdatePet j u dto)
    have "ps_listings (snd (updatePet pe j u dto s)) = ps_listings s"
      using updatePet_ok [OF assms(1)] assms(4) UpdatePet by (simp add: documented_def)
    then have "l' = l" using assms(3) unfolding UpdatePet exec_pet.simps by (metis kept)
    then show ?thesis by simp
  next
    case (DeletePet j u)
    then show ?thesis using assms(3) del by auto
  next
    case (CreateListing u dto)
    let ?dto = "whitelist_create dto"
    obtain r s1 where cp: "createPet pe u (cl_pet ?dto) s = (r, s1)" by fastforce
    have s1: "ps_listings s1 = ps_listings s" using createPet_cases [OF cp] by auto
    have n: "li_id (new_listing_row pe u q ?dto s1) \<noteq> i" for q
      using next_id_fresh [OF l(1), of li_id] l(2) s1 by (simp add: new_listing_row_def)
    have "l' = l" using assms(3) unfolding CreateListing exec_pet.simps
      by (rule kept) (use cp s1 n in \<open>auto simp: createListing_def Let_def split: sum.splits if_splits\<close>)
    then show ?thesis by simp
  next
    case (UpdateListing j u dto)
    let ?dto = "whitelist_update dto"
    have k: "li_id (update_listing_row pe ?dto x) = li_id x" for x by simp
    have "l' = l \<or> l' = update_listing_row pe ?dto l"
    proof (cases "requireOwned j u s")
      case (Inl err)
      then show ?thesis using assms(2,3) UpdateListing by (simp add: updateListing_def)
    next
      case (Inr x)
      obtain r s1 where up: "updatePet pe (li_petId x) u (ul_pet ?dto) s = (r, s1)" by fastforce
      have f1: "find_listing i s1 = Some l"
        using updatePet_ok [OF assms(1), of "ul_pet ?dto" pe "li_petId x" u] up assms(2) by (simp add: find_listing_def)
      show ?thesis
        using assms(2,3) f1 find_listing_put [OF k assms(2)] find_listing_put [OF k f1] up Inr
        by (cases r) (auto simp: UpdateListing updateListing_def split: if_splits)
    qed
    then show ?thesis by (auto simp: listing_moves_def)
  next
    case (MarkAdopted j u)
    have "l' = l \<or> (j = i \<and> u = li_userId l \<and> li_status l = AVAILABLE \<and> l' = adopted_row pe l)"
      using assms(2,3) find_listing_put [of "adopted_row pe" i s l j l']
      by (auto simp: MarkAdopted markAdopted_def adopted_row_def requireOwned_Inr split: sum.splits if_splits)
    then show ?thesis using MarkAdopted l by (auto simp: listing_moves_def adopted_row_def)
  next
    case (Withdraw j u)
    have "l' = l \<or> (j = i \<and> u = li_userId l \<and> li_status l = AVAILABLE \<and> l' = status_row pe WITHDRAWN l)"
      using assms(2,3) find_listing_put [of "status_row pe WITHDRAWN" i s l j l']
      by (auto simp: Withdraw withdraw_def status_row_def requireOwned_Inr split: sum.splits if_splits)
    then show ?thesis using Withdraw l by (auto simp: listing_moves_def status_row_def)
  next
    case (Relist j u)
    have "l' = l \<or> (j = i \<and> u = li_userId l \<and> li_status l = WITHDRAWN \<and> l' = status_row pe AVAILABLE l)"
      using assms(2,3) find_listing_put [of "status_row pe AVAILABLE" i s l j l']
      by (auto simp: Relist relist_def status_row_def requireOwned_Inr split: sum.splits if_splits)
    then show ?thesis using Relist l by (auto simp: listing_moves_def status_row_def)
  next
    case (RemoveListing j u)
    then show ?thesis using assms(2,3) del by (auto simp: removeListing_def split: sum.splits)
  next
    case (AddListingPhotos j u urls)
    have "l' = l" using assms(3) unfolding AddListingPhotos exec_pet.simps
      by (rule kept) (auto simp: addListingPhotos_def Let_def split: sum.splits if_splits)
    then show ?thesis by simp
  next
    case (MarkMissing j u)
    have "l' = l" using assms(3) unfolding MarkMissing exec_pet.simps
      by (rule kept) (auto simp: markAsMissing_def Let_def split: sum.splits if_splits)
    then show ?thesis by simp
  next
    case (MarkFound j u)
    have "l' = l" using assms(3) unfolding MarkFound exec_pet.simps
      by (rule kept) (auto simp: markAsFound_def Let_def split: sum.splits if_splits)
    then show ?thesis by simp
  qed
qed

text \<open>
  C17. The life of an adoption listing: in one command of any kind with a documented body, executed on
  its own, a listing keeps its id, pet, owner and creation time, and its status changes only from AVAILABLE
  to ADOPTED or WITHDRAWN or from WITHDRAWN back to AVAILABLE, by the command for it issued by the owner; so
  an ADOPTED listing stays ADOPTED. A listing that is not AVAILABLE is answered to its owner only; for
  everybody else it does not exist. Undocumented keys and two requests at once break the first part:
  \<open>pet_edit_relists\<close>, \<open>adoption_race\<close>.
\<close>

theorem adoption_lifecycle:
  assumes "household_ok s" and "find_listing i s = Some l" and "find_listing i (exec_pet pe c s) = Some l'"
    and "documented c"
  shows "listing_moves c l l' \<and>
    (\<forall>r. findOneForRequester i r s = Inr l \<longleftrightarrow> li_status l = AVAILABLE \<or> r = Some (li_userId l)) \<and>
    (li_status l \<noteq> AVAILABLE \<longrightarrow> (\<forall>r. r \<noteq> Some (li_userId l) \<longrightarrow>
       findOneForRequester i r s = findOneForRequester i r (s\<lparr>ps_listings := []\<rparr>)))"
  using listing_cmd_moves [OF assms] assms(2)
  by (auto simp: findOneForRequester_def, auto simp: find_listing_def)

definition demo_listing :: listing_row where
  "demo_listing = \<lparr>li_id = 1, li_petId = 3, li_userId = 7, li_status = AVAILABLE, li_lat = 35, li_lon = 33,
     li_location_point = (33, 35), li_locationAddress = None, li_description = None, li_adoptedAt = None,
     li_created_at = 0, li_updated_at = 0\<rparr>"

theorem adoption_lifecycle_witness:
  "listing_moves (MarkAdopted 1 7) demo_listing (adopted_row demo_pet_env demo_listing)"
proof -
  let ?s = "demo_household\<lparr>ps_listings := [demo_listing]\<rparr>"
  have "household_ok ?s"
    by (simp add: household_ok_def pets_ok_def pet_ok_def listing_ok_def demo_world_def demo_pet_row_def demo_listing_def
        tag_ok_def TAG_ID_LENGTH_def TAG_ID_ALPHABET_def)
  moreover have "find_listing 1 ?s = Some demo_listing"
      "find_listing 1 (exec_pet demo_pet_env (MarkAdopted 1 7) ?s) = Some (adopted_row demo_pet_env demo_listing)"
      "documented (MarkAdopted 1 7)"
    by (simp_all add: documented_def find_listing_def demo_listing_def markAdopted_def requireOwned_def update_listing_def update_where_def
        adopted_row_def)
  ultimately show ?thesis using adoption_lifecycle by blast
qed

lemma map_of_keyed:
  assumes "x \<in> set xs" and "\<And>a b. a \<in> set xs \<Longrightarrow> b \<in> set xs \<Longrightarrow> key a = key b \<Longrightarrow> a = b"
  shows "map_of (map (\<lambda>a. (key a, val a)) xs) (key x) = Some (val x)"
  using assms by (induction xs) fastforce+

text \<open>The second query of the board puts the rows back in the order of the first.\<close>

lemma rejoin:
  assumes "distinct (map key rows)" and "set page \<subseteq> set rows"
  shows "List.map_filter (\<lambda>i. find_row key i (filter (\<lambda>r. key r \<in> set (map key page)) rows)) (map key page) = page"
proof -
  have "find_row key (key r) (filter (\<lambda>r. key r \<in> set (map key page)) rows) = Some r" if "r \<in> set page" for r
    using that assms by (intro find_row_distinct) (auto simp: distinct_map_filter)
  then have "map (\<lambda>i. find_row key i (filter (\<lambda>r. key r \<in> set (map key page)) rows)) (map key page) = map Some page"
    by simp
  then show ?thesis
    by (simp add: map_filter_def comp_def del: set_map) (simp add: map_idI filter_id_conv)
qed

text \<open>
  The board answers exactly the matching listings in order: nearest first when a position is given, newest
  first otherwise, with the distance of each, and the number of matches on all pages.
\<close>

theorem board_page:
  assumes "household_ok s" and "findAvailable pe cal q s = Inr (data, matches)"
  shows "\<exists>ordered. mset ordered = mset (filter (listing_matches pe cal q s) (ps_listings s)) \<and>
    (lq_lat q \<noteq> None \<longrightarrow> sorted (map (\<lambda>l. the (listing_distance pe q l)) ordered)) \<and>
    (lq_lat q = None \<longrightarrow> sorted (map (\<lambda>l. - li_created_at l) ordered)) \<and>
    map fst data = take (defaulted 20 (lq_limit q)) (drop (defaulted 0 (lq_offset q)) ordered) \<and>
    (\<forall>(l, d) \<in> set data. li_status l = AVAILABLE \<and> d = listing_distance pe q l) \<and>
    matches = length ordered"
proof -
  let ?m = "filter (listing_matches pe cal q s) (ps_listings s)"
  define ordered where "ordered = (if lq_lat q \<noteq> None
    then sort_key (\<lambda>l. the (listing_distance pe q l)) (sort_key (\<lambda>l. - li_created_at l) ?m)
    else sort_key (\<lambda>l. - li_created_at l) ?m)"
  define page where "page = take (defaulted 20 (lq_limit q)) (drop (defaulted 0 (lq_offset q)) ordered)"
  let ?dist = "map (\<lambda>l. (li_id l, listing_distance pe q l)) page"
  have d: "distinct (map li_id (ps_listings s))" using assms(1) by (simp add: household_ok_def)
  have so: "set ordered = set ?m" by (simp add: ordered_def)
  have sp: "set page \<subseteq> set ?m" using so by (auto simp: page_def dest!: in_set_takeD in_set_dropD)
  then have sub: "set page \<subseteq> set (ps_listings s)" by auto
  have c1: "\<not> (lq_lat q \<noteq> None) \<noteq> (lq_lon q \<noteq> None)" using assms(2) by (rule contrapos_pn) (simp add: findAvailable_def)
  have c2: "\<not> (lq_minAgeMonths q \<noteq> None \<and> lq_maxAgeMonths q \<noteq> None \<and> the (lq_minAgeMonths q) > the (lq_maxAgeMonths q))"
    (is "\<not> ?P")
  proof
    assume p: ?P
    show False using assms(2) unfolding findAvailable_def if_not_P [OF c1] if_P [OF p] by simp
  qed
  have "findAvailable pe cal q s =
      Inr (map (\<lambda>l. (l, case map_of ?dist (li_id l) of None \<Rightarrow> None | Some x \<Rightarrow> x))
        (List.map_filter (\<lambda>i. find_row li_id i (filter (\<lambda>l. li_id l \<in> set (map li_id page)) (ps_listings s))) (map li_id page)),
        length ?m)"
    unfolding findAvailable_def if_not_P [OF c1] if_not_P [OF c2] Let_def page_def ordered_def by (rule refl)
  then have "Inr (data, matches) =
      (Inr (map (\<lambda>l. (l, case map_of ?dist (li_id l) of None \<Rightarrow> None | Some x \<Rightarrow> x)) page, length ?m) :: exn + _)"
    unfolding assms(2) rejoin [OF d sub] .
  then have data: "data = map (\<lambda>l. (l, case map_of ?dist (li_id l) of None \<Rightarrow> None | Some x \<Rightarrow> x)) page"
    and matches: "matches = length ?m"
    unfolding sum.inject prod.inject by (blast, blast)
  have inj: "l = l'" if "l \<in> set page" "l' \<in> set page" "li_id l = li_id l'" for l l'
    using that sub d by (metis distinct_map inj_onD subsetD)
  have lk: "map_of ?dist (li_id l) = Some (listing_distance pe q l)" if "l \<in> set page" for l
    using that inj by (rule map_of_keyed)
  have "\<forall>(l, x) \<in> set data. li_status l = AVAILABLE \<and> x = listing_distance pe q l"
  proof -
    have "li_status l = AVAILABLE" if "l \<in> set page" for l
      using that sp by (auto simp: listing_matches_def)
    moreover have "(case map_of ?dist (li_id l) of None \<Rightarrow> None | Some x \<Rightarrow> x) = listing_distance pe q l" if "l \<in> set page" for l
      unfolding lk [OF that] by simp
    ultimately show ?thesis unfolding data by (auto simp del: map_of_eq_None_iff)
  qed
  moreover have "mset ordered = mset ?m" "length ordered = length ?m" by (simp_all add: ordered_def)
  moreover have "map fst data = page" using data by (simp add: comp_def)
  ultimately show ?thesis
    using matches by (intro exI [of _ ordered]) (simp add: ordered_def page_def)
qed

text \<open>
  A listing takes up to ten photos, but the pet service refuses every edit of photos or primary photo that leaves
  more than its own limit (five unless configured): a listed pet with more photos cannot be given a primary photo.
\<close>

theorem listed_pet_no_primary:
  assumes "findOnePet i (Some u) (ps_world s) = Inr pet" and "int (length (p_photos pet)) > getMaxPetPhotos (pe_env pe)"
    and "up_photos dto = Absent" and "up_primaryPhoto dto \<noteq> Absent"
  shows "updatePet pe i u dto s = (Inl (too_many_photos (pe_env pe)), s)"
  using assms by (simp add: updatePet_def photos_touched_def validatePhotos_def Let_def)

section \<open>Bodies with further keys\<close>

text \<open>
  A client that does with a few keys what the documentation of Prisma says: a column is overwritten, and
  a nested write of a relation changes the related rows.
\<close>

definition reopen_alerts :: json where
  "reopen_alerts = JObj [(''updateMany'', JObj [(''where'', JObj []), (''data'', JObj [(''status'', JStr ''ACTIVE'')])])]"

definition relist_listing :: json where
  "relist_listing = JObj [(''update'', JObj [(''status'', JStr ''AVAILABLE'')])]"

definition client_key :: "id \<Rightarrow> string \<times> json \<Rightarrow> pet_state \<Rightarrow> pet_state" where
  "client_key i kv s =
     (if kv = (''alerts'', reopen_alerts)
      then s\<lparr>ps_world := (ps_world s)\<lparr>alerts := update_where (\<lambda>a. a_pet_id a = Some i) (\<lambda>a. a\<lparr>a_status := ACTIVE\<rparr>) (alerts (ps_world s))\<rparr>\<rparr>
      else if kv = (''adoptionListing'', relist_listing)
      then s\<lparr>ps_listings := update_where (\<lambda>l. li_petId l = i) (\<lambda>l. l\<lparr>li_status := AVAILABLE\<rparr>) (ps_listings s)\<rparr>
      else case snd kv of
          JNum x \<Rightarrow> if fst kv = ''userId'' then s\<lparr>ps_world := update_pet i (\<lambda>p. p\<lparr>p_userId := \<lfloor>x\<rfloor>\<rparr>) (ps_world s)\<rparr> else s
        | JStr t \<Rightarrow> if fst kv = ''tagId'' then s\<lparr>ps_world := update_pet i (\<lambda>p. p\<lparr>p_tagId := t\<rparr>) (ps_world s)\<rparr> else s
        | _ \<Rightarrow> s)"

definition spreading :: "pet_env" where
  "spreading = demo_pet_env\<lparr>pe_spread := (\<lambda>rest i s. let s' = fold (client_key i) rest s in
     case find_pet i (ps_world s') of None \<Rightarrow> Inl (Error ''No record'') | Some p \<Rightarrow> Inr (p, s'))\<rparr>"

definition with_keys :: "(string \<times> json) list \<Rightarrow> update_pet_dto" where
  "with_keys ks = demo_rename\<lparr>up_name := Absent, up_rest := ks\<rparr>"

definition listed_household :: "listing_row \<Rightarrow> pet_state" where
  "listed_household l = demo_household\<lparr>ps_listings := [l]\<rparr>"

lemma spread_update:
  assumes "find_pet 3 (ps_world s) = Some pet" and "p_userId pet = 7" and "ks \<noteq> []"
    and "fold (client_key 3) ks (s\<lparr>ps_world := update_pet 3 (update_pet_row spreading (with_keys ks)) (ps_world s)\<rparr>) = s'"
    and "find_pet 3 (ps_world s') = Some p"
  shows "updatePet spreading 3 7 (with_keys ks) s = (Inr p, s')"
proof -
  have k: "up_rest (with_keys ks) = ks" "\<not> photos_touched (with_keys ks)" "up_name (with_keys ks) = Absent"
      "up_petTypeId (with_keys ks) = Absent" "pet_update_accepted (with_keys ks)"
    by (simp_all add: with_keys_def demo_rename_def photos_touched_def pet_update_accepted_def)
  have u: "update_rest (with_keys ks) = ks" by (simp add: update_rest_def k)
  have "pe_spread spreading ks 3 (s\<lparr>ps_world := update_pet 3 (update_pet_row spreading (with_keys ks)) (ps_world s)\<rparr>) = Inr (p, s')"
    using assms(4,5) by (simp add: spreading_def Let_def)
  then show ?thesis
    using assms(1-3) k u by (simp add: updatePet_def findOnePet_def write_rest_def Let_def)
qed

text \<open>The owner and the tag of a pet, which no field of the DTO names, are overwritten; a listing keeps its owner.\<close>

theorem pet_given_away:
  "\<exists>p s'. updatePet spreading 3 7 (with_keys [(''userId'', JNum 9), (''tagId'', JStr ''X'')]) (listed_household demo_listing) =
       (Inr p, s') \<and> p_userId p = 9 \<and> p_tagId p = ''X'' \<and> \<not> household_ok s'"
proof -
  let ?ks = "[(''userId'', JNum 9), (''tagId'', JStr ''X'')]" and ?s = "listed_household demo_listing"
  let ?w = "update_pet 3 (update_pet_row spreading (with_keys ?ks)) (ps_world ?s)"
  let ?s' = "fold (client_key 3) ?ks (?s\<lparr>ps_world := ?w\<rparr>)"
  let ?p = "(update_pet_row spreading (with_keys ?ks) demo_pet_row)\<lparr>p_userId := 9, p_tagId := ''X''\<rparr>"
  have row: "p_id (update_pet_row spreading (with_keys ?ks) demo_pet_row) = 3"
    by (simp add: update_pet_row_def Let_def demo_pet_row_def)
  then have ps: "pets (ps_world ?s') = [?p]"
    by (simp add: client_key_def listed_household_def demo_world_def update_pet_def update_where_def demo_pet_row_def)
  then have "find_pet 3 (ps_world ?s') = Some ?p" using row by (simp add: find_pet_def)
  moreover have "find_pet 3 (ps_world ?s) = Some demo_pet_row" "p_userId demo_pet_row = 7"
    by (simp_all add: listed_household_def demo_pet_row_def)
  ultimately have "updatePet spreading 3 7 (with_keys ?ks) ?s = (Inr ?p, ?s')"
    by (intro spread_update) simp_all
  moreover have "\<not> household_ok ?s'"
    unfolding household_ok_def pets_ok_def ps by (simp add: pet_ok_def tag_ok_def TAG_ID_LENGTH_def)
  ultimately show ?thesis by (intro exI [of _ ?p] exI [of _ ?s']) simp
qed

text \<open>A resolved alert is ACTIVE again after an edit of its pet.\<close>

theorem pet_edit_reopens_alert:
  "\<exists>s p s'. find_alert 41 (ps_world s) = Some (demo_alert\<lparr>a_status := RESOLVED\<rparr>) \<and>
     updatePet spreading 3 7 (with_keys [(''alerts'', reopen_alerts)]) s = (Inr p, s') \<and>
     find_alert 41 (ps_world s') = Some demo_alert"
proof -
  let ?ks = "[(''alerts'', reopen_alerts)]"
  let ?s = "demo_household\<lparr>ps_world := demo_world\<lparr>alerts := [demo_alert\<lparr>a_status := RESOLVED\<rparr>]\<rparr>\<rparr>"
  let ?w = "update_pet 3 (update_pet_row spreading (with_keys ?ks)) (ps_world ?s)"
  let ?s' = "fold (client_key 3) ?ks (?s\<lparr>ps_world := ?w\<rparr>)"
  let ?p = "update_pet_row spreading (with_keys ?ks) demo_pet_row"
  have f: "find_pet 3 (ps_world ?s) = Some demo_pet_row" "p_userId demo_pet_row = 7"
    by (simp_all add: find_pet_def demo_world_def demo_pet_row_def)
  have "find_pet 3 ?w = Some ?p"
    using f(1) by (intro pet_store.get_put_same) (simp_all add: update_pet_row_def Let_def)
  then have "find_pet 3 (ps_world ?s') = Some ?p" by (simp add: client_key_def find_pet_def)
  then have "updatePet spreading 3 7 (with_keys ?ks) ?s = (Inr ?p, ?s')"
    using f by (intro spread_update) simp_all
  moreover have "find_alert 41 (ps_world ?s') = Some demo_alert"
    by (simp add: client_key_def find_alert_def update_where_def demo_alert_def)
  moreover have "find_alert 41 (ps_world ?s) = Some (demo_alert\<lparr>a_status := RESOLVED\<rparr>)"
    by (simp add: find_alert_def)
  ultimately show ?thesis by (intro exI [of _ ?s] exI [of _ ?p] exI [of _ ?s']) simp
qed

text \<open>An ADOPTED listing is back on the board after an edit of its pet, adoption time and all.\<close>

theorem pet_edit_relists:
  "\<exists>p s'. updatePet spreading 3 7 (with_keys [(''adoptionListing'', relist_listing)])
       (listed_household (adopted_row demo_pet_env demo_listing)) = (Inr p, s') \<and>
     (\<exists>l. find_listing 1 s' = Some l \<and> li_status l = AVAILABLE \<and> li_adoptedAt l = Some 9)"
proof -
  let ?ks = "[(''adoptionListing'', relist_listing)]" and ?s = "listed_household (adopted_row demo_pet_env demo_listing)"
  let ?w = "update_pet 3 (update_pet_row spreading (with_keys ?ks)) (ps_world ?s)"
  let ?s' = "fold (client_key 3) ?ks (?s\<lparr>ps_world := ?w\<rparr>)"
  let ?p = "update_pet_row spreading (with_keys ?ks) demo_pet_row"
  have f: "find_pet 3 (ps_world ?s) = Some demo_pet_row" "p_userId demo_pet_row = 7"
    by (simp_all add: listed_household_def demo_pet_row_def)
  have "find_pet 3 ?w = Some ?p"
    using f(1) by (intro pet_store.get_put_same) (simp_all add: update_pet_row_def Let_def)
  then have "find_pet 3 (ps_world ?s') = Some ?p" by (simp add: client_key_def)
  then have "updatePet spreading 3 7 (with_keys ?ks) ?s = (Inr ?p, ?s')"
    using f by (intro spread_update) simp_all
  moreover have "\<exists>l. find_listing 1 ?s' = Some l \<and> li_status l = AVAILABLE \<and> li_adoptedAt l = Some 9"
    by (simp add: client_key_def find_listing_def update_where_def listed_household_def adopted_row_def
        demo_listing_def demo_pet_env_def demo_env_def)
  ultimately show ?thesis by (intro exI [of _ ?p] exI [of _ ?s']) simp
qed

text \<open>
  The commands check the status and then write it in a second statement. Two requests that both find the
  listing AVAILABLE, one to adopt and one to withdraw, both succeed, and the ADOPTED listing becomes WITHDRAWN.
\<close>

theorem adoption_race:
  "let s = listed_household demo_listing; adopt = adopted_row demo_pet_env; wd = status_row demo_pet_env WITHDRAWN in
     markAdopted demo_pet_env 1 7 s = (Inr (adopt demo_listing), update_listing 1 adopt s) \<and>
     withdraw demo_pet_env 1 7 s = (Inr (wd demo_listing), update_listing 1 wd s) \<and>
     find_listing 1 (update_listing 1 wd (update_listing 1 adopt s)) = Some (wd (adopt demo_listing)) \<and>
     li_status (wd (adopt demo_listing)) = WITHDRAWN \<and> li_adoptedAt (wd (adopt demo_listing)) \<noteq> None"
  by (simp add: Let_def markAdopted_def withdraw_def requireOwned_def find_listing_def listed_household_def
      update_listing_def update_where_def adopted_row_def status_row_def demo_listing_def)

end
