(* ===== verification/InvitationText.thy ===== *)
theory InvitationText
  imports AlertEmail JsText
begin

text \<open>
  The text of an invitation e-mail (\<open>src/src/invitation/invitation-text.ts\<close>): validation of the subject and
  body the client sends as plain text, and their rendering to HTML and to plain text with the link put in
  place of the placeholder. The template engine does not escape, so \<open>escapeHtml\<close> is the only line of
  defence; the section on injection states what it gives.
\<close>

section \<open>Helpers\<close>

definition INVITE_LINK_PLACEHOLDER :: string where "INVITE_LINK_PLACEHOLDER = ''{inviteLink}''"

definition LF :: char where "LF = CHR 0x0A"
definition CR :: char where "CR = CHR 0x0D"

text \<open>\<open>s.replace(/c/g, r)\<close>\<close>

definition replace_char :: "char \<Rightarrow> string \<Rightarrow> string \<Rightarrow> string" where
  "replace_char c r s = concat (map (\<lambda>x. if x = c then r else [x]) s)"

definition QUOTE :: char where "QUOTE = CHR 0x22"
definition APOS :: char where "APOS = CHR 0x27"

definition escapeHtml :: "string \<Rightarrow> string" where
  "escapeHtml s =
     replace_char APOS ''&#39;'' (replace_char QUOTE ''&quot;'' (replace_char (CHR ''>'') ''&gt;''
       (replace_char (CHR ''<'') ''&lt;'' (replace_char (CHR ''&'') ''&amp;'' s))))"

text \<open>\<open>/\r\n?/g\<close> becomes a line feed; then \<open>trim\<close>.\<close>

fun line_feeds :: "string \<Rightarrow> string" where
  "line_feeds [] = []"
| "line_feeds (c # cs) =
     (if c = CR then LF # line_feeds (if starts_with [LF] cs then tl cs else cs) else c # line_feeds cs)"

definition normalizeText :: "string \<Rightarrow> string" where
  "normalizeText s = trim (line_feeds s)"

text \<open>\<open>/<[a-z!/?][^>]*>?/i\<close> matches wherever \<open><\<close> is followed by one of these.\<close>

definition tag_start :: "char \<Rightarrow> bool" where
  "tag_start c \<longleftrightarrow> (let n = (of_char (ascii_lower c) :: nat) in 97 \<le> n \<and> n \<le> 122) \<or> c \<in> set ''!/?''"

fun containsTag :: "string \<Rightarrow> bool" where
  "containsTag (c # d # cs) \<longleftrightarrow> (c = CHR ''<'' \<and> tag_start d) \<or> containsTag (d # cs)"
| "containsTag _ \<longleftrightarrow> False"

text \<open>
  \<open>/[\u0000-\u0009\u000B-\u001F\u007F-\u009F]/\<close>. The characters from U+0080 to U+009F are the two bytes C2 and
  80 to 9F.
\<close>

definition is_c0 :: "char \<Rightarrow> bool" where
  "is_c0 c \<longleftrightarrow> (let n = (of_char c :: nat) in (n \<le> 31 \<and> n \<noteq> 10) \<or> n = 127)"

fun containsControlChars :: "string \<Rightarrow> bool" where
  "containsControlChars [] \<longleftrightarrow> False"
| "containsControlChars (c # cs) \<longleftrightarrow>
     is_c0 c \<or>
     ((of_char c :: nat) = 194 \<and> (case cs of [] \<Rightarrow> False | d # _ \<Rightarrow> (of_char d :: nat) \<in> {128..159})) \<or>
     containsControlChars cs"

definition countPlaceholders :: "string \<Rightarrow> nat" where
  "countPlaceholders s = length (split_str INVITE_LINK_PLACEHOLDER s) - 1"

datatype text_field = SubjectField | BodyField

definition text_field_name :: "text_field \<Rightarrow> string" where
  "text_field_name f = (case f of SubjectField \<Rightarrow> ''subject'' | BodyField \<Rightarrow> ''body'')"

definition plainTextErrors :: "text_field \<Rightarrow> string \<Rightarrow> nat \<Rightarrow> nat \<Rightarrow> string list" where
  "plainTextErrors field v lo hi =
     (if length v < lo \<or> length v > hi
      then [text_field_name field @ '' must be '' @ show_nat lo @ ''-'' @ show_nat hi @ '' characters''] else []) @
     (if containsTag v then [text_field_name field @ '' must be plain text (no HTML tags)''] else []) @
     (if containsControlChars v then [text_field_name field @ '' must not contain control characters''] else []) @
     (if field = SubjectField \<and> LF \<in> set v then [''subject must be a single line''] else [])"

section \<open>Rendering\<close>

text \<open>\<open>s.split(/\n{2,}/)\<close>\<close>

function split_blocks :: "string \<Rightarrow> string list" where
  "split_blocks [] = [[]]"
| "split_blocks (c # cs) =
     (if c = LF \<and> starts_with [LF] cs then [] # split_blocks (dropWhile (\<lambda>x. x = LF) cs)
      else (case split_blocks cs of [] \<Rightarrow> [[c]] | p # ps \<Rightarrow> (c # p) # ps))"
  by pat_completeness auto
termination
  by (relation "measure length") (simp_all add: le_imp_less_Suc length_dropWhile_le)

definition quoted :: "string \<Rightarrow> string" where
  "quoted s = QUOTE # s @ [QUOTE]"

definition P_OPEN :: string where "P_OPEN = ''<p style='' @ quoted ''margin:0 0 16px 0;'' @ ''>''"
definition P_CLOSE :: string where "P_CLOSE = ''</p>''"
definition BR :: string where "BR = ''<br/>''"

definition link_anchor :: "string \<Rightarrow> string" where
  "link_anchor link =
     ''<a href='' @ quoted (escapeHtml link) @ '' style='' @ quoted ''color:#007bff;word-break:break-all;'' @ ''>'' @
     escapeHtml link @ ''</a>''"

definition render_block :: "string \<Rightarrow> string \<Rightarrow> string" where
  "render_block link block =
     P_OPEN @
     join_str (link_anchor link)
       (split_str (escapeHtml INVITE_LINK_PLACEHOLDER) (join_str BR (split_str [LF] (escapeHtml block)))) @
     P_CLOSE"

definition renderInvitationHtmlBody :: "string \<Rightarrow> string \<Rightarrow> string" where
  "renderInvitationHtmlBody body link =
     join_str [LF] (map (render_block link) (split_blocks (normalizeText body)))"

definition renderInvitationTextBody :: "string \<Rightarrow> string \<Rightarrow> string" where
  "renderInvitationTextBody body link = join_str link (split_str INVITE_LINK_PLACEHOLDER (normalizeText body))"

section \<open>Escaping\<close>

definition esc_char :: "char \<Rightarrow> string" where
  "esc_char c =
     (if c = CHR ''&'' then ''&amp;'' else if c = CHR ''<'' then ''&lt;'' else if c = CHR ''>'' then ''&gt;''
      else if c = QUOTE then ''&quot;'' else if c = APOS then ''&#39;'' else [c])"

lemma replace_char_append [simp]: "replace_char c r (s @ t) = replace_char c r s @ replace_char c r t"
  by (simp add: replace_char_def)

lemma replace_char_none: "c \<notin> set s \<Longrightarrow> replace_char c r s = s"
  by (induction s) (auto simp: replace_char_def)

lemma markup_chars [simp]: "QUOTE \<noteq> CHR ''&''" "QUOTE \<noteq> CHR ''<''" "QUOTE \<noteq> CHR ''>''" "APOS \<noteq> CHR ''&''"
  "APOS \<noteq> CHR ''<''" "APOS \<noteq> CHR ''>''" "APOS \<noteq> QUOTE" "QUOTE \<noteq> APOS"
  by (simp_all add: QUOTE_def APOS_def)

text \<open>The five replacements in sequence are one replacement per character: only the ampersand comes first.\<close>

lemma escapeHtml_Nil [simp]: "escapeHtml [] = []"
  by (simp add: escapeHtml_def replace_char_def)

lemma escapeHtml_append: "escapeHtml (s @ t) = escapeHtml s @ escapeHtml t"
  by (simp add: escapeHtml_def)

lemma escapeHtml_single: "escapeHtml [c] = esc_char c"
proof -
  consider "c \<in> {CHR ''&'', CHR ''<'', CHR ''>'', CHR 0x22, CHR 0x27}" | "c \<notin> {CHR ''&'', CHR ''<'', CHR ''>'', CHR 0x22, CHR 0x27}"
    by blast
  then show ?thesis
  proof cases
    case 1
    then show ?thesis by (elim insertE emptyE; simp add: escapeHtml_def replace_char_def esc_char_def QUOTE_def APOS_def)
  next
    case 2
    then show ?thesis by (simp add: escapeHtml_def replace_char_def esc_char_def QUOTE_def APOS_def)
  qed
qed

lemma escapeHtml_chars: "escapeHtml s = concat (map esc_char s)"
proof (induction s)
  case (Cons c s)
  have "escapeHtml (c # s) = escapeHtml [c] @ escapeHtml s" using escapeHtml_append [of "[c]" s] by simp
  then show ?case using Cons escapeHtml_single by simp
qed simp

definition inert :: "string \<Rightarrow> bool" where
  "inert s \<longleftrightarrow> set s \<inter> {CHR ''<'', CHR ''>'', QUOTE, APOS} = {}"

lemma inert_esc_char: "inert (esc_char c)"
  by (auto simp: inert_def esc_char_def QUOTE_def APOS_def)

lemma inert_append [simp]: "inert (s @ t) \<longleftrightarrow> inert s \<and> inert t" by (auto simp: inert_def)

lemma inert_Nil [simp]: "inert []" by (simp add: inert_def)

lemma inert_escapeHtml: "inert (escapeHtml s)"
  by (induction s) (simp_all add: escapeHtml_chars inert_esc_char)

text \<open>What a browser shows for escaped text: every entity stands for its character again.\<close>

fun unescapeHtml :: "string \<Rightarrow> string" where
  "unescapeHtml [] = []"
| "unescapeHtml (c # cs) =
     (if starts_with ''&amp;'' (c # cs) then CHR ''&'' # unescapeHtml (drop 4 cs)
      else if starts_with ''&lt;'' (c # cs) then CHR ''<'' # unescapeHtml (drop 3 cs)
      else if starts_with ''&gt;'' (c # cs) then CHR ''>'' # unescapeHtml (drop 3 cs)
      else if starts_with ''&quot;'' (c # cs) then QUOTE # unescapeHtml (drop 5 cs)
      else if starts_with ''&#39;'' (c # cs) then APOS # unescapeHtml (drop 4 cs)
      else c # unescapeHtml cs)"

lemma unescape_esc_char: "unescapeHtml (esc_char c @ t) = c # unescapeHtml t"
  by (simp add: esc_char_def starts_with_def)

lemma unescape_escape: "unescapeHtml (escapeHtml s) = s"
  by (induction s) (simp_all add: escapeHtml_chars unescape_esc_char del: unescapeHtml.simps(2))

section \<open>Injection\<close>

text \<open>Text that is inert but for line breaks of our own.\<close>

fun br_safe :: "string \<Rightarrow> bool" where
  "br_safe [] \<longleftrightarrow> True"
| "br_safe (c # cs) \<longleftrightarrow> (if starts_with BR (c # cs) then br_safe (drop 4 cs) else inert [c] \<and> br_safe cs)"

declare br_safe.simps(2) [simp del]

lemma br_safe_BR: "br_safe (BR @ s) \<longleftrightarrow> br_safe s"
  by (simp add: BR_def starts_with_def br_safe.simps(2))

lemma starts_BR: "starts_with BR (c # cs) \<Longrightarrow> c = CHR ''<''"
  by (simp add: BR_def starts_with_def)

lemma br_safe_inert: "inert s \<Longrightarrow> br_safe (s @ t) \<longleftrightarrow> br_safe t"
proof (induction s)
  case (Cons c s)
  then have "\<not> starts_with BR (c # s @ t)" using starts_BR by (auto simp: inert_def)
  then show ?case using Cons by (auto simp: br_safe.simps(2) inert_def)
qed simp

lemma br_safe_cut:
  assumes "set sep \<inter> set BR = {}" and "sep \<noteq> []" and "br_safe (p @ sep @ r)"
  shows "br_safe p \<and> br_safe (sep @ r)"
  using assms(3)
proof (induction p rule: length_induct)
  case (1 p)
  show ?case
  proof (cases p)
    case Nil
    then show ?thesis using 1 by simp
  next
    case (Cons c cs)
    show ?thesis
    proof (cases "starts_with BR (p @ sep @ r)")
      case True
      have t: "take (length BR) (p @ sep @ r) = BR" using True by (simp add: starts_with_def)
      have "length BR \<le> length p"
      proof (rule ccontr)
        assume "\<not> length BR \<le> length p"
        then obtain k where "length BR - length p = Suc k" by (metis diff_is_0_eq not0_implies_Suc)
        then have "hd sep \<in> set (take (length BR) (p @ sep @ r))" using assms(2) by (cases sep) simp_all
        then show False using t assms(1,2) hd_in_set by (metis IntI empty_iff)
      qed
      then obtain q where q: "p = BR @ q" using t by (metis append_take_drop_id take_append diff_is_0_eq append_Nil2 take_0)
      then have "br_safe (q @ sep @ r)" using 1(2) by (simp add: br_safe_BR)
      moreover have "length q < length p" using q by (simp add: BR_def)
      ultimately have "br_safe q \<and> br_safe (sep @ r)" using 1(1) by blast
      then show ?thesis using q by (simp add: br_safe_BR)
    next
      case False
      then have c: "inert [c]" "br_safe (cs @ sep @ r)" using 1(2) Cons by (simp_all add: br_safe.simps(2))
      moreover have "length cs < length p" using Cons by simp
      ultimately have "br_safe cs \<and> br_safe (sep @ r)" using 1(1) by blast
      then show ?thesis using c Cons br_safe_inert [of "[c]" cs] by simp
    qed
  qed
qed

lemma br_safe_pieces:
  assumes "set sep \<inter> set BR = {}" and "sep \<noteq> []" and "inert sep"
  shows "br_safe (join_str sep xs) \<Longrightarrow> x \<in> set xs \<Longrightarrow> br_safe x"
proof (induction xs arbitrary: x)
  case (Cons y ys)
  show ?case
  proof (cases "ys = []")
    case False
    then have "br_safe (y @ sep @ join_str sep ys)" using Cons.prems(1) by (simp add: join_str_Cons)
    then have "br_safe y \<and> br_safe (sep @ join_str sep ys)" by (rule br_safe_cut [OF assms(1,2)])
    then show ?thesis using Cons br_safe_inert [OF assms(3)] by auto
  qed (use Cons in simp)
qed simp

lemma br_safe_lines: "(\<And>x. x \<in> set xs \<Longrightarrow> inert x) \<Longrightarrow> br_safe (join_str BR xs)"
proof (induction xs)
  case (Cons y ys)
  then show ?case
  proof (cases "ys = []")
    case True
    then show ?thesis using Cons.prems [of y] br_safe_inert [of y "[]"] by simp
  next
    case False
    then show ?thesis using Cons by (simp add: join_str_Cons br_safe_inert br_safe_BR)
  qed
qed simp

lemma set_join_str: "set x \<subseteq> set (join_str sep xs)" if "x \<in> set xs"
  using that
proof (induction xs)
  case (Cons y ys)
  then show ?case by (cases "ys = []") (auto simp: join_str_Cons)
qed simp

lemma inert_split: "inert s \<Longrightarrow> x \<in> set (split_str sep s) \<Longrightarrow> inert x"
  using set_join_str [of x "split_str sep s" sep] by (auto simp: inert_def join_split_str)

text \<open>Markup of the renderer, and text made of it and of inert pieces only.\<close>

definition own_markup :: "string \<Rightarrow> string set" where
  "own_markup link = {P_OPEN, P_CLOSE, BR, [LF], link_anchor link}"

definition only_own_markup :: "string \<Rightarrow> string \<Rightarrow> bool" where
  "only_own_markup link s \<longleftrightarrow> (\<exists>pieces. s = concat pieces \<and> (\<forall>p \<in> set pieces. p \<in> own_markup link \<or> inert p))"

lemma only_own_piece: "p \<in> own_markup link \<or> inert p \<Longrightarrow> only_own_markup link p"
  unfolding only_own_markup_def by (intro exI [of _ "[p]"]) simp

lemma only_own_append: "only_own_markup link s \<Longrightarrow> only_own_markup link t \<Longrightarrow> only_own_markup link (s @ t)"
  unfolding only_own_markup_def by (metis Un_iff concat_append set_append)

lemma only_own_join:
  "only_own_markup link sep \<Longrightarrow> (\<And>x. x \<in> set xs \<Longrightarrow> only_own_markup link x) \<Longrightarrow> only_own_markup link (join_str sep xs)"
proof (induction xs)
  case Nil
  then show ?case using only_own_piece [of "[]"] by simp
next
  case (Cons y ys)
  then show ?case by (cases "ys = []") (auto simp: join_str_Cons intro!: only_own_append)
qed

lemma br_safe_own: "br_safe s \<Longrightarrow> only_own_markup link s"
proof (induction s rule: br_safe.induct)
  case 1
  then show ?case using only_own_piece [of "[]"] by simp
next
  case (2 c cs)
  show ?case
  proof (cases "starts_with BR (c # cs)")
    case True
    then have "c # cs = BR @ drop 4 cs" using starts_with_append [OF True] by (simp add: BR_def numeral_eq_Suc)
    moreover have "only_own_markup link BR" by (rule only_own_piece) (simp add: own_markup_def)
    ultimately show ?thesis using 2 True by (metis br_safe_BR only_own_append)
  next
    case False
    then have "only_own_markup link [c]" "only_own_markup link cs"
      using 2 by (auto simp: br_safe.simps(2) intro: only_own_piece)
    then show ?thesis using only_own_append [of link "[c]" cs] by simp
  qed
qed

lemma placeholder_plain: "escapeHtml INVITE_LINK_PLACEHOLDER = INVITE_LINK_PLACEHOLDER"
  by (simp add: escapeHtml_chars INVITE_LINK_PLACEHOLDER_def esc_char_def QUOTE_def APOS_def)

lemma render_block_own: "only_own_markup link (render_block link block)"
proof -
  let ?x = "join_str BR (split_str [LF] (escapeHtml block))"
  have "br_safe ?x" using inert_split [OF inert_escapeHtml] by (rule br_safe_lines)
  then have "br_safe (join_str INVITE_LINK_PLACEHOLDER (split_str INVITE_LINK_PLACEHOLDER ?x))" by (simp add: join_split_str)
  then have "br_safe q" if "q \<in> set (split_str INVITE_LINK_PLACEHOLDER ?x)" for q
    using that by (rule br_safe_pieces [rotated 3])
      (simp_all add: INVITE_LINK_PLACEHOLDER_def BR_def inert_def QUOTE_def APOS_def)
  then have "only_own_markup link (join_str (link_anchor link) (split_str INVITE_LINK_PLACEHOLDER ?x))"
    by (intro only_own_join br_safe_own only_own_piece) (simp_all add: own_markup_def)
  moreover have "only_own_markup link P_OPEN" "only_own_markup link P_CLOSE"
    by (rule only_own_piece, simp add: own_markup_def)+
  ultimately show ?thesis unfolding render_block_def placeholder_plain by (intro only_own_append)
qed

lemma rendered_body_own: "only_own_markup link (renderInvitationHtmlBody body link)"
  unfolding renderInvitationHtmlBody_def
  by (rule only_own_join) (auto intro: only_own_piece render_block_own simp: own_markup_def)

text \<open>
  C22. An invitation carries no foreign markup. Whatever the body and the link, the rendered body is made of
  the paragraph, line-break and link markup of the renderer and of pieces without angle brackets and quotes;
  inside the link markup the address is inert as well, so it cannot leave its attribute. Escaping loses
  nothing: reading the entities back gives the original text.
\<close>

theorem invitation_body_inert:
  "only_own_markup link (renderInvitationHtmlBody body link) \<and>
   inert (escapeHtml link) \<and> unescapeHtml (escapeHtml text) = text"
  using rendered_body_own inert_escapeHtml unescape_escape by blast

text \<open>A body with one placeholder is sent as plain text with the link exactly there.\<close>

lemma text_body_link:
  assumes "countPlaceholders (normalizeText body) = 1"
  shows "\<exists>pre post. normalizeText body = pre @ INVITE_LINK_PLACEHOLDER @ post \<and>
    renderInvitationTextBody body link = pre @ link @ post"
proof -
  let ?parts = "split_str INVITE_LINK_PLACEHOLDER (normalizeText body)"
  have "length ?parts = Suc (Suc 0)" using assms by (simp add: countPlaceholders_def)
  then obtain pre post where p: "?parts = [pre, post]" by (auto simp: length_Suc_conv)
  have "join_str INVITE_LINK_PLACEHOLDER ?parts = normalizeText body" by (rule join_split_str)
  then show ?thesis using p by (intro exI [of _ pre] exI [of _ post]) (simp add: renderInvitationTextBody_def)
qed

end
