(* ===== verification/Language.thy ===== *)
theory Language
  imports JsText Cache
begin

text \<open>
  The language of an answer (\<open>src/src/i18n/language.service.ts\<close>, \<open>pipes/resolve-lang.pipe.ts\<close>): the active
  languages behind a cache, and the choice among the query parameter, the \<open>Accept-Language\<close> header and the
  default language.
\<close>

section \<open>Active languages\<close>

record language_row =
  la_code :: string
  la_isDefault :: bool
  la_isActive :: bool
  la_sortOrder :: int

record lang_state =
  ls_rows :: "language_row list"
  ls_cache :: "language_row list cache"

definition FALLBACK_LANGUAGE_CODE :: string where "FALLBACK_LANGUAGE_CODE = ''el''"

definition CACHE_TTL_LONG :: int where "CACHE_TTL_LONG = 900"

definition active_languages :: "language_row list \<Rightarrow> language_row list" where
  "active_languages rows = sort_key la_sortOrder (filter la_isActive rows)"

text \<open>Failing reads and writes of the cache are logged; the table answers instead.\<close>

definition getActive :: "cache_env \<Rightarrow> time \<Rightarrow> lang_state \<Rightarrow> language_row list \<times> lang_state" where
  "getActive ce t s =
     (case cache_get ce t (ls_cache s) of
        Inr (Some cached) \<Rightarrow> (cached, s)
      | _ \<Rightarrow>
          let languages = active_languages (ls_rows s) in
          (languages,
           case cache_set ce t languages (CACHE_TTL_LONG * 1000) of Inl _ \<Rightarrow> s | Inr c \<Rightarrow> s\<lparr>ls_cache := c\<rparr>))"

definition getDefault :: "language_row list \<Rightarrow> language_row option" where
  "getDefault languages =
     (case List.find la_isDefault languages of
        Some l \<Rightarrow> Some l
      | None \<Rightarrow> (case languages of [] \<Rightarrow> None | l # _ \<Rightarrow> Some l))"

definition getDefaultCode :: "language_row list \<Rightarrow> string" where
  "getDefaultCode languages = (case getDefault languages of None \<Rightarrow> FALLBACK_LANGUAGE_CODE | Some l \<Rightarrow> la_code l)"

definition isActiveCode :: "string \<Rightarrow> language_row list \<Rightarrow> bool" where
  "isActiveCode code languages \<longleftrightarrow> list_ex (\<lambda>l. la_code l = code) languages"

definition invalidateLanguages :: "cache_env \<Rightarrow> lang_state \<Rightarrow> lang_state" where
  "invalidateLanguages ce s = (case cache_del ce of Inl _ \<Rightarrow> s | Inr c \<Rightarrow> s\<lparr>ls_cache := c\<rparr>)"

section \<open>Codes and the header\<close>

definition is_lower :: "char \<Rightarrow> bool" where
  "is_lower c \<longleftrightarrow> 97 \<le> (of_char c :: nat) \<and> (of_char c :: nat) \<le> 122"

text \<open>\<open>/^[a-z]{2,8}$/\<close> on the part before the first \<open>-\<close> or \<open>_\<close>\<close>

definition normalizeCode :: "string \<Rightarrow> string option" where
  "normalizeCode v =
     (let primary = takeWhile (\<lambda>c. c \<noteq> CHR ''-'' \<and> c \<noteq> CHR ''_'') (lower (trim v)) in
      if length primary \<in> {2..8} \<and> list_all is_lower primary then Some primary else None)"

text \<open>One entry of the header: its code, if usable, and its quality.\<close>

definition header_entry :: "string \<Rightarrow> string option \<times> rat" where
  "header_entry part =
     (case split_on (CHR '';'') (trim part) of
        [] \<Rightarrow> (None, 0)
      | tag # params \<Rightarrow>
          let qParam = List.find (starts_with ''q='') (map trim params);
              q = (case qParam of None \<Rightarrow> Some 1 | Some p \<Rightarrow> js_parse_float (drop 2 p))
          in (if tag = ''*'' then None else normalizeCode tag, case q of None \<Rightarrow> 0 | Some x \<Rightarrow> x))"

fun first_seen :: "string list \<Rightarrow> string list \<Rightarrow> string list" where
  "first_seen seen [] = []"
| "first_seen seen (c # cs) = (if c \<in> set seen then first_seen seen cs else c # first_seen (c # seen) cs)"

definition usable_entries :: "string \<Rightarrow> (string \<times> rat) list" where
  "usable_entries header =
     List.map_filter (\<lambda>(code, q). if code \<noteq> None \<and> q > 0 then Some (the code, q) else None)
       (map header_entry (split_on (CHR '','') header))"

definition parseAcceptLanguage :: "string option \<Rightarrow> string list" where
  "parseAcceptLanguage header =
     (if \<not> truthy_str header then []
      else first_seen [] (map fst (sort_key (\<lambda>(_, q). - q) (usable_entries (the header)))))"

section \<open>Resolution\<close>

text \<open>The raw query parameter: absent, a string, a list, or something else.\<close>

datatype query_param = NoParam | StrParam string | ListParam "query_param list" | OtherParam

fun param_code :: "query_param \<Rightarrow> string option" where
  "param_code (StrParam s) = normalizeCode s"
| "param_code (ListParam (StrParam s # _)) = normalizeCode s"
| "param_code _ = None"

definition resolve_language :: "query_param \<Rightarrow> string option \<Rightarrow> language_row list \<Rightarrow> string" where
  "resolve_language langParam acceptLanguage languages =
     (let active = map la_code languages in
      case param_code langParam of
        Some c \<Rightarrow> if c \<in> set active then c else
          (case List.find (\<lambda>k. k \<in> set active) (parseAcceptLanguage acceptLanguage) of
             Some k \<Rightarrow> k | None \<Rightarrow> getDefaultCode languages)
      | None \<Rightarrow>
          (case List.find (\<lambda>k. k \<in> set active) (parseAcceptLanguage acceptLanguage) of
             Some k \<Rightarrow> k | None \<Rightarrow> getDefaultCode languages))"

definition resolve_lang_pipe ::
  "cache_env \<Rightarrow> time \<Rightarrow> query_param \<Rightarrow> string option \<Rightarrow> lang_state \<Rightarrow> string \<times> lang_state" where
  "resolve_lang_pipe ce t langParam acceptLanguage s =
     (let (languages, s') = getActive ce t s in (resolve_language langParam acceptLanguage languages, s'))"

section \<open>What is resolved\<close>

lemma lower_code: "list_all is_lower s \<Longrightarrow> lower s = s"
  by (induction s) (auto simp: lower_def ascii_lower_def is_lower_def Let_def)

lemma is_lower_plain: "is_lower c \<Longrightarrow> \<not> is_space c \<and> c \<noteq> CHR ''-'' \<and> c \<noteq> CHR ''_''"
  by (auto simp: is_lower_def is_space_def)

lemma normalizeCode_idem:
  assumes "normalizeCode v = Some c"
  shows "normalizeCode c = Some c" and "list_all is_lower c" and "length c \<in> {2..8}"
proof -
  have c: "list_all is_lower c" "length c \<in> {2..8}" using assms by (auto simp: normalizeCode_def Let_def split: if_splits)
  then have plain: "\<not> is_space k \<and> k \<noteq> CHR ''-'' \<and> k \<noteq> CHR ''_''" if "k \<in> set c" for k
    using that is_lower_plain by (simp add: list_all_iff)
  then have "trim c = c" using trim_plain by blast
  then have "lower (trim c) = c" using lower_code [OF c(1)] by simp
  moreover have "takeWhile (\<lambda>k. k \<noteq> CHR ''-'' \<and> k \<noteq> CHR ''_'') c = c"
    unfolding takeWhile_eq_all_conv using plain by blast
  ultimately show "normalizeCode c = Some c" using c unfolding normalizeCode_def Let_def by metis
  show "list_all is_lower c" "length c \<in> {2..8}" using c by simp_all
qed

lemma first_seen_set: "set (first_seen seen cs) = set cs - set seen"
  by (induction seen cs rule: first_seen.induct) auto

lemma first_seen_distinct: "distinct (first_seen seen cs)"
  by (induction seen cs rule: first_seen.induct) (auto simp: first_seen_set)

lemma parseAcceptLanguage_distinct: "distinct (parseAcceptLanguage h)"
  by (simp add: parseAcceptLanguage_def first_seen_distinct)

text \<open>Dropping repeated codes does not change which one is found first.\<close>

lemma find_first_seen:
  "(\<And>c. c \<in> set seen \<Longrightarrow> \<not> P c) \<Longrightarrow> List.find P (first_seen seen cs) = List.find P cs"
  by (induction seen cs rule: first_seen.induct) auto

text \<open>In a list of descending quality the first match has the highest quality among all matches.\<close>

lemma find_best:
  assumes "sorted (map (\<lambda>(_, q). - q :: rat) es)" and "List.find P (map fst es) = Some k"
  shows "\<exists>q. (k, q) \<in> set es \<and> (\<forall>c' q'. (c', q') \<in> set es \<longrightarrow> P c' \<longrightarrow> q' \<le> q)"
  using assms
proof (induction es)
  case (Cons e es)
  obtain c q where e: "e = (c, q)" by (cases e)
  show ?case
  proof (cases "P c")
    case True
    then have "k = c" using Cons.prems(2) e by simp
    moreover have "q' \<le> q" if "(c', q') \<in> set es" for c' q' using Cons.prems(1) that e by fastforce
    ultimately show ?thesis using e by (intro exI [of _ q]) auto
  next
    case False
    then obtain r where "(k, r) \<in> set es" "\<forall>c' q'. (c', q') \<in> set es \<longrightarrow> P c' \<longrightarrow> q' \<le> r"
      using Cons e by auto
    then show ?thesis using False e by (intro exI [of _ r]) auto
  qed
qed simp

lemma find_accepted:
  "truthy_str h \<Longrightarrow> List.find P (parseAcceptLanguage h) =
     List.find P (map fst (sort_key (\<lambda>(_, q). - q) (usable_entries (the h))))"
  using find_first_seen [of "[]" P "map fst (sort_key (\<lambda>(_, q). - q) (usable_entries (the h)))"]
  by (simp add: parseAcceptLanguage_def)

lemma default_active: "languages \<noteq> [] \<Longrightarrow> getDefaultCode languages \<in> la_code ` set languages"
  by (cases languages) (auto simp: getDefaultCode_def getDefault_def find_Some_iff split: option.splits)

text \<open>
  The language of an answer is an active one (the fallback only when no language is active). A usable
  query parameter wins when it is active; otherwise an active code of the header wins that no active code of
  the header exceeds in quality; otherwise the default language answers.
\<close>

theorem language_resolution:
  defines "active \<equiv> \<lambda>c languages. c \<in> la_code ` set languages"
  assumes "languages \<noteq> []"
  shows "active (resolve_language p h languages) languages \<and>
    (\<forall>c. param_code p = Some c \<longrightarrow> active c languages \<longrightarrow> resolve_language p h languages = c) \<and>
    ((\<forall>c. param_code p = Some c \<longrightarrow> \<not> active c languages) \<longrightarrow> truthy_str h \<longrightarrow>
      (if \<exists>(c, q) \<in> set (usable_entries (the h)). active c languages
       then \<exists>q. (resolve_language p h languages, q) \<in> set (usable_entries (the h)) \<and>
              (\<forall>(c', q') \<in> set (usable_entries (the h)). active c' languages \<longrightarrow> q' \<le> q)
       else resolve_language p h languages = getDefaultCode languages))"
proof -
  let ?P = "\<lambda>k. k \<in> set (map la_code languages)"
  let ?es = "sort_key (\<lambda>(_, q). - q) (usable_entries (the h))"
  have P: "?P k \<longleftrightarrow> active k languages" for k by (simp add: active_def)
  have found: "?P k" if "List.find ?P xs = Some k" for k xs using that by (auto simp: find_Some_iff)
  have a1: "active (resolve_language p h languages) languages"
    using found default_active [OF assms(2)]
    by (auto simp: resolve_language_def active_def Let_def split: option.splits)
  have a2: "param_code p = Some c \<longrightarrow> active c languages \<longrightarrow> resolve_language p h languages = c" for c
    by (simp add: resolve_language_def active_def Let_def)
  have a3: "if \<exists>(c, q) \<in> set (usable_entries (the h)). active c languages
       then \<exists>q. (resolve_language p h languages, q) \<in> set (usable_entries (the h)) \<and>
              (\<forall>(c', q') \<in> set (usable_entries (the h)). active c' languages \<longrightarrow> q' \<le> q)
       else resolve_language p h languages = getDefaultCode languages"
    if no: "\<forall>c. param_code p = Some c \<longrightarrow> \<not> active c languages" and h: "truthy_str h"
  proof -
    have r: "resolve_language p h languages = (case List.find ?P (map fst ?es) of Some k \<Rightarrow> k | None \<Rightarrow> getDefaultCode languages)"
      using no unfolding find_accepted [OF h, symmetric]
      by (cases "param_code p") (auto simp: resolve_language_def active_def Let_def)
    have sorted: "sorted (map (\<lambda>(_, q). - q :: rat) ?es)" by simp
    show ?thesis
    proof (cases "List.find ?P (map fst ?es)")
      case None
      then have "\<not> (\<exists>(c, q) \<in> set (usable_entries (the h)). active c languages)"
        unfolding find_None_iff by (auto simp: active_def)
      then show ?thesis using r None by simp
    next
      case (Some k)
      obtain q where q: "(k, q) \<in> set ?es" "\<forall>c' q'. (c', q') \<in> set ?es \<longrightarrow> ?P c' \<longrightarrow> q' \<le> q"
        using find_best [OF sorted Some] by blast
      have "resolve_language p h languages = k" using r Some by simp
      moreover have "\<exists>(c, q) \<in> set (usable_entries (the h)). active c languages"
        using q(1) found [OF Some] by (auto simp: active_def)
      ultimately show ?thesis using q by (auto simp: active_def)
    qed
  qed
  show ?thesis using a1 a2 a3 by blast
qed

definition demo_languages :: "language_row list" where
  "demo_languages = [\<lparr>la_code = ''el'', la_isDefault = True, la_isActive = True, la_sortOrder = 0\<rparr>,
     \<lparr>la_code = ''en'', la_isDefault = False, la_isActive = True, la_sortOrder = 1\<rparr>]"

theorem language_resolution_witness:
  "resolve_language (StrParam ''EN-gb'') (Some ''fr'') demo_languages = ''en''"
proof -
  have "param_code (StrParam ''EN-gb'') = Some ''en''" by code_simp
  moreover have "demo_languages \<noteq> []" "''en'' \<in> la_code ` set demo_languages" by (simp_all add: demo_languages_def)
  ultimately show ?thesis using language_resolution [of demo_languages "StrParam ''EN-gb''" "Some ''fr''"] by blast
qed

end
