(* ===== verification/Invitation.thy ===== *)
theory Invitation
  imports InvitationText Language Token
begin

text \<open>
  Invitations (\<open>src/src/invitation/invitation.service.ts\<close>, \<open>invitation-token.ts\<close>, \<open>invitation.mapper.ts\<close>,
  \<open>config/invitation.config.ts\<close>): sending an invitation under two rolling limits, the state of an
  invitation, delivery after the response, and conversion when the invited person registers.

  \<open>create\<close>, \<open>revoke\<close> and \<open>resend\<close> read first and write later; each is given as its check, its commit and their
  composition, so that interleavings of two requests can be stated. The partial unique index (one PENDING
  row per sender and address) and the unique token hash are part of the commits. The layout texts around
  the body of the mail are left out.
\<close>

section \<open>Rows, settings and state\<close>

datatype invitation_status = PENDING | ACCEPTED | EXPIRED | REVOKED
datatype accepted_via = ViaToken | ViaEmail
datatype send_outcome = Queued | Sent | Failed

record invitation_row =
  in_id :: id
  in_senderUserId :: id
  in_recipientEmail :: string
  in_recipientName :: "string option"
  in_locale :: string
  in_subject :: string
  in_body :: string
  in_message :: "string option"
  in_tokenHash :: string
  in_status :: invitation_status
  in_acceptedVia :: "accepted_via option"
  in_createdAt :: time
  in_sentAt :: time
  in_expiresAt :: time
  in_acceptedAt :: "time option"
  in_revokedAt :: "time option"
  in_convertedUserId :: "id option"

record send_log_row =
  sl_id :: id
  sl_invitationId :: id
  sl_senderUserId :: id
  sl_recipientHash :: string
  sl_sentAt :: time
  sl_outcome :: send_outcome
  sl_error :: "string option"

record invite_mail =
  im_from :: string
  im_to :: string
  im_subject :: string
  im_bodyHtml :: string
  im_text :: string

text \<open>A delivery that was queued with \<open>setImmediate\<close>: the row as it was written, the raw token, address and log row.\<close>

record delivery =
  dv_invitation :: invitation_row
  dv_rawToken :: string
  dv_to :: string
  dv_logId :: id

record invite_state =
  iv_users :: "user_row list"
  iv_rows :: "invitation_row list"
  iv_logs :: "send_log_row list"
  iv_tasks :: "delivery list"
  iv_outbox :: "invite_mail list"

record invite_config =
  ic_baseUrl :: string
  ic_ttlDays :: int
  ic_dailyLimit :: int
  ic_resendCooldownMinutes :: int
  ic_from :: string
  ic_globalHourlyLimit :: int

definition positiveInt :: "string option \<Rightarrow> int \<Rightarrow> bool \<Rightarrow> int" where
  "positiveInt v fallback allowZero =
     (case js_parse_int (trim (case v of None \<Rightarrow> [] | Some s \<Rightarrow> s)) of
        None \<Rightarrow> fallback
      | Some n \<Rightarrow> if n < 0 then fallback else if n = 0 \<and> \<not> allowZero then fallback else n)"

definition env_text :: "(string \<Rightarrow> string option) \<Rightarrow> string \<Rightarrow> string" where
  "env_text vars k = trim (case vars k of None \<Rightarrow> [] | Some s \<Rightarrow> s)"

definition getInvitationConfig :: "(string \<Rightarrow> string option) \<Rightarrow> invite_config" where
  "getInvitationConfig vars =
     \<lparr>ic_baseUrl = strip_trailing_slash (env_text vars ''INVITE_BASE_URL''),
      ic_ttlDays = positiveInt (vars ''INVITE_TTL_DAYS'') 30 False,
      ic_dailyLimit = positiveInt (vars ''INVITE_DAILY_LIMIT'') 20 False,
      ic_resendCooldownMinutes = positiveInt (vars ''INVITE_RESEND_COOLDOWN_MINUTES'') 60 True,
      ic_from = (if env_text vars ''INVITE_FROM'' \<noteq> [] then env_text vars ''INVITE_FROM''
                 else env_text vars ''MAIL_NOTIFICATIONS_FROM''),
      ic_globalHourlyLimit = positiveInt (vars ''INVITE_GLOBAL_HOURLY_LIMIT'') 500 True\<rparr>"

definition ic_enabled :: "invite_config \<Rightarrow> bool" where
  "ic_enabled cfg \<longleftrightarrow> length (ic_baseUrl cfg) > 0"

definition buildInviteAcceptUrl :: "string \<Rightarrow> string \<Rightarrow> string" where
  "buildInviteAcceptUrl baseUrl rawToken = baseUrl @ ''/accept-invite?token='' @ encodeURIComponent rawToken"

text \<open>What a request reads from its surroundings: the clock, SHA-256, the token it would mint, and the active languages.\<close>

record invite_env =
  ie_now :: time
  ie_hash :: "string \<Rightarrow> string"
  ie_mint :: string
  ie_languages :: "language_row list"

definition DAY_MS :: int where "DAY_MS = 24 * 60 * 60 * 1000"
definition HOUR_MS :: int where "HOUR_MS = 60 * 60 * 1000"

section \<open>Tokens, DTOs and mapping\<close>

definition INVITE_TOKEN_MAX_LENGTH :: nat where "INVITE_TOKEN_MAX_LENGTH = 256"

definition token_char :: "char \<Rightarrow> bool" where
  "token_char c \<longleftrightarrow> (let n = (of_char (ascii_lower c) :: nat) in 97 \<le> n \<and> n \<le> 122) \<or> is_digit c \<or> c \<in> set ''_-''"

definition isPlausibleInviteToken :: "string option \<Rightarrow> bool" where
  "isPlausibleInviteToken v \<longleftrightarrow>
     (case v of None \<Rightarrow> False
      | Some s \<Rightarrow> length s > 0 \<and> length s \<le> INVITE_TOKEN_MAX_LENGTH \<and> list_all token_char s)"

record create_invitation_dto =
  ci_recipientEmail :: string
  ci_recipientName :: "string option"
  ci_message :: "string option"
  ci_locale :: string
  ci_subject :: string
  ci_body :: string

definition trimOrUndefined :: "string option \<Rightarrow> string option" where
  "trimOrUndefined v = (case v of None \<Rightarrow> None | Some s \<Rightarrow> if trim s = [] then None else Some (trim s))"

definition transform_invitation :: "create_invitation_dto \<Rightarrow> create_invitation_dto" where
  "transform_invitation dto =
     \<lparr>ci_recipientEmail = trim (ci_recipientEmail dto), ci_recipientName = trimOrUndefined (ci_recipientName dto),
      ci_message = trimOrUndefined (ci_message dto), ci_locale = trim (ci_locale dto),
      ci_subject = trim (ci_subject dto), ci_body = trim (ci_body dto)\<rparr>"

definition valid_create_invitation :: "format_checks \<Rightarrow> create_invitation_dto \<Rightarrow> bool" where
  "valid_create_invitation fc dto \<longleftrightarrow>
     fc_isEmail fc (ci_recipientEmail dto) \<and> max_length 254 (ci_recipientEmail dto) \<and>
     opt_ok (max_length 120) (ci_recipientName dto) \<and> opt_ok (max_length 1000) (ci_message dto) \<and>
     length (ci_locale dto) \<in> {2..5} \<and> length (ci_subject dto) \<in> {1..200} \<and> length (ci_body dto) \<in> {1..4000}"

record invitation_dto =
  id_id :: string
  id_recipientEmail :: string
  id_recipientName :: "string option"
  id_locale :: string
  id_status :: string
  id_createdAt :: time
  id_sentAt :: time
  id_expiresAt :: time
  id_acceptedAt :: "time option"
  id_acceptedVia :: "string option"

primrec status_value :: "invitation_status \<Rightarrow> string" where
  "status_value PENDING = ''pending''"
| "status_value ACCEPTED = ''accepted''"
| "status_value EXPIRED = ''expired''"
| "status_value REVOKED = ''revoked''"

primrec via_value :: "accepted_via \<Rightarrow> string" where
  "via_value ViaToken = ''token''"
| "via_value ViaEmail = ''email''"

definition toInvitationDto :: "invitation_row \<Rightarrow> invitation_dto" where
  "toInvitationDto r =
     \<lparr>id_id = show_int (in_id r), id_recipientEmail = in_recipientEmail r, id_recipientName = in_recipientName r,
      id_locale = in_locale r, id_status = status_value (in_status r), id_createdAt = in_createdAt r,
      id_sentAt = in_sentAt r, id_expiresAt = in_expiresAt r, id_acceptedAt = in_acceptedAt r,
      id_acceptedVia = map_option via_value (in_acceptedVia r)\<rparr>"

text \<open>First and last name, else the display name, else a label; the sender of a row always exists.\<close>

definition senderDisplayName :: "user_row option \<Rightarrow> string" where
  "senderDisplayName u =
     (let full = (case u of None \<Rightarrow> [] | Some x \<Rightarrow>
             join_str '' '' (filter (\<lambda>p. p \<noteq> []) [trim (u_firstName x), trim (u_lastName x)]));
          display = (case u of None \<Rightarrow> [] | Some x \<Rightarrow> trim (u_name x))
      in if full \<noteq> [] then full else if display \<noteq> [] then display else ''A FiFi Alert user'')"

record invitation_preview =
  pv_recipientEmail :: string
  pv_recipientName :: "string option"
  pv_locale :: string
  pv_senderName :: string

definition toInvitationPreviewDto :: "invitation_row \<Rightarrow> user_row option \<Rightarrow> invitation_preview" where
  "toInvitationPreviewDto r sender =
     \<lparr>pv_recipientEmail = in_recipientEmail r, pv_recipientName = in_recipientName r, pv_locale = in_locale r,
      pv_senderName = senderDisplayName sender\<rparr>"

section \<open>Guards\<close>

definition not_configured :: exn where "not_configured = ServiceUnavailableException ''Invitations not configured''"

definition already_registered :: exn where
  "already_registered = ConflictException ''Recipient already has an account''"

definition invite_pending :: exn where
  "invite_pending = ConflictException ''An invitation to this address is already pending''"

definition find_by_email :: "string \<Rightarrow> invite_state \<Rightarrow> user_row option" where
  "find_by_email email s = List.find (\<lambda>u. u_email u = email) (iv_users s)"

definition sweepExpired :: "time \<Rightarrow> id option \<Rightarrow> invite_state \<Rightarrow> invite_state" where
  "sweepExpired t sender s =
     s\<lparr>iv_rows := update_where (\<lambda>r. in_status r = PENDING \<and> in_expiresAt r < t \<and> opt_ok (\<lambda>u. in_senderUserId r = u) sender)
         (\<lambda>r. r\<lparr>in_status := EXPIRED\<rparr>) (iv_rows s)\<rparr>"

definition counted :: "time \<Rightarrow> send_log_row \<Rightarrow> bool" where
  "counted since l \<longleftrightarrow> since < sl_sentAt l \<and> sl_outcome l \<noteq> Failed"

definition enforceSendLimits :: "invite_config \<Rightarrow> time \<Rightarrow> id \<Rightarrow> invite_state \<Rightarrow> exn + unit" where
  "enforceSendLimits cfg t sender s =
     (let daily = count_where (\<lambda>l. sl_senderUserId l = sender \<and> counted (t - DAY_MS) l) (iv_logs s) in
      if int daily \<ge> ic_dailyLimit cfg then Inl (TooManyRequests ''Daily invitation limit reached'')
      else if ic_globalHourlyLimit cfg > 0 \<and>
              int (count_where (counted (t - HOUR_MS)) (iv_logs s)) \<ge> ic_globalHourlyLimit cfg
      then Inl (TooManyRequests ''Invitations are temporarily unavailable, try again later'')
      else Inr ())"

text \<open>The partial unique index and the unique token hash, for a row about to be written.\<close>

definition unique_violation :: "invitation_row \<Rightarrow> invitation_row list \<Rightarrow> bool" where
  "unique_violation r rows \<longleftrightarrow>
     list_ex (\<lambda>x. in_id x \<noteq> in_id r \<and>
       (in_tokenHash x = in_tokenHash r \<or>
        (in_status r = PENDING \<and> in_status x = PENDING \<and> in_senderUserId x = in_senderUserId r \<and>
         in_recipientEmail x = in_recipientEmail r))) rows"

section \<open>Create\<close>

definition invite_recipient :: "create_invitation_dto \<Rightarrow> string" where
  "invite_recipient dto = lower (trim (ci_recipientEmail dto))"

definition invitation_errors :: "invite_env \<Rightarrow> string option \<Rightarrow> create_invitation_dto \<Rightarrow> string list" where
  "invitation_errors ie senderEmail dto =
     (let subject = normalizeText (ci_subject dto); body = normalizeText (ci_body dto); locale = normalizeCode (ci_locale dto) in
      (case locale of None \<Rightarrow> [''locale must be a supported language code'']
       | Some c \<Rightarrow> if isActiveCode c (ie_languages ie) then [] else [''locale must be a supported language code'']) @
      plainTextErrors SubjectField subject 1 200 @ plainTextErrors BodyField body 1 4000 @
      (if countPlaceholders body \<noteq> 1 then [''body must contain exactly one '' @ INVITE_LINK_PLACEHOLDER] else []) @
      (if invite_recipient dto = lower (case senderEmail of None \<Rightarrow> [] | Some e \<Rightarrow> e)
       then [''recipientEmail must not be your own address''] else []))"

definition create_check ::
  "invite_env \<Rightarrow> invite_config \<Rightarrow> id \<Rightarrow> string option \<Rightarrow> create_invitation_dto \<Rightarrow> invite_state \<Rightarrow> exn + unit" where
  "create_check ie cfg sender senderEmail dto s =
     (if \<not> ic_enabled cfg then Inl not_configured
      else let errors = invitation_errors ie senderEmail dto in
      if errors \<noteq> [] then Inl (BadRequestList errors)
      else if find_by_email (invite_recipient dto) s \<noteq> None then Inl already_registered
      else if list_ex (\<lambda>r. in_senderUserId r = sender \<and> in_recipientEmail r = invite_recipient dto \<and> in_status r = PENDING)
                (iv_rows s)
      then Inl invite_pending
      else enforceSendLimits cfg (ie_now ie) sender s)"

definition new_invitation_row ::
  "invite_env \<Rightarrow> invite_config \<Rightarrow> id \<Rightarrow> create_invitation_dto \<Rightarrow> invite_state \<Rightarrow> invitation_row" where
  "new_invitation_row ie cfg sender dto s =
     \<lparr>in_id = next_id in_id (iv_rows s), in_senderUserId = sender, in_recipientEmail = invite_recipient dto,
      in_recipientName = ci_recipientName dto, in_locale = the (normalizeCode (ci_locale dto)),
      in_subject = normalizeText (ci_subject dto), in_body = normalizeText (ci_body dto), in_message = ci_message dto,
      in_tokenHash = ie_hash ie (ie_mint ie), in_status = PENDING, in_acceptedVia = None, in_createdAt = ie_now ie,
      in_sentAt = ie_now ie, in_expiresAt = ie_now ie + ic_ttlDays cfg * DAY_MS, in_acceptedAt = None,
      in_revokedAt = None, in_convertedUserId = None\<rparr>"

definition new_log_row :: "invite_env \<Rightarrow> id \<Rightarrow> invitation_row \<Rightarrow> invite_state \<Rightarrow> send_log_row" where
  "new_log_row ie sender r s =
     \<lparr>sl_id = next_id sl_id (iv_logs s), sl_invitationId = in_id r, sl_senderUserId = sender,
      sl_recipientHash = ie_hash ie (in_recipientEmail r), sl_sentAt = ie_now ie, sl_outcome = Queued, sl_error = None\<rparr>"

definition queueDelivery :: "invitation_row \<Rightarrow> string \<Rightarrow> string \<Rightarrow> id \<Rightarrow> invite_state \<Rightarrow> invite_state" where
  "queueDelivery r rawToken address logId s =
     s\<lparr>iv_tasks := iv_tasks s @ [\<lparr>dv_invitation = r, dv_rawToken = rawToken, dv_to = address, dv_logId = logId\<rparr>]\<rparr>"

definition create_commit ::
  "invite_env \<Rightarrow> invite_config \<Rightarrow> id \<Rightarrow> create_invitation_dto \<Rightarrow> invite_state \<Rightarrow> (exn + invitation_dto) \<times> invite_state" where
  "create_commit ie cfg sender dto s =
     (let r = new_invitation_row ie cfg sender dto s; l = new_log_row ie sender r s in
      if unique_violation r (iv_rows s) then (Inl invite_pending, s)
      else (Inr (toInvitationDto r),
            queueDelivery r (ie_mint ie) (trim (ci_recipientEmail dto)) (sl_id l)
              (s\<lparr>iv_rows := iv_rows s @ [r], iv_logs := iv_logs s @ [l]\<rparr>)))"

definition createInvitation ::
  "invite_env \<Rightarrow> invite_config \<Rightarrow> id \<Rightarrow> string option \<Rightarrow> create_invitation_dto \<Rightarrow> invite_state \<Rightarrow>
   (exn + invitation_dto) \<times> invite_state" where
  "createInvitation ie cfg sender senderEmail dto s =
     (case create_check ie cfg sender senderEmail dto s of
        Inl e \<Rightarrow> (Inl e, s)
      | Inr _ \<Rightarrow> create_commit ie cfg sender dto s)"

section \<open>Reads\<close>

definition listInvitations ::
  "invite_env \<Rightarrow> invite_config \<Rightarrow> id \<Rightarrow> nat \<Rightarrow> nat \<Rightarrow> invite_state \<Rightarrow> (exn + invitation_dto list) \<times> invite_state" where
  "listInvitations ie cfg sender limit offset s =
     (if \<not> ic_enabled cfg then (Inl not_configured, s)
      else let s' = sweepExpired (ie_now ie) (Some sender) s;
               mine = filter (\<lambda>r. in_senderUserId r = sender) (iv_rows s');
               sorted = sort_key (\<lambda>r. - in_createdAt r) (sort_key (\<lambda>r. - in_id r) mine)
           in (Inr (map toInvitationDto (take limit (drop offset sorted))), s'))"

record invitation_stats =
  iz_sent :: nat
  iz_accepted :: nat
  iz_pending :: nat

definition invitationStats ::
  "invite_env \<Rightarrow> invite_config \<Rightarrow> id \<Rightarrow> invite_state \<Rightarrow> (exn + invitation_stats) \<times> invite_state" where
  "invitationStats ie cfg sender s =
     (if \<not> ic_enabled cfg then (Inl not_configured, s)
      else let s' = sweepExpired (ie_now ie) (Some sender) s;
               mine = filter (\<lambda>r. in_senderUserId r = sender) (iv_rows s')
           in (Inr \<lparr>iz_sent = length mine, iz_accepted = count_where (\<lambda>r. in_status r = ACCEPTED) mine,
                    iz_pending = count_where (\<lambda>r. in_status r = PENDING) mine\<rparr>, s'))"

definition no_invitation :: exn where
  "no_invitation = NotFoundException ''Invitation not found or no longer valid''"

definition preview :: "invite_env \<Rightarrow> invite_config \<Rightarrow> string \<Rightarrow> invite_state \<Rightarrow> exn + invitation_preview" where
  "preview ie cfg rawToken s =
     (if \<not> ic_enabled cfg then Inl not_configured
      else if \<not> isPlausibleInviteToken (Some rawToken) then Inl no_invitation
      else case List.find (\<lambda>r. in_tokenHash r = ie_hash ie rawToken) (iv_rows s) of
        None \<Rightarrow> Inl no_invitation
      | Some r \<Rightarrow>
          if in_status r \<noteq> PENDING \<or> in_expiresAt r \<le> ie_now ie then Inl no_invitation
          else Inr (toInvitationPreviewDto r (find_row u_id (in_senderUserId r) (iv_users s))))"

section \<open>Withdraw and resend\<close>

definition findOwned :: "id \<Rightarrow> id \<Rightarrow> invite_state \<Rightarrow> exn + invitation_row" where
  "findOwned sender i s =
     (case List.find (\<lambda>r. in_id r = i \<and> in_senderUserId r = sender) (iv_rows s) of
        None \<Rightarrow> Inl (NotFoundException ''Invitation not found'')
      | Some r \<Rightarrow> Inr r)"

definition revoke_check :: "invite_config \<Rightarrow> id \<Rightarrow> id \<Rightarrow> invite_state \<Rightarrow> exn + invitation_row" where
  "revoke_check cfg sender i s =
     (if \<not> ic_enabled cfg then Inl not_configured
      else case findOwned sender i s of
        Inl e \<Rightarrow> Inl e
      | Inr r \<Rightarrow> if in_status r \<noteq> PENDING
                 then Inl (UnprocessableEntityException ''Only pending invitations can be withdrawn'') else Inr r)"

definition revoke_commit :: "invite_env \<Rightarrow> id \<Rightarrow> invite_state \<Rightarrow> invite_state" where
  "revoke_commit ie i s =
     s\<lparr>iv_rows := update_where (\<lambda>r. in_id r = i) (\<lambda>r. r\<lparr>in_status := REVOKED, in_revokedAt := Some (ie_now ie)\<rparr>) (iv_rows s)\<rparr>"

definition revokeInvitation :: "invite_env \<Rightarrow> invite_config \<Rightarrow> id \<Rightarrow> id \<Rightarrow> invite_state \<Rightarrow> (exn + unit) \<times> invite_state" where
  "revokeInvitation ie cfg sender i s =
     (case revoke_check cfg sender i s of
        Inl e \<Rightarrow> (Inl e, s)
      | Inr r \<Rightarrow> (Inr (), revoke_commit ie (in_id r) s))"

definition last_send :: "id \<Rightarrow> send_log_row list \<Rightarrow> send_log_row option" where
  "last_send i logs =
     (case sort_key (\<lambda>l. - sl_sentAt l) (sort_key (\<lambda>l. - sl_id l) (filter (\<lambda>l. sl_invitationId l = i) logs)) of
        [] \<Rightarrow> None | l # _ \<Rightarrow> Some l)"

definition resend_check :: "invite_env \<Rightarrow> invite_config \<Rightarrow> id \<Rightarrow> id \<Rightarrow> invite_state \<Rightarrow> exn + invitation_row" where
  "resend_check ie cfg sender i s =
     (if \<not> ic_enabled cfg then Inl not_configured
      else case findOwned sender i s of
        Inl e \<Rightarrow> Inl e
      | Inr r \<Rightarrow>
          if in_status r = ACCEPTED \<or> in_status r = REVOKED
          then Inl (UnprocessableEntityException ''Invitation can no longer be resent'')
          else if find_by_email (in_recipientEmail r) s \<noteq> None then Inl already_registered
          else if \<not> (case last_send (in_id r) (iv_logs s) of None \<Rightarrow> False | Some l \<Rightarrow> sl_outcome l = Failed) \<and>
                  ie_now ie - in_sentAt r < ic_resendCooldownMinutes cfg * 60 * 1000
          then Inl (TooManyRequests ''Please wait before resending this invitation'')
          else case enforceSendLimits cfg (ie_now ie) sender s of Inl e \<Rightarrow> Inl e | Inr _ \<Rightarrow> Inr r)"

definition resent_row :: "invite_env \<Rightarrow> invite_config \<Rightarrow> invitation_row \<Rightarrow> invitation_row" where
  "resent_row ie cfg r =
     r\<lparr>in_tokenHash := ie_hash ie (ie_mint ie), in_status := PENDING, in_sentAt := ie_now ie,
       in_expiresAt := ie_now ie + ic_ttlDays cfg * DAY_MS\<rparr>"

text \<open>The update names the row by its id only, so it acts on the row as it is by then.\<close>

definition resend_commit ::
  "invite_env \<Rightarrow> invite_config \<Rightarrow> id \<Rightarrow> id \<Rightarrow> invite_state \<Rightarrow> (exn + invitation_dto) \<times> invite_state" where
  "resend_commit ie cfg sender i s =
     (case find_row in_id i (iv_rows s) of
        None \<Rightarrow> (Inl (Error ''No record was found for an update''), s)
      | Some r0 \<Rightarrow>
          let r = resent_row ie cfg r0; l = new_log_row ie sender r s in
          if unique_violation r (iv_rows s) then (Inl invite_pending, s)
          else (Inr (toInvitationDto r),
                queueDelivery r (ie_mint ie) (in_recipientEmail r) (sl_id l)
                  (s\<lparr>iv_rows := update_where (\<lambda>x. in_id x = i) (resent_row ie cfg) (iv_rows s), iv_logs := iv_logs s @ [l]\<rparr>)))"

definition resendInvitation ::
  "invite_env \<Rightarrow> invite_config \<Rightarrow> id \<Rightarrow> id \<Rightarrow> invite_state \<Rightarrow> (exn + invitation_dto) \<times> invite_state" where
  "resendInvitation ie cfg sender i s =
     (case resend_check ie cfg sender i s of
        Inl e \<Rightarrow> (Inl e, s)
      | Inr r \<Rightarrow> resend_commit ie cfg sender (in_id r) s)"

section \<open>Delivery\<close>

text \<open>\<open>failure\<close> is the message of the error that rendering or the mail provider raises, if one does.\<close>

definition deliver :: "invite_config \<Rightarrow> string option \<Rightarrow> delivery \<Rightarrow> invite_state \<Rightarrow> invite_state" where
  "deliver cfg failure d s =
     (let inv = dv_invitation d; link = buildInviteAcceptUrl (ic_baseUrl cfg) (dv_rawToken d) in
      case failure of
        None \<Rightarrow>
          s\<lparr>iv_outbox := iv_outbox s @
              [\<lparr>im_from = ic_from cfg, im_to = dv_to d, im_subject = in_subject inv,
                im_bodyHtml = renderInvitationHtmlBody (in_body inv) link,
                im_text = renderInvitationTextBody (in_body inv) link\<rparr>],
            iv_logs := update_where (\<lambda>l. sl_id l = dv_logId d) (\<lambda>l. l\<lparr>sl_outcome := Sent\<rparr>) (iv_logs s)\<rparr>
      | Some message \<Rightarrow>
          s\<lparr>iv_logs := update_where (\<lambda>l. sl_id l = dv_logId d)
              (\<lambda>l. l\<lparr>sl_outcome := Failed, sl_error := Some (take 500 message)\<rparr>) (iv_logs s),
            iv_rows := update_where
              (\<lambda>r. in_id r = in_id inv \<and> in_status r = PENDING \<and> in_tokenHash r = in_tokenHash inv)
              (\<lambda>r. r\<lparr>in_status := EXPIRED\<rparr>) (iv_rows s)\<rparr>)"

text \<open>The event loop runs a queued delivery; sends finish in any order.\<close>

definition run_task :: "invite_config \<Rightarrow> string option \<Rightarrow> nat \<Rightarrow> invite_state \<Rightarrow> invite_state" where
  "run_task cfg failure k s =
     (if k < length (iv_tasks s)
      then deliver cfg failure (iv_tasks s ! k) (s\<lparr>iv_tasks := take k (iv_tasks s) @ drop (Suc k) (iv_tasks s)\<rparr>)
      else s)"

section \<open>Conversion\<close>

definition accept_row :: "time \<Rightarrow> accepted_via \<Rightarrow> id \<Rightarrow> invitation_row \<Rightarrow> invitation_row" where
  "accept_row t via userId r =
     r\<lparr>in_status := ACCEPTED, in_acceptedVia := Some via, in_acceptedAt := Some t, in_convertedUserId := Some userId\<rparr>"

definition is_open :: "time \<Rightarrow> invitation_row \<Rightarrow> bool" where
  "is_open t r \<longleftrightarrow> in_status r = PENDING \<and> t < in_expiresAt r"

definition acceptByToken :: "invite_env \<Rightarrow> string \<Rightarrow> id \<Rightarrow> invite_state \<Rightarrow> invite_state" where
  "acceptByToken ie rawToken userId s =
     s\<lparr>iv_rows := update_where (\<lambda>r. in_tokenHash r = ie_hash ie rawToken \<and> is_open (ie_now ie) r)
         (accept_row (ie_now ie) ViaToken userId) (iv_rows s)\<rparr>"

definition acceptByEmail :: "invite_env \<Rightarrow> string \<Rightarrow> id \<Rightarrow> invite_state \<Rightarrow> invite_state" where
  "acceptByEmail ie email userId s =
     s\<lparr>iv_rows := update_where (\<lambda>r. in_recipientEmail r = lower (trim email) \<and> is_open (ie_now ie) r)
         (accept_row (ie_now ie) ViaEmail userId) (iv_rows s)\<rparr>"

text \<open>The id of the payload, when it is an integer, and the token the client sent along, if it is a string.\<close>

definition handleUserRegistered :: "invite_env \<Rightarrow> id option \<Rightarrow> string option \<Rightarrow> invite_state \<Rightarrow> invite_state" where
  "handleUserRegistered ie payloadId inviteToken s =
     (case payloadId of
        None \<Rightarrow> s
      | Some userId \<Rightarrow>
          let s1 = (if isPlausibleInviteToken inviteToken then acceptByToken ie (the inviteToken) userId s else s) in
          (case find_row u_id userId (iv_users s1) of
             None \<Rightarrow> s1
           | Some u \<Rightarrow> if u_emailVerified u then acceptByEmail ie (u_email u) userId s1 else s1))"

definition handleEmailVerified :: "invite_env \<Rightarrow> id option \<Rightarrow> string \<Rightarrow> invite_state \<Rightarrow> invite_state" where
  "handleEmailVerified ie payloadId email s =
     (case payloadId of
        None \<Rightarrow> s
      | Some userId \<Rightarrow> if email = [] then s else acceptByEmail ie email userId s)"

end
