(* ===== verification/InvitationProperties.thy ===== *)
theory InvitationProperties
  imports Invitation
begin

text \<open>
  Invitations over any sequence of requests, deliveries and conversions: the invariant of the table and of
  the send log, the limits on sending, the states an invitation can take, and what two interleaved
  requests can do that a sequence of requests cannot.
\<close>

section \<open>Runs\<close>

datatype invite_cmd =
    CreateCmd id "string option" create_invitation_dto
  | ListCmd id nat nat
  | StatsCmd id
  | RevokeCmd id id
  | ResendCmd id id
  | RegisteredCmd "id option" "string option"
  | VerifiedCmd "id option" string
  | DeliverCmd "string option" nat
  | UsersCmd "user_row list" \<comment> \<open>the accounts change, by another component\<close>

fun exec_invite :: "invite_env \<Rightarrow> invite_config \<Rightarrow> invite_cmd \<Rightarrow> invite_state \<Rightarrow> invite_state" where
  "exec_invite ie cfg (CreateCmd u e dto) s = snd (createInvitation ie cfg u e dto s)"
| "exec_invite ie cfg (ListCmd u n k) s = snd (listInvitations ie cfg u n k s)"
| "exec_invite ie cfg (StatsCmd u) s = snd (invitationStats ie cfg u s)"
| "exec_invite ie cfg (RevokeCmd u i) s = snd (revokeInvitation ie cfg u i s)"
| "exec_invite ie cfg (ResendCmd u i) s = snd (resendInvitation ie cfg u i s)"
| "exec_invite ie cfg (RegisteredCmd p tok) s = handleUserRegistered ie p tok s"
| "exec_invite ie cfg (VerifiedCmd p m) s = handleEmailVerified ie p m s"
| "exec_invite ie cfg (DeliverCmd f k) s = run_task cfg f k s"
| "exec_invite ie cfg (UsersCmd us) s = s\<lparr>iv_users := us\<rparr>"

inductive invite_step :: "invite_config \<Rightarrow> time \<times> invite_state \<Rightarrow> time \<times> invite_state \<Rightarrow> bool" for cfg where
  "t \<le> ie_now ie \<Longrightarrow> invite_step cfg (t, s) (ie_now ie, exec_invite ie cfg cmd s)"

inductive_cases invite_stepE [elim]: "invite_step cfg ts ts'"

section \<open>What an operation does to the table\<close>

definition final :: "invitation_row \<Rightarrow> bool" where
  "final r \<longleftrightarrow> in_status r = ACCEPTED \<or> in_status r = REVOKED"

definition identity :: "invitation_row \<Rightarrow> id \<times> id \<times> string \<times> string \<times> string \<times> time" where
  "identity r = (in_id r, in_senderUserId r, in_recipientEmail r, in_subject r, in_body r, in_createdAt r)"

definition keeps_row :: "invitation_row \<Rightarrow> invitation_row \<Rightarrow> bool" where
  "keeps_row r r' \<longleftrightarrow> identity r' = identity r \<and> (final r \<longrightarrow> r' = r)"

lemma identity_simps [simp]:
  "identity (r\<lparr>in_status := x\<rparr>) = identity r" "identity (r\<lparr>in_revokedAt := y\<rparr>) = identity r"
  "identity (accept_row t v u r) = identity r" "identity (resent_row ie cfg r) = identity r"
  by (simp_all add: identity_def accept_row_def resent_row_def)

lemma identityD: "identity x = identity y \<Longrightarrow>
  in_id x = in_id y \<and> in_senderUserId x = in_senderUserId y \<and> in_recipientEmail x = in_recipientEmail y \<and>
  in_subject x = in_subject y \<and> in_body x = in_body y \<and> in_createdAt x = in_createdAt y"
  by (simp add: identity_def)

lemma findOwned_row: "findOwned u i s = Inr r \<Longrightarrow> r \<in> set (iv_rows s) \<and> in_id r = i \<and> in_senderUserId r = u"
  by (auto simp: findOwned_def find_Some_iff split: option.splits)

lemma revoke_check_row:
  "revoke_check cfg u i s = Inr r \<Longrightarrow> r \<in> set (iv_rows s) \<and> in_id r = i \<and> in_status r = PENDING"
  by (auto simp: revoke_check_def dest: findOwned_row split: if_splits sum.splits)

lemma resend_check_row:
  assumes "resend_check ie cfg u i s = Inr r"
  shows "r \<in> set (iv_rows s)" "in_id r = i" "\<not> final r" "in_senderUserId r = u" "enforceSendLimits cfg (ie_now ie) u s = Inr ()"
  using assms by (auto simp: resend_check_def final_def dest: findOwned_row split: if_splits sum.splits)

lemma create_check_ok:
  assumes "create_check ie cfg u e dto s = Inr x"
  shows "invitation_errors ie e dto = []" "enforceSendLimits cfg (ie_now ie) u s = Inr ()"
  using assms by (auto simp: create_check_def Let_def split: if_splits)

text \<open>Every operation rewrites rows one by one, keeping what must be kept, and may append one.\<close>

definition table_change :: "invitation_row list \<Rightarrow> invitation_row list \<Rightarrow> bool" where
  "table_change rows rows' \<longleftrightarrow> (\<exists>f new. rows' = map f rows @ new \<and> (\<forall>r \<in> set rows. keeps_row r (f r)))"

lemma table_change_refl: "table_change rows rows"
  unfolding table_change_def by (intro exI [of _ id] exI [of _ "[]"]) (simp add: keeps_row_def)

lemma table_change_update:
  assumes "\<And>r. r \<in> set rows \<Longrightarrow> p r \<Longrightarrow> keeps_row r (f r)"
  shows "table_change rows (update_where p f rows)"
  unfolding table_change_def update_where_def
  using assms by (intro exI [of _ "\<lambda>r. if p r then f r else r"] exI [of _ "[]"]) (simp add: keeps_row_def)

lemma table_change_append: "table_change rows (rows @ new)"
  unfolding table_change_def by (intro exI [of _ id] exI [of _ new]) (simp add: keeps_row_def)

lemma keeps_row_trans: "keeps_row a b \<Longrightarrow> keeps_row b c \<Longrightarrow> keeps_row a c"
  by (auto simp: keeps_row_def)

lemma table_change_trans:
  assumes "table_change a b" and "table_change b c"
  shows "table_change a c"
proof -
  obtain f new where b: "b = map f a @ new" "\<forall>r \<in> set a. keeps_row r (f r)"
    using assms(1) unfolding table_change_def by blast
  obtain g new' where c: "c = map g b @ new'" "\<forall>r \<in> set b. keeps_row r (g r)"
    using assms(2) unfolding table_change_def by blast
  have "\<forall>r \<in> set a. keeps_row r ((g \<circ> f) r)" using b c(2) by (auto intro: keeps_row_trans)
  then show ?thesis unfolding table_change_def
    using b c by (intro exI [of _ "g \<circ> f"] exI [of _ "map g new @ new'"]) simp
qed

lemma keeps_open: "\<not> final r \<Longrightarrow> identity r' = identity r \<Longrightarrow> keeps_row r r'"
  by (simp add: keeps_row_def)

lemma accept_change: "table_change rows (update_where (\<lambda>r. q r \<and> is_open t r) (accept_row t v u) rows)"
  by (rule table_change_update) (simp add: keeps_open is_open_def final_def)

lemma sweep_change: "table_change (iv_rows s) (iv_rows (sweepExpired t u s))"
  unfolding sweepExpired_def by (auto intro!: table_change_update keeps_open simp: final_def)

lemma registered_change: "table_change (iv_rows s) (iv_rows (handleUserRegistered ie p tok s))"
proof -
  have "table_change (iv_rows s) (iv_rows (acceptByToken ie x u s))" for x u
    by (simp add: acceptByToken_def accept_change)
  moreover have "table_change (iv_rows s') (iv_rows (acceptByEmail ie m u s'))" for m u s'
    by (simp add: acceptByEmail_def accept_change)
  ultimately have "table_change (iv_rows s) (iv_rows (acceptByEmail ie m u (acceptByToken ie x u s)))"
    "table_change (iv_rows s) (iv_rows (acceptByToken ie x u s))" "table_change (iv_rows s) (iv_rows (acceptByEmail ie m u s))" for x m u
    by (blast intro: table_change_trans)+
  then show ?thesis
    by (auto simp: handleUserRegistered_def Let_def table_change_refl split: option.split)
qed

lemma exec_change:
  assumes "distinct (map in_id (iv_rows s))"
  shows "table_change (iv_rows s) (iv_rows (exec_invite ie cfg cmd s))"
proof (cases cmd)
  case (CreateCmd u e dto)
  then show ?thesis by (auto simp: createInvitation_def create_commit_def queueDelivery_def Let_def
      table_change_refl table_change_append split: sum.split)
next
  case (RevokeCmd u i)
  show ?thesis
  proof (cases "revoke_check cfg u i s")
    case (Inr r)
    have "keeps_row x (x\<lparr>in_status := REVOKED, in_revokedAt := Some (ie_now ie)\<rparr>)" if "x \<in> set (iv_rows s)" "in_id x = in_id r" for x
      using revoke_check_row [OF Inr] that assms by (auto simp: final_def distinct_map dest!: inj_onD intro!: keeps_open)
    then show ?thesis using RevokeCmd Inr by (simp add: revokeInvitation_def revoke_commit_def table_change_update)
  qed (use RevokeCmd in \<open>simp add: revokeInvitation_def table_change_refl\<close>)
next
  case (ResendCmd u i)
  show ?thesis
  proof (cases "resend_check ie cfg u i s")
    case (Inr r)
    have "keeps_row x (resent_row ie cfg x)" if "x \<in> set (iv_rows s)" "in_id x = in_id r" for x
      using resend_check_row [OF Inr] that assms by (auto simp: distinct_map dest!: inj_onD intro!: keeps_open)
    then have "table_change (iv_rows s) (update_where (\<lambda>x. in_id x = in_id r) (resent_row ie cfg) (iv_rows s))"
      by (intro table_change_update)
    then show ?thesis using ResendCmd Inr
      by (auto simp: resendInvitation_def resend_commit_def queueDelivery_def Let_def table_change_refl split: option.split)
  qed (use ResendCmd in \<open>simp add: resendInvitation_def table_change_refl\<close>)
next
  case (DeliverCmd f k)
  then show ?thesis
    by (auto simp: run_task_def deliver_def Let_def table_change_refl split: option.split
        intro!: table_change_update keeps_open) (simp add: final_def)
qed (auto simp: listInvitations_def invitationStats_def handleEmailVerified_def acceptByEmail_def Let_def
    table_change_refl sweep_change registered_change accept_change split: option.split)

section \<open>The invariant of the table\<close>

definition row_ok :: "invite_config \<Rightarrow> time \<Rightarrow> invitation_row \<Rightarrow> bool" where
  "row_ok cfg t r \<longleftrightarrow>
     in_recipientEmail r = lower (in_recipientEmail r) \<and>
     plainTextErrors SubjectField (in_subject r) 1 200 = [] \<and> plainTextErrors BodyField (in_body r) 1 4000 = [] \<and>
     countPlaceholders (in_body r) = 1 \<and>
     in_createdAt r \<le> in_sentAt r \<and> in_sentAt r \<le> t \<and> in_expiresAt r = in_sentAt r + ic_ttlDays cfg * DAY_MS \<and>
     (in_status r = REVOKED \<longleftrightarrow> in_revokedAt r \<noteq> None) \<and>
     (in_status r = ACCEPTED \<longleftrightarrow> in_acceptedAt r \<noteq> None) \<and>
     (in_acceptedVia r \<noteq> None \<longleftrightarrow> in_acceptedAt r \<noteq> None) \<and> (in_convertedUserId r \<noteq> None \<longleftrightarrow> in_acceptedAt r \<noteq> None) \<and>
     (\<forall>a. in_acceptedAt r = Some a \<longrightarrow> in_sentAt r \<le> a \<and> a < in_expiresAt r)"

definition table_ok :: "invite_config \<Rightarrow> time \<Rightarrow> invitation_row list \<Rightarrow> bool" where
  "table_ok cfg t rows \<longleftrightarrow>
     distinct (map in_id rows) \<and> (\<forall>r \<in> set rows. row_ok cfg t r \<and> \<not> unique_violation r rows)"

lemma row_ok_later: "row_ok cfg t r \<Longrightarrow> t \<le> t' \<Longrightarrow> row_ok cfg t' r"
  by (auto simp: row_ok_def)

lemma table_ok_later: "table_ok cfg t rows \<Longrightarrow> t \<le> t' \<Longrightarrow> table_ok cfg t' rows"
  by (auto simp: table_ok_def intro: row_ok_later)

lemma no_violation:
  "\<not> unique_violation r rows \<longleftrightarrow> (\<forall>x \<in> set rows. in_id x \<noteq> in_id r \<longrightarrow> in_tokenHash x \<noteq> in_tokenHash r \<and>
     \<not> (in_status r = PENDING \<and> in_status x = PENDING \<and> in_senderUserId x = in_senderUserId r \<and>
        in_recipientEmail x = in_recipientEmail r))"
  by (auto simp: unique_violation_def list_ex_iff)

text \<open>The two unique indexes, as a relation between two rows.\<close>

abbreviation invite_clash :: "invitation_row \<Rightarrow> invitation_row \<Rightarrow> bool" where
  "invite_clash r x \<equiv> unique_violation r [x]"

interpretation invite_table: unique_rows in_id invite_clash
  by unfold_locales (auto simp: unique_violation_def)

lemma violation_any: "unique_violation r rows \<longleftrightarrow> (\<exists>x \<in> set rows. invite_clash r x)"
  by (auto simp: unique_violation_def list_ex_iff)

lemma table_ok_unique:
  "table_ok cfg t rows \<longleftrightarrow> unique_table in_id invite_clash rows \<and> (\<forall>r \<in> set rows. row_ok cfg t r)"
  unfolding table_ok_def unique_table_def using violation_any [of _ rows] by blast

text \<open>Rewriting open rows so that they keep their identity and token and are no longer open.\<close>

lemma table_ok_close:
  assumes "table_ok cfg t rows"
    and p: "\<And>r. r \<in> set rows \<Longrightarrow> p r \<Longrightarrow>
      identity (f r) = identity r \<and> in_tokenHash (f r) = in_tokenHash r \<and> in_status (f r) \<noteq> PENDING \<and> row_ok cfg t (f r)"
  shows "table_ok cfg t (update_where p f rows)"
proof -
  let ?g = "\<lambda>r. if p r then f r else r"
  have same: "in_id (?g r) = in_id r" "in_tokenHash (?g r) = in_tokenHash r" "in_senderUserId (?g r) = in_senderUserId r"
    "in_recipientEmail (?g r) = in_recipientEmail r" "in_status (?g r) = PENDING \<Longrightarrow> in_status r = PENDING" "row_ok cfg t (?g r)"
    if "r \<in> set rows" for r
    using p [OF that] identityD [of "f r" r] assms(1) that by (auto simp: table_ok_def split: if_splits)
  have "\<not> invite_clash (?g r) (?g x)" if "r \<in> set rows" "x \<in> set rows" for r x
  proof -
    have "\<not> invite_clash r x" using assms(1) that by (simp add: table_ok_unique unique_table_def)
    then show ?thesis using same [OF that(1)] same [OF that(2)] by (auto simp: unique_violation_def)
  qed
  then have "unique_table in_id invite_clash (map ?g rows)"
    using assms(1) same(1) by (intro invite_table.map_rows) (simp_all add: table_ok_unique)
  moreover have "\<forall>r \<in> set (map ?g rows). row_ok cfg t r" using same(6) unfolding set_map by blast
  ultimately show ?thesis unfolding table_ok_unique update_where_def by blast
qed

lemma table_ok_put:
  assumes "table_ok cfg t rows" and "row_ok cfg t r" and "\<not> unique_violation r rows" and "\<And>x. x \<in> set rows \<Longrightarrow> in_id x \<noteq> in_id r"
  shows "table_ok cfg t (rows @ [r])"
proof -
  have "\<not> invite_clash r x" if "x \<in> set rows" for x using assms(3) that violation_any [of r rows] by blast
  then show ?thesis using assms(1,2) invite_table.insert_row [OF _ assms(4)] by (simp add: table_ok_unique)
qed

lemma table_ok_replace:
  assumes "table_ok cfg t rows" and "r0 \<in> set rows" and "identity (f r0) = identity r0" and "row_ok cfg t (f r0)"
    and "\<not> unique_violation (f r0) rows"
  shows "table_ok cfg t (update_where (\<lambda>x. in_id x = in_id r0) f rows)"
proof -
  have u: "unique_table in_id invite_clash rows" using assms(1) by (simp add: table_ok_unique)
  have "\<not> invite_clash (f r0) x" if "x \<in> set rows" for x using assms(5) that violation_any [of _ rows] by blast
  moreover have "in_id (f r0) = in_id r0" using identityD [OF assms(3)] by simp
  ultimately have "unique_table in_id invite_clash (update_where (\<lambda>x. in_id x = in_id r0) f rows)"
    using u assms(2) by (intro invite_table.replace_row)
  moreover have "row_ok cfg t x" if "x \<in> set (update_where (\<lambda>x. in_id x = in_id r0) f rows)" for x
    using that invite_table.same_row [OF u _ assms(2)] assms(1,4) by (auto simp: table_ok_unique update_where_def)
  ultimately show ?thesis unfolding table_ok_unique by blast
qed

lemma accept_ok:
  assumes "table_ok cfg t rows" and "t = tm"
  shows "table_ok cfg t (update_where (\<lambda>r. q r \<and> is_open tm r) (accept_row tm v u) rows)"
  using assms(1)
proof (rule table_ok_close)
  fix r assume "r \<in> set rows" and "q r \<and> is_open tm r"
  then show "identity (accept_row tm v u r) = identity r \<and> in_tokenHash (accept_row tm v u r) = in_tokenHash r \<and>
      in_status (accept_row tm v u r) \<noteq> PENDING \<and> row_ok cfg t (accept_row tm v u r)"
    using assms by (auto simp: table_ok_def row_ok_def accept_row_def is_open_def identity_def)
qed

lemma expire_ok:
  assumes "table_ok cfg t rows" and "\<And>r. p r \<Longrightarrow> in_status r = PENDING"
  shows "table_ok cfg t (update_where p (\<lambda>r. r\<lparr>in_status := EXPIRED\<rparr>) rows)"
  using assms(1) by (rule table_ok_close) (use assms in \<open>fastforce simp: table_ok_def row_ok_def\<close>)

lemma lower_idem: "lower (lower s) = lower s"
proof -
  have "ascii_lower (ascii_lower c) = ascii_lower c" for c
    by (auto simp: ascii_lower_def Let_def of_char_of take_bit_eq_mod)
  then show ?thesis by (simp add: lower_def)
qed

lemma new_invitation_ok:
  assumes "invitation_errors ie e dto = []"
  shows "row_ok cfg (ie_now ie) (new_invitation_row ie cfg u dto s)"
  using assms by (simp add: row_ok_def new_invitation_row_def invitation_errors_def Let_def invite_recipient_def lower_idem
      split: if_splits)

lemma resent_ok:
  assumes "row_ok cfg t r" and "\<not> final r" and "t \<le> ie_now ie"
  shows "row_ok cfg (ie_now ie) (resent_row ie cfg r)"
  using assms by (auto simp: row_ok_def resent_row_def final_def)

lemma revoke_ok:
  assumes "table_ok cfg t rows" and "r \<in> set rows" and "in_status r = PENDING"
  shows "table_ok cfg t (update_where (\<lambda>x. in_id x = in_id r) (\<lambda>x. x\<lparr>in_status := REVOKED, in_revokedAt := Some tm\<rparr>) rows)"
  using assms(1)
proof (rule table_ok_close)
  fix x assume "x \<in> set rows" and "in_id x = in_id r"
  then have "x = r" using assms by (auto simp: table_ok_def distinct_map dest: inj_onD)
  then show "identity (x\<lparr>in_status := REVOKED, in_revokedAt := Some tm\<rparr>) = identity x \<and>
      in_tokenHash (x\<lparr>in_status := REVOKED, in_revokedAt := Some tm\<rparr>) = in_tokenHash x \<and>
      in_status (x\<lparr>in_status := REVOKED, in_revokedAt := Some tm\<rparr>) \<noteq> PENDING \<and>
      row_ok cfg t (x\<lparr>in_status := REVOKED, in_revokedAt := Some tm\<rparr>)"
    using assms by (auto simp: table_ok_def row_ok_def identity_def)
qed

section \<open>The send log\<close>

text \<open>Sends of a kind that count against a limit in the window of length \<open>w\<close> that ends at \<open>x\<close>.\<close>

definition in_span :: "int \<Rightarrow> time \<Rightarrow> send_log_row \<Rightarrow> bool" where
  "in_span w x l \<longleftrightarrow> counted (x - w) l \<and> sl_sentAt l \<le> x"

definition limits_ok :: "invite_config \<Rightarrow> send_log_row list \<Rightarrow> bool" where
  "limits_ok cfg logs \<longleftrightarrow>
     (\<forall>u x. int (count_where (\<lambda>l. sl_senderUserId l = u \<and> in_span DAY_MS x l) logs) \<le> ic_dailyLimit cfg) \<and>
     (0 < ic_globalHourlyLimit cfg \<longrightarrow> (\<forall>x. int (count_where (in_span HOUR_MS x) logs) \<le> ic_globalHourlyLimit cfg))"

lemma count_where_mono: "(\<And>x. x \<in> set xs \<Longrightarrow> p x \<Longrightarrow> q x) \<Longrightarrow> count_where p xs \<le> count_where q xs"
  unfolding count_where_def by (induction xs) auto

lemma count_where_map_mono:
  "(\<And>x. x \<in> set xs \<Longrightarrow> p (f x) \<Longrightarrow> p x) \<Longrightarrow> count_where p (map f xs) \<le> count_where p xs"
  unfolding count_where_def by (induction xs) auto

lemma window_add:
  assumes "\<And>x. int (count_where (\<lambda>l. q l \<and> in_span w x l) logs) \<le> n"
    and "int (count_where (\<lambda>l. q l \<and> counted (sl_sentAt l0 - w) l) logs) < n"
  shows "int (count_where (\<lambda>l. q l \<and> in_span w x l) (logs @ [l0])) \<le> n"
proof (cases "q l0 \<and> in_span w x l0")
  case True
  then have "count_where (\<lambda>l. q l \<and> in_span w x l) logs \<le> count_where (\<lambda>l. q l \<and> counted (sl_sentAt l0 - w) l) logs"
    by (intro count_where_mono) (auto simp: in_span_def counted_def)
  then show ?thesis using assms(2) True by (simp add: count_where_def)
next
  case False
  then show ?thesis using assms(1) [of x] by (auto simp: count_where_def)
qed

lemma limits_add:
  assumes "limits_ok cfg logs" and "enforceSendLimits cfg (sl_sentAt l) (sl_senderUserId l) s = Inr ()" and "iv_logs s = logs"
  shows "limits_ok cfg (logs @ [l])"
proof -
  let ?u = "sl_senderUserId l"
  have e: "int (count_where (\<lambda>x. sl_senderUserId x = ?u \<and> counted (sl_sentAt l - DAY_MS) x) logs) < ic_dailyLimit cfg"
    "0 < ic_globalHourlyLimit cfg \<Longrightarrow> int (count_where (counted (sl_sentAt l - HOUR_MS)) logs) < ic_globalHourlyLimit cfg"
    using assms(2,3) by (auto simp: enforceSendLimits_def Let_def split: if_splits)
  have "int (count_where (\<lambda>x. sl_senderUserId x = u \<and> in_span DAY_MS y x) (logs @ [l])) \<le> ic_dailyLimit cfg" for u y
  proof (cases "u = ?u")
    case True
    then show ?thesis using window_add [of "\<lambda>x. sl_senderUserId x = ?u" DAY_MS logs "ic_dailyLimit cfg" l y] e(1) assms(1)
      by (simp add: limits_ok_def)
  next
    case False
    then have "count_where (\<lambda>x. sl_senderUserId x = u \<and> in_span DAY_MS y x) [l] = 0" by (simp add: count_where_def)
    then show ?thesis using assms(1) unfolding limits_ok_def count_where_append by simp
  qed
  moreover have "int (count_where (in_span HOUR_MS y) (logs @ [l])) \<le> ic_globalHourlyLimit cfg" if "0 < ic_globalHourlyLimit cfg" for y
    using window_add [of "\<lambda>_. True" HOUR_MS logs "ic_globalHourlyLimit cfg" l y] e(2) [OF that] assms(1) that
    by (simp add: limits_ok_def)
  ultimately show ?thesis by (simp add: limits_ok_def)
qed

lemma limits_outcome:
  assumes "limits_ok cfg logs"
    and "\<And>l. l \<in> set logs \<Longrightarrow> p l \<Longrightarrow> sl_outcome l \<noteq> Failed \<and> sl_senderUserId (f l) = sl_senderUserId l \<and> sl_sentAt (f l) = sl_sentAt l"
  shows "limits_ok cfg (update_where p f logs)"
proof -
  let ?g = "\<lambda>l. if p l then f l else l"
  have "count_where (\<lambda>l. q l \<and> in_span w x l) (map ?g logs) \<le> count_where (\<lambda>l. q l \<and> in_span w x l) logs"
    if "\<And>l. l \<in> set logs \<Longrightarrow> p l \<Longrightarrow> q (f l) = q l" for q w x
  proof (rule count_where_map_mono)
    fix l assume l: "l \<in> set logs" and h: "q (?g l) \<and> in_span w x (?g l)"
    show "q l \<and> in_span w x l"
    proof (cases "p l")
      case True
      then show ?thesis using h assms(2) [OF l True] that [OF l True] by (simp add: in_span_def counted_def)
    qed (use h in simp)
  qed
  note mono = this
  have "int (count_where (\<lambda>l. sl_senderUserId l = u \<and> in_span DAY_MS x l) (map ?g logs)) \<le> ic_dailyLimit cfg" for u x
  proof -
    have "(sl_senderUserId (f l) = u) = (sl_senderUserId l = u)" if "l \<in> set logs" "p l" for l
      using assms(2) [OF that] by simp
    then have "count_where (\<lambda>l. sl_senderUserId l = u \<and> in_span DAY_MS x l) (map ?g logs) \<le>
        count_where (\<lambda>l. sl_senderUserId l = u \<and> in_span DAY_MS x l) logs"
      by (rule mono [where q = "\<lambda>l. sl_senderUserId l = u"])
    moreover have "int (count_where (\<lambda>l. sl_senderUserId l = u \<and> in_span DAY_MS x l) logs) \<le> ic_dailyLimit cfg"
      using assms(1) by (simp add: limits_ok_def)
    ultimately show ?thesis by linarith
  qed
  moreover have "int (count_where (in_span HOUR_MS x) (map ?g logs)) \<le> ic_globalHourlyLimit cfg"
    if "0 < ic_globalHourlyLimit cfg" for x
  proof -
    have "count_where (in_span HOUR_MS x) (map ?g logs) \<le> count_where (in_span HOUR_MS x) logs"
      using mono [of "\<lambda>_. True" HOUR_MS x] by simp
    moreover have "int (count_where (in_span HOUR_MS x) logs) \<le> ic_globalHourlyLimit cfg"
      using assms(1) that by (simp add: limits_ok_def)
    ultimately show ?thesis by linarith
  qed
  ultimately show ?thesis by (simp add: limits_ok_def update_where_def)
qed

section \<open>The invariant of the state\<close>

definition tasks_ok :: "send_log_row list \<Rightarrow> delivery list \<Rightarrow> bool" where
  "tasks_ok logs tasks \<longleftrightarrow> distinct (map sl_id logs) \<and> distinct (map dv_logId tasks) \<and>
     (\<forall>d \<in> set tasks. \<exists>l \<in> set logs. sl_id l = dv_logId d \<and> sl_outcome l = Queued)"

definition state_ok :: "invite_config \<Rightarrow> time \<times> invite_state \<Rightarrow> bool" where
  "state_ok cfg = (\<lambda>(t, s). table_ok cfg t (iv_rows s) \<and> limits_ok cfg (iv_logs s) \<and> tasks_ok (iv_logs s) (iv_tasks s))"

lemma tasks_queue:
  assumes "tasks_ok logs tasks" and "\<And>x. x \<in> set logs \<Longrightarrow> sl_id x \<noteq> sl_id l" and "dv_logId d = sl_id l" and "sl_outcome l = Queued"
  shows "tasks_ok (logs @ [l]) (tasks @ [d])"
proof -
  have "sl_id l \<notin> sl_id ` set logs" using assms(2) by (metis imageE)
  moreover have "dv_logId x \<noteq> sl_id l" if "x \<in> set tasks" for x using assms(1,2) that by (metis tasks_ok_def)
  ultimately show ?thesis using assms by (auto simp: tasks_ok_def)
qed

text \<open>Finishing the delivery at position \<open>k\<close>: its log row was queued, and no other task refers to it.\<close>

lemma tasks_finish:
  assumes "tasks_ok logs tasks" and "k < length tasks" and "d = tasks ! k" and "\<And>l. sl_id (f l) = sl_id l"
  shows "tasks_ok (update_where (\<lambda>l. sl_id l = dv_logId d) f logs) (take k tasks @ drop (Suc k) tasks)"
    and "\<And>l. l \<in> set logs \<Longrightarrow> sl_id l = dv_logId d \<Longrightarrow> sl_outcome l = Queued"
proof -
  define a b where "a = take k tasks" and "b = drop (Suc k) tasks"
  have split: "tasks = a @ d # b" using assms(2,3) id_take_nth_drop unfolding a_def b_def by blast
  let ?rest = "a @ b"
  have rest: "distinct (map dv_logId ?rest)" "\<And>x. x \<in> set ?rest \<Longrightarrow> dv_logId x \<noteq> dv_logId d" "set ?rest \<subseteq> set tasks"
    "d \<in> set tasks"
    using assms(1) unfolding tasks_ok_def split by (auto, (metis imageI)+)
  have ids: "map sl_id (update_where (\<lambda>l. sl_id l = dv_logId d) f logs) = map sl_id logs"
    using assms(4) by (simp add: update_where_def comp_def)
  have "\<exists>l \<in> set (update_where (\<lambda>l. sl_id l = dv_logId d) f logs). sl_id l = dv_logId x \<and> sl_outcome l = Queued"
    if x: "x \<in> set ?rest" for x
  proof -
    obtain l where l: "l \<in> set logs" "sl_id l = dv_logId x" "sl_outcome l = Queued"
      using assms(1) rest(3) x unfolding tasks_ok_def by blast
    moreover have "sl_id l \<noteq> dv_logId d" using rest(2) [OF x] l(2) by simp
    ultimately show ?thesis by (intro bexI [of _ l]) (auto simp: update_where_def image_iff)
  qed
  then show "tasks_ok (update_where (\<lambda>l. sl_id l = dv_logId d) f logs) (take k tasks @ drop (Suc k) tasks)"
    using rest(1) assms(1) unfolding tasks_ok_def ids a_def b_def by blast
  show "sl_outcome l = Queued" if "l \<in> set logs" "sl_id l = dv_logId d" for l
  proof -
    obtain l' where "l' \<in> set logs" "sl_id l' = dv_logId d" "sl_outcome l' = Queued"
      using assms(1) rest(4) unfolding tasks_ok_def by blast
    moreover have "inj_on sl_id (set logs)" using assms(1) by (simp add: tasks_ok_def distinct_map)
    then have "l' = l" using that calculation(1,2) by (metis inj_onD)
    ultimately show ?thesis by simp
  qed
qed

lemma next_id_new: "x \<in> set xs \<Longrightarrow> key x \<noteq> next_id key xs"
  using next_id_fresh [of x xs key] by simp

lemma created_ok:
  assumes "state_ok cfg (t, s)" and "t \<le> ie_now ie"
  shows "state_ok cfg (ie_now ie, snd (createInvitation ie cfg u e dto s))"
proof -
  have t: "table_ok cfg (ie_now ie) (iv_rows s)" using assms by (auto simp: state_ok_def intro: table_ok_later)
  let ?r = "new_invitation_row ie cfg u dto s" and ?l = "new_log_row ie u (new_invitation_row ie cfg u dto s) s"
  consider (refused) "snd (createInvitation ie cfg u e dto s) = s"
    | (sent) x where "create_check ie cfg u e dto s = Inr x" "\<not> unique_violation ?r (iv_rows s)"
        "snd (createInvitation ie cfg u e dto s) = queueDelivery ?r (ie_mint ie) (trim (ci_recipientEmail dto)) (sl_id ?l)
              (s\<lparr>iv_rows := iv_rows s @ [?r], iv_logs := iv_logs s @ [?l]\<rparr>)"
    by (cases "create_check ie cfg u e dto s"; cases "unique_violation ?r (iv_rows s)")
      (simp_all add: createInvitation_def create_commit_def Let_def)
  then show ?thesis
  proof cases
    case refused
    then show ?thesis using t assms by (simp add: state_ok_def)
  next
    case sent
    note c = create_check_ok [OF sent(1)]
    have "table_ok cfg (ie_now ie) (iv_rows s @ [?r])"
      using t new_invitation_ok [OF c(1)] sent(2) by (rule table_ok_put) (simp add: new_invitation_row_def next_id_new)
    moreover have "limits_ok cfg (iv_logs s @ [?l])"
      using assms(1) c(2) by (intro limits_add [of cfg "iv_logs s" ?l s]) (simp_all add: state_ok_def new_log_row_def)
    moreover have "tasks_ok (iv_logs s @ [?l])
        (iv_tasks s @ [\<lparr>dv_invitation = ?r, dv_rawToken = ie_mint ie, dv_to = trim (ci_recipientEmail dto), dv_logId = sl_id ?l\<rparr>])"
      using assms(1) by (intro tasks_queue) (simp_all add: state_ok_def new_log_row_def next_id_new)
    ultimately show ?thesis unfolding sent(3) by (simp add: state_ok_def queueDelivery_def)
  qed
qed

lemma resend_ok:
  assumes "state_ok cfg (t, s)" and "t \<le> ie_now ie"
  shows "state_ok cfg (ie_now ie, snd (resendInvitation ie cfg u i s))"
proof -
  have tb: "table_ok cfg (ie_now ie) (iv_rows s)" using assms by (auto simp: state_ok_def intro: table_ok_later)
  then have same: ?thesis if "snd (resendInvitation ie cfg u i s) = s" using assms that by (simp add: state_ok_def)
  show ?thesis
  proof (cases "resend_check ie cfg u i s")
    case (Inr r)
    note c = resend_check_row [OF Inr]
    let ?r = "resent_row ie cfg r" and ?l = "new_log_row ie u (resent_row ie cfg r) s"
    have f: "find_row in_id (in_id r) (iv_rows s) = Some r"
      using assms(1) c(1) by (intro find_row_distinct) (simp_all add: state_ok_def table_ok_def)
    show ?thesis
    proof (cases "unique_violation ?r (iv_rows s)")
      case True
      then show ?thesis using Inr f by (intro same) (simp add: resendInvitation_def resend_commit_def Let_def)
    next
      case False
      have row: "row_ok cfg (ie_now ie) ?r" using assms c(1,3) by (intro resent_ok) (auto simp: state_ok_def table_ok_def)
      have "table_ok cfg (ie_now ie) (update_where (\<lambda>x. in_id x = in_id r) (resent_row ie cfg) (iv_rows s))"
        using tb c(1) _ row False by (rule table_ok_replace) simp
      moreover have "limits_ok cfg (iv_logs s @ [?l])"
        using assms(1) c(5) by (intro limits_add [of cfg "iv_logs s" ?l s]) (simp_all add: state_ok_def new_log_row_def)
      moreover have "tasks_ok (iv_logs s @ [?l])
          (iv_tasks s @ [\<lparr>dv_invitation = ?r, dv_rawToken = ie_mint ie, dv_to = in_recipientEmail ?r, dv_logId = sl_id ?l\<rparr>])"
        using assms(1) by (intro tasks_queue) (simp_all add: state_ok_def new_log_row_def next_id_new)
      moreover have "snd (resendInvitation ie cfg u i s) = queueDelivery ?r (ie_mint ie) (in_recipientEmail ?r) (sl_id ?l)
          (s\<lparr>iv_rows := update_where (\<lambda>x. in_id x = in_id r) (resent_row ie cfg) (iv_rows s), iv_logs := iv_logs s @ [?l]\<rparr>)"
        using Inr f False by (simp add: resendInvitation_def resend_commit_def Let_def)
      ultimately show ?thesis by (simp add: state_ok_def queueDelivery_def)
    qed
  qed (rule same, simp add: resendInvitation_def)
qed

lemma deliver_ok:
  assumes "state_ok cfg (t, s)"
  shows "state_ok cfg (t, run_task cfg failure k s)"
proof (cases "k < length (iv_tasks s)")
  case True
  let ?d = "iv_tasks s ! k"
  have tk: "tasks_ok (iv_logs s) (iv_tasks s)" using assms by (simp add: state_ok_def)
  note sent = tasks_finish [OF tk True refl]
  have lim: "limits_ok cfg (update_where (\<lambda>l. sl_id l = dv_logId ?d) f (iv_logs s))"
    if "\<And>l. sl_senderUserId (f l) = sl_senderUserId l" "\<And>l. sl_sentAt (f l) = sl_sentAt l" "\<And>l. sl_id (f l) = sl_id l" for f
    using assms that sent(2) [OF that(3)] by (intro limits_outcome) (auto simp: state_ok_def)
  show ?thesis
  proof (cases failure)
    case None
    then show ?thesis using assms True lim sent(1)
      by (simp add: run_task_def deliver_def Let_def state_ok_def)
  next
    case (Some message)
    have "table_ok cfg t (update_where
        (\<lambda>r. in_id r = in_id (dv_invitation ?d) \<and> in_status r = PENDING \<and> in_tokenHash r = in_tokenHash (dv_invitation ?d))
        (\<lambda>r. r\<lparr>in_status := EXPIRED\<rparr>) (iv_rows s))"
      using assms by (intro expire_ok) (simp_all add: state_ok_def)
    then show ?thesis using Some assms True lim sent(1)
      by (simp add: run_task_def deliver_def Let_def state_ok_def)
  qed
qed (use assms in \<open>simp add: run_task_def\<close>)

lemma registered_ok:
  assumes "state_ok cfg (ie_now ie, s)"
  shows "state_ok cfg (ie_now ie, handleUserRegistered ie p tok s)"
proof -
  have tok: "state_ok cfg (ie_now ie, acceptByToken ie x u s')" if "state_ok cfg (ie_now ie, s')" for x u s'
    using that by (simp add: state_ok_def acceptByToken_def accept_ok)
  have mail: "state_ok cfg (ie_now ie, acceptByEmail ie m u s')" if "state_ok cfg (ie_now ie, s')" for m u s'
    using that by (simp add: state_ok_def acceptByEmail_def accept_ok)
  show ?thesis using assms tok mail by (simp add: handleUserRegistered_def Let_def split: option.split)
qed

lemma sweep_ok: "state_ok cfg (t, s) \<Longrightarrow> state_ok cfg (t, sweepExpired t' u s)"
  unfolding state_ok_def sweepExpired_def by (auto intro!: expire_ok)

lemma exec_ok:
  assumes "state_ok cfg (t, s)" and "t \<le> ie_now ie"
  shows "state_ok cfg (ie_now ie, exec_invite ie cfg cmd s)"
proof -
  have later: "state_ok cfg (ie_now ie, s)" using assms by (auto simp: state_ok_def intro: table_ok_later)
  show ?thesis
  proof (cases cmd)
    case (CreateCmd u e dto)
    then show ?thesis using created_ok [OF assms] by simp
  next
    case (ResendCmd u i)
    then show ?thesis using resend_ok [OF assms] by simp
  next
    case (DeliverCmd f k)
    then show ?thesis using deliver_ok [OF later] by simp
  next
    case (RevokeCmd u i)
    have "state_ok cfg (ie_now ie, revoke_commit ie (in_id r) s)" if "revoke_check cfg u i s = Inr r" for r
      using later revoke_check_row [OF that] unfolding state_ok_def revoke_commit_def by (auto intro!: revoke_ok)
    then show ?thesis using RevokeCmd later by (simp add: revokeInvitation_def split: sum.split)
  next
    case (RegisteredCmd p tok)
    then show ?thesis using registered_ok [OF later] by simp
  next
    case (VerifiedCmd p m)
    then show ?thesis using later
      by (simp add: handleEmailVerified_def acceptByEmail_def state_ok_def accept_ok split: option.split)
  next
    case (UsersCmd us)
    then show ?thesis using later by (simp add: state_ok_def)
  qed (use later sweep_ok in \<open>simp_all add: listInvitations_def invitationStats_def Let_def\<close>)
qed

interpretation invite_life: lifecycle "invite_step cfg" "state_ok cfg" for cfg
  by unfold_locales (auto intro: exec_ok)

lemma reaches_change:
  assumes "reaches (invite_step cfg) ts ts'" and "state_ok cfg ts"
  shows "table_change (iv_rows (snd ts)) (iv_rows (snd ts'))"
  using assms
proof (induction rule: reaches.induct)
  case (reaches_step ts us vs)
  then have "state_ok cfg us" by (blast intro: invite_life.reaches_good)
  then have "distinct (map in_id (iv_rows (snd us)))" by (auto simp: state_ok_def table_ok_def)
  then have "table_change (iv_rows (snd us)) (iv_rows (snd vs))" using reaches_step(2) exec_change by auto
  then show ?case using reaches_step table_change_trans by blast
qed (rule table_change_refl)

definition empty_invites :: invite_state where
  "empty_invites = \<lparr>iv_users = [], iv_rows = [], iv_logs = [], iv_tasks = [], iv_outbox = []\<rparr>"

lemma empty_ok: "0 \<le> ic_dailyLimit cfg \<Longrightarrow> state_ok cfg (t, empty_invites)"
  by (simp add: state_ok_def empty_invites_def table_ok_def limits_ok_def tasks_ok_def count_where_def)

section \<open>A concrete run\<close>

definition demo_config :: invite_config where
  "demo_config = getInvitationConfig (\<lambda>k. if k = ''INVITE_BASE_URL'' then Some ''https://app.test/'' else None)"

definition demo_invite_env :: "time \<Rightarrow> string \<Rightarrow> invite_env" where
  "demo_invite_env t tok = \<lparr>ie_now = t, ie_hash = (\<lambda>x. CHR ''h'' # x), ie_mint = tok, ie_languages = demo_languages\<rparr>"

definition demo_invitation :: create_invitation_dto where
  "demo_invitation = \<lparr>ci_recipientEmail = ''Nikos@example.test'', ci_recipientName = None, ci_message = None,
     ci_locale = ''en'', ci_subject = ''Join us'', ci_body = ''Hi {inviteLink}''\<rparr>"

definition demo_sent :: invite_state where
  "demo_sent = exec_invite (demo_invite_env 5 ''tok'') demo_config (CreateCmd 1 None demo_invitation) empty_invites"

definition demo_converted :: invite_state where
  "demo_converted = exec_invite (demo_invite_env 9 ''x'') demo_config (RegisteredCmd (Some 7) (Some ''tok'')) demo_sent"

lemma demo_config_limit: "0 \<le> ic_dailyLimit demo_config" by code_simp

lemma demo_run: "reaches (invite_step demo_config) (0, empty_invites) (5, demo_sent)"
  "invite_step demo_config (5, demo_sent) (9, demo_converted)"
proof -
  have "invite_step demo_config (0, empty_invites) (ie_now (demo_invite_env 5 ''tok''), demo_sent)"
    unfolding demo_sent_def by (rule invite_step.intros) (simp add: demo_invite_env_def)
  then show "reaches (invite_step demo_config) (0, empty_invites) (5, demo_sent)"
    by (auto simp: demo_invite_env_def intro: reaches.intros)
  have "invite_step demo_config (5, demo_sent) (ie_now (demo_invite_env 9 ''x''), demo_converted)"
    unfolding demo_converted_def by (rule invite_step.intros) (simp add: demo_invite_env_def)
  then show "invite_step demo_config (5, demo_sent) (9, demo_converted)" by (simp add: demo_invite_env_def)
qed

lemma demo_status: "map in_status (iv_rows demo_sent) = [PENDING]" "map in_status (iv_rows demo_converted) = [ACCEPTED]"
  by code_simp+

section \<open>Theorems\<close>

lemma reachable_ok:
  assumes "0 \<le> ic_dailyLimit cfg" and "reaches (invite_step cfg) (t0, empty_invites) (t, s)"
  shows "state_ok cfg (t, s)"
  using assms(2) empty_ok [OF assms(1)] by (rule invite_life.reaches_good)

lemma table_ok_inj:
  assumes "table_ok cfg t rows" and "r \<in> set rows" and "x \<in> set rows"
    and "in_tokenHash r = in_tokenHash x \<or> in_status r = PENDING \<and> in_status x = PENDING \<and>
      in_senderUserId r = in_senderUserId x \<and> in_recipientEmail r = in_recipientEmail x"
  shows "r = x"
proof (rule ccontr)
  assume "r \<noteq> x"
  then have "in_id x \<noteq> in_id r" using assms(1-3) by (auto simp: table_ok_def distinct_map dest: inj_onD)
  then have "unique_violation r [x]" using assms(4) by (auto simp: unique_violation_def)
  then show False using assms(1-3) by (simp add: table_ok_unique unique_table_def)
qed

text \<open>
  C19. The invitation table over any run. However requests, deliveries, conversions and changes of accounts
  follow one another, ids and token hashes stay unique, a sender has at most one pending invitation per
  address, and every row is well formed: a lower-case address, a subject and a body of plain text with one
  place for the link, an expiry the configured days after the last send, an acceptance (with channel and
  account) exactly when it is accepted and before it expired, a withdrawal time exactly when it is withdrawn.
\<close>

theorem invitation_invariant:
  assumes "0 \<le> ic_dailyLimit cfg" and "reaches (invite_step cfg) (t0, empty_invites) (t, s)"
  shows "distinct (map in_id (iv_rows s)) \<and>
    (\<forall>r \<in> set (iv_rows s). \<forall>x \<in> set (iv_rows s). in_tokenHash r = in_tokenHash x \<longrightarrow> r = x) \<and>
    (\<forall>r \<in> set (iv_rows s). \<forall>x \<in> set (iv_rows s). in_status r = PENDING \<and> in_status x = PENDING \<and>
       in_senderUserId r = in_senderUserId x \<and> in_recipientEmail r = in_recipientEmail x \<longrightarrow> r = x) \<and>
    (\<forall>r \<in> set (iv_rows s). row_ok cfg t r)"
proof -
  have "table_ok cfg t (iv_rows s)" using reachable_ok [OF assms] by (simp add: state_ok_def)
  then show ?thesis using table_ok_inj unfolding table_ok_def by blast
qed

theorem invitation_invariant_witness:
  "distinct (map in_id (iv_rows demo_sent)) \<and> list_all (row_ok demo_config 5) (iv_rows demo_sent) \<and> iv_rows demo_sent \<noteq> []"
  using invitation_invariant [OF demo_config_limit demo_run(1)] demo_status(1) by (auto simp: list_all_iff)

text \<open>
  C21. Limits on sending. Over any sequence of requests, each answered before the next one starts, in every 24
  hours a sender sends and resends at most the daily limit of invitations, and all senders together send at most
  the global limit in every hour when one is set; sends that failed at the mail provider are not counted. The
  count and the entry it guards are two statements, so requests at the same time can exceed a limit:
  \<open>daily_limit_race\<close>.
\<close>

theorem invite_send_limits:
  assumes "0 \<le> ic_dailyLimit cfg" and "reaches (invite_step cfg) (t0, empty_invites) (t, s)"
  shows "int (count_where (\<lambda>l. sl_senderUserId l = u \<and> sl_outcome l \<noteq> Failed \<and> x - DAY_MS < sl_sentAt l \<and> sl_sentAt l \<le> x) (iv_logs s))
      \<le> ic_dailyLimit cfg \<and>
    (0 < ic_globalHourlyLimit cfg \<longrightarrow>
      int (count_where (\<lambda>l. sl_outcome l \<noteq> Failed \<and> x - HOUR_MS < sl_sentAt l \<and> sl_sentAt l \<le> x) (iv_logs s))
      \<le> ic_globalHourlyLimit cfg)"
proof -
  have "limits_ok cfg (iv_logs s)" using reachable_ok [OF assms] by (simp add: state_ok_def)
  moreover have "(\<lambda>l. sl_senderUserId l = u \<and> in_span DAY_MS x l) =
      (\<lambda>l. sl_senderUserId l = u \<and> sl_outcome l \<noteq> Failed \<and> x - DAY_MS < sl_sentAt l \<and> sl_sentAt l \<le> x)"
    "in_span HOUR_MS x = (\<lambda>l. sl_outcome l \<noteq> Failed \<and> x - HOUR_MS < sl_sentAt l \<and> sl_sentAt l \<le> x)"
    by (auto simp: in_span_def counted_def)
  ultimately show ?thesis unfolding limits_ok_def by metis
qed

theorem invite_send_limits_witness:
  "count_where (\<lambda>l. sl_senderUserId l = 1) (iv_logs demo_sent) = 1 \<and>
   int (count_where (\<lambda>l. sl_senderUserId l = 1 \<and> sl_outcome l \<noteq> Failed \<and> 5 - DAY_MS < sl_sentAt l \<and> sl_sentAt l \<le> 5) (iv_logs demo_sent))
     \<le> ic_dailyLimit demo_config"
proof -
  have "count_where (\<lambda>l. sl_senderUserId l = 1) (iv_logs demo_sent) = 1" by code_simp
  then show ?thesis using invite_send_limits [OF demo_config_limit demo_run(1), of 1 5] by blast
qed

lemma preview_final:
  assumes "table_ok cfg t (iv_rows s)" and "r \<in> set (iv_rows s)" and "final r" and "ie_hash ie tok = in_tokenHash r"
  shows "preview ie cfg tok s \<in> {Inl not_configured, Inl no_invitation}"
proof (cases "List.find (\<lambda>x. in_tokenHash x = ie_hash ie tok) (iv_rows s)")
  case (Some x)
  then have "x = r" using table_ok_inj [OF assms(1), of x r] assms(2,4) by (auto simp: find_Some_iff)
  then show ?thesis using assms(3) Some by (auto simp: preview_def final_def)
qed (simp add: preview_def)

text \<open>
  C20. Accepted and withdrawn invitations are final. Along any run no invitation disappears or changes its
  sender, address, text or creation time; one that is accepted or withdrawn is never changed again, and its
  link is answered like an unknown one at any later time.
\<close>

theorem invitation_final:
  assumes "0 \<le> ic_dailyLimit cfg" and "reaches (invite_step cfg) (t0, empty_invites) (t, s)"
    and "reaches (invite_step cfg) (t, s) (t', s')" and "r \<in> set (iv_rows s)"
  shows "\<exists>r' \<in> set (iv_rows s').
    in_id r' = in_id r \<and> in_senderUserId r' = in_senderUserId r \<and> in_recipientEmail r' = in_recipientEmail r \<and>
    in_subject r' = in_subject r \<and> in_body r' = in_body r \<and> in_createdAt r' = in_createdAt r \<and>
    (in_status r = ACCEPTED \<or> in_status r = REVOKED \<longrightarrow> r' = r \<and>
      (\<forall>ie tok. ie_hash ie tok = in_tokenHash r \<longrightarrow> preview ie cfg tok s' \<in> {Inl not_configured, Inl no_invitation}))"
proof -
  have ok: "state_ok cfg (t, s)" "state_ok cfg (t', s')"
    using reachable_ok [OF assms(1,2)] invite_life.reaches_good [OF assms(3)] by simp_all
  then obtain f new where f: "iv_rows s' = map f (iv_rows s) @ new" "keeps_row r (f r)"
    using reaches_change [OF assms(3)] assms(4) by (auto simp: table_change_def)
  have tb: "table_ok cfg t' (iv_rows s')" using ok(2) by (simp add: state_ok_def)
  have m: "f r \<in> set (iv_rows s')" using f(1) assms(4) by simp
  have "f r = r \<and> (\<forall>ie tok. ie_hash ie tok = in_tokenHash r \<longrightarrow> preview ie cfg tok s' \<in> {Inl not_configured, Inl no_invitation})"
    if "final r"
    using that f(2) m preview_final [OF tb, of r] by (auto simp: keeps_row_def)
  then show ?thesis using m f(2) identityD [of "f r" r] by (intro bexI [of _ "f r"]) (auto simp: keeps_row_def final_def)
qed

theorem invitation_final_witness:
  "\<exists>r \<in> set (iv_rows demo_converted). in_status r = ACCEPTED"
proof -
  obtain r where r: "r \<in> set (iv_rows demo_converted)" "in_status r = ACCEPTED" using demo_status(2) by (cases "iv_rows demo_converted") auto
  have "reaches (invite_step demo_config) (0, empty_invites) (9, demo_converted)"
    using demo_run by (blast intro: reaches.intros)
  then show ?thesis using invitation_final [OF demo_config_limit _ reaches.reaches_refl r(1)] r by blast
qed

section \<open>Conversion\<close>

text \<open>What a registration makes of one row: the link counts first, then a verified address.\<close>

definition converted :: "invite_env \<Rightarrow> id \<Rightarrow> string option \<Rightarrow> user_row option \<Rightarrow> invitation_row \<Rightarrow> invitation_row" where
  "converted ie u tok account r =
     (if \<not> is_open (ie_now ie) r then r
      else if isPlausibleInviteToken tok \<and> in_tokenHash r = ie_hash ie (the tok) then accept_row (ie_now ie) ViaToken u r
      else case account of
        None \<Rightarrow> r
      | Some a \<Rightarrow> if u_emailVerified a \<and> in_recipientEmail r = lower (trim (u_email a))
                  then accept_row (ie_now ie) ViaEmail u r else r)"

lemma accepted_closed [simp]: "\<not> is_open t (accept_row t' v u r)"
  by (simp add: is_open_def accept_row_def)

lemma converted_twice: "converted ie u tok account (converted ie u tok account r) = converted ie u tok account r"
  by (simp add: converted_def split: option.split)

lemma converted_nothing:
  "\<not> isPlausibleInviteToken tok \<Longrightarrow> converted ie u tok None = id"
  "\<not> isPlausibleInviteToken tok \<Longrightarrow> \<not> u_emailVerified a \<Longrightarrow> converted ie u tok (Some a) = id"
  by (simp_all add: converted_def fun_eq_iff)

lemma registered_rows:
  "handleUserRegistered ie (Some u) tok s =
     s\<lparr>iv_rows := map (converted ie u tok (find_row u_id u (iv_users s))) (iv_rows s)\<rparr>"
proof (cases "isPlausibleInviteToken tok \<or> (\<exists>a. find_row u_id u (iv_users s) = Some a \<and> u_emailVerified a)")
  case True
  then show ?thesis
    by (auto simp: handleUserRegistered_def acceptByToken_def acceptByEmail_def update_where_def converted_def Let_def comp_def
        accept_row_def is_open_def split: option.split)
next
  case False
  then have "converted ie u tok (find_row u_id u (iv_users s)) = id"
    by (cases "find_row u_id u (iv_users s)") (auto simp: converted_nothing)
  then show ?thesis using False by (auto simp: handleUserRegistered_def split: option.split)
qed

text \<open>
  Conversion. When an account registers, exactly the open invitations are accepted whose link it came
  with or, if its address is verified, that were sent to its address; each names the account, the time and
  the channel, and everything else is untouched. Handling the event again changes nothing.
\<close>

theorem conversion_effects:
  "handleUserRegistered ie (Some u) tok s =
     s\<lparr>iv_rows := map (converted ie u tok (find_row u_id u (iv_users s))) (iv_rows s)\<rparr> \<and>
   handleUserRegistered ie (Some u) tok (handleUserRegistered ie (Some u) tok s) = handleUserRegistered ie (Some u) tok s \<and>
   handleUserRegistered ie None tok s = s"
  unfolding registered_rows by (simp add: converted_twice comp_def) (simp add: handleUserRegistered_def)

section \<open>Interleaved requests\<close>

text \<open>
  The checks and the writes of a request are separate statements. A resend that has passed its checks
  reopens an invitation that was accepted in between: it is pending again although it carries its acceptance.
\<close>

definition late_env :: invite_env where
  "late_env = demo_invite_env 4000000 ''tok2''"

definition demo_reopened :: invite_state where
  "demo_reopened = snd (resend_commit late_env demo_config 1 1 demo_converted)"

theorem accepted_reopened:
  "is_ok (resend_check late_env demo_config 1 1 demo_sent) \<and>
   map in_status (iv_rows demo_converted) = [ACCEPTED] \<and>
   map in_status (iv_rows demo_reopened) = [PENDING] \<and> map in_acceptedAt (iv_rows demo_reopened) = [Some 9]"
proof (intro conjI)
  show "is_ok (resend_check late_env demo_config 1 1 demo_sent)" by code_simp
  show "map in_status (iv_rows demo_converted) = [ACCEPTED]" by (rule demo_status(2))
  show "map in_status (iv_rows demo_reopened) = [PENDING]" by code_simp
  show "map in_acceptedAt (iv_rows demo_reopened) = [Some 9]" by code_simp
qed

text \<open>Two invitations of one sender to different addresses can both pass the last free place of the day.\<close>

definition one_a_day :: invite_config where
  "one_a_day = demo_config\<lparr>ic_dailyLimit := 1\<rparr>"

definition other_invitation :: create_invitation_dto where
  "other_invitation = demo_invitation\<lparr>ci_recipientEmail := ''maria@example.test''\<rparr>"

definition demo_raced :: invite_state where
  "demo_raced = snd (create_commit (demo_invite_env 6 ''b'') one_a_day 1 other_invitation
     (snd (create_commit (demo_invite_env 5 ''a'') one_a_day 1 demo_invitation empty_invites)))"

theorem daily_limit_race:
  "is_ok (create_check (demo_invite_env 5 ''a'') one_a_day 1 None demo_invitation empty_invites) \<and>
   is_ok (create_check (demo_invite_env 5 ''b'') one_a_day 1 None other_invitation empty_invites) \<and>
   ic_dailyLimit one_a_day < int (count_where (\<lambda>l. sl_senderUserId l = 1 \<and> in_span DAY_MS 6 l) (iv_logs demo_raced))"
proof (intro conjI)
  show "is_ok (create_check (demo_invite_env 5 ''a'') one_a_day 1 None demo_invitation empty_invites)" by code_simp
  show "is_ok (create_check (demo_invite_env 5 ''b'') one_a_day 1 None other_invitation empty_invites)" by code_simp
  show "ic_dailyLimit one_a_day < int (count_where (\<lambda>l. sl_senderUserId l = 1 \<and> in_span DAY_MS 6 l) (iv_logs demo_raced))"
    by code_simp
qed

text \<open>
  A new invitation does not sweep first: an invitation that has expired unnoticed, whose link no longer
  works, still refuses a new one to the same address as pending.
\<close>

theorem expired_blocks_new:
  "preview (demo_invite_env 3000000000 ''z'') demo_config ''tok'' demo_sent = Inl no_invitation \<and>
   fst (createInvitation (demo_invite_env 3000000000 ''z'') demo_config 1 None demo_invitation demo_sent) = Inl invite_pending"
proof (intro conjI)
  show "preview (demo_invite_env 3000000000 ''z'') demo_config ''tok'' demo_sent = Inl no_invitation" by code_simp
  show "fst (createInvitation (demo_invite_env 3000000000 ''z'') demo_config 1 None demo_invitation demo_sent) = Inl invite_pending"
    by code_simp
qed

end
