(* ===== verification/Device.thy ===== *)
theory Device
  imports Location AlertLifecycle
begin

text \<open>
  Devices and their saved zones (\<open>src/src/device/device.service.ts\<close>, \<open>saved-zone.service.ts\<close>, the DTOs and the
  endpoints of \<open>device.controller.ts\<close>). The unique columns (client uuid, push token) raise a database error
  that the service does not translate. The request classes carry validation decorators
  (\<open>valid_register_device\<close>, \<open>valid_update_location\<close>), but no endpoint of the controller attaches a
  \<open>ValidationPipe\<close> and none is global, so the operations and the properties do not assume them.
\<close>

section \<open>DTOs\<close>

record gps_dto =
  gp_latitude :: rat
  gp_longitude :: rat
  gp_accuracy :: "rat option"

record device_location_dto =
  lo_gps :: "gps_dto option"
  lo_ipAddress :: "string option"
  lo_postalCodes :: "string list option"

record register_device_dto =
  rd_device_uuid :: string
  rd_platform :: device_platform
  rd_os_version :: string
  rd_app_version :: string
  rd_push_token :: "string option"
  rd_location :: "device_location_dto option"

record update_location_dto =
  lu_gps :: "gps_dto option"
  lu_postal_codes :: "string list option"

definition valid_gps :: "gps_dto \<Rightarrow> bool" where
  "valid_gps g \<longleftrightarrow> num_between (-90) 90 (gp_latitude g) \<and> num_between (-180) 180 (gp_longitude g) \<and>
     opt_ok (\<lambda>a. 0 \<le> a) (gp_accuracy g)"

definition valid_register_device :: "register_device_dto \<Rightarrow> bool" where
  "valid_register_device dto \<longleftrightarrow>
     rd_device_uuid dto \<noteq> [] \<and> rd_os_version dto \<noteq> [] \<and> rd_app_version dto \<noteq> [] \<and>
     opt_ok (\<lambda>l. opt_ok valid_gps (lo_gps l) \<and> opt_ok (\<lambda>ps. length ps \<le> 5) (lo_postalCodes l)) (rd_location dto)"

definition valid_update_location :: "update_location_dto \<Rightarrow> bool" where
  "valid_update_location dto \<longleftrightarrow> opt_ok valid_gps (lu_gps dto) \<and> opt_ok (\<lambda>ps. length ps \<le> 5) (lu_postal_codes dto)"

section \<open>Answers\<close>

datatype gps_freshness = Fresh | Stale | Old | NoFix

record location_status =
  ls_hasGps :: bool
  ls_gpsAgeHours :: "rat option"
  ls_gpsFreshness :: gps_freshness
  ls_hasIpLocation :: bool
  ls_postalCodeCount :: nat
  ls_savedZoneCount :: nat
  ls_primarySource :: "location_source option"

text \<open>\<open>LocationSource.IP_ADDRESS\<close> is no member of the generated enum (which has \<open>IP\<close>): it is \<open>undefined\<close>.\<close>

definition IP_ADDRESS :: "location_source option" where "IP_ADDRESS = None"

definition getLocationStatus :: "env \<Rightarrow> device_row \<Rightarrow> nat \<Rightarrow> location_status" where
  "getLocationStatus e d savedZoneCount =
     (let hasGps = (d_gps_lat d \<noteq> None \<and> d_gps_lon d \<noteq> None);
          hasIpLocation = (d_ip_lat d \<noteq> None \<and> d_ip_lon d \<noteq> None);
          postalCodeCount = length (d_postal_codes d);
          gpsAgeHours = (if hasGps then map_option (\<lambda>t. of_int (now e - t) / (1000 * 60 * 60) :: rat) (d_gps_updated_at d) else None);
          gpsFreshness = (case gpsAgeHours of None \<Rightarrow> NoFix
             | Some h \<Rightarrow> if h < 2 then Fresh else if h < 24 then Stale else Old);
          primarySource =
            (if hasGps \<and> gpsFreshness = Fresh then Some GPS
             else if postalCodeCount > 0 then Some POSTAL_CODE
             else if hasIpLocation then IP_ADDRESS
             else if hasGps then Some GPS
             else IP_ADDRESS)
      in \<lparr>ls_hasGps = hasGps, ls_gpsAgeHours = gpsAgeHours, ls_gpsFreshness = gpsFreshness,
          ls_hasIpLocation = hasIpLocation, ls_postalCodeCount = postalCodeCount, ls_savedZoneCount = savedZoneCount,
          ls_primarySource = primarySource\<rparr>)"

text \<open>The response carries the columns of the row and the status.\<close>

record device_dto =
  dd_row :: device_row
  dd_status :: location_status

definition mapDeviceDto :: "env \<Rightarrow> world \<Rightarrow> device_row \<Rightarrow> device_dto" where
  "mapDeviceDto e w d =
     \<lparr>dd_row = d, dd_status = getLocationStatus e d (count_where (\<lambda>z. sz_device_id z = d_id d) (saved_zones w))\<rparr>"

section \<open>Registration\<close>

definition dto_gps :: "register_device_dto \<Rightarrow> gps_dto option" where
  "dto_gps dto = (case rd_location dto of None \<Rightarrow> None | Some l \<Rightarrow> lo_gps l)"

definition dto_postal :: "register_device_dto \<Rightarrow> string list option" where
  "dto_postal dto = (case rd_location dto of None \<Rightarrow> None | Some l \<Rightarrow> lo_postalCodes l)"

definition dto_ip :: "register_device_dto \<Rightarrow> string option" where
  "dto_ip dto = (case rd_location dto of None \<Rightarrow> None | Some l \<Rightarrow> lo_ipAddress l)"

text \<open>
  A reported position is written by two statements outside any transaction: the client's update of the
  columns and the time (the accuracy of an earlier position stays when none is sent), and the raw statement
  that sets the geometry, longitude first.
\<close>

definition moved_device :: "env \<Rightarrow> gps_dto option \<Rightarrow> device_row \<Rightarrow> device_row" where
  "moved_device e gps d =
     (case gps of
        None \<Rightarrow> d
      | Some g \<Rightarrow>
          d\<lparr>d_gps_lat := Some (gp_latitude g), d_gps_lon := Some (gp_longitude g),
            d_gps_accuracy_meters := (case gp_accuracy g of None \<Rightarrow> d_gps_accuracy_meters d | Some a \<Rightarrow> Some a),
            d_gps_updated_at := Some (now e)\<rparr>)"

definition pointed :: "gps_dto option \<Rightarrow> device_row \<Rightarrow> device_row" where
  "pointed gps d =
     (case gps of None \<Rightarrow> d | Some g \<Rightarrow> d\<lparr>d_gps_point := Some (gp_longitude g, gp_latitude g)\<rparr>)"

definition point_statement :: "env \<Rightarrow> gps_dto option \<Rightarrow> id \<Rightarrow> world \<Rightarrow> (exn + unit) \<times> world" where
  "point_statement e gps i w =
     (case gps of
        None \<Rightarrow> (Inr (), w)
      | Some _ \<Rightarrow>
          (case point_error e of
             Some message \<Rightarrow> (Inl (Error message), w)
           | None \<Rightarrow> (Inr (), update_device i (pointed gps) w)))"

definition known_row :: "env \<Rightarrow> register_device_dto \<Rightarrow> device_row \<Rightarrow> device_row" where
  "known_row e dto d =
     moved_device e (dto_gps dto)
       (d\<lparr>d_platform := rd_platform dto, d_os_version := Some (rd_os_version dto), d_app_version := Some (rd_app_version dto),
          d_push_token := (if truthy_str (rd_push_token dto) then rd_push_token dto else d_push_token d),
          d_push_token_updated_at := (if truthy_str (rd_push_token dto) then Some (now e) else d_push_token_updated_at d),
          d_last_app_open := Some (now e),
          d_ip_address := (case dto_ip dto of None \<Rightarrow> d_ip_address d | Some ip \<Rightarrow> Some ip),
          d_postal_codes := defaulted (d_postal_codes d) (dto_postal dto), d_updated_at := now e\<rparr>)"

definition new_device_row :: "env \<Rightarrow> register_device_dto \<Rightarrow> id \<Rightarrow> world \<Rightarrow> device_row" where
  "new_device_row e dto userId w =
     moved_device e (dto_gps dto)
       \<lparr>d_id = next_id d_id (devices w), d_user_id = userId, d_device_uuid = rd_device_uuid dto, d_platform = rd_platform dto,
        d_os_version = Some (rd_os_version dto), d_app_version = Some (rd_app_version dto),
        d_push_token = or_null (rd_push_token dto),
        d_push_token_updated_at = (if truthy_str (rd_push_token dto) then Some (now e) else None), d_push_enabled = True,
        d_gps_lat = None, d_gps_lon = None, d_gps_point = None, d_gps_accuracy_meters = None, d_gps_updated_at = None,
        d_ip_address = or_null (dto_ip dto), d_ip_lat = None, d_ip_lon = None, d_ip_point = None,
        d_postal_codes = defaulted [] (dto_postal dto), d_last_app_open = Some (now e), d_created_at = now e,
        d_updated_at = now e\<rparr>"

text \<open>The unique constraints on the client uuid and on the push token.\<close>

definition device_clash :: "device_row \<Rightarrow> world \<Rightarrow> bool" where
  "device_clash d w \<longleftrightarrow>
     list_ex (\<lambda>x. d_id x \<noteq> d_id d \<and>
       (d_device_uuid x = d_device_uuid d \<or> (d_push_token d \<noteq> None \<and> d_push_token x = d_push_token d))) (devices w)"

definition unique_failed :: exn where "unique_failed = Error ''Unique constraint failed''"

definition jopt_num :: "rat option \<Rightarrow> json" where
  "jopt_num x = (case x of None \<Rightarrow> JNull | Some v \<Rightarrow> JNum v)"

definition jopt_str :: "string option \<Rightarrow> json" where
  "jopt_str x = (case x of None \<Rightarrow> JNull | Some v \<Rightarrow> JStr v)"

primrec platform_name :: "device_platform \<Rightarrow> string" where
  "platform_name IOS = ''IOS''"
| "platform_name ANDROID = ''ANDROID''"
| "platform_name WEB = ''WEB''"

definition device_audit ::
  "string \<Rightarrow> string \<Rightarrow> id \<Rightarrow> id \<Rightarrow> string \<Rightarrow> string \<Rightarrow> json \<Rightarrow> json \<Rightarrow> json \<Rightarrow> audit_payload" where
  "device_audit eventType entityType deviceId userId action description oldValues newValues metadata =
     \<lparr>au_eventType = eventType, au_entityType = entityType, au_entityId = Some deviceId, au_userId = Some userId,
      au_action = action, au_description = description, au_oldValues = oldValues, au_newValues = newValues,
      au_metadata = metadata, au_errorMessage = None, au_success = True, au_actorId = None, au_actorType = None\<rparr>"

definition register_old_values :: "device_row \<Rightarrow> json" where
  "register_old_values d =
     JObj [(''platform'', JStr (platform_name (d_platform d))), (''osVersion'', jopt_str (d_os_version d)),
       (''appVersion'', jopt_str (d_app_version d)),
       (''pushToken'', if truthy_str (d_push_token d) then JStr ''[REDACTED]'' else JNull),
       (''location'', JObj [(''gpsLat'', jopt_num (d_gps_lat d)), (''gpsLon'', jopt_num (d_gps_lon d))])]"

definition register ::
  "env \<Rightarrow> register_device_dto \<Rightarrow> id \<Rightarrow> world \<Rightarrow> (exn + device_dto) \<times> world" where
  "register e dto userId w =
     (case List.find (\<lambda>d. d_device_uuid d = rd_device_uuid dto \<and> d_user_id d = userId) (devices w) of
        Some existing \<Rightarrow>
          let row = known_row e dto existing in
          if device_clash row w then (Inl unique_failed, w)
          else
            (case point_statement e (dto_gps dto) (d_id existing) (update_device (d_id existing) (\<lambda>_. row) w) of
              (Inl err, w1) \<Rightarrow> (Inl err, w1)
            | (Inr _, w1) \<Rightarrow>
            let w2 = emit_audit ENTITY_UPDATED
                  (device_audit ''UPDATE'' ''DEVICE'' (d_id existing) userId ''device_updated''
                     (''Updated device '' @ rd_device_uuid dto) (register_old_values existing)
                     (JObj [(''platform'', JStr (platform_name (rd_platform dto))), (''osVersion'', JStr (rd_os_version dto)),
                        (''appVersion'', JStr (rd_app_version dto)), (''pushTokenUpdated'', JBool (truthy_str (rd_push_token dto))),
                        (''locationUpdated'', JBool (rd_location dto \<noteq> None))]) JUndefined) w1
            in (Inr (mapDeviceDto e w2 (pointed (dto_gps dto) row)), w2))
      | None \<Rightarrow>
          let row = new_device_row e dto userId w in
          if device_clash row w then (Inl unique_failed, w)
          else
            (case point_statement e (dto_gps dto) (d_id row) (w\<lparr>devices := devices w @ [row]\<rparr>) of
              (Inl err, w1) \<Rightarrow> (Inl err, w1)
            | (Inr _, w1) \<Rightarrow>
            let w2 = emit_audit ENTITY_CREATED
                  (device_audit ''CREATE'' ''DEVICE'' (d_id row) userId ''device_registered''
                     (''Registered new device '' @ rd_device_uuid dto) JUndefined
                     (JObj [(''deviceUuid'', JStr (rd_device_uuid dto)), (''platform'', JStr (platform_name (rd_platform dto))),
                        (''osVersion'', JStr (rd_os_version dto)), (''appVersion'', JStr (rd_app_version dto)),
                        (''hasPushToken'', JBool (truthy_str (rd_push_token dto))),
                        (''hasLocation'', JBool (rd_location dto \<noteq> None))]) JUndefined) w1
            in (Inr (mapDeviceDto e w2 (pointed (dto_gps dto) row)), w2)))"

section \<open>Location and push token\<close>

definition owned_device :: "id \<Rightarrow> id \<Rightarrow> world \<Rightarrow> exn + device_row" where
  "owned_device deviceId userId w =
     (case List.find (\<lambda>d. d_id d = deviceId \<and> d_user_id d = userId) (devices w) of
        None \<Rightarrow> Inl (NotFoundException (''Device with ID '' @ show_int deviceId @ '' not found or does not belong to user''))
      | Some d \<Rightarrow> Inr d)"

definition located_row :: "env \<Rightarrow> update_location_dto \<Rightarrow> device_row \<Rightarrow> device_row" where
  "located_row e dto d =
     moved_device e (lu_gps dto) (d\<lparr>d_postal_codes := defaulted (d_postal_codes d) (lu_postal_codes dto), d_updated_at := now e\<rparr>)"

definition gps_values :: "rat option \<Rightarrow> rat option \<Rightarrow> rat option \<Rightarrow> json \<Rightarrow> json" where
  "gps_values lat lon acc codes =
     JObj [(''gpsLatitude'', jopt_num lat), (''gpsLongitude'', jopt_num lon), (''gpsAccuracy'', jopt_num acc), (''postalCodes'', codes)]"

definition jundef :: "json option \<Rightarrow> json" where
  "jundef j = (case j of None \<Rightarrow> JUndefined | Some v \<Rightarrow> v)"

definition new_gps_values :: "update_location_dto \<Rightarrow> json" where
  "new_gps_values dto =
     JObj [(''gpsLatitude'', jundef (map_option (JNum \<circ> gp_latitude) (lu_gps dto))),
       (''gpsLongitude'', jundef (map_option (JNum \<circ> gp_longitude) (lu_gps dto))),
       (''gpsAccuracy'', jundef (case lu_gps dto of None \<Rightarrow> None | Some g \<Rightarrow> map_option JNum (gp_accuracy g))),
       (''postalCodes'', jundef (map_option (JArr \<circ> map JStr) (lu_postal_codes dto)))]"

definition updateLocation ::
  "env \<Rightarrow> id \<Rightarrow> update_location_dto \<Rightarrow> id \<Rightarrow> world \<Rightarrow> (exn + device_dto) \<times> world" where
  "updateLocation e deviceId dto userId w =
     (case owned_device deviceId userId w of
        Inl err \<Rightarrow> (Inl err, w)
      | Inr d \<Rightarrow>
          let row = located_row e dto d in
          (case point_statement e (lu_gps dto) deviceId (update_device deviceId (\<lambda>_. row) w) of
            (Inl err, w1) \<Rightarrow> (Inl err, w1)
          | (Inr _, w1) \<Rightarrow>
          let w2 = emit_audit ENTITY_UPDATED
                (device_audit ''UPDATE'' ''LOCATION'' deviceId userId ''location_updated''
                   (''Updated location for device '' @ show_int deviceId)
                   (gps_values (d_gps_lat d) (d_gps_lon d) (d_gps_accuracy_meters d) (JArr (map JStr (d_postal_codes d))))
                   (new_gps_values dto)
                   (JObj [(''source'', JStr (if lu_gps dto \<noteq> None then ''GPS'' else ''POSTAL_CODE''))])) w1
          in (Inr (mapDeviceDto e w2 (pointed (lu_gps dto) row)), w2)))"

text \<open>The body of the request is not validated: \<open>push_token\<close> may be missing or null.\<close>

definition token_row :: "env \<Rightarrow> string field \<Rightarrow> device_row \<Rightarrow> device_row" where
  "token_row e pushToken d =
     d\<lparr>d_push_token := patched (d_push_token d) pushToken, d_push_token_updated_at := Some (now e), d_updated_at := now e\<rparr>"

definition updatePushToken ::
  "env \<Rightarrow> id \<Rightarrow> string field \<Rightarrow> id \<Rightarrow> world \<Rightarrow> (exn + device_dto) \<times> world" where
  "updatePushToken e deviceId pushToken userId w =
     (case owned_device deviceId userId w of
        Inl err \<Rightarrow> (Inl err, w)
      | Inr d \<Rightarrow>
          let row = token_row e pushToken d in
          if device_clash row w then (Inl unique_failed, w)
          else
            let w1 = update_device deviceId (\<lambda>_. row) w;
                w2 = emit_audit ENTITY_UPDATED
                  (device_audit ''UPDATE'' ''DEVICE'' deviceId userId ''push_token_updated''
                     (''Updated push notification token for device '' @ show_int deviceId)
                     (JObj [(''pushTokenUpdatedAt'', case d_push_token_updated_at d of None \<Rightarrow> JNull | Some t \<Rightarrow> JDate t),
                        (''hadPushToken'', JBool (truthy_str (d_push_token d)))])
                     (JObj [(''pushTokenUpdated'', JBool True)]) JUndefined) w1
            in (Inr (mapDeviceDto e w2 row), w2))"

text \<open>\<open>NULLS FIRST\<close> is the database's order for a descending sort; the service always sets the column.\<close>

definition findDevicesByUser :: "env \<Rightarrow> id \<Rightarrow> world \<Rightarrow> device_dto list" where
  "findDevicesByUser e userId w =
     (let mine = filter (\<lambda>d. d_user_id d = userId) (devices w) in
      map (mapDeviceDto e w)
        (filter (\<lambda>d. d_last_app_open d = None) mine @
         sort_key (\<lambda>d. - the (d_last_app_open d)) (filter (\<lambda>d. d_last_app_open d \<noteq> None) mine)))"

section \<open>Saved zones\<close>

text \<open>
  The endpoints hand the path segment to the service as a string, and the service to the database client,
  whose id columns are integers: it refuses the query. The raw statements name a table \<open>saved_zones\<close> that does
  not exist (the schema maps the model to \<open>saved_zone\<close>).
\<close>

datatype js_id = StrId string | NumId id

definition prisma_id :: "js_id \<Rightarrow> exn + id" where
  "prisma_id x = (case x of NumId i \<Rightarrow> Inr i | StrId s \<Rightarrow> Inl (Error ''Invalid value provided. Expected Int, provided String.''))"

definition show_js_id :: "js_id \<Rightarrow> string" where
  "show_js_id x = (case x of NumId i \<Rightarrow> show_int i | StrId s \<Rightarrow> s)"

definition no_relation :: exn where "no_relation = Error ''relation saved_zones does not exist''"

record saved_zone_dto =
  cs_name :: string
  cs_latitude :: rat
  cs_longitude :: rat
  cs_radius_km :: rat
  cs_priority :: "rat option"
  cs_is_active :: "bool option"

definition valid_saved_zone :: "saved_zone_dto \<Rightarrow> bool" where
  "valid_saved_zone dto \<longleftrightarrow>
     length (cs_name dto) \<in> {1..50} \<and> num_between (-90) 90 (cs_latitude dto) \<and> num_between (-180) 180 (cs_longitude dto) \<and>
     num_between 1 20 (cs_radius_km dto) \<and> opt_ok (num_between 1 10) (cs_priority dto)"

definition MAX_ZONES_PER_DEVICE :: nat where "MAX_ZONES_PER_DEVICE = 5"

definition owned_by_path :: "js_id \<Rightarrow> id \<Rightarrow> world \<Rightarrow> exn + device_row" where
  "owned_by_path deviceId userId w =
     (case prisma_id deviceId of
        Inl err \<Rightarrow> Inl err
      | Inr i \<Rightarrow> (case List.find (\<lambda>d. d_id d = i \<and> d_user_id d = userId) (devices w) of
            None \<Rightarrow> Inl (NotFoundException (''Device with ID '' @ show_js_id deviceId @ '' not found or does not belong to user''))
          | Some d \<Rightarrow> Inr d))"

definition createSavedZone :: "js_id \<Rightarrow> saved_zone_dto \<Rightarrow> id \<Rightarrow> world \<Rightarrow> (exn + saved_zone_row) \<times> world" where
  "createSavedZone deviceId dto userId w =
     (case owned_by_path deviceId userId w of
        Inl err \<Rightarrow> (Inl err, w)
      | Inr d \<Rightarrow>
          if count_where (\<lambda>z. sz_device_id z = d_id d) (saved_zones w) \<ge> MAX_ZONES_PER_DEVICE
          then (Inl (BadRequestException (''Maximum '' @ show_nat MAX_ZONES_PER_DEVICE @ '' saved zones per device'')), w)
          else (Inl no_relation, w))"

definition findSavedZonesByDevice :: "js_id \<Rightarrow> id \<Rightarrow> world \<Rightarrow> exn + saved_zone_row list" where
  "findSavedZonesByDevice deviceId userId w =
     (case owned_by_path deviceId userId w of
        Inl err \<Rightarrow> Inl err
      | Inr d \<Rightarrow>
          let zones = sort_key (\<lambda>z. - sz_priority z) (filter (\<lambda>z. sz_device_id z = d_id d) (saved_zones w)) in
          if zones = [] then Inr [] else Inl no_relation)"

text \<open>The text of the \<open>update\<close> method lies inside a comment that is never closed before it.\<close>

definition updateSavedZone :: "js_id \<Rightarrow> id \<Rightarrow> world \<Rightarrow> (exn + saved_zone_row) \<times> world" where
  "updateSavedZone zoneId userId w = (Inl (TypeError ''this.savedZoneService.update is not a function''), w)"

definition deleteSavedZone :: "js_id \<Rightarrow> id \<Rightarrow> world \<Rightarrow> (exn + unit) \<times> world" where
  "deleteSavedZone zoneId userId w =
     (case prisma_id zoneId of
        Inl err \<Rightarrow> (Inl err, w)
      | Inr i \<Rightarrow>
          (case find_row sz_id i (saved_zones w) of
             None \<Rightarrow> (Inl (NotFoundException (''Saved zone with ID '' @ show_js_id zoneId @ '' not found'')), w)
           | Some z \<Rightarrow>
               if map_option d_user_id (find_device (sz_device_id z) w) \<noteq> Some userId
               then (Inl (ForbiddenException ''You do not have access to this saved zone''), w)
               else (Inr (), w\<lparr>saved_zones := delete_where (\<lambda>x. sz_id x = i) (saved_zones w)\<rparr>)))"

end
