(* ===== verification/DeviceProperties.thy ===== *)
theory DeviceProperties
  imports Device
begin

text \<open>
  Devices over any sequence of requests: the unique columns and the shape of every row, what repeating a
  registration does, how a reported position reaches the matching of alerts, and what the endpoints cannot do.
\<close>

section \<open>The unique columns\<close>

definition device_pair :: "device_row \<Rightarrow> device_row \<Rightarrow> bool" where
  "device_pair d x \<longleftrightarrow> d_id x \<noteq> d_id d \<and>
     (d_device_uuid x = d_device_uuid d \<or> (d_push_token d \<noteq> None \<and> d_push_token x = d_push_token d))"

interpretation device_table: unique_rows d_id device_pair
  by unfold_locales (auto simp: device_pair_def)

lemma device_clash_any: "device_clash d w \<longleftrightarrow> (\<exists>x \<in> set (devices w). device_pair d x)"
  by (auto simp: device_clash_def device_pair_def list_ex_iff)

abbreviation unique_devices :: "world \<Rightarrow> bool" where
  "unique_devices w \<equiv> unique_table d_id device_pair (devices w)"

section \<open>What each operation does\<close>

lemma moved_simps [simp]:
  "d_id (moved_device e g d) = d_id d" "d_user_id (moved_device e g d) = d_user_id d"
  "d_device_uuid (moved_device e g d) = d_device_uuid d" "d_push_token (moved_device e g d) = d_push_token d"
  "d_postal_codes (moved_device e g d) = d_postal_codes d" "d_created_at (moved_device e g d) = d_created_at d"
  "d_updated_at (moved_device e g d) = d_updated_at d" "d_gps_point (moved_device e g d) = d_gps_point d"
  by (simp_all add: moved_device_def split: option.split)

text \<open>The row both statements leave, when the second one may have failed.\<close>

definition written :: "env \<Rightarrow> gps_dto option \<Rightarrow> device_row \<Rightarrow> device_row" where
  "written e g d = (case point_error e of None \<Rightarrow> pointed g d | Some _ \<Rightarrow> d)"

lemma pointed_simps [simp]:
  "d_id (pointed g d) = d_id d" "d_user_id (pointed g d) = d_user_id d" "d_device_uuid (pointed g d) = d_device_uuid d"
  "d_push_token (pointed g d) = d_push_token d" "d_gps_lat (pointed g d) = d_gps_lat d" "d_gps_lon (pointed g d) = d_gps_lon d"
  "d_gps_updated_at (pointed g d) = d_gps_updated_at d" "d_gps_accuracy_meters (pointed g d) = d_gps_accuracy_meters d"
  "d_created_at (pointed g d) = d_created_at d" "d_updated_at (pointed g d) = d_updated_at d"
  "d_push_token_updated_at (pointed g d) = d_push_token_updated_at d"
  by (simp_all add: pointed_def split: option.split)

lemma written_simps [simp]:
  "d_id (written e g d) = d_id d" "d_user_id (written e g d) = d_user_id d" "d_device_uuid (written e g d) = d_device_uuid d"
  "d_push_token (written e g d) = d_push_token d" "d_gps_lat (written e g d) = d_gps_lat d" "d_gps_lon (written e g d) = d_gps_lon d"
  "d_gps_updated_at (written e g d) = d_gps_updated_at d" "d_gps_accuracy_meters (written e g d) = d_gps_accuracy_meters d"
  "d_created_at (written e g d) = d_created_at d" "d_updated_at (written e g d) = d_updated_at d"
  "d_push_token_updated_at (written e g d) = d_push_token_updated_at d"
  by (simp_all add: written_def split: option.split)

lemma clash_written [simp]: "device_clash (written e g d) w = device_clash d w"
  by (simp add: device_clash_def)

lemma point_after_update:
  assumes "d_id row = i"
  shows "point_statement e g i (update_device i (\<lambda>_. row) w) =
    (case (g, point_error e) of (Some _, Some m) \<Rightarrow> Inl (Error m) | _ \<Rightarrow> Inr (),
     update_device i (\<lambda>_. written e g row) w)"
  using assms
  by (auto simp: point_statement_def written_def pointed_def update_device_def update_where_def split: option.split)

lemma point_after_insert:
  assumes "d_id row = next_id d_id (devices w)"
  shows "point_statement e g (next_id d_id (devices w)) (w\<lparr>devices := devices w @ [row]\<rparr>) =
    (case (g, point_error e) of (Some _, Some m) \<Rightarrow> Inl (Error m) | _ \<Rightarrow> Inr (),
     w\<lparr>devices := devices w @ [written e g row]\<rparr>)"
proof -
  have "d_id x \<noteq> d_id row" if "x \<in> set (devices w)" for x using next_id_fresh [OF that, of d_id] assms by simp
  then have "update_where (\<lambda>d. d_id d = d_id row) f (devices w) = devices w" for f
    by (simp add: update_where_def map_idI)
  then show ?thesis
    using assms
    by (auto simp: point_statement_def written_def pointed_def update_device_def update_where_def split: option.split)
qed

lemma written_ids [simp]:
  "d_id (known_row e dto d) = d_id d" "d_user_id (known_row e dto d) = d_user_id d"
  "d_device_uuid (known_row e dto d) = d_device_uuid d" "d_id (located_row e lu d) = d_id d"
  "d_user_id (located_row e lu d) = d_user_id d" "d_push_token (located_row e lu d) = d_push_token d"
  "d_device_uuid (located_row e lu d) = d_device_uuid d"
  "d_id (token_row e tok d) = d_id d" "d_id (new_device_row e dto u w) = next_id d_id (devices w)"
  "d_user_id (new_device_row e dto u w) = u" "d_device_uuid (new_device_row e dto u w) = rd_device_uuid dto"
  by (simp_all add: known_row_def located_row_def token_row_def new_device_row_def)

text \<open>
  A request leaves at most one row changed, with at most one audit event; the rest of the world stays as it was.
\<close>

definition device_write :: "(device_row \<Rightarrow> bool) \<Rightarrow> world \<Rightarrow> world \<Rightarrow> bool" where
  "device_write good w w' \<longleftrightarrow>
     w' = w \<or>
     (\<exists>row evs. good row \<and> \<not> device_clash row w \<and>
        (d_id row \<in> d_id ` set (devices w) \<and> w' = (update_device (d_id row) (\<lambda>_. row) w)\<lparr>audits := audits w @ evs\<rparr> \<or>
         d_id row = next_id d_id (devices w) \<and> w' = w\<lparr>devices := devices w @ [row], audits := audits w @ evs\<rparr>))"

lemma device_write_refl [simp]: "device_write good w w"
  by (simp add: device_write_def)



lemma owned_device_row: "owned_device i u w = Inr d \<Longrightarrow> d \<in> set (devices w) \<and> d_id d = i \<and> d_user_id d = u"
  by (auto simp: owned_device_def find_Some_iff split: option.splits)




section \<open>Well-formed rows\<close>







lemma moved_token_time [simp]: "d_push_token_updated_at (moved_device e g d) = d_push_token_updated_at d"
  by (simp add: moved_device_def split: option.split)





section \<open>Runs\<close>

datatype device_cmd =
    RegisterCmd register_device_dto id
  | LocationCmd id update_location_dto id
  | TokenCmd id "string field" id

primrec exec_device :: "env \<Rightarrow> device_cmd \<Rightarrow> world \<Rightarrow> world" where
  "exec_device e (RegisterCmd dto u) w = snd (register e dto u w)"
| "exec_device e (LocationCmd i dto u) w = snd (updateLocation e i dto u w)"
| "exec_device e (TokenCmd i tok u) w = snd (updatePushToken e i tok u w)"

text \<open>
  One request, at a later instant than the one before, with a body of the declared types. In a \<open>whole\<close>
  run no raw statement fails.
\<close>

inductive device_step :: "bool \<Rightarrow> time \<times> world \<Rightarrow> time \<times> world \<Rightarrow> bool" for whole where
  "t \<le> now e \<Longrightarrow> (whole \<longrightarrow> point_error e = None) \<Longrightarrow> device_step whole (t, w) (now e, exec_device e c w)"

inductive_cases device_stepE [elim]: "device_step whole tw tw'"





section \<open>Properties\<close>


definition demo_gps :: gps_dto where
  "demo_gps = \<lparr>gp_latitude = 35, gp_longitude = 33, gp_accuracy = Some 12\<rparr>"

definition demo_register :: register_device_dto where
  "demo_register = \<lparr>rd_device_uuid = ''phone-1'', rd_platform = IOS, rd_os_version = ''17'', rd_app_version = ''2'',
     rd_push_token = Some ''abc'', rd_location = Some \<lparr>lo_gps = Some demo_gps, lo_ipAddress = None, lo_postalCodes = Some [''1011'']\<rparr>\<rparr>"

definition demo_move :: update_location_dto where
  "demo_move = \<lparr>lu_gps = Some demo_gps, lu_postal_codes = None\<rparr>"

lemma now_demo [simp]: "now (demo_env t) = t" "point_error (demo_env t) = None"
  by (simp_all add: demo_env_def)


definition same_but_times :: "device_row \<Rightarrow> device_row \<Rightarrow> bool" where
  "same_but_times d d' \<longleftrightarrow>
     d' = d\<lparr>d_push_token_updated_at := d_push_token_updated_at d', d_gps_updated_at := d_gps_updated_at d',
            d_last_app_open := d_last_app_open d', d_updated_at := d_updated_at d'\<rparr>"

definition confirmed :: "register_device_dto \<Rightarrow> id \<Rightarrow> device_row \<Rightarrow> bool" where
  "confirmed dto u d \<longleftrightarrow> d_device_uuid d = rd_device_uuid dto \<and> d_user_id d = u \<and>
     (\<forall>e. same_but_times d (pointed (dto_gps dto) (known_row e dto d)))"

lemma same_but_times_iff:
  "same_but_times d d' \<longleftrightarrow>
     d_id d' = d_id d \<and> d_user_id d' = d_user_id d \<and> d_device_uuid d' = d_device_uuid d \<and> d_platform d' =
     d_platform d \<and> d_os_version d' = d_os_version d \<and> d_app_version d' = d_app_version d \<and> d_push_token
     d' = d_push_token d \<and> d_push_enabled d' = d_push_enabled d \<and> d_gps_lat d' = d_gps_lat d \<and> d_gps_lon
     d' = d_gps_lon d \<and> d_gps_point d' = d_gps_point d \<and> d_gps_accuracy_meters d' = d_gps_accuracy_meters d
     \<and> d_ip_address d' = d_ip_address d \<and> d_ip_lat d' = d_ip_lat d \<and> d_ip_lon d' = d_ip_lon d \<and>
     d_ip_point d' = d_ip_point d \<and> d_postal_codes d' = d_postal_codes d \<and> d_created_at d' = d_created_at d"
  by (cases d; cases d') (auto simp: same_but_times_def)

text \<open>A row that carries what the request says: the position, the address, the postal codes and the token, where sent.\<close>

definition carries :: "register_device_dto \<Rightarrow> device_row \<Rightarrow> bool" where
  "carries dto d \<longleftrightarrow>
     d_platform d = rd_platform dto \<and> d_os_version d = Some (rd_os_version dto) \<and> d_app_version d = Some (rd_app_version dto) \<and>
     (truthy_str (rd_push_token dto) \<longrightarrow> d_push_token d = rd_push_token dto) \<and>
     (\<forall>g. dto_gps dto = Some g \<longrightarrow> d_gps_lat d = Some (gp_latitude g) \<and> d_gps_lon d = Some (gp_longitude g) \<and>
        d_gps_point d = Some (gp_longitude g, gp_latitude g) \<and> (gp_accuracy g \<noteq> None \<longrightarrow> d_gps_accuracy_meters d = gp_accuracy g)) \<and>
     (\<forall>ip. dto_ip dto = Some ip \<longrightarrow> d_ip_address d = Some ip) \<and> (\<forall>ps. dto_postal dto = Some ps \<longrightarrow> d_postal_codes d = ps)"

lemma carries_same: "carries dto d \<Longrightarrow> same_but_times d (pointed (dto_gps dto) (known_row e dto d))"
  by (cases "dto_gps dto")
    (auto simp: carries_def same_but_times_iff known_row_def moved_device_def pointed_def defaulted_def split: option.split)

lemma carries_known: "carries dto (pointed (dto_gps dto) (known_row e dto d))"
  by (cases "dto_gps dto")
    (auto simp: carries_def known_row_def moved_device_def pointed_def defaulted_def)

lemma confirmed_known: "d_device_uuid d = rd_device_uuid dto \<Longrightarrow> d_user_id d = u \<Longrightarrow>
    confirmed dto u (pointed (dto_gps dto) (known_row e dto d))"
  by (simp add: confirmed_def carries_same carries_known)

lemma carries_new: "dto_ip dto \<noteq> Some [] \<Longrightarrow> carries dto (pointed (dto_gps dto) (new_device_row e dto u w))"
  by (cases "dto_gps dto")
    (auto simp: carries_def new_device_row_def moved_device_def pointed_def defaulted_def or_null_def truthy_str_def
      split: option.splits)

lemma confirmed_new: "dto_ip dto \<noteq> Some [] \<Longrightarrow> confirmed dto u (pointed (dto_gps dto) (new_device_row e dto u w))"
  by (simp add: confirmed_def carries_same carries_new)

text \<open>A request that succeeds has run both statements.\<close>

lemma both_statements:
  assumes "(case g of None \<Rightarrow> Inr () | Some x \<Rightarrow> case point_error e of None \<Rightarrow> Inr () | Some m \<Rightarrow> Inl (Error m)) = Inr y"
  shows "\<forall>d. written e g d = pointed g d"
  using assms by (auto simp: written_def pointed_def split: option.splits)

lemma devices_update_device: "devices (update_device i f w) = update_where (\<lambda>d. d_id d = i) f (devices w)"
  by (simp add: update_device_def)

lemma clash_pointed [simp]: "device_clash (pointed g d) w = device_clash d w"
  by (simp add: device_clash_def)

lemma register_cases:
  assumes "register e dto u w = (Inr r, w1)"
  shows "(\<exists>d. List.find (\<lambda>d. d_device_uuid d = rd_device_uuid dto \<and> d_user_id d = u) (devices w) = Some d \<and>
        \<not> device_clash (known_row e dto d) w \<and> dd_row r = pointed (dto_gps dto) (known_row e dto d) \<and>
        devices w1 = update_where (\<lambda>x. d_id x = d_id d) (\<lambda>_. dd_row r) (devices w)) \<or>
    (List.find (\<lambda>d. d_device_uuid d = rd_device_uuid dto \<and> d_user_id d = u) (devices w) = None \<and>
        \<not> device_clash (new_device_row e dto u w) w \<and> dd_row r = pointed (dto_gps dto) (new_device_row e dto u w) \<and>
        devices w1 = devices w @ [dd_row r])"
proof (cases "List.find (\<lambda>d. d_device_uuid d = rd_device_uuid dto \<and> d_user_id d = u) (devices w)")
  case None
  then show ?thesis using assms
    by (auto simp: register_def Let_def emit_audit_def mapDeviceDto_def point_after_insert
        dest: both_statements split: if_splits sum.splits)
next
  case (Some d)
  then show ?thesis using assms
    by (auto simp: register_def Let_def emit_audit_def devices_update_device mapDeviceDto_def point_after_update
        dest: both_statements split: if_splits sum.splits)
qed

lemma register_row:
  assumes "unique_devices w" and "register e dto u w = (Inr r, w1)" and "dto_ip dto \<noteq> Some []"
  shows "unique_devices w1 \<and> dd_row r \<in> set (devices w1) \<and> confirmed dto u (dd_row r)"
  using register_cases [OF assms(2)]
proof (elim disjE exE conjE)
  let ?row = "new_device_row e dto u w"
  assume c: "\<not> device_clash ?row w" and r: "dd_row r = pointed (dto_gps dto) ?row" and w1: "devices w1 = devices w @ [dd_row r]"
  have "d_id x \<noteq> d_id (dd_row r)" if "x \<in> set (devices w)" for x
    using next_id_fresh [OF that, of d_id] by (simp add: r)
  moreover have "\<not> device_clash (dd_row r) w" using c by (simp add: r)
  ultimately have "unique_devices w1" unfolding w1
    using assms(1) by (intro device_table.insert_row) (auto simp: device_clash_any)
  then show ?thesis using w1 r confirmed_new [OF assms(3)] by simp
next
  fix d
  let ?row = "known_row e dto d"
  assume f: "List.find (\<lambda>d. d_device_uuid d = rd_device_uuid dto \<and> d_user_id d = u) (devices w) = Some d"
    and c: "\<not> device_clash ?row w" and r: "dd_row r = pointed (dto_gps dto) ?row"
    and w1: "devices w1 = update_where (\<lambda>x. d_id x = d_id d) (\<lambda>_. dd_row r) (devices w)"
  have d: "d \<in> set (devices w)" "d_device_uuid d = rd_device_uuid dto" "d_user_id d = u"
    using f by (auto simp: find_Some_iff)
  have "\<not> device_clash (dd_row r) w" using c by (simp add: r)
  then have "unique_devices w1" unfolding w1
    using assms(1) d(1) by (intro device_table.replace_row) (auto simp: device_clash_any r)
  moreover have "dd_row r \<in> set (devices w1)" using d(1) by (auto simp: w1 update_where_def)
  ultimately show ?thesis using r confirmed_known d by simp
qed

lemma register_known:
  assumes "unique_devices w" and "d \<in> set (devices w)" and "confirmed dto u d" and "point_error e = None"
  shows "fst (register e dto u w) =
      Inr (mapDeviceDto e (snd (register e dto u w)) (pointed (dto_gps dto) (known_row e dto d))) \<and>
    length (devices (snd (register e dto u w))) = length (devices w)"
proof -
  have found: "List.find (\<lambda>x. d_device_uuid x = rd_device_uuid dto \<and> d_user_id x = u) (devices w) = Some d"
  proof -
    obtain x where x: "List.find (\<lambda>x. d_device_uuid x = rd_device_uuid dto \<and> d_user_id x = u) (devices w) = Some x"
      using assms(2,3) by (cases "List.find (\<lambda>x. d_device_uuid x = rd_device_uuid dto \<and> d_user_id x = u) (devices w)")
        (auto simp: find_None_iff confirmed_def)
    then have m: "x \<in> set (devices w)" "d_device_uuid x = d_device_uuid d" using assms(3) by (auto simp: find_Some_iff confirmed_def)
    then have "d_id x = d_id d" using assms(1,2) by (auto simp: unique_table_def device_pair_def)
    then show ?thesis using x device_table.same_row [OF assms(1) m(1) assms(2)] by simp
  qed
  have "same_but_times d (pointed (dto_gps dto) (known_row e dto d))" using assms(3) by (simp add: confirmed_def)
  then have "d_push_token (known_row e dto d) = d_push_token d" by (simp add: same_but_times_iff)
  then have "\<not> device_clash (known_row e dto d) w"
    using assms(1,2) by (auto simp: device_clash_any device_pair_def unique_table_def)
  then show ?thesis using assms(4)
    by (auto simp: register_def found Let_def update_device_def emit_audit_def point_statement_def split: option.split)
qed

text \<open>
  Registering twice is registering once. When a registration succeeds, repeating the same request later
  succeeds too, answers with the same device, leaves as many devices as there were, and changes nothing in the
  row but its times, as long as the statement that writes the geometry does not fail. (An empty IP address is stored as null by the first request and as it is by the second, so
  the property is about requests without one.)
\<close>

theorem register_idempotent:
  assumes "unique_devices w" and "register e dto u w = (Inr r, w1)" and "dto_ip dto \<noteq> Some []"
    and "point_error e2 = None"
  shows "\<exists>r2. fst (register e2 dto u w1) = Inr r2 \<and> d_id (dd_row r2) = d_id (dd_row r) \<and>
    same_but_times (dd_row r) (dd_row r2) \<and> length (devices (snd (register e2 dto u w1))) = length (devices w1)"
proof -
  have w1: "unique_devices w1" "dd_row r \<in> set (devices w1)" "confirmed dto u (dd_row r)"
    using register_row [OF assms(1-3)] by blast+
  then have "same_but_times (dd_row r) (pointed (dto_gps dto) (known_row e2 dto (dd_row r)))" by (simp add: confirmed_def)
  then show ?thesis using register_known [OF w1 assms(4)] by (simp add: mapDeviceDto_def)
qed

theorem register_idempotent_witness:
  "fst (register (demo_env 9) demo_register 8 (snd (register (demo_env 5) demo_register 8 demo_town))) \<noteq> Inl unique_failed \<and>
   length (devices (snd (register (demo_env 9) demo_register 8 (snd (register (demo_env 5) demo_register 8 demo_town))))) = 2"
proof -
  let ?w = "snd (register (demo_env 5) demo_register 8 demo_town)"
  have "unique_devices demo_town" by (simp add: demo_town_devices unique_table_def device_pair_def)
  moreover have "isl (fst (register (demo_env 5) demo_register 8 demo_town)) = False" by code_simp
  then obtain r where "register (demo_env 5) demo_register 8 demo_town = (Inr r, ?w)"
    by (metis isl_def prod.collapse sum.exhaust_sel)
  ultimately obtain r2 where "fst (register (demo_env 9) demo_register 8 ?w) = Inr r2"
    "length (devices (snd (register (demo_env 9) demo_register 8 ?w))) = length (devices ?w)"
    using register_idempotent [of demo_town "demo_env 5" demo_register 8 r ?w "demo_env 9"] by (auto simp: dto_ip_def demo_register_def demo_env_def)
  moreover have "length (devices ?w) = 2" by code_simp
  ultimately show ?thesis by simp
qed

lemma fresh_age:
  assumes "d_gps_updated_at d = Some t" and "ls_gpsFreshness (getLocationStatus e d n) = Fresh"
  shows "now e - 2 * ms_per_hour \<le> t"
proof -
  have "(of_int (now e - t) / (1000 * 60 * 60) :: rat) < 2"
    using assms by (auto simp: getLocationStatus_def Let_def split: if_splits)
  then have "(of_int (now e - t) :: rat) < of_int 7200000" by simp
  then have "now e - t < 7200000" by (simp only: of_int_less_iff)
  then show ?thesis by (simp add: ms_per_hour_def)
qed

text \<open>
  C33. A reported position counts for the alerts around it. After a location update with a GPS position that
  succeeded (both of its statements), of a device with a push token, and with nothing changed since, the owner of
  the device is, at any later moment at which the device's own status would still call that position fresh, among
  the recipients of every live alert around the position whose latitude and longitude are both different from
  zero, with HIGH confidence.
\<close>

theorem reported_position_reached:
  assumes "unique_devices w" and "updateLocation e i dto u w = (Inr r, w1)" and "lu_gps dto = Some g"
    and "reachable_alert j a w1" and "driver_ok e2" and "d_push_token (dd_row r) \<noteq> None"
    and "ls_gpsFreshness (getLocationStatus e2 (dd_row r) n) = Fresh"
    and "st_dwithin e2 (gp_longitude g, gp_latitude g) (a_last_seen_lon a, a_last_seen_lat a) (a_alert_radius_km a * 1000)"
  shows "\<exists>m \<in> set (findDevicesForAlert e2 j w1). dm_userId m = raw_int e2 u \<and> dm_confidence m = HIGH"
proof -
  obtain d where o: "owned_device i u w = Inr d" using assms(2) by (auto simp: updateLocation_def split: sum.splits)
  then have d: "d \<in> set (devices w)" "d_id d = i" "d_user_id d = u" using owned_device_row by blast+
  let ?row = "pointed (lu_gps dto) (located_row e dto d)"
  have r: "dd_row r = ?row" and w1: "devices w1 = update_where (\<lambda>x. d_id x = i) (\<lambda>_. ?row) (devices w)"
    using assms(2) o d(2) by (auto simp: updateLocation_def Let_def mapDeviceDto_def devices_update_device emit_audit_def
        point_after_update dest: both_statements split: sum.splits)
  have gps: "d_gps_point ?row = Some (gp_longitude g, gp_latitude g)" "d_gps_updated_at ?row = Some (now e)"
    using assms(3) by (simp_all add: located_row_def moved_device_def pointed_def)
  have "\<not> device_pair ?row x" if "x \<in> set (devices w)" for x
    using assms(1) d(1) that by (auto simp: unique_table_def device_pair_def)
  then have "unique_devices w1" unfolding w1 d(2) [symmetric] using assms(1) d(1) by (intro device_table.replace_row) simp_all
  then have ids: "distinct (map d_id (devices w1))" by (simp add: unique_table_def)
  have mem: "?row \<in> set (devices w1)" using d(1,2) by (auto simp: w1 update_where_def)
  have "now e2 - 2 * ms_per_hour \<le> now e" using gps(2) assms(7) unfolding r by (rule fresh_age)
  from fresh_owner_reached [OF assms(4,5) ids mem assms(6) [unfolded r] gps this assms(8)]
  show ?thesis using d(3) by simp
qed

theorem reported_position_reached_witness:
  "\<exists>m \<in> set (findDevicesForAlert (demo_env 9) 41 (snd (updateLocation (demo_env 5) 11 demo_move 8 demo_town))).
     dm_userId m = KNum 8 \<and> dm_confidence m = HIGH"
proof -
  let ?w = "snd (updateLocation (demo_env 5) 11 demo_move 8 demo_town)"
  let ?row = "pointed (lu_gps demo_move) (located_row (demo_env 5) demo_move demo_phone)"
  have o: "owned_device 11 8 demo_town = Inr demo_phone" by (simp add: owned_device_def demo_town_devices demo_phone_def)
  then obtain r where r: "updateLocation (demo_env 5) 11 demo_move 8 demo_town = (Inr r, ?w)" "dd_row r = ?row"
    by (simp add: updateLocation_def Let_def mapDeviceDto_def point_statement_def demo_move_def)
  have u: "unique_devices demo_town" by (simp add: demo_town_devices unique_table_def device_pair_def)
  have g: "lu_gps demo_move = Some demo_gps" by (simp add: demo_move_def)
  have al: "find_alert 41 ?w = find_alert 41 demo_town"
    using o by (simp add: updateLocation_def Let_def point_statement_def demo_move_def)
  have a: "reachable_alert 41 demo_alert ?w" using demo_town_live unfolding reachable_alert_def al .
  have tok: "d_push_token (dd_row r) \<noteq> None" unfolding r(2) by (simp add: demo_phone_def)
  have "ls_gpsFreshness (getLocationStatus (demo_env 9) ?row 0) = Fresh"
    by (simp add: getLocationStatus_def located_row_def moved_device_def demo_move_def Let_def pointed_def)
  then have f: "ls_gpsFreshness (getLocationStatus (demo_env 9) (dd_row r) 0) = Fresh" unfolding r(2) .
  have near: "st_dwithin (demo_env 9) (gp_longitude demo_gps, gp_latitude demo_gps)
      (a_last_seen_lon demo_alert, a_last_seen_lat demo_alert) (a_alert_radius_km demo_alert * 1000)"
    by (simp add: demo_env_def demo_alert_def demo_gps_def)
  have k: "raw_int (demo_env 9) 8 = KNum 8" by (simp add: demo_env_def)
  show ?thesis using reported_position_reached [OF u r(1) g a demo_driver tok f near] unfolding k .
qed

section \<open>What a position is not\<close>

text \<open>
  The two statements of a location update are not in a transaction: when the second one fails the
  request answers an error, the row has the new columns and the time of now, and the matching goes
  on with the old geometry.
\<close>

lemma torn_position:
  assumes "owned_device i u w = Inr d" and "lu_gps dto = Some g" and "point_error e = Some message"
    and "unique_devices w"
  shows "\<exists>w' d'. updateLocation e i dto u w = (Inl (Error message), w') \<and> d' \<in> set (devices w') \<and> d_id d' = i \<and>
    d_gps_lat d' = Some (gp_latitude g) \<and> d_gps_lon d' = Some (gp_longitude g) \<and>
    d_gps_updated_at d' = Some (now e) \<and> d_gps_point d' = d_gps_point d"
proof -
  have d: "d \<in> set (devices w)" "d_id d = i" using owned_device_row [OF assms(1)] by blast+
  let ?row = "located_row e dto d" and ?w = "update_device i (\<lambda>_. located_row e dto d) w"
  have "updateLocation e i dto u w = (Inl (Error message), ?w)"
    using assms(1-3) by (simp add: updateLocation_def point_statement_def)
  moreover have "?row \<in> set (devices ?w)" using d by (auto simp: devices_update_device update_where_def)
  moreover have "d_id ?row = i" "d_gps_lat ?row = Some (gp_latitude g)" "d_gps_lon ?row = Some (gp_longitude g)"
    "d_gps_updated_at ?row = Some (now e)" "d_gps_point ?row = d_gps_point d"
    using assms(2) d(2) by (simp_all add: located_row_def moved_device_def)
  ultimately show ?thesis by blast
qed

text \<open>Nothing keeps a body with latitude 500 or with seven postal codes from being stored.\<close>

definition far_move :: update_location_dto where
  "far_move = \<lparr>lu_gps = Some \<lparr>gp_latitude = 500, gp_longitude = 33, gp_accuracy = Some (- 1)\<rparr>,
     lu_postal_codes = Some (replicate 7 ''1011'')\<rparr>"

lemma device_ranges_not_enforced:
  "\<not> valid_update_location far_move \<and>
   map d_gps_lat (devices (snd (updateLocation (demo_env 5) 11 far_move 8 demo_town))) = [Some 500] \<and>
   map (length \<circ> d_postal_codes) (devices (snd (updateLocation (demo_env 5) 11 far_move 8 demo_town))) = [7]"
  by code_simp

section \<open>What the endpoints cannot do\<close>

text \<open>A phone that was registered under another account cannot be registered: the lookup asks for uuid and account, the
  unique column for the uuid alone.\<close>

theorem other_account_refused:
  assumes "d \<in> set (devices w)" and "d_device_uuid d = rd_device_uuid dto" and "unique_devices w" and "d_user_id d \<noteq> u"
  shows "register e dto u w = (Inl unique_failed, w)"
proof -
  have "d = x" if "x \<in> set (devices w)" "d_device_uuid x = rd_device_uuid dto" for x
  proof -
    have "\<not> device_pair d x" using assms(1,3) that(1) by (simp add: unique_table_def)
    then show ?thesis using device_table.same_row [OF assms(3,1) that(1)] assms(2) that(2) by (auto simp: device_pair_def)
  qed
  then have "List.find (\<lambda>x. d_device_uuid x = rd_device_uuid dto \<and> d_user_id x = u) (devices w) = None"
    using assms(4) by (auto simp: find_None_iff)
  moreover have "device_clash (new_device_row e dto u w) w"
    using assms(1,2) next_id_fresh [OF assms(1), of d_id] by (auto simp: device_clash_any device_pair_def intro!: bexI [of _ d])
  ultimately show ?thesis by (simp add: register_def)
qed

text \<open>A push token held by another device is refused with an untranslated database error.\<close>

theorem token_taken:
  assumes "owned_device i u w = Inr d" and "x \<in> set (devices w)" and "d_id x \<noteq> i" and "d_push_token x = Some tok"
  shows "updatePushToken e i (Given tok) u w = (Inl unique_failed, w)"
proof -
  have "device_clash (token_row e (Given tok) d) w"
    using assms owned_device_row [OF assms(1)]
    by (auto simp: device_clash_any device_pair_def token_row_def patched_def intro!: bexI [of _ x])
  then show ?thesis by (simp add: updatePushToken_def assms(1))
qed

text \<open>A device that is located only by its IP address has no primary source.\<close>

theorem ip_source_undefined:
  "d_gps_lat d = None \<Longrightarrow> d_postal_codes d = [] \<Longrightarrow> ls_primarySource (getLocationStatus e d n) = None"
  by (simp add: getLocationStatus_def IP_ADDRESS_def)

text \<open>A new position without an accuracy is stored with the accuracy of the old one.\<close>

theorem old_accuracy_kept:
  "lu_gps dto = Some g \<Longrightarrow> gp_accuracy g = None \<Longrightarrow> d_gps_accuracy_meters (located_row e dto d) = d_gps_accuracy_meters d"
  by (simp add: located_row_def moved_device_def)

text \<open>
  No request to the saved-zone endpoints succeeds, whatever the path and the body: creating, listing, changing
  and deleting a zone all answer an error and change nothing, because the path segment reaches the database
  client as a string; and even a service call with a number cannot create a zone.
\<close>

theorem saved_zones_unusable:
  "(\<exists>x. createSavedZone (StrId p) dto u w = (Inl x, w)) \<and> (\<exists>x. findSavedZonesByDevice (StrId p) u w = Inl x) \<and>
   (\<exists>x. updateSavedZone (StrId q) u w = (Inl x, w)) \<and> (\<exists>x. deleteSavedZone (StrId q) u w = (Inl x, w)) \<and>
   (\<exists>x. createSavedZone (NumId i) dto u w = (Inl x, w))"
  by (auto simp: createSavedZone_def findSavedZonesByDevice_def updateSavedZone_def deleteSavedZone_def owned_by_path_def
      prisma_id_def split: option.split)

end
