(* ===== verification/Passkey.thy ===== *)
theory Passkey
  imports Guards Alert
begin

text \<open>
  Passkeys (\<open>src/auth/passkeys\<close>): the single-use challenges in Redis, the passkey table and the two WebAuthn
  ceremonies. The verifier package is a record of functions (\<open>webauthn\<close>). The second half of each ceremony is a
  sequence of phases, one per statement that touches Redis or the database, so that requests can be interleaved.
\<close>

section \<open>Settings\<close>

record passkey_config =
  pc_rpId :: string
  pc_rpName :: string
  pc_origins :: "string list"

definition DEFAULT_RP_NAME :: string where "DEFAULT_RP_NAME = ''FiFi Alert''"

definition splitList :: "string option \<Rightarrow> string list" where
  "splitList value = filter (\<lambda>s. s \<noteq> []) (map trim (split_on (CHR '','') (case value of None \<Rightarrow> [] | Some s \<Rightarrow> s)))"

definition getPasskeyConfig :: "(string \<Rightarrow> string option) \<Rightarrow> passkey_config" where
  "getPasskeyConfig vars =
     (let rpName = (case vars ''RP_NAME'' of None \<Rightarrow> [] | Some s \<Rightarrow> trim s) in
      \<lparr>pc_rpId = (case vars ''RP_ID'' of None \<Rightarrow> [] | Some s \<Rightarrow> trim s),
       pc_rpName = (if rpName \<noteq> [] then rpName else DEFAULT_RP_NAME),
       pc_origins = map strip_trailing_slash (splitList (vars ''RP_ORIGINS''))\<rparr>)"

definition pc_enabled :: "passkey_config \<Rightarrow> bool" where
  "pc_enabled cfg \<longleftrightarrow> pc_rpId cfg \<noteq> [] \<and> pc_origins cfg \<noteq> []"

definition passkeys_not_configured :: exn where
  "passkeys_not_configured = ServiceUnavailableException ''passkeys not configured''"

definition unknownChallenge :: exn where "unknownChallenge = BadRequestException ''unknown or expired challenge''"

definition EMAIL_NOT_VERIFIED_MESSAGE :: string where
  "EMAIL_NOT_VERIFIED_MESSAGE =
     ''Please verify your email address before logging in. We sent a new verification link to your email.''"

section \<open>State\<close>

datatype challenge_type = ForRegister | ForLogin

record stored_challenge =
  sc_challenge :: string
  sc_type :: challenge_type
  sc_userId :: "id option"

record passkey_row =
  pk_id :: string
  pk_userId :: id
  pk_credentialId :: string
  pk_publicKey :: string
  pk_counter :: int
  pk_transports :: "string list"
  pk_aaguid :: string
  pk_deviceType :: string
  pk_backedUp :: bool
  pk_name :: string
  pk_createdAt :: time
  pk_lastUsedAt :: "time option"

text \<open>A Redis entry holds a text (\<open>None\<close>: one that does not parse) and the time it expires.\<close>

record passkey_state =
  ps_rows :: "passkey_row list"
  ps_challenges :: "(string \<times> (stored_challenge option \<times> time)) list"
  ps_users :: "user_row list"
  ps_mails :: "string list" \<comment> \<open>verification links requested again\<close>

record passkey_env =
  pe_clock :: time
  pe_redis :: bool
  pe_bytes :: string \<comment> \<open>sixteen random bytes in base64url\<close>
  pe_cuid :: string
  pe_challenge :: string \<comment> \<open>the challenge in the options of the package\<close>
  pe_isoDate :: string

section \<open>The challenge store\<close>

definition PASSKEY_CHALLENGE_TTL_SECONDS :: int where "PASSKEY_CHALLENGE_TTL_SECONDS = 5 * 60"
definition PASSKEY_CHALLENGE_KEY_PREFIX :: string where "PASSKEY_CHALLENGE_KEY_PREFIX = ''passkey:challenge:''"

definition redis_down :: exn where "redis_down = Error ''Reached the max retries per request limit''"

definition challenge_id :: "passkey_env \<Rightarrow> string" where "challenge_id pe = ''c_'' @ pe_bytes pe"

definition create_challenge :: "passkey_env \<Rightarrow> stored_challenge \<Rightarrow> passkey_state \<Rightarrow> (exn + string) \<times> passkey_state" where
  "create_challenge pe entry s =
     (if \<not> pe_redis pe then (Inl redis_down, s)
      else (Inr (challenge_id pe),
        s\<lparr>ps_challenges := map_set (PASSKEY_CHALLENGE_KEY_PREFIX @ challenge_id pe)
          (Some entry, pe_clock pe + PASSKEY_CHALLENGE_TTL_SECONDS * 1000) (ps_challenges s)\<rparr>))"

definition consume :: "passkey_env \<Rightarrow> string \<Rightarrow> passkey_state \<Rightarrow> (exn + stored_challenge option) \<times> passkey_state" where
  "consume pe challengeId s =
     (let key = PASSKEY_CHALLENGE_KEY_PREFIX @ challengeId in
      if challengeId = [] then (Inr None, s)
      else if \<not> pe_redis pe then (Inl redis_down, s)
      else case map_of (ps_challenges s) key of
        None \<Rightarrow> (Inr None, s)
      | Some (entry, expires) \<Rightarrow>
          (if pe_clock pe < expires then Inr entry else Inr None,
           s\<lparr>ps_challenges := filter (\<lambda>(k, _). k \<noteq> key) (ps_challenges s)\<rparr>))"

section \<open>The verifier package\<close>

record credential_info =
  ci_id :: string
  ci_publicKey :: string
  ci_counter :: int
  ci_transports :: "string list option"

record registration_info =
  ri_credential :: credential_info
  ri_aaguid :: string
  ri_deviceType :: string
  ri_backedUp :: bool

record authentication_info =
  ai_newCounter :: int
  ai_backedUp :: bool

text \<open>What the browser sends: its id when that is a string, its transports, and the rest, which only the package reads.\<close>

record client_response =
  cr_id :: "string option"
  cr_transports :: "string list option"
  cr_data :: string

text \<open>A call of the verifier throws (\<open>None\<close>) or tells whether the response is verified.\<close>

record webauthn =
  verifyRegistrationResponse ::
    "client_response \<Rightarrow> string \<Rightarrow> string list \<Rightarrow> string \<Rightarrow> (bool \<times> registration_info option) option"
  verifyAuthenticationResponse ::
    "client_response \<Rightarrow> string \<Rightarrow> string list \<Rightarrow> string \<Rightarrow> credential_info \<Rightarrow> (bool \<times> authentication_info) option"

text \<open>
  The documented check of the signature counter: an accepted counter exceeds the stored one, unless the
  authenticator has none and both are zero.
\<close>

definition counter_checked :: "webauthn \<Rightarrow> bool" where
  "counter_checked wa \<longleftrightarrow>
     (\<forall>r ch origins rp c info. verifyAuthenticationResponse wa r ch origins rp c = Some (True, info) \<longrightarrow>
        ci_counter c < ai_newCounter info \<or> ci_counter c = 0 \<and> ai_newCounter info = 0)"

section \<open>Registration\<close>

definition PASSKEY_NAME_MAX_LENGTH :: nat where "PASSKEY_NAME_MAX_LENGTH = 64"

definition normalisePasskeyName :: "passkey_env \<Rightarrow> string option \<Rightarrow> string" where
  "normalisePasskeyName pe name =
     (let trimmed = trim (case name of None \<Rightarrow> [] | Some s \<Rightarrow> s) in
      if trimmed \<noteq> [] then take PASSKEY_NAME_MAX_LENGTH trimmed else ''Passkey '' @ take 10 (pe_isoDate pe))"

record passkey_dto =
  pd_id :: string
  pd_name :: string
  pd_createdAt :: time
  pd_lastUsedAt :: "time option"
  pd_aaguid :: string
  pd_deviceType :: string
  pd_backedUp :: bool
  pd_transports :: "string list"

definition toPasskeyDto :: "passkey_row \<Rightarrow> passkey_dto" where
  "toPasskeyDto row =
     \<lparr>pd_id = pk_id row, pd_name = pk_name row, pd_createdAt = pk_createdAt row, pd_lastUsedAt = pk_lastUsedAt row,
      pd_aaguid = pk_aaguid row, pd_deviceType = pk_deviceType row, pd_backedUp = pk_backedUp row,
      pd_transports = pk_transports row\<rparr>"

record registration_options =
  op_rpName :: string
  op_rpID :: string
  op_userID :: string
  op_userName :: string
  op_userDisplayName :: string
  op_challenge :: string
  op_excludeCredentials :: "(string \<times> string list) list"

definition startRegistration ::
  "passkey_env \<Rightarrow> passkey_config \<Rightarrow> id \<Rightarrow> passkey_state \<Rightarrow> (exn + string \<times> registration_options) \<times> passkey_state" where
  "startRegistration pe cfg userId s =
     (if \<not> pc_enabled cfg then (Inl passkeys_not_configured, s)
      else case find_row u_id userId (ps_users s) of
        None \<Rightarrow> (Inl (UnauthorizedException ''User not found''), s)
      | Some user \<Rightarrow>
          let options = \<lparr>op_rpName = pc_rpName cfg, op_rpID = pc_rpId cfg, op_userID = show_int (u_id user),
                op_userName = u_email user, op_userDisplayName = (if u_name user \<noteq> [] then u_name user else u_email user),
                op_challenge = pe_challenge pe,
                op_excludeCredentials = map (\<lambda>p. (pk_credentialId p, pk_transports p)) (filter (\<lambda>p. pk_userId p = userId) (ps_rows s))\<rparr>
          in case create_challenge pe \<lparr>sc_challenge = op_challenge options, sc_type = ForRegister, sc_userId = Some userId\<rparr> s of
               (Inl err, s') \<Rightarrow> (Inl err, s')
             | (Inr challengeId, s') \<Rightarrow> (Inr (challengeId, options), s'))"

record register_input =
  rg_challengeId :: string
  rg_name :: "string option"
  rg_response :: client_response

datatype reg_phase =
    RegConsume
  | RegLookup registration_info
  | RegInsert registration_info
  | RegDone "exn + passkey_dto"

definition reg_failed :: reg_phase where "reg_failed = RegDone (Inl (BadRequestException ''verification failed''))"

definition already_credential :: exn where "already_credential = ConflictException ''credential already registered''"

definition new_passkey_row :: "passkey_env \<Rightarrow> id \<Rightarrow> register_input \<Rightarrow> registration_info \<Rightarrow> passkey_row" where
  "new_passkey_row pe userId input info =
     (let credential = ri_credential info in
      \<lparr>pk_id = pe_cuid pe, pk_userId = userId, pk_credentialId = ci_id credential, pk_publicKey = ci_publicKey credential,
       pk_counter = ci_counter credential,
       pk_transports = (case ci_transports credential of
          Some ts \<Rightarrow> ts | None \<Rightarrow> (case cr_transports (rg_response input) of Some ts \<Rightarrow> ts | None \<Rightarrow> [])),
       pk_aaguid = ri_aaguid info, pk_deviceType = ri_deviceType info, pk_backedUp = ri_backedUp info,
       pk_name = normalisePasskeyName pe (rg_name input), pk_createdAt = pe_clock pe, pk_lastUsedAt = None\<rparr>)"

fun reg_next ::
  "webauthn \<Rightarrow> passkey_env \<Rightarrow> passkey_config \<Rightarrow> id \<Rightarrow> register_input \<Rightarrow> reg_phase \<Rightarrow> passkey_state \<Rightarrow> reg_phase \<times> passkey_state" where
  "reg_next wa pe cfg userId input RegConsume s =
     (if \<not> pc_enabled cfg then (RegDone (Inl passkeys_not_configured), s)
      else case consume pe (rg_challengeId input) s of
        (Inl err, s') \<Rightarrow> (RegDone (Inl err), s')
      | (Inr None, s') \<Rightarrow> (RegDone (Inl unknownChallenge), s')
      | (Inr (Some stored), s') \<Rightarrow>
          if sc_type stored \<noteq> ForRegister \<or> sc_userId stored \<noteq> Some userId then (RegDone (Inl unknownChallenge), s')
          else case verifyRegistrationResponse wa (rg_response input) (sc_challenge stored) (pc_origins cfg) (pc_rpId cfg) of
            Some (True, Some info) \<Rightarrow> (RegLookup info, s')
          | _ \<Rightarrow> (reg_failed, s'))"
| "reg_next wa pe cfg userId input (RegLookup info) s =
     (if list_ex (\<lambda>p. pk_credentialId p = ci_id (ri_credential info)) (ps_rows s)
      then (RegDone (Inl already_credential), s) else (RegInsert info, s))"
| "reg_next wa pe cfg userId input (RegInsert info) s =
     (let row = new_passkey_row pe userId input info in
      if list_ex (\<lambda>p. pk_credentialId p = pk_credentialId row \<or> pk_id p = pk_id row) (ps_rows s)
      then (RegDone (Inl already_credential), s) \<comment> \<open>any unique violation\<close>
      else (RegDone (Inr (toPasskeyDto row)), s\<lparr>ps_rows := ps_rows s @ [row]\<rparr>))"
| "reg_next wa pe cfg userId input (RegDone r) s = (RegDone r, s)"

primrec reg_result :: "reg_phase \<Rightarrow> exn + passkey_dto" where
  "reg_result (RegDone r) = r"
| "reg_result RegConsume = Inl (Error [])"
| "reg_result (RegLookup info) = Inl (Error [])"
| "reg_result (RegInsert info) = Inl (Error [])"

text \<open>The method run on its own.\<close>

definition finishRegistration ::
  "webauthn \<Rightarrow> passkey_env \<Rightarrow> passkey_config \<Rightarrow> id \<Rightarrow> register_input \<Rightarrow> passkey_state \<Rightarrow> (exn + passkey_dto) \<times> passkey_state" where
  "finishRegistration wa pe cfg userId input s =
     (let (p1, s1) = reg_next wa pe cfg userId input RegConsume s;
          (p2, s2) = reg_next wa pe cfg userId input p1 s1;
          (p3, s3) = reg_next wa pe cfg userId input p2 s2
      in (reg_result p3, s3))"

section \<open>Signing in\<close>

definition startLogin :: "passkey_env \<Rightarrow> passkey_config \<Rightarrow> passkey_state \<Rightarrow> (exn + string \<times> string) \<times> passkey_state" where
  "startLogin pe cfg s =
     (if \<not> pc_enabled cfg then (Inl passkeys_not_configured, s)
      else case create_challenge pe \<lparr>sc_challenge = pe_challenge pe, sc_type = ForLogin, sc_userId = None\<rparr> s of
        (Inl err, s') \<Rightarrow> (Inl err, s')
      | (Inr challengeId, s') \<Rightarrow> (Inr (challengeId, pe_challenge pe), s'))"

record login_input =
  li_challengeId :: string
  li_response :: client_response

datatype login_refusal = Refused exn | EmailNotVerified string

datatype login_phase =
    LoginConsume
  | LoginLookup string
  | LoginOwner passkey_row authentication_info
  | LoginUpdate passkey_row authentication_info
  | LoginDone "login_refusal + id \<times> string"

definition login_refused :: "exn \<Rightarrow> login_phase" where "login_refused err = LoginDone (Inl (Refused err))"

definition unknownCredential :: exn where "unknownCredential = UnauthorizedException ''unknown credential''"
definition verificationFailed :: exn where "verificationFailed = UnauthorizedException ''verification failed''"

definition credential_of :: "passkey_row \<Rightarrow> credential_info" where
  "credential_of p = \<lparr>ci_id = pk_credentialId p, ci_publicKey = pk_publicKey p, ci_counter = pk_counter p,
     ci_transports = Some (pk_transports p)\<rparr>"

definition used_row :: "passkey_env \<Rightarrow> authentication_info \<Rightarrow> passkey_row \<Rightarrow> passkey_row" where
  "used_row pe info p = p\<lparr>pk_counter := ai_newCounter info, pk_lastUsedAt := Some (pe_clock pe), pk_backedUp := ai_backedUp info\<rparr>"

fun login_next ::
  "webauthn \<Rightarrow> passkey_env \<Rightarrow> passkey_config \<Rightarrow> login_input \<Rightarrow> login_phase \<Rightarrow> passkey_state \<Rightarrow> login_phase \<times> passkey_state" where
  "login_next wa pe cfg input LoginConsume s =
     (if \<not> pc_enabled cfg then (login_refused passkeys_not_configured, s)
      else case consume pe (li_challengeId input) s of
        (Inl err, s') \<Rightarrow> (login_refused err, s')
      | (Inr None, s') \<Rightarrow> (login_refused unknownChallenge, s')
      | (Inr (Some stored), s') \<Rightarrow>
          if sc_type stored \<noteq> ForLogin then (login_refused unknownChallenge, s')
          else if \<not> truthy_str (cr_id (li_response input)) then (login_refused unknownCredential, s')
          else (LoginLookup (sc_challenge stored), s'))"
| "login_next wa pe cfg input (LoginLookup challenge) s =
     (case List.find (\<lambda>p. cr_id (li_response input) = Some (pk_credentialId p)) (ps_rows s) of
        None \<Rightarrow> (login_refused unknownCredential, s)
      | Some passkey \<Rightarrow>
          (case verifyAuthenticationResponse wa (li_response input) challenge (pc_origins cfg) (pc_rpId cfg) (credential_of passkey) of
             Some (True, info) \<Rightarrow> (LoginOwner passkey info, s)
           | _ \<Rightarrow> (login_refused verificationFailed, s)))"
| "login_next wa pe cfg input (LoginOwner passkey info) s =
     (case find_row u_id (pk_userId passkey) (ps_users s) of
        None \<Rightarrow> (login_refused (UnauthorizedException ''User not found''), s)
      | Some owner \<Rightarrow>
          if \<not> u_emailVerified owner then (LoginDone (Inl (EmailNotVerified (u_email owner))), s)
          else (LoginUpdate passkey info, s))"
| "login_next wa pe cfg input (LoginUpdate passkey info) s =
     (if \<not> list_ex (\<lambda>p. pk_id p = pk_id passkey) (ps_rows s) then (login_refused (Error ''Record to update not found.''), s)
      else (LoginDone (Inr (pk_userId passkey, pk_id passkey)),
        s\<lparr>ps_rows := update_where (\<lambda>p. pk_id p = pk_id passkey) (used_row pe info) (ps_rows s)\<rparr>))"
| "login_next wa pe cfg input (LoginDone r) s = (LoginDone r, s)"

primrec login_result :: "login_phase \<Rightarrow> login_refusal + id \<times> string" where
  "login_result (LoginDone r) = r"
| "login_result LoginConsume = Inl (Refused (Error []))"
| "login_result (LoginLookup c) = Inl (Refused (Error []))"
| "login_result (LoginOwner p i) = Inl (Refused (Error []))"
| "login_result (LoginUpdate p i) = Inl (Refused (Error []))"

definition finishLogin ::
  "webauthn \<Rightarrow> passkey_env \<Rightarrow> passkey_config \<Rightarrow> login_input \<Rightarrow> passkey_state \<Rightarrow>
   (login_refusal + id \<times> string) \<times> passkey_state" where
  "finishLogin wa pe cfg input s =
     (let (p1, s1) = login_next wa pe cfg input LoginConsume s;
          (p2, s2) = login_next wa pe cfg input p1 s1;
          (p3, s3) = login_next wa pe cfg input p2 s2;
          (p4, s4) = login_next wa pe cfg input p3 s3
      in (login_result p4, s4))"

text \<open>
  The endpoint: a valid assertion of an unverified account requests a new link; otherwise the account is read
  with its roles and gates and the token pair is issued. \<open>mail_works\<close> tells whether the request of the link succeeds.
\<close>

definition requestVerificationEmail :: "bool \<Rightarrow> string \<Rightarrow> passkey_state \<Rightarrow> passkey_state" where
  "requestVerificationEmail mail_works email s = (if mail_works then s\<lparr>ps_mails := ps_mails s @ [email]\<rparr> else s)"

definition loginVerify ::
  "webauthn \<Rightarrow> crypto \<Rightarrow> moment \<Rightarrow> passkey_env \<Rightarrow> bool \<Rightarrow> passkey_config \<Rightarrow> login_input \<Rightarrow> http_request \<Rightarrow> passkey_state \<Rightarrow> auth_db \<Rightarrow>
   (exn + rotated_tokens \<times> audit_payload) \<times> passkey_state \<times> auth_db" where
  "loginVerify wa cr m pe mail_works cfg input rq s db =
     (case finishLogin wa pe cfg input s of
        (Inl (Refused err), s') \<Rightarrow> (Inl err, s', db)
      | (Inl (EmailNotVerified email), s') \<Rightarrow>
          (Inl (ForbiddenException EMAIL_NOT_VERIFIED_MESSAGE), requestVerificationEmail mail_works email s', db)
      | (Inr (userId, passkeyId), s') \<Rightarrow>
          (case find_account userId db of
             None \<Rightarrow> (Inl (UnauthorizedException ''User not found''), s', db)
           | Some user \<Rightarrow>
               (case issueTokens cr m user ''passkey'' (client_ip rq) (rq_user_agent rq) [(''passkeyId'', JStr passkeyId)] db of
                  (r, db') \<Rightarrow> (r, s', db'))))"

section \<open>Management\<close>

definition listPasskeys :: "id \<Rightarrow> passkey_state \<Rightarrow> passkey_dto list" where
  "listPasskeys userId s = map toPasskeyDto (sort_key (\<lambda>p. - pk_createdAt p) (filter (\<lambda>p. pk_userId p = userId) (ps_rows s)))"

definition countForUser :: "id \<Rightarrow> passkey_state \<Rightarrow> nat" where
  "countForUser userId s = count_where (\<lambda>p. pk_userId p = userId) (ps_rows s)"

definition findOwnedPasskey :: "id \<Rightarrow> string \<Rightarrow> passkey_state \<Rightarrow> exn + passkey_row" where
  "findOwnedPasskey userId i s =
     (case List.find (\<lambda>p. pk_id p = i \<and> pk_userId p = userId) (ps_rows s) of
        None \<Rightarrow> Inl (NotFoundException ''passkey not found'') | Some row \<Rightarrow> Inr row)"

definition renamePasskey :: "id \<Rightarrow> string \<Rightarrow> string \<Rightarrow> passkey_state \<Rightarrow> (exn + passkey_dto) \<times> passkey_state" where
  "renamePasskey userId i name s =
     (let trimmed = trim name in
      if trimmed = [] \<or> length trimmed > PASSKEY_NAME_MAX_LENGTH
      then (Inl (BadRequestException (''name must be 1-'' @ show_nat PASSKEY_NAME_MAX_LENGTH @ '' characters'')), s)
      else case findOwnedPasskey userId i s of
        Inl err \<Rightarrow> (Inl err, s)
      | Inr row \<Rightarrow> (Inr (toPasskeyDto (row\<lparr>pk_name := trimmed\<rparr>)),
          s\<lparr>ps_rows := update_where (\<lambda>p. pk_id p = pk_id row) (\<lambda>p. p\<lparr>pk_name := trimmed\<rparr>) (ps_rows s)\<rparr>))"

definition removePasskey :: "id \<Rightarrow> string \<Rightarrow> passkey_state \<Rightarrow> (exn + unit) \<times> passkey_state" where
  "removePasskey userId i s =
     (case findOwnedPasskey userId i s of
        Inl err \<Rightarrow> (Inl err, s)
      | Inr row \<Rightarrow> (Inr (), s\<lparr>ps_rows := delete_where (\<lambda>p. pk_id p = pk_id row) (ps_rows s)\<rparr>))"

end
