(* ===== verification/PasskeyProperties.thy ===== *)
theory PasskeyProperties
  imports Passkey
begin

text \<open>
  Passkeys: what one sign-in does, and the ceremonies of any number of clients interleaved statement by statement.
  A challenge is owned by Redis or by one request, so it serves once, and whoever signs in proved possession of a
  key that the same account registered in a ceremony of its own.
\<close>

section \<open>One sign-in\<close>

definition challenge_key :: "string \<Rightarrow> string" where "challenge_key c = PASSKEY_CHALLENGE_KEY_PREFIX @ c"

lemma map_of_filter_neq: "map_of (filter (\<lambda>(k, _). k \<noteq> key) xs) = (map_of xs)(key := None)"
  by (induction xs) auto

text \<open>Reading a challenge removes it; only a stored and unexpired one is answered.\<close>

lemma consume_spec:
  assumes "consume pe c s = (r, s')"
  shows "ps_rows s' = ps_rows s" and "ps_users s' = ps_users s" and "ps_mails s' = ps_mails s"
    and "map_of (ps_challenges s') = map_of (ps_challenges s) \<or>
         map_of (ps_challenges s') = (map_of (ps_challenges s))(challenge_key c := None)"
    and "r = Inr (Some x) \<Longrightarrow> c \<noteq> [] \<and> (\<exists>expires. map_of (ps_challenges s) (challenge_key c) = Some (Some x, expires) \<and>
         pe_clock pe < expires) \<and> map_of (ps_challenges s') = (map_of (ps_challenges s))(challenge_key c := None)"
  using assms
  by (auto simp: consume_def Let_def challenge_key_def map_of_filter_neq split: if_splits option.splits)

text \<open>What a login step may do: everything but the last one leaves the passkeys alone.\<close>

lemma login_next_frame:
  assumes "login_next wa pe cfg input ph s = (ph', s')"
  shows "ps_users s' = ps_users s \<and> ps_mails s' = ps_mails s \<and>
    (ps_rows s' = ps_rows s \<or>
     (\<exists>p info. ph = LoginUpdate p info \<and> ph' = LoginDone (Inr (pk_userId p, pk_id p)) \<and>
        ps_rows s' = update_where (\<lambda>q. pk_id q = pk_id p) (used_row pe info) (ps_rows s))) \<and>
    (ph \<noteq> LoginConsume \<longrightarrow> ps_challenges s' = ps_challenges s)"
proof (cases ph)
  case LoginConsume
  obtain r s1 where c: "consume pe (li_challengeId input) s = (r, s1)" by fastforce
  then show ?thesis using assms LoginConsume consume_spec(1-3) [OF c]
    by (auto simp: login_refused_def split: if_splits sum.splits option.splits)
qed (use assms in \<open>auto simp: login_refused_def Let_def split: if_splits sum.splits option.splits bool.splits prod.splits\<close>)

section \<open>Interleaved ceremonies\<close>

record passkey_world =
  px_db :: passkey_state
  px_issued :: "(string \<times> stored_challenge \<times> time) list"
  px_logins :: "(login_input \<times> login_phase) list"
  px_regs :: "(id \<times> register_input \<times> reg_phase) list"

text \<open>A started ceremony draws an identifier that was never drawn before (sixteen random bytes).\<close>

inductive passkey_step :: "webauthn \<Rightarrow> passkey_config \<Rightarrow> time \<times> passkey_world \<Rightarrow> time \<times> passkey_world \<Rightarrow> bool" for wa cfg where
  start_register:
  "t \<le> pe_clock pe \<Longrightarrow> startRegistration pe cfg u (px_db w) = (Inr (c, opts), db') \<Longrightarrow> c \<notin> fst ` set (px_issued w) \<Longrightarrow>
   passkey_step wa cfg (t, w) (pe_clock pe, w\<lparr>px_db := db', px_issued := px_issued w @
     [(c, \<lparr>sc_challenge = op_challenge opts, sc_type = ForRegister, sc_userId = Some u\<rparr>, pe_clock pe)]\<rparr>)"
| start_login:
  "t \<le> pe_clock pe \<Longrightarrow> startLogin pe cfg (px_db w) = (Inr (c, ch), db') \<Longrightarrow> c \<notin> fst ` set (px_issued w) \<Longrightarrow>
   passkey_step wa cfg (t, w) (pe_clock pe, w\<lparr>px_db := db', px_issued := px_issued w @
     [(c, \<lparr>sc_challenge = ch, sc_type = ForLogin, sc_userId = None\<rparr>, pe_clock pe)]\<rparr>)"
| login_arrives: "passkey_step wa cfg (t, w) (t, w\<lparr>px_logins := px_logins w @ [(input, LoginConsume)]\<rparr>)"
| register_arrives: "passkey_step wa cfg (t, w) (t, w\<lparr>px_regs := px_regs w @ [(u, rin, RegConsume)]\<rparr>)"
| login_advances:
  "t \<le> pe_clock pe \<Longrightarrow> i < length (px_logins w) \<Longrightarrow> px_logins w ! i = (input, ph) \<Longrightarrow>
   login_next wa pe cfg input ph (px_db w) = (ph', db') \<Longrightarrow>
   passkey_step wa cfg (t, w) (pe_clock pe, w\<lparr>px_db := db', px_logins := (px_logins w)[i := (input, ph')]\<rparr>)"
| register_advances:
  "t \<le> pe_clock pe \<Longrightarrow> i < length (px_regs w) \<Longrightarrow> px_regs w ! i = (u, rin, rph) \<Longrightarrow>
   reg_next wa pe cfg u rin rph (px_db w) = (rph', db') \<Longrightarrow>
   passkey_step wa cfg (t, w) (pe_clock pe, w\<lparr>px_db := db', px_regs := (px_regs w)[i := (u, rin, rph')]\<rparr>)"
| renames: "passkey_step wa cfg (t, w) (t, w\<lparr>px_db := snd (renamePasskey u k name (px_db w))\<rparr>)"
| removes: "passkey_step wa cfg (t, w) (t, w\<lparr>px_db := snd (removePasskey u k (px_db w))\<rparr>)"
| users_change: "passkey_step wa cfg (t, w) (t, w\<lparr>px_db := (px_db w)\<lparr>ps_users := us\<rparr>\<rparr>)"

inductive_cases passkey_stepE: "passkey_step wa cfg tw tw'"

text \<open>A challenge is in Redis, or one request that used it is on its way or was answered with success.\<close>

fun login_holds :: "login_phase \<Rightarrow> bool" where
  "login_holds LoginConsume = False"
| "login_holds (LoginDone (Inl _)) = False"
| "login_holds _ = True"

fun reg_holds :: "reg_phase \<Rightarrow> bool" where
  "reg_holds RegConsume = False"
| "reg_holds (RegDone (Inl _)) = False"
| "reg_holds _ = True"

definition stored_in :: "string \<Rightarrow> passkey_state \<Rightarrow> bool" where
  "stored_in c s \<longleftrightarrow> map_of (ps_challenges s) (challenge_key c) \<noteq> None"

definition owners :: "string \<Rightarrow> passkey_world \<Rightarrow> nat" where
  "owners c w = count_where (\<lambda>(input, ph). login_holds ph \<and> li_challengeId input = c) (px_logins w) +
     count_where (\<lambda>(u, rin, ph). reg_holds ph \<and> rg_challengeId rin = c) (px_regs w) +
     of_bool (stored_in c (px_db w))"

lemma count_where_list_update:
  "i < length xs \<Longrightarrow> count_where p (xs[i := x]) + of_bool (p (xs ! i)) = count_where p xs + of_bool (p x)"
proof (induction xs arbitrary: i)
  case (Cons y ys)
  then show ?case by (cases i) (auto simp: count_where_def)
qed simp

lemma challenge_key_eq [simp]: "challenge_key c = challenge_key d \<longleftrightarrow> c = d"
  by (simp add: challenge_key_def)

lemma create_stores:
  assumes "create_challenge pe entry s = (Inr c, s')"
  shows "map_of (ps_challenges s') = (map_of (ps_challenges s))(challenge_key c \<mapsto> (Some entry, pe_clock pe + 300000))"
    and "ps_rows s' = ps_rows s" and "c \<noteq> []"
  using assms by (auto simp: create_challenge_def challenge_key_def PASSKEY_CHALLENGE_TTL_SECONDS_def challenge_id_def split: if_splits)

text \<open>Who holds a challenge after a step held it before, or took it out of Redis.\<close>

lemma login_owner:
  assumes "login_next wa pe cfg input ph s = (ph', s')"
  shows "of_bool (login_holds ph' \<and> li_challengeId input = c) + of_bool (stored_in c s') \<le>
    of_bool (login_holds ph \<and> li_challengeId input = c) + (of_bool (stored_in c s) :: nat)"
proof (cases ph)
  case LoginConsume
  obtain r s1 where r: "consume pe (li_challengeId input) s = (r, s1)" by fastforce
  show ?thesis
  proof (cases "\<exists>x. r = Inr (Some x)")
    case True
    then obtain x where x: "r = Inr (Some x)" by blast
    have "stored_in (li_challengeId input) s" "map_of (ps_challenges s1) = (map_of (ps_challenges s))(challenge_key (li_challengeId input) := None)"
      using consume_spec(5) [OF r x] by (auto simp: stored_in_def)
    moreover have "s' = s1 \<or> s' = s" using assms LoginConsume r x by (auto simp: login_refused_def split: if_splits)
    ultimately show ?thesis using assms LoginConsume r x by (auto simp: stored_in_def login_refused_def split: if_splits)
  next
    case False
    then have "\<not> login_holds ph'" and "s' = s1 \<or> s' = s"
      using assms LoginConsume r by (auto simp: login_refused_def split: if_splits sum.splits option.splits)
    moreover have "stored_in c s1 \<Longrightarrow> stored_in c s" using consume_spec(4) [OF r] by (auto simp: stored_in_def split: if_splits)
    ultimately show ?thesis by auto
  qed
next
  case (LoginDone r)
  then show ?thesis using assms by auto
qed (use assms login_next_frame [OF assms] in \<open>auto simp: stored_in_def login_refused_def split: if_splits sum.splits option.splits\<close>)

lemma reg_next_frame:
  assumes "reg_next wa pe cfg u rin ph s = (ph', s')"
  shows "(ps_rows s' = ps_rows s \<and> (ph \<noteq> ph' \<longrightarrow> (\<forall>dto. ph' \<noteq> RegDone (Inr dto))) \<or>
     (\<exists>info. ph = RegInsert info \<and> ph' = RegDone (Inr (toPasskeyDto (new_passkey_row pe u rin info))) \<and>
        \<not> list_ex (\<lambda>p. pk_credentialId p = ci_id (ri_credential info) \<or> pk_id p = pe_cuid pe) (ps_rows s) \<and>
        ps_rows s' = ps_rows s @ [new_passkey_row pe u rin info])) \<and>
    (ph \<noteq> RegConsume \<longrightarrow> ps_challenges s' = ps_challenges s)"
proof (cases ph)
  case RegConsume
  obtain r s1 where c: "consume pe (rg_challengeId rin) s = (r, s1)" by fastforce
  then show ?thesis using assms RegConsume consume_spec(1) [OF c]
    by (auto simp: reg_failed_def split: if_splits sum.splits option.splits bool.splits prod.splits)
next
  case (RegInsert info)
  have "pk_credentialId (new_passkey_row pe u rin info) = ci_id (ri_credential info)" "pk_id (new_passkey_row pe u rin info) = pe_cuid pe"
    by (simp_all add: new_passkey_row_def Let_def)
  then show ?thesis using assms RegInsert by (auto simp: Let_def split: if_splits)
qed (use assms in \<open>auto split: if_splits\<close>)

lemma reg_owner:
  assumes "reg_next wa pe cfg u rin ph s = (ph', s')"
  shows "of_bool (reg_holds ph' \<and> rg_challengeId rin = c) + of_bool (stored_in c s') \<le>
    of_bool (reg_holds ph \<and> rg_challengeId rin = c) + (of_bool (stored_in c s) :: nat)"
proof (cases ph)
  case RegConsume
  obtain r s1 where r: "consume pe (rg_challengeId rin) s = (r, s1)" by fastforce
  show ?thesis
  proof (cases "\<exists>x. r = Inr (Some x)")
    case True
    then obtain x where x: "r = Inr (Some x)" by blast
    have st: "stored_in (rg_challengeId rin) s" "map_of (ps_challenges s1) = (map_of (ps_challenges s))(challenge_key (rg_challengeId rin) := None)"
      using consume_spec(5) [OF r x] by (auto simp: stored_in_def)
    have "s' = s1 \<or> s' = s \<and> \<not> reg_holds ph'" using assms RegConsume r x
      by (auto simp: reg_failed_def split: if_splits option.splits bool.splits prod.splits)
    then show ?thesis using st RegConsume by (auto simp: stored_in_def split: if_splits)
  next
    case False
    then have "\<not> reg_holds ph'" and "s' = s1 \<or> s' = s"
      using assms RegConsume r by (auto split: if_splits sum.splits option.splits)
    moreover have "stored_in c s1 \<Longrightarrow> stored_in c s" using consume_spec(4) [OF r] by (auto simp: stored_in_def split: if_splits)
    ultimately show ?thesis by auto
  qed
qed (use assms in \<open>auto simp: stored_in_def Let_def split: if_splits\<close>)

section \<open>The invariant of the ceremonies\<close>

definition reg_proved :: "webauthn \<Rightarrow> passkey_config \<Rightarrow> id \<Rightarrow> register_input \<Rightarrow> stored_challenge \<Rightarrow> registration_info \<Rightarrow> bool" where
  "reg_proved wa cfg u rin e info \<longleftrightarrow> sc_type e = ForRegister \<and> sc_userId e = Some u \<and>
     verifyRegistrationResponse wa (rg_response rin) (sc_challenge e) (pc_origins cfg) (pc_rpId cfg) = Some (True, Some info)"

text \<open>A passkey is what a successful registration ceremony of its account left.\<close>

definition registered :: "webauthn \<Rightarrow> passkey_config \<Rightarrow> passkey_world \<Rightarrow> passkey_row \<Rightarrow> bool" where
  "registered wa cfg w p \<longleftrightarrow>
     (\<exists>rin dto info e ti. (pk_userId p, rin, RegDone (Inr dto)) \<in> set (px_regs w) \<and> pd_id dto = pk_id p \<and>
        (rg_challengeId rin, e, ti) \<in> set (px_issued w) \<and> reg_proved wa cfg (pk_userId p) rin e info \<and>
        ci_id (ri_credential info) = pk_credentialId p \<and> ci_publicKey (ri_credential info) = pk_publicKey p)"

definition proved :: "webauthn \<Rightarrow> passkey_config \<Rightarrow> passkey_world \<Rightarrow> login_input \<Rightarrow> stored_challenge \<Rightarrow> passkey_row \<Rightarrow> authentication_info \<Rightarrow> bool" where
  "proved wa cfg w input e p info \<longleftrightarrow> cr_id (li_response input) = Some (pk_credentialId p) \<and> registered wa cfg w p \<and>
     verifyAuthenticationResponse wa (li_response input) (sc_challenge e) (pc_origins cfg) (pc_rpId cfg) (credential_of p) = Some (True, info)"

fun login_says :: "webauthn \<Rightarrow> passkey_config \<Rightarrow> passkey_world \<Rightarrow> login_input \<Rightarrow> stored_challenge \<Rightarrow> login_phase \<Rightarrow> bool" where
  "login_says wa cfg w input e (LoginLookup ch) \<longleftrightarrow> ch = sc_challenge e"
| "login_says wa cfg w input e (LoginOwner p info) \<longleftrightarrow> proved wa cfg w input e p info"
| "login_says wa cfg w input e (LoginUpdate p info) \<longleftrightarrow> proved wa cfg w input e p info"
| "login_says wa cfg w input e (LoginDone (Inr (u, k))) \<longleftrightarrow> (\<exists>p info. proved wa cfg w input e p info \<and> u = pk_userId p \<and> k = pk_id p)"
| "login_says wa cfg w input e _ \<longleftrightarrow> True"

definition login_fact :: "webauthn \<Rightarrow> passkey_config \<Rightarrow> passkey_world \<Rightarrow> login_input \<times> login_phase \<Rightarrow> bool" where
  "login_fact wa cfg w = (\<lambda>(input, ph). login_holds ph \<longrightarrow>
     (\<exists>e ti. (li_challengeId input, e, ti) \<in> set (px_issued w) \<and> sc_type e = ForLogin \<and> login_says wa cfg w input e ph))"

definition reg_fact :: "webauthn \<Rightarrow> passkey_config \<Rightarrow> passkey_world \<Rightarrow> id \<times> register_input \<times> reg_phase \<Rightarrow> bool" where
  "reg_fact wa cfg w = (\<lambda>(u, rin, ph). reg_holds ph \<longrightarrow>
     (\<exists>e ti info. (rg_challengeId rin, e, ti) \<in> set (px_issued w) \<and> reg_proved wa cfg u rin e info \<and>
        (\<forall>i. ph = RegLookup i \<or> ph = RegInsert i \<longrightarrow> i = info)))"

definition credential_clash :: "passkey_row \<Rightarrow> passkey_row \<Rightarrow> bool" where
  "credential_clash p q \<longleftrightarrow> pk_id p \<noteq> pk_id q \<and> pk_credentialId p = pk_credentialId q"

interpretation passkey_table: unique_rows pk_id credential_clash
  by unfold_locales (auto simp: credential_clash_def)

definition challenges_ok :: "passkey_world \<Rightarrow> bool" where
  "challenges_ok w \<longleftrightarrow> distinct (map fst (px_issued w)) \<and>
     (\<forall>c. owners c w \<le> 1 \<and> (0 < owners c w \<longrightarrow> c \<in> fst ` set (px_issued w))) \<and>
     (\<forall>c v x. map_of (ps_challenges (px_db w)) (challenge_key c) = Some (v, x) \<longrightarrow>
        (\<exists>e ti. (c, e, ti) \<in> set (px_issued w) \<and> v = Some e \<and> x = ti + 300000))"

definition passkeys_ok :: "webauthn \<Rightarrow> passkey_config \<Rightarrow> passkey_world \<Rightarrow> bool" where
  "passkeys_ok wa cfg w \<longleftrightarrow> unique_table pk_id credential_clash (ps_rows (px_db w)) \<and>
     (\<forall>p \<in> set (ps_rows (px_db w)). registered wa cfg w p \<and> length (pk_name p) \<in> {1..64})"

definition ceremonies_ok :: "webauthn \<Rightarrow> passkey_config \<Rightarrow> time \<times> passkey_world \<Rightarrow> bool" where
  "ceremonies_ok wa cfg = (\<lambda>(t, w). challenges_ok w \<and> passkeys_ok wa cfg w \<and>
     (\<forall>x \<in> set (px_logins w). login_fact wa cfg w x) \<and> (\<forall>x \<in> set (px_regs w). reg_fact wa cfg w x))"

text \<open>What is known stays known: nothing that was issued or answered is taken back.\<close>

definition grows :: "passkey_world \<Rightarrow> passkey_world \<Rightarrow> bool" where
  "grows w w' \<longleftrightarrow> set (px_issued w) \<subseteq> set (px_issued w') \<and>
     (\<forall>u rin r. (u, rin, RegDone r) \<in> set (px_regs w) \<longrightarrow> (u, rin, RegDone r) \<in> set (px_regs w'))"

lemma registered_grows: "registered wa cfg w p \<Longrightarrow> grows w w' \<Longrightarrow> registered wa cfg w' p"
  unfolding registered_def grows_def by blast

lemma login_says_grows: "login_says wa cfg w input e ph \<Longrightarrow> grows w w' \<Longrightarrow> login_says wa cfg w' input e ph"
  by (cases "(wa, cfg, w, input, e, ph)" rule: login_says.cases) (auto simp: proved_def dest: registered_grows)

lemma login_fact_grows: "login_fact wa cfg w x \<Longrightarrow> grows w w' \<Longrightarrow> login_fact wa cfg w' x"
  unfolding login_fact_def using login_says_grows [of wa cfg w _ _ _ w'] unfolding grows_def by (cases x) blast

lemma reg_fact_grows: "reg_fact wa cfg w x \<Longrightarrow> grows w w' \<Longrightarrow> reg_fact wa cfg w' x"
  unfolding reg_fact_def grows_def by blast

section \<open>Every step keeps the invariant\<close>

lemma ceremonies_intro:
  assumes "ceremonies_ok wa cfg (t, w)" and "grows w w'" and "challenges_ok w'" and "passkeys_ok wa cfg w'"
    and "\<And>x. x \<in> set (px_logins w') \<Longrightarrow> x \<in> set (px_logins w) \<or> login_fact wa cfg w' x"
    and "\<And>x. x \<in> set (px_regs w') \<Longrightarrow> x \<in> set (px_regs w) \<or> reg_fact wa cfg w' x"
  shows "ceremonies_ok wa cfg (t', w')"
  using assms login_fact_grows [OF _ assms(2)] reg_fact_grows [OF _ assms(2)] unfolding ceremonies_ok_def by blast

lemma passkeys_keep:
  assumes "passkeys_ok wa cfg w" and "grows w w'" and "ps_rows (px_db w') = ps_rows (px_db w)"
  shows "passkeys_ok wa cfg w'"
  using assms registered_grows unfolding passkeys_ok_def by metis

lemma start_ok:
  assumes ok: "ceremonies_ok wa cfg (t, w)" and cr: "create_challenge pe entry (px_db w) = (Inr c, db')"
    and new: "c \<notin> fst ` set (px_issued w)"
  shows "ceremonies_ok wa cfg (t', w\<lparr>px_db := db', px_issued := px_issued w @ [(c, entry, pe_clock pe)]\<rparr>)"
proof -
  let ?w = "w\<lparr>px_db := db', px_issued := px_issued w @ [(c, entry, pe_clock pe)]\<rparr>"
  have ch: "challenges_ok w" using ok by (simp add: ceremonies_ok_def)
  have g: "grows w ?w" by (auto simp: grows_def)
  have "owners c w = 0" using ch new unfolding challenges_ok_def by blast
  then have "owners d ?w = owners d w + of_bool (d = c)" for d
    using create_stores(1) [OF cr] by (auto simp: owners_def stored_in_def)
  then have o: "owners d ?w \<le> 1 \<and> (0 < owners d ?w \<longrightarrow> d \<in> fst ` set (px_issued ?w))" for d
    using ch \<open>owners c w = 0\<close> unfolding challenges_ok_def by (cases "d = c") auto
  have "\<exists>e ti. (d, e, ti) \<in> set (px_issued ?w) \<and> v = Some e \<and> x = ti + 300000"
    if "map_of (ps_challenges db') (challenge_key d) = Some (v, x)" for d v x
  proof (cases "d = c")
    case True
    then have "v = Some entry" "x = pe_clock pe + 300000" using that create_stores(1) [OF cr] by auto
    then show ?thesis using True by auto
  next
    case False
    then have "map_of (ps_challenges (px_db w)) (challenge_key d) = Some (v, x)" using that create_stores(1) [OF cr] by simp
    then obtain e ti where "(d, e, ti) \<in> set (px_issued w)" "v = Some e" "x = ti + 300000"
      using ch unfolding challenges_ok_def by blast
    then show ?thesis by auto
  qed
  then have "challenges_ok ?w" using o ch new unfolding challenges_ok_def by simp
  moreover have "passkeys_ok wa cfg w" using ok by (simp add: ceremonies_ok_def)
  then have "passkeys_ok wa cfg ?w" by (rule passkeys_keep [OF _ g]) (simp add: create_stores(2) [OF cr])
  ultimately show ?thesis by (rule ceremonies_intro [OF ok g]) simp_all
qed

lemma challenges_shrink:
  assumes "challenges_ok w" and "px_issued w' = px_issued w" and "\<And>c. owners c w' \<le> owners c w"
    and "\<And>k x. map_of (ps_challenges (px_db w')) k = Some x \<Longrightarrow> map_of (ps_challenges (px_db w)) k = Some x"
  shows "challenges_ok w'"
proof -
  have "owners c w' \<le> 1 \<and> (0 < owners c w' \<longrightarrow> c \<in> fst ` set (px_issued w'))" for c
  proof -
    have "owners c w \<le> 1" "0 < owners c w \<longrightarrow> c \<in> fst ` set (px_issued w)" using assms(1) by (simp_all add: challenges_ok_def)
    then show ?thesis using assms(2) assms(3) [of c] by simp
  qed
  then show ?thesis using assms(1,2) assms(4) unfolding challenges_ok_def by simp
qed

lemma owners_login:
  assumes "login_next wa pe cfg input ph (px_db w) = (ph', db')" and "i < length (px_logins w)" and "px_logins w ! i = (input, ph)"
  shows "owners c (w\<lparr>px_db := db', px_logins := (px_logins w)[i := (input, ph')]\<rparr>) \<le> owners c w"
  using login_owner [OF assms(1), of c] assms(3)
    count_where_list_update [OF assms(2), of "\<lambda>(input, ph). login_holds ph \<and> li_challengeId input = c" "(input, ph')"]
  by (simp add: owners_def)

lemma owners_reg:
  assumes "reg_next wa pe cfg u rin ph (px_db w) = (ph', db')" and "i < length (px_regs w)" and "px_regs w ! i = (u, rin, ph)"
  shows "owners c (w\<lparr>px_db := db', px_regs := (px_regs w)[i := (u, rin, ph')]\<rparr>) \<le> owners c w"
  using reg_owner [OF assms(1), of c] assms(3)
    count_where_list_update [OF assms(2), of "\<lambda>(u, rin, ph). reg_holds ph \<and> rg_challengeId rin = c" "(u, rin, ph')"]
  by (simp add: owners_def)

lemma login_challenges:
  assumes n: "login_next wa pe cfg input ph s = (ph', s')" and x: "map_of (ps_challenges s') k = Some x"
  shows "map_of (ps_challenges s) k = Some x"
proof (cases "ph = LoginConsume")
  case True
  obtain r s1 where c: "consume pe (li_challengeId input) s = (r, s1)" by fastforce
  have "s' = s \<or> s' = s1" using n True c by (auto simp: login_refused_def split: if_splits sum.splits option.splits)
  then show ?thesis using x consume_spec(4) [OF c] by (auto split: if_splits)
qed (use x login_next_frame [OF n] in simp)

lemma reg_challenges:
  assumes n: "reg_next wa pe cfg u rin ph s = (ph', s')" and x: "map_of (ps_challenges s') k = Some x"
  shows "map_of (ps_challenges s) k = Some x"
proof (cases "ph = RegConsume")
  case True
  obtain r s1 where c: "consume pe (rg_challengeId rin) s = (r, s1)" by fastforce
  have "s' = s \<or> s' = s1" using n True c
    by (auto simp: reg_failed_def split: if_splits sum.splits option.splits bool.splits prod.splits)
  then show ?thesis using x consume_spec(4) [OF c] by (auto split: if_splits)
qed (use x reg_next_frame [OF n] in simp)

text \<open>What a step of a login adds to what is known of it.\<close>

lemma login_fact_next:
  assumes ch: "challenges_ok w" and pk: "passkeys_ok wa cfg w" and f: "login_fact wa cfg w (input, ph)"
    and n: "login_next wa pe cfg input ph (px_db w) = (ph', db')"
  shows "login_fact wa cfg w (input, ph')"
proof (cases ph)
  case LoginConsume
  obtain r s1 where c: "consume pe (li_challengeId input) (px_db w) = (r, s1)" by fastforce
  show ?thesis
  proof (cases "login_holds ph'")
    case True
    then obtain x where x: "r = Inr (Some x)" "sc_type x = ForLogin" "ph' = LoginLookup (sc_challenge x)"
      using n LoginConsume c
      by (cases "sc_type (the (projr r))") (auto simp: login_refused_def split: if_splits sum.splits option.splits)
    have "\<exists>ti. (li_challengeId input, x, ti) \<in> set (px_issued w)"
      using consume_spec(5) [OF c x(1)] ch unfolding challenges_ok_def by fastforce
    then show ?thesis using x by (auto simp: login_fact_def)
  qed (simp add: login_fact_def)
next
  case (LoginLookup ch')
  then obtain e ti where e: "(li_challengeId input, e, ti) \<in> set (px_issued w)" "sc_type e = ForLogin" "ch' = sc_challenge e"
    using f by (auto simp: login_fact_def)
  have "login_holds ph' \<Longrightarrow> login_says wa cfg w input e ph'"
    using n LoginLookup pk e(3)
    by (auto simp: login_refused_def proved_def passkeys_ok_def find_Some_iff split: option.splits bool.splits prod.splits)
  then show ?thesis using e by (auto simp: login_fact_def)
next
  case (LoginOwner p info)
  then show ?thesis using f n by (auto simp: login_fact_def login_refused_def split: option.splits if_splits)
next
  case (LoginUpdate p info)
  then obtain e ti where e: "(li_challengeId input, e, ti) \<in> set (px_issued w)" "sc_type e = ForLogin" "proved wa cfg w input e p info"
    using f by (auto simp: login_fact_def)
  have "login_says wa cfg w input e (LoginDone (Inr (pk_userId p, pk_id p)))" using e(3) by auto
  then have "login_holds ph' \<Longrightarrow> login_says wa cfg w input e ph'"
    using n LoginUpdate by (auto simp: login_refused_def simp del: login_says.simps split: if_splits)
  then show ?thesis using e by (auto simp: login_fact_def)
next
  case (LoginDone r)
  then show ?thesis using f n by auto
qed

lemma reg_fact_next:
  assumes ch: "challenges_ok w" and f: "reg_fact wa cfg w (u, rin, ph)"
    and n: "reg_next wa pe cfg u rin ph (px_db w) = (ph', db')"
  shows "reg_fact wa cfg w (u, rin, ph')"
proof (cases ph)
  case RegConsume
  obtain r s1 where c: "consume pe (rg_challengeId rin) (px_db w) = (r, s1)" by fastforce
  show ?thesis
  proof (cases "reg_holds ph'")
    case True
    then obtain x info where x: "r = Inr (Some x)" "reg_proved wa cfg u rin x info" "ph' = RegLookup info"
      using n RegConsume c
      by (cases "sc_type (the (projr r))")
        (auto simp: reg_failed_def reg_proved_def split: if_splits sum.splits option.splits bool.splits prod.splits)
    have "\<exists>ti. (rg_challengeId rin, x, ti) \<in> set (px_issued w)"
      using consume_spec(5) [OF c x(1)] ch unfolding challenges_ok_def by fastforce
    then show ?thesis using x by (auto simp: reg_fact_def)
  qed (simp add: reg_fact_def)
next
  case (RegLookup info)
  then show ?thesis using f n by (auto simp: reg_fact_def split: if_splits)
next
  case (RegInsert info)
  then show ?thesis using f n by (auto simp: reg_fact_def Let_def split: if_splits)
next
  case (RegDone r)
  then show ?thesis using f n by auto
qed

lemma login_step_ok:
  assumes ok: "ceremonies_ok wa cfg (t, w)" and i: "i < length (px_logins w)" "px_logins w ! i = (input, ph)"
    and n: "login_next wa pe cfg input ph (px_db w) = (ph', db')"
  shows "ceremonies_ok wa cfg (t', w\<lparr>px_db := db', px_logins := (px_logins w)[i := (input, ph')]\<rparr>)"
proof -
  let ?w = "w\<lparr>px_db := db', px_logins := (px_logins w)[i := (input, ph')]\<rparr>"
  have g: "grows w ?w" by (simp add: grows_def)
  have ch: "challenges_ok w" and pk: "passkeys_ok wa cfg w" and f: "login_fact wa cfg w (input, ph)"
    using ok i nth_mem [OF i(1)] by (auto simp: ceremonies_ok_def)
  have "challenges_ok ?w"
    using ch by (rule challenges_shrink) (use owners_login [OF n i] login_challenges [OF n] in simp_all)
  moreover have "passkeys_ok wa cfg ?w"
  proof (cases "ps_rows db' = ps_rows (px_db w)")
    case True
    then show ?thesis by (intro passkeys_keep [OF pk g]) simp
  next
    case False
    with login_next_frame [OF n] have "\<exists>p info. ph = LoginUpdate p info \<and> ph' = LoginDone (Inr (pk_userId p, pk_id p)) \<and>
        ps_rows db' = update_where (\<lambda>q. pk_id q = pk_id p) (used_row pe info) (ps_rows (px_db w))" by simp
    then obtain p :: passkey_row and info where u: "ps_rows db' = update_where (\<lambda>q. pk_id q = pk_id p) (used_row pe info) (ps_rows (px_db w))"
      by blast
    have same: "pk_id (used_row pe info q) = pk_id q" "pk_credentialId (used_row pe info q) = pk_credentialId q"
      "pk_name (used_row pe info q) = pk_name q" "registered wa cfg w (used_row pe info q) = registered wa cfg w q" for q
      by (simp_all add: used_row_def registered_def)
    have "unique_table pk_id credential_clash (ps_rows db')"
      unfolding u update_where_def using pk
      by (intro passkey_table.map_rows) (auto simp: passkeys_ok_def unique_table_def credential_clash_def same)
    moreover have "registered wa cfg ?w q \<and> length (pk_name q) \<in> {1..64}" if "q \<in> set (ps_rows db')" for q
      using that pk registered_grows [OF _ g] by (auto simp: u update_where_def passkeys_ok_def same)
    ultimately show ?thesis by (simp add: passkeys_ok_def)
  qed
  moreover have "x \<in> set (px_logins w) \<or> login_fact wa cfg ?w x" if "x \<in> set (px_logins ?w)" for x
  proof -
    have "login_fact wa cfg ?w (input, ph')" using login_fact_grows [OF login_fact_next [OF ch pk f n] g] .
    then show ?thesis using that set_update_subset_insert [of "px_logins w" i "(input, ph')"] by auto
  qed
  moreover have "x \<in> set (px_regs w) \<or> reg_fact wa cfg ?w x" if "x \<in> set (px_regs ?w)" for x using that by simp
  ultimately show ?thesis by (intro ceremonies_intro [OF ok g])
qed

lemma name_length: "length (normalisePasskeyName pe name) \<in> {1..64}"
  by (auto simp: normalisePasskeyName_def PASSKEY_NAME_MAX_LENGTH_def Let_def Suc_le_eq)

lemma reg_step_ok:
  assumes ok: "ceremonies_ok wa cfg (t, w)" and i: "i < length (px_regs w)" "px_regs w ! i = (u, rin, ph)"
    and n: "reg_next wa pe cfg u rin ph (px_db w) = (ph', db')"
  shows "ceremonies_ok wa cfg (t', w\<lparr>px_db := db', px_regs := (px_regs w)[i := (u, rin, ph')]\<rparr>)"
proof -
  let ?w = "w\<lparr>px_db := db', px_regs := (px_regs w)[i := (u, rin, ph')]\<rparr>"
  have "(v, r, RegDone x) \<in> set ((px_regs w)[i := (u, rin, ph')])" if m: "(v, r, RegDone x) \<in> set (px_regs w)" for v r x
  proof -
    obtain j where j: "j < length (px_regs w)" "px_regs w ! j = (v, r, RegDone x)" using m by (auto simp: in_set_conv_nth)
    then have "(px_regs w)[i := (u, rin, ph')] ! j = (v, r, RegDone x)" using i n by (cases "i = j") auto
    then show ?thesis using j(1) by (metis length_list_update nth_mem)
  qed
  then have g: "grows w ?w" by (simp add: grows_def)
  have ch: "challenges_ok w" and pk: "passkeys_ok wa cfg w" and f: "reg_fact wa cfg w (u, rin, ph)"
    using ok i nth_mem [OF i(1)] by (auto simp: ceremonies_ok_def)
  have "challenges_ok ?w"
    using ch by (rule challenges_shrink) (use owners_reg [OF n i] reg_challenges [OF n] in simp_all)
  moreover have "passkeys_ok wa cfg ?w"
  proof (cases "ps_rows db' = ps_rows (px_db w)")
    case True
    then show ?thesis by (intro passkeys_keep [OF pk g]) simp
  next
    case False
    then obtain info where d: "ph = RegInsert info" "ph' = RegDone (Inr (toPasskeyDto (new_passkey_row pe u rin info)))"
      "\<not> list_ex (\<lambda>p. pk_credentialId p = ci_id (ri_credential info) \<or> pk_id p = pe_cuid pe) (ps_rows (px_db w))"
      "ps_rows db' = ps_rows (px_db w) @ [new_passkey_row pe u rin info]"
      using reg_next_frame [OF n] by blast
    let ?p = "new_passkey_row pe u rin info"
    have cols: "pk_id ?p = pe_cuid pe" "pk_userId ?p = u" "pk_credentialId ?p = ci_id (ri_credential info)"
      "pk_publicKey ?p = ci_publicKey (ri_credential info)" "pd_id (toPasskeyDto ?p) = pk_id ?p" "length (pk_name ?p) \<in> {1..64}"
      using name_length by (simp_all add: new_passkey_row_def toPasskeyDto_def Let_def)
    obtain e ti where "(rg_challengeId rin, e, ti) \<in> set (px_issued w)" "reg_proved wa cfg u rin e info"
      using f d(1) by (auto simp: reg_fact_def)
    moreover have "(u, rin, RegDone (Inr (toPasskeyDto ?p))) \<in> set (px_regs ?w)"
      using i(1) by (simp add: d(2) set_update_memI)
    ultimately have "registered wa cfg ?w ?p" unfolding registered_def cols by (simp, metis cols(1,5))
    moreover have "unique_table pk_id credential_clash (ps_rows db')"
      unfolding d(4) using pk d(3)
      by (intro passkey_table.insert_row) (auto simp: passkeys_ok_def list_ex_iff cols credential_clash_def)
    ultimately show ?thesis using pk registered_grows [OF _ g] cols(6) by (auto simp: passkeys_ok_def d(4))
  qed
  moreover have "x \<in> set (px_regs w) \<or> reg_fact wa cfg ?w x" if "x \<in> set (px_regs ?w)" for x
  proof -
    have "reg_fact wa cfg ?w (u, rin, ph')" using reg_fact_grows [OF reg_fact_next [OF ch f n] g] .
    then show ?thesis using that set_update_subset_insert [of "px_regs w" i "(u, rin, ph')"] by auto
  qed
  moreover have "x \<in> set (px_logins w) \<or> login_fact wa cfg ?w x" if "x \<in> set (px_logins ?w)" for x using that by simp
  ultimately show ?thesis by (intro ceremonies_intro [OF ok g])
qed

text \<open>Managing passkeys keeps challenges and ceremonies.\<close>

lemma manage_ok:
  assumes ok: "ceremonies_ok wa cfg (t, w)" and "ps_challenges db' = ps_challenges (px_db w)"
    and "\<And>w'. grows w w' \<Longrightarrow> px_db w' = db' \<Longrightarrow> passkeys_ok wa cfg w'"
  shows "ceremonies_ok wa cfg (t', w\<lparr>px_db := db'\<rparr>)"
proof -
  have g: "grows w (w\<lparr>px_db := db'\<rparr>)" by (simp add: grows_def)
  have "challenges_ok w" using ok by (simp add: ceremonies_ok_def)
  then have "challenges_ok (w\<lparr>px_db := db'\<rparr>)"
    by (rule challenges_shrink) (simp_all add: owners_def stored_in_def assms(2))
  moreover have "passkeys_ok wa cfg (w\<lparr>px_db := db'\<rparr>)" using assms(3) [OF g] by simp
  ultimately show ?thesis by (rule ceremonies_intro [OF ok g]) simp_all
qed

lemma rename_rows_ok:
  assumes pk: "passkeys_ok wa cfg w" and g: "grows w w'" and db: "px_db w' = snd (renamePasskey u k name (px_db w))"
  shows "passkeys_ok wa cfg w'"
proof (cases "ps_rows (px_db w') = ps_rows (px_db w)")
  case True
  then show ?thesis by (rule passkeys_keep [OF pk g])
next
  case False
  let ?f = "\<lambda>p. p\<lparr>pk_name := trim name\<rparr>"
  have len: "length (trim name) \<in> {1..64}"
    using False by (auto simp: db renamePasskey_def Let_def PASSKEY_NAME_MAX_LENGTH_def Suc_le_eq split: if_splits)
  obtain r where "findOwnedPasskey u k (px_db w) = Inr r"
    using False by (cases "findOwnedPasskey u k (px_db w)") (auto simp: db renamePasskey_def Let_def split: if_splits)
  then have u: "ps_rows (px_db w') = update_where (\<lambda>p. pk_id p = pk_id r) ?f (ps_rows (px_db w))"
    using False by (auto simp: db renamePasskey_def Let_def split: if_splits)
  have "unique_table pk_id credential_clash (ps_rows (px_db w'))"
    unfolding u update_where_def using pk
    by (intro passkey_table.map_rows) (auto simp: passkeys_ok_def unique_table_def credential_clash_def)
  moreover have "registered wa cfg w (?f q) = registered wa cfg w q" for q by (simp add: registered_def)
  then have "registered wa cfg w' q \<and> length (pk_name q) \<in> {1..64}" if "q \<in> set (ps_rows (px_db w'))" for q
    using that pk len registered_grows [OF _ g] by (auto simp: u update_where_def passkeys_ok_def)
  ultimately show ?thesis by (simp add: passkeys_ok_def)
qed

lemma remove_rows_ok:
  assumes pk: "passkeys_ok wa cfg w" and g: "grows w w'" and db: "px_db w' = snd (removePasskey u k (px_db w))"
  shows "passkeys_ok wa cfg w'"
proof -
  have "\<exists>q. ps_rows (px_db w') = filter q (ps_rows (px_db w))"
  proof (cases "findOwnedPasskey u k (px_db w)")
    case (Inl err)
    then show ?thesis by (intro exI [of _ "\<lambda>_. True"]) (simp add: db removePasskey_def)
  next
    case (Inr r)
    then show ?thesis by (intro exI [of _ "\<lambda>p. pk_id p \<noteq> pk_id r"]) (simp add: db removePasskey_def delete_where_def)
  qed
  then obtain q where q: "ps_rows (px_db w') = filter q (ps_rows (px_db w))" by blast
  have "distinct (map pk_id (filter q (ps_rows (px_db w))))"
    using pk by (simp add: passkeys_ok_def unique_table_def distinct_map_filter)
  then have "unique_table pk_id credential_clash (ps_rows (px_db w'))"
    using pk by (auto simp: q passkeys_ok_def unique_table_def)
  then show ?thesis using pk registered_grows [OF _ g] by (auto simp: q passkeys_ok_def)
qed

lemma manage_challenges:
  "ps_challenges (snd (renamePasskey u k name s)) = ps_challenges s" "ps_challenges (snd (removePasskey u k s)) = ps_challenges s"
  by (auto simp: renamePasskey_def removePasskey_def Let_def split: sum.splits)

lemma step_ceremonies:
  assumes ok: "ceremonies_ok wa cfg tw" and "passkey_step wa cfg tw tw'"
  shows "ceremonies_ok wa cfg tw'"
  using assms(2)
proof (cases rule: passkey_step.cases)
  case (start_register t pe u w c opts db')
  have "create_challenge pe \<lparr>sc_challenge = op_challenge opts, sc_type = ForRegister, sc_userId = Some u\<rparr> (px_db w) = (Inr c, db')"
    using start_register(4) by (auto simp: startRegistration_def Let_def split: if_splits option.splits prod.splits sum.splits)
  then show ?thesis using ok start_register(1,2,5) by (auto intro: start_ok)
next
  case (start_login t pe w c ch db')
  have "create_challenge pe \<lparr>sc_challenge = ch, sc_type = ForLogin, sc_userId = None\<rparr> (px_db w) = (Inr c, db')"
    using start_login(4) by (auto simp: startLogin_def split: if_splits prod.splits sum.splits)
  then show ?thesis using ok start_login(1,2,5) by (auto intro: start_ok)
next
  case (login_arrives t w input)
  let ?w = "w\<lparr>px_logins := px_logins w @ [(input, LoginConsume)]\<rparr>"
  have ok': "ceremonies_ok wa cfg (t, w)" using ok login_arrives(1) by simp
  then have ch: "challenges_ok w" and pk: "passkeys_ok wa cfg w" by (simp_all add: ceremonies_ok_def)
  have g: "grows w ?w" by (simp add: grows_def)
  have "challenges_ok ?w" using ch by (rule challenges_shrink) (simp_all add: owners_def, simp add: count_where_def)
  moreover have "passkeys_ok wa cfg ?w" by (rule passkeys_keep [OF pk g]) simp
  moreover have "x \<in> set (px_logins w) \<or> login_fact wa cfg ?w x" if "x \<in> set (px_logins ?w)" for x
    using that by (auto simp: login_fact_def)
  moreover have "x \<in> set (px_regs w) \<or> reg_fact wa cfg ?w x" if "x \<in> set (px_regs ?w)" for x
    using that by (auto simp: reg_fact_def)
  ultimately have "ceremonies_ok wa cfg (t, ?w)" by (intro ceremonies_intro [OF ok' g])
  then show ?thesis using login_arrives(2) by simp
next
  case (register_arrives t w u rin)
  let ?w = "w\<lparr>px_regs := px_regs w @ [(u, rin, RegConsume)]\<rparr>"
  have ok': "ceremonies_ok wa cfg (t, w)" using ok register_arrives(1) by simp
  then have ch: "challenges_ok w" and pk: "passkeys_ok wa cfg w" by (simp_all add: ceremonies_ok_def)
  have g: "grows w ?w" by (simp add: grows_def)
  have "challenges_ok ?w" using ch by (rule challenges_shrink) (simp_all add: owners_def, simp add: count_where_def)
  moreover have "passkeys_ok wa cfg ?w" by (rule passkeys_keep [OF pk g]) simp
  moreover have "x \<in> set (px_logins w) \<or> login_fact wa cfg ?w x" if "x \<in> set (px_logins ?w)" for x
    using that by (auto simp: login_fact_def)
  moreover have "x \<in> set (px_regs w) \<or> reg_fact wa cfg ?w x" if "x \<in> set (px_regs ?w)" for x
    using that by (auto simp: reg_fact_def)
  ultimately have "ceremonies_ok wa cfg (t, ?w)" by (intro ceremonies_intro [OF ok' g])
  then show ?thesis using register_arrives(2) by simp
next
  case (login_advances t pe i w input ph ph' db')
  then show ?thesis using ok login_step_ok by blast
next
  case (register_advances t pe i w u rin rph rph' db')
  then show ?thesis using ok reg_step_ok by blast
next
  case (renames t w u k name)
  then have "passkeys_ok wa cfg w" using ok by (simp add: ceremonies_ok_def)
  then show ?thesis using ok rename_rows_ok unfolding renames by (intro manage_ok) (auto simp: manage_challenges)
next
  case (removes t w u k)
  then have "passkeys_ok wa cfg w" using ok by (simp add: ceremonies_ok_def)
  then show ?thesis using ok remove_rows_ok unfolding removes by (intro manage_ok) (auto simp: manage_challenges)
next
  case (users_change t w us)
  then have pk: "passkeys_ok wa cfg w" using ok by (simp add: ceremonies_ok_def)
  have "passkeys_ok wa cfg w'" if "grows w w'" "px_db w' = (px_db w)\<lparr>ps_users := us\<rparr>" for w'
    by (rule passkeys_keep [OF pk that(1)]) (simp add: that(2))
  then show ?thesis using ok unfolding users_change by (intro manage_ok) simp_all
qed

interpretation ceremony_life: lifecycle "passkey_step wa cfg" "ceremonies_ok wa cfg" for wa cfg
  by unfold_locales (rule step_ceremonies)

section \<open>Properties\<close>

definition passkey_start :: "user_row list \<Rightarrow> passkey_world" where
  "passkey_start us = \<lparr>px_db = \<lparr>ps_rows = [], ps_challenges = [], ps_users = us, ps_mails = []\<rparr>, px_issued = [],
     px_logins = [], px_regs = []\<rparr>"

lemma start_ceremonies: "ceremonies_ok wa cfg (t, passkey_start us)"
  by (simp add: ceremonies_ok_def challenges_ok_def passkeys_ok_def passkey_start_def owners_def stored_in_def count_where_def
      unique_table_def)

text \<open>How often a challenge was answered with success.\<close>

definition login_answers :: "string \<Rightarrow> passkey_world \<Rightarrow> nat" where
  "login_answers c w = count_where (\<lambda>(input, ph). li_challengeId input = c \<and> (\<exists>a. ph = LoginDone (Inr a))) (px_logins w)"

definition reg_answers :: "string \<Rightarrow> passkey_world \<Rightarrow> nat" where
  "reg_answers c w = count_where (\<lambda>(u, rin, ph). rg_challengeId rin = c \<and> (\<exists>a. ph = RegDone (Inr a))) (px_regs w)"

lemma count_where_le: "(\<And>x. p x \<Longrightarrow> q x) \<Longrightarrow> count_where p xs \<le> count_where q xs"
  unfolding count_where_def by (induction xs) auto

lemma answers_owners: "login_answers c w + reg_answers c w \<le> owners c w"
proof -
  have "login_answers c w \<le> count_where (\<lambda>(input, ph). login_holds ph \<and> li_challengeId input = c) (px_logins w)"
    unfolding login_answers_def by (rule count_where_le) auto
  moreover have "reg_answers c w \<le> count_where (\<lambda>(u, rin, ph). reg_holds ph \<and> rg_challengeId rin = c) (px_regs w)"
    unfolding reg_answers_def by (rule count_where_le) auto
  ultimately show ?thesis by (simp add: owners_def)
qed

text \<open>
  C30. A challenge serves once, and a sign-in proves the right key. However registrations, sign-ins, renamings,
  removals and changes of accounts interleave, statement by statement: at most one request per challenge is
  answered with success; whoever is signed in as a user with a passkey answered a sign-in challenge the server
  had issued, with an assertion the verifier accepted for that challenge under the public key of that passkey;
  and that passkey came from a registration ceremony the same user had started and finished.
\<close>

theorem passkey_agreement:
  assumes "reaches (passkey_step wa cfg) (t0, passkey_start us) (t, w)"
  shows "login_answers c w + reg_answers c w \<le> 1 \<and>
    ((input, LoginDone (Inr (u, k))) \<in> set (px_logins w) \<longrightarrow>
      (\<exists>e ti p info. (li_challengeId input, e, ti) \<in> set (px_issued w) \<and> sc_type e = ForLogin \<and>
         pk_userId p = u \<and> pk_id p = k \<and> registered wa cfg w p \<and>
         verifyAuthenticationResponse wa (li_response input) (sc_challenge e) (pc_origins cfg) (pc_rpId cfg) (credential_of p)
           = Some (True, info)))"
proof -
  have ok: "ceremonies_ok wa cfg (t, w)" using assms start_ceremonies by (rule ceremony_life.reaches_good)
  then have "owners c w \<le> 1" by (simp add: ceremonies_ok_def challenges_ok_def)
  moreover have "login_fact wa cfg w (input, LoginDone (Inr (u, k)))" if "(input, LoginDone (Inr (u, k))) \<in> set (px_logins w)"
    using ok that by (auto simp: ceremonies_ok_def)
  ultimately show ?thesis using answers_owners [of c w] by (fastforce simp: login_fact_def proved_def)
qed

text \<open>
  C31. The passkey table. Over the same runs no two passkeys share an id or a credential, every passkey stems from a
  finished ceremony of its account, and its name has one to sixty-four characters.
\<close>

theorem passkey_invariant:
  assumes "reaches (passkey_step wa cfg) (t0, passkey_start us) (t, w)"
  shows "distinct (map pk_id (ps_rows (px_db w))) \<and> distinct (map pk_credentialId (ps_rows (px_db w))) \<and>
    (\<forall>p \<in> set (ps_rows (px_db w)). registered wa cfg w p \<and> 1 \<le> length (pk_name p) \<and> length (pk_name p) \<le> 64)"
proof -
  have "ceremonies_ok wa cfg (t, w)" using assms start_ceremonies by (rule ceremony_life.reaches_good)
  then have pk: "passkeys_ok wa cfg w" by (simp add: ceremonies_ok_def)
  then have u: "unique_table pk_id credential_clash (ps_rows (px_db w))" by (simp add: passkeys_ok_def)
  have "p = q" if "p \<in> set (ps_rows (px_db w))" "q \<in> set (ps_rows (px_db w))" "pk_credentialId p = pk_credentialId q" for p q
  proof -
    have "\<not> credential_clash p q" using u that by (simp add: unique_table_def)
    then have "pk_id p = pk_id q" using that(3) by (simp add: credential_clash_def)
    then show ?thesis using passkey_table.same_row [OF u] that(1,2) by blast
  qed
  then have "inj_on pk_credentialId (set (ps_rows (px_db w)))" by (auto intro: inj_onI)
  then show ?thesis using u pk by (auto simp: distinct_map unique_table_def passkeys_ok_def)
qed

text \<open>A demonstration: the verifier accepts what repeats the challenge and counts up.\<close>

definition demo_webauthn :: webauthn where
  "demo_webauthn = \<lparr>verifyRegistrationResponse = (\<lambda>r ch origins rp.
       Some (cr_data r = ch, Some \<lparr>ri_credential = \<lparr>ci_id = ''cred'', ci_publicKey = ''key'', ci_counter = 0, ci_transports = None\<rparr>,
         ri_aaguid = ''aa'', ri_deviceType = ''multiDevice'', ri_backedUp = True\<rparr>)),
     verifyAuthenticationResponse = (\<lambda>r ch origins rp c.
       Some (cr_data r = ch, \<lparr>ai_newCounter = ci_counter c + 1, ai_backedUp = True\<rparr>))\<rparr>"

definition demo_rp :: passkey_config where
  "demo_rp = \<lparr>pc_rpId = ''app'', pc_rpName = ''App'', pc_origins = [''https'']\<rparr>"

definition demo_pe :: "string \<Rightarrow> passkey_env" where
  "demo_pe s = \<lparr>pe_clock = 5, pe_redis = True, pe_bytes = s, pe_cuid = ''k'' @ s, pe_challenge = ''ch-'' @ s, pe_isoDate = ''2026-01-01T00''\<rparr>"

datatype passkey_cmd =
    DoStartRegister id
  | DoStartLogin
  | DoLogin login_input
  | DoRegister id register_input
  | DoStepLogin nat
  | DoStepRegister nat

fun play :: "webauthn \<Rightarrow> passkey_config \<Rightarrow> passkey_env \<times> passkey_cmd \<Rightarrow> passkey_world \<Rightarrow> passkey_world" where
  "play wa cfg (pe, DoStartRegister u) w =
     (case startRegistration pe cfg u (px_db w) of
        (Inr (c, opts), db') \<Rightarrow> if c \<in> fst ` set (px_issued w) then w
          else w\<lparr>px_db := db', px_issued := px_issued w @ [(c, \<lparr>sc_challenge = op_challenge opts, sc_type = ForRegister, sc_userId = Some u\<rparr>, pe_clock pe)]\<rparr>
      | _ \<Rightarrow> w)"
| "play wa cfg (pe, DoStartLogin) w =
     (case startLogin pe cfg (px_db w) of
        (Inr (c, ch), db') \<Rightarrow> if c \<in> fst ` set (px_issued w) then w
          else w\<lparr>px_db := db', px_issued := px_issued w @ [(c, \<lparr>sc_challenge = ch, sc_type = ForLogin, sc_userId = None\<rparr>, pe_clock pe)]\<rparr>
      | _ \<Rightarrow> w)"
| "play wa cfg (pe, DoLogin input) w = w\<lparr>px_logins := px_logins w @ [(input, LoginConsume)]\<rparr>"
| "play wa cfg (pe, DoRegister u rin) w = w\<lparr>px_regs := px_regs w @ [(u, rin, RegConsume)]\<rparr>"
| "play wa cfg (pe, DoStepLogin i) w =
     (if i < length (px_logins w)
      then case px_logins w ! i of (input, ph) \<Rightarrow> case login_next wa pe cfg input ph (px_db w) of
          (ph', db') \<Rightarrow> w\<lparr>px_db := db', px_logins := (px_logins w)[i := (input, ph')]\<rparr>
      else w)"
| "play wa cfg (pe, DoStepRegister i) w =
     (if i < length (px_regs w)
      then case px_regs w ! i of (u, rin, ph) \<Rightarrow> case reg_next wa pe cfg u rin ph (px_db w) of
          (ph', db') \<Rightarrow> w\<lparr>px_db := db', px_regs := (px_regs w)[i := (u, rin, ph')]\<rparr>
      else w)"

lemma play_step: "pe_clock pe = t \<Longrightarrow> play wa cfg (pe, cmd) w = w \<or> passkey_step wa cfg (t, w) (t, play wa cfg (pe, cmd) w)"
proof (cases cmd)
  case (DoStartRegister u)
  assume t: "pe_clock pe = t"
  show ?thesis using start_register [of t pe cfg u w] t DoStartRegister by (auto split: prod.split sum.split)
next
  case DoStartLogin
  assume t: "pe_clock pe = t"
  show ?thesis using start_login [of t pe cfg w] t DoStartLogin by (auto split: prod.split sum.split)
next
  case (DoStepLogin i)
  assume t: "pe_clock pe = t"
  show ?thesis using login_advances [of t pe i w] t DoStepLogin by (auto split: prod.split)
next
  case (DoStepRegister i)
  assume t: "pe_clock pe = t"
  show ?thesis using register_advances [of t pe i w] t DoStepRegister by (auto split: prod.split)
qed (auto intro: login_arrives register_arrives)

lemma play_reaches:
  "list_all (\<lambda>(pe, cmd). pe_clock pe = t) cmds \<Longrightarrow> reaches (passkey_step wa cfg) (t, w) (t, fold (play wa cfg) cmds w)"
proof (induction cmds rule: rev_induct)
  case Nil
  then show ?case by (simp add: reaches_refl)
next
  case (snoc x xs)
  obtain pe cmd where x: "x = (pe, cmd)" by (cases x)
  then have r: "reaches (passkey_step wa cfg) (t, w) (t, fold (play wa cfg) xs w)" and "pe_clock pe = t" using snoc by auto
  then show ?case using play_step [of pe t wa cfg cmd "fold (play wa cfg) xs w"] reaches_step [OF r] x by auto
qed

definition demo_response :: "string \<Rightarrow> client_response" where
  "demo_response ch = \<lparr>cr_id = Some ''cred'', cr_transports = None, cr_data = ch\<rparr>"

definition demo_login :: "string \<Rightarrow> login_input" where
  "demo_login s = \<lparr>li_challengeId = ''c_'' @ s, li_response = demo_response (''ch-'' @ s)\<rparr>"

definition demo_rin :: register_input where
  "demo_rin = \<lparr>rg_challengeId = ''c_a'', rg_name = None, rg_response = demo_response ''ch-a''\<rparr>"

definition demo_registered :: "(passkey_env \<times> passkey_cmd) list" where
  "demo_registered = map (Pair (demo_pe ''a'')) [DoStartRegister 8, DoRegister 8 demo_rin, DoStepRegister 0, DoStepRegister 0, DoStepRegister 0]"

definition demo_ceremonies :: passkey_world where
  "demo_ceremonies = fold (play demo_webauthn demo_rp)
     (demo_registered @ map (Pair (demo_pe ''b'')) [DoStartLogin, DoLogin (demo_login ''b''), DoStepLogin 0, DoStepLogin 0, DoStepLogin 0, DoStepLogin 0])
     (passkey_start [demo_helper])"

lemma demo_ceremonies_run: "reaches (passkey_step demo_webauthn demo_rp) (5, passkey_start [demo_helper]) (5, demo_ceremonies)"
  unfolding demo_ceremonies_def by (rule play_reaches) (simp add: demo_registered_def demo_pe_def)

lemma demo_signed_in: "px_logins demo_ceremonies = [(demo_login ''b'', LoginDone (Inr (8, ''ka'')))]"
  by code_simp

theorem passkey_agreement_witness:
  "\<exists>p. pk_userId p = 8 \<and> pk_id p = ''ka'' \<and> registered demo_webauthn demo_rp demo_ceremonies p"
  using passkey_agreement [OF demo_ceremonies_run, of "[]" "demo_login ''b''" 8 "''ka''"] demo_signed_in by auto

theorem passkey_invariant_witness:
  "distinct (map pk_credentialId (ps_rows (px_db demo_ceremonies))) \<and> map pk_id (ps_rows (px_db demo_ceremonies)) = [''ka'']"
proof -
  have "map pk_id (ps_rows (px_db demo_ceremonies)) = [''ka'']" by code_simp
  then show ?thesis using passkey_invariant [OF demo_ceremonies_run] by blast
qed

section \<open>One sign-in from start to end\<close>

text \<open>Each phase ends the run or hands on to the next.\<close>

lemma refused_stays [simp]: "login_next wa pe cfg input (login_refused err) s = (login_refused err, s)"
  by (simp add: login_refused_def)

lemma finishLogin_code:
  "finishLogin wa pe cfg input s =
     (if \<not> pc_enabled cfg then (Inl (Refused passkeys_not_configured), s)
      else case consume pe (li_challengeId input) s of
        (Inl err, s1) \<Rightarrow> (Inl (Refused err), s1)
      | (Inr None, s1) \<Rightarrow> (Inl (Refused unknownChallenge), s1)
      | (Inr (Some stored), s1) \<Rightarrow>
          if sc_type stored \<noteq> ForLogin then (Inl (Refused unknownChallenge), s1)
          else if \<not> truthy_str (cr_id (li_response input)) then (Inl (Refused unknownCredential), s1)
          else case List.find (\<lambda>p. cr_id (li_response input) = Some (pk_credentialId p)) (ps_rows s1) of
            None \<Rightarrow> (Inl (Refused unknownCredential), s1)
          | Some p \<Rightarrow>
              (case verifyAuthenticationResponse wa (li_response input) (sc_challenge stored) (pc_origins cfg) (pc_rpId cfg) (credential_of p) of
                 Some (True, info) \<Rightarrow>
                   (case find_row u_id (pk_userId p) (ps_users s1) of
                      None \<Rightarrow> (Inl (Refused (UnauthorizedException ''User not found'')), s1)
                    | Some owner \<Rightarrow>
                        if \<not> u_emailVerified owner then (Inl (EmailNotVerified (u_email owner)), s1)
                        else (Inr (pk_userId p, pk_id p),
                          s1\<lparr>ps_rows := update_where (\<lambda>q. pk_id q = pk_id p) (used_row pe info) (ps_rows s1)\<rparr>))
               | _ \<Rightarrow> (Inl (Refused verificationFailed), s1)))"
proof -
  have mem: "list_ex (\<lambda>q. pk_id q = pk_id p) rows" if "List.find f rows = Some p" for f rows and p :: passkey_row
    using that by (auto simp: find_Some_iff list_ex_iff)
  show ?thesis
    by (auto simp: finishLogin_def login_refused_def mem
        split: prod.split sum.split option.split bool.split)
qed

lemma found_passkey: "List.find f rows = Some p \<Longrightarrow> p \<in> set rows \<and> f p"
  by (auto simp: find_Some_iff)

lemma login_success:
  assumes "finishLogin wa pe cfg input s = (Inr (u, k), s')"
  shows "\<exists>stored expires p info owner.
    map_of (ps_challenges s) (challenge_key (li_challengeId input)) = Some (Some stored, expires) \<and>
    pe_clock pe < expires \<and> sc_type stored = ForLogin \<and>
    map_of (ps_challenges s') (challenge_key (li_challengeId input)) = None \<and>
    p \<in> set (ps_rows s) \<and> u = pk_userId p \<and> k = pk_id p \<and> cr_id (li_response input) = Some (pk_credentialId p) \<and>
    verifyAuthenticationResponse wa (li_response input) (sc_challenge stored) (pc_origins cfg) (pc_rpId cfg) (credential_of p)
      = Some (True, info) \<and>
    find_row u_id u (ps_users s) = Some owner \<and> u_emailVerified owner \<and>
    ps_rows s' = update_where (\<lambda>q. pk_id q = k) (used_row pe info) (ps_rows s)"
proof -
  obtain r s1 where c: "consume pe (li_challengeId input) s = (r, s1)" by fastforce
  obtain stored where st: "r = Inr (Some stored)" "sc_type stored = ForLogin"
    using assms c by (auto simp: finishLogin_code split: if_splits sum.splits option.splits)
  obtain p where p: "List.find (\<lambda>p. cr_id (li_response input) = Some (pk_credentialId p)) (ps_rows s1) = Some p"
    using assms c st by (auto simp: finishLogin_code split: if_splits option.splits)
  obtain info where v: "verifyAuthenticationResponse wa (li_response input) (sc_challenge stored) (pc_origins cfg) (pc_rpId cfg)
      (credential_of p) = Some (True, info)"
    using assms c st p by (auto simp: finishLogin_code split: if_splits option.splits bool.splits)
  obtain owner where o: "find_row u_id (pk_userId p) (ps_users s1) = Some owner" "u_emailVerified owner" "u = pk_userId p" "k = pk_id p"
    "s' = s1\<lparr>ps_rows := update_where (\<lambda>q. pk_id q = pk_id p) (used_row pe info) (ps_rows s1)\<rparr>"
    using assms c st p v by (auto simp: finishLogin_code split: if_splits option.splits)
  obtain expires where "map_of (ps_challenges s) (challenge_key (li_challengeId input)) = Some (Some stored, expires)"
    "pe_clock pe < expires" "map_of (ps_challenges s1) (challenge_key (li_challengeId input)) = None"
    using consume_spec(5) [OF c st(1)] by auto
  then show ?thesis using st(2) v o found_passkey [OF p] consume_spec(1,2) [OF c]
    by (intro exI [of _ stored] exI [of _ expires] exI [of _ p] exI [of _ info] exI [of _ owner]) simp
qed

lemma login_refusal:
  assumes "finishLogin wa pe cfg input s = (Inl refusal, s')"
  shows "ps_rows s' = ps_rows s"
  using assms consume_spec(1) [of pe "li_challengeId input" s]
  by (auto simp: finishLogin_code split: if_splits sum.splits option.splits bool.splits prod.splits)

text \<open>
  A sign-in on its own. A refused one leaves every passkey as it was, also when only the e-mail address is not
  verified. A successful one had an unexpired sign-in challenge, which is gone afterwards, a known credential, an
  assertion accepted for that challenge and key, and an existing owner with a verified address; it writes exactly
  the counter, the time and the backup flag of that passkey.
\<close>

theorem passkey_login_effects:
  "case finishLogin wa pe cfg input s of
     (Inl refusal, s') \<Rightarrow> ps_rows s' = ps_rows s
   | (Inr (u, k), s') \<Rightarrow>
       (\<exists>stored expires p info owner.
          map_of (ps_challenges s) (challenge_key (li_challengeId input)) = Some (Some stored, expires) \<and>
          pe_clock pe < expires \<and> sc_type stored = ForLogin \<and>
          map_of (ps_challenges s') (challenge_key (li_challengeId input)) = None \<and>
          p \<in> set (ps_rows s) \<and> u = pk_userId p \<and> k = pk_id p \<and> cr_id (li_response input) = Some (pk_credentialId p) \<and>
          verifyAuthenticationResponse wa (li_response input) (sc_challenge stored) (pc_origins cfg) (pc_rpId cfg) (credential_of p)
            = Some (True, info) \<and>
          find_row u_id u (ps_users s) = Some owner \<and> u_emailVerified owner \<and>
          ps_rows s' = update_where (\<lambda>q. pk_id q = k) (used_row pe info) (ps_rows s))"
proof (cases "finishLogin wa pe cfg input s")
  case (Pair r s')
  show ?thesis
  proof (cases r)
    case (Inl refusal)
    then show ?thesis using login_refusal Pair by fastforce
  next
    case (Inr a)
    obtain u k where "a = (u, k)" by fastforce
    then show ?thesis using login_success [of wa pe cfg input s u k s'] Pair Inr by simp
  qed
qed

section \<open>The counter under interleaving\<close>

text \<open>
  The counter of the stored passkey is read in one statement and written in another. Two assertions of the same
  counter value, as an authenticator and its clone give them, are both accepted when the second one reads before
  the first one writes; one after the other the second is refused.
\<close>

definition counting_webauthn :: webauthn where
  "counting_webauthn = demo_webauthn\<lparr>verifyAuthenticationResponse := (\<lambda>r ch origins rp c.
     if cr_data r = ch \<and> ci_counter c < 1 then Some (True, \<lparr>ai_newCounter = 1, ai_backedUp = True\<rparr>) else None)\<rparr>"

definition two_logins :: "nat list \<Rightarrow> passkey_world" where
  "two_logins order = fold (play counting_webauthn demo_rp)
     (demo_registered @ map (Pair (demo_pe ''b'')) [DoStartLogin, DoLogin (demo_login ''b'')] @
      map (Pair (demo_pe ''d'')) ([DoStartLogin, DoLogin (demo_login ''d'')] @ map DoStepLogin order)) (passkey_start [demo_helper])"

theorem counter_race:
  "counter_checked counting_webauthn \<and>
   map snd (px_logins (two_logins [0, 0, 1, 1, 0, 0, 1, 1])) = [LoginDone (Inr (8, ''ka'')), LoginDone (Inr (8, ''ka''))] \<and>
   map snd (px_logins (two_logins [0, 0, 0, 0, 1, 1, 1, 1])) = [LoginDone (Inr (8, ''ka'')), login_refused verificationFailed]"
proof (intro conjI)
  show "counter_checked counting_webauthn" by (auto simp: counter_checked_def counting_webauthn_def split: if_splits)
  show "map snd (px_logins (two_logins [0, 0, 1, 1, 0, 0, 1, 1])) = [LoginDone (Inr (8, ''ka'')), LoginDone (Inr (8, ''ka''))]"
    by code_simp
  show "map snd (px_logins (two_logins [0, 0, 0, 0, 1, 1, 1, 1])) = [LoginDone (Inr (8, ''ka'')), login_refused verificationFailed]"
    by code_simp
qed

text \<open>Without interleaving a login raises the counter of its passkey, or both are zero.\<close>

lemma login_counter:
  assumes "counter_checked wa" and "finishLogin wa pe cfg input s = (Inr (u, k), s')"
  shows "\<exists>p info. p \<in> set (ps_rows s) \<and> pk_id p = k \<and> ps_rows s' = update_where (\<lambda>q. pk_id q = k) (used_row pe info) (ps_rows s) \<and>
    (pk_counter p < ai_newCounter info \<or> pk_counter p = 0 \<and> ai_newCounter info = 0)"
proof -
  obtain stored :: stored_challenge and p info where "p \<in> set (ps_rows s)" "k = pk_id p"
    "ps_rows s' = update_where (\<lambda>q. pk_id q = k) (used_row pe info) (ps_rows s)"
    and v: "verifyAuthenticationResponse wa (li_response input) (sc_challenge stored) (pc_origins cfg) (pc_rpId cfg) (credential_of p)
      = Some (True, info)"
    using login_success [OF assms(2)] by blast
  moreover have "ci_counter (credential_of p) = pk_counter p" by (simp add: credential_of_def)
  ultimately show ?thesis using assms(1) v unfolding counter_checked_def by metis
qed

end
