(* ===== verification/Account.thy ===== *)
theory Account
  imports Guards
begin

text \<open>
  Accounts (\<open>src/user/user.service.ts\<close> with \<open>src/shared/helpers\<close>): the directory of users, roles, gates and
  credentials, creating, updating and deleting accounts, role resolution, listing, and the listeners that
  send account mail. The sign-up and hashing of the authentication package, the relation writes of the
  database client, its date syntax and the mail provider are fields of \<open>directory_env\<close>.
\<close>

section \<open>State\<close>

record account_row =
  ac_id :: id
  ac_name :: string
  ac_firstName :: string
  ac_lastName :: string
  ac_email :: string
  ac_emailVerified :: bool
  ac_image :: "string option"
  ac_createdAt :: time
  ac_updatedAt :: time
  ac_banned :: bool
  ac_banReason :: "string option"
  ac_banExpires :: "time option"
  ac_settings :: "json option"
  ac_meta :: "json option"

record credential_row =
  cd_id :: id
  cd_userId :: id
  cd_providerId :: string
  cd_password :: "string option"

datatype password_source = FromReset | FromChange | FromAdmin

datatype user_event =
    UserCreated account_row
  | PasswordUpdated id password_source

text \<open>A sent message: template, addressee, and the template data that varies.\<close>

record user_mail =
  um_template :: string
  um_to :: string
  um_user :: id
  um_link :: "string option"
  um_newEmail :: "string option"
  um_expiresIn :: "string option"

text \<open>The two assignment tables as pairs of user and role or gate, with their composite unique index.\<close>

record directory =
  dr_users :: "account_row list"
  dr_roles :: "role_row list"
  dr_gates :: "gate_row list"
  dr_userRoles :: "(id \<times> id) list"
  dr_userGates :: "(id \<times> id) list"
  dr_credentials :: "credential_row list"
  dr_audits :: "(string \<times> audit_payload) list"
  dr_events :: "user_event list"
  dr_mails :: "user_mail list"
  dr_links :: "string list" \<comment> \<open>addresses for which a verification link was requested\<close>

record directory_env =
  de_clock :: time
  de_minPassword :: nat \<comment> \<open>\<open>auth.password.minLength\<close>, 4 by default\<close>
  de_hash :: "json \<Rightarrow> exn + string"
  de_signUp :: "string \<Rightarrow> string \<Rightarrow> string \<Rightarrow> string option \<Rightarrow> directory \<Rightarrow> exn + id option \<times> directory"
  de_nested :: "id \<Rightarrow> string \<Rightarrow> json \<Rightarrow> directory \<Rightarrow> exn + directory"
  de_relation :: "string \<Rightarrow> (id \<Rightarrow> json) option" \<comment> \<open>an included relation, \<open>None\<close>: no such relation\<close>
  de_isoDate :: "string \<Rightarrow> time option"
  de_mail :: bool
  de_link :: bool

definition user_audit :: "string \<Rightarrow> id \<Rightarrow> id option \<Rightarrow> string \<Rightarrow> string \<Rightarrow> json \<Rightarrow> json \<Rightarrow> audit_payload" where
  "user_audit eventType entityId userId action description oldValues newValues =
     \<lparr>au_eventType = eventType, au_entityType = ''USER'', au_entityId = Some entityId, au_userId = userId,
      au_action = action, au_description = description, au_oldValues = oldValues, au_newValues = newValues,
      au_metadata = JUndefined, au_errorMessage = None, au_success = True, au_actorId = None, au_actorType = None\<rparr>"

definition emitAudit :: "string \<Rightarrow> audit_payload \<Rightarrow> directory \<Rightarrow> directory" where
  "emitAudit event payload d = d\<lparr>dr_audits := dr_audits d @ [(event, payload)]\<rparr>"

section \<open>Mail\<close>

definition formatExpiresIn :: "int \<Rightarrow> string" where
  "formatExpiresIn seconds =
     (if seconds mod 3600 = 0 then
        let hours = seconds div 3600 in show_int hours @ '' hour'' @ (if hours = 1 then [] else ''s'')
      else
        let minutes = max 1 (math_round (of_int seconds / 60))
        in show_int minutes @ '' minute'' @ (if minutes = 1 then [] else ''s''))"

definition mail_to :: "string \<Rightarrow> string \<Rightarrow> id \<Rightarrow> user_mail" where
  "mail_to template email i =
     \<lparr>um_template = template, um_to = email, um_user = i, um_link = None, um_newEmail = None, um_expiresIn = None\<rparr>"

definition send_user_mail :: "directory_env \<Rightarrow> user_mail \<Rightarrow> string \<Rightarrow> string \<Rightarrow> directory \<Rightarrow> (exn + string) \<times> directory" where
  "send_user_mail de mail done failure d =
     (if de_mail de then (Inr (done @ um_to mail), d\<lparr>dr_mails := dr_mails d @ [mail]\<rparr>) else (Inl (Error failure), d))"

definition sendAccountVerificationEmail :: "directory_env \<Rightarrow> account_row \<Rightarrow> string \<Rightarrow> directory \<Rightarrow> (exn + string) \<times> directory" where
  "sendAccountVerificationEmail de user verificationUrl d =
     send_user_mail de ((mail_to ''accountVerification'' (ac_email user) (ac_id user))\<lparr>um_link := Some verificationUrl\<rparr>)
       ''Account verification email sent to '' ''FAILED_TO_SEND_ACCOUNT_VERIFICATION_EMAIL'' d"

definition sendWelcomeEmail :: "directory_env \<Rightarrow> account_row \<Rightarrow> directory \<Rightarrow> (exn + string) \<times> directory" where
  "sendWelcomeEmail de user d =
     send_user_mail de (mail_to ''welcome'' (ac_email user) (ac_id user)) ''Welcome email sent to '' ''FAILED_TO_SEND_WELCOME_EMAIL'' d"

text \<open>The user of the remaining mails is the one the authentication package hands over: id and address.\<close>

definition sendForgotPasswordEmail :: "directory_env \<Rightarrow> id \<times> string \<Rightarrow> string \<Rightarrow> string \<Rightarrow> directory \<Rightarrow> (exn + string) \<times> directory" where
  "sendForgotPasswordEmail de user resetLink expiresIn d =
     send_user_mail de ((mail_to ''forgotPassword'' (snd user) (fst user))\<lparr>um_link := Some resetLink, um_expiresIn := Some expiresIn\<rparr>)
       ''Password reset email sent to '' ''FAILED_TO_SEND_FORGOT_PASSWORD_EMAIL'' d"

definition sendPasswordChangedEmail :: "directory_env \<Rightarrow> id \<times> string \<Rightarrow> directory \<Rightarrow> (exn + string) \<times> directory" where
  "sendPasswordChangedEmail de user d =
     send_user_mail de (mail_to ''passwordChanged'' (snd user) (fst user))
       ''Password change confirmation sent to '' ''FAILED_TO_SEND_PASSWORD_CHANGED_EMAIL'' d"

definition sendEmailChangeConfirmationEmail ::
  "directory_env \<Rightarrow> id \<times> string \<Rightarrow> string \<Rightarrow> string \<Rightarrow> string \<Rightarrow> directory \<Rightarrow> (exn + string) \<times> directory" where
  "sendEmailChangeConfirmationEmail de user newEmail confirmLink expiresIn d =
     send_user_mail de ((mail_to ''emailChangeConfirmation'' (snd user) (fst user))\<lparr>um_link := Some confirmLink,
         um_newEmail := Some newEmail, um_expiresIn := Some expiresIn\<rparr>)
       ''Email change confirmation sent to '' ''FAILED_TO_SEND_EMAIL_CHANGE_CONFIRMATION_EMAIL'' d"

definition sendAccountDeletionVerificationEmail ::
  "directory_env \<Rightarrow> id \<times> string \<Rightarrow> string \<Rightarrow> string \<Rightarrow> directory \<Rightarrow> (exn + string) \<times> directory" where
  "sendAccountDeletionVerificationEmail de user deleteLink expiresIn d =
     send_user_mail de ((mail_to ''accountDeletionVerification'' (snd user) (fst user))\<lparr>um_link := Some deleteLink,
         um_expiresIn := Some expiresIn\<rparr>)
       ''Account deletion verification sent to '' ''FAILED_TO_SEND_ACCOUNT_DELETION_VERIFICATION_EMAIL'' d"

section \<open>The listeners\<close>

definition handleUserCreatedEvent :: "directory_env \<Rightarrow> account_row \<Rightarrow> directory \<Rightarrow> directory" where
  "handleUserCreatedEvent de user d =
     (if ac_emailVerified user then d else if de_link de then d\<lparr>dr_links := dr_links d @ [ac_email user]\<rparr> else d)"

definition handleAccountVerificationEmailRequested :: "directory_env \<Rightarrow> account_row \<Rightarrow> string \<Rightarrow> directory \<Rightarrow> directory" where
  "handleAccountVerificationEmailRequested de user verificationUrl d =
     snd (sendAccountVerificationEmail de user verificationUrl d)"

definition handlePasswordResetEmailRequested :: "directory_env \<Rightarrow> id \<times> string \<Rightarrow> string \<Rightarrow> int \<Rightarrow> directory \<Rightarrow> directory" where
  "handlePasswordResetEmailRequested de user resetUrl expiresInSeconds d =
     (case sendForgotPasswordEmail de user resetUrl (formatExpiresIn expiresInSeconds) d of
        (Inl _, d') \<Rightarrow> d'
      | (Inr _, d') \<Rightarrow> emitAudit ''audit.user.password_reset_requested''
          (user_audit ''UPDATE'' (fst user) (Some (fst user)) ''user_password_reset_requested''
             (''Password reset link sent to '' @ snd user) JUndefined JUndefined) d')"

definition handlePasswordUpdated ::
  "directory_env \<Rightarrow> id \<Rightarrow> (id \<times> string) option \<Rightarrow> password_source \<Rightarrow> directory \<Rightarrow> directory" where
  "handlePasswordUpdated de userId payload_user source d =
     (case (case payload_user of Some u \<Rightarrow> Some u
            | None \<Rightarrow> map_option (\<lambda>r. (ac_id r, ac_email r)) (find_row ac_id userId (dr_users d))) of
        None \<Rightarrow> d
      | Some user \<Rightarrow>
          (case sendPasswordChangedEmail de user d of
             (Inl _, d') \<Rightarrow> d'
           | (Inr _, d') \<Rightarrow>
               if source = FromReset then
                 emitAudit ''audit.user.password_reset_completed''
                   (user_audit ''UPDATE'' userId (Some userId) ''user_password_reset_completed''
                      (''Password reset completed for '' @ snd user) JUndefined JUndefined) d'
               else d'))"

definition handleEmailVerifiedAudit :: "id \<times> string \<Rightarrow> directory \<Rightarrow> directory" where
  "handleEmailVerifiedAudit user d =
     emitAudit ''audit.user.email_verified''
       (user_audit ''UPDATE'' (fst user) (Some (fst user)) ''user_email_verified''
          (''Email address verified: '' @ snd user) JUndefined JUndefined) d"

definition handleEmailChangeConfirmationRequested ::
  "directory_env \<Rightarrow> id \<times> string \<Rightarrow> string \<Rightarrow> string \<Rightarrow> int \<Rightarrow> directory \<Rightarrow> directory" where
  "handleEmailChangeConfirmationRequested de user newEmail confirmUrl expiresInSeconds d =
     (case sendEmailChangeConfirmationEmail de user newEmail confirmUrl (formatExpiresIn expiresInSeconds) d of
        (Inl _, d') \<Rightarrow> d'
      | (Inr _, d') \<Rightarrow> emitAudit ''audit.user.updated''
          (user_audit ''UPDATE'' (fst user) (Some (fst user)) ''user_email_change_requested''
             (''Email change requested: '' @ snd user @ '' -> '' @ newEmail) JUndefined (JObj [(''email'', JStr newEmail)])) d')"

definition handleAccountDeletionVerificationRequested ::
  "directory_env \<Rightarrow> id \<times> string \<Rightarrow> string \<Rightarrow> int \<Rightarrow> directory \<Rightarrow> directory" where
  "handleAccountDeletionVerificationRequested de user deleteUrl expiresInSeconds d =
     (case sendAccountDeletionVerificationEmail de user deleteUrl (formatExpiresIn expiresInSeconds) d of
        (Inl _, d') \<Rightarrow> d'
      | (Inr _, d') \<Rightarrow> emitAudit ''audit.user.updated''
          (user_audit ''UPDATE'' (fst user) (Some (fst user)) ''user_account_deletion_requested''
             (''Account deletion verification sent to '' @ snd user) JUndefined JUndefined) d')"

definition handleAccountDeleted :: "account_row \<Rightarrow> directory \<Rightarrow> directory" where
  "handleAccountDeleted user d =
     emitAudit ''audit.user.deleted''
       (user_audit ''DELETE'' (ac_id user) (Some (ac_id user)) ''user_account_deleted''
          (''User account deleted by owner: '' @ ac_email user)
          (JObj [(''email'', JStr (ac_email user)), (''firstName'', JStr (ac_firstName user)), (''lastName'', JStr (ac_lastName user))])
          JUndefined) d"

section \<open>Which fields of a body reach the database (\<open>prisma-model-fields.helper.ts\<close>)\<close>

definition VALID_RELATION_OPERATIONS :: "string list" where
  "VALID_RELATION_OPERATIONS = [''create'', ''createMany'', ''connect'', ''connectOrCreate'', ''disconnect'', ''delete'',
     ''deleteMany'', ''update'', ''updateMany'', ''upsert'', ''set'']"

record field_metadata =
  fm_scalarFields :: "string list"
  fm_relationFields :: "string list"
  fm_immutableFields :: "string list"
  fm_updatableScalarFields :: "string list"

definition getUserScalarFields :: "string list" where
  "getUserScalarFields = [''id'', ''name'', ''firstName'', ''lastName'', ''email'', ''emailVerified'', ''image'', ''createdAt'',
     ''updatedAt'', ''banned'', ''banReason'', ''banExpires'', ''settings'', ''meta'']"

definition getUserRelationFields :: "string list" where
  "getUserRelationFields = [''roles'', ''sessions'', ''accounts'']"

definition getUserImmutableFields :: "string list" where
  "getUserImmutableFields = [''id'', ''createdAt'']"

definition getUserFieldMetadata :: field_metadata where
  "getUserFieldMetadata =
     \<lparr>fm_scalarFields = getUserScalarFields, fm_relationFields = getUserRelationFields,
      fm_immutableFields = getUserImmutableFields,
      fm_updatableScalarFields = filter (\<lambda>f. f \<notin> set getUserImmutableFields) getUserScalarFields\<rparr>"

definition isValidPrismaRelationObject :: "json \<Rightarrow> bool" where
  "isValidPrismaRelationObject v =
     (case v of JObj ps \<Rightarrow> list_ex (\<lambda>(k, _). k \<in> set VALID_RELATION_OPERATIONS) ps | _ \<Rightarrow> False)"

text \<open>The defined entries of an object under the given keys, in the order of the keys.\<close>

definition pick :: "string list \<Rightarrow> (string \<times> json) list \<Rightarrow> (string \<times> json) list" where
  "pick names data = concat (map (\<lambda>f. case map_of data f of None \<Rightarrow> [] | Some v \<Rightarrow> if v = JUndefined then [] else [(f, v)]) names)"

definition sanitizeUpdateData :: "(string \<times> json) list \<Rightarrow> field_metadata \<Rightarrow> (string \<times> json) list" where
  "sanitizeUpdateData data metadata =
     pick (fm_updatableScalarFields metadata) data @
     filter (\<lambda>(_, v). isValidPrismaRelationObject v) (pick (fm_relationFields metadata) data)"

section \<open>A column write of the database client\<close>

text \<open>
  The client checks the type of every argument (\<open>None\<close>: it refuses), takes \<open>{ set: v }\<close> for \<open>v\<close>, and accepts dates
  as ISO 8601 text.
\<close>

definition as_string :: "json \<Rightarrow> string option" where
  "as_string v = (case v of JStr s \<Rightarrow> Some s | _ \<Rightarrow> None)"

definition as_bool :: "json \<Rightarrow> bool option" where
  "as_bool v = (case v of JBool b \<Rightarrow> Some b | _ \<Rightarrow> None)"

definition as_date :: "(string \<Rightarrow> time option) \<Rightarrow> json \<Rightarrow> time option" where
  "as_date parse v = (case v of JDate t \<Rightarrow> Some t | JStr s \<Rightarrow> parse s | _ \<Rightarrow> None)"

definition nullable :: "(json \<Rightarrow> 'a option) \<Rightarrow> json \<Rightarrow> 'a option option" where
  "nullable f v = (if v = JNull then Some None else map_option Some (f v))"

definition plain_value :: "json \<Rightarrow> json" where
  "plain_value v = (case v of JObj [(k, w)] \<Rightarrow> if k = ''set'' then w else v | _ \<Rightarrow> v)"

definition set_column :: "(string \<Rightarrow> time option) \<Rightarrow> string \<Rightarrow> json \<Rightarrow> account_row \<Rightarrow> account_row option" where
  "set_column parse k v r =
     (let w = plain_value v in
      if k = ''name'' then map_option (\<lambda>s. r\<lparr>ac_name := s\<rparr>) (as_string w)
      else if k = ''firstName'' then map_option (\<lambda>s. r\<lparr>ac_firstName := s\<rparr>) (as_string w)
      else if k = ''lastName'' then map_option (\<lambda>s. r\<lparr>ac_lastName := s\<rparr>) (as_string w)
      else if k = ''email'' then map_option (\<lambda>s. r\<lparr>ac_email := s\<rparr>) (as_string w)
      else if k = ''emailVerified'' then map_option (\<lambda>b. r\<lparr>ac_emailVerified := b\<rparr>) (as_bool w)
      else if k = ''image'' then map_option (\<lambda>s. r\<lparr>ac_image := s\<rparr>) (nullable as_string w)
      else if k = ''updatedAt'' then map_option (\<lambda>t. r\<lparr>ac_updatedAt := t\<rparr>) (as_date parse w)
      else if k = ''banned'' then map_option (\<lambda>b. r\<lparr>ac_banned := b\<rparr>) (as_bool w)
      else if k = ''banReason'' then map_option (\<lambda>s. r\<lparr>ac_banReason := s\<rparr>) (nullable as_string w)
      else if k = ''banExpires'' then map_option (\<lambda>t. r\<lparr>ac_banExpires := t\<rparr>) (nullable (as_date parse) w)
      else if k = ''settings'' then (if v = JNull then None else Some (r\<lparr>ac_settings := Some v\<rparr>))
      else if k = ''meta'' then (if v = JNull then None else Some (r\<lparr>ac_meta := Some v\<rparr>))
      else None)"

primrec set_columns :: "(string \<Rightarrow> time option) \<Rightarrow> (string \<times> json) list \<Rightarrow> account_row \<Rightarrow> account_row option" where
  "set_columns parse [] r = Some r"
| "set_columns parse (kv # kvs) r = Option.bind (set_column parse (fst kv) (snd kv) r) (set_columns parse kvs)"

primrec nested_writes :: "directory_env \<Rightarrow> id \<Rightarrow> (string \<times> json) list \<Rightarrow> directory \<Rightarrow> exn + directory" where
  "nested_writes de i [] d = Inr d"
| "nested_writes de i (kv # kvs) d =
     (case de_nested de i (fst kv) (snd kv) d of Inl err \<Rightarrow> Inl err | Inr d' \<Rightarrow> nested_writes de i kvs d')"

definition put_account :: "account_row \<Rightarrow> directory \<Rightarrow> directory" where
  "put_account row d = d\<lparr>dr_users := update_where (\<lambda>r. ac_id r = ac_id row) (\<lambda>_. row) (dr_users d)\<rparr>"

text \<open>\<open>prisma.user.update\<close>: all of it or, with an exception, nothing.\<close>

definition write_user :: "directory_env \<Rightarrow> account_row \<Rightarrow> (string \<times> json) list \<Rightarrow> directory \<Rightarrow> exn + directory" where
  "write_user de row data d =
     (let relation = (\<lambda>kv. fst kv \<in> set getUserRelationFields) in
      case set_columns (de_isoDate de) (filter (\<lambda>kv. \<not> relation kv) data) (row\<lparr>ac_updatedAt := de_clock de\<rparr>) of
        None \<Rightarrow> Inl (Error ''Invalid invocation: Invalid value provided'')
      | Some row' \<Rightarrow>
          if list_ex (\<lambda>r. ac_id r \<noteq> ac_id row \<and> ac_email r = ac_email row') (dr_users d)
          then Inl (Error ''Unique constraint failed on the fields: (`email`)'')
          else nested_writes de (ac_id row) (filter relation data) (put_account row' d))"

section \<open>Updating an account\<close>

definition json_length :: "json \<Rightarrow> nat option" where
  "json_length v = (case v of JStr s \<Rightarrow> Some (length s) | JArr vs \<Rightarrow> Some (length vs) | _ \<Rightarrow> None)"

definition short_password :: "directory_env \<Rightarrow> exn" where
  "short_password de =
     BadRequestException (''Password must be at least '' @ show_nat (de_minPassword de) @ '' characters long'')"

definition updateUserPassword :: "directory_env \<Rightarrow> id \<Rightarrow> json \<Rightarrow> directory \<Rightarrow> (exn + unit) \<times> directory" where
  "updateUserPassword de userId newPassword d =
     (if (case json_length newPassword of None \<Rightarrow> False | Some n \<Rightarrow> n < de_minPassword de) then (Inl (short_password de), d)
      else case List.find (\<lambda>c. cd_userId c = userId \<and> cd_providerId c = ''credential'') (dr_credentials d) of
        None \<Rightarrow> (Inl (BadRequestException
            (''Cannot update password: User does not have a credential account. '' @
             ''This user may have signed up using a social provider.'')), d)
      | Some credential \<Rightarrow>
          (case de_hash de newPassword of
             Inl err \<Rightarrow> (Inl err, d)
           | Inr hashed \<Rightarrow>
               (Inr (), emitAudit ''audit.user.password_changed''
                  (user_audit ''UPDATE'' userId (Some userId) ''user_password_changed''
                     (''Password changed for user ID '' @ show_int userId) JUndefined JUndefined)
                  (d\<lparr>dr_credentials := update_where (\<lambda>c. cd_id c = cd_id credential)
                       (\<lambda>c. c\<lparr>cd_password := Some hashed\<rparr>) (dr_credentials d),
                     dr_events := dr_events d @ [PasswordUpdated userId FromAdmin]\<rparr>))))"

text \<open>The value of a column in the audit entry; a relation that was not loaded is undefined.\<close>

definition json_opt :: "json option \<Rightarrow> json" where
  "json_opt v = (case v of None \<Rightarrow> JNull | Some x \<Rightarrow> x)"

definition account_json :: "account_row \<Rightarrow> (string \<times> json) list" where
  "account_json r =
     [(''id'', JNum (of_int (ac_id r))), (''name'', JStr (ac_name r)), (''firstName'', JStr (ac_firstName r)),
      (''lastName'', JStr (ac_lastName r)), (''email'', JStr (ac_email r)), (''emailVerified'', JBool (ac_emailVerified r)),
      (''image'', jstr_opt (ac_image r)), (''createdAt'', JDate (ac_createdAt r)), (''updatedAt'', JDate (ac_updatedAt r)),
      (''banned'', JBool (ac_banned r)), (''banReason'', jstr_opt (ac_banReason r)), (''banExpires'', jdate_opt (ac_banExpires r)),
      (''settings'', json_opt (ac_settings r)), (''meta'', json_opt (ac_meta r))]"

definition old_column :: "account_row \<Rightarrow> string \<Rightarrow> json" where
  "old_column r k = (case map_of (account_json r) k of None \<Rightarrow> JUndefined | Some v \<Rightarrow> v)"

definition user_not_found :: exn where
  "user_not_found = NotFoundException ''User not found with the provided identifier''"

definition given_password :: "(string \<times> json) list \<Rightarrow> json option" where
  "given_password body =
     (case map_of body ''password'' of None \<Rightarrow> None | Some v \<Rightarrow> if v \<in> {JUndefined, JNull, JStr []} then None else Some v)"

definition updateUser :: "directory_env \<Rightarrow> id \<Rightarrow> (string \<times> json) list \<Rightarrow> directory \<Rightarrow> (exn + account_row) \<times> directory" where
  "updateUser de i userData d =
     (case find_row ac_id i (dr_users d) of
        None \<Rightarrow> (Inl user_not_found, d)
      | Some existingUser \<Rightarrow>
          (case (case given_password userData of None \<Rightarrow> (Inr (), d) | Some pw \<Rightarrow> updateUserPassword de (ac_id existingUser) pw d) of
             (Inl err, d1) \<Rightarrow> (Inl err, d1)
           | (Inr _, d1) \<Rightarrow>
               let sanitized = sanitizeUpdateData (filter (\<lambda>(k, _). k \<noteq> ''password'') userData) getUserFieldMetadata in
               if sanitized = [] then (Inr existingUser, d1)
               else case write_user de existingUser sanitized d1 of
                 Inl err \<Rightarrow> (Inl err, d1)
               | Inr d2 \<Rightarrow>
                   (case find_row ac_id i (dr_users d2) of
                      None \<Rightarrow> (Inl (Error ''Record to update not found.''), d1)
                    | Some updatedUser \<Rightarrow>
                        (Inr updatedUser, emitAudit ''audit.entity.updated''
                           (user_audit ''UPDATE'' (ac_id updatedUser) (Some (ac_id updatedUser)) ''user_updated''
                              (''User profile updated: '' @ ac_email updatedUser)
                              (JObj (map (\<lambda>(k, _). (k, old_column existingUser k)) sanitized)) (JObj sanitized)) d2))))"

section \<open>Creating an account\<close>

record create_user_dto =
  cu_firstName :: "string option"
  cu_lastName :: "string option"
  cu_email :: "string option"
  cu_password :: "string option"
  cu_roles :: "string list option"
  cu_image :: "string option"
  cu_emailVerified :: "bool option"

definition given :: "string option \<Rightarrow> string" where
  "given x = (case x of None \<Rightarrow> [] | Some s \<Rightarrow> s)"

text \<open>The pattern of the service: something, an at sign, something with an inner dot, no white space.\<close>

definition inner_dot :: "string \<Rightarrow> bool" where
  "inner_dot s \<longleftrightarrow> list_ex (\<lambda>i. 0 < i \<and> i + 1 < length s \<and> s ! i = CHR ''.'') [0..<length s]"

definition email_shape :: "string \<Rightarrow> bool" where
  "email_shape s \<longleftrightarrow> \<not> list_ex is_space s \<and>
     (case split_on CHR ''@'' s of [a, b] \<Rightarrow> a \<noteq> [] \<and> inner_dot b | _ \<Rightarrow> False)"

definition validateCreateUserData :: "directory_env \<Rightarrow> create_user_dto \<Rightarrow> exn + unit" where
  "validateCreateUserData de data =
     (if trim (given (cu_email data)) = [] then Inl (BadRequestException ''Email is required'')
      else if trim (given (cu_password data)) = [] then Inl (BadRequestException ''Password is required'')
      else if trim (given (cu_firstName data)) = [] then Inl (BadRequestException ''First name is required'')
      else if trim (given (cu_lastName data)) = [] then Inl (BadRequestException ''Last name is required'')
      else if \<not> email_shape (given (cu_email data)) then Inl (BadRequestException ''Invalid email format'')
      else if length (given (cu_password data)) < de_minPassword de then Inl (short_password de)
      else Inr ())"

definition DEFAULT_ROLE_SLUG :: string where "DEFAULT_ROLE_SLUG = ''user''"

definition resolveRoles :: "string list \<Rightarrow> directory \<Rightarrow> exn + role_row list" where
  "resolveRoles roleSlugs d =
     (if roleSlugs = [] then
        (case List.find (\<lambda>r. ro_slug r = DEFAULT_ROLE_SLUG \<and> ro_active r) (dr_roles d) of
           None \<Rightarrow> Inl (NotFoundException
               (''Default role \"'' @ DEFAULT_ROLE_SLUG @ ''\" not found or inactive. Please create it.''))
         | Some defaultRole \<Rightarrow> Inr [defaultRole])
      else
        let roles = filter (\<lambda>r. ro_slug r \<in> set roleSlugs \<and> ro_active r) (dr_roles d);
            missing = filter (\<lambda>slug. slug \<notin> set (map ro_slug roles)) roleSlugs
        in if missing \<noteq> [] then Inl (NotFoundException (''The following roles were not found: '' @ join_comma missing))
           else Inr roles)"

text \<open>Rows that exist are skipped; the foreign key needs the account.\<close>

definition assignRolesToUser :: "id \<Rightarrow> role_row list \<Rightarrow> directory \<Rightarrow> exn + directory" where
  "assignRolesToUser userId roles d =
     (if roles \<noteq> [] \<and> find_row ac_id userId (dr_users d) = None then Inl (Error ''Foreign key constraint violated'')
      else Inr (d\<lparr>dr_userRoles := dr_userRoles d @
        remdups (filter (\<lambda>p. p \<notin> set (dr_userRoles d)) (map (\<lambda>r. (userId, ro_id r)) roles))\<rparr>))"

definition assignDefaultRole :: "id \<Rightarrow> directory \<Rightarrow> exn + directory" where
  "assignDefaultRole userId d =
     (case resolveRoles [] d of Inl err \<Rightarrow> Inl err | Inr roles \<Rightarrow> assignRolesToUser userId roles d)"

definition create_failure :: "exn \<Rightarrow> exn" where
  "create_failure err =
     (case err of ConflictException s \<Rightarrow> err | BadRequestException s \<Rightarrow> err | NotFoundException s \<Rightarrow> err
      | _ \<Rightarrow> BadRequestException (''Failed to create user: '' @ exn_message err))"

definition completed_row :: "directory_env \<Rightarrow> create_user_dto \<Rightarrow> account_row \<Rightarrow> account_row" where
  "completed_row de data row =
     row\<lparr>ac_firstName := given (cu_firstName data), ac_lastName := given (cu_lastName data),
         ac_emailVerified := (case cu_emailVerified data of None \<Rightarrow> False | Some b \<Rightarrow> b),
         ac_meta := Some (JObj [(''firstTime'', JBool True)]), ac_updatedAt := de_clock de\<rparr>"

definition created_values :: "create_user_dto \<Rightarrow> role_row list \<Rightarrow> json" where
  "created_values data roles =
     JObj [(''email'', JStr (given (cu_email data))), (''firstName'', JStr (given (cu_firstName data))),
       (''lastName'', JStr (given (cu_lastName data))), (''roles'', jstrs (map ro_slug roles)),
       (''emailVerified'', JBool (case cu_emailVerified data of None \<Rightarrow> False | Some b \<Rightarrow> b))]"

definition storeUser :: "directory_env \<Rightarrow> create_user_dto \<Rightarrow> directory \<Rightarrow> (exn + account_row) \<times> directory" where
  "storeUser de data d =
     (case validateCreateUserData de data of
        Inl err \<Rightarrow> (Inl err, d)
      | Inr _ \<Rightarrow>
      let email = given (cu_email data) in
      if list_ex (\<lambda>r. ac_email r = lower email) (dr_users d)
      then (Inl (ConflictException (''A user with email \"'' @ email @ ''\" already exists'')), d)
      else case resolveRoles (case cu_roles data of None \<Rightarrow> [] | Some ss \<Rightarrow> ss) d of
        Inl err \<Rightarrow> (Inl err, d)
      | Inr roles \<Rightarrow>
          let fullName = trim (given (cu_firstName data) @ '' '' @ given (cu_lastName data)) in
          case de_signUp de (lower email) (given (cu_password data)) fullName (cu_image data) d of
            Inl err \<Rightarrow> (Inl (create_failure err), d)
          | Inr (None, d1) \<Rightarrow> (Inl (BadRequestException ''Failed to create user via Better Auth''), d1)
          | Inr (Some createdUserId, d1) \<Rightarrow>
              (case find_row ac_id createdUserId (dr_users d1) of
                 None \<Rightarrow> (Inl (create_failure (Error ''Record to update not found.'')), d1)
               | Some row \<Rightarrow>
                   let updatedUser = completed_row de data row;
                       d2 = put_account updatedUser d1
                   in case assignRolesToUser createdUserId roles d2 of
                        Inl err \<Rightarrow> (Inl (create_failure err), d2)
                      | Inr d3 \<Rightarrow>
                          let d4 = emitAudit ''audit.entity.created''
                                (user_audit ''CREATE'' createdUserId (Some createdUserId) ''user_created''
                                   (''User account created: '' @ email) JUndefined (created_values data roles)) d3;
                              d5 = d4\<lparr>dr_events := dr_events d4 @ [UserCreated updatedUser]\<rparr>
                          in (Inr updatedUser, snd (sendWelcomeEmail de updatedUser d5))))"

section \<open>Deleting an account\<close>

definition cascade_user :: "id \<Rightarrow> directory \<Rightarrow> directory" where
  "cascade_user i d =
     d\<lparr>dr_users := delete_where (\<lambda>r. ac_id r = i) (dr_users d),
       dr_userRoles := filter (\<lambda>(u, _). u \<noteq> i) (dr_userRoles d),
       dr_userGates := filter (\<lambda>(u, _). u \<noteq> i) (dr_userGates d),
       dr_credentials := delete_where (\<lambda>c. cd_userId c = i) (dr_credentials d)\<rparr>"

definition deleteUser :: "id \<Rightarrow> directory \<Rightarrow> (exn + account_row) \<times> directory" where
  "deleteUser i d =
     (case find_row ac_id i (dr_users d) of
        None \<Rightarrow> (Inl user_not_found, d)
      | Some existingUser \<Rightarrow>
          (Inr existingUser, emitAudit ''audit.entity.deleted''
             (user_audit ''DELETE'' i None ''user_deleted'' (''User account deleted: '' @ ac_email existingUser)
                (JObj [(''email'', JStr (ac_email existingUser)), (''firstName'', JStr (ac_firstName existingUser)),
                   (''lastName'', JStr (ac_lastName existingUser)), (''emailVerified'', JBool (ac_emailVerified existingUser))])
                JUndefined) (cascade_user i d)))"

section \<open>Reading\<close>

text \<open>What an include option asks for (\<open>prisma-include.helper.ts\<close>): the plain relation or a nested one.\<close>

datatype include_value = IncludePlain | IncludeNested string

definition GLOBAL_NESTED_INCLUDES :: "(string \<times> include_value) list" where
  "GLOBAL_NESTED_INCLUDES = [(''roles'', IncludeNested ''role''), (''gates'', IncludeNested ''gate'')]"

definition buildIncludeObject :: "string list \<Rightarrow> (string \<times> include_value) list" where
  "buildIncludeObject includes =
     foldl (\<lambda>obj relation. map_set relation
       (case map_of GLOBAL_NESTED_INCLUDES relation of Some v \<Rightarrow> v | None \<Rightarrow> IncludePlain) obj) [] includes"

definition findOneUser :: "directory_env \<Rightarrow> (account_row \<Rightarrow> bool) \<Rightarrow> string list \<Rightarrow> directory \<Rightarrow> exn + json option" where
  "findOneUser de key includes d =
     (if list_ex (\<lambda>(relation, _). de_relation de relation = None) (buildIncludeObject includes)
      then Inl (Error ''Invalid invocation: Unknown field for include statement'')
      else Inr (map_option (\<lambda>r. JObj (account_json r @
             map (\<lambda>(relation, _). (relation, the (de_relation de relation) (ac_id r))) (buildIncludeObject includes)))
           (List.find key (dr_users d))))"

record 'a page =
  pg_data :: "'a list"
  pg_pages :: int
  pg_page :: int
  pg_count :: int
  pg_limit :: int
  pg_offset :: int

text \<open>\<open>base-prisma.service.ts\<close>, for a limit other than zero.\<close>

definition formatResultToPaginatedResponse :: "'a list \<Rightarrow> int \<Rightarrow> int \<Rightarrow> int \<Rightarrow> 'a page" where
  "formatResultToPaginatedResponse result rowCount limit offset =
     \<lparr>pg_data = result, pg_pages = \<lceil>of_int rowCount / of_int limit :: rat\<rceil>,
      pg_page = \<lceil>of_int offset / of_int limit :: rat\<rceil> + 1, pg_count = rowCount, pg_limit = limit, pg_offset = offset\<rparr>"

definition some_role_level :: "(int \<Rightarrow> bool) \<Rightarrow> directory \<Rightarrow> account_row \<Rightarrow> bool" where
  "some_role_level p d r \<longleftrightarrow>
     list_ex (\<lambda>(u, i). u = ac_id r \<and> list_ex (\<lambda>role. ro_id role = i \<and> p (ro_level role)) (dr_roles d)) (dr_userRoles d)"

text \<open>The second level filter replaces the first: both are the property \<open>roles\<close> of one object.\<close>

definition level_filter :: "int option \<Rightarrow> int option \<Rightarrow> directory \<Rightarrow> account_row \<Rightarrow> bool" where
  "level_filter maxLevel minLevel d r \<longleftrightarrow>
     (case minLevel of
        Some l \<Rightarrow> some_role_level (\<lambda>level. l \<le> level) d r
      | None \<Rightarrow> (case maxLevel of Some l \<Rightarrow> some_role_level (\<lambda>level. level \<le> l) d r | None \<Rightarrow> True))"

text \<open>\<open>order\<close> sorts as the database does.\<close>

definition findManyUsers ::
  "(account_row list \<Rightarrow> account_row list) \<Rightarrow> (account_row \<Rightarrow> bool) \<Rightarrow> nat \<Rightarrow> nat \<Rightarrow> int option \<Rightarrow> int option \<Rightarrow>
   directory \<Rightarrow> account_row page" where
  "findManyUsers order data limit offset maxLevel minLevel d =
     (let found = filter (\<lambda>r. data r \<and> level_filter maxLevel minLevel d r) (dr_users d)
      in formatResultToPaginatedResponse (take limit (drop offset (order found)))
           (int (length found)) (int limit) (int offset))"

section \<open>Gates of a user\<close>

definition user_missing :: "id \<Rightarrow> exn" where
  "user_missing i = NotFoundException (''User with ID '' @ show_int i @ '' not found'')"

definition gate_missing :: "id \<Rightarrow> exn" where
  "gate_missing i = NotFoundException (''Gate with ID '' @ show_int i @ '' not found'')"

definition assignGate :: "id \<Rightarrow> id \<Rightarrow> directory \<Rightarrow> (exn + gate_row) \<times> directory" where
  "assignGate userId gateId d =
     (case find_row ac_id userId (dr_users d) of
        None \<Rightarrow> (Inl (user_missing userId), d)
      | Some user \<Rightarrow>
          (case find_row ga_id gateId (dr_gates d) of
             None \<Rightarrow> (Inl (gate_missing gateId), d)
           | Some gate \<Rightarrow>
               if (userId, gateId) \<in> set (dr_userGates d)
               then (Inl (ConflictException (''User already has gate \"'' @ ga_name gate @ ''\"'')), d)
               else (Inr gate, d\<lparr>dr_userGates := dr_userGates d @ [(userId, gateId)]\<rparr>)))"

definition removeGate :: "id \<Rightarrow> id \<Rightarrow> directory \<Rightarrow> (exn + unit) \<times> directory" where
  "removeGate userId gateId d =
     (case find_row ac_id userId (dr_users d) of
        None \<Rightarrow> (Inl (user_missing userId), d)
      | Some user \<Rightarrow>
          (case find_row ga_id gateId (dr_gates d) of
             None \<Rightarrow> (Inl (gate_missing gateId), d)
           | Some gate \<Rightarrow>
               if (userId, gateId) \<notin> set (dr_userGates d)
               then (Inl (NotFoundException (''User does not have gate \"'' @ ga_name gate @ ''\"'')), d)
               else (Inr (), d\<lparr>dr_userGates := filter (\<lambda>p. p \<noteq> (userId, gateId)) (dr_userGates d)\<rparr>)))"

definition gates_of :: "directory \<Rightarrow> id \<Rightarrow> gate_row list" where
  "gates_of d i = List.map_filter (\<lambda>(u, g). if u = i then find_row ga_id g (dr_gates d) else None) (dr_userGates d)"

definition roles_of :: "directory \<Rightarrow> id \<Rightarrow> role_row list" where
  "roles_of d i = List.map_filter (\<lambda>(u, r). if u = i then find_row ro_id r (dr_roles d) else None) (dr_userRoles d)"

text \<open>\<open>by_name\<close> orders gates as the database orders their names.\<close>

definition getUserGates :: "(gate_row list \<Rightarrow> gate_row list) \<Rightarrow> id \<Rightarrow> directory \<Rightarrow> exn + id \<times> string \<times> gate_row list \<times> nat" where
  "getUserGates by_name userId d =
     (case find_row ac_id userId (dr_users d) of
        None \<Rightarrow> Inl (user_missing userId)
      | Some user \<Rightarrow> let gates = by_name (gates_of d userId) in Inr (userId, ac_email user, gates, length gates))"

section \<open>What the token service reads of an account\<close>

definition auth_user_of :: "directory \<Rightarrow> account_row \<Rightarrow> auth_user" where
  "auth_user_of d r =
     \<lparr>tu_id = ac_id r, tu_email = ac_email r, tu_name = ac_name r, tu_banned = ac_banned r, tu_banReason = ac_banReason r,
      tu_banExpires = ac_banExpires r, tu_roles = roles_of d (ac_id r), tu_gates = gates_of d (ac_id r)\<rparr>"

definition auth_view :: "session_row list \<Rightarrow> directory \<Rightarrow> auth_db" where
  "auth_view ss d = \<lparr>sessions = ss, accounts = map (auth_user_of d) (dr_users d)\<rparr>"

end
