(* ===== verification/SignIn.thy ===== *)
theory SignIn
  imports Account Passkey
begin

text \<open>
  Signing in and up, password reset and change, and the account endpoints of \<open>src/auth/auth/auth.controller.ts\<close>,
  with the verification of provider tokens (\<open>src/auth/social/social-providers.ts\<close>) and its settings. The calls of the
  authentication package are the fields of \<open>auth_api\<close>; the cookie sessions it keeps for itself are left out, except
  the temporary one the server creates.
\<close>

section \<open>State and the authentication package\<close>

record registered =
  re_user :: id
  re_email :: string
  re_source :: string
  re_inviteToken :: "string option"

record sign_state =
  sg_dir :: directory
  sg_sessions :: "session_row list"
  sg_verifications :: "(string \<times> string) list" \<comment> \<open>identifier and value\<close>
  sg_registered :: "registered list" \<comment> \<open>\<open>USER_REGISTERED\<close> events\<close>
  sg_temporary :: "(string \<times> id) list" \<comment> \<open>sessions created for one call of the package: token and account\<close>

text \<open>Each call throws with a message or answers; those that write say how the directory changes.\<close>

record auth_api =
  aa_verifyPassword :: "string \<Rightarrow> string \<Rightarrow> bool"
  aa_signInEmail :: "string \<Rightarrow> string \<Rightarrow> directory \<Rightarrow> string + id option"
  aa_signInSocial :: "string \<Rightarrow> string \<Rightarrow> string option \<Rightarrow> string option \<Rightarrow> directory \<Rightarrow> string + (id \<times> string) option \<times> directory"
  aa_resetPassword :: "string \<Rightarrow> string \<Rightarrow> directory \<Rightarrow> string + directory"
  aa_getSession :: "string \<Rightarrow> id option"
  aa_changeEmail :: "id \<Rightarrow> string \<Rightarrow> string \<Rightarrow> directory \<Rightarrow> string + directory"
  aa_deleteUser :: "id \<Rightarrow> string option \<Rightarrow> directory \<Rightarrow> string + directory"

definition auth_db_of :: "sign_state \<Rightarrow> auth_db" where
  "auth_db_of s = auth_view (sg_sessions s) (sg_dir s)"

definition emit_auth :: "string \<Rightarrow> audit_payload \<Rightarrow> sign_state \<Rightarrow> sign_state" where
  "emit_auth event payload s = s\<lparr>sg_dir := emitAudit event payload (sg_dir s)\<rparr>"

definition requestVerification :: "directory_env \<Rightarrow> string \<Rightarrow> sign_state \<Rightarrow> sign_state" where
  "requestVerification de email s =
     (if de_link de then s\<lparr>sg_dir := (sg_dir s)\<lparr>dr_links := dr_links (sg_dir s) @ [email]\<rparr>\<rparr> else s)"

text \<open>The token pair for an account with its roles and gates; only sessions change.\<close>

definition issue_for ::
  "crypto \<Rightarrow> moment \<Rightarrow> account_row \<Rightarrow> string \<Rightarrow> http_request \<Rightarrow> (string \<times> json) list \<Rightarrow> sign_state \<Rightarrow> (exn + rotated_tokens) \<times> sign_state" where
  "issue_for cr m user method rq extra s =
     (case issueTokens cr m (auth_user_of (sg_dir s) user) method (client_ip rq) (rq_user_agent rq) extra (auth_db_of s) of
        (Inl err, db) \<Rightarrow> (Inl err, s\<lparr>sg_sessions := sessions db\<rparr>)
      | (Inr (pair, audit), db) \<Rightarrow> (Inr pair, emit_auth ''audit.user.login'' audit (s\<lparr>sg_sessions := sessions db\<rparr>)))"

definition credential_for :: "id \<Rightarrow> directory \<Rightarrow> credential_row option" where
  "credential_for i d = List.find (\<lambda>c. cd_userId c = i \<and> cd_providerId c = ''credential'') (dr_credentials d)"

section \<open>Signing in with a password\<close>

record login_dto =
  ld_email :: string
  ld_password :: string

definition login_failure_audit :: "login_dto \<Rightarrow> http_request \<Rightarrow> exn \<Rightarrow> audit_payload" where
  "login_failure_audit dto rq err =
     (let isForbidden = (case err of ForbiddenException s \<Rightarrow> True | _ \<Rightarrow> False) in
      session_audit ''FAILURE'' None (if isForbidden then ''user_login_email_not_verified'' else ''user_login_failed'')
        ((if isForbidden then ''Login blocked until email verification: '' else ''Failed login attempt for email: '') @ ld_email dto)
        (JObj [(''email'', JStr (ld_email dto)), (''ipAddress'', jopt (client_ip rq)), (''userAgent'', jopt (rq_user_agent rq))])
        (Some (exn_message err)) False)"

definition login_unverified :: exn where "login_unverified = ForbiddenException EMAIL_NOT_VERIFIED_MESSAGE"

definition login_try ::
  "auth_api \<Rightarrow> crypto \<Rightarrow> moment \<Rightarrow> directory_env \<Rightarrow> login_dto \<Rightarrow> http_request \<Rightarrow> sign_state \<Rightarrow> (exn + rotated_tokens) \<times> sign_state" where
  "login_try aa cr m de dto rq s =
     (let email = lower (ld_email dto); d = sg_dir s;
          existing = List.find (\<lambda>r. ac_email r = email) (dr_users d);
          unverified = (case existing of
             None \<Rightarrow> False
           | Some r \<Rightarrow> \<not> ac_emailVerified r \<and>
               (case credential_for (ac_id r) d of
                  None \<Rightarrow> False
                | Some c \<Rightarrow> truthy_str (cd_password c) \<and> aa_verifyPassword aa (the (cd_password c)) (ld_password dto)))
      in if unverified then (Inl login_unverified, requestVerification de email s)
         else case aa_signInEmail aa email (ld_password dto) d of
           Inl msg \<Rightarrow> (Inl (Error msg), s)
         | Inr None \<Rightarrow> (Inl (UnauthorizedException ''Invalid credentials''), s)
         | Inr (Some i) \<Rightarrow>
             (case find_row ac_id i (dr_users d) of
                None \<Rightarrow> (Inl (UnauthorizedException ''User not found''), s)
              | Some user \<Rightarrow>
                  if \<not> ac_emailVerified user then (Inl login_unverified, requestVerification de email s)
                  else issue_for cr m user ''password'' rq [] s))"

text \<open>Only the exceptions of the framework are recorded and passed on; any other becomes a plain refusal.\<close>

definition login ::
  "auth_api \<Rightarrow> crypto \<Rightarrow> moment \<Rightarrow> directory_env \<Rightarrow> login_dto \<Rightarrow> http_request \<Rightarrow> sign_state \<Rightarrow> (exn + rotated_tokens) \<times> sign_state" where
  "login aa cr m de dto rq s =
     (case login_try aa cr m de dto rq s of
        (Inr pair, s') \<Rightarrow> (Inr pair, s')
      | (Inl (UnauthorizedException msg), s') \<Rightarrow>
          (Inl (UnauthorizedException msg), emit_auth ''audit.user.login_failed'' (login_failure_audit dto rq (UnauthorizedException msg)) s')
      | (Inl (ForbiddenException msg), s') \<Rightarrow>
          (Inl (ForbiddenException msg), emit_auth ''audit.user.login_failed'' (login_failure_audit dto rq (ForbiddenException msg)) s')
      | (Inl err, s') \<Rightarrow> (Inl (UnauthorizedException ''Invalid credentials''), s'))"

section \<open>Provider tokens\<close>

record google_config =
  gc_clientId :: string
  gc_clientSecret :: string
  gc_allowedClientIds :: "string list"

record facebook_config =
  fc_appId :: string
  fc_appSecret :: string

record social_config =
  so_google :: "google_config option"
  so_facebook :: "facebook_config option"

definition getSocialAuthConfig :: "(string \<Rightarrow> string option) \<Rightarrow> social_config" where
  "getSocialAuthConfig vars =
     (let get = (\<lambda>k. map_option trim (vars k));
          pair = (\<lambda>a b. truthy_str (get a) \<and> truthy_str (get b)) in
      \<lparr>so_google = (if pair ''GOOGLE_CLIENT_ID'' ''GOOGLE_CLIENT_SECRET'' then
          Some \<lparr>gc_clientId = the (get ''GOOGLE_CLIENT_ID''), gc_clientSecret = the (get ''GOOGLE_CLIENT_SECRET''),
            gc_allowedClientIds = rev (remdups (rev (the (get ''GOOGLE_CLIENT_ID'') # splitList (vars ''GOOGLE_ALLOWED_CLIENT_IDS''))))\<rparr>
        else None),
       so_facebook = (if pair ''FACEBOOK_APP_ID'' ''FACEBOOK_APP_SECRET'' then
          Some \<lparr>fc_appId = the (get ''FACEBOOK_APP_ID''), fc_appSecret = the (get ''FACEBOOK_APP_SECRET'')\<rparr> else None)\<rparr>)"

definition isSocialProviderConfigured :: "string \<Rightarrow> social_config \<Rightarrow> bool" where
  "isSocialProviderConfigured provider cfg =
     (if provider = ''google'' then so_google cfg \<noteq> None else if provider = ''facebook'' then so_facebook cfg \<noteq> None else False)"

text \<open>
  \<open>jwt\<close> verifies a token against the keys of a URL, issuers, audiences and algorithms, answering its nonce
  (\<open>None\<close>: it throws); \<open>debug\<close> is the provider's answer about an access token, if the request succeeds: valid flag,
  application and error.
\<close>

record provider_api =
  pv_jwt :: "string \<Rightarrow> string \<Rightarrow> string list \<Rightarrow> string list \<Rightarrow> string list \<Rightarrow> string option option"
  pv_debug :: "string \<Rightarrow> string \<Rightarrow> (bool \<times> string option \<times> bool) option option"

definition GOOGLE_JWKS_URL :: string where "GOOGLE_JWKS_URL = ''https://www.googleapis.com/oauth2/v3/certs''"
definition GOOGLE_ISSUERS :: "string list" where "GOOGLE_ISSUERS = [''https://accounts.google.com'', ''accounts.google.com'']"
definition FACEBOOK_JWKS_URL :: string where "FACEBOOK_JWKS_URL = ''https://limited.facebook.com/.well-known/oauth/openid/jwks/''"
definition FACEBOOK_ISSUER :: string where "FACEBOOK_ISSUER = ''https://www.facebook.com''"

definition looksLikeJwt :: "string \<Rightarrow> bool" where
  "looksLikeJwt token \<longleftrightarrow> length (split_on CHR ''.'' token) = 3"

definition nonce_accepted :: "string option \<Rightarrow> string option option \<Rightarrow> bool" where
  "nonce_accepted nonce verified \<longleftrightarrow>
     (case verified of None \<Rightarrow> False | Some n \<Rightarrow> \<not> (truthy_str nonce \<and> n \<noteq> nonce))"

definition verifyGoogleIdToken :: "provider_api \<Rightarrow> string \<Rightarrow> string option \<Rightarrow> string list \<Rightarrow> bool" where
  "verifyGoogleIdToken pv token nonce allowedClientIds =
     (if token = [] \<or> \<not> looksLikeJwt token \<or> allowedClientIds = [] then False
      else nonce_accepted nonce (pv_jwt pv token GOOGLE_JWKS_URL GOOGLE_ISSUERS allowedClientIds []))"

definition verifyFacebookToken :: "provider_api \<Rightarrow> string \<Rightarrow> string option \<Rightarrow> facebook_config \<Rightarrow> bool" where
  "verifyFacebookToken pv token nonce cfg =
     (if token = [] then False
      else if looksLikeJwt token
      then nonce_accepted nonce (pv_jwt pv token FACEBOOK_JWKS_URL [FACEBOOK_ISSUER] [fc_appId cfg] [''RS256''])
      else case pv_debug pv token (fc_appId cfg @ ''|'' @ fc_appSecret cfg) of
        Some (Some (is_valid, app_id, has_error)) \<Rightarrow> is_valid \<and> app_id = Some (fc_appId cfg) \<and> \<not> has_error
      | _ \<Rightarrow> False)"

lemma dropWhile_le: "length (dropWhile p s) \<le> length s"
  by (induction s) auto

function split_words :: "string \<Rightarrow> string list" where
  "split_words s = (let t = dropWhile is_space s in
     if t = [] then [] else takeWhile (\<lambda>c. \<not> is_space c) t # split_words (dropWhile (\<lambda>c. \<not> is_space c) t))"
  by pat_completeness auto

termination
proof (relation "measure length")
  fix s t :: string
  assume t: "t = dropWhile is_space s" "t \<noteq> []"
  then have "\<not> is_space (hd t)" using hd_dropWhile by blast
  then have "dropWhile (\<lambda>c. \<not> is_space c) t = dropWhile (\<lambda>c. \<not> is_space c) (tl t)" using t(2) by (cases t) auto
  then have "length (dropWhile (\<lambda>c. \<not> is_space c) t) < length t"
    using dropWhile_le [of _ "tl t"] t(2) by (cases t) (auto simp: le_imp_less_Suc)
  moreover have "length t \<le> length s" unfolding t(1) by (rule dropWhile_le)
  ultimately show "(dropWhile (\<lambda>c. \<not> is_space c) t, s) \<in> measure length" by simp
qed simp

definition splitName :: "string option \<Rightarrow> string option \<times> string option" where
  "splitName full =
     (case split_words (given full) of
        [] \<Rightarrow> (None, None)
      | w # ws \<Rightarrow> (Some w, if ws = [] then None else Some (join_on CHR '' '' ws)))"

record mapped_fields =
  mf_firstName :: "string option"
  mf_lastName :: "string option"
  mf_emailVerified :: "bool option"

definition mapGoogleProfile :: "string option \<Rightarrow> string option \<Rightarrow> string option \<Rightarrow> mapped_fields" where
  "mapGoogleProfile name given_name family_name =
     \<lparr>mf_firstName = (case given_name of Some n \<Rightarrow> Some n | None \<Rightarrow> fst (splitName name)),
      mf_lastName = (case family_name of Some n \<Rightarrow> Some n | None \<Rightarrow> snd (splitName name)), mf_emailVerified = None\<rparr>"

definition mapFacebookProfile :: "string option \<Rightarrow> string option \<Rightarrow> string option \<Rightarrow> mapped_fields" where
  "mapFacebookProfile name first_name last_name =
     \<lparr>mf_firstName = (case first_name of Some n \<Rightarrow> Some n | None \<Rightarrow> fst (splitName name)),
      mf_lastName = (case last_name of Some n \<Rightarrow> Some n | None \<Rightarrow> snd (splitName name)), mf_emailVerified = Some True\<rparr>"

text \<open>
  What the package is configured with for each provider: how to check a token and how to read a profile, given its
  name and its first and last name.
\<close>

record social_provider =
  sp_clientId :: string
  sp_clientSecret :: string
  sp_fields :: "string list"
  sp_verifyIdToken :: "string \<Rightarrow> string option \<Rightarrow> bool"
  sp_mapProfileToUser :: "string option \<Rightarrow> string option \<Rightarrow> string option \<Rightarrow> mapped_fields"
  sp_overrideUserInfoOnSignIn :: bool

definition buildSocialProviders :: "provider_api \<Rightarrow> social_config \<Rightarrow> (string \<times> social_provider) list option" where
  "buildSocialProviders pv cfg =
     (let google = (case so_google cfg of None \<Rightarrow> []
            | Some g \<Rightarrow> [(''google'', \<lparr>sp_clientId = gc_clientId g, sp_clientSecret = gc_clientSecret g, sp_fields = [],
                sp_verifyIdToken = (\<lambda>token nonce. verifyGoogleIdToken pv token nonce (gc_allowedClientIds g)),
                sp_mapProfileToUser = mapGoogleProfile, sp_overrideUserInfoOnSignIn = False\<rparr>)]);
          facebook = (case so_facebook cfg of None \<Rightarrow> []
            | Some f \<Rightarrow> [(''facebook'', \<lparr>sp_clientId = fc_appId f, sp_clientSecret = fc_appSecret f,
                sp_fields = [''first_name'', ''last_name''],
                sp_verifyIdToken = (\<lambda>token nonce. verifyFacebookToken pv token nonce f),
                sp_mapProfileToUser = mapFacebookProfile, sp_overrideUserInfoOnSignIn = False\<rparr>)]);
          providers = google @ facebook
      in if providers = [] then None else Some providers)"

section \<open>Signing in with a provider\<close>

record social_dto =
  sd_provider :: string
  sd_token :: string
  sd_accessToken :: "string option"
  sd_nonce :: "string option"
  sd_inviteToken :: "string option"

definition mapSocialSignInError :: "string \<Rightarrow> string \<Rightarrow> exn" where
  "mapSocialSignInError provider rawMessage =
     (let message = lower rawMessage in
      if str_includes ''email not found'' message \<or> str_includes ''email is required'' message
      then BadRequestException (provider @ '' did not share an email address for this account. Grant the email permission and try again.'')
      else if str_includes ''not linked'' message \<or> str_includes ''unable to link'' message
      then ConflictException
        ''An account with this email already exists and could not be linked automatically. Sign in with your password first.''
      else if str_includes ''provider not found'' message then ServiceUnavailableException (provider @ '' sign-in is not configured'')
      else UnauthorizedException (''Could not verify the '' @ provider @ '' token''))"

definition social_failure_audit :: "string \<Rightarrow> http_request \<Rightarrow> string \<Rightarrow> audit_payload" where
  "social_failure_audit provider rq rawMessage =
     session_audit ''FAILURE'' None ''user_login_failed'' (''Failed '' @ provider @ '' sign-in'')
       (JObj [(''method'', JStr provider), (''ipAddress'', jopt (client_ip rq)), (''userAgent'', jopt (rq_user_agent rq))])
       (Some rawMessage) False"

definition signup_audit :: "string \<Rightarrow> string \<Rightarrow> id \<Rightarrow> (string \<times> json) list \<Rightarrow> audit_payload" where
  "signup_audit action description i metadata =
     (user_audit ''CREATE'' i (Some i) action description JUndefined JUndefined)\<lparr>au_entityId := None, au_metadata := JObj metadata\<rparr>"

definition emitUserRegistered :: "id \<Rightarrow> string \<Rightarrow> string \<Rightarrow> string option \<Rightarrow> sign_state \<Rightarrow> sign_state" where
  "emitUserRegistered i email source inviteToken s =
     s\<lparr>sg_registered := sg_registered s @ [\<lparr>re_user = i, re_email = email, re_source = source,
         re_inviteToken = (case inviteToken of None \<Rightarrow> None | Some t \<Rightarrow> if t \<noteq> [] \<and> length t \<le> 256 then Some t else None)\<rparr>]\<rparr>"

text \<open>
  An account without roles counts as new: it is marked, gets the default role, is announced and welcomed.
\<close>

definition first_sign_in ::
  "directory_env \<Rightarrow> social_dto \<Rightarrow> http_request \<Rightarrow> id \<Rightarrow> string \<Rightarrow> sign_state \<Rightarrow> exn + account_row \<times> sign_state" where
  "first_sign_in de dto rq i email s =
     (case updateUser de i [(''meta'', JObj [(''firstTime'', JBool True)])] (sg_dir s) of
        (Inl err, _) \<Rightarrow> Inl err
      | (Inr _, d1) \<Rightarrow>
          (case assignDefaultRole i d1 of
             Inl err \<Rightarrow> Inl err
           | Inr d2 \<Rightarrow>
               (case find_row ac_id i (dr_users d2) of
                  None \<Rightarrow> Inl (UnauthorizedException ''User not found'')
                | Some user \<Rightarrow>
                    let s1 = emitUserRegistered i email ''social'' (sd_inviteToken dto) (s\<lparr>sg_dir := d2\<rparr>);
                        s2 = emit_auth ''audit.entity.created'' (signup_audit ''user_signup_social''
                               (''New user signed up via '' @ sd_provider dto @ '': '' @ email) i
                               [(''email'', JStr email), (''provider'', JStr (sd_provider dto)),
                                (''ipAddress'', jopt (client_ip rq)), (''userAgent'', jopt (rq_user_agent rq))]) s1
                    in Inr (user, s2\<lparr>sg_dir := snd (sendWelcomeEmail de user (sg_dir s2))\<rparr>))))"

definition socialLogin ::
  "auth_api \<Rightarrow> crypto \<Rightarrow> moment \<Rightarrow> directory_env \<Rightarrow> social_config \<Rightarrow> social_dto \<Rightarrow> http_request \<Rightarrow> sign_state \<Rightarrow>
   (exn + rotated_tokens) \<times> sign_state" where
  "socialLogin aa cr m de cfg dto rq s =
     (let provider = sd_provider dto in
      if \<not> isSocialProviderConfigured provider cfg
      then (Inl (ServiceUnavailableException (provider @ '' sign-in is not configured'')), s)
      else case aa_signInSocial aa provider (sd_token dto) (sd_accessToken dto) (sd_nonce dto) (sg_dir s) of
        Inl msg \<Rightarrow> (Inl (mapSocialSignInError provider msg),
                      emit_auth ''audit.user.login_failed'' (social_failure_audit provider rq msg) s)
      | Inr (None, d1) \<Rightarrow> (Inl (UnauthorizedException ''Social sign-in failed''), s\<lparr>sg_dir := d1\<rparr>)
      | Inr (Some (i, email), d1) \<Rightarrow>
          let s1 = s\<lparr>sg_dir := d1\<rparr> in
          (case find_row ac_id i (dr_users d1) of
             None \<Rightarrow> (Inl (UnauthorizedException ''User not found''), s1)
           | Some user \<Rightarrow>
               let isNewUser = roles_of d1 i = [];
                   extra = [(''newUser'', JBool isNewUser)] in
               if \<not> isNewUser then issue_for cr m user provider rq extra s1
               else case first_sign_in de dto rq i email s1 of
                 Inl err \<Rightarrow> (Inl err, s1\<lparr>sg_dir := snd (updateUser de i [(''meta'', JObj [(''firstTime'', JBool True)])] d1)\<rparr>)
               | Inr (fresh, s2) \<Rightarrow> issue_for cr m fresh provider rq extra s2))"

section \<open>Signing up\<close>

record signup_dto =
  su_firstName :: string
  su_lastName :: string
  su_email :: string
  su_password :: string
  su_image :: "string option"
  su_inviteToken :: "string option"

definition signup_failed :: "exn \<Rightarrow> exn" where
  "signup_failed err =
     (case err of
        BadRequestException s \<Rightarrow> err
      | _ \<Rightarrow> let message = lower (exn_message err) in
            if str_includes ''exist'' message \<or> str_includes ''duplicate'' message
            then BadRequestException ''User with this email already exists'' else BadRequestException ''Failed to create user'')"

definition signup ::
  "directory_env \<Rightarrow> signup_dto \<Rightarrow> http_request \<Rightarrow> sign_state \<Rightarrow> (exn + id \<times> string) \<times> sign_state" where
  "signup de dto rq s =
     (let email = lower (su_email dto); fullName = trim (su_firstName dto @ '' '' @ su_lastName dto) in
      case de_signUp de email (su_password dto) fullName (su_image dto) (sg_dir s) of
        Inl err \<Rightarrow> (Inl (signup_failed err), s)
      | Inr (None, d1) \<Rightarrow> (Inl (BadRequestException ''Failed to create user''), s\<lparr>sg_dir := d1\<rparr>)
      | Inr (Some i, d1) \<Rightarrow>
          (case updateUser de i [(''firstName'', JStr (su_firstName dto)), (''lastName'', JStr (su_lastName dto)),
                  (''meta'', JObj [(''firstTime'', JBool True)])] d1 of
             (Inl err, d2) \<Rightarrow> (Inl (signup_failed err), s\<lparr>sg_dir := d2\<rparr>)
           | (Inr _, d2) \<Rightarrow>
               (case assignDefaultRole i d2 of
                  Inl err \<Rightarrow> (Inl (signup_failed err), s\<lparr>sg_dir := d2\<rparr>)
                | Inr d3 \<Rightarrow>
                    let s1 = emitUserRegistered i email ''signup'' (su_inviteToken dto) (s\<lparr>sg_dir := d3\<rparr>);
                        s2 = requestVerification de email s1
                    in (Inr (i, email), emit_auth ''audit.entity.created'' (signup_audit ''user_signup_verification_required''
                          (''New user signed up and must verify email: '' @ email) i
                          [(''email'', JStr email), (''ipAddress'', jopt (client_ip rq)), (''userAgent'', jopt (rq_user_agent rq))]) s2))))"

section \<open>Passwords\<close>

definition reset_message :: string where
  "reset_message = ''If an account exists with this email, a password reset link has been sent.''"

text \<open>The package answers or throws; the answer to the client is the same.\<close>

definition requestPasswordReset :: "(string \<Rightarrow> directory \<Rightarrow> string + directory) \<Rightarrow> string \<Rightarrow> sign_state \<Rightarrow> string \<times> sign_state" where
  "requestPasswordReset request email s =
     (case request (lower email) (sg_dir s) of Inl _ \<Rightarrow> (reset_message, s) | Inr d \<Rightarrow> (reset_message, s\<lparr>sg_dir := d\<rparr>))"

definition reset_key :: "string \<Rightarrow> string" where "reset_key token = ''reset-password:'' @ token"

definition reset_owner :: "string \<Rightarrow> sign_state \<Rightarrow> id option" where
  "reset_owner token s =
     (case map_of (sg_verifications s) (reset_key token) of
        None \<Rightarrow> None
      | Some value \<Rightarrow>
          (case js_number value of None \<Rightarrow> None | Some x \<Rightarrow> if is_integer x \<and> x > 0 then Some \<lfloor>x\<rfloor> else None))"

definition revoke_all :: "crypto \<Rightarrow> moment \<Rightarrow> id \<Rightarrow> string option \<Rightarrow> sign_state \<Rightarrow> nat \<times> sign_state" where
  "revoke_all cr m i except s =
     (case revokeAllUserTokens cr m i except (auth_db_of s) of (n, db) \<Rightarrow> (n, s\<lparr>sg_sessions := sessions db\<rparr>))"

text \<open>
  Three statements of the reset can fail. A failed lookup of the owner and a failed delete of the link are
  logged and passed over; a failed revocation (of its first statement) ends in the common \<open>catch\<close>, which answers that the
  link is invalid although the password has been changed.
\<close>

record reset_run =
  rr_lookup_ok :: bool
  rr_delete_ok :: bool
  rr_revoke_ok :: bool

definition reset_refused :: exn where
  "reset_refused = BadRequestException ''Invalid or expired reset token''"

definition resetPassword ::
  "auth_api \<Rightarrow> crypto \<Rightarrow> moment \<Rightarrow> reset_run \<Rightarrow> string \<Rightarrow> string \<Rightarrow> sign_state \<Rightarrow> (exn + string) \<times> sign_state" where
  "resetPassword aa cr m run token newPassword s =
     (let owner = (if rr_lookup_ok run then reset_owner token s else None) in
      case aa_resetPassword aa newPassword token (sg_dir s) of
        Inl _ \<Rightarrow> (Inl reset_refused, s)
      | Inr d \<Rightarrow>
          let s1 = s\<lparr>sg_dir := d,
                sg_verifications := (if rr_delete_ok run then filter (\<lambda>(k, _). k \<noteq> reset_key token) (sg_verifications s)
                                     else sg_verifications s)\<rparr>
          in (case owner of
                None \<Rightarrow> (Inr ''Password has been reset successfully'', s1)
              | Some i \<Rightarrow>
                  if \<not> rr_revoke_ok run then (Inl reset_refused, s1)
                  else (Inr ''Password has been reset successfully'', snd (revoke_all cr m i None s1))))"

text \<open>
  The caller: a bearer token, or the cookie of the package. The bearer guard has run before and has lifted an
  expired ban, so the check changes nothing.
\<close>

definition resolveCallerUserId ::
  "auth_api \<Rightarrow> crypto \<Rightarrow> moment \<Rightarrow> http_request \<Rightarrow> string option \<Rightarrow> sign_state \<Rightarrow> (exn + id \<times> string option) \<times> sign_state" where
  "resolveCallerUserId aa cr m rq cookie s =
     (case bearerFromRequest rq of
        Some token \<Rightarrow>
          (case validateAccessToken cr m token (auth_db_of s) of
             (Inl _, _) \<Rightarrow> (Inl (UnauthorizedException ''Invalid or expired access token''), s)
           | (Inr user, db) \<Rightarrow> (Inr (ku_id user, Some token), s))
      | None \<Rightarrow>
          if \<not> truthy_str cookie then (Inl (UnauthorizedException ''Not authenticated''), s)
          else case aa_getSession aa (the cookie) of
            None \<Rightarrow> (Inl (UnauthorizedException ''Not authenticated''), s)
          | Some i \<Rightarrow> (Inr (i, None), s))"

record update_password_dto =
  up_currentPassword :: string
  up_newPassword :: string

definition updatePassword ::
  "auth_api \<Rightarrow> crypto \<Rightarrow> moment \<Rightarrow> directory_env \<Rightarrow> http_request \<Rightarrow> string option \<Rightarrow> update_password_dto \<Rightarrow> sign_state \<Rightarrow>
   (exn + nat) \<times> sign_state" where
  "updatePassword aa cr m de rq cookie dto s =
     (case resolveCallerUserId aa cr m rq cookie s of
        (Inl err, s0) \<Rightarrow> (Inl err, s0)
      | (Inr (userId, current), s0) \<Rightarrow>
          (case credential_for userId (sg_dir s0) of
             None \<Rightarrow> (Inl (BadRequestException ''This account does not use password authentication''), s0)
           | Some credential \<Rightarrow>
               if \<not> truthy_str (cd_password credential)
               then (Inl (BadRequestException ''This account does not use password authentication''), s0)
               else if \<not> aa_verifyPassword aa (the (cd_password credential)) (up_currentPassword dto)
               then (Inl (UnauthorizedException ''Current password is incorrect''), s0)
               else case de_hash de (JStr (up_newPassword dto)) of
                 Inl _ \<Rightarrow> (Inl (BadRequestException ''Failed to update password''), s0)
               | Inr newHash \<Rightarrow>
                   let d = sg_dir s0;
                       s1 = s0\<lparr>sg_dir := d\<lparr>dr_credentials := update_where (\<lambda>c. cd_id c = cd_id credential)
                              (\<lambda>c. c\<lparr>cd_password := Some newHash\<rparr>) (dr_credentials d)\<rparr>\<rparr>;
                       (revoked, s2) = revoke_all cr m userId current s1;
                       d2 = sg_dir s2
                   in (Inr revoked, s2\<lparr>sg_dir := d2\<lparr>dr_events := dr_events d2 @ [PasswordUpdated userId FromChange]\<rparr>\<rparr>)))"

section \<open>Changing the address and deleting the account\<close>

text \<open>
  A session row for one call of the package, removed afterwards whatever the call does; \<open>token\<close> is the random token in it.
\<close>

definition withTemporaryBetterAuthSession ::
  "string \<Rightarrow> id \<Rightarrow> (sign_state \<Rightarrow> 'a \<times> sign_state) \<Rightarrow> sign_state \<Rightarrow> 'a \<times> sign_state" where
  "withTemporaryBetterAuthSession token userId fn s =
     (let (r, s') = fn (s\<lparr>sg_temporary := sg_temporary s @ [(token, userId)]\<rparr>)
      in (r, s'\<lparr>sg_temporary := filter (\<lambda>(t, _). t \<noteq> token) (sg_temporary s')\<rparr>))"

text \<open>A call of the package on the directory; the sessions of an account it deletes go with the account.\<close>

definition with_directory :: "(directory \<Rightarrow> string + directory) \<Rightarrow> sign_state \<Rightarrow> (string + unit) \<times> sign_state" where
  "with_directory call s =
     (case call (sg_dir s) of
        Inl msg \<Rightarrow> (Inl msg, s)
      | Inr d \<Rightarrow> (Inr (), s\<lparr>sg_dir := d, sg_sessions := filter (\<lambda>x. se_userId x \<in> ac_id ` set (dr_users d)) (sg_sessions s),
                          sg_temporary := filter (\<lambda>(_, u). u \<in> ac_id ` set (dr_users d)) (sg_temporary s)\<rparr>))"

definition callBetterAuthAs ::
  "string \<Rightarrow> http_request \<Rightarrow> string option \<Rightarrow> id \<Rightarrow> (directory \<Rightarrow> string + directory) \<Rightarrow> sign_state \<Rightarrow> (string + unit) \<times> sign_state" where
  "callBetterAuthAs token rq cookie userId call s =
     (if bearerFromRequest rq = None \<and> truthy_str cookie then with_directory call s
      else withTemporaryBetterAuthSession token userId (with_directory call) s)"

text \<open>\<open>callback\<close> is the address the link of the mail leads back to.\<close>

definition changeEmail ::
  "auth_api \<Rightarrow> crypto \<Rightarrow> moment \<Rightarrow> string \<Rightarrow> http_request \<Rightarrow> string option \<Rightarrow> string \<Rightarrow> string \<Rightarrow> sign_state \<Rightarrow> (exn + string) \<times> sign_state" where
  "changeEmail aa cr m token rq cookie newEmail callback s =
     (case resolveCallerUserId aa cr m rq cookie s of
        (Inl err, s0) \<Rightarrow> (Inl err, s0)
      | (Inr (userId, _), s0) \<Rightarrow>
          (case callBetterAuthAs token rq cookie userId (aa_changeEmail aa userId (lower newEmail) callback) s0 of
             (Inl msg, s1) \<Rightarrow> (Inl (BadRequestException msg), s1)
           | (Inr _, s1) \<Rightarrow> (Inr ''A confirmation link has been sent to your current email address.'', s1)))"

definition requestAccountDeletion ::
  "auth_api \<Rightarrow> crypto \<Rightarrow> moment \<Rightarrow> string \<Rightarrow> http_request \<Rightarrow> string option \<Rightarrow> sign_state \<Rightarrow> (exn + string) \<times> sign_state" where
  "requestAccountDeletion aa cr m token rq cookie s =
     (case resolveCallerUserId aa cr m rq cookie s of
        (Inl err, s0) \<Rightarrow> (Inl err, s0)
      | (Inr (userId, _), s0) \<Rightarrow>
          (case callBetterAuthAs token rq cookie userId (aa_deleteUser aa userId None) s0 of
             (Inl msg, s1) \<Rightarrow> (Inl (BadRequestException msg), s1)
           | (Inr _, s1) \<Rightarrow> (Inr (''A confirmation link has been sent to your email address. '' @
               ''Your account will not be deleted until you confirm.''), s1)))"

definition confirmAccountDeletion ::
  "auth_api \<Rightarrow> crypto \<Rightarrow> moment \<Rightarrow> string \<Rightarrow> http_request \<Rightarrow> string option \<Rightarrow> string \<Rightarrow> sign_state \<Rightarrow> (exn + string) \<times> sign_state" where
  "confirmAccountDeletion aa cr m token rq cookie deletionToken s =
     (case resolveCallerUserId aa cr m rq cookie s of
        (Inl err, s0) \<Rightarrow> (Inl err, s0)
      | (Inr (userId, _), s0) \<Rightarrow>
          (case callBetterAuthAs token rq cookie userId (aa_deleteUser aa userId (Some deletionToken)) s0 of
             (Inl _, s1) \<Rightarrow> (Inl (BadRequestException ''Invalid or expired deletion token''), s1)
           | (Inr _, s1) \<Rightarrow> (Inr ''Your account has been deleted.'', snd (revoke_all cr m userId None s1))))"

end
