(* ===== verification/Administration.thy ===== *)
theory Administration
  imports Account
begin

text \<open>
  The endpoints around accounts: the gate service (\<open>src/gate/gate.service.ts\<close>), the user controller
  (\<open>src/user/user.controller.ts\<close>) with the interceptor that cleans its answers
  (\<open>src/shared/interceptors/sanitize-user.interceptor.ts\<close>), and the admin controller
  (\<open>src/admin/admin.controller.ts\<close>).
\<close>

section \<open>Gates\<close>

record gate_dto =
  gd_name :: "string option"
  gd_description :: "string option"

definition unknown_argument :: "string \<Rightarrow> exn" where
  "unknown_argument k = Error (''Unknown argument `'' @ k @ ''`'')"

definition gate_taken :: "string \<Rightarrow> exn" where
  "gate_taken name = ConflictException (''Gate with name \"'' @ name @ ''\" already exists'')"

text \<open>The table has no column for the description, and its slug, empty by default, is unique.\<close>

definition createGate :: "gate_dto \<Rightarrow> directory \<Rightarrow> (exn + gate_row) \<times> directory" where
  "createGate dto d =
     (let name = given (gd_name dto) in
      if list_ex (\<lambda>g. ga_name g = name) (dr_gates d) then (Inl (gate_taken name), d)
      else if gd_description dto \<noteq> None then (Inl (unknown_argument ''description''), d)
      else if list_ex (\<lambda>g. ga_slug g = []) (dr_gates d) then (Inl (Error ''Unique constraint failed on the fields: (`slug`)''), d)
      else let gate = \<lparr>ga_id = next_id ga_id (dr_gates d), ga_slug = [], ga_name = name, ga_active = True\<rparr>
           in (Inr gate, d\<lparr>dr_gates := dr_gates d @ [gate]\<rparr>))"

definition findAllGates :: "(gate_row list \<Rightarrow> gate_row list) \<Rightarrow> directory \<Rightarrow> gate_row list" where
  "findAllGates by_name d = by_name (dr_gates d)"

definition findOneGate :: "id \<Rightarrow> directory \<Rightarrow> exn + gate_row" where
  "findOneGate i d = (case find_row ga_id i (dr_gates d) of None \<Rightarrow> Inl (gate_missing i) | Some g \<Rightarrow> Inr g)"

definition updateGate :: "id \<Rightarrow> gate_dto \<Rightarrow> directory \<Rightarrow> (exn + gate_row) \<times> directory" where
  "updateGate i dto d =
     (case findOneGate i d of
        Inl err \<Rightarrow> (Inl err, d)
      | Inr gate \<Rightarrow>
          if truthy_str (gd_name dto) \<and> list_ex (\<lambda>g. ga_name g = the (gd_name dto) \<and> ga_id g \<noteq> i) (dr_gates d)
          then (Inl (gate_taken (the (gd_name dto))), d)
          else if gd_description dto \<noteq> None then (Inl (unknown_argument ''description''), d)
          else if \<not> truthy_str (gd_name dto) \<and> gd_name dto \<noteq> None \<and> list_ex (\<lambda>g. ga_name g = [] \<and> ga_id g \<noteq> i) (dr_gates d)
          then (Inl (Error ''Unique constraint failed on the fields: (`name`)''), d)
          else let gate' = (case gd_name dto of None \<Rightarrow> gate | Some n \<Rightarrow> gate\<lparr>ga_name := n\<rparr>)
               in (Inr gate', d\<lparr>dr_gates := update_where (\<lambda>g. ga_id g = i) (\<lambda>_. gate') (dr_gates d)\<rparr>))"

text \<open>Both statements filter by \<open>gateId\<close>, which the table calls \<open>gate_id\<close>; the client refuses them.\<close>

definition removeGateRow :: "id \<Rightarrow> directory \<Rightarrow> (exn + gate_row) \<times> directory" where
  "removeGateRow i d =
     (case findOneGate i d of Inl err \<Rightarrow> (Inl err, d) | Inr gate \<Rightarrow> (Inl (unknown_argument ''gateId''), d))"

definition getUsersWithGate :: "id \<Rightarrow> directory \<Rightarrow> exn + gate_row \<times> account_row list" where
  "getUsersWithGate gateId d =
     (case findOneGate gateId d of Inl err \<Rightarrow> Inl err | Inr gate \<Rightarrow> Inl (unknown_argument ''gateId''))"

section \<open>Cleaning an answer\<close>

definition drop_keys :: "string list \<Rightarrow> json \<Rightarrow> json" where
  "drop_keys ks v = (case v of JObj ps \<Rightarrow> JObj (filter (\<lambda>(k, _). k \<notin> set ks) ps) | _ \<Rightarrow> v)"

definition account_secrets :: "string list" where
  "account_secrets = [''password'', ''refreshToken'', ''accessToken'', ''idToken'']"

definition session_secrets :: "string list" where "session_secrets = [''token'']"

definition has_key :: "string \<Rightarrow> (string \<times> json) list \<Rightarrow> bool" where
  "has_key k ps \<longleftrightarrow> k \<in> set (map fst ps)"

definition isUserObject :: "(string \<times> json) list \<Rightarrow> bool" where
  "isUserObject ps \<longleftrightarrow> has_key ''email'' ps \<and> (has_key ''id'' ps \<or> has_key ''createdAt'' ps)"

text \<open>The first step of \<open>sanitizeUser\<close> on one property.\<close>

definition strip_secrets :: "string \<Rightarrow> json \<Rightarrow> json" where
  "strip_secrets k v =
     (case v of
        JArr xs \<Rightarrow> if k = ''accounts'' then JArr (map (drop_keys account_secrets) xs)
                   else if k = ''sessions'' then JArr (map (drop_keys session_secrets) xs) else v
      | _ \<Rightarrow> v)"

definition items_of :: "(string \<times> json) list \<Rightarrow> json list option" where
  "items_of ps = (case map_of ps ''items'' of Some (JArr xs) \<Rightarrow> Some xs | _ \<Rightarrow> None)"

lemma size_drop_keys: "size (drop_keys ks v) \<le> size v"
proof (cases v)
  case (JObj ps)
  have "size_list (size_prod (\<lambda>_. 0) size) (filter (\<lambda>(k, _). k \<notin> set ks) ps) \<le> size_list (size_prod (\<lambda>_. 0) size) ps"
    by (induction ps) auto
  then show ?thesis by (simp add: JObj drop_keys_def)
qed (simp_all add: drop_keys_def)

lemma size_strip_secrets: "size (strip_secrets k v) \<le> size v"
proof (cases v)
  case (JArr xs)
  have "size_list size (map (drop_keys ks) xs) \<le> size_list size xs" for ks
    by (induction xs) (auto intro: add_mono size_drop_keys)
  then show ?thesis by (simp add: JArr strip_secrets_def)
qed (simp_all add: strip_secrets_def)

lemma size_obj_value: "(k, v) \<in> set ps \<Longrightarrow> size v < size (JObj ps)"
  by (induction ps) auto

lemma size_arr_elem: "x \<in> set xs \<Longrightarrow> size x < size (JArr xs)"
  by (induction xs) auto

function sanitizeUserData :: "json \<Rightarrow> json" where
  "sanitizeUserData (JArr xs) = JArr (map sanitizeUserData xs)"
| "sanitizeUserData (JObj ps) =
     JObj (map (\<lambda>(k, v).
       (k, if items_of ps \<noteq> None then (if k = ''items'' then sanitizeUserData v else v)
           else if isUserObject ps then sanitizeUserData (strip_secrets k v)
           else sanitizeUserData v)) ps)"
| "sanitizeUserData JUndefined = JUndefined"
| "sanitizeUserData JNull = JNull"
| "sanitizeUserData (JBool b) = JBool b"
| "sanitizeUserData (JNum x) = JNum x"
| "sanitizeUserData (JStr s) = JStr s"
| "sanitizeUserData (JDate t) = JDate t"
  by pat_completeness auto

termination
proof (relation "measure size")
  fix ps :: "(string \<times> json) list" and z k v
  assume z: "z \<in> set ps" "(k, v) = z"
  then have *: "size v < size (JObj ps)" using size_obj_value by blast
  show "(v, JObj ps) \<in> measure size" using * by simp
  show "(strip_secrets k v, JObj ps) \<in> measure size" using le_less_trans [OF size_strip_secrets *] by simp
  show "(v, JObj ps) \<in> measure size" using * by simp
qed (auto dest: size_arr_elem)

section \<open>The user endpoints\<close>

definition roles_route :: "string list \<Rightarrow> route" where
  "roles_route roles = \<lparr>rr_guards = [RolesGuard], rr_anonymous = False, rr_clientKey = False, rr_roles = roles, rr_minLevel = None\<rparr>"

definition open_route :: route where
  "open_route = \<lparr>rr_guards = [], rr_anonymous = False, rr_clientKey = False, rr_roles = [], rr_minLevel = None\<rparr>"

definition CROSS_USER_UPDATE_ROLES :: "string list" where
  "CROSS_USER_UPDATE_ROLES = [''admin'', ''manager'']"

definition hasCrossUserUpdateRole :: "token_user \<Rightarrow> bool" where
  "hasCrossUserUpdateRole session \<longleftrightarrow>
     list_ex (\<lambda>(_, slug, _, _). slug \<noteq> [] \<and> slug \<in> set CROSS_USER_UPDATE_ROLES) (ku_roles session)"

text \<open>The properties of the published body. No pipe validates it, so any JSON object arrives at the endpoint.\<close>

definition update_user_fields :: "string list" where
  "update_user_fields = [''firstName'', ''lastName'', ''name'', ''email'', ''image'', ''emailVerified'', ''password'']"

definition updateUserEndpoint ::
  "directory_env \<Rightarrow> token_user \<Rightarrow> id \<Rightarrow> (string \<times> json) list \<Rightarrow> directory \<Rightarrow> (exn + account_row) \<times> directory" where
  "updateUserEndpoint de session i updateUserDto d =
     (let canManageUsers = hasCrossUserUpdateRole session in
      if ku_id session \<noteq> i \<and> \<not> canManageUsers
      then (Inl (ForbiddenException ''You do not have permission to update this user''), d)
      else if \<not> canManageUsers \<and> (case map_of updateUserDto ''emailVerified'' of None \<Rightarrow> False | Some v \<Rightarrow> v \<noteq> JUndefined)
      then (Inl (ForbiddenException ''You do not have permission to update email verification status''), d)
      else updateUser de i updateUserDto d)"

definition parse_include :: "string option \<Rightarrow> string list" where
  "parse_include include = (if truthy_str include then map trim (split_on CHR '','' (the include)) else [])"

definition findOneUserEndpoint :: "directory_env \<Rightarrow> token_user \<Rightarrow> id \<Rightarrow> string option \<Rightarrow> directory \<Rightarrow> exn + json" where
  "findOneUserEndpoint de session i include d =
     (case findOneUser de (\<lambda>r. ac_id r = i) (parse_include include) d of
        Inl err \<Rightarrow> Inl err
      | Inr None \<Rightarrow> Inl (user_missing i)
      | Inr (Some user) \<Rightarrow> Inr (sanitizeUserData user))"

definition findByEmail :: "directory_env \<Rightarrow> string \<Rightarrow> string option \<Rightarrow> directory \<Rightarrow> exn + json" where
  "findByEmail de email include d =
     (case findOneUser de (\<lambda>r. ac_email r = lower email) (parse_include include) d of
        Inl err \<Rightarrow> Inl err
      | Inr None \<Rightarrow> Inl (NotFoundException (''User with email '' @ email @ '' not found''))
      | Inr (Some user) \<Rightarrow> Inr (sanitizeUserData user))"

text \<open>
  \<open>None\<close>: undefined; otherwise the id and the roles when they are loaded. The session the bearer guard builds
  has no property \<open>user\<close>, and the listing reads a property of it first.
\<close>

definition max_level :: "role_row list \<Rightarrow> int" where
  "max_level roles = foldl (\<lambda>m r. if ro_level r > m then ro_level r else m) 0 roles"

definition userMaxLevel :: "(id \<times> role_row list option) option \<Rightarrow> directory \<Rightarrow> exn + int" where
  "userMaxLevel user d =
     (case user of
        None \<Rightarrow> Inl (TypeError ''Cannot read properties of undefined'')
      | Some (i, Some roles) \<Rightarrow> Inr (max_level roles)
      | Some (i, None) \<Rightarrow>
          if find_row ac_id i (dr_users d) = None then Inl (TypeError ''Cannot read properties of null'')
          else Inr (max_level (roles_of d i)))"

definition session_user :: "token_user \<Rightarrow> (id \<times> role_row list option) option" where
  "session_user session = None"

definition findAllUsers ::
  "(account_row list \<Rightarrow> account_row list) \<Rightarrow> token_user \<Rightarrow> (account_row \<Rightarrow> bool) \<Rightarrow> nat \<Rightarrow> nat \<Rightarrow> directory \<Rightarrow>
   exn + account_row page" where
  "findAllUsers order session email_filter limit offset d =
     (case userMaxLevel (session_user session) d of
        Inl err \<Rightarrow> Inl err
      | Inr _ \<Rightarrow> Inr (findManyUsers order email_filter limit offset (Some 99) None d))"

section \<open>The admin endpoints\<close>

definition admin_route :: "int \<Rightarrow> route" where
  "admin_route level = \<lparr>rr_guards = [RolesGuard, MinUserLevelGuard], rr_anonymous = False, rr_clientKey = False,
     rr_roles = [''admin''], rr_minLevel = Some level\<rparr>"

record ban_dto =
  bd_reason :: "string option"
  bd_expiresInMinutes :: "rat option"

definition js_truncate :: "rat \<Rightarrow> int" where
  "js_truncate x = (if 0 \<le> x then \<lfloor>x\<rfloor> else \<lceil>x\<rceil>)"

definition ban_until :: "directory_env \<Rightarrow> ban_dto \<Rightarrow> time option" where
  "ban_until de body =
     (if truthy_num (bd_expiresInMinutes body)
      then Some (js_truncate (of_int (de_clock de) + the (bd_expiresInMinutes body) * 60 * 1000)) else None)"

definition ban_reason :: "ban_dto \<Rightarrow> string" where
  "ban_reason body = (if truthy_str (bd_reason body) then the (bd_reason body) else ''Banned by administrator'')"

definition banUser :: "directory_env \<Rightarrow> id \<Rightarrow> ban_dto \<Rightarrow> directory \<Rightarrow> (exn + id \<times> string \<times> time option) \<times> directory" where
  "banUser de userId body d =
     (case find_row ac_id userId (dr_users d) of
        None \<Rightarrow> (Inl (Error ''User not found''), d)
      | Some _ \<Rightarrow>
          (case updateUser de userId [(''banned'', JBool True), (''banReason'', JStr (ban_reason body)),
                  (''banExpires'', jdate_opt (ban_until de body))] d of
             (Inl err, d') \<Rightarrow> (Inl err, d')
           | (Inr _, d') \<Rightarrow> (Inr (userId, ban_reason body, ban_until de body), d')))"

definition unbanUser :: "directory_env \<Rightarrow> id \<Rightarrow> directory \<Rightarrow> (exn + id) \<times> directory" where
  "unbanUser de userId d =
     (case find_row ac_id userId (dr_users d) of
        None \<Rightarrow> (Inl (Error ''User not found''), d)
      | Some _ \<Rightarrow>
          (case updateUser de userId [(''banned'', JBool False), (''banReason'', JNull), (''banExpires'', JNull)] d of
             (Inl err, d') \<Rightarrow> (Inl err, d') | (Inr _, d') \<Rightarrow> (Inr userId, d')))"

text \<open>The path parameter arrives as text, while the column is an integer.\<close>

definition revokeSession :: "string \<Rightarrow> auth_db \<Rightarrow> (exn + string) \<times> auth_db" where
  "revokeSession sessionId db = (Inl (Error ''Invalid invocation: Invalid value provided''), db)"

definition revokeUserSessions :: "crypto \<Rightarrow> moment \<Rightarrow> id \<Rightarrow> auth_db \<Rightarrow> (id \<times> nat) \<times> auth_db" where
  "revokeUserSessions cr m userId db =
     (case revokeAllUserTokens cr m userId None db of (revokedCount, db') \<Rightarrow> ((userId, revokedCount), db'))"

definition assignRole :: "id \<Rightarrow> id \<Rightarrow> directory \<Rightarrow> (exn + role_row) \<times> directory" where
  "assignRole userId roleId d =
     (case find_row ac_id userId (dr_users d) of
        None \<Rightarrow> (Inl (Error ''User not found''), d)
      | Some _ \<Rightarrow>
          (case find_row ro_id roleId (dr_roles d) of
             None \<Rightarrow> (Inl (Error ''Role not found''), d)
           | Some role \<Rightarrow>
               if (userId, roleId) \<in> set (dr_userRoles d) then (Inl (Error ''User already has this role''), d)
               else (Inr role, d\<lparr>dr_userRoles := dr_userRoles d @ [(userId, roleId)]\<rparr>)))"

definition removeRole :: "id \<Rightarrow> id \<Rightarrow> directory \<Rightarrow> (exn + unit) \<times> directory" where
  "removeRole userId roleId d =
     (if (userId, roleId) \<notin> set (dr_userRoles d) then (Inl (Error ''User does not have this role''), d)
      else (Inr (), d\<lparr>dr_userRoles := filter (\<lambda>p. p \<noteq> (userId, roleId)) (dr_userRoles d)\<rparr>))"

record system_stats =
  st_users :: nat
  st_banned :: nat
  st_active :: int
  st_sessions :: nat
  st_roles :: nat
  st_gates :: nat

definition getStats :: "directory \<Rightarrow> auth_db \<Rightarrow> system_stats" where
  "getStats d db =
     (let totalUsers = length (dr_users d); bannedUsers = count_where ac_banned (dr_users d) in
      \<lparr>st_users = totalUsers, st_banned = bannedUsers, st_active = int totalUsers - int bannedUsers,
       st_sessions = count_where (\<lambda>s. \<not> se_revoked s) (sessions db), st_roles = length (dr_roles d),
       st_gates = length (dr_gates d)\<rparr>)"

section \<open>A request on behalf of an account\<close>

datatype account_request =
    CreateUser create_user_dto
  | UpdateUser id "(string \<times> json) list"
  | DeleteUser id
  | AssignUserGate id id
  | RemoveUserGate id id
  | BanUser id ban_dto
  | UnbanUser id
  | AssignRole id id
  | RemoveRole id id
  | CreateGate gate_dto
  | UpdateGate id gate_dto
  | DeleteGate id

primrec account_route :: "account_request \<Rightarrow> route" where
  "account_route (CreateUser dto) = roles_route [''admin'']"
| "account_route (UpdateUser i body) = open_route"
| "account_route (DeleteUser i) = roles_route [''admin'']"
| "account_route (AssignUserGate i g) = roles_route [''admin'', ''manager'']"
| "account_route (RemoveUserGate i g) = roles_route [''admin'', ''manager'']"
| "account_route (BanUser i body) = admin_route 10"
| "account_route (UnbanUser i) = admin_route 10"
| "account_route (AssignRole i r) = admin_route 10"
| "account_route (RemoveRole i r) = admin_route 10"
| "account_route (CreateGate dto) = roles_route [''admin'']"
| "account_route (UpdateGate i dto) = roles_route [''admin'']"
| "account_route (DeleteGate i) = roles_route [''admin'']"

primrec perform :: "directory_env \<Rightarrow> token_user \<Rightarrow> account_request \<Rightarrow> directory \<Rightarrow> directory" where
  "perform de session (CreateUser dto) d = snd (storeUser de dto d)"
| "perform de session (UpdateUser i body) d = snd (updateUserEndpoint de session i body d)"
| "perform de session (DeleteUser i) d = snd (deleteUser i d)"
| "perform de session (AssignUserGate i g) d = snd (assignGate i g d)"
| "perform de session (RemoveUserGate i g) d = snd (removeGate i g d)"
| "perform de session (BanUser i body) d = snd (banUser de i body d)"
| "perform de session (UnbanUser i) d = snd (unbanUser de i d)"
| "perform de session (AssignRole i r) d = snd (assignRole i r d)"
| "perform de session (RemoveRole i r) d = snd (removeRole i r d)"
| "perform de session (CreateGate dto) d = snd (createGate dto d)"
| "perform de session (UpdateGate i dto) d = snd (updateGate i dto d)"
| "perform de session (DeleteGate i) d = snd (removeGateRow i d)"

text \<open>The role and level guards of the route for a request that carries the session.\<close>

definition request_of :: "token_user \<Rightarrow> http_request" where
  "request_of session =
     \<lparr>rq_authorization = None, rq_client_key = None, rq_forwarded_for = None, rq_user_agent = None, rq_ips = [],
      rq_ip = None, rq_remoteAddress = None, rq_user = Some session, rq_session = Some session\<rparr>"

definition admitted :: "route \<Rightarrow> token_user \<Rightarrow> bool" where
  "admitted rt session \<longleftrightarrow> list_all (\<lambda>g.
     case g of RolesGuard \<Rightarrow> is_ok (rolesCanActivate rt (request_of session))
             | MinUserLevelGuard \<Rightarrow> is_ok (minLevelCanActivate rt (request_of session)) | _ \<Rightarrow> True) (rr_guards rt)"

text \<open>
  The account behind an accepted access token: no account and a running ban refuse the request, and an expired
  ban is lifted (\<open>validateAccessToken\<close>).
\<close>

definition running_ban :: "time \<Rightarrow> account_row \<Rightarrow> bool" where
  "running_ban instant r \<longleftrightarrow> ac_banned r \<and> (case ac_banExpires r of None \<Rightarrow> True | Some t \<Rightarrow> t > instant)"

definition lift_ban :: "time \<Rightarrow> account_row \<Rightarrow> account_row" where
  "lift_ban instant r =
     (if ac_banned r then r\<lparr>ac_banned := False, ac_banReason := None, ac_banExpires := None, ac_updatedAt := instant\<rparr> else r)"

definition serve_account :: "directory_env \<Rightarrow> id \<Rightarrow> account_request \<Rightarrow> directory \<Rightarrow> directory" where
  "serve_account de u req d =
     (case find_row ac_id u (dr_users d) of
        None \<Rightarrow> d
      | Some r \<Rightarrow>
          if running_ban (de_clock de) r then d
          else
            let session = token_user_of (auth_user_of d r); d1 = put_account (lift_ban (de_clock de) r) d
            in if admitted (account_route req) session then perform de session req d1 else d1)"

end
