(* ===== verification/AccountProperties.thy ===== *)
theory AccountProperties
  imports Administration TokenSafety
begin

text \<open>
  What holds over any sequence of account requests: what accounts without an administrative role can change,
  the constraints of the directory, what a ban does to the tokens of the banned account, and what an answer
  about an account does not carry; with the requests that break the first of these because bodies are not validated.
\<close>

section \<open>Column writes\<close>

lemma set_column_cases:
  assumes "set_column parse k v r = Some r'"
  shows "ac_id r' = ac_id r \<and> ac_createdAt r' = ac_createdAt r \<and>
    (k \<noteq> ''email'' \<longrightarrow> ac_email r' = ac_email r) \<and> (k \<noteq> ''emailVerified'' \<longrightarrow> ac_emailVerified r' = ac_emailVerified r) \<and>
    (k \<noteq> ''banned'' \<longrightarrow> ac_banned r' = ac_banned r) \<and> (k \<noteq> ''banExpires'' \<longrightarrow> ac_banExpires r' = ac_banExpires r)"
  using assms by (auto simp: set_column_def Let_def split: if_splits)

text \<open>A column that no other key writes keeps its value unless its key is among the written ones.\<close>

lemma set_columns_keep:
  assumes "\<And>k v r r'. set_column parse k v r = Some r' \<Longrightarrow> k \<noteq> name \<Longrightarrow> col r' = col r"
    and "set_columns parse kvs r = Some r'" and "name \<notin> set (map fst kvs)"
  shows "col r' = col r"
  using assms(2,3)
proof (induction kvs arbitrary: r)
  case (Cons kv kvs)
  then obtain q where q: "set_column parse (fst kv) (snd kv) r = Some q" "set_columns parse kvs q = Some r'"
    by (auto split: Option.bind_splits)
  have "col q = col r" using assms(1) [OF q(1)] Cons.prems(2) by (metis list.set_intros(1) list.simps(9))
  moreover have "col r' = col q" using Cons.IH [OF q(2)] Cons.prems(2) by simp
  ultimately show ?case by simp
qed simp

lemma set_columns_id:
  assumes "set_columns parse kvs r = Some r'"
  shows "ac_id r' = ac_id r \<and> ac_createdAt r' = ac_createdAt r"
  using assms
proof (induction kvs arbitrary: r)
  case (Cons kv kvs)
  then obtain q where q: "set_column parse (fst kv) (snd kv) r = Some q" "set_columns parse kvs q = Some r'"
    by (auto split: Option.bind_splits)
  show ?case using set_column_cases [OF q(1)] Cons.IH [OF q(2)] by metis
qed simp

lemmas set_columns_email = set_columns_keep [where name = "''email''" and col = ac_email]
lemmas set_columns_verified = set_columns_keep [where name = "''emailVerified''" and col = ac_emailVerified]

definition defined_in :: "(string \<times> json) list \<Rightarrow> string \<Rightarrow> bool" where
  "defined_in data k \<longleftrightarrow> map_of data k \<noteq> None \<and> map_of data k \<noteq> Some JUndefined"

lemma defined_in_keys: "defined_in data k \<Longrightarrow> k \<in> set (map fst data)"
  by (auto simp: defined_in_def map_of_eq_None_iff)

lemma defined_in_filter: "defined_in (filter (\<lambda>(k, _). k \<noteq> x) data) k \<Longrightarrow> defined_in data k"
proof -
  have "map_of (filter (\<lambda>(k, _). k \<noteq> x) data) k = (if k = x then None else map_of data k)"
    by (induction data) auto
  then show "defined_in (filter (\<lambda>(k, _). k \<noteq> x) data) k \<Longrightarrow> defined_in data k"
    by (auto simp: defined_in_def split: if_splits)
qed

lemma pick_keys:
  assumes "k \<in> set (map fst (pick names data))"
  shows "k \<in> set names \<and> defined_in data k"
proof -
  obtain f where f: "f \<in> set names" "k \<in> fst ` set (case map_of data f of None \<Rightarrow> [] | Some v \<Rightarrow> if v = JUndefined then [] else [(f, v)])"
    using assms by (auto simp: pick_def)
  then have "k = f" and "defined_in data f" by (cases "map_of data f"; auto simp: defined_in_def split: if_splits)+
  then show ?thesis using f(1) by simp
qed

lemma writable_names:
  "''id'' \<notin> set (fm_updatableScalarFields getUserFieldMetadata)" "''createdAt'' \<notin> set (fm_updatableScalarFields getUserFieldMetadata)"
  "''id'' \<notin> set (fm_relationFields getUserFieldMetadata)" "''createdAt'' \<notin> set (fm_relationFields getUserFieldMetadata)"
  by code_simp+

lemma sanitized_keys:
  assumes "k \<in> set (map fst (sanitizeUpdateData data getUserFieldMetadata))"
  shows "defined_in data k \<and> k \<noteq> ''id'' \<and> k \<noteq> ''createdAt''"
proof -
  have "k \<in> set (map fst (pick (fm_updatableScalarFields getUserFieldMetadata) data)) \<or>
      k \<in> set (map fst (pick (fm_relationFields getUserFieldMetadata) data))"
    using assms unfolding sanitizeUpdateData_def by force
  then obtain names where "k \<in> set names" and "defined_in data k"
    and "names = fm_updatableScalarFields getUserFieldMetadata \<or> names = fm_relationFields getUserFieldMetadata"
    using pick_keys by blast
  then show ?thesis using writable_names by blast
qed

section \<open>Writes to one account\<close>

text \<open>The tables an update of an account without relation writes leaves alone.\<close>

definition same_assignments :: "directory \<Rightarrow> directory \<Rightarrow> bool" where
  "same_assignments d e \<longleftrightarrow> dr_roles e = dr_roles d \<and> dr_gates e = dr_gates d \<and> dr_userRoles e = dr_userRoles d \<and> dr_userGates e = dr_userGates d"

lemma same_assignments_refl [simp]: "same_assignments d d" by (simp add: same_assignments_def)

lemma same_assignments_trans [trans]: "same_assignments d e \<Longrightarrow> same_assignments e f \<Longrightarrow> same_assignments d f"
  by (simp add: same_assignments_def)

lemma emitAudit_tables [simp]:
  "dr_users (emitAudit x a d) = dr_users d" "dr_credentials (emitAudit x a d) = dr_credentials d"
  "same_assignments d (emitAudit x a e) = same_assignments d e"
  by (simp_all add: emitAudit_def same_assignments_def)

lemma put_account_tables [simp]:
  "dr_credentials (put_account r d) = dr_credentials d" "same_assignments d' (put_account r d) = same_assignments d' d"
  "map ac_id (dr_users (put_account r d)) = map ac_id (dr_users d)"
  by (auto simp: put_account_def same_assignments_def update_where_def)

lemma find_put_account:
  "find_row ac_id i (dr_users (put_account r d)) =
     (if i = ac_id r then map_option (\<lambda>_. r) (find_row ac_id i (dr_users d)) else find_row ac_id i (dr_users d))"
proof -
  have "find_row ac_id i (update_where (\<lambda>x. ac_id x = ac_id r) (\<lambda>_. r) rows) =
      (if i = ac_id r then map_option (\<lambda>_. r) (find_row ac_id i rows) else find_row ac_id i rows)" for rows
    by (induction rows) (auto simp: update_where_def)
  then show ?thesis by (simp add: put_account_def)
qed

text \<open>Scalar columns only: one row changes, keeping its identity.\<close>

definition one_row_written :: "id \<Rightarrow> directory \<Rightarrow> directory \<Rightarrow> bool" where
  "one_row_written i d e \<longleftrightarrow>
     same_assignments d e \<and> map ac_id (dr_users e) = map ac_id (dr_users d) \<and>
     (\<forall>j. j \<noteq> i \<longrightarrow> find_row ac_id j (dr_users e) = find_row ac_id j (dr_users d)) \<and>
     map cd_id (dr_credentials e) = map cd_id (dr_credentials d) \<and>
     filter (\<lambda>c. cd_userId c \<noteq> i) (dr_credentials e) = filter (\<lambda>c. cd_userId c \<noteq> i) (dr_credentials d)"

lemma one_row_refl [simp]: "one_row_written i d d" by (simp add: one_row_written_def)

lemma one_row_trans: "one_row_written i d e \<Longrightarrow> one_row_written i e f \<Longrightarrow> one_row_written i d f"
  by (auto simp: one_row_written_def intro: same_assignments_trans)

lemma one_row_put: "ac_id r = i \<Longrightarrow> one_row_written i d (put_account r d)"
  by (simp add: one_row_written_def find_put_account)

definition no_relations :: "(string \<times> json) list \<Rightarrow> bool" where
  "no_relations data \<longleftrightarrow> (\<forall>k \<in> set (map fst data). k \<notin> set getUserRelationFields)"

lemma write_user_scalar:
  assumes "write_user de row data d = Inr e" and "no_relations data"
  obtains row' where "set_columns (de_isoDate de) data (row\<lparr>ac_updatedAt := de_clock de\<rparr>) = Some row'" and "e = put_account row' d"
    and "\<forall>r \<in> set (dr_users d). ac_id r \<noteq> ac_id row \<longrightarrow> ac_email r \<noteq> ac_email row'"
proof -
  have f: "filter (\<lambda>kv. fst kv \<notin> set getUserRelationFields) data = data"
    "filter (\<lambda>kv. fst kv \<in> set getUserRelationFields) data = []"
    using assms(2) by (auto simp: no_relations_def filter_empty_conv)
  show thesis
    using assms(1) that unfolding write_user_def Let_def f by (auto simp: list_ex_iff split: option.splits if_splits)
qed

lemma one_row_audit [simp]: "one_row_written i d (emitAudit x a e) = one_row_written i d e"
  by (simp add: one_row_written_def)

lemma updateUserPassword_frame:
  assumes "distinct (map cd_id (dr_credentials d))"
  shows "one_row_written i d (snd (updateUserPassword de i pw d))" and "dr_users (snd (updateUserPassword de i pw d)) = dr_users d"
proof -
  have "one_row_written i d (d\<lparr>dr_credentials := update_where (\<lambda>c. cd_id c = cd_id x) (\<lambda>c. c\<lparr>cd_password := p\<rparr>) (dr_credentials d),
      dr_events := es\<rparr>)" if x: "x \<in> set (dr_credentials d)" "cd_userId x = i" for x p es
  proof -
    have own: "cd_userId c = i" if "c \<in> set (dr_credentials d)" "cd_id c = cd_id x" for c
      using assms x that by (metis distinct_map inj_onD)
    have "filter (\<lambda>c. cd_userId c \<noteq> i) (update_where (\<lambda>c. cd_id c = cd_id x) (\<lambda>c. c\<lparr>cd_password := p\<rparr>) cs) =
        filter (\<lambda>c. cd_userId c \<noteq> i) cs" if "set cs \<subseteq> set (dr_credentials d)" for cs
      using that own by (induction cs) (auto simp: update_where_def)
    moreover have "map cd_id (update_where (\<lambda>c. cd_id c = cd_id x) (\<lambda>c. c\<lparr>cd_password := p\<rparr>) cs) = map cd_id cs" for cs
      by (induction cs) (auto simp: update_where_def)
    ultimately show ?thesis by (simp add: one_row_written_def same_assignments_def)
  qed
  then show "one_row_written i d (snd (updateUserPassword de i pw d))"
    by (auto simp: updateUserPassword_def find_Some_iff split: option.splits sum.splits dest: nth_mem)
  show "dr_users (snd (updateUserPassword de i pw d)) = dr_users d"
    by (auto simp: updateUserPassword_def split: option.splits sum.splits)
qed

lemma update_data_keys:
  assumes "k \<in> set (map fst (sanitizeUpdateData (filter (\<lambda>(k, _). k \<noteq> x) data) getUserFieldMetadata))"
  shows "defined_in data k" and "k \<in> set (map fst data)"
  using sanitized_keys [OF assms] defined_in_filter defined_in_keys by blast+

lemma sanitized_no_relations:
  assumes "no_relations data"
  shows "no_relations (sanitizeUpdateData (filter (\<lambda>(k, _). k \<noteq> x) data) getUserFieldMetadata)"
  using assms update_data_keys(2) unfolding no_relations_def by blast

lemma updateUser_frame:
  assumes "no_relations body" and "distinct (map cd_id (dr_credentials d))"
  shows "one_row_written i d (snd (updateUser de i body d)) \<and>
    (\<not> defined_in body ''emailVerified'' \<longrightarrow>
      map_option ac_emailVerified (find_row ac_id i (dr_users (snd (updateUser de i body d)))) =
      map_option ac_emailVerified (find_row ac_id i (dr_users d)))"
proof (cases "find_row ac_id i (dr_users d)")
  case (Some row)
  have id: "ac_id row = i" using find_row_Some [OF Some] by simp
  let ?pw = "case given_password body of None \<Rightarrow> (Inr (), d) | Some pw \<Rightarrow> updateUserPassword de (ac_id row) pw d"
  let ?data = "sanitizeUpdateData (filter (\<lambda>(k, _). k \<noteq> ''password'') body) getUserFieldMetadata"
  have pw: "one_row_written i d (snd ?pw)" "dr_users (snd ?pw) = dr_users d"
    using updateUserPassword_frame [OF assms(2), where i = i and de = de] by (auto simp: id split: option.splits)
  have nr: "no_relations ?data" by (rule sanitized_no_relations [OF assms(1)])
  have wr: "one_row_written i d e \<and>
      (\<not> defined_in body ''emailVerified'' \<longrightarrow>
        map_option ac_emailVerified (find_row ac_id i (dr_users e)) = map_option ac_emailVerified (find_row ac_id i (dr_users d)))"
    if w: "write_user de row ?data (snd ?pw) = Inr e" for e
  proof -
    obtain row' where row': "set_columns (de_isoDate de) ?data (row\<lparr>ac_updatedAt := de_clock de\<rparr>) = Some row'"
      and e: "e = put_account row' (snd ?pw)" using write_user_scalar [OF w nr] by metis
    have "ac_id row' = i" using set_columns_id [OF row'] id by simp
    moreover have "ac_emailVerified row' = ac_emailVerified row" if "\<not> defined_in body ''emailVerified''"
    proof -
      have "''emailVerified'' \<notin> set (map fst ?data)" using update_data_keys(1) that by blast
      then show ?thesis using set_columns_verified [OF _ row'] set_column_cases by fastforce
    qed
    ultimately show ?thesis
      using one_row_trans [OF pw(1) one_row_put] by (auto simp: e find_put_account pw(2) Some)
  qed
  show ?thesis
    unfolding updateUser_def using pw wr by (auto simp: Some Let_def split: prod.splits sum.splits option.splits)
qed (simp add: updateUser_def)

section \<open>What accounts without an administrative role can change\<close>

text \<open>The request has the body the endpoint publishes.\<close>

definition published :: "account_request \<Rightarrow> bool" where
  "published req = (case req of UpdateUser i body \<Rightarrow> set (map fst body) \<subseteq> set update_user_fields | _ \<Rightarrow> True)"

definition requests_by :: "id set \<Rightarrow> directory \<Rightarrow> directory \<Rightarrow> bool" where
  "requests_by U d e \<longleftrightarrow> (\<exists>de u req. u \<in> U \<and> published req \<and> e = serve_account de u req d)"

definition powerless :: "id set \<Rightarrow> directory \<Rightarrow> bool" where
  "powerless U d \<longleftrightarrow> (\<forall>u \<in> U. \<forall>r \<in> set (roles_of d u). ro_slug r \<notin> {''admin'', ''manager''})"

definition confined :: "id set \<Rightarrow> directory \<Rightarrow> directory \<Rightarrow> bool" where
  "confined U d e \<longleftrightarrow>
     same_assignments d e \<and> map ac_id (dr_users e) = map ac_id (dr_users d) \<and>
     (\<forall>j. j \<notin> U \<longrightarrow> find_row ac_id j (dr_users e) = find_row ac_id j (dr_users d)) \<and>
     map cd_id (dr_credentials e) = map cd_id (dr_credentials d) \<and>
     filter (\<lambda>c. cd_userId c \<notin> U) (dr_credentials e) = filter (\<lambda>c. cd_userId c \<notin> U) (dr_credentials d) \<and>
     (\<forall>j. map_option ac_emailVerified (find_row ac_id j (dr_users e)) = map_option ac_emailVerified (find_row ac_id j (dr_users d)))"

lemma confined_refl [simp]: "confined U d d" by (simp add: confined_def)

lemma confined_trans: "confined U d e \<Longrightarrow> confined U e f \<Longrightarrow> confined U d f"
  by (auto simp: confined_def intro: same_assignments_trans)

lemma one_row_confined:
  assumes "one_row_written u d e" and "u \<in> U"
    and "map_option ac_emailVerified (find_row ac_id u (dr_users e)) = map_option ac_emailVerified (find_row ac_id u (dr_users d))"
  shows "confined U d e"
proof -
  have sub: "filter (\<lambda>c. cd_userId c \<notin> U) xs = filter (\<lambda>c. cd_userId c \<notin> U) (filter (\<lambda>c. cd_userId c \<noteq> u) xs)" for xs
    using assms(2) by (induction xs) auto
  have "map_option ac_emailVerified (find_row ac_id j (dr_users e)) = map_option ac_emailVerified (find_row ac_id j (dr_users d))" for j
    using assms(1,3) by (cases "j = u") (simp_all add: one_row_written_def)
  moreover have "find_row ac_id j (dr_users e) = find_row ac_id j (dr_users d)" if "j \<notin> U" for j
    using assms(1,2) that by (auto simp: one_row_written_def)
  ultimately show ?thesis
    using assms(1) by (simp add: confined_def one_row_written_def sub [of "dr_credentials e"] sub [of "dr_credentials d"])
qed

lemma powerless_same: "same_assignments d e \<Longrightarrow> powerless U e \<longleftrightarrow> powerless U d"
proof -
  assume "same_assignments d e"
  then have "roles_of e u = roles_of d u" for u by (simp only: roles_of_def same_assignments_def)
  then show ?thesis by (simp add: powerless_def)
qed

lemma admitted_roles:
  assumes "RolesGuard \<in> set (rr_guards rt)" and "admitted rt session" and "\<not> rr_anonymous rt" and "rr_roles rt \<noteq> []"
  shows "\<exists>role \<in> set (ku_roles session). fst (snd role) \<in> set (rr_roles rt)"
proof -
  have "is_ok (rolesCanActivate rt (request_of session))"
    using assms(1,2) unfolding admitted_def list_all_iff by fastforce
  then have "list_ex (\<lambda>(_, slug, _, _). slug \<in> set (rr_roles rt)) (ku_roles session)"
    using assms(3,4) by (auto simp: rolesCanActivate_def request_of_def split: if_splits)
  then show ?thesis unfolding list_ex_iff by (metis (no_types, lifting) case_prod_unfold)
qed

lemma admin_slug:
  assumes "admitted (account_route req) session"
  shows "(\<exists>i body. req = UpdateUser i body) \<or> (\<exists>role \<in> set (ku_roles session). fst (snd role) \<in> {''admin'', ''manager''})"
proof (cases "\<exists>i body. req = UpdateUser i body")
  case False
  then have "RolesGuard \<in> set (rr_guards (account_route req)) \<and> \<not> rr_anonymous (account_route req) \<and>
      rr_roles (account_route req) \<noteq> [] \<and> set (rr_roles (account_route req)) \<subseteq> {''admin'', ''manager''}"
    by (cases req) (auto simp: roles_route_def admin_route_def)
  then show ?thesis using admitted_roles [OF _ assms] by blast
qed simp

lemma session_roles:
  assumes "powerless U d" and "u \<in> U" and "ac_id r = u"
  shows "\<forall>role \<in> set (ku_roles (token_user_of (auth_user_of d r))). fst (snd role) \<notin> {''admin'', ''manager''}"
  using assms by (auto simp: token_user_of_def auth_user_of_def powerless_def)

lemma lift_ban_frame: "ac_id (lift_ban t r) = ac_id r" "ac_emailVerified (lift_ban t r) = ac_emailVerified r"
  by (simp_all add: lift_ban_def)

lemma own_update_confined:
  assumes "\<not> hasCrossUserUpdateRole session" and "ku_id session = u" and "u \<in> U"
    and "set (map fst body) \<subseteq> set update_user_fields" and "distinct (map cd_id (dr_credentials d))"
  shows "confined U d (snd (updateUserEndpoint de session i body d))"
proof (cases "i = u \<and> (map_of body ''emailVerified'' = None \<or> map_of body ''emailVerified'' = Some JUndefined)")
  case True
  have fields: "\<forall>k \<in> set update_user_fields. k \<notin> set getUserRelationFields" by code_simp
  then have nr: "no_relations body" using assms(4) by (auto simp: no_relations_def)
  have "\<not> defined_in body ''emailVerified''" using True by (auto simp: defined_in_def)
  then have "confined U d (snd (updateUser de u body d))"
    using updateUser_frame [OF nr assms(5), of u de] one_row_confined assms(3) by blast
  then show ?thesis using True assms(1,2) by (auto simp: updateUserEndpoint_def Let_def)
next
  case False
  then show ?thesis using assms(1,2) by (auto simp: updateUserEndpoint_def Let_def split: option.splits)
qed

lemma serve_confined:
  assumes "powerless U d" and "u \<in> U" and "published req" and "distinct (map cd_id (dr_credentials d))"
  shows "confined U d (serve_account de u req d)"
proof (cases "find_row ac_id u (dr_users d)")
  case (Some r)
  define session where "session = token_user_of (auth_user_of d r)"
  define d1 where "d1 = put_account (lift_ban (de_clock de) r) d"
  have id: "ac_id r = u" using find_row_Some [OF Some] by simp
  have lifted: "confined U d d1"
    using one_row_put [of "lift_ban (de_clock de) r" u d] one_row_confined [OF _ assms(2)]
    by (simp add: d1_def lift_ban_frame id find_put_account Some)
  have weak: "\<forall>role \<in> set (ku_roles session). fst (snd role) \<notin> {''admin'', ''manager''}"
    unfolding session_def by (rule session_roles [OF assms(1,2) id])
  have "confined U d1 (perform de session req d1)" if adm: "admitted (account_route req) session"
  proof -
    obtain i body where req: "req = UpdateUser i body" using admin_slug [OF adm] weak by blast
    have "\<not> hasCrossUserUpdateRole session"
      using weak by (fastforce simp: hasCrossUserUpdateRole_def CROSS_USER_UPDATE_ROLES_def list_ex_iff)
    moreover have "ku_id session = u" by (simp add: session_def token_user_of_def auth_user_of_def id)
    moreover have "set (map fst body) \<subseteq> set update_user_fields" using assms(3) by (simp add: req published_def)
    ultimately show ?thesis using own_update_confined assms(2,4) by (simp add: req d1_def)
  qed
  then show ?thesis
    using lifted confined_trans by (auto simp: serve_account_def Some Let_def session_def d1_def)
qed (simp add: serve_account_def)

text \<open>Everything a set of accounts without administrative roles requests stays confined to these accounts.\<close>

interpretation ordinary_life: lifecycle "requests_by U"
    "\<lambda>e. confined U d e \<and> powerless U d \<and> distinct (map cd_id (dr_credentials d))" for U d
proof (unfold_locales, elim conjE)
  fix e f assume c: "confined U d e" "powerless U d" "distinct (map cd_id (dr_credentials d))" and st: "requests_by U e f"
  have "powerless U e" using c(1,2) powerless_same by (auto simp: confined_def)
  moreover have "distinct (map cd_id (dr_credentials e))" using c(1,3) by (simp add: confined_def)
  ultimately have "confined U e f" using st serve_confined by (auto simp: requests_by_def)
  then show "confined U d f \<and> powerless U d \<and> distinct (map cd_id (dr_credentials d))"
    using c confined_trans by blast
qed

text \<open>
  C23. Accounts that hold neither the admin nor the manager role, whatever they request in whatever order with
  bodies as published, change no role, no gate, no assignment, no row and no credential of anybody else, no account's
  identity and nobody's e-mail verification.
\<close>

theorem ordinary_accounts_confined:
  assumes "reaches (requests_by U) d e"
    and "\<forall>u \<in> U. \<forall>r \<in> set (roles_of d u). ro_slug r \<notin> {''admin'', ''manager''}"
    and "distinct (map cd_id (dr_credentials d))"
  shows "dr_roles e = dr_roles d \<and> dr_gates e = dr_gates d \<and> dr_userRoles e = dr_userRoles d \<and> dr_userGates e = dr_userGates d \<and>
    map ac_id (dr_users e) = map ac_id (dr_users d) \<and>
    (\<forall>j. j \<notin> U \<longrightarrow> find_row ac_id j (dr_users e) = find_row ac_id j (dr_users d)) \<and>
    filter (\<lambda>c. cd_userId c \<notin> U) (dr_credentials e) = filter (\<lambda>c. cd_userId c \<notin> U) (dr_credentials d) \<and>
    (\<forall>j. map_option ac_emailVerified (find_row ac_id j (dr_users e)) = map_option ac_emailVerified (find_row ac_id j (dr_users d)))"
proof -
  have "confined U d e"
    using ordinary_life.reaches_good [OF assms(1), of d] assms(2,3) by (simp add: powerless_def)
  then show ?thesis by (auto simp: confined_def same_assignments_def)
qed

section \<open>A small directory\<close>

definition demo_person :: "id \<Rightarrow> string \<Rightarrow> account_row" where
  "demo_person i email =
     \<lparr>ac_id = i, ac_name = [], ac_firstName = ''Ann'', ac_lastName = ''Lee'', ac_email = email, ac_emailVerified = True,
      ac_image = None, ac_createdAt = 0, ac_updatedAt = 0, ac_banned = False, ac_banReason = None, ac_banExpires = None,
      ac_settings = None, ac_meta = None\<rparr>"

definition demo_roles :: "role_row list" where
  "demo_roles = [\<lparr>ro_id = 1, ro_slug = ''admin'', ro_name = ''Admin'', ro_level = 1, ro_active = True\<rparr>,
     \<lparr>ro_id = 2, ro_slug = ''user'', ro_name = ''User'', ro_level = 99, ro_active = True\<rparr>]"

definition demo_directory :: directory where
  "demo_directory =
     \<lparr>dr_users = [demo_person 7 ''root@x.org'', demo_person 8 ''ann@x.org''], dr_roles = demo_roles, dr_gates = [],
      dr_userRoles = [(7, 1), (8, 2)], dr_userGates = [],
      dr_credentials = [\<lparr>cd_id = 1, cd_userId = 8, cd_providerId = ''credential'', cd_password = Some ''old''\<rparr>],
      dr_audits = [], dr_events = [], dr_mails = [], dr_links = []\<rparr>"

text \<open>
  The relation write of the client that matters here, \<open>roles: { create: { role_id: n } }\<close>, which it documents as
  adding the related row.
\<close>

definition create_role :: "id \<Rightarrow> string \<Rightarrow> json \<Rightarrow> directory \<Rightarrow> exn + directory" where
  "create_role i k v d =
     (case v of
        JObj [(''create'', JObj [(''role_id'', JNum n)])] \<Rightarrow>
          if k = ''roles'' then Inr (d\<lparr>dr_userRoles := dr_userRoles d @ [(i, \<lfloor>n\<rfloor>)]\<rparr>) else Inl (unknown_argument k)
      | _ \<Rightarrow> Inl (unknown_argument k))"

definition demo_sign_up :: "string \<Rightarrow> string \<Rightarrow> string \<Rightarrow> string option \<Rightarrow> directory \<Rightarrow> exn + id option \<times> directory" where
  "demo_sign_up email pw name picture d =
     (let i = next_id ac_id (dr_users d) in
      Inr (Some i, d\<lparr>dr_users := dr_users d @ [(demo_person i email)\<lparr>ac_name := name, ac_image := picture, ac_emailVerified := False\<rparr>],
        dr_credentials := dr_credentials d @
          [\<lparr>cd_id = next_id cd_id (dr_credentials d), cd_userId = i, cd_providerId = ''credential'', cd_password = Some pw\<rparr>]\<rparr>))"

definition demo_directory_env :: directory_env where
  "demo_directory_env =
     \<lparr>de_clock = 100, de_minPassword = 4,
      de_hash = (\<lambda>v. case v of JStr s \<Rightarrow> Inr (''h'' @ s) | _ \<Rightarrow> Inl (TypeError ''password.normalize is not a function'')),
      de_signUp = demo_sign_up, de_nested = create_role,
      de_relation = (\<lambda>k. if k = ''devices'' then Some (\<lambda>i. JArr [JObj [(''push_token'', JStr ''t'')]]) else None),
      de_isoDate = (\<lambda>s. None), de_mail = True, de_link = True\<rparr>"

definition demo_profile :: "(string \<times> json) list" where
  "demo_profile = [(''firstName'', JStr ''Anna''), (''password'', JStr ''secret'')]"

lemma demo_profile_effect:
  "map ac_firstName (dr_users (serve_account demo_directory_env 8 (UpdateUser 8 demo_profile) demo_directory)) = [''Ann'', ''Anna''] \<and>
   map cd_password (dr_credentials (serve_account demo_directory_env 8 (UpdateUser 8 demo_profile) demo_directory)) = [Some ''hsecret'']"
  by code_simp

lemma demo_roles_of: "roles_of demo_directory 8 = [\<lparr>ro_id = 2, ro_slug = ''user'', ro_name = ''User'', ro_level = 99, ro_active = True\<rparr>]"
  by code_simp

theorem ordinary_accounts_confined_witness:
  "find_row ac_id 7 (dr_users (serve_account demo_directory_env 8 (UpdateUser 8 demo_profile) demo_directory))
     = find_row ac_id 7 (dr_users demo_directory)"
proof -
  let ?e = "serve_account demo_directory_env 8 (UpdateUser 8 demo_profile) demo_directory"
  have "published (UpdateUser 8 demo_profile)" by code_simp
  then have "requests_by {8} demo_directory ?e" by (auto simp: requests_by_def)
  then have "reaches (requests_by {8}) demo_directory ?e" by (rule reaches_step [OF reaches_refl])
  moreover have "distinct (map cd_id (dr_credentials demo_directory))" by code_simp
  ultimately show ?thesis using ordinary_accounts_confined [of "{8}" demo_directory ?e] by (simp add: demo_roles_of)
qed

text \<open>
  The bodies are not validated: an object under \<open>roles\<close> that names a relation operation passes the filter, and the
  account that sends it for itself becomes an administrator, which the next request proves.
\<close>

definition promoting_body :: "(string \<times> json) list" where
  "promoting_body = [(''roles'', JObj [(''create'', JObj [(''role_id'', JNum 1)])])]"

theorem self_promotion:
  "dr_userRoles (serve_account demo_directory_env 8 (UpdateUser 8 promoting_body) demo_directory) = [(7, 1), (8, 2), (8, 1)] \<and>
   map ac_id (dr_users (serve_account demo_directory_env 8 (DeleteUser 7)
     (serve_account demo_directory_env 8 (UpdateUser 8 promoting_body) demo_directory))) = [8]"
  by code_simp

text \<open>An address that nobody proved takes the place of a verified one and counts as verified.\<close>

theorem unproven_address_verified:
  "map (\<lambda>r. (ac_email r, ac_emailVerified r))
     (dr_users (serve_account demo_directory_env 8 (UpdateUser 8 [(''email'', JStr ''victim@y.org'')]) demo_directory))
   = [(''root@x.org'', True), (''victim@y.org'', True)]"
  by code_simp

text \<open>A change an administrator makes is recorded as made by the changed account.\<close>

theorem change_blames_target:
  "map (au_userId \<circ> snd) (dr_audits (serve_account demo_directory_env 7 (BanUser 8 \<lparr>bd_reason = None, bd_expiresInMinutes = None\<rparr>) demo_directory))
     = [Some 8]"
  by code_simp

text \<open>No gate is ever deleted, and a second gate cannot be created: its empty slug is taken.\<close>

theorem gate_never_removed: "snd (removeGateRow i d) = d \<and> \<not> is_ok (fst (removeGateRow i d)) \<and> \<not> is_ok (getUsersWithGate i d)"
  by (auto simp: removeGateRow_def getUsersWithGate_def findOneGate_def split: option.splits)

theorem second_gate_refused:
  assumes "g \<in> set (dr_gates d)" and "ga_slug g = []"
  shows "\<not> is_ok (fst (createGate dto d)) \<and> snd (createGate dto d) = d"
  using assms by (auto simp: createGate_def Let_def list_ex_iff)

text \<open>The listing reads a property of a session property that does not exist.\<close>

theorem listing_always_fails: "findAllUsers order session email_filter limit offset d = Inl (TypeError ''Cannot read properties of undefined'')"
  by (simp add: findAllUsers_def userMaxLevel_def session_user_def)

text \<open>Every signed-in account reads any relation of any account, here the push tokens of another one's devices.\<close>

theorem relations_open:
  "case findOneUserEndpoint demo_directory_env (token_user_of (auth_user_of demo_directory (demo_person 8 ''ann@x.org''))) 7
      (Some ''devices'') demo_directory of
     Inr (JObj ps) \<Rightarrow> map_of ps ''devices'' = Some (JArr [JObj [(''push_token'', JStr ''t'')]]) | _ \<Rightarrow> False"
  by code_simp

section \<open>Bans\<close>

lemma ban_data:
  "sanitizeUpdateData (filter (\<lambda>(k, _). k \<noteq> ''password'') [(''banned'', JBool b), (''banReason'', v), (''banExpires'', jdate_opt t)])
     getUserFieldMetadata = [(''banned'', JBool b)] @ (if v = JUndefined then [] else [(''banReason'', v)]) @ [(''banExpires'', jdate_opt t)]"
  by (simp add: sanitizeUpdateData_def pick_def getUserFieldMetadata_def getUserScalarFields_def getUserImmutableFields_def
      getUserRelationFields_def jdate_opt_def split: option.splits)

lemma set_ban_columns:
  "set_columns parse [(''banned'', JBool b), (''banReason'', JStr s), (''banExpires'', jdate_opt t)] r =
     Some (r\<lparr>ac_banned := b, ac_banReason := Some s, ac_banExpires := t\<rparr>)"
  by (cases t) (simp_all add: set_column_def plain_value_def as_bool_def as_string_def as_date_def nullable_def jdate_opt_def)

lemma banUser_effect:
  assumes "banUser de i body d = (Inr res, d')"
  obtains row where "find_row ac_id i (dr_users d') = Some row" and "ac_banned row" and "ac_banExpires row = ban_until de body"
proof -
  let ?data = "[(''banned'', JBool True), (''banReason'', JStr (ban_reason body)), (''banExpires'', jdate_opt (ban_until de body))]"
  obtain old where old: "find_row ac_id i (dr_users d) = Some old" and ok: "\<exists>u. updateUser de i ?data d = (Inr u, d')"
    using assms by (auto simp: banUser_def split: option.splits prod.splits sum.splits)
  have id: "ac_id old = i" using find_row_Some [OF old] by simp
  have data: "sanitizeUpdateData (filter (\<lambda>(k, _). k \<noteq> ''password'') ?data) getUserFieldMetadata = ?data"
    using ban_data [of True "JStr (ban_reason body)" "ban_until de body"] by simp
  have nopw: "given_password ?data = None" by (simp add: given_password_def)
  have nr: "no_relations ?data" by (simp add: no_relations_def getUserRelationFields_def)
  obtain e x a where wr: "write_user de old ?data d = Inr e" and d': "d' = emitAudit x a e"
    using ok unfolding updateUser_def data nopw by (auto simp: old Let_def split: sum.splits option.splits)
  obtain row where row: "set_columns (de_isoDate de) ?data (old\<lparr>ac_updatedAt := de_clock de\<rparr>) = Some row"
    and e: "e = put_account row d" using write_user_scalar [OF wr nr] by metis
  have "row = old\<lparr>ac_updatedAt := de_clock de, ac_banned := True, ac_banReason := Some (ban_reason body), ac_banExpires := ban_until de body\<rparr>"
    using row unfolding set_ban_columns by simp
  then show thesis using that [of row] by (simp add: d' e find_put_account old id)
qed

lemma find_account_view:
  "find_account i (auth_view ss d) = map_option (auth_user_of d) (find_row ac_id i (dr_users d))"
proof -
  have "find_row tu_id i (map (auth_user_of d) rows) = map_option (auth_user_of d) (find_row ac_id i rows)" for rows
    by (induction rows) (auto simp: auth_user_of_def)
  then show ?thesis by (simp add: find_account_def auth_view_def)
qed

text \<open>
  C27. After an administrator has banned an account, no access token of the account is accepted, whatever session it
  belongs to, until the ban has expired.
\<close>

theorem ban_locks_out:
  assumes "banUser de i body d = (Inr res, d')"
    and "find_session (hashToken cr token) (auth_view ss d') = Some session" and "se_userId session = i"
    and "is_ok (fst (validateAccessToken cr m token (auth_view ss d')))"
  shows "\<exists>t. ban_until de body = Some t \<and> t \<le> clock m"
proof -
  obtain row where row: "find_row ac_id i (dr_users d') = Some row" "ac_banned row" "ac_banExpires row = ban_until de body"
    by (rule banUser_effect [OF assms(1)])
  have "find_account (se_userId session) (auth_view ss d') = Some (auth_user_of d' row)"
    by (simp add: find_account_view assms(3) row(1))
  then show ?thesis
    using assms(2,4) row(2,3)
    by (auto simp: validateAccessToken_def auth_user_of_def not_less split: option.splits if_splits)
qed

definition demo_ban :: ban_dto where
  "demo_ban = \<lparr>bd_reason = None, bd_expiresInMinutes = Some 1\<rparr>"

definition banned_directory :: directory where
  "banned_directory = snd (banUser demo_directory_env 7 demo_ban demo_directory)"

definition demo_session :: session_row where
  "demo_session = \<lparr>se_token = ''ha:7:z'', se_tokenType = AccessToken, se_userId = 7, se_expiresAt = 900000, se_ipAddress = None,
     se_userAgent = None, se_revoked = False, se_revokedAt = None, se_replacementCiphertext = None\<rparr>"

theorem ban_locks_out_witness:
  "fst (validateAccessToken demo_crypto (demo_moment 50000 ''n'') ''a:7:z''
     (auth_view [demo_session] banned_directory)) = Inl (UnauthorizedException ''User account is banned'') \<and>
   (\<exists>t. ban_until demo_directory_env demo_ban = Some t \<and> t \<le> 70000)"
proof
  show "fst (validateAccessToken demo_crypto (demo_moment 50000 ''n'') ''a:7:z''
     (auth_view [demo_session] banned_directory)) = Inl (UnauthorizedException ''User account is banned'')"
    by code_simp
  let ?s = demo_session
  have b: "banUser demo_directory_env 7 demo_ban demo_directory = (Inr (7, ''Banned by administrator'', Some 60100), banned_directory)"
    by code_simp
  have f: "find_session (hashToken demo_crypto ''a:7:z'') (auth_view [?s] banned_directory) = Some ?s" by code_simp
  have u: "se_userId ?s = 7" by code_simp
  have "is_ok (fst (validateAccessToken demo_crypto (demo_moment 70000 ''n'') ''a:7:z'' (auth_view [?s] banned_directory)))"
    by code_simp
  from ban_locks_out [OF b f u this]
  show "\<exists>t. ban_until demo_directory_env demo_ban = Some t \<and> t \<le> 70000" by (simp add: demo_moment_def)
qed

section \<open>What an answer does not carry\<close>

definition free_of :: "string list \<Rightarrow> json \<Rightarrow> bool" where
  "free_of ks v \<longleftrightarrow> (case v of JObj ps \<Rightarrow> \<forall>k \<in> set ks. \<not> has_key k ps | _ \<Rightarrow> True)"

definition no_secrets :: "string \<Rightarrow> json \<Rightarrow> bool" where
  "no_secrets k v \<longleftrightarrow>
     (case v of JArr xs \<Rightarrow> (k = ''accounts'' \<longrightarrow> list_all (free_of account_secrets) xs) \<and>
                         (k = ''sessions'' \<longrightarrow> list_all (free_of session_secrets) xs) | _ \<Rightarrow> True)"

text \<open>Every object of the answer that looks like an account is without secrets.\<close>

fun clean :: "json \<Rightarrow> bool" where
  "clean (JObj ps) \<longleftrightarrow> (isUserObject ps \<longrightarrow> list_all (\<lambda>(k, v). no_secrets k v) ps) \<and> list_all (\<lambda>(_, v). clean v) ps"
| "clean (JArr xs) \<longleftrightarrow> list_all clean xs"
| "clean v \<longleftrightarrow> True"

text \<open>
  Where an object has an array under \<open>items\<close>, a page, the interceptor cleans the items and passes the
  siblings on as they are: they must be clean themselves (the counters of a page are).
\<close>

fun plain_pages :: "json \<Rightarrow> bool" where
  "plain_pages (JObj ps) \<longleftrightarrow>
     (if items_of ps = None then list_all (\<lambda>(_, v). plain_pages v) ps
      else list_all (\<lambda>(k, v). (if k = ''items'' then plain_pages v else clean v \<and> (isUserObject ps \<longrightarrow> no_secrets k v))) ps)"
| "plain_pages (JArr xs) \<longleftrightarrow> list_all plain_pages xs"
| "plain_pages v \<longleftrightarrow> True"

lemma keys_map_values: "map fst (map (\<lambda>(k, v). (k, f k v)) ps) = map fst ps"
  by (induction ps) auto

lemma isUserObject_keys: "map fst ps = map fst qs \<Longrightarrow> isUserObject ps = isUserObject qs"
  by (simp add: isUserObject_def has_key_def)

lemma free_of_drop: "free_of ks (drop_keys ks v)"
  by (auto simp: free_of_def drop_keys_def has_key_def split: json.splits)

lemma free_of_sanitized: "free_of ks v \<Longrightarrow> free_of ks (sanitizeUserData v)"
proof (cases v)
  case (JObj ps)
  assume "free_of ks v"
  then show ?thesis unfolding JObj by (simp only: free_of_def sanitizeUserData.simps json.case has_key_def keys_map_values)
qed (simp_all add: free_of_def)

lemma no_secrets_stripped: "no_secrets k (sanitizeUserData (strip_secrets k v))"
  by (cases v) (auto simp: no_secrets_def strip_secrets_def list_all_iff free_of_sanitized free_of_drop split: json.splits)

lemma items_dropped: "''items'' \<notin> set ks \<Longrightarrow> items_of (filter (\<lambda>(k, _). k \<notin> set ks) ps) = items_of ps"
proof -
  have "map_of (filter (\<lambda>(k, _). k \<notin> set ks) ps) ''items'' = (if ''items'' \<in> set ks then None else map_of ps ''items'')"
    by (induction ps) auto
  then show "''items'' \<notin> set ks \<Longrightarrow> items_of (filter (\<lambda>(k, _). k \<notin> set ks) ps) = items_of ps" by (simp add: items_of_def)
qed

lemma isUserObject_dropped: "isUserObject (filter (\<lambda>(k, _). k \<notin> set ks) ps) \<Longrightarrow> isUserObject ps"
  by (auto simp: isUserObject_def has_key_def)

lemma plain_pages_drop: "''items'' \<notin> set ks \<Longrightarrow> plain_pages v \<Longrightarrow> plain_pages (drop_keys ks v)"
  by (cases v) (auto simp: drop_keys_def list_all_iff items_dropped dest: isUserObject_dropped split: if_splits)

lemma plain_pages_strip: "plain_pages v \<Longrightarrow> plain_pages (strip_secrets k v)"
  by (cases v)
    (auto simp: strip_secrets_def list_all_iff account_secrets_def session_secrets_def intro!: plain_pages_drop)

text \<open>
  C28. No object in a cleaned answer that looks like an account lists credentials with a password or a provider token,
  or sessions with a token, at any depth: in single answers, in lists and under the \<open>items\<close> of a page, as
  long as what stands next to such \<open>items\<close> carries no secrets itself, because the interceptor does not clean
  that: \<open>page_siblings_pass\<close>.
\<close>

theorem sanitised_accounts:
  assumes "plain_pages v"
  shows "clean (sanitizeUserData v)"
  using assms
proof (induction v rule: sanitizeUserData.induct)
  case (2 ps)
  show ?case
  proof (cases "items_of ps = None")
    case none: True
    let ?f = "\<lambda>k v. if isUserObject ps then sanitizeUserData (strip_secrets k v) else sanitizeUserData v"
    have obj: "sanitizeUserData (JObj ps) = JObj (map (\<lambda>(k, v). (k, ?f k v)) ps)" by (simp add: none)
    have "clean (?f k v)" if "(k, v) \<in> set ps" for k v
      using 2 that none plain_pages_strip by (cases "isUserObject ps") (auto simp: list_all_iff)
    moreover have "no_secrets k (?f k v)" if "isUserObject ps" for k v using that no_secrets_stripped by simp
    moreover have "isUserObject (map (\<lambda>(k, v). (k, ?f k v)) ps) = isUserObject ps"
      by (intro isUserObject_keys keys_map_values)
    ultimately show ?thesis unfolding obj clean.simps by (auto simp: list_all_iff)
  next
    case page: False
    let ?f = "\<lambda>k v. if k = ''items'' then sanitizeUserData v else v"
    have obj: "sanitizeUserData (JObj ps) = JObj (map (\<lambda>(k, v). (k, ?f k v)) ps)" using page by auto
    have plain: "if k = ''items'' then plain_pages v else clean v \<and> (isUserObject ps \<longrightarrow> no_secrets k v)"
      if "(k, v) \<in> set ps" for k v
      using 2(4) that page by (auto simp: list_all_iff)
    have "clean (?f k v)" if "(k, v) \<in> set ps" for k v
      using 2(1) plain [OF that] that page by (cases "k = ''items''") auto
    moreover have "no_secrets k (?f k v)" if "(k, v) \<in> set ps" "isUserObject ps" for k v
      using plain [OF that(1)] that(2) by (cases "k = ''items''") (auto simp: no_secrets_def split: json.split)
    moreover have "isUserObject (map (\<lambda>(k, v). (k, ?f k v)) ps) = isUserObject ps"
      by (intro isUserObject_keys keys_map_values)
    ultimately show ?thesis unfolding obj clean.simps by (auto simp: list_all_iff)
  qed
qed (auto simp: list_all_iff)

definition demo_person_answer :: "json list \<Rightarrow> json" where
  "demo_person_answer creds = JObj [(''id'', JNum 7), (''email'', JStr ''root@x.org''), (''accounts'', JArr creds)]"

definition demo_secret :: json where
  "demo_secret = JObj [(''providerId'', JStr ''credential''), (''password'', JStr ''hash'')]"

definition demo_page :: json where
  "demo_page = JObj [(''items'', JArr [demo_person_answer [demo_secret]]), (''count'', JNum 1)]"

theorem sanitised_accounts_witness:
  "clean (sanitizeUserData demo_page) \<and> \<not> clean demo_page \<and>
   sanitizeUserData demo_page = JObj [(''items'', JArr [demo_person_answer [JObj [(''providerId'', JStr ''credential'')]]]),
     (''count'', JNum 1)]"
proof (intro conjI)
  have "plain_pages demo_page" by code_simp
  then show "clean (sanitizeUserData demo_page)" by (rule sanitised_accounts)
qed code_simp+

text \<open>An account next to the items of a page keeps its password hash.\<close>

theorem page_siblings_pass:
  "sanitizeUserData (JObj [(''items'', JArr []), (''owner'', demo_person_answer [demo_secret])]) =
     JObj [(''items'', JArr []), (''owner'', demo_person_answer [demo_secret])] \<and>
   \<not> clean (demo_person_answer [demo_secret])"
  by code_simp

section \<open>The constraints of the directory\<close>

definition email_clash :: "account_row \<Rightarrow> account_row \<Rightarrow> bool" where
  "email_clash r x \<longleftrightarrow> ac_id r \<noteq> ac_id x \<and> ac_email r = ac_email x"

definition gate_clash :: "gate_row \<Rightarrow> gate_row \<Rightarrow> bool" where
  "gate_clash g h \<longleftrightarrow> ga_id g \<noteq> ga_id h \<and> (ga_name g = ga_name h \<or> ga_slug g = ga_slug h)"

interpretation account_table: unique_rows ac_id email_clash
  by unfold_locales (auto simp: email_clash_def)

interpretation gate_table: unique_rows ga_id gate_clash
  by unfold_locales (auto simp: gate_clash_def)

definition links :: "(id \<times> id) list \<Rightarrow> id set \<Rightarrow> id set \<Rightarrow> bool" where
  "links ps A B \<longleftrightarrow> distinct ps \<and> set ps \<subseteq> A \<times> B"

definition account_ids :: "directory \<Rightarrow> id set" where "account_ids d = ac_id ` set (dr_users d)"

definition directory_ok :: "directory \<Rightarrow> bool" where
  "directory_ok d \<longleftrightarrow>
     unique_table ac_id email_clash (dr_users d) \<and> unique_table ga_id gate_clash (dr_gates d) \<and>
     links (dr_userRoles d) (account_ids d) (ro_id ` set (dr_roles d)) \<and>
     links (dr_userGates d) (account_ids d) (ga_id ` set (dr_gates d)) \<and>
     distinct (map cd_id (dr_credentials d)) \<and> cd_userId ` set (dr_credentials d) \<subseteq> account_ids d"

text \<open>
  The documented behaviour of the sign-up: one account with a new id and the given address, and its credential, or
  no change.
\<close>

definition sign_up_ok :: "directory_env \<Rightarrow> bool" where
  "sign_up_ok de \<longleftrightarrow> (\<forall>email pw name picture d i d'. de_signUp de email pw name picture d = Inr (i, d') \<longrightarrow>
     (i = None \<and> d' = d) \<or>
     (\<exists>r c. i = Some (ac_id r) \<and> ac_id r \<notin> account_ids d \<and> ac_email r = email \<and>
        cd_id c \<notin> cd_id ` set (dr_credentials d) \<and> cd_userId c = ac_id r \<and>
        d' = d\<lparr>dr_users := dr_users d @ [r], dr_credentials := dr_credentials d @ [c]\<rparr>))"

definition account_step :: "directory \<Rightarrow> directory \<Rightarrow> bool" where
  "account_step d e \<longleftrightarrow> (\<exists>de u req. sign_up_ok de \<and> published req \<and> e = serve_account de u req d)"

lemma find_account_id: "find_row ac_id i (dr_users d) = Some r \<Longrightarrow> i \<in> account_ids d"
  by (drule find_row_Some) (auto simp: account_ids_def)

lemma ok_audit [simp]: "directory_ok (emitAudit x a d) = directory_ok d"
  by (simp add: directory_ok_def emitAudit_def account_ids_def)

lemma ok_events [simp]: "directory_ok (d\<lparr>dr_events := es\<rparr>) = directory_ok d" "directory_ok (d\<lparr>dr_mails := ms\<rparr>) = directory_ok d"
  by (simp_all add: directory_ok_def account_ids_def)

lemma ok_put:
  assumes "directory_ok d" and "r0 \<in> set (dr_users d)" and "ac_id r = ac_id r0"
    and "\<And>x. x \<in> set (dr_users d) \<Longrightarrow> ac_id x \<noteq> ac_id r \<Longrightarrow> ac_email x \<noteq> ac_email r"
  shows "directory_ok (put_account r d)"
proof -
  have "\<not> email_clash r x" if "x \<in> set (dr_users d)" for x using assms(4) [OF that] by (auto simp: email_clash_def)
  then have "unique_table ac_id email_clash (update_where (\<lambda>x. ac_id x = ac_id r0) (\<lambda>_. r) (dr_users d))"
    using assms(1-3) by (intro account_table.replace_row) (simp_all add: directory_ok_def)
  moreover have "account_ids (put_account r d) = account_ids d"
    unfolding account_ids_def by (metis put_account_tables(3) set_map)
  ultimately show ?thesis using assms(1,3) by (simp add: directory_ok_def put_account_def)
qed

lemma ok_same_email:
  assumes "directory_ok d" and "r0 \<in> set (dr_users d)" and "ac_id r = ac_id r0" and "ac_email r = ac_email r0"
  shows "directory_ok (put_account r d)"
proof (rule ok_put [OF assms(1-3)])
  fix x assume x: "x \<in> set (dr_users d)" "ac_id x \<noteq> ac_id r"
  then have "\<not> email_clash x r0" using assms(1,2) by (simp add: directory_ok_def unique_table_def)
  then show "ac_email x \<noteq> ac_email r" using x assms(3,4) by (simp add: email_clash_def)
qed

lemma links_add: "links ps A B \<Longrightarrow> p \<notin> set ps \<Longrightarrow> fst p \<in> A \<Longrightarrow> snd p \<in> B \<Longrightarrow> links (ps @ [p]) A B"
  by (cases p) (auto simp: links_def)

lemma links_filter: "links ps A B \<Longrightarrow> links (filter P ps) A B"
  by (auto simp: links_def)

lemma links_mono: "links ps A B \<Longrightarrow> A \<subseteq> A' \<Longrightarrow> B \<subseteq> B' \<Longrightarrow> links ps A' B'"
  unfolding links_def by blast

lemma ok_assign_roles:
  assumes "directory_ok d" and "assignRolesToUser i roles d = Inr e" and "set roles \<subseteq> set (dr_roles d)"
  shows "directory_ok e"
proof -
  have e: "e = d\<lparr>dr_userRoles := dr_userRoles d @ remdups (filter (\<lambda>p. p \<notin> set (dr_userRoles d)) (map (\<lambda>r. (i, ro_id r)) roles))\<rparr>"
    using assms(2) by (auto simp: assignRolesToUser_def split: if_splits)
  have "i \<in> account_ids d" if "r \<in> set roles" for r
    using assms(2) find_account_id that by (cases "find_row ac_id i (dr_users d)") (auto simp: assignRolesToUser_def split: if_splits)
  then have "links (dr_userRoles e) (account_ids d) (ro_id ` set (dr_roles d))"
    using assms(1,3) by (auto simp: e links_def directory_ok_def)
  then show ?thesis using assms(1) by (simp add: e directory_ok_def account_ids_def)
qed

lemma ok_cascade:
  assumes "directory_ok d"
  shows "directory_ok (cascade_user i d)"
proof -
  have ids: "account_ids (cascade_user i d) = account_ids d - {i}" by (auto simp: account_ids_def cascade_user_def)
  have "links (filter (\<lambda>(u, _). u \<noteq> i) ps) (account_ids d - {i}) B" if "links ps (account_ids d) B" for ps B
    using that by (auto simp: links_def)
  moreover have "unique_table ac_id email_clash (filter P xs)" if "unique_table ac_id email_clash xs" for P xs
    using that by (auto simp: unique_table_def distinct_map inj_on_def)
  moreover have "distinct (map cd_id (filter P xs))" if "distinct (map cd_id xs)" for P xs
    using that by (auto simp: distinct_map inj_on_def)
  ultimately show ?thesis
    using assms unfolding directory_ok_def ids by (auto simp: cascade_user_def delete_where_def)
qed

lemma ok_credentials:
  assumes "directory_ok d" and "map cd_id cs = map cd_id (dr_credentials d)" and "map cd_userId cs = map cd_userId (dr_credentials d)"
  shows "directory_ok (d\<lparr>dr_credentials := cs\<rparr>)"
proof -
  have "cd_userId ` set cs = cd_userId ` set (dr_credentials d)" using assms(3) by (metis list.set_map)
  then show ?thesis using assms(1,2) by (simp add: directory_ok_def account_ids_def)
qed

lemma ok_password: "directory_ok d \<Longrightarrow> directory_ok (snd (updateUserPassword de i pw d))"
proof -
  assume ok: "directory_ok d"
  have "map cd_id (update_where p (\<lambda>c. c\<lparr>cd_password := h\<rparr>) cs) = map cd_id cs"
    "map cd_userId (update_where p (\<lambda>c. c\<lparr>cd_password := h\<rparr>) cs) = map cd_userId cs" for p h cs
    by (induction cs) (auto simp: update_where_def)
  then have "directory_ok (d\<lparr>dr_credentials := update_where p (\<lambda>c. c\<lparr>cd_password := h\<rparr>) (dr_credentials d)\<rparr>)" for p h
    by (intro ok_credentials [OF ok])
  then show ?thesis using ok by (auto simp: updateUserPassword_def split: option.splits sum.splits)
qed

lemma ok_update:
  assumes "directory_ok d" and "no_relations body"
  shows "directory_ok (snd (updateUser de i body d))"
proof (cases "find_row ac_id i (dr_users d)")
  case (Some row)
  let ?pw = "case given_password body of None \<Rightarrow> (Inr (), d) | Some pw \<Rightarrow> updateUserPassword de (ac_id row) pw d"
  let ?data = "sanitizeUpdateData (filter (\<lambda>(k, _). k \<noteq> ''password'') body) getUserFieldMetadata"
  have pw: "directory_ok (snd ?pw)" "dr_users (snd ?pw) = dr_users d"
    using ok_password [OF assms(1)] assms(1) updateUserPassword_frame(2)
    by (auto simp: directory_ok_def split: option.splits)
  have nr: "no_relations ?data" by (rule sanitized_no_relations [OF assms(2)])
  have wr: "directory_ok e" if w: "write_user de row ?data (snd ?pw) = Inr e" for e
  proof -
    obtain row' where row': "set_columns (de_isoDate de) ?data (row\<lparr>ac_updatedAt := de_clock de\<rparr>) = Some row'"
      and e: "e = put_account row' (snd ?pw)" and new: "\<forall>r \<in> set (dr_users (snd ?pw)). ac_id r \<noteq> ac_id row \<longrightarrow> ac_email r \<noteq> ac_email row'"
      using write_user_scalar [OF w nr] by metis
    have "ac_id row' = ac_id row" using set_columns_id [OF row'] by simp
    moreover have "row \<in> set (dr_users (snd ?pw))" using find_row_Some [OF Some] pw(2) by simp
    ultimately show ?thesis using ok_put [OF pw(1), of row row'] new unfolding e by simp
  qed
  show ?thesis
    unfolding updateUser_def using pw(1) wr by (auto simp: Some Let_def split: prod.splits sum.splits option.splits)
qed (simp add: updateUser_def assms)

lemma ok_new_account:
  assumes "directory_ok d" and "ac_id r \<notin> account_ids d" and "\<forall>x \<in> set (dr_users d). ac_email x \<noteq> ac_email r"
    and "cd_id c \<notin> cd_id ` set (dr_credentials d)" and "cd_userId c = ac_id r"
  shows "directory_ok (d\<lparr>dr_users := dr_users d @ [r], dr_credentials := dr_credentials d @ [c]\<rparr>)"
proof -
  have "ac_id x \<noteq> ac_id r" if "x \<in> set (dr_users d)" for x using assms(2) that unfolding account_ids_def by (metis imageI)
  then have "unique_table ac_id email_clash (dr_users d @ [r])"
    using assms(1,3) by (intro account_table.insert_row) (auto simp: directory_ok_def email_clash_def)
  moreover have "account_ids (d\<lparr>dr_users := dr_users d @ [r], dr_credentials := dr_credentials d @ [c]\<rparr>) = insert (ac_id r) (account_ids d)"
    by (simp add: account_ids_def)
  ultimately show ?thesis
    using assms(1,4,5) links_mono [where A = "account_ids d" and A' = "insert (ac_id r) (account_ids d)", OF _ subset_insertI order_refl]
    unfolding directory_ok_def by auto
qed

lemma resolveRoles_known: "resolveRoles ss d = Inr roles \<Longrightarrow> set roles \<subseteq> set (dr_roles d)"
  by (auto simp: resolveRoles_def Let_def find_Some_iff split: if_splits option.splits)

lemma ok_welcome [simp]: "directory_ok (snd (sendWelcomeEmail de r d)) = directory_ok d"
  by (simp add: sendWelcomeEmail_def send_user_mail_def)

lemma ok_store:
  assumes "directory_ok d" and "sign_up_ok de"
  shows "directory_ok (snd (storeUser de data d))"
proof (cases "is_ok (validateCreateUserData de data) \<and> \<not> list_ex (\<lambda>r. ac_email r = lower (given (cu_email data))) (dr_users d)")
  case True
  let ?email = "lower (given (cu_email data))" and ?name = "trim (given (cu_firstName data) @ '' '' @ given (cu_lastName data))"
  let ?up = "de_signUp de ?email (given (cu_password data)) ?name (cu_image data) d"
  have free: "\<forall>x \<in> set (dr_users d). ac_email x \<noteq> ?email" using True by (auto simp: list_ex_iff)
  have signed: "directory_ok d1 \<and> dr_roles d1 = dr_roles d" if "?up = Inr (i, d1)" for i d1
  proof -
    have "(i = None \<and> d1 = d) \<or> (\<exists>r c. i = Some (ac_id r) \<and> ac_id r \<notin> account_ids d \<and> ac_email r = ?email \<and>
        cd_id c \<notin> cd_id ` set (dr_credentials d) \<and> cd_userId c = ac_id r \<and>
        d1 = d\<lparr>dr_users := dr_users d @ [r], dr_credentials := dr_credentials d @ [c]\<rparr>)"
      using assms(2) that unfolding sign_up_ok_def by blast
    then show ?thesis using ok_new_account [OF assms(1)] assms(1) free by auto
  qed
  have completed: "directory_ok (put_account (completed_row de data row) d1)"
    if "?up = Inr (i, d1)" and "find_row ac_id j (dr_users d1) = Some row" for i j d1 row
    using signed [OF that(1)] find_row_Some [OF that(2)] ok_same_email [of d1 row "completed_row de data row"]
    by (simp add: completed_row_def)
  have assigned: "directory_ok d3"
    if "?up = Inr (i, d1)" "find_row ac_id j (dr_users d1) = Some row" "resolveRoles ss d = Inr roles"
      "assignRolesToUser j roles (put_account (completed_row de data row) d1) = Inr d3" for i j d1 row ss roles d3
  proof (rule ok_assign_roles [OF completed [OF that(1,2)] that(4)])
    show "set roles \<subseteq> set (dr_roles (put_account (completed_row de data row) d1))"
      using resolveRoles_known [OF that(3)] signed [OF that(1)] by (simp add: put_account_def)
  qed
  show ?thesis
    unfolding storeUser_def using assms(1) signed completed assigned
    by (auto simp: Let_def split: sum.splits option.splits prod.splits)
qed (auto simp: storeUser_def assms Let_def split: sum.splits)

lemma ok_assignGate: "directory_ok d \<Longrightarrow> directory_ok (snd (assignGate i g d))"
proof -
  assume ok: "directory_ok d"
  have "directory_ok (d\<lparr>dr_userGates := dr_userGates d @ [(i, g)]\<rparr>)"
    if "find_row ac_id i (dr_users d) = Some u" "find_row ga_id g (dr_gates d) = Some gate" "(i, g) \<notin> set (dr_userGates d)" for u gate
    using ok links_add [of "dr_userGates d" "account_ids d" "ga_id ` set (dr_gates d)" "(i, g)"] that(3)
      find_account_id [OF that(1)] find_row_Some [OF that(2)]
    by (auto simp: directory_ok_def account_ids_def)
  then show ?thesis using ok by (auto simp: assignGate_def split: option.splits)
qed

lemma ok_assignRole: "directory_ok d \<Longrightarrow> directory_ok (snd (assignRole i r d))"
proof -
  assume ok: "directory_ok d"
  have "directory_ok (d\<lparr>dr_userRoles := dr_userRoles d @ [(i, r)]\<rparr>)"
    if "find_row ac_id i (dr_users d) = Some u" "find_row ro_id r (dr_roles d) = Some role" "(i, r) \<notin> set (dr_userRoles d)" for u role
    using ok links_add [of "dr_userRoles d" "account_ids d" "ro_id ` set (dr_roles d)" "(i, r)"] that(3)
      find_account_id [OF that(1)] find_row_Some [OF that(2)]
    by (auto simp: directory_ok_def account_ids_def)
  then show ?thesis using ok by (auto simp: assignRole_def split: option.splits)
qed

lemma ok_unlink:
  "directory_ok d \<Longrightarrow> directory_ok (d\<lparr>dr_userRoles := filter P (dr_userRoles d)\<rparr>)"
  "directory_ok d \<Longrightarrow> directory_ok (d\<lparr>dr_userGates := filter P (dr_userGates d)\<rparr>)"
  by (auto simp: directory_ok_def account_ids_def intro: links_filter)

lemma ok_createGate: "directory_ok d \<Longrightarrow> directory_ok (snd (createGate dto d))"
proof -
  assume ok: "directory_ok d"
  let ?g = "\<lparr>ga_id = next_id ga_id (dr_gates d), ga_slug = [], ga_name = given (gd_name dto), ga_active = True\<rparr>"
  have "directory_ok (d\<lparr>dr_gates := dr_gates d @ [?g]\<rparr>)"
    if new: "\<forall>g \<in> set (dr_gates d). ga_name g \<noteq> given (gd_name dto)" "\<forall>g \<in> set (dr_gates d). ga_slug g \<noteq> []"
  proof -
    have "unique_table ga_id gate_clash (dr_gates d @ [?g])"
    proof (rule gate_table.insert_row)
      show "unique_table ga_id gate_clash (dr_gates d)" using ok by (simp add: directory_ok_def)
      show "ga_id x \<noteq> ga_id ?g" if "x \<in> set (dr_gates d)" for x using next_id_fresh [OF that, of ga_id] by simp
      show "\<not> gate_clash ?g x" if "x \<in> set (dr_gates d)" for x using new that by (auto simp: gate_clash_def)
    qed
    moreover have "links (dr_userGates d) (account_ids d) (ga_id ` set (dr_gates d @ [?g]))"
      using ok unfolding directory_ok_def by (auto intro: links_mono [OF _ order_refl, of _ _ "ga_id ` set (dr_gates d)"])
    ultimately show ?thesis using ok by (simp add: directory_ok_def account_ids_def)
  qed
  then show ?thesis using ok by (auto simp: createGate_def Let_def list_ex_iff)
qed

lemma ok_updateGate: "directory_ok d \<Longrightarrow> directory_ok (snd (updateGate i dto d))"
proof -
  assume ok: "directory_ok d"
  have put: "directory_ok (d\<lparr>dr_gates := update_where (\<lambda>g. ga_id g = i) (\<lambda>_. g') (dr_gates d)\<rparr>)"
    if f: "find_row ga_id i (dr_gates d) = Some g" and g': "ga_id g' = ga_id g" "ga_slug g' = ga_slug g"
      "ga_name g' = ga_name g \<or> (\<forall>h \<in> set (dr_gates d). ga_id h \<noteq> i \<longrightarrow> ga_name h \<noteq> ga_name g')" for g g'
  proof -
    have g: "g \<in> set (dr_gates d)" "ga_id g = i" using find_row_Some [OF f] by auto
    have gates: "unique_table ga_id gate_clash (dr_gates d)" using ok by (simp add: directory_ok_def)
    have "\<not> gate_clash g' x" if "x \<in> set (dr_gates d)" for x
    proof -
      have "\<not> gate_clash g x" using gates g(1) that by (simp add: unique_table_def)
      then show ?thesis using g' g(2) that by (auto simp: gate_clash_def)
    qed
    then have "unique_table ga_id gate_clash (update_where (\<lambda>x. ga_id x = i) (\<lambda>_. g') (dr_gates d))"
      using gate_table.replace_row [OF gates g(1), of "\<lambda>_. g'"] g'(1) g(2) by simp
    moreover have "map ga_id (update_where (\<lambda>x. ga_id x = i) (\<lambda>_. g') (dr_gates d)) = map ga_id (dr_gates d)"
      using g'(1) g(2) by (simp add: update_where_def)
    then have "ga_id ` set (update_where (\<lambda>x. ga_id x = i) (\<lambda>_. g') (dr_gates d)) = ga_id ` set (dr_gates d)" by (metis list.set_map)
    ultimately show ?thesis using ok by (simp add: directory_ok_def account_ids_def)
  qed
  show ?thesis
  proof (cases "find_row ga_id i (dr_gates d)")
    case (Some g)
    show ?thesis
      using ok put [OF Some, of g] put [OF Some, of "g\<lparr>ga_name := n\<rparr>" for n]
      by (cases "gd_name dto") (auto simp: updateGate_def findOneGate_def Some Let_def list_ex_iff truthy_str_def)
  qed (simp add: updateGate_def findOneGate_def ok)
qed

lemma ban_no_relations: "no_relations [(''banned'', a), (''banReason'', b), (''banExpires'', c)]"
  by (simp add: no_relations_def getUserRelationFields_def)

lemma published_no_relations: "set (map fst body) \<subseteq> set update_user_fields \<Longrightarrow> no_relations body"
proof -
  have "\<forall>k \<in> set update_user_fields. k \<notin> set getUserRelationFields" by code_simp
  then show "set (map fst body) \<subseteq> set update_user_fields \<Longrightarrow> no_relations body" by (auto simp: no_relations_def)
qed

lemma ban_writes:
  "snd (banUser de i body d) \<in> {d, snd (updateUser de i [(''banned'', JBool True), (''banReason'', JStr (ban_reason body)),
     (''banExpires'', jdate_opt (ban_until de body))] d)}"
  "snd (unbanUser de i d) \<in> {d, snd (updateUser de i [(''banned'', JBool False), (''banReason'', JNull), (''banExpires'', JNull)] d)}"
  unfolding banUser_def unbanUser_def by (auto split: option.splits prod.splits sum.splits)

lemma ok_perform:
  assumes "directory_ok d" and "sign_up_ok de" and "published req"
  shows "directory_ok (perform de session req d)"
proof (cases req)
  case (UpdateUser i body)
  have "no_relations body" using assms(3) published_no_relations by (simp add: UpdateUser published_def)
  then show ?thesis using ok_update [OF assms(1)] assms(1) by (simp add: UpdateUser updateUserEndpoint_def Let_def)
next
  case (BanUser i body)
  show ?thesis using ban_writes(1) [of de i body d] assms(1) ok_update [OF assms(1) ban_no_relations] unfolding BanUser perform.simps by auto
next
  case (UnbanUser i)
  show ?thesis using ban_writes(2) [of de i d] assms(1) ok_update [OF assms(1) ban_no_relations] unfolding UnbanUser perform.simps by auto
next
  case (DeleteUser i)
  show ?thesis using assms(1) ok_cascade [OF assms(1)] by (auto simp: DeleteUser deleteUser_def split: option.splits)
qed (auto simp: assms ok_store ok_assignGate ok_assignRole ok_createGate ok_updateGate removeGate_def removeRole_def removeGateRow_def
    ok_unlink split: option.splits sum.splits)

lemma ok_serve:
  assumes "directory_ok d" and "sign_up_ok de" and "published req"
  shows "directory_ok (serve_account de u req d)"
proof (cases "find_row ac_id u (dr_users d)")
  case (Some r)
  have "directory_ok (put_account (lift_ban (de_clock de) r) d)"
    using find_row_Some [OF Some] by (intro ok_same_email [OF assms(1), of r]) (simp_all add: lift_ban_def)
  then show ?thesis using assms ok_perform by (simp add: serve_account_def Some Let_def)
qed (simp add: serve_account_def assms(1))

interpretation account_life: lifecycle account_step directory_ok
  by unfold_locales (auto simp: account_step_def ok_serve)

lemma unique_column:
  assumes "unique_table key clash rows" and "\<And>r x. f r = f x \<Longrightarrow> key r \<noteq> key x \<Longrightarrow> clash r x"
  shows "distinct (map f rows)"
proof -
  have "inj_on f (set rows)"
  proof (rule inj_onI)
    fix r x assume rx: "r \<in> set rows" "x \<in> set rows" "f r = f x"
    have "key r = key x" using assms rx unfolding unique_table_def by blast
    then show "r = x" using assms(1) rx unfolding unique_table_def distinct_map by (meson inj_onD)
  qed
  then show ?thesis using assms(1) by (simp add: unique_table_def distinct_map)
qed

text \<open>
  C26. Over any sequence of account, gate, role and ban requests with bodies as published, account ids and addresses
  stay unique, so do gate names and slugs, no role or gate is assigned twice, every assignment links an account with
  a role or gate that exist, and every credential belongs to an account. A body as published has the properties of
  its DTO only; nothing enforces that (\<open>self_promotion\<close>), so it is a condition of the property.
\<close>

theorem account_invariant:
  assumes "reaches account_step d e" and "directory_ok d"
  shows "distinct (map ac_id (dr_users e)) \<and> distinct (map ac_email (dr_users e)) \<and>
    distinct (map ga_name (dr_gates e)) \<and> distinct (map ga_slug (dr_gates e)) \<and>
    distinct (dr_userRoles e) \<and> set (dr_userRoles e) \<subseteq> account_ids e \<times> ro_id ` set (dr_roles e) \<and>
    distinct (dr_userGates e) \<and> set (dr_userGates e) \<subseteq> account_ids e \<times> ga_id ` set (dr_gates e) \<and>
    cd_userId ` set (dr_credentials e) \<subseteq> account_ids e"
proof -
  have ok: "directory_ok e" by (rule account_life.reaches_good [OF assms])
  have "distinct (map ac_email (dr_users e))"
    using ok by (intro unique_column [where key = ac_id and clash = email_clash]) (auto simp: directory_ok_def email_clash_def)
  moreover have "distinct (map ga_name (dr_gates e))" "distinct (map ga_slug (dr_gates e))"
    using ok by (intro unique_column [where key = ga_id and clash = gate_clash]; auto simp: directory_ok_def gate_clash_def)+
  ultimately show ?thesis using ok by (simp add: directory_ok_def links_def unique_table_def)
qed

lemma demo_sign_up_ok: "sign_up_ok demo_directory_env"
proof -
  have fresh: "next_id ac_id (dr_users d) \<notin> account_ids d" "next_id cd_id (dr_credentials d) \<notin> cd_id ` set (dr_credentials d)" for d
    using next_id_fresh [of _ "dr_users d" ac_id] next_id_fresh [of _ "dr_credentials d" cd_id]
    unfolding account_ids_def by fastforce+
  show ?thesis unfolding sign_up_ok_def
  proof (intro allI impI disjI2)
    fix email pw name picture d i d'
    assume up: "de_signUp demo_directory_env email pw name picture d = Inr (i, d')"
    let ?r = "(demo_person (next_id ac_id (dr_users d)) email)\<lparr>ac_name := name, ac_image := picture, ac_emailVerified := False\<rparr>"
    let ?c = "\<lparr>cd_id = next_id cd_id (dr_credentials d), cd_userId = next_id ac_id (dr_users d),
      cd_providerId = ''credential'', cd_password = Some pw\<rparr>"
    have "i = Some (ac_id ?r) \<and> ac_id ?r \<notin> account_ids d \<and> ac_email ?r = email \<and>
        cd_id ?c \<notin> cd_id ` set (dr_credentials d) \<and> cd_userId ?c = ac_id ?r \<and>
        d' = d\<lparr>dr_users := dr_users d @ [?r], dr_credentials := dr_credentials d @ [?c]\<rparr>"
      using up fresh by (simp add: demo_directory_env_def demo_sign_up_def Let_def demo_person_def)
    then show "\<exists>r c. i = Some (ac_id r) \<and> ac_id r \<notin> account_ids d \<and> ac_email r = email \<and>
        cd_id c \<notin> cd_id ` set (dr_credentials d) \<and> cd_userId c = ac_id r \<and>
        d' = d\<lparr>dr_users := dr_users d @ [r], dr_credentials := dr_credentials d @ [c]\<rparr>" by blast
  qed
qed

definition demo_new_user :: create_user_dto where
  "demo_new_user = \<lparr>cu_firstName = Some ''Bo'', cu_lastName = Some ''Ek'', cu_email = Some ''Bo@x.org'', cu_password = Some ''secret'',
     cu_roles = None, cu_image = None, cu_emailVerified = None\<rparr>"

definition grown_directory :: directory where
  "grown_directory = serve_account demo_directory_env 7 (CreateUser demo_new_user) demo_directory"

theorem account_invariant_witness:
  "distinct (map ac_email (dr_users grown_directory)) \<and>
   map ac_email (dr_users grown_directory) = [''root@x.org'', ''ann@x.org'', ''bo@x.org''] \<and> dr_userRoles grown_directory = [(7, 1), (8, 2), (9, 2)]"
proof (intro conjI)
  have "published (CreateUser demo_new_user)" by (simp add: published_def)
  then have "account_step demo_directory grown_directory"
    using demo_sign_up_ok by (auto simp: account_step_def grown_directory_def)
  then have "reaches account_step demo_directory grown_directory" by (rule reaches_step [OF reaches_refl])
  moreover have "directory_ok demo_directory"
    by (simp add: directory_ok_def demo_directory_def demo_roles_def unique_table_def email_clash_def links_def account_ids_def demo_person_def)
  ultimately show "distinct (map ac_email (dr_users grown_directory))" using account_invariant by blast
qed code_simp+

end
