(* ===== verification/SignInProperties.thy ===== *)
theory SignInProperties
  imports SignIn GuardProperties AccountProperties
begin

text \<open>
  What signing in, resetting and changing a password guarantee: to whom tokens are issued, which tokens survive,
  and which roles a sign-in through a provider may hand out; with what the failure paths leave out.
\<close>

section \<open>Issuing tokens\<close>

lemma mint_user: "mint_pair cr m user ip ua db = (Inr p, db') \<Longrightarrow> rt_userId p = tu_id user"
  by (auto simp: mint_pair_def split: sum.splits prod.splits)

lemma emit_auth_fields [simp]:
  "sg_sessions (emit_auth x a s) = sg_sessions s" "dr_users (sg_dir (emit_auth x a s)) = dr_users (sg_dir s)"
  "dr_userRoles (sg_dir (emit_auth x a s)) = dr_userRoles (sg_dir s)"
  "dr_credentials (sg_dir (emit_auth x a s)) = dr_credentials (sg_dir s)"
  "sg_registered (emit_auth x a s) = sg_registered s"
  by (simp_all add: emit_auth_def emitAudit_def)

lemma requestVerification_fields [simp]:
  "sg_sessions (requestVerification de e s) = sg_sessions s" "dr_users (sg_dir (requestVerification de e s)) = dr_users (sg_dir s)"
  "dr_userRoles (sg_dir (requestVerification de e s)) = dr_userRoles (sg_dir s)"
  "dr_credentials (sg_dir (requestVerification de e s)) = dr_credentials (sg_dir s)"
  "sg_registered (requestVerification de e s) = sg_registered s"
  by (simp_all add: requestVerification_def)

lemma issue_for_cases:
  assumes "issue_for cr m user method rq extra s = (res, s')"
  shows "dr_users (sg_dir s') = dr_users (sg_dir s) \<and> dr_userRoles (sg_dir s') = dr_userRoles (sg_dir s) \<and>
    dr_credentials (sg_dir s') = dr_credentials (sg_dir s) \<and> sg_registered s' = sg_registered s \<and>
    (case res of Inr p \<Rightarrow> rt_userId p = ac_id user | Inl err \<Rightarrow> \<exists>msg. err = Error msg)"
proof -
  let ?u = "auth_user_of (sg_dir s) user"
  obtain r db where i: "mint_pair cr m ?u (client_ip rq) (rq_user_agent rq) (auth_db_of s) = (r, db)" by fastforce
  show ?thesis
  proof (cases r)
    case (Inl err)
    then show ?thesis using assms i mint_error [of cr m ?u] by (auto simp: issue_for_def issueTokens_def)
  next
    case (Inr p)
    then show ?thesis using assms i mint_user [of cr m ?u] by (auto simp: issue_for_def issueTokens_def auth_user_of_def)
  qed
qed

section \<open>Signing in with a password\<close>

text \<open>The documented behaviour of the package: it signs in the account of the address whose password hash verifies.\<close>

definition sign_in_ok :: "auth_api \<Rightarrow> bool" where
  "sign_in_ok aa \<longleftrightarrow> (\<forall>email pw d i. aa_signInEmail aa email pw d = Inr (Some i) \<longrightarrow>
     (\<forall>r. find_row ac_id i (dr_users d) = Some r \<longrightarrow> ac_email r = email) \<and>
     (\<exists>c h. credential_for i d = Some c \<and> cd_password c = Some h \<and> aa_verifyPassword aa h pw))"

lemma login_try_split:
  assumes "login_try aa cr m de dto rq s = (r, t)"
  shows "(\<exists>i user. aa_signInEmail aa (lower (ld_email dto)) (ld_password dto) (sg_dir s) = Inr (Some i) \<and>
      find_row ac_id i (dr_users (sg_dir s)) = Some user \<and> ac_emailVerified user \<and>
      issue_for cr m user ''password'' rq [] s = (r, t)) \<or>
    (\<exists>err. r = Inl err \<and> (t = s \<or> t = requestVerification de (lower (ld_email dto)) s))"
  using assms by (auto simp: login_try_def Let_def split: option.splits sum.splits if_splits)

text \<open>
  C12. Signing in with a password issues tokens only for the account with the given address, in lower case, whose
  stored hash verifies the given password and whose address is proven; every refusal is a 401 or a 403; and no
  sign-in changes an account, a role or a credential.
\<close>

theorem login_sound:
  assumes "sign_in_ok aa" and "login aa cr m de dto rq s = (res, s')"
  shows "dr_users (sg_dir s') = dr_users (sg_dir s) \<and> dr_userRoles (sg_dir s') = dr_userRoles (sg_dir s) \<and>
    dr_credentials (sg_dir s') = dr_credentials (sg_dir s) \<and>
    (case res of
       Inl err \<Rightarrow> (\<exists>msg. err = UnauthorizedException msg \<or> err = ForbiddenException msg)
     | Inr pair \<Rightarrow> \<exists>user c h. user \<in> set (dr_users (sg_dir s)) \<and> ac_id user = rt_userId pair \<and> ac_email user = lower (ld_email dto) \<and>
         ac_emailVerified user \<and> credential_for (ac_id user) (sg_dir s) = Some c \<and> cd_password c = Some h \<and>
         aa_verifyPassword aa h (ld_password dto))"
proof -
  obtain r t where tr: "login_try aa cr m de dto rq s = (r, t)" by fastforce
  have kept: "dr_users (sg_dir t) = dr_users (sg_dir s) \<and> dr_userRoles (sg_dir t) = dr_userRoles (sg_dir s) \<and>
      dr_credentials (sg_dir t) = dr_credentials (sg_dir s)"
    using login_try_split [OF tr] by (elim disjE exE conjE) (simp_all add: issue_for_cases)
  have found: "\<exists>user c h. user \<in> set (dr_users (sg_dir s)) \<and> ac_id user = rt_userId pair \<and> ac_email user = lower (ld_email dto) \<and>
      ac_emailVerified user \<and> credential_for (ac_id user) (sg_dir s) = Some c \<and> cd_password c = Some h \<and>
      aa_verifyPassword aa h (ld_password dto)" if r: "r = Inr pair" for pair
  proof -
    obtain i user where i: "aa_signInEmail aa (lower (ld_email dto)) (ld_password dto) (sg_dir s) = Inr (Some i)"
      and user: "find_row ac_id i (dr_users (sg_dir s)) = Some user" "ac_emailVerified user"
      and iss: "issue_for cr m user ''password'' rq [] s = (Inr pair, t)"
      using login_try_split [OF tr] r by auto
    have "ac_id user = rt_userId pair" using issue_for_cases [OF iss] by simp
    moreover have "user \<in> set (dr_users (sg_dir s)) \<and> ac_id user = i" by (rule find_row_Some [OF user(1)])
    ultimately show ?thesis using assms(1) i user unfolding sign_in_ok_def by metis
  qed
  show ?thesis
    using assms(2) kept found unfolding login_def tr by (cases r) (auto split: exn.splits)
qed

section \<open>Reset\<close>

lemma revoke_all_revokes: "\<forall>x \<in> set (sg_sessions (snd (revoke_all cr m i None s))). se_userId x = i \<longrightarrow> se_revoked x"
proof -
  obtain n db where r: "revokeAllUserTokens cr m i None (auth_db_of s) = (n, db)" by fastforce
  have "user_revoked i db" using user_revoked_all [of i cr m "auth_db_of s"] r by simp
  then show ?thesis by (auto simp: revoke_all_def r user_revoked_def list_all_iff)
qed

text \<open>
  C13. After a password reset that is answered with success, whose link names an account and whose lookup
  and removal of the link did not fail, no token that was issued before is accepted for that account any
  more, and the link is used up. The failures the code passes over are the exceptions:
  \<open>unresolved_reset_keeps_tokens\<close> and \<open>unconsumed_link_works_again\<close>.
\<close>

theorem reset_locks_out:
  assumes "resetPassword aa cr m run token pw s = (Inr msg, s')" and "reset_owner token s = Some i"
    and "rr_lookup_ok run" and "rr_delete_ok run"
  shows "map_of (sg_verifications s') (reset_key token) = None \<and> reset_owner token s' = None \<and>
    (\<forall>x \<in> set (sg_sessions s'). se_userId x = i \<longrightarrow> se_revoked x) \<and>
    (\<forall>cr' m' t user db. validateAccessToken cr' m' t (auth_db_of s') = (Inr user, db) \<longrightarrow> ku_id user \<noteq> i)"
proof -
  obtain d where d: "aa_resetPassword aa pw token (sg_dir s) = Inr d"
    and s': "s' = snd (revoke_all cr m i None (s\<lparr>sg_dir := d,
        sg_verifications := filter (\<lambda>(k, _). k \<noteq> reset_key token) (sg_verifications s)\<rparr>))"
    using assms by (auto simp: resetPassword_def Let_def split: sum.splits if_splits)
  have gone: "map_of (filter (\<lambda>(k, _). k \<noteq> reset_key token) xs) (reset_key token) = None" for xs :: "(string \<times> string) list"
    by (induction xs) auto
  have ver: "sg_verifications s' = filter (\<lambda>(k, _). k \<noteq> reset_key token) (sg_verifications s)"
    unfolding s' by (simp add: revoke_all_def split: prod.split)
  have revoked: "\<forall>x \<in> set (sg_sessions s'). se_userId x = i \<longrightarrow> se_revoked x"
    unfolding s' by (rule revoke_all_revokes)
  have "ku_id user \<noteq> i" if v: "validateAccessToken cr' m' t (auth_db_of s') = (Inr user, db)" for cr' m' t user db
  proof -
    obtain x a where x: "find_session (hashToken cr' t) (auth_db_of s') = Some x" "\<not> se_revoked x"
      "find_account (se_userId x) (auth_db_of s') = Some a" "user = token_user_of a"
      using validate_accepted [OF v] by blast
    have "x \<in> set (sg_sessions s')"
      using x(1) by (auto simp: find_session_def auth_db_of_def auth_view_def find_Some_iff)
    then have "se_userId x \<noteq> i" using revoked x(2) by blast
    moreover have "tu_id a = se_userId x" using x(3) by (auto simp: find_account_def dest: find_row_Some)
    ultimately show ?thesis by (simp add: x(4) token_user_of_def)
  qed
  then show ?thesis using revoked gone by (auto simp: ver reset_owner_def)
qed


section \<open>Signing in with a provider\<close>

lemma send_mail_fields [simp]:
  "dr_userRoles (snd (send_user_mail de x ok bad d)) = dr_userRoles d" "dr_roles (snd (send_user_mail de x ok bad d)) = dr_roles d"
  by (auto simp: send_user_mail_def)

lemma put_account_assignments: "same_assignments d (put_account r d)"
  by (simp add: same_assignments_def put_account_def)

lemma same_assignments_audit: "same_assignments d (emitAudit x a e) = same_assignments d e"
  by (simp add: same_assignments_def emitAudit_def)

lemma updateUser_meta:
  "same_assignments d (snd (updateUser de i [(''meta'', v)] d))"
proof -
  let ?data = "sanitizeUpdateData (filter (\<lambda>(k, _). k \<noteq> ''password'') [(''meta'', v)]) getUserFieldMetadata"
  have nr: "no_relations ?data"
    by (rule sanitized_no_relations) (simp add: no_relations_def getUserRelationFields_def)
  have wr: "same_assignments d e" if "write_user de row ?data d = Inr e" for row e
    using write_user_scalar [OF that nr] by (metis put_account_assignments)
  have pw: "given_password [(''meta'', v)] = None" by code_simp
  show ?thesis
    unfolding updateUser_def pw option.case sum.case prod.case Let_def
    using wr by (auto simp: same_assignments_audit split: option.split sum.split)
qed

lemma assignDefault_cases:
  assumes "assignDefaultRole i d = Inr d'" and "roles_of d i = []"
  obtains r where "r \<in> set (dr_roles d)" "ro_slug r = ''user''" "ro_active r" "d' = d\<lparr>dr_userRoles := dr_userRoles d @ [(i, ro_id r)]\<rparr>"
proof -
  obtain r where r: "List.find (\<lambda>r. ro_slug r = DEFAULT_ROLE_SLUG \<and> ro_active r) (dr_roles d) = Some r"
    and d': "assignRolesToUser i [r] d = Inr d'"
    using assms(1) by (auto simp: assignDefaultRole_def resolveRoles_def split: option.splits)
  have rs: "r \<in> set (dr_roles d)" "ro_slug r = ''user''" "ro_active r"
    using r by (auto simp: find_Some_iff DEFAULT_ROLE_SLUG_def)
  have "find_row ro_id (ro_id r) (dr_roles d) \<noteq> None"
    using rs(1) by (auto simp: find_row_def find_None_iff)
  then have "(i, ro_id r) \<notin> set (dr_userRoles d)"
    using assms(2) by (force simp: roles_of_def List.map_filter_def filter_empty_conv)
  then show thesis using that [OF rs] d' by (auto simp: assignRolesToUser_def split: if_splits)
qed


lemma roles_of_same: "same_assignments d e \<Longrightarrow> roles_of e i = roles_of d i"
  unfolding same_assignments_def roles_of_def by (elim conjE) (simp only:)

lemma first_sign_in_cases:
  assumes "first_sign_in de dto rq i email s = Inr (user, s2)" and "roles_of (sg_dir s) i = []"
  shows "\<exists>r reg. ac_id user = i \<and> r \<in> set (dr_roles (sg_dir s)) \<and> ro_slug r = ''user'' \<and> ro_active r \<and>
    dr_userRoles (sg_dir s2) = dr_userRoles (sg_dir s) @ [(i, ro_id r)] \<and> sg_registered s2 = sg_registered s @ [reg] \<and> re_user reg = i"
proof -
  let ?meta = "[(''meta'', JObj [(''firstTime'', JBool True)])]"
  obtain x d1 d2 where u: "updateUser de i ?meta (sg_dir s) = (Inr x, d1)" and a: "assignDefaultRole i d1 = Inr d2"
    and user: "find_row ac_id i (dr_users d2) = Some user"
    and s2: "dr_userRoles (sg_dir s2) = dr_userRoles d2" "\<exists>reg. sg_registered s2 = sg_registered s @ [reg] \<and> re_user reg = i"
    using assms(1) unfolding first_sign_in_def Let_def
    by (auto simp: emitUserRegistered_def emit_auth_def emitAudit_def sendWelcomeEmail_def split: sum.splits prod.splits option.splits)
  have same: "same_assignments (sg_dir s) d1" using updateUser_meta [of "sg_dir s" de i] u by (metis snd_conv)
  then have "roles_of d1 i = []" using assms(2) by (simp add: roles_of_same)
  then obtain r where "r \<in> set (dr_roles d1)" "ro_slug r = ''user''" "ro_active r"
      "d2 = d1\<lparr>dr_userRoles := dr_userRoles d1 @ [(i, ro_id r)]\<rparr>"
    by (rule assignDefault_cases [OF a])
  then show ?thesis using same s2 find_row_Some [OF user] by (auto simp: same_assignments_def)
qed

text \<open>
  C24. A sign-in through a provider issues tokens only for the account the package names, and hands out no role but
  the active default role, and that only to an account without any; only then is a registration announced, once and
  for that account.
\<close>

theorem social_grants_default:
  assumes "aa_signInSocial aa (sd_provider dto) (sd_token dto) (sd_accessToken dto) (sd_nonce dto) (sg_dir s) = Inr (who, d1)"
    and "isSocialProviderConfigured (sd_provider dto) cfg" and "socialLogin aa cr m de cfg dto rq s = (res, s')"
  shows "(\<forall>pair. res = Inr pair \<longrightarrow> (\<exists>email. who = Some (rt_userId pair, email))) \<and>
    (dr_userRoles (sg_dir s') = dr_userRoles d1 \<and> sg_registered s' = sg_registered s \<or>
     (\<exists>i email r reg. who = Some (i, email) \<and> roles_of d1 i = [] \<and> r \<in> set (dr_roles d1) \<and> ro_slug r = ''user'' \<and> ro_active r \<and>
        dr_userRoles (sg_dir s') = dr_userRoles d1 @ [(i, ro_id r)] \<and> sg_registered s' = sg_registered s @ [reg] \<and> re_user reg = i))"
proof (cases who)
  case None
  then show ?thesis using assms by (auto simp: socialLogin_def)
next
  case (Some p)
  obtain i email where p: "p = (i, email)" by (cases p)
  let ?s1 = "s\<lparr>sg_dir := d1\<rparr>"
  show ?thesis
  proof (cases "find_row ac_id i (dr_users d1)")
    case None
    then show ?thesis using assms Some p by (auto simp: socialLogin_def Let_def)
  next
    case (Some user)
    have id: "ac_id user = i" using find_row_Some [OF Some] by simp
    show ?thesis
    proof (cases "roles_of d1 i = []")
      case False
      then have "issue_for cr m user (sd_provider dto) rq [(''newUser'', JBool False)] ?s1 = (res, s')"
        using assms \<open>who = Some p\<close> p Some by (simp add: socialLogin_def Let_def)
      from issue_for_cases [OF this] show ?thesis using \<open>who = Some p\<close> p id by (auto split: sum.splits)
    next
      case True
      show ?thesis
      proof (cases "first_sign_in de dto rq i email ?s1")
        case (Inl err)
        then have "s' = ?s1\<lparr>sg_dir := snd (updateUser de i [(''meta'', JObj [(''firstTime'', JBool True)])] d1)\<rparr> \<and> res = Inl err"
          using assms \<open>who = Some p\<close> p Some True by (simp add: socialLogin_def Let_def)
        then show ?thesis using updateUser_meta [of d1 de i] by (auto simp: same_assignments_def)
      next
        case (Inr q)
        obtain fresh s2 where q: "q = (fresh, s2)" by (cases q)
        from first_sign_in_cases [OF Inr [unfolded q]] obtain r reg where f: "ac_id fresh = i" "r \<in> set (dr_roles d1)"
          "ro_slug r = ''user''" "ro_active r" "dr_userRoles (sg_dir s2) = dr_userRoles d1 @ [(i, ro_id r)]"
          "sg_registered s2 = sg_registered s @ [reg]" "re_user reg = i" using True by auto
        have "issue_for cr m fresh (sd_provider dto) rq [(''newUser'', JBool True)] s2 = (res, s')"
          using assms \<open>who = Some p\<close> p Some True Inr q by (simp add: socialLogin_def Let_def)
        from issue_for_cases [OF this] show ?thesis using \<open>who = Some p\<close> p f True by (auto split: sum.splits)
      qed
    qed
  qed
qed


section \<open>Changing a password\<close>

lemma resolve_state: "resolveCallerUserId aa cr m rq cookie s = (r, s0) \<Longrightarrow> s0 = s"
  by (auto simp: resolveCallerUserId_def split: option.splits sum.splits prod.splits if_splits)

lemma update_where_kept:
  assumes "x \<in> set (update_where p (revoke_row m) rows)" and "\<not> se_revoked x"
  shows "\<not> p x"
proof -
  obtain y where y: "y \<in> set rows" "x = (if p y then revoke_row m y else y)"
    using assms(1) by (auto simp: update_where_def)
  show ?thesis using y(2) assms(2) by (cases "p y") (simp_all add: revoke_row_def)
qed

lemma revoke_all_except:
  assumes "revoke_all cr m i current s = (n, s')"
  shows "sg_dir s' = sg_dir s \<and>
    (\<forall>x \<in> set (sg_sessions s'). se_userId x = i \<and> \<not> se_revoked x \<longrightarrow> truthy_str current \<and> se_token x = hashToken cr (the current))"
proof -
  let ?p = "\<lambda>x. se_userId x = i \<and> \<not> se_revoked x \<and> (truthy_str current \<longrightarrow> se_token x \<noteq> hashToken cr (the current))"
  obtain rows where "s' = s\<lparr>sg_sessions := update_where ?p (revoke_row m) rows\<rparr>"
    using assms unfolding revoke_all_def revokeAllUserTokens_def Let_def update_sessions_def prod.case by auto
  then show ?thesis using update_where_kept [where p = ?p and m = m and rows = rows] by auto
qed

lemma find_update_where:
  "\<forall>x. P (f x) = P x \<Longrightarrow> List.find P (update_where q f xs) = map_option (\<lambda>x. if q x then f x else x) (List.find P xs)"
  by (induction xs) (auto simp: update_where_def)

text \<open>
  C25. A password is changed only for the caller, who gave the current one; its hash is what is stored afterwards;
  and of the caller's sessions only the one in use is still valid.
\<close>

theorem password_change:
  assumes "updatePassword aa cr m de rq cookie dto s = (Inr n, s')"
  shows "\<exists>userId current c h newHash. resolveCallerUserId aa cr m rq cookie s = (Inr (userId, current), s) \<and>
    credential_for userId (sg_dir s) = Some c \<and> cd_password c = Some h \<and> aa_verifyPassword aa h (up_currentPassword dto) \<and>
    de_hash de (JStr (up_newPassword dto)) = Inr newHash \<and>
    credential_for userId (sg_dir s') = Some (c\<lparr>cd_password := Some newHash\<rparr>) \<and>
    (\<forall>j. j \<noteq> userId \<longrightarrow> distinct (map cd_id (dr_credentials (sg_dir s))) \<longrightarrow>
       credential_for j (sg_dir s') = credential_for j (sg_dir s)) \<and>
    dr_users (sg_dir s') = dr_users (sg_dir s) \<and> dr_userRoles (sg_dir s') = dr_userRoles (sg_dir s) \<and>
    (\<forall>x \<in> set (sg_sessions s'). se_userId x = userId \<and> \<not> se_revoked x \<longrightarrow>
       truthy_str current \<and> se_token x = hashToken cr (the current))"
proof -
  obtain userId current s0 where who: "resolveCallerUserId aa cr m rq cookie s = (Inr (userId, current), s0)"
    using assms by (auto simp: updatePassword_def split: sum.splits prod.splits)
  have s0: "s0 = s" by (rule resolve_state [OF who])
  let ?d = "sg_dir s"
  obtain c h newHash where c: "credential_for userId ?d = Some c" "cd_password c = Some h"
    "aa_verifyPassword aa h (up_currentPassword dto)" "de_hash de (JStr (up_newPassword dto)) = Inr newHash"
    using assms who s0 by (auto simp: updatePassword_def Let_def truthy_str_def split: option.splits if_splits sum.splits)
  let ?f = "\<lambda>c. c\<lparr>cd_password := Some newHash\<rparr>"
  let ?s1 = "s\<lparr>sg_dir := ?d\<lparr>dr_credentials := update_where (\<lambda>x. cd_id x = cd_id c) ?f (dr_credentials ?d)\<rparr>\<rparr>"
  obtain s2 where r: "revoke_all cr m userId current ?s1 = (n, s2)"
    and s': "s' = s2\<lparr>sg_dir := (sg_dir s2)\<lparr>dr_events := dr_events (sg_dir s2) @ [PasswordUpdated userId FromChange]\<rparr>\<rparr>"
    using assms who s0 c by (auto simp: updatePassword_def Let_def split: prod.splits if_splits)
  have cred: "credential_for j (sg_dir s') = map_option (\<lambda>x. if cd_id x = cd_id c then ?f x else x) (credential_for j ?d)" for j
    using revoke_all_except [OF r] by (simp add: s' credential_for_def find_update_where)
  have other: "credential_for j (sg_dir s') = credential_for j ?d"
    if j: "j \<noteq> userId" "distinct (map cd_id (dr_credentials ?d))" for j
  proof (cases "credential_for j ?d")
    case (Some x)
    have "x \<in> set (dr_credentials ?d) \<and> cd_userId x = j" "c \<in> set (dr_credentials ?d) \<and> cd_userId c = userId"
      using Some c(1) by (auto simp: credential_for_def find_Some_iff)
    then have "cd_id x \<noteq> cd_id c" using j by (auto simp: distinct_map dest: inj_onD)
    then show ?thesis by (simp add: cred Some)
  qed (simp add: cred)
  show ?thesis
    using who s0 c cred [of userId] other revoke_all_except [OF r] by (auto simp: s')
qed


section \<open>A small deployment\<close>

text \<open>The package as far as these endpoints call it: hashes are the passwords, and one provider token names account 8.\<close>

definition demo_sign_in :: "string \<Rightarrow> string \<Rightarrow> directory \<Rightarrow> string + id option" where
  "demo_sign_in email pw d =
     (case List.find (\<lambda>r. ac_email r = email \<and> Option.bind (credential_for (ac_id r) d) cd_password = Some pw) (dr_users d) of
        None \<Rightarrow> Inl ''Invalid email or password''
      | Some r \<Rightarrow> if \<forall>q \<in> set (dr_users d). ac_id q = ac_id r \<longrightarrow> ac_email q = email then Inr (Some (ac_id r))
                  else Inl ''Invalid email or password'')"

definition demo_auth :: auth_api where
  "demo_auth =
     \<lparr>aa_verifyPassword = (=), aa_signInEmail = demo_sign_in,
      aa_signInSocial = (\<lambda>p t a n d. if t = ''t'' then Inr (Some (8, ''ann@x.org''), d) else Inl ''invalid token''),
      aa_resetPassword = (\<lambda>pw token d. Inr d), aa_getSession = (\<lambda>c. None),
      aa_changeEmail = (\<lambda>i new c d. Inr d), aa_deleteUser = (\<lambda>i t d. Inr d)\<rparr>"

lemma demo_sign_in_ok: "sign_in_ok demo_auth"
  unfolding sign_in_ok_def
proof (intro allI impI)
  fix email pw d i
  assume "aa_signInEmail demo_auth email pw d = Inr (Some i)"
  then have "demo_sign_in email pw d = Inr (Some i)" by (simp add: demo_auth_def)
  then obtain r where r: "List.find (\<lambda>r. ac_email r = email \<and> Option.bind (credential_for (ac_id r) d) cd_password = Some pw) (dr_users d) = Some r"
    and unique: "\<forall>q \<in> set (dr_users d). ac_id q = ac_id r \<longrightarrow> ac_email q = email" and i: "ac_id r = i"
    by (auto simp: demo_sign_in_def split: option.splits if_splits)
  have "Option.bind (credential_for (ac_id r) d) cd_password = Some pw" using r unfolding find_Some_iff by auto
  then obtain c where "credential_for i d = Some c" "cd_password c = Some pw" by (auto simp: bind_eq_Some_conv i)
  moreover have "ac_email q = email" if "find_row ac_id i (dr_users d) = Some q" for q
    using unique i find_row_Some [OF that] by simp
  ultimately show "(\<forall>r. find_row ac_id i (dr_users d) = Some r \<longrightarrow> ac_email r = email) \<and>
      (\<exists>c h. credential_for i d = Some c \<and> cd_password c = Some h \<and> aa_verifyPassword demo_auth h pw)"
    by (simp add: demo_auth_def)
qed

definition demo_signing :: sign_state where
  "demo_signing = \<lparr>sg_dir = demo_directory, sg_sessions = [demo_session\<lparr>se_userId := 8, se_token := ''ha:8:z''\<rparr>],
     sg_verifications = [(''reset-password:tok'', ''8'')], sg_registered = [], sg_temporary = []\<rparr>"

definition demo_login :: login_dto where
  "demo_login = \<lparr>ld_email = ''Ann@x.org'', ld_password = ''old''\<rparr>"

definition demo_http :: "string option \<Rightarrow> http_request" where
  "demo_http authorization = \<lparr>rq_authorization = authorization, rq_client_key = None, rq_forwarded_for = None,
     rq_user_agent = None, rq_ips = [], rq_ip = None, rq_remoteAddress = None, rq_user = None, rq_session = None\<rparr>"

lemma demo_login_answer:
  "map_sum id rt_userId (fst (login demo_auth demo_crypto (demo_moment 9 ''n'') demo_directory_env demo_login (demo_http None) demo_signing)) = Inr 8"
  by code_simp


theorem login_sound_witness:
  "\<exists>user. user \<in> set (dr_users demo_directory) \<and> ac_id user = 8 \<and> ac_email user = ''ann@x.org'' \<and> ac_emailVerified user"
proof -
  obtain res s' where l: "login demo_auth demo_crypto (demo_moment 9 ''n'') demo_directory_env demo_login (demo_http None) demo_signing = (res, s')"
    by fastforce
  then obtain pair where pair: "res = Inr pair" "rt_userId pair = 8"
    using demo_login_answer by (cases res) auto
  have email: "lower (ld_email demo_login) = ''ann@x.org''" by code_simp
  have dir: "sg_dir demo_signing = demo_directory" by (simp add: demo_signing_def)
  show ?thesis
    using login_sound [OF demo_sign_in_ok l] unfolding pair(1) email dir by (auto simp: pair(2))
qed

definition all_well :: reset_run where
  "all_well = \<lparr>rr_lookup_ok = True, rr_delete_ok = True, rr_revoke_ok = True\<rparr>"

definition demo_reset :: "reset_run \<Rightarrow> sign_state \<Rightarrow> (exn + string) \<times> sign_state" where
  "demo_reset run s = resetPassword demo_auth demo_crypto (demo_moment 9 ''n'') run ''tok'' ''new'' s"

lemma demo_reset_answer:
  "reset_owner ''tok'' demo_signing = Some 8 \<and>
   fst (demo_reset all_well demo_signing) = Inr ''Password has been reset successfully''"
  by code_simp

definition demo_after_reset :: sign_state where
  "demo_after_reset = snd (demo_reset all_well demo_signing)"

theorem reset_locks_out_witness:
  "is_ok (fst (validateAccessToken demo_crypto (demo_moment 9 ''n'') ''a:8:z'' (auth_db_of demo_signing))) \<and>
   \<not> is_ok (fst (validateAccessToken demo_crypto (demo_moment 9 ''n'') ''a:8:z'' (auth_db_of demo_after_reset))) \<and>
   filter (\<lambda>x. se_userId x = 8 \<and> \<not> se_revoked x) (sg_sessions demo_after_reset) = []"
proof -
  have r: "resetPassword demo_auth demo_crypto (demo_moment 9 ''n'') all_well ''tok'' ''new'' demo_signing
      = (Inr ''Password has been reset successfully'', demo_after_reset)"
    using demo_reset_answer unfolding demo_reset_def demo_after_reset_def by (metis prod.collapse)
  have ok: "rr_lookup_ok all_well" "rr_delete_ok all_well" by (simp_all add: all_well_def)
  have owner: "reset_owner ''tok'' demo_signing = Some 8" using demo_reset_answer by blast
  have "is_ok (fst (validateAccessToken demo_crypto (demo_moment 9 ''n'') ''a:8:z'' (auth_db_of demo_signing)))"
    "\<not> is_ok (fst (validateAccessToken demo_crypto (demo_moment 9 ''n'') ''a:8:z'' (auth_db_of demo_after_reset)))"
    by code_simp+
  with reset_locks_out [OF r owner ok] show ?thesis by (simp add: filter_empty_conv)
qed

text \<open>
  When the lookup fails, the reset succeeds and a token issued before it stays valid; when the delete
  fails, the link resets the password a second time; when the revocation fails, the answer is that the link was
  invalid, but the package has been told to set the new password.
\<close>

theorem unresolved_reset_keeps_tokens:
  "let r = demo_reset (all_well\<lparr>rr_lookup_ok := False\<rparr>) demo_signing in
     is_ok (fst r) \<and> is_ok (fst (validateAccessToken demo_crypto (demo_moment 9 ''n'') ''a:8:z'' (auth_db_of (snd r))))"
  by code_simp

theorem unconsumed_link_works_again:
  "let r = demo_reset (all_well\<lparr>rr_delete_ok := False\<rparr>) demo_signing in
     is_ok (fst r) \<and> reset_owner ''tok'' (snd r) = Some 8 \<and> is_ok (fst (demo_reset all_well (snd r)))"
  by code_simp

theorem failed_revocation_reported_as_bad_link:
  assumes "aa_resetPassword aa pw token (sg_dir s) = Inr d" and "reset_owner token s = Some i"
    and "rr_lookup_ok run" and "\<not> rr_revoke_ok run"
  shows "fst (resetPassword aa cr m run token pw s) = Inl reset_refused \<and>
    sg_dir (snd (resetPassword aa cr m run token pw s)) = d \<and>
    sg_sessions (snd (resetPassword aa cr m run token pw s)) = sg_sessions s"
  using assms by (simp add: resetPassword_def)

definition demo_social :: social_dto where
  "demo_social = \<lparr>sd_provider = ''google'', sd_token = ''t'', sd_accessToken = None, sd_nonce = None, sd_inviteToken = None\<rparr>"

definition demo_social_config :: social_config where
  "demo_social_config = getSocialAuthConfig (\<lambda>k. if k = ''GOOGLE_CLIENT_ID'' \<or> k = ''GOOGLE_CLIENT_SECRET'' then Some '' g '' else None)"

text \<open>Account 8 without its role: it counts as new, is announced, and gets the default role back.\<close>

definition demo_roleless :: sign_state where
  "demo_roleless = demo_signing\<lparr>sg_dir := demo_directory\<lparr>dr_userRoles := [(7, 1)]\<rparr>\<rparr>"

definition demo_social_step :: "sign_state \<Rightarrow> (exn + rotated_tokens) \<times> sign_state" where
  "demo_social_step s = socialLogin demo_auth demo_crypto (demo_moment 9 ''n'') demo_directory_env demo_social_config demo_social (demo_http None) s"

lemma demo_social_called:
  "aa_signInSocial demo_auth (sd_provider demo_social) (sd_token demo_social) (sd_accessToken demo_social) (sd_nonce demo_social)
     (sg_dir s) = Inr (Some (8, ''ann@x.org''), sg_dir s)"
  "isSocialProviderConfigured (sd_provider demo_social) demo_social_config"
  by (simp add: demo_auth_def demo_social_def) code_simp

theorem social_grants_default_witness:
  "set (dr_userRoles (sg_dir (snd (demo_social_step demo_roleless)))) = {(7, 1), (8, 2)} \<and>
   dr_userRoles (sg_dir (snd (demo_social_step demo_signing))) = dr_userRoles demo_directory"
proof
  show "set (dr_userRoles (sg_dir (snd (demo_social_step demo_roleless)))) = {(7, 1), (8, 2)}" by code_simp
  obtain res s' where s: "demo_social_step demo_signing = (res, s')" by fastforce
  have "roles_of demo_directory 8 \<noteq> []" by (simp add: demo_roles_of)
  then show "dr_userRoles (sg_dir (snd (demo_social_step demo_signing))) = dr_userRoles demo_directory"
    using social_grants_default [OF demo_social_called s [unfolded demo_social_step_def]] s by (auto simp: demo_signing_def)
qed

theorem roleless_is_new:
  "map re_user (sg_registered (snd (demo_social_step demo_roleless))) = [8] \<and>
   roles_of (sg_dir (snd (demo_social_step demo_roleless))) 8 = [\<lparr>ro_id = 2, ro_slug = ''user'', ro_name = ''User'', ro_level = 99, ro_active = True\<rparr>]"
  by code_simp

definition demo_change :: "sign_state" where
  "demo_change = snd (updatePassword demo_auth demo_crypto (demo_moment 9 ''n'') demo_directory_env (demo_http (Some ''Bearer a:8:z'')) None
     \<lparr>up_currentPassword = ''old'', up_newPassword = ''x''\<rparr> demo_signing)"

text \<open>A password of one character is taken here, although it is refused where an account is created or updated.\<close>

theorem short_password_accepted:
  "fst (updatePassword demo_auth demo_crypto (demo_moment 9 ''n'') demo_directory_env (demo_http (Some ''Bearer a:8:z'')) None
     \<lparr>up_currentPassword = ''old'', up_newPassword = ''x''\<rparr> demo_signing) = Inr 0 \<and>
   fst (updateUser demo_directory_env 8 [(''password'', JStr ''x'')] demo_directory) = Inl (short_password demo_directory_env)"
  by code_simp

theorem password_change_witness:
  "map_option cd_password (credential_for 8 (sg_dir demo_change)) = Some (Some ''hx'') \<and>
   se_token ` set (filter (\<lambda>x. se_userId x = 8 \<and> \<not> se_revoked x) (sg_sessions demo_change)) \<subseteq> {''ha:8:z''}"
proof -
  let ?dto = "\<lparr>up_currentPassword = ''old'', up_newPassword = ''x''\<rparr>" and ?rq = "demo_http (Some ''Bearer a:8:z'')"
  have "fst (updatePassword demo_auth demo_crypto (demo_moment 9 ''n'') demo_directory_env ?rq None ?dto demo_signing) = Inr 0" by code_simp
  then have u: "updatePassword demo_auth demo_crypto (demo_moment 9 ''n'') demo_directory_env ?rq None ?dto demo_signing = (Inr 0, demo_change)"
    by (metis demo_change_def prod.collapse)
  have who: "fst (resolveCallerUserId demo_auth demo_crypto (demo_moment 9 ''n'') ?rq None demo_signing) = Inr (8, Some ''a:8:z'')"
    "de_hash demo_directory_env (JStr ''x'') = Inr ''hx''" "hashToken demo_crypto ''a:8:z'' = ''ha:8:z''"
    by code_simp+
  from password_change [OF u] who show ?thesis by auto
qed

text \<open>A wrong password is refused by an exception of the package, which is not among those recorded.\<close>

theorem failed_login_not_audited:
  "case login demo_auth demo_crypto (demo_moment 9 ''n'') demo_directory_env (demo_login\<lparr>ld_password := ''wrong''\<rparr>) (demo_http None) demo_signing of
     (res, s') \<Rightarrow> res = Inl (UnauthorizedException ''Invalid credentials'') \<and> dr_audits (sg_dir s') = []"
  by code_simp

end
