(* ===== verification/PushProviders.thy ===== *)
theory PushProviders
  imports WaveProperties JsText
begin

text \<open>
  The push providers behind the queue worker: \<open>src/notification/fcm.service.ts\<close>, \<open>apns.service.ts\<close> and
  \<open>webpush.service.ts\<close>. Setting up a provider and handing over a message are calls of its package, the fields of
  \<open>push_lib\<close>; \<open>with_providers\<close> puts the three services in the place of the worker's parameters.
\<close>

section \<open>Packages and messages\<close>

record fcm_message =
  fm_title :: string
  fm_body :: string
  fm_imageUrl :: "string option"
  fm_priority :: string
  fm_channelId :: string
  fm_notificationPriority :: string
  fm_defaultSound :: bool
  fm_defaultVibrateTimings :: bool
  fm_data :: "(string \<times> string) list"

record apn_notification =
  an_title :: string
  an_body :: string
  an_sound :: string
  an_payload :: "(string \<times> string) list"
  an_mutableContent :: "int option"
  an_topic :: string
  an_priority :: int
  an_expiry :: int

text \<open>
  What \<open>provider.send\<close> of the APNs package answers: for each device that failed the response of Apple, a reason,
  which is missing when the transport failed; and the devices reached.
\<close>

record apn_result =
  ar_failed :: "string option list"
  ar_sent :: "string list"

text \<open>
  A left summand is what the call throws: a code or status and a message. \<open>pl_firebase\<close>, \<open>pl_apnProvider\<close> and
  \<open>pl_vapid\<close> say whether setting up succeeds.
\<close>

record push_lib =
  pl_config :: "string \<Rightarrow> string option"
  pl_readFile :: "string \<Rightarrow> string option"
  pl_firebase :: "string \<Rightarrow> string \<Rightarrow> string \<Rightarrow> bool"
  pl_fcmSend :: "string \<Rightarrow> fcm_message \<Rightarrow> (string option \<times> string) + string"
  pl_fcmMulticast :: "string list \<Rightarrow> fcm_message \<Rightarrow> string + ((string option \<times> string option) + string) list"
  pl_apnProvider :: "string \<Rightarrow> string \<Rightarrow> string \<Rightarrow> bool \<Rightarrow> bool"
  pl_apnSend :: "apn_notification \<Rightarrow> string \<Rightarrow> string + apn_result"
  pl_vapid :: "string \<Rightarrow> string \<Rightarrow> string \<Rightarrow> bool"
  pl_jsonParse :: "string \<Rightarrow> json option"
  pl_webpushSend :: "json \<Rightarrow> json \<Rightarrow> string \<Rightarrow> (int option \<times> string option) + string option"

definition sent_result :: "string option \<Rightarrow> send_result" where
  "sent_result m = \<lparr>sr_success = True, sr_messageId = m, sr_error = None, sr_invalidToken = False\<rparr>"

definition unsent_result :: "string \<Rightarrow> bool \<Rightarrow> send_result" where
  "unsent_result err invalid = \<lparr>sr_success = False, sr_messageId = None, sr_error = Some err, sr_invalidToken = invalid\<rparr>"

definition setting :: "push_lib \<Rightarrow> string \<Rightarrow> string" where
  "setting pl k = defaulted [] (pl_config pl k)"

section \<open>Firebase\<close>

fun unescape_newlines :: "string \<Rightarrow> string" where
  "unescape_newlines (a # b # s) =
     (if a = CHR 0x5C \<and> b = CHR ''n'' then CHR 0x0A # unescape_newlines s else a # unescape_newlines (b # s))"
| "unescape_newlines s = s"

definition fcm_initialize :: "push_lib \<Rightarrow> bool" where
  "fcm_initialize pl =
     (let projectId = setting pl ''FCM_PROJECT_ID''; clientEmail = setting pl ''FCM_CLIENT_EMAIL'';
          privateKey = setting pl ''FCM_PRIVATE_KEY''
      in if projectId = [] \<or> clientEmail = [] \<or> privateKey = [] \<or> str_includes ''your-'' projectId \<or>
            str_includes ''your-'' clientEmail \<or> str_includes ''YourPrivateKeyHere'' privateKey then False
         else pl_firebase pl projectId clientEmail (unescape_newlines privateKey))"

definition fcm_message_of :: "push_payload \<Rightarrow> fcm_message" where
  "fcm_message_of p =
     \<lparr>fm_title = pp_title p, fm_body = pp_body p,
      fm_imageUrl = (if truthy_str (pp_imageUrl p) then pp_imageUrl p else None),
      fm_priority = ''high'', fm_channelId = ''missing-pet-alerts'', fm_notificationPriority = ''high'',
      fm_defaultSound = True, fm_defaultVibrateTimings = True, fm_data = pp_data p\<rparr>"

definition invalidTokenErrors :: "string list" where
  "invalidTokenErrors = [''messaging/invalid-registration-token'', ''messaging/registration-token-not-registered'']"

definition dead_fcm_code :: "string option \<Rightarrow> bool" where
  "dead_fcm_code code \<longleftrightarrow> list_ex (\<lambda>k. case code of None \<Rightarrow> False | Some c \<Rightarrow> str_includes k c) invalidTokenErrors"

definition fcm_sendNotification :: "push_lib \<Rightarrow> string \<Rightarrow> push_payload \<Rightarrow> send_result" where
  "fcm_sendNotification pl token payload =
     (if \<not> fcm_initialize pl then unsent_result ''FCM_NOT_INITIALIZED'' False
      else case pl_fcmSend pl token (fcm_message_of payload) of
        Inr messageId \<Rightarrow> sent_result (Some messageId)
      | Inl (code, message) \<Rightarrow> unsent_result message (dead_fcm_code code))"

definition fcm_batch_result :: "(string option \<times> string option) + string \<Rightarrow> send_result" where
  "fcm_batch_result resp =
     (case resp of
        Inr messageId \<Rightarrow> sent_result (Some messageId)
      | Inl (code, message) \<Rightarrow>
          unsent_result (if truthy_str message then the message else ''Unknown error'') (dead_fcm_code code))"

definition fcm_batchSend :: "push_lib \<Rightarrow> string list \<Rightarrow> push_payload \<Rightarrow> send_result list" where
  "fcm_batchSend pl tokens payload =
     (if \<not> fcm_initialize pl then map (\<lambda>_. unsent_result ''FCM_NOT_INITIALIZED'' False) tokens
      else case pl_fcmMulticast pl tokens (fcm_message_of payload) of
        Inl message \<Rightarrow> map (\<lambda>_. unsent_result message False) tokens
      | Inr responses \<Rightarrow> map fcm_batch_result responses)"

section \<open>APNs\<close>

text \<open>A setting is text, so the flag is on for every text but the empty one.\<close>

definition apns_production :: "push_lib \<Rightarrow> bool" where
  "apns_production pl \<longleftrightarrow> truthy_str (pl_config pl ''APNS_PRODUCTION'')"

definition apns_initialize :: "push_lib \<Rightarrow> bool" where
  "apns_initialize pl =
     (let keyId = setting pl ''APNS_KEY_ID''; teamId = setting pl ''APNS_TEAM_ID'';
          bundleId = setting pl ''APNS_BUNDLE_ID''; keyPath = setting pl ''APNS_PRIVATE_KEY_PATH''
      in if keyId = [] \<or> teamId = [] \<or> bundleId = [] \<or> keyPath = [] then False
         else case pl_readFile pl keyPath of
           None \<Rightarrow> False
         | Some token \<Rightarrow> pl_apnProvider pl token keyId teamId (apns_production pl))"

text \<open>The callers give data and no badge; \<open>t\<close> is the clock.\<close>

definition apn_notification_of :: "push_lib \<Rightarrow> time \<Rightarrow> push_payload \<Rightarrow> apn_notification" where
  "apn_notification_of pl t p =
     (let image = truthy_str (pp_imageUrl p) in
      \<lparr>an_title = pp_title p, an_body = pp_body p, an_sound = ''default'',
       an_payload = (if image then map_set ''imageUrl'' (the (pp_imageUrl p)) (pp_data p) else pp_data p),
       an_mutableContent = (if image then Some 1 else None), an_topic = setting pl ''APNS_BUNDLE_ID'',
       an_priority = 10, an_expiry = t div 1000 + 86400\<rparr>)"

definition invalidTokenReasons :: "string list" where
  "invalidTokenReasons = [''BadDeviceToken'', ''Unregistered'', ''DeviceTokenNotForTopic'']"

definition apns_sendNotification :: "push_lib \<Rightarrow> time \<Rightarrow> string \<Rightarrow> push_payload \<Rightarrow> send_result" where
  "apns_sendNotification pl t token payload =
     (if \<not> apns_initialize pl then unsent_result ''APNS_NOT_INITIALIZED'' False
      else case pl_apnSend pl (apn_notification_of pl t payload) token of
        Inl message \<Rightarrow> unsent_result message False
      | Inr r \<Rightarrow>
          (case ar_failed r of
             Some reason # _ \<Rightarrow> unsent_result reason (reason \<in> set invalidTokenReasons)
           | None # _ \<Rightarrow> unsent_result ''Cannot read properties of undefined (reading 'reason')'' False
           | [] \<Rightarrow> (case ar_sent r of
                device # _ \<Rightarrow> sent_result (Some device)
              | [] \<Rightarrow> unsent_result ''UNKNOWN_RESULT'' False)))"

definition apns_batchSend :: "push_lib \<Rightarrow> time \<Rightarrow> string list \<Rightarrow> push_payload \<Rightarrow> send_result list" where
  "apns_batchSend pl t tokens payload =
     (if \<not> apns_initialize pl then map (\<lambda>_. unsent_result ''APNS_NOT_INITIALIZED'' False) tokens
      else map (\<lambda>token. apns_sendNotification pl t token payload) tokens)"

section \<open>Web push\<close>

definition DEFAULT_ICON_PATH :: string where "DEFAULT_ICON_PATH = ''/icons/icon-192.png''"

definition webpush_initialize :: "push_lib \<Rightarrow> bool" where
  "webpush_initialize pl =
     (let publicKey = setting pl ''VAPID_PUBLIC_KEY''; privateKey = setting pl ''VAPID_PRIVATE_KEY'';
          subject = setting pl ''VAPID_SUBJECT''
      in if publicKey = [] \<or> privateKey = [] \<or> subject = [] \<or> str_includes ''your-'' publicKey \<or>
            str_includes ''your-'' privateKey then False
         else pl_vapid pl subject publicKey privateKey)"

definition json_true :: "json \<Rightarrow> bool" where
  "json_true v =
     (case v of JUndefined \<Rightarrow> False | JNull \<Rightarrow> False | JBool b \<Rightarrow> b | JNum x \<Rightarrow> x \<noteq> 0 | JStr s \<Rightarrow> s \<noteq> [] | _ \<Rightarrow> True)"

definition parseSubscription :: "push_lib \<Rightarrow> string \<Rightarrow> json option" where
  "parseSubscription pl token =
     (case pl_jsonParse pl token of
        None \<Rightarrow> None
      | Some parsed \<Rightarrow>
          if \<not> json_true (json_prop ''endpoint'' parsed) \<or> \<not> json_true (json_prop ''p256dh'' (json_prop ''keys'' parsed)) \<or>
             \<not> json_true (json_prop ''auth'' (json_prop ''keys'' parsed)) then None
          else Some parsed)"

definition web_body :: "env \<Rightarrow> push_payload \<Rightarrow> json" where
  "web_body e p =
     (let icon = JStr (buildWebAppUrl e DEFAULT_ICON_PATH) in
      JObj ([(''title'', JStr (pp_title p)), (''body'', JStr (pp_body p)), (''icon'', icon), (''badge'', icon)] @
        (if truthy_str (pp_imageUrl p) then [(''image'', JStr (the (pp_imageUrl p)))] else []) @
        [(''data'', JObj (map (\<lambda>(k, v). (k, JStr v)) (pp_data p)))]))"

definition webpush_sendNotification :: "push_lib \<Rightarrow> env \<Rightarrow> string \<Rightarrow> push_payload \<Rightarrow> send_result" where
  "webpush_sendNotification pl e token payload =
     (if \<not> webpush_initialize pl then unsent_result ''WEB_PUSH_NOT_INITIALIZED'' False
      else case parseSubscription pl token of
        None \<Rightarrow> unsent_result ''MALFORMED_SUBSCRIPTION'' True
      | Some subscription \<Rightarrow>
          (case pl_webpushSend pl subscription (web_body e payload) (defaulted ''3600'' (pl_config pl ''WEB_PUSH_TTL_SECONDS'')) of
             Inr location \<Rightarrow> sent_result location
           | Inl (status, message) \<Rightarrow>
               unsent_result (if truthy_str message then the message else ''UNKNOWN_ERROR'')
                 (status = Some 404 \<or> status = Some 410)))"

definition with_providers :: "push_lib \<Rightarrow> env \<Rightarrow> env" where
  "with_providers pl e =
     e\<lparr>fcm_send := fcm_sendNotification pl, apns_send := apns_sendNotification pl (now e),
       webpush_send := webpush_sendNotification pl e\<rparr>"


section \<open>What the worker relies on\<close>

text \<open>
  A transport that is not set up says so with an error the worker does not retry, and a message that went out never
  reports a dead token.
\<close>

locale push_transport =
  fixes send :: "string \<Rightarrow> push_payload \<Rightarrow> send_result" and ready :: bool and not_ready :: string
  assumes unready: "\<not> ready \<Longrightarrow> send t p = unsent_result not_ready False"
    and terminal: "not_ready \<in> set TERMINAL_PUSH_ERRORS"
    and delivered: "sr_success (send t p) \<Longrightarrow> ready \<and> \<not> sr_invalidToken (send t p)"
begin

lemma unready_final:
  "\<not> ready \<Longrightarrow> \<not> sr_success (send t p) \<and> \<not> sr_invalidToken (send t p) \<and> defaulted [] (sr_error (send t p)) \<in> set TERMINAL_PUSH_ERRORS"
  using terminal by (simp add: unready unsent_result_def defaulted_def)

lemma delivered_live: "sr_success (send t p) \<and> sr_invalidToken (send t p) \<longleftrightarrow> False"
  using delivered by blast

end

interpretation fcm: push_transport "fcm_sendNotification pl" "fcm_initialize pl" "''FCM_NOT_INITIALIZED''"
  by unfold_locales
    (auto simp: fcm_sendNotification_def TERMINAL_PUSH_ERRORS_def sent_result_def unsent_result_def split: sum.splits if_splits)

interpretation apns: push_transport "apns_sendNotification pl t" "apns_initialize pl" "''APNS_NOT_INITIALIZED''"
  by unfold_locales
    (auto simp: apns_sendNotification_def TERMINAL_PUSH_ERRORS_def sent_result_def unsent_result_def
      split: sum.splits if_splits list.splits option.splits)

interpretation webpush: push_transport "webpush_sendNotification pl e" "webpush_initialize pl" "''WEB_PUSH_NOT_INITIALIZED''"
  by unfold_locales
    (auto simp: webpush_sendNotification_def TERMINAL_PUSH_ERRORS_def sent_result_def unsent_result_def
      split: sum.splits if_splits option.splits)

section \<open>The worker on its providers\<close>

primrec provider_ready :: "push_lib \<Rightarrow> device_platform \<Rightarrow> bool" where
  "provider_ready pl ANDROID = fcm_initialize pl"
| "provider_ready pl IOS = apns_initialize pl"
| "provider_ready pl WEB = webpush_initialize pl"

text \<open>When the answer of a package means that the device can no longer be reached under its token.\<close>

primrec token_dead :: "push_lib \<Rightarrow> env \<Rightarrow> string \<Rightarrow> push_payload \<Rightarrow> device_platform \<Rightarrow> bool" where
  "token_dead pl e token p ANDROID \<longleftrightarrow>
     (\<exists>code msg. pl_fcmSend pl token (fcm_message_of p) = Inl (Some code, msg) \<and>
        (str_includes ''messaging/invalid-registration-token'' code \<or> str_includes ''messaging/registration-token-not-registered'' code))"
| "token_dead pl e token p IOS \<longleftrightarrow>
     (\<exists>r reason rest. pl_apnSend pl (apn_notification_of pl (now e) p) token = Inr r \<and> ar_failed r = Some reason # rest \<and>
        reason \<in> {''BadDeviceToken'', ''Unregistered'', ''DeviceTokenNotForTopic''})"
| "token_dead pl e token p WEB \<longleftrightarrow>
     (case parseSubscription pl token of
        None \<Rightarrow> True
      | Some sub \<Rightarrow> \<exists>status msg. pl_webpushSend pl sub (web_body e p) (defaulted ''3600'' (pl_config pl ''WEB_PUSH_TTL_SECONDS''))
                                = Inl (Some status, msg) \<and> status \<in> {404, 410})"

lemma provider_dead:
  "\<not> sr_success (send_push (with_providers pl e) platform token p) \<and> sr_invalidToken (send_push (with_providers pl e) platform token p)
   \<longleftrightarrow> provider_ready pl platform \<and> token_dead pl e token p platform"
proof (cases platform)
  case ANDROID
  then show ?thesis
    by (auto simp: send_push_def with_providers_def fcm_sendNotification_def dead_fcm_code_def invalidTokenErrors_def sent_result_def
        unsent_result_def split: sum.splits option.splits)
next
  case IOS
  then show ?thesis
    by (auto simp: send_push_def with_providers_def apns_sendNotification_def invalidTokenReasons_def sent_result_def
        unsent_result_def split: sum.splits option.splits list.splits)
next
  case WEB
  then show ?thesis
    by (auto simp: send_push_def with_providers_def webpush_sendNotification_def sent_result_def unsent_result_def
        split: sum.splits option.splits)
qed

lemma provider_unready:
  assumes "\<not> provider_ready pl platform"
  shows "\<not> sr_success (send_push (with_providers pl e) platform token p) \<and>
    defaulted [] (sr_error (send_push (with_providers pl e) platform token p)) \<in> set TERMINAL_PUSH_ERRORS"
  using assms fcm.unready_final apns.unready_final webpush.unready_final
  by (cases platform) (simp_all add: send_push_def with_providers_def)

theorem push_end_to_end:
  assumes "find_notification i w = Some n" and "find_device (n_device_id n) w = Some d"
    and "find_alert (n_alert_id n) w = Some a" and "d_push_token d = Some token" and "token \<noteq> []"
    and "processPushNotification (with_providers pl e) i w = (res, w')"
  shows "map_option d_push_token (find_device (n_device_id n) w') =
      Some (if provider_ready pl (d_platform d) \<and> token_dead pl e token (buildPushPayload n a w) (d_platform d)
            then None else Some token) \<and>
    (\<not> provider_ready pl (d_platform d) \<longrightarrow> res = Inr () \<and> map_option n_status (find_notification i w') = Some FAILED)"
proof -
  let ?p = "buildPushPayload n a w"
  let ?r = "send_push (with_providers pl e) (d_platform d) token ?p"
  have tok: "truthy_str (d_push_token d)" "the (d_push_token d) = token" using assms(4,5) by simp_all
  note out = push_outcome [OF assms(1-3) tok(1) refl assms(6), unfolded tok(2)]
  have "map_option d_push_token (find_device (n_device_id n) w') = Some (if \<not> sr_success ?r \<and> sr_invalidToken ?r then None else Some token)"
    using out unfolding assms(4) by blast
  then have "map_option d_push_token (find_device (n_device_id n) w') =
      Some (if provider_ready pl (d_platform d) \<and> token_dead pl e token ?p (d_platform d) then None else Some token)"
    unfolding provider_dead .
  moreover have "res = Inr () \<and> map_option n_status (find_notification i w') = Some FAILED" if "\<not> provider_ready pl (d_platform d)"
    using out provider_unready [OF that, of e token ?p] by simp
  ultimately show ?thesis by blast
qed

section \<open>Settings\<close>

definition apns_settings :: "string \<Rightarrow> push_lib" where
  "apns_settings flag =
     \<lparr>pl_config = (\<lambda>k. if k = ''APNS_PRODUCTION'' then Some flag else Some ''x''), pl_readFile = (\<lambda>p. Some ''key''),
      pl_firebase = (\<lambda>_ _ _. True), pl_fcmSend = (\<lambda>_ _. Inr ''m''), pl_fcmMulticast = (\<lambda>ts _. Inr (map (\<lambda>_. Inr ''m'') ts)),
      pl_apnProvider = (\<lambda>_ _ _ production. \<not> production), pl_apnSend = (\<lambda>_ t. Inr \<lparr>ar_failed = [], ar_sent = [t]\<rparr>),
      pl_vapid = (\<lambda>_ _ _. True), pl_jsonParse = (\<lambda>_. None), pl_webpushSend = (\<lambda>_ _ _. Inr None)\<rparr>"

text \<open>The documented value for the sandbox selects production: the text \<open>false\<close> is true.\<close>

theorem apns_false_is_production:
  "apns_production (apns_settings ''false'') \<and> \<not> apns_production (apns_settings '''')"
  by code_simp

end
