(* ===== verification/Spec2Isabelle.thy ===== *)
theory Spec2Isabelle
  imports AlertQueries AlertProperties QueueSystem SightingProperties AlertZoneProperties AuditLog PetProperties
    InvitationProperties DeviceProperties PasskeyProperties SignInProperties PushProviders
begin

text \<open>
  \<^bold>\<open>Verification of the FiFi Alert server\<close>

  The server (TypeScript, NestJS, Prisma over PostgreSQL with PostGIS, BullMQ over Redis) lets the owner
  of a missing pet raise an alert, finds the devices and users near it, sends them push messages and
  e-mails in waves, collects sightings and tells the helpers when the pet is home.

  \<^bold>\<open>Parts and how they interact.\<close> A request passes the guards (\<open>src/auth/guards\<close>), which ask the token
  service (\<open>src/auth/services\<close>) who is calling. The alert service (\<open>src/alert/alert.service.ts\<close>) asks the
  rate limiter, writes alerts, publishes status events and queues waves through the notification service.
  The queue worker (\<open>src/notification/notification-queue.processor.ts\<close>) takes the jobs, asks the location
  service (\<open>src/location\<close>) for recipients, writes notification rows and hands messages to the push
  providers and the e-mail service. Resolving an alert freezes a public snapshot and queues a success
  story. Sightings (\<open>src/sighting\<close>) refer to alerts, write notification rows for the creator and store photos
  through the upload service (\<open>src/upload\<close>). Pets (\<open>src/pet\<close>) carry the tags and photos that alerts copy, marking
  one as found resolves its alerts, and the adoption board (\<open>src/adoption\<close>) lists them. Devices (\<open>src/device\<close>)
  report the positions that the location service matches. Invitations (\<open>src/invitation\<close>) go out by e-mail and are
  converted when the events of the auth endpoints announce an account or a proven address. Every service emits
  audit payloads, which the audit listener (\<open>src/audit\<close>) redacts and stores.

  \<^bold>\<open>Theories.\<close>
  \<^item> \<open>Prelude\<close>: results and exceptions, JavaScript numbers, strings, dates and maps, the operations of a
    Prisma delegate on a list of rows, the locale \<open>row_store\<close> (what find and update promise, interpreted for
    every table in \<open>World\<close>), the locale \<open>unique_rows\<close> (what a write has to check for a unique index, interpreted
    for invitations, devices, passkeys, accounts and gates) and the locale \<open>lifecycle\<close> (a step relation that keeps an invariant, interpreted
    for alerts, the whole system, tokens, sightings, invitations, devices, passkeys and accounts). \<open>JsText\<close>: \<open>split\<close>, \<open>Number\<close>, \<open>parseFloat\<close>, printing.
  \<^item> \<open>RateLimit\<close>: \<open>rate-limit.service.ts\<close> on a model of Redis sorted sets with expiry; the locale of a sliding
    window log and its interpretation; every admitted creation is within its three windows when requests come one
    after another, and what two at once do.
  \<^item> \<open>World\<close>: the tables of \<open>schema.prisma\<close> as records, the queue, the audit and event buses, the mailbox, and
    \<open>env\<close>, what a handler reads from its surroundings.
  \<^item> \<open>NotificationService\<close>, \<open>AlertEvents\<close>, \<open>Reunion\<close>, \<open>AlertDto\<close>, \<open>Alert\<close>, \<open>AlertLifecycle\<close>: the alert domain, one
    definition per method. \<open>AlertSafety\<close>, \<open>AlertProperties\<close>, \<open>AlertQueries\<close>: its invariant, the lifecycle over
    any sequence of commands, the effect and the refusals of every command, and the equivalence of the
    assembled search statement with a reference search, with the redaction of what strangers see.
  \<^item> \<open>Location\<close>, \<open>AlertEmail\<close>, \<open>NotificationProcessor\<close>: matching, e-mail and the queue worker; \<open>WaveProperties\<close>: who
    is pushed to and why, the fan-out of success stories, the outcome of a push. \<open>PushProviders\<close>: the services
    for FCM, APNs and web push, the locale \<open>push_transport\<close> with what the worker relies on, interpreted for each, and
    the worker on top of them: when a device loses its token.
  \<^item> \<open>Worker\<close>, \<open>QueueSystem\<close>: the queue worker as a sequence of statements. A worker (\<open>worker\<close>) has read its
    alert, or not yet, and has a list of statements to go (\<open>wave_task\<close>, \<open>push_task\<close>); running one to its end alone is the
    function of \<open>NotificationProcessor\<close>. \<open>QueueSystem\<close> interleaves the statements of any number of workers (with
    redelivery), alert commands and device reports: a success story is claimed once and reaches a device in
    one row, and an ended alert stays quiet when no fan-out for it is under way; \<open>late_wave_row\<close> is the
    row that such a fan-out still writes.
  \<^item> \<open>Token\<close>, \<open>TokenSafety\<close>, \<open>TokenProtocol\<close>, \<open>TokenProperties\<close>: access and rotating refresh tokens. A refresh
    request is a sequence of database steps (\<open>rot_phase\<close>), and the protocol interleaves the steps of any number
    of requests with sign-ins, sign-outs, checks and sweeps; one refresh token yields one pair, reuse revokes
    everything, every request is answered.
  \<^item> \<open>Guards\<close>, \<open>GuardProperties\<close>: the guards, throttling buckets, sign-out and refresh endpoints.
  \<^item> \<open>Upload\<close>: recognising images by their bytes, validation, names and batches. \<open>Sighting\<close>,
    \<open>SightingProperties\<close>: reporting, dismissing, photos, and the invariant of the sighting table.
  \<^item> \<open>AlertZone\<close>, \<open>AlertZoneProperties\<close>: \<open>src/user/alert-zone.service.ts\<close> and its read-through cache. The table
    keeps the rules the service checks itself; the cached service refines the specification \<open>zone_spec\<close> without a cache while its
    invalidations succeed, and is at most five minutes behind when they fail.
  \<^item> \<open>Pet\<close>, \<open>Adoption\<close>, \<open>PetProperties\<close>: \<open>src/pet\<close> and \<open>src/adoption\<close> on one state (\<open>pet_state\<close>: the tables, the pet
    types and the listings), with the invariant of pets and listings, what these requests may do to alerts,
    and the states of a listing.
  \<^item> \<open>AuditLog\<close>: \<open>src/audit\<close>, the listener behind the audit bus with its redaction, and the queries.
  \<^item> \<open>Cache\<close>: the cache manager, which may fail or drop an entry. \<open>Language\<close>: \<open>src/i18n/language.service.ts\<close>, the
    negotiation of the language of an answer.
  \<^item> \<open>InvitationText\<close>, \<open>Invitation\<close>, \<open>InvitationProperties\<close>: the texts and their rendering, \<open>invitation.service.ts\<close>
    with its delivery tasks and conversion handlers, and over any run the invariant of the table, the send limits,
    the finality of accepted and withdrawn invitations, and what interleaved requests break.
  \<^item> \<open>Device\<close>, \<open>DeviceProperties\<close>: \<open>src/device\<close>, each write in its two statements, the columns and the PostGIS
    point, of which the second may fail; the invariant of the table, idempotent registration, and the
    composition with \<open>Location\<close>: a reported position counts for the alerts around it.
  \<^item> \<open>Passkey\<close>, \<open>PasskeyProperties\<close>: \<open>src/auth/passkeys\<close>, the second half of each WebAuthn ceremony as a sequence of
    statements; agreement between challenge, assertion and registered key under every interleaving.
  \<^item> \<open>Account\<close>, \<open>Administration\<close>, \<open>AccountProperties\<close>: \<open>src/user\<close>, \<open>src/gate\<close>, \<open>src/admin\<close> and the helpers in
    \<open>src/shared\<close>; what accounts without administrative roles can change, the constraints of the directory, the effect
    of a ban on the token service, what an answer about an account omits, and the requests that break in.
  \<^item> \<open>SignIn\<close>, \<open>SignInProperties\<close>: the remaining endpoints of \<open>src/auth/auth\<close> (sign-in with a password or a
    provider, sign-up, password reset and change, change of address, deletion of the account) and \<open>src/auth/social\<close>;
    to whom tokens are issued, which sessions survive, and which role a provider sign-in hands out.

  \<^bold>\<open>How the model corresponds to the code.\<close> A service method is a function from its arguments, \<open>env\<close> (or
  \<open>crypto\<close> and \<open>moment\<close>) and the world to its result, \<open>Inl\<close> an exception or \<open>Inr\<close> a value, and the new world.
  Definitions keep the names of the methods; a suffix tells apart methods of the same name in several
  services. Rows are records with the columns of the schema; tables are lists in insertion order. Numbers
  are exact rationals and integers; ids are integers; instants are milliseconds. ISO 8601 fields hold the
  instant they denote. An unavailable queue, mail provider or Redis, and the failure of a statement whose error the code
  catches and survives, are values of the surroundings (\<open>env\<close>, \<open>moment\<close>, \<open>pet_env\<close>, \<open>reset_run\<close>): the
  \<open>catch\<close> around it is a branch of the model. Left out are the catches whose failure loses a log row only or repeats
  a failed push (the e-mail rows of waves and stories, the clearing of a dead push token): there the statement
  succeeds, as does a statement outside any such block. That the database goes away in the middle of a handler is modelled for
  the workers, which may stop anywhere, and for the position of a device.

  \<^bold>\<open>Bodies of requests.\<close> Fields have the types of their DTO. \<open>main.ts\<close> registers no \<open>ValidationPipe\<close>, and \<open>/alerts\<close> (but for
  \<open>resolve\<close>), \<open>/devices\<close>, \<open>/pets\<close> and \<open>me/alert-zones\<close> attach none, so ranges and lengths declared there are
  assumed nowhere: the predicates \<open>valid_create_alert\<close> and so on state what is documented, and theorems show what is stored without
  them. Keys that a DTO does not declare are part of the body where the service passes it on to the client as a whole
  (\<open>cp_rest\<close> and \<open>up_rest\<close> of pets, the bodies of accounts).

  \<^bold>\<open>Atomicity.\<close> A command of the alert service, of pets, listings, zones, invitations and accounts runs as one step; where
  a check and the write it guards are separate statements, a theorem shows what two requests at once can do
  (\<open>concurrent_over_limit\<close>, \<open>daily_limit_race\<close>, \<open>adoption_race\<close>, \<open>photo_limit_race\<close>). Split at every statement are the
  queue workers, the refresh requests (at every statement that reads or writes the session row) and the second halves of
  the passkey ceremonies. \<open>revokeAllUserTokens\<close>, the minting of a pair and the nightly sweep, two or three statements
  each, are one step.

  \<^bold>\<open>Parameters and hypotheses.\<close> PostGIS distances (\<open>geo_ok\<close>: \<open>ST_DWithin\<close> is a bound on \<open>ST_Distance\<close>), the
  packages of the push providers (\<open>push_lib\<close>), mail providers, the Cloudinary SDK, the WebAuthn verifier (\<open>counter_checked\<close>: it refuses a counter that does not grow), the
  authentication package (\<open>auth_api\<close>; \<open>sign_in_ok\<close>: it signs in the account of the address whose hash verifies), JWT, SHA-256, AES-GCM, Base64 and JSON (\<open>crypto_ok\<close>: decoding
  inverts encoding) and the format checks of the validation package are functions; concrete instances
  (\<open>demo_env\<close>, \<open>demo_crypto\<close>) satisfy the hypotheses. Freshly signed tokens are assumed to hash to values never
  stored before (\<open>fresh_pair\<close>), which the random identifier in them is for.

  \<^bold>\<open>Bounds and fuel.\<close> \<open>rotateRefreshToken\<close> runs a request for ten steps after its first read; \<open>refresh_answered\<close>
  shows that eight answer every request, with at most nine database statements in all. \<open>show_number\<close> prints at most twenty decimals. All other loops are structural or come
  with a measure.

  \<^bold>\<open>Not modelled.\<close> The cookie sessions of the authentication package, mail providers, health checks, pet types, scripts, and \<open>matchSavedZones\<close> of the location
  service, which nothing calls. Log lines are left out everywhere.
\<close>

end
